(* ===== verification/Tgc_Prelude.thy ===== *)
theory Tgc_Prelude
  imports "HOL-Library.Word"
begin

text \<open>
  Shared vocabulary of the development: the C integer types, the errno values, the
  \<^emph>\<open>first matching slot\<close> search that every table scan of the broker is, and the generic
  facts about lists and machine words the components use.

  Conventions of the whole model. A C integer of width \<open>w\<close> is a \<open>w word\<close>; signed types are
  the same words read with \<open>sint\<close>, so the conversions C makes between \<open>int32_t\<close> and
  \<open>uint32_t\<close> are the identity, exactly as on the machine. \<open>size_t\<close> indices and counts are
  \<open>nat\<close>. A function that returns a negative errno returns the word \<open>- EINVAL\<close> etc. A
  parameter that points to an object is modelled by the object; a guard \<^verbatim>\<open>p == NULL\<close> on such a
  parameter has no counterpart, because a HOL value is never NULL. Pointers an application
  hands in from outside (the libc boundary) are \<open>option\<close> values and their NULL guards are kept.
\<close>

unbundle bit_operations_syntax

section \<open>C types and errno values\<close>

type_synonym u8 = "8 word"
type_synonym u16 = "16 word"
type_synonym u32 = "32 word"
type_synonym u64 = "64 word"
type_synonym s16 = "16 word"
type_synonym s32 = "32 word"
type_synonym s64 = "64 word"

abbreviation EPERM :: s32 where "EPERM \<equiv> 1"
abbreviation ENOENT :: s32 where "ENOENT \<equiv> 2"
abbreviation EINTR :: s32 where "EINTR \<equiv> 4"
abbreviation EAGAIN :: s32 where "EAGAIN \<equiv> 11"
abbreviation ENOMEM :: s32 where "ENOMEM \<equiv> 12"
abbreviation EACCES :: s32 where "EACCES \<equiv> 13"
abbreviation EFAULT :: s32 where "EFAULT \<equiv> 14"
abbreviation EEXIST :: s32 where "EEXIST \<equiv> 17"
abbreviation ENOTDIR :: s32 where "ENOTDIR \<equiv> 20"
abbreviation EINVAL :: s32 where "EINVAL \<equiv> 22"
abbreviation ENOSPC :: s32 where "ENOSPC \<equiv> 28"
abbreviation EPIPE :: s32 where "EPIPE \<equiv> 32"
abbreviation ERANGE :: s32 where "ERANGE \<equiv> 34"
abbreviation ENAMETOOLONG :: s32 where "ENAMETOOLONG \<equiv> 36"
abbreviation ENOSYS :: s32 where "ENOSYS \<equiv> 38"
abbreviation EPROTO :: s32 where "EPROTO \<equiv> 71"
abbreviation EOVERFLOW :: s32 where "EOVERFLOW \<equiv> 75"
abbreviation EMSGSIZE :: s32 where "EMSGSIZE \<equiv> 90"
abbreviation EADDRINUSE :: s32 where "EADDRINUSE \<equiv> 98"
abbreviation ECONNRESET :: s32 where "ECONNRESET \<equiv> 104"
abbreviation ETIMEDOUT :: s32 where "ETIMEDOUT \<equiv> 110"

text \<open>C's test \<^verbatim>\<open>x < 0\<close> on a signed 32-bit value.\<close>

abbreviation negative :: "s32 \<Rightarrow> bool" where
  "negative x \<equiv> sint x < 0"

text \<open>The definitions of interposed functions, for evaluating a call of a shim.\<close>

named_theorems shim_defs

section \<open>The first matching slot of an array\<close>

text \<open>
  The source scans its fixed-size tables with \<^verbatim>\<open>for (i = 0; i < MAX; ++i) if (P(t[i])) return\<close>.
  \<open>first_index P xs\<close> is that loop: the least index whose element satisfies \<open>P\<close>.
\<close>

fun first_index :: "('a \<Rightarrow> bool) \<Rightarrow> 'a list \<Rightarrow> nat option" where
  "first_index P [] = None"
| "first_index P (x # xs) = (if P x then Some 0 else map_option Suc (first_index P xs))"

lemma first_index_None_iff: "first_index P xs = None \<longleftrightarrow> (\<forall>x \<in> set xs. \<not> P x)"
  by (induction xs) auto

lemma first_index_Some_iff:
  "first_index P xs = Some i \<longleftrightarrow> i < length xs \<and> P (xs ! i) \<and> (\<forall>j < i. \<not> P (xs ! j))"
proof (induction xs arbitrary: i)
  case Nil
  then show ?case by simp
next
  case (Cons x xs)
  show ?case
  proof (cases i)
    case 0
    then show ?thesis by auto
  next
    case (Suc k)
    have "(\<forall>j < Suc k. \<not> P ((x # xs) ! j)) \<longleftrightarrow> \<not> P x \<and> (\<forall>j < k. \<not> P (xs ! j))"
      by (auto simp: All_less_Suc2)
    then show ?thesis using Suc Cons.IH by auto
  qed
qed

lemma first_indexD:
  assumes "first_index P xs = Some i"
  shows "i < length xs" and "P (xs ! i)"
  using assms by (simp_all add: first_index_Some_iff)

lemma first_index_replicate:
  "first_index P (replicate n x) = (if n \<noteq> 0 \<and> P x then Some 0 else None)"
  by (cases n) (auto simp: first_index_None_iff)

lemma first_index_unique:
  assumes "i < length xs" and "P (xs ! i)"
    and "\<And>j. j < length xs \<Longrightarrow> P (xs ! j) \<Longrightarrow> j = i"
  shows "first_index P xs = Some i"
proof -
  have "\<not> P (xs ! j)" if "j < i" for j
    using that assms(1) assms(3) [of j] by auto
  then show ?thesis using assms(1,2) by (simp add: first_index_Some_iff)
qed

lemma first_index_cong:
  "(\<And>x. x \<in> set xs \<Longrightarrow> P x = Q x) \<Longrightarrow> first_index P xs = first_index Q xs"
  by (induction xs) auto

section \<open>Counting slots\<close>

lemma length_filter_list_update:
  "i < length xs \<Longrightarrow>
   length (filter P (xs[i := y])) + (if P (xs ! i) then 1 else 0) =
   length (filter P xs) + (if P y then 1 else 0)"
proof (induction xs arbitrary: i)
  case Nil
  then show ?case by simp
next
  case (Cons x xs)
  show ?case
  proof (cases i)
    case 0
    then show ?thesis by simp
  next
    case (Suc k)
    with Cons.prems have "k < length xs" by simp
    from Cons.IH [OF this] show ?thesis using Suc by simp
  qed
qed

lemma length_filter_pos_first_index:
  assumes "0 < length (filter P xs)"
  obtains i where "first_index P xs = Some i"
proof (cases "first_index P xs")
  case None
  then have "filter P xs = []" by (simp add: first_index_None_iff filter_empty_conv)
  with assms show ?thesis by simp
qed blast

lemma nth_update_if: "j < length xs \<Longrightarrow> xs[i := y] ! j = (if i = j then y else xs ! j)"
  by (cases "i = j") auto

lemma takeWhile_upto: "a \<notin> set as \<Longrightarrow> takeWhile (\<lambda>x. x \<noteq> a) (as @ a # bs) = as"
  by (induction as) auto

section \<open>Slot tables\<close>

text \<open>
  The broker keeps its undo entries, its process watchers and its semaphore sets in fixed arrays
  of slots with an active flag, looked up by a key that is unique among the active slots.
\<close>

definition slots_unique :: "('e \<Rightarrow> bool) \<Rightarrow> ('e \<Rightarrow> 'k) \<Rightarrow> 'e list \<Rightarrow> bool" where
  "slots_unique act key xs \<longleftrightarrow>
     (\<forall>i j. i < length xs \<longrightarrow> j < length xs \<longrightarrow> act (xs ! i) \<longrightarrow> act (xs ! j) \<longrightarrow>
        key (xs ! i) = key (xs ! j) \<longrightarrow> i = j)"

lemma slots_uniqueD:
  "slots_unique act key xs \<Longrightarrow> i < length xs \<Longrightarrow> j < length xs \<Longrightarrow> act (xs ! i) \<Longrightarrow> act (xs ! j) \<Longrightarrow>
   key (xs ! i) = key (xs ! j) \<Longrightarrow> i = j"
  by (simp add: slots_unique_def)

lemma slots_unique_inactive: "(\<And>x. x \<in> set xs \<Longrightarrow> \<not> act x) \<Longrightarrow> slots_unique act key xs"
  by (auto simp: slots_unique_def)

lemma slots_unique_deactivate:
  "slots_unique act key xs \<Longrightarrow> \<not> act e \<Longrightarrow> slots_unique act key (xs[i := e])"
  by (auto simp: slots_unique_def nth_update_if split: if_splits)

lemma slots_unique_replace:
  assumes "slots_unique act key xs" and "act e \<Longrightarrow> act (xs ! i)" and "key e = key (xs ! i)"
  shows "slots_unique act key (xs[i := e])"
  using assms unfolding slots_unique_def by (simp add: nth_update_if) metis

lemma slots_unique_insert:
  assumes "slots_unique act key xs"
    and "\<And>j. j < length xs \<Longrightarrow> j \<noteq> i \<Longrightarrow> act (xs ! j) \<Longrightarrow> key (xs ! j) \<noteq> key e"
  shows "slots_unique act key (xs[i := e])"
  using assms unfolding slots_unique_def by (simp add: nth_update_if) metis

lemma slots_unique_map:
  assumes "slots_unique act key xs" and "\<And>x. x \<in> set xs \<Longrightarrow> act (f x) \<Longrightarrow> act x"
    and "\<And>x. x \<in> set xs \<Longrightarrow> key (f x) = key x"
  shows "slots_unique act key (map f xs)"
  using assms by (auto simp: slots_unique_def)

text \<open>The interface of such a table: \<open>lookup\<close> and \<open>free\<close> are the source's two scans of it.\<close>

locale slot_table =
  fixes table :: "'s \<Rightarrow> 'e list"
    and act :: "'e \<Rightarrow> bool"
    and key :: "'e \<Rightarrow> 'k"
    and lookup :: "'s \<Rightarrow> 'k \<Rightarrow> nat option"
    and free :: "'s \<Rightarrow> nat option"
  assumes lookup_scan: "lookup s k = first_index (\<lambda>e. act e \<and> key e = k) (table s)"
    and free_scan: "free s = first_index (\<lambda>e. \<not> act e) (table s)"
begin

lemma lookup_SomeD:
  assumes "lookup s k = Some i"
  shows "i < length (table s)" and "act (table s ! i)" and "key (table s ! i) = k"
  using assms by (simp_all add: lookup_scan first_index_Some_iff)

lemma lookup_NoneD:
  "lookup s k = None \<Longrightarrow> i < length (table s) \<Longrightarrow> act (table s ! i) \<Longrightarrow> key (table s ! i) \<noteq> k"
  by (auto simp: lookup_scan first_index_None_iff)

lemma lookup_unique:
  assumes "slots_unique act key (table s)" and "i < length (table s)" and "act (table s ! i)"
    and "key (table s ! i) = k"
  shows "lookup s k = Some i"
  unfolding lookup_scan
  by (rule first_index_unique) (use assms in \<open>auto dest: slots_uniqueD\<close>)

lemma free_SomeD:
  assumes "free s = Some i"
  shows "i < length (table s)" and "\<not> act (table s ! i)"
  using assms by (simp_all add: free_scan first_index_Some_iff)

lemma free_available:
  assumes "0 < length (filter (\<lambda>e. \<not> act e) (table s))"
  obtains i where "free s = Some i"
  using length_filter_pos_first_index [OF assms] that unfolding free_scan by blast

lemma insert_unique:
  assumes "slots_unique act key (table s)" and "lookup s (key e) = None"
  shows "slots_unique act key ((table s)[i := e])"
  by (rule slots_unique_insert) (use assms lookup_NoneD in auto)

end

text \<open>The element an active key denotes, and how writing one slot changes it.\<close>

definition slot_get :: "('e \<Rightarrow> bool) \<Rightarrow> ('e \<Rightarrow> 'k) \<Rightarrow> 'e list \<Rightarrow> 'k \<Rightarrow> 'e option" where
  "slot_get act key xs k =
     (case first_index (\<lambda>e. act e \<and> key e = k) xs of None \<Rightarrow> None | Some i \<Rightarrow> Some (xs ! i))"

lemma slot_get_Some_iff:
  assumes "slots_unique act key xs"
  shows "slot_get act key xs k = Some e \<longleftrightarrow> e \<in> set xs \<and> act e \<and> key e = k"
proof
  assume "slot_get act key xs k = Some e"
  then show "e \<in> set xs \<and> act e \<and> key e = k"
    by (auto simp: slot_get_def first_index_Some_iff split: option.splits)
next
  assume r: "e \<in> set xs \<and> act e \<and> key e = k"
  then obtain i where i: "i < length xs" "xs ! i = e" by (auto simp: in_set_conv_nth)
  have "first_index (\<lambda>e. act e \<and> key e = k) xs = Some i"
    by (rule first_index_unique) (use assms r i in \<open>auto dest: slots_uniqueD\<close>)
  then show "slot_get act key xs k = Some e" using i by (simp add: slot_get_def)
qed

lemma slot_get_None_iff:
  "slot_get act key xs k = None \<longleftrightarrow> (\<forall>e \<in> set xs. act e \<longrightarrow> key e \<noteq> k)"
proof -
  have "slot_get act key xs k = None \<longleftrightarrow> first_index (\<lambda>e. act e \<and> key e = k) xs = None"
    by (simp add: slot_get_def split: option.splits)
  then show ?thesis by (simp add: first_index_None_iff)
qed

lemma slot_get_Nil: "slot_get act key [] k = None"
  by (simp add: slot_get_def)

lemma slot_get_Cons:
  "slot_get act key (x # xs) k = (if act x \<and> key x = k then Some x else slot_get act key xs k)"
  by (simp add: slot_get_def split: option.splits)

text \<open>Switching off every active slot whose key satisfies \<open>P\<close>.\<close>

lemma slot_get_switch_off:
  assumes "\<And>e. \<not> act (off e)"
  shows "slot_get act key (map (\<lambda>e. if act e \<and> P (key e) then off e else e) xs) k =
    (if P k then None else slot_get act key xs k)"
  using assms by (induction xs) (auto simp: slot_get_Nil slot_get_Cons)

lemma option_eqI: "(\<And>x. a = Some x \<longleftrightarrow> b = Some x) \<Longrightarrow> a = b"
  by (cases a; cases b) auto

text \<open>Writing \<open>e\<close> to a slot that was free or already belonged to the key \<open>K\<close>.\<close>

lemma slot_get_update:
  assumes u: "slots_unique act key xs" and i: "i < length xs"
    and K: "act (xs ! i) \<Longrightarrow> key (xs ! i) = K" and e: "key e = K"
    and only: "\<And>j. j < length xs \<Longrightarrow> j \<noteq> i \<Longrightarrow> act (xs ! j) \<Longrightarrow> key (xs ! j) \<noteq> K"
  shows "slots_unique act key (xs[i := e])"
    and "slot_get act key (xs[i := e]) k =
      (if k = K then if act e then Some e else None else slot_get act key xs k)"
proof -
  show u': "slots_unique act key (xs[i := e])"
    by (rule slots_unique_insert) (use u only e in auto)
  have mem: "x \<in> set (xs[i := e]) \<longleftrightarrow> x = e \<or> (\<exists>j < length xs. j \<noteq> i \<and> xs ! j = x)" for x
    using i by (auto simp: in_set_conv_nth nth_update_if) (metis nth_list_update_eq nth_list_update_neq)+
  have eq: "x \<in> set (xs[i := e]) \<and> act x \<and> key x = k \<longleftrightarrow>
      (if k = K then x = e \<and> act e else x \<in> set xs \<and> act x \<and> key x = k)" for x
    unfolding mem using K e only i by (auto simp: in_set_conv_nth)
  show "slot_get act key (xs[i := e]) k =
      (if k = K then if act e then Some e else None else slot_get act key xs k)"
  proof (rule option_eqI)
    fix x
    show "slot_get act key (xs[i := e]) k = Some x \<longleftrightarrow>
        (if k = K then if act e then Some e else None else slot_get act key xs k) = Some x"
      unfolding slot_get_Some_iff [OF u'] eq using slot_get_Some_iff [OF u, of k x]
      by (cases "k = K") auto
  qed
qed

section \<open>Transition systems with an invariant\<close>

text \<open>
  The interface of a component that runs as a sequence of atomic steps: an initial state, a step
  relation and an invariant every step keeps.
\<close>

locale transition_system =
  fixes init :: 's
    and step :: "'s \<Rightarrow> 's \<Rightarrow> bool"
    and inv :: "'s \<Rightarrow> bool"
  assumes inv_init: "inv init"
    and inv_step: "inv s \<Longrightarrow> step s t \<Longrightarrow> inv t"
begin

lemma reachable_inv:
  assumes "step\<^sup>*\<^sup>* init s"
  shows "inv s"
  using assms by (induction rule: rtranclp_induct) (auto intro: inv_init inv_step)

end

section \<open>Words\<close>

lemma sint_bounds32: "- 2147483648 \<le> sint (x :: s32)" "sint (x :: s32) < 2147483648"
  using sint_ge [of x] sint_lt [of x] by simp_all

lemma sint_bounds16: "- 32768 \<le> sint (x :: s16)" "sint (x :: s16) < 32768"
  using sint_ge [of x] sint_lt [of x] by simp_all

lemma uint_bound16: "0 \<le> uint (x :: u16)" "uint (x :: u16) < 65536"
  using unsigned_less [of x] by simp_all

lemma uint_bound32: "0 \<le> uint (x :: u32)" "uint (x :: u32) < 4294967296"
  using unsigned_less [of x] by simp_all

text \<open>\<open>sint\<close> by cases on the sign bit.\<close>

lemma shifted_mod:
  assumes "0 \<le> u" "u < 2 * (m :: int)" "0 < m"
  shows "(u + m) mod (2 * m) - m = (if u < m then u else u - 2 * m)"
proof (cases "u < m")
  case True
  then have "(u + m) mod (2 * m) = u + m" using assms by (intro mod_pos_pos_trivial) auto
  then show ?thesis using True by simp
next
  case False
  have "(u + m) mod (2 * m) = (u - m + 2 * m) mod (2 * m)" by (simp add: algebra_simps)
  also have "\<dots> = u - m"
    using assms False by (subst mod_add_self2) (intro mod_pos_pos_trivial, auto)
  finally show ?thesis using False by simp
qed

lemma sint_s32_eq:
  "sint (x :: s32) = (if uint x < 2147483648 then uint x else uint x - 4294967296)"
  using shifted_mod [of "uint x" 2147483648] uint_bound32 [of x]
  by (simp add: sint_uint signed_take_bit_eq_take_bit_shift take_bit_eq_mod)

lemma sint_s16_eq: "sint (x :: s16) = (if uint x < 32768 then uint x else uint x - 65536)"
  using shifted_mod [of "uint x" 32768] uint_bound16 [of x]
  by (simp add: sint_uint signed_take_bit_eq_take_bit_shift take_bit_eq_mod)

lemma sint_nonneg_eq:
  assumes "0 \<le> sint (x :: s32)"
  shows "sint x = int (unat x)"
proof -
  have "uint x < 2147483648" using assms uint_bound32 [of x] by (simp add: sint_s32_eq split: if_splits)
  then show ?thesis by (simp add: sint_s32_eq)
qed

lemma sint_s16_nonneg_eq:
  assumes "0 \<le> sint (x :: s16)"
  shows "sint x = int (unat x)"
proof -
  have "uint x < 32768" using assms uint_bound16 [of x] by (simp add: sint_s16_eq split: if_splits)
  then show ?thesis by (simp add: sint_s16_eq)
qed

lemma unat_ucast_u16: "unat (x :: u32) < 65536 \<Longrightarrow> unat (ucast x :: u16) = unat x"
  by (simp add: unsigned_ucast_eq take_bit_nat_eq_self)

lemma unat_bound16: "unat (x :: u16) < 65536"
  using unsigned_less [of x] by simp

lemma ucast_and_255_byte: "(ucast ((v :: 'a::len word) AND 255) :: u8) = ucast v"
proof -
  have "v AND 255 = take_bit 8 v"
    by (simp add: take_bit_eq_mask mask_eq_exp_minus_1)
  then show ?thesis
    by (simp add: bit_eq_iff bit_simps) (auto dest: bit_imp_le_length)
qed

end
