(* ===== verification/Tgc_Wire.thy ===== *)
theory Tgc_Wire
  imports Tgc_Prelude
begin

text \<open>
  The wire format of \<^verbatim>\<open>src/reference-termux-glibc-compat/src/protocol.c\<close>: the little-endian
  integer codecs, the fixed 24-byte header and the packet. A C buffer with a pointer into it is
  a byte list with an offset.
\<close>

section \<open>Little-endian integers\<close>

definition tgc_wire_put_u16 :: "u8 list \<Rightarrow> nat \<Rightarrow> u16 \<Rightarrow> u8 list" where
  "tgc_wire_put_u16 out p v = out
     [p := ucast (v AND 0xff),
      p + 1 := ucast (drop_bit 8 v)]"

definition tgc_wire_put_u32 :: "u8 list \<Rightarrow> nat \<Rightarrow> u32 \<Rightarrow> u8 list" where
  "tgc_wire_put_u32 out p v = out
     [p := ucast (v AND 0xff),
      p + 1 := ucast (drop_bit 8 v AND 0xff),
      p + 2 := ucast (drop_bit 16 v AND 0xff),
      p + 3 := ucast (drop_bit 24 v)]"

definition tgc_wire_put_i16 :: "u8 list \<Rightarrow> nat \<Rightarrow> s16 \<Rightarrow> u8 list" where
  "tgc_wire_put_i16 out p v = tgc_wire_put_u16 out p v"

definition tgc_wire_put_i32 :: "u8 list \<Rightarrow> nat \<Rightarrow> s32 \<Rightarrow> u8 list" where
  "tgc_wire_put_i32 out p v = tgc_wire_put_u32 out p v"

definition tgc_wire_put_u64 :: "u8 list \<Rightarrow> nat \<Rightarrow> u64 \<Rightarrow> u8 list" where
  "tgc_wire_put_u64 out p v =
     tgc_wire_put_u32 (tgc_wire_put_u32 out p (ucast v)) (p + 4) (ucast (drop_bit 32 v))"

definition tgc_wire_put_i64 :: "u8 list \<Rightarrow> nat \<Rightarrow> s64 \<Rightarrow> u8 list" where
  "tgc_wire_put_i64 out p v = tgc_wire_put_u64 out p v"

definition tgc_wire_get_u16 :: "u8 list \<Rightarrow> nat \<Rightarrow> u16" where
  "tgc_wire_get_u16 inp p = ucast (inp ! p) OR push_bit 8 (ucast (inp ! (p + 1)))"

definition tgc_wire_get_u32 :: "u8 list \<Rightarrow> nat \<Rightarrow> u32" where
  "tgc_wire_get_u32 inp p =
     ucast (inp ! p) OR push_bit 8 (ucast (inp ! (p + 1))) OR
     push_bit 16 (ucast (inp ! (p + 2))) OR push_bit 24 (ucast (inp ! (p + 3)))"

definition tgc_wire_get_i16 :: "u8 list \<Rightarrow> nat \<Rightarrow> s16" where
  "tgc_wire_get_i16 inp p = tgc_wire_get_u16 inp p"

definition tgc_wire_get_i32 :: "u8 list \<Rightarrow> nat \<Rightarrow> s32" where
  "tgc_wire_get_i32 inp p = tgc_wire_get_u32 inp p"

definition tgc_wire_get_u64 :: "u8 list \<Rightarrow> nat \<Rightarrow> u64" where
  "tgc_wire_get_u64 inp p =
     ucast (tgc_wire_get_u32 inp p) OR push_bit 32 (ucast (tgc_wire_get_u32 inp (p + 4)))"

definition tgc_wire_get_i64 :: "u8 list \<Rightarrow> nat \<Rightarrow> s64" where
  "tgc_wire_get_i64 inp p = tgc_wire_get_u64 inp p"

lemma word16_bytes:
  "(ucast (ucast v :: u8) :: u16) OR push_bit 8 (ucast (ucast (drop_bit 8 v) :: u8)) = v"
  by (rule bit_word_eqI) (auto simp: bit_simps dest: bit_imp_le_length)

lemma word32_bytes:
  "(ucast (ucast v :: u8) :: u32) OR push_bit 8 (ucast (ucast (drop_bit 8 v) :: u8)) OR
   push_bit 16 (ucast (ucast (drop_bit 16 v) :: u8)) OR
   push_bit 24 (ucast (ucast (drop_bit 24 v) :: u8)) = v" (is "?w = v")
proof (rule bit_word_eqI)
  fix n
  assume "n < LENGTH(32)"
  then have n: "n < 32" by simp
  consider "n < 8" | "8 \<le> n" "n < 16" | "16 \<le> n" "n < 24" | "24 \<le> n" by linarith
  then show "bit ?w n = bit v n"
    by cases (use n in \<open>auto simp: bit_simps not_le not_less\<close>)
qed

lemma bytes_word16:
  "(ucast ((ucast (a :: u8) :: u16) OR push_bit 8 (ucast (b :: u8))) :: u8) = a"
  "(ucast (drop_bit 8 ((ucast (a :: u8) :: u16) OR push_bit 8 (ucast (b :: u8)))) :: u8) = b"
  by (rule bit_word_eqI; auto simp: bit_simps dest: bit_imp_le_length)+

lemma bytes_word32:
  fixes a b c d :: u8
  defines "w \<equiv> (ucast a :: u32) OR push_bit 8 (ucast b) OR push_bit 16 (ucast c) OR push_bit 24 (ucast d)"
  shows "ucast w = a" "ucast (drop_bit 8 w) = b" "ucast (drop_bit 16 w) = c"
    "ucast (drop_bit 24 w) = d"
  unfolding w_def by (rule bit_word_eqI; auto simp: bit_simps dest: bit_imp_le_length)+

lemma halves_word64:
  "(ucast ((ucast (a :: u32) :: u64) OR push_bit 32 (ucast (b :: u32))) :: u32) = a"
  "(ucast (drop_bit 32 ((ucast (a :: u32) :: u64) OR push_bit 32 (ucast (b :: u32)))) :: u32) = b"
  by (rule bit_word_eqI; auto simp: bit_simps dest: bit_imp_le_length)+

lemma word64_halves:
  "(ucast (ucast v :: u32) :: u64) OR push_bit 32 (ucast (ucast (drop_bit 32 v) :: u32)) = v"
  by (rule bit_word_eqI) (auto simp: bit_simps dest: bit_imp_le_length)

section \<open>Arrays on the wire\<close>

text \<open>
  The loops \<^verbatim>\<open>for (i = 0; i < count; ++i) put(p + i * width, v[i])\<close> and their reading
  counterparts, for any element codec.
\<close>

fun put_array ::
  "(u8 list \<Rightarrow> nat \<Rightarrow> 'v \<Rightarrow> u8 list) \<Rightarrow> nat \<Rightarrow> u8 list \<Rightarrow> nat \<Rightarrow> 'v list \<Rightarrow> u8 list" where
  "put_array put w out p [] = out"
| "put_array put w out p (v # vs) = put_array put w (put out p v) (p + w) vs"

definition get_array ::
  "(u8 list \<Rightarrow> nat \<Rightarrow> 'v) \<Rightarrow> nat \<Rightarrow> u8 list \<Rightarrow> nat \<Rightarrow> nat \<Rightarrow> 'v list" where
  "get_array get w inp p n = map (\<lambda>i. get inp (p + w * i)) [0..<n]"

section \<open>The codec interface\<close>

text \<open>
  What the users of the codecs rely on: a put changes exactly its own window, and a get of the
  window just written returns the value. Everything below about packets, arrays and headers is
  proved from these laws.
\<close>

locale wire_codec =
  fixes put :: "u8 list \<Rightarrow> nat \<Rightarrow> 'v \<Rightarrow> u8 list"
    and get :: "u8 list \<Rightarrow> nat \<Rightarrow> 'v"
    and width :: nat
  assumes put_length: "length (put b p v) = length b"
    and put_frame: "j < p \<or> p + width \<le> j \<Longrightarrow> put b p v ! j = b ! j"
    and get_put: "p + width \<le> length b \<Longrightarrow> get (put b p v) p = v"
    and get_window: "(\<And>j. p \<le> j \<Longrightarrow> j < p + width \<Longrightarrow> b ! j = c ! j) \<Longrightarrow> get b p = get c p"
    and put_get: "p + width \<le> length c \<Longrightarrow> p \<le> j \<Longrightarrow> j < p + width \<Longrightarrow>
      put c p (get b p) ! j = b ! j"
begin

lemma length_put_array: "length (put_array put width b p vs) = length b"
  by (induction vs arbitrary: b p) (simp_all add: put_length)

lemma put_array_frame:
  "j < p \<or> p + width * length vs \<le> j \<Longrightarrow> put_array put width b p vs ! j = b ! j"
  by (induction vs arbitrary: b p) (auto simp: put_frame)

lemma get_put_array_nth:
  "p + width * length vs \<le> length b \<Longrightarrow> i < length vs \<Longrightarrow>
   get (put_array put width b p vs) (p + width * i) = vs ! i"
proof (induction vs arbitrary: b p i)
  case Nil
  then show ?case by simp
next
  case (Cons v vs)
  show ?case
  proof (cases i)
    case 0
    have "get (put_array put width (put b p v) (p + width) vs) p = get (put b p v) p"
      by (rule get_window) (simp add: put_array_frame)
    then show ?thesis using 0 Cons.prems by (simp add: get_put)
  next
    case (Suc k)
    then show ?thesis
      using Cons.IH [of "p + width" "put b p v" k] Cons.prems
      by (simp add: put_length add.assoc)
  qed
qed

lemma get_put_array:
  "p + width * length vs \<le> length b \<Longrightarrow>
   get_array get width (put_array put width b p vs) p (length vs) = vs"
  by (rule nth_equalityI) (simp_all add: get_array_def get_put_array_nth)

lemma get_array_window:
  assumes "\<And>j. p \<le> j \<Longrightarrow> j < p + width * n \<Longrightarrow> b ! j = c ! j"
  shows "get_array get width b p n = get_array get width c p n"
proof (rule nth_equalityI)
  fix i
  assume "i < length (get_array get width b p n)"
  then have i: "i < n" by (simp add: get_array_def)
  have "get b (p + width * i) = get c (p + width * i)"
  proof (rule get_window)
    fix j
    assume "p + width * i \<le> j" and j: "j < p + width * i + width"
    moreover have "width * i + width \<le> width * n"
      using i by (metis Suc_leI mult.commute mult_Suc_right mult_le_mono2 add.commute)
    ultimately show "b ! j = c ! j" by (intro assms) auto
  qed
  then show "get_array get width b p n ! i = get_array get width c p n ! i"
    using i by (simp add: get_array_def)
qed (simp add: get_array_def)

end

text \<open>Two codecs over one buffer: a write outside the window read does not change the value read.\<close>

locale wire_codec_pair =
  a: wire_codec put_a get_a width_a + b: wire_codec put_b get_b width_b
  for put_a :: "u8 list \<Rightarrow> nat \<Rightarrow> 'a \<Rightarrow> u8 list" and get_a width_a
    and put_b :: "u8 list \<Rightarrow> nat \<Rightarrow> 'b \<Rightarrow> u8 list" and get_b width_b
begin

lemma get_put_disjoint:
  "p + width_a \<le> q \<or> q + width_b \<le> p \<Longrightarrow> get_a (put_b c q v) p = get_a c p"
  by (rule a.get_window) (auto simp: b.put_frame)

lemma get_put_array_disjoint:
  "p + width_a \<le> q \<or> q + width_b * length vs \<le> p \<Longrightarrow>
   get_a (put_array put_b width_b c q vs) p = get_a c p"
  by (rule a.get_window) (auto simp: b.put_array_frame)

end

lemma tgc_wire_put_length [simp]:
  "length (tgc_wire_put_u16 b p v) = length b"
  "length (tgc_wire_put_u32 b p w) = length b"
  "length (tgc_wire_put_u64 b p x) = length b"
  by (simp_all add: tgc_wire_put_u16_def tgc_wire_put_u32_def tgc_wire_put_u64_def)

interpretation u16: wire_codec tgc_wire_put_u16 tgc_wire_get_u16 2
proof
  show "tgc_wire_get_u16 (tgc_wire_put_u16 b p v) p = v" if "p + 2 \<le> length b" for b p v
    using that
    by (simp add: tgc_wire_get_u16_def tgc_wire_put_u16_def ucast_and_255_byte word16_bytes)
  show "tgc_wire_get_u16 b p = tgc_wire_get_u16 c p"
    if "\<And>j. p \<le> j \<Longrightarrow> j < p + 2 \<Longrightarrow> b ! j = c ! j" for b c p
    using that [of p] that [of "p + 1"] by (simp add: tgc_wire_get_u16_def)
  show "tgc_wire_put_u16 c p (tgc_wire_get_u16 b p) ! j = b ! j"
    if "p + 2 \<le> length c" and "p \<le> j" and "j < p + 2" for b c p j
  proof -
    from that consider "j = p" | "j = p + 1" by linarith
    then show ?thesis
      by cases (use that in \<open>simp_all add: tgc_wire_get_u16_def tgc_wire_put_u16_def
        ucast_and_255_byte bytes_word16 nth_list_update del: drop_bit_or\<close>)
  qed
qed (auto simp: tgc_wire_put_u16_def)

interpretation u32: wire_codec tgc_wire_put_u32 tgc_wire_get_u32 4
proof
  show "tgc_wire_get_u32 (tgc_wire_put_u32 b p v) p = v" if "p + 4 \<le> length b" for b p v
    using that
    by (simp add: tgc_wire_get_u32_def tgc_wire_put_u32_def ucast_and_255_byte word32_bytes)
  show "tgc_wire_get_u32 b p = tgc_wire_get_u32 c p"
    if "\<And>j. p \<le> j \<Longrightarrow> j < p + 4 \<Longrightarrow> b ! j = c ! j" for b c p
    using that [of p] that [of "p + 1"] that [of "p + 2"] that [of "p + 3"]
    by (simp add: tgc_wire_get_u32_def)
  show "tgc_wire_put_u32 c p (tgc_wire_get_u32 b p) ! j = b ! j"
    if "p + 4 \<le> length c" and "p \<le> j" and "j < p + 4" for b c p j
  proof -
    from that consider "j = p" | "j = p + 1" | "j = p + 2" | "j = p + 3" by linarith
    then show ?thesis
      by cases (use that in \<open>simp_all add: tgc_wire_get_u32_def tgc_wire_put_u32_def
        ucast_and_255_byte bytes_word32 nth_list_update del: drop_bit_or\<close>)
  qed
qed (auto simp: tgc_wire_put_u32_def)

interpretation u32_u32: wire_codec_pair
  tgc_wire_put_u32 tgc_wire_get_u32 4 tgc_wire_put_u32 tgc_wire_get_u32 4 ..

interpretation u64: wire_codec tgc_wire_put_u64 tgc_wire_get_u64 8
proof
  show "tgc_wire_get_u64 (tgc_wire_put_u64 b p v) p = v" if "p + 8 \<le> length b" for b p v
    using that
    by (simp add: tgc_wire_get_u64_def tgc_wire_put_u64_def u32.get_put
        u32_u32.get_put_disjoint word64_halves)
  show "tgc_wire_get_u64 b p = tgc_wire_get_u64 c p"
    if "\<And>j. p \<le> j \<Longrightarrow> j < p + 8 \<Longrightarrow> b ! j = c ! j" for b c p
    using u32.get_window [of p b c] u32.get_window [of "p + 4" b c] that
    by (simp add: tgc_wire_get_u64_def)
  show "tgc_wire_put_u64 c p (tgc_wire_get_u64 b p) ! j = b ! j"
    if "p + 8 \<le> length c" and "p \<le> j" and "j < p + 8" for b c p j
  proof (cases "j < p + 4")
    case True
    then show ?thesis using that
      by (simp add: tgc_wire_get_u64_def tgc_wire_put_u64_def halves_word64 u32.put_frame u32.put_get
          del: drop_bit_or)
  next
    case False
    then show ?thesis using that
      by (simp add: tgc_wire_get_u64_def tgc_wire_put_u64_def halves_word64 u32.put_get
          del: drop_bit_or)
  qed
qed (auto simp: tgc_wire_put_u64_def u32.put_frame)

text \<open>The remaining ordered pairs of codecs, and the collection the packet proofs use.\<close>

interpretation u16_u16: wire_codec_pair
  tgc_wire_put_u16 tgc_wire_get_u16 2 tgc_wire_put_u16 tgc_wire_get_u16 2 ..
interpretation u16_u32: wire_codec_pair
  tgc_wire_put_u16 tgc_wire_get_u16 2 tgc_wire_put_u32 tgc_wire_get_u32 4 ..
interpretation u32_u16: wire_codec_pair
  tgc_wire_put_u32 tgc_wire_get_u32 4 tgc_wire_put_u16 tgc_wire_get_u16 2 ..
interpretation u64_u32: wire_codec_pair
  tgc_wire_put_u64 tgc_wire_get_u64 8 tgc_wire_put_u32 tgc_wire_get_u32 4 ..
interpretation u32_u64: wire_codec_pair
  tgc_wire_put_u32 tgc_wire_get_u32 4 tgc_wire_put_u64 tgc_wire_get_u64 8 ..
interpretation u64_u64: wire_codec_pair
  tgc_wire_put_u64 tgc_wire_get_u64 8 tgc_wire_put_u64 tgc_wire_get_u64 8 ..

lemmas wire_signed =
  tgc_wire_put_i16_def tgc_wire_put_i32_def tgc_wire_put_i64_def
  tgc_wire_get_i16_def tgc_wire_get_i32_def tgc_wire_get_i64_def

lemmas wire_get_put =
  u16.get_put u32.get_put u64.get_put
  u16_u16.get_put_disjoint u16_u32.get_put_disjoint u32_u16.get_put_disjoint
  u32_u32.get_put_disjoint u64_u32.get_put_disjoint u32_u64.get_put_disjoint
  u64_u64.get_put_disjoint

section \<open>Header and packet\<close>

definition TGC_PROTOCOL_MAGIC :: u32 where "TGC_PROTOCOL_MAGIC = 0x43534754"
definition TGC_PROTOCOL_VERSION :: u16 where [simp]: "TGC_PROTOCOL_VERSION = 1"
definition TGC_PROTOCOL_HEADER_SIZE :: nat where [simp]: "TGC_PROTOCOL_HEADER_SIZE = 24"
definition TGC_PROTOCOL_MAX_PAYLOAD :: u32 where [simp]: "TGC_PROTOCOL_MAX_PAYLOAD = 8192"
definition TGC_PROTOCOL_REQUEST :: u16 where [simp]: "TGC_PROTOCOL_REQUEST = 1"
definition TGC_PROTOCOL_RESPONSE :: u16 where [simp]: "TGC_PROTOCOL_RESPONSE = 2"

definition TGC_OPCODE_PING :: u16 where [simp]: "TGC_OPCODE_PING = 1"
definition TGC_OPCODE_SEMGET :: u16 where [simp]: "TGC_OPCODE_SEMGET = 2"
definition TGC_OPCODE_REMOVE :: u16 where [simp]: "TGC_OPCODE_REMOVE = 3"
definition TGC_OPCODE_GETVAL :: u16 where [simp]: "TGC_OPCODE_GETVAL = 4"
definition TGC_OPCODE_SETVAL :: u16 where [simp]: "TGC_OPCODE_SETVAL = 5"
definition TGC_OPCODE_GETPID :: u16 where [simp]: "TGC_OPCODE_GETPID = 6"
definition TGC_OPCODE_GETALL :: u16 where [simp]: "TGC_OPCODE_GETALL = 7"
definition TGC_OPCODE_SETALL :: u16 where [simp]: "TGC_OPCODE_SETALL = 8"
definition TGC_OPCODE_SEMOP :: u16 where [simp]: "TGC_OPCODE_SEMOP = 9"
definition TGC_OPCODE_GETNCNT :: u16 where [simp]: "TGC_OPCODE_GETNCNT = 10"
definition TGC_OPCODE_GETZCNT :: u16 where [simp]: "TGC_OPCODE_GETZCNT = 11"
definition TGC_OPCODE_STAT :: u16 where [simp]: "TGC_OPCODE_STAT = 12"
definition TGC_OPCODE_SETMETA :: u16 where [simp]: "TGC_OPCODE_SETMETA = 13"
definition TGC_OPCODE_SEMTIMEDOP :: u16 where [simp]: "TGC_OPCODE_SEMTIMEDOP = 14"
definition TGC_OPCODE_INFO :: u16 where [simp]: "TGC_OPCODE_INFO = 15"
definition TGC_OPCODE_STAT_INDEX :: u16 where [simp]: "TGC_OPCODE_STAT_INDEX = 16"

record tgc_protocol_header =
  h_version :: u16
  h_kind :: u16
  h_opcode :: u16
  h_request_id :: u32
  h_payload_length :: u32
  h_result :: s32

record tgc_protocol_packet =
  pk_header :: tgc_protocol_header
  pk_payload :: "u8 list"

definition header_is_valid :: "tgc_protocol_header \<Rightarrow> s32" where
  "header_is_valid h =
     (if h_version h \<noteq> TGC_PROTOCOL_VERSION then - EPROTO
      else if h_kind h \<noteq> TGC_PROTOCOL_REQUEST \<and> h_kind h \<noteq> TGC_PROTOCOL_RESPONSE then - EPROTO
      else if h_opcode h < TGC_OPCODE_PING \<or> h_opcode h > TGC_OPCODE_STAT_INDEX then - EPROTO
      else if h_payload_length h > TGC_PROTOCOL_MAX_PAYLOAD then - EMSGSIZE
      else if h_kind h = TGC_PROTOCOL_REQUEST \<and> h_result h \<noteq> 0 then - EPROTO
      else 0)"

text \<open>
  Both directions return \<open>Inl\<close> of the negative errno, or \<open>Inr\<close> of what they write through their
  output pointer (the return value is then 0).
\<close>

definition tgc_protocol_encode_header ::
  "u8 list \<Rightarrow> tgc_protocol_header \<Rightarrow> s32 + u8 list" where
  "tgc_protocol_encode_header out h =
     (let r = header_is_valid h in
      if r \<noteq> 0 then Inl r
      else
        let out = tgc_wire_put_u32 out 0 TGC_PROTOCOL_MAGIC;
            out = tgc_wire_put_u16 out 4 (h_version h);
            out = tgc_wire_put_u16 out 6 (h_kind h);
            out = tgc_wire_put_u16 out 8 (h_opcode h);
            out = tgc_wire_put_u16 out 10 0;
            out = tgc_wire_put_u32 out 12 (h_request_id h);
            out = tgc_wire_put_u32 out 16 (h_payload_length h);
            out = tgc_wire_put_i32 out 20 (h_result h)
        in Inr out)"

definition tgc_protocol_decode_header :: "u8 list \<Rightarrow> s32 + tgc_protocol_header" where
  "tgc_protocol_decode_header inp =
     (if tgc_wire_get_u32 inp 0 \<noteq> TGC_PROTOCOL_MAGIC \<or> tgc_wire_get_u16 inp 10 \<noteq> 0
      then Inl (- EPROTO)
      else
        let decoded =
          \<lparr>h_version = tgc_wire_get_u16 inp 4,
           h_kind = tgc_wire_get_u16 inp 6,
           h_opcode = tgc_wire_get_u16 inp 8,
           h_request_id = tgc_wire_get_u32 inp 12,
           h_payload_length = tgc_wire_get_u32 inp 16,
           h_result = tgc_wire_get_i32 inp 20\<rparr>;
          r = header_is_valid decoded
        in if r \<noteq> 0 then Inl r else Inr decoded)"

lemma encode_header_length:
  "tgc_protocol_encode_header out h = Inr b \<Longrightarrow> length b = length out"
  by (auto simp: tgc_protocol_encode_header_def Let_def wire_signed split: if_splits)

lemma encode_header_frame:
  "tgc_protocol_encode_header out h = Inr b \<Longrightarrow> 24 \<le> j \<Longrightarrow> b ! j = out ! j"
  by (auto simp: tgc_protocol_encode_header_def Let_def wire_signed u16.put_frame u32.put_frame
      split: if_splits)

lemma decode_header_valid: "tgc_protocol_decode_header inp = Inr h \<Longrightarrow> header_is_valid h = 0"
  by (auto simp: tgc_protocol_decode_header_def Let_def split: if_splits)

text \<open>Only the first 24 bytes of the input matter.\<close>

lemma decode_header_window:
  assumes "\<And>j. j < 24 \<Longrightarrow> b ! j = c ! j"
  shows "tgc_protocol_decode_header b = tgc_protocol_decode_header c"
proof -
  have "tgc_wire_get_u32 b p = tgc_wire_get_u32 c p" if "p \<le> 20" for p
    using that by (intro u32.get_window assms) simp
  moreover have "tgc_wire_get_u16 b p = tgc_wire_get_u16 c p" if "p \<le> 22" for p
    using that by (intro u16.get_window assms) simp
  ultimately show ?thesis by (simp add: tgc_protocol_decode_header_def wire_signed)
qed

lemma decode_encode_header:
  assumes "24 \<le> length out" and "tgc_protocol_encode_header out h = Inr b"
  shows "tgc_protocol_decode_header b = Inr h"
  using assms
  by (cases h) (auto simp: tgc_protocol_decode_header_def tgc_protocol_encode_header_def Let_def wire_signed
      wire_get_put split: if_splits)

section \<open>The header codec is exact\<close>

lemma encode_header_bytes:
  assumes dec: "tgc_protocol_decode_header inp = Inr h" and len: "24 \<le> length out"
  obtains b where "tgc_protocol_encode_header out h = Inr b" and "\<And>j. j < 24 \<Longrightarrow> b ! j = inp ! j"
proof -
  have v: "header_is_valid h = 0" using dec by (rule decode_header_valid)
  from dec have m: "TGC_PROTOCOL_MAGIC = tgc_wire_get_u32 inp 0" and z: "0 = tgc_wire_get_u16 inp 10"
    and h: "h = \<lparr>h_version = tgc_wire_get_u16 inp 4, h_kind = tgc_wire_get_u16 inp 6,
      h_opcode = tgc_wire_get_u16 inp 8, h_request_id = tgc_wire_get_u32 inp 12,
      h_payload_length = tgc_wire_get_u32 inp 16, h_result = tgc_wire_get_u32 inp 20\<rparr>"
    by (auto simp: tgc_protocol_decode_header_def Let_def wire_signed split: if_splits)
  let ?b1 = "tgc_wire_put_u32 out 0 (tgc_wire_get_u32 inp 0)"
  let ?b2 = "tgc_wire_put_u16 ?b1 4 (tgc_wire_get_u16 inp 4)"
  let ?b3 = "tgc_wire_put_u16 ?b2 6 (tgc_wire_get_u16 inp 6)"
  let ?b4 = "tgc_wire_put_u16 ?b3 8 (tgc_wire_get_u16 inp 8)"
  let ?b5 = "tgc_wire_put_u16 ?b4 10 (tgc_wire_get_u16 inp 10)"
  let ?b6 = "tgc_wire_put_u32 ?b5 12 (tgc_wire_get_u32 inp 12)"
  let ?b7 = "tgc_wire_put_u32 ?b6 16 (tgc_wire_get_u32 inp 16)"
  let ?b = "tgc_wire_put_u32 ?b7 20 (tgc_wire_get_u32 inp 20)"
  have "tgc_protocol_encode_header out h = Inr ?b"
    unfolding tgc_protocol_encode_header_def Let_def v m z by (simp add: h wire_signed)
  moreover have "?b ! j = inp ! j" if "j < 24" for j
  proof -
    from that consider "j < 4" | "4 \<le> j" "j < 6" | "6 \<le> j" "j < 8" | "8 \<le> j" "j < 10"
      | "10 \<le> j" "j < 12" | "12 \<le> j" "j < 16" | "16 \<le> j" "j < 20" | "20 \<le> j" "j < 24" by linarith
    then show ?thesis
      by cases (use len in \<open>simp_all add: u16.put_frame u32.put_frame u16.put_get u32.put_get\<close>)
  qed
  ultimately show ?thesis by (rule that)
qed

text \<open>
  C15. The 24-byte header codec is exact: a 24-byte string decodes to the header \<open>h\<close> if and only if it is
  the encoding of \<open>h\<close>. So decoding inverts encoding, no two byte strings decode to one header, and
  everything that is not the encoding of a valid header is rejected.
\<close>

theorem header_codec_exact:
  assumes "length inp = 24"
  shows "tgc_protocol_decode_header inp = Inr h \<longleftrightarrow>
    tgc_protocol_encode_header (replicate 24 0) h = Inr inp"
proof
  assume dec: "tgc_protocol_decode_header inp = Inr h"
  obtain b where b: "tgc_protocol_encode_header (replicate 24 0) h = Inr b" "\<And>j. j < 24 \<Longrightarrow> b ! j = inp ! j"
    by (rule encode_header_bytes [OF dec, of "replicate 24 0"]) simp_all
  have "length b = 24" using encode_header_length [OF b(1)] by simp
  then have "b = inp" using b(2) assms by (intro nth_equalityI) simp_all
  then show "tgc_protocol_encode_header (replicate 24 0) h = Inr inp" using b(1) by simp
next
  assume "tgc_protocol_encode_header (replicate 24 0) h = Inr inp"
  then show "tgc_protocol_decode_header inp = Inr h" by (rule decode_encode_header [rotated]) simp
qed

theorem header_codec_exact_witness:
  "tgc_protocol_encode_header (replicate 24 0)
     \<lparr>h_version = 1, h_kind = 1, h_opcode = 4, h_request_id = 7, h_payload_length = 8, h_result = 0\<rparr> =
   Inr [0x54, 0x47, 0x53, 0x43, 1, 0, 1, 0, 4, 0, 0, 0, 7, 0, 0, 0, 8, 0, 0, 0, 0, 0, 0, 0]"
proof -
  let ?b = "[0x54, 0x47, 0x53, 0x43, 1, 0, 1, 0, 4, 0, 0, 0, 7, 0, 0, 0, 8, 0, 0, 0, 0, 0, 0, 0] :: u8 list"
  have "tgc_protocol_decode_header ?b =
      Inr \<lparr>h_version = 1, h_kind = 1, h_opcode = 4, h_request_id = 7, h_payload_length = 8, h_result = 0\<rparr>"
    by (simp add: tgc_protocol_decode_header_def header_is_valid_def TGC_PROTOCOL_MAGIC_def wire_signed
        tgc_wire_get_u32_def tgc_wire_get_u16_def)
  then show ?thesis using header_codec_exact [of ?b] by simp
qed

end
