(* ===== verification/Tgc_Sem_Store.thy ===== *)
theory Tgc_Sem_Store
  imports Tgc_Prelude
begin

text \<open>
  The in-memory semaphore store of
  \<^verbatim>\<open>src/reference-termux-glibc-compat/src/sem_store.c\<close> (types and limits from
  \<^verbatim>\<open>include/tgcompat/sem_store.h\<close>): data and operations only; the theorems are in
  \<^verbatim>\<open>Tgc_Sem_Store_Inv\<close>, \<^verbatim>\<open>Tgc_Sem_Ops\<close> and \<^verbatim>\<open>Tgc_Sem_Undo\<close>.

  A C pointer into one of the two tables is the index of the slot. A NULL array of an inactive
  set is the empty list. What the operations take from the machine is an argument: \<open>clk\<close> is the
  \<^verbatim>\<open>CLOCK_REALTIME\<close> reading (\<open>None\<close> when \<^verbatim>\<open>clock_gettime\<close> fails) and \<open>mem\<close> says whether the
  four \<^verbatim>\<open>calloc\<close> calls of a creation all succeed. An operation that changes the store returns
  the new one next to its C result.
\<close>

section \<open>Constants and data\<close>

definition TGC_IPC_PRIVATE :: s32 where [simp]: "TGC_IPC_PRIVATE = 0"
definition TGC_IPC_CREAT :: s32 where [simp]: "TGC_IPC_CREAT = 512"
definition TGC_IPC_EXCL :: s32 where [simp]: "TGC_IPC_EXCL = 1024"
definition TGC_IPC_NOWAIT :: u16 where [simp]: "TGC_IPC_NOWAIT = 2048"
definition TGC_SEM_UNDO :: u16 where [simp]: "TGC_SEM_UNDO = 4096"
definition TGC_SEM_MAX_SETS :: nat where [simp]: "TGC_SEM_MAX_SETS = 128"
definition TGC_SEM_MAX_PER_SET :: nat where [simp]: "TGC_SEM_MAX_PER_SET = 512"
definition TGC_SEM_MAX_VALUE :: nat where [simp]: "TGC_SEM_MAX_VALUE = 32767"
definition TGC_SEM_MAX_UNDO_ENTRIES :: nat where [simp]: "TGC_SEM_MAX_UNDO_ENTRIES = 4096"
definition TGC_SEM_OP_BLOCKED :: s32 where [simp]: "TGC_SEM_OP_BLOCKED = 1"

record tgc_sem_op =
  sem_num :: u16
  sem_op :: s16
  sem_flg :: u16

record tgc_sem_identity =
  id_uid :: u32
  id_gid :: u32

record tgc_sem_metadata =
  m_key :: s32
  m_uid :: u32
  m_gid :: u32
  m_cuid :: u32
  m_cgid :: u32
  m_mode :: u32
  m_nsems :: u32
  m_otime :: s64
  m_ctime :: s64
  m_sequence :: u32

record tgc_sem_wait_reason =
  wr_sem_num :: u16
  wr_wait_for_zero :: u16

record tgc_sem_info =
  semmap :: s32
  semmni :: s32
  semmns :: s32
  semmnu :: s32
  semmsl :: s32
  semopm :: s32
  semume :: s32
  semusz :: s32
  semvmx :: s32
  semaem :: s32

record tgc_sem_set =
  s_key :: s32
  s_generation :: u16
  s_nsems :: u16
  s_active :: bool
  s_uid :: u32
  s_gid :: u32
  s_cuid :: u32
  s_cgid :: u32
  s_mode :: u32
  s_otime :: s64
  s_ctime :: s64
  s_values :: "u16 list"
  s_last_pids :: "s32 list"
  s_negative_waiters :: "u32 list"
  s_zero_waiters :: "u32 list"

record tgc_undo_entry =
  u_pid :: s32
  u_semid :: s32
  u_adjustment :: s32
  u_semnum :: u16
  u_active :: bool

record tgc_sem_store =
  st_sets :: "tgc_sem_set list"
  st_undo :: "tgc_undo_entry list"

section \<open>Identifiers\<close>

definition make_id :: "nat \<Rightarrow> u16 \<Rightarrow> s32" where
  "make_id index generation = push_bit 16 (ucast generation) OR of_nat (index + 1)"

definition decode_id :: "s32 \<Rightarrow> (nat \<times> u16) option" where
  "decode_id semid =
     (if sint semid \<le> 0 then None
      else
        let encoded_index = semid AND 0xffff;
            encoded_generation = (ucast (drop_bit 16 semid) :: u16)
        in if encoded_index = 0 \<or> unat encoded_index > TGC_SEM_MAX_SETS \<or> encoded_generation = 0
           then None
           else Some (unat encoded_index - 1, encoded_generation))"

definition find_set :: "tgc_sem_store \<Rightarrow> s32 \<Rightarrow> nat option" where
  "find_set store semid =
     (case decode_id semid of
        None \<Rightarrow> None
      | Some (index, generation) \<Rightarrow>
          let s = st_sets store ! index in
          if s_active s \<and> s_generation s = generation then Some index else None)"

definition find_const_set :: "tgc_sem_store \<Rightarrow> s32 \<Rightarrow> nat option" where
  "find_const_set store semid =
     (case decode_id semid of
        None \<Rightarrow> None
      | Some (index, generation) \<Rightarrow>
          let s = st_sets store ! index in
          if s_active s \<and> s_generation s = generation then Some index else None)"

section \<open>The undo table\<close>

definition find_undo_entry :: "tgc_sem_store \<Rightarrow> s32 \<Rightarrow> s32 \<Rightarrow> u16 \<Rightarrow> nat option" where
  "find_undo_entry store pid semid semnum =
     first_index (\<lambda>e. u_active e \<and> u_pid e = pid \<and> u_semid e = semid \<and> u_semnum e = semnum)
       (st_undo store)"

definition find_free_undo_entry :: "tgc_sem_store \<Rightarrow> nat option" where
  "find_free_undo_entry store = first_index (\<lambda>e. \<not> u_active e) (st_undo store)"

definition clear_undo_entries :: "tgc_sem_store \<Rightarrow> s32 \<Rightarrow> nat \<Rightarrow> bool \<Rightarrow> tgc_sem_store" where
  "clear_undo_entries store semid semnum all_semaphores =
     store\<lparr>st_undo := map
       (\<lambda>e. if u_active e \<and> u_semid e = semid \<and> (all_semaphores \<or> unat (u_semnum e) = semnum)
            then e\<lparr>u_active := False\<rparr> else e) (st_undo store)\<rparr>"

definition next_generation :: "u16 \<Rightarrow> u16" where
  "next_generation generation = (if generation \<ge> 0x7fff then 1 else generation + 1)"

definition current_time_seconds :: "s64 option \<Rightarrow> s64" where
  "current_time_seconds clk = (case clk of Some tv_sec \<Rightarrow> tv_sec | None \<Rightarrow> 0)"

section \<open>Creation and lookup of sets\<close>

text \<open>\<^verbatim>\<open>calloc\<close> of the whole store: every field of every slot is zero.\<close>

definition empty_set :: tgc_sem_set where
  "empty_set =
     \<lparr>s_key = 0, s_generation = 0, s_nsems = 0, s_active = False, s_uid = 0, s_gid = 0,
      s_cuid = 0, s_cgid = 0, s_mode = 0, s_otime = 0, s_ctime = 0, s_values = [],
      s_last_pids = [], s_negative_waiters = [], s_zero_waiters = []\<rparr>"

definition empty_undo :: tgc_undo_entry where
  "empty_undo = \<lparr>u_pid = 0, u_semid = 0, u_adjustment = 0, u_semnum = 0, u_active = False\<rparr>"

definition tgc_sem_store_create :: tgc_sem_store where
  "tgc_sem_store_create =
     \<lparr>st_sets = replicate TGC_SEM_MAX_SETS empty_set,
      st_undo = replicate TGC_SEM_MAX_UNDO_ENTRIES empty_undo\<rparr>"

definition new_set ::
  "s64 option \<Rightarrow> tgc_sem_set \<Rightarrow> s32 \<Rightarrow> s32 \<Rightarrow> s32 \<Rightarrow> tgc_sem_identity \<Rightarrow> tgc_sem_set" where
  "new_set clk s key nsems flags identity =
     s\<lparr>s_generation := (if s_generation s = 0 then 1 else s_generation s),
       s_key := key,
       s_nsems := ucast nsems,
       s_uid := id_uid identity,
       s_gid := id_gid identity,
       s_cuid := id_uid identity,
       s_cgid := id_gid identity,
       s_mode := flags AND 511,
       s_otime := 0,
       s_ctime := current_time_seconds clk,
       s_values := replicate (nat (sint nsems)) 0,
       s_last_pids := replicate (nat (sint nsems)) 0,
       s_negative_waiters := replicate (nat (sint nsems)) 0,
       s_zero_waiters := replicate (nat (sint nsems)) 0,
       s_active := True\<rparr>"

definition tgc_sem_store_get_as ::
  "s64 option \<Rightarrow> bool \<Rightarrow> tgc_sem_store \<Rightarrow> s32 \<Rightarrow> s32 \<Rightarrow> s32 \<Rightarrow> tgc_sem_identity \<Rightarrow>
   s32 \<times> tgc_sem_store" where
  "tgc_sem_store_get_as clk mem store key nsems flags identity =
     (case (if key \<noteq> TGC_IPC_PRIVATE
            then first_index (\<lambda>s. s_active s \<and> s_key s = key) (st_sets store) else None) of
        Some i \<Rightarrow>
          let s = st_sets store ! i in
          if flags AND TGC_IPC_CREAT \<noteq> 0 \<and> flags AND TGC_IPC_EXCL \<noteq> 0 then (- EEXIST, store)
          else if sint nsems < 0 \<or> sint nsems > uint (s_nsems s) then (- EINVAL, store)
          else (make_id i (s_generation s), store)
      | None \<Rightarrow>
          if key \<noteq> TGC_IPC_PRIVATE \<and> flags AND TGC_IPC_CREAT = 0 then (- ENOENT, store)
          else if sint nsems \<le> 0 \<or> sint nsems > int TGC_SEM_MAX_PER_SET then (- EINVAL, store)
          else
            case first_index (\<lambda>s. \<not> s_active s) (st_sets store) of
              None \<Rightarrow> (- ENOSPC, store)
            | Some i \<Rightarrow>
                if \<not> mem then (- ENOMEM, store)
                else
                  let s = new_set clk (st_sets store ! i) key nsems flags identity in
                  (make_id i (s_generation s), store\<lparr>st_sets := (st_sets store)[i := s]\<rparr>))"

definition tgc_sem_store_get ::
  "s64 option \<Rightarrow> bool \<Rightarrow> tgc_sem_store \<Rightarrow> s32 \<Rightarrow> s32 \<Rightarrow> s32 \<Rightarrow> s32 \<times> tgc_sem_store" where
  "tgc_sem_store_get clk mem store key nsems flags =
     tgc_sem_store_get_as clk mem store key nsems flags \<lparr>id_uid = 0, id_gid = 0\<rparr>"

definition removed_set :: "tgc_sem_set \<Rightarrow> tgc_sem_set" where
  "removed_set s =
     s\<lparr>s_values := [], s_last_pids := [], s_negative_waiters := [], s_zero_waiters := [],
       s_key := 0, s_nsems := 0, s_uid := 0, s_gid := 0, s_cuid := 0, s_cgid := 0, s_mode := 0,
       s_otime := 0, s_ctime := 0, s_active := False,
       s_generation := next_generation (s_generation s)\<rparr>"

definition tgc_sem_store_remove :: "tgc_sem_store \<Rightarrow> s32 \<Rightarrow> s32 \<times> tgc_sem_store" where
  "tgc_sem_store_remove store semid =
     (case find_set store semid of
        None \<Rightarrow> (- EINVAL, store)
      | Some i \<Rightarrow>
          let store = clear_undo_entries store semid 0 True in
          (0, store\<lparr>st_sets := (st_sets store)[i := removed_set (st_sets store ! i)]\<rparr>))"

section \<open>Reading and writing values\<close>

definition tgc_sem_store_getval :: "tgc_sem_store \<Rightarrow> s32 \<Rightarrow> nat \<Rightarrow> s32" where
  "tgc_sem_store_getval store semid semnum =
     (case find_const_set store semid of
        None \<Rightarrow> - EINVAL
      | Some i \<Rightarrow>
          let s = st_sets store ! i in
          if semnum \<ge> unat (s_nsems s) then - EINVAL else ucast (s_values s ! semnum))"

definition tgc_sem_store_setval ::
  "s64 option \<Rightarrow> tgc_sem_store \<Rightarrow> s32 \<Rightarrow> nat \<Rightarrow> u32 \<Rightarrow> s32 \<Rightarrow> s32 \<times> tgc_sem_store" where
  "tgc_sem_store_setval clk store semid semnum val pid =
     (case find_set store semid of
        None \<Rightarrow> (- EINVAL, store)
      | Some i \<Rightarrow>
          let s = st_sets store ! i in
          if semnum \<ge> unat (s_nsems s) then (- EINVAL, store)
          else if unat val > TGC_SEM_MAX_VALUE then (- ERANGE, store)
          else
            let store = clear_undo_entries store semid semnum False;
                s = s\<lparr>s_values := (s_values s)[semnum := ucast val],
                      s_last_pids := (s_last_pids s)[semnum := pid],
                      s_ctime := current_time_seconds clk\<rparr>
            in (0, store\<lparr>st_sets := (st_sets store)[i := s]\<rparr>))"

definition tgc_sem_store_getpid :: "tgc_sem_store \<Rightarrow> s32 \<Rightarrow> nat \<Rightarrow> s32" where
  "tgc_sem_store_getpid store semid semnum =
     (case find_const_set store semid of
        None \<Rightarrow> - EINVAL
      | Some i \<Rightarrow>
          let s = st_sets store ! i in
          if semnum \<ge> unat (s_nsems s) then - EINVAL else s_last_pids s ! semnum)"

text \<open>\<open>Inr\<close> carries what the C function copies to the caller's array when it returns 0.\<close>

definition tgc_sem_store_getall :: "tgc_sem_store \<Rightarrow> s32 \<Rightarrow> nat \<Rightarrow> s32 + u16 list" where
  "tgc_sem_store_getall store semid count =
     (case find_const_set store semid of
        None \<Rightarrow> Inl (- EINVAL)
      | Some i \<Rightarrow>
          let s = st_sets store ! i in
          if count \<noteq> unat (s_nsems s) then Inl (- EINVAL) else Inr (take count (s_values s)))"

definition tgc_sem_store_setall ::
  "s64 option \<Rightarrow> tgc_sem_store \<Rightarrow> s32 \<Rightarrow> u16 list \<Rightarrow> s32 \<Rightarrow> s32 \<times> tgc_sem_store" where
  "tgc_sem_store_setall clk store semid vals pid =
     (case find_set store semid of
        None \<Rightarrow> (- EINVAL, store)
      | Some i \<Rightarrow>
          let s = st_sets store ! i in
          if length vals \<noteq> unat (s_nsems s) then (- EINVAL, store)
          else if \<exists>v \<in> set vals. unat v > TGC_SEM_MAX_VALUE then (- ERANGE, store)
          else
            let store = clear_undo_entries store semid 0 True;
                s = s\<lparr>s_values := vals,
                      s_last_pids := replicate (length vals) pid,
                      s_ctime := current_time_seconds clk\<rparr>
            in (0, store\<lparr>st_sets := (st_sets store)[i := s]\<rparr>))"

section \<open>Metadata, waiter counts and limits\<close>

definition tgc_sem_store_get_metadata ::
  "tgc_sem_store \<Rightarrow> s32 \<Rightarrow> s32 + tgc_sem_metadata" where
  "tgc_sem_store_get_metadata store semid =
     (case (find_const_set store semid, decode_id semid) of
        (Some i, Some (index, generation)) \<Rightarrow>
          let s = st_sets store ! i in
          Inr \<lparr>m_key = s_key s, m_uid = s_uid s, m_gid = s_gid s, m_cuid = s_cuid s,
               m_cgid = s_cgid s, m_mode = s_mode s, m_nsems = ucast (s_nsems s),
               m_otime = s_otime s, m_ctime = s_ctime s, m_sequence = ucast generation\<rparr>
      | _ \<Rightarrow> Inl (- EINVAL))"

definition tgc_sem_store_stat_index ::
  "tgc_sem_store \<Rightarrow> nat \<Rightarrow> s32 + s32 \<times> tgc_sem_metadata" where
  "tgc_sem_store_stat_index store index =
     (if index \<ge> TGC_SEM_MAX_SETS \<or> \<not> s_active (st_sets store ! index) then Inl (- EINVAL)
      else
        let semid = make_id index (s_generation (st_sets store ! index)) in
        case tgc_sem_store_get_metadata store semid of
          Inr metadata \<Rightarrow> Inr (semid, metadata)
        | Inl e \<Rightarrow> Inl e)"

definition tgc_sem_store_set_metadata ::
  "s64 option \<Rightarrow> tgc_sem_store \<Rightarrow> s32 \<Rightarrow> u32 \<Rightarrow> u32 \<Rightarrow> u32 \<Rightarrow> tgc_sem_identity \<Rightarrow>
   s32 \<times> tgc_sem_store" where
  "tgc_sem_store_set_metadata clk store semid uid gid mode actor =
     (case find_set store semid of
        None \<Rightarrow> (- EINVAL, store)
      | Some i \<Rightarrow>
          let s = st_sets store ! i in
          if id_uid actor \<noteq> s_uid s \<and> id_uid actor \<noteq> s_cuid s then (- EPERM, store)
          else if uid \<noteq> s_uid s \<or> (gid \<noteq> s_gid s \<and> gid \<noteq> id_gid actor) \<or> mode AND NOT 511 \<noteq> 0
          then (- EPERM, store)
          else
            let s = s\<lparr>s_gid := gid, s_mode := mode, s_ctime := current_time_seconds clk\<rparr>
            in (0, store\<lparr>st_sets := (st_sets store)[i := s]\<rparr>))"

definition tgc_sem_store_get_wait_count :: "tgc_sem_store \<Rightarrow> s32 \<Rightarrow> nat \<Rightarrow> bool \<Rightarrow> s32" where
  "tgc_sem_store_get_wait_count store semid semnum wait_for_zero =
     (case find_const_set store semid of
        None \<Rightarrow> - EINVAL
      | Some i \<Rightarrow>
          let s = st_sets store ! i in
          if semnum \<ge> unat (s_nsems s) then - EINVAL
          else
            let count = (if wait_for_zero then s_zero_waiters s ! semnum
                         else s_negative_waiters s ! semnum)
            in if count > 0x7fffffff then 0x7fffffff else count)"

definition tgc_sem_store_adjust_wait_count ::
  "tgc_sem_store \<Rightarrow> s32 \<Rightarrow> nat \<Rightarrow> bool \<Rightarrow> s32 \<Rightarrow> s32 \<times> tgc_sem_store" where
  "tgc_sem_store_adjust_wait_count store semid semnum wait_for_zero adjustment =
     (case find_set store semid of
        None \<Rightarrow> (- EINVAL, store)
      | Some i \<Rightarrow>
          let s = st_sets store ! i in
          if semnum \<ge> unat (s_nsems s) \<or> (adjustment \<noteq> 1 \<and> adjustment \<noteq> - 1)
          then (- EINVAL, store)
          else
            let count = (if wait_for_zero then s_zero_waiters s ! semnum
                         else s_negative_waiters s ! semnum)
            in if sint adjustment > 0 \<and> count = 0xffffffff \<or> sint adjustment < 0 \<and> count = 0
               then (- ERANGE, store)
               else
                 let count = (if sint adjustment > 0 then count + 1 else count - 1);
                     s = (if wait_for_zero
                          then s\<lparr>s_zero_waiters := (s_zero_waiters s)[semnum := count]\<rparr>
                          else s\<lparr>s_negative_waiters := (s_negative_waiters s)[semnum := count]\<rparr>)
                 in (0, store\<lparr>st_sets := (st_sets store)[i := s]\<rparr>))"

text \<open>\<^verbatim>\<open>sizeof(struct tgc_sem_set)\<close> under the LP64 layout of the AArch64 target.\<close>

definition sizeof_tgc_sem_set :: s32 where
  "sizeof_tgc_sem_set = 80"

text \<open>The scan of \<^verbatim>\<open>tgc_sem_store_info\<close>: highest active index, active sets, total semaphores.\<close>

fun info_scan :: "nat \<Rightarrow> tgc_sem_set list \<Rightarrow> s32 \<times> s32 \<times> s32 \<Rightarrow> s32 \<times> s32 \<times> s32" where
  "info_scan i [] acc = acc"
| "info_scan i (s # ss) (highest_index, active_sets, total_semaphores) =
     (if \<not> s_active s then info_scan (Suc i) ss (highest_index, active_sets, total_semaphores)
      else info_scan (Suc i) ss
        (of_nat i, active_sets + 1, total_semaphores + ucast (s_nsems s)))"

definition tgc_sem_store_info :: "tgc_sem_store \<Rightarrow> bool \<Rightarrow> s32 \<times> tgc_sem_info" where
  "tgc_sem_store_info store dynamic =
     (let (highest_index, active_sets, total_semaphores) =
            info_scan 0 (st_sets store) (0, 0, 0)
      in (highest_index,
          \<lparr>semmap = of_nat TGC_SEM_MAX_SETS,
           semmni = of_nat TGC_SEM_MAX_SETS,
           semmns = of_nat (TGC_SEM_MAX_SETS * TGC_SEM_MAX_PER_SET),
           semmnu = of_nat TGC_SEM_MAX_SETS,
           semmsl = of_nat TGC_SEM_MAX_PER_SET,
           semopm = of_nat TGC_SEM_MAX_PER_SET,
           semume = of_nat TGC_SEM_MAX_PER_SET,
           semusz = (if dynamic then active_sets else sizeof_tgc_sem_set),
           semvmx = of_nat TGC_SEM_MAX_VALUE,
           semaem = (if dynamic then total_semaphores else of_nat TGC_SEM_MAX_VALUE)\<rparr>))"

section \<open>Process exit\<close>

definition clamp_value :: "int \<Rightarrow> int" where
  "clamp_value v = (if v < 0 then 0 else if v > int TGC_SEM_MAX_VALUE then int TGC_SEM_MAX_VALUE else v)"

text \<open>
  One iteration of the exit loop. The clock is read inside the loop, once per entry that is
  applied, so it is a function of the entry's index.
\<close>

fun process_exit_entry ::
  "(nat \<Rightarrow> s64 option) \<Rightarrow> s32 \<Rightarrow> nat \<Rightarrow> tgc_sem_store \<times> bool \<Rightarrow> tgc_sem_store \<times> bool" where
  "process_exit_entry clk pid i (store, changed) =
     (let e = st_undo store ! i in
      if \<not> u_active e \<or> u_pid e \<noteq> pid then (store, changed)
      else
        let n = unat (u_semnum e);
            (store, changed) =
              (case find_set store (u_semid e) of
                 None \<Rightarrow> (store, changed)
               | Some j \<Rightarrow>
                   let s = st_sets store ! j in
                   if n < unat (s_nsems s) then
                     let v = clamp_value (uint (s_values s ! n) + sint (u_adjustment e));
                         s = s\<lparr>s_values := (s_values s)[n := word_of_int v],
                               s_last_pids := (s_last_pids s)[n := pid],
                               s_otime := current_time_seconds (clk i)\<rparr>
                     in (store\<lparr>st_sets := (st_sets store)[j := s]\<rparr>, True)
                   else (store, changed))
        in (store\<lparr>st_undo := (st_undo store)[i := e\<lparr>u_active := False\<rparr>]\<rparr>, changed))"

definition tgc_sem_store_process_exit ::
  "(nat \<Rightarrow> s64 option) \<Rightarrow> tgc_sem_store \<Rightarrow> s32 \<Rightarrow> s32 \<times> tgc_sem_store" where
  "tgc_sem_store_process_exit clk store pid =
     (if sint pid \<le> 0 then (- EINVAL, store)
      else
        let (store, changed) =
              fold (process_exit_entry clk pid) [0..<length (st_undo store)] (store, False)
        in (if changed then 1 else 0, store))"

section \<open>Semaphore operations\<close>

text \<open>Outcome of running the operations on the working copy of the values.\<close>

datatype work = Work_Done "u16 list" | Work_Range | Work_Blocked tgc_sem_op

fun run_ops :: "u16 list \<Rightarrow> tgc_sem_op list \<Rightarrow> work" where
  "run_ops working [] = Work_Done working"
| "run_ops working (operation # rest) =
     (let n = unat (sem_num operation); v = working ! n in
      if sint (sem_op operation) > 0 then
        let r = (ucast v :: u32) + scast (sem_op operation) in
        if unat r > TGC_SEM_MAX_VALUE then Work_Range
        else run_ops (working[n := ucast r]) rest
      else if sint (sem_op operation) < 0 then
        let amount = - (scast (sem_op operation) :: u32) in
        if ucast v < amount then Work_Blocked operation
        else run_ops (working[n := ucast ((ucast v :: u32) - amount)]) rest
      else if v \<noteq> 0 then Work_Blocked operation
      else run_ops working rest)"

text \<open>An accumulated adjustment outside \<open>-32768 .. 32767\<close> is refused.\<close>

definition undo_out_of_range :: "int \<Rightarrow> bool" where
  "undo_out_of_range d \<longleftrightarrow> d < - int TGC_SEM_MAX_VALUE - 1 \<or> d > int TGC_SEM_MAX_VALUE"

fun sum_undo_deltas :: "s32 list \<Rightarrow> tgc_sem_op list \<Rightarrow> s32 list option" where
  "sum_undo_deltas undo_deltas [] = Some undo_deltas"
| "sum_undo_deltas undo_deltas (operation # rest) =
     (if sem_flg operation AND TGC_SEM_UNDO = 0 then sum_undo_deltas undo_deltas rest
      else
        let n = unat (sem_num operation);
            delta = sint (undo_deltas ! n) - sint (sem_op operation)
        in if undo_out_of_range delta then None
           else sum_undo_deltas (undo_deltas[n := word_of_int delta]) rest)"

text \<open>
  The check before the commit: how many new undo entries the deltas need, or \<open>None\<close> when an
  accumulated adjustment would leave its range.
\<close>

fun required_entries ::
  "tgc_sem_store \<Rightarrow> s32 \<Rightarrow> s32 \<Rightarrow> s32 list \<Rightarrow> nat list \<Rightarrow> nat \<Rightarrow> nat option" where
  "required_entries store pid semid undo_deltas [] required = Some required"
| "required_entries store pid semid undo_deltas (semnum # rest) required =
     (if undo_deltas ! semnum = 0 then required_entries store pid semid undo_deltas rest required
      else
        let d = sint (undo_deltas ! semnum);
            (adjustment, required) =
              (case find_undo_entry store pid semid (of_nat semnum) of
                 Some k \<Rightarrow> (d + sint (u_adjustment (st_undo store ! k)), required)
               | None \<Rightarrow> (d, required + 1))
        in if undo_out_of_range adjustment then None
           else required_entries store pid semid undo_deltas rest required)"

definition bump_undo :: "s32 \<Rightarrow> tgc_undo_entry \<Rightarrow> tgc_undo_entry" where
  "bump_undo delta e =
     (let a = u_adjustment e + delta in
      e\<lparr>u_adjustment := a, u_active := (if a = 0 then False else u_active e)\<rparr>)"

text \<open>The commit loop; \<open>False\<close> when it runs out of free entries (the late \<^verbatim>\<open>-ENOSPC\<close> return).\<close>

fun commit_undo ::
  "s32 \<Rightarrow> s32 \<Rightarrow> s32 list \<Rightarrow> nat list \<Rightarrow> tgc_sem_store \<Rightarrow> bool \<times> tgc_sem_store" where
  "commit_undo pid semid undo_deltas [] store = (True, store)"
| "commit_undo pid semid undo_deltas (semnum # rest) store =
     (if undo_deltas ! semnum = 0 then commit_undo pid semid undo_deltas rest store
      else
        case find_undo_entry store pid semid (of_nat semnum) of
          Some k \<Rightarrow>
            commit_undo pid semid undo_deltas rest
              (store\<lparr>st_undo := (st_undo store)
                 [k := bump_undo (undo_deltas ! semnum) (st_undo store ! k)]\<rparr>)
        | None \<Rightarrow>
            (case find_free_undo_entry store of
               None \<Rightarrow> (False, store)
             | Some k \<Rightarrow>
                 commit_undo pid semid undo_deltas rest
                   (store\<lparr>st_undo := (st_undo store)
                      [k := bump_undo (undo_deltas ! semnum)
                         \<lparr>u_pid = pid, u_semid = semid, u_adjustment = 0,
                          u_semnum = of_nat semnum, u_active = True\<rparr>]\<rparr>)))"

fun set_last_pids :: "s32 \<Rightarrow> tgc_sem_op list \<Rightarrow> s32 list \<Rightarrow> s32 list" where
  "set_last_pids pid [] pids = pids"
| "set_last_pids pid (operation # rest) pids =
     set_last_pids pid rest (pids[unat (sem_num operation) := pid])"

definition wait_reason_of :: "tgc_sem_op \<Rightarrow> tgc_sem_wait_reason" where
  "wait_reason_of operation =
     \<lparr>wr_sem_num = sem_num operation,
      wr_wait_for_zero = (if sem_op operation = 0 then 1 else 0)\<rparr>"

definition op_is_invalid :: "u16 \<Rightarrow> tgc_sem_op \<Rightarrow> bool" where
  "op_is_invalid nsems operation \<longleftrightarrow>
     sem_num operation \<ge> nsems \<or>
     (ucast (sem_flg operation) :: u32) AND NOT (ucast (TGC_IPC_NOWAIT OR TGC_SEM_UNDO)) \<noteq> 0"

text \<open>
  The last component is what is written through \<^verbatim>\<open>wait_reason\<close>: \<open>Some\<close> exactly when an operation
  blocks.
\<close>

definition tgc_sem_store_tryop_detail ::
  "s64 option \<Rightarrow> tgc_sem_store \<Rightarrow> s32 \<Rightarrow> tgc_sem_op list \<Rightarrow> s32 \<Rightarrow>
   s32 \<times> tgc_sem_store \<times> tgc_sem_wait_reason option" where
  "tgc_sem_store_tryop_detail clk store semid operations pid =
     (case find_set store semid of
        None \<Rightarrow> (- EINVAL, store, None)
      | Some i \<Rightarrow>
          let s = st_sets store ! i; nums = [0..<unat (s_nsems s)] in
          if operations = [] then (- EINVAL, store, None)
          else if \<exists>operation \<in> set operations. op_is_invalid (s_nsems s) operation
          then (- EINVAL, store, None)
          else
            case run_ops (s_values s) operations of
              Work_Range \<Rightarrow> (- ERANGE, store, None)
            | Work_Blocked operation \<Rightarrow>
                (if sem_flg operation AND TGC_IPC_NOWAIT \<noteq> 0 then - EAGAIN else TGC_SEM_OP_BLOCKED,
                 store, Some (wait_reason_of operation))
            | Work_Done working \<Rightarrow>
                (case sum_undo_deltas (replicate TGC_SEM_MAX_PER_SET 0) operations of
                   None \<Rightarrow> (- ERANGE, store, None)
                 | Some undo_deltas \<Rightarrow>
                     (case required_entries store pid semid undo_deltas nums 0 of
                        None \<Rightarrow> (- ERANGE, store, None)
                      | Some required \<Rightarrow>
                          if required > length (filter (\<lambda>e. \<not> u_active e) (st_undo store))
                          then (- ENOSPC, store, None)
                          else
                            let s = s\<lparr>s_values := working,
                                      s_last_pids := set_last_pids pid operations (s_last_pids s)\<rparr>;
                                store = store\<lparr>st_sets := (st_sets store)[i := s]\<rparr>;
                                (ok, store) = commit_undo pid semid undo_deltas nums store
                            in if \<not> ok then (- ENOSPC, store, None)
                               else (0, store\<lparr>st_sets := (st_sets store)
                                          [i := s\<lparr>s_otime := current_time_seconds clk\<rparr>]\<rparr>, None))))"

definition tgc_sem_store_tryop ::
  "s64 option \<Rightarrow> tgc_sem_store \<Rightarrow> s32 \<Rightarrow> tgc_sem_op list \<Rightarrow> s32 \<Rightarrow> s32 \<times> tgc_sem_store" where
  "tgc_sem_store_tryop clk store semid operations pid =
     (let (r, store, _) = tgc_sem_store_tryop_detail clk store semid operations pid in (r, store))"

end
