(* ===== verification/Tgc_Sem_Store_Inv.thy ===== *)
theory Tgc_Sem_Store_Inv
  imports Tgc_Sem_Store
begin

text \<open>
  The representation invariant of the semaphore store and that every operation of
  \<^verbatim>\<open>sem_store.c\<close> other than \<^verbatim>\<open>tryop\<close> keeps it (\<^verbatim>\<open>tryop\<close> and process exit are in
  \<^verbatim>\<open>Tgc_Sem_Undo\<close>), the arithmetic of generation-tagged identifiers, and the frame facts that
  say which identifiers an operation can affect.
\<close>

section \<open>Identifiers as numbers\<close>

lemma unat_make_id:
  assumes "i < 65535"
  shows "unat (make_id i g) = unat g * 65536 + i + 1"
proof -
  have low: "n < 16" if "bit (Suc i) n" for n
  proof -
    have "take_bit 16 (Suc i) = Suc i" using assms by (intro take_bit_nat_eq_self) simp
    with that show "n < 16" by (metis bit_take_bit_iff)
  qed
  have "make_id i g = push_bit 16 (ucast g) + of_nat (Suc i)"
    unfolding make_id_def
    by (subst disjunctive_add_eq_or)
      (use low in \<open>force simp: bit_eq_iff bit_simps simp del: of_nat_Suc\<close>, simp)
  also have "\<dots> = of_nat (unat g * 65536 + Suc i)"
    by (simp add: push_bit_eq_mult)
  finally show ?thesis
    using assms unat_bound16 [of g]
    by (simp add: unat_of_nat take_bit_eq_mod del: of_nat_add of_nat_Suc of_nat_mult)
qed

lemma unat_low16: "unat ((x :: s32) AND 0xffff) = unat x mod 65536"
proof -
  have "x AND 0xffff = take_bit 16 x" by (simp add: take_bit_eq_mask mask_eq_exp_minus_1)
  then show ?thesis by (simp only: unsigned_take_bit_eq) (simp add: take_bit_eq_mod)
qed

lemma unat_high16: "unat (ucast (drop_bit 16 (x :: s32)) :: u16) = unat x div 65536"
proof -
  have "unat x < 4294967296" using unsigned_less [of x] by simp
  then have "unat x div 65536 < 65536" by simp
  then show ?thesis
    by (simp only: unsigned_ucast_eq unsigned_drop_bit_eq) (simp add: drop_bit_eq_div take_bit_eq_mod)
qed

lemma sint_nonpos_iff: "sint (x :: s32) \<le> 0 \<longleftrightarrow> unat x = 0 \<or> 2147483648 \<le> unat x"
proof -
  have "int (unat x) = uint x" by simp
  moreover have "unat x < 4294967296" using unsigned_less [of x] by simp
  ultimately show ?thesis unfolding sint_s32_eq by presburger
qed

lemma decode_id_Some_iff:
  "decode_id semid = Some (i, g) \<longleftrightarrow>
   i < TGC_SEM_MAX_SETS \<and> g \<noteq> 0 \<and> g \<le> 0x7fff \<and> semid = make_id i g"
proof
  assume l: "decode_id semid = Some (i, g)"
  let ?k = "unat semid"
  from l have k: "0 < ?k" "?k < 2147483648" "0 < ?k mod 65536" "?k mod 65536 \<le> 128"
    and i: "i = ?k mod 65536 - 1" and g: "g = ucast (drop_bit 16 semid)" and g0: "g \<noteq> 0"
    by (auto simp: decode_id_def Let_def sint_nonpos_iff unat_low16 unat_eq_0 [symmetric]
        split: if_splits simp flip: unat_low16)
  have ug: "unat g = ?k div 65536" by (simp add: g unat_high16)
  then have "g \<le> 0x7fff" using k(2) by (simp add: word_le_nat_alt)
  moreover have "i < 65535" using k i by linarith
  then have "unat (make_id i g) = ?k" using k i ug by (simp add: unat_make_id)
  then have "semid = make_id i g" by (metis word_unat_eq_iff)
  ultimately show "i < TGC_SEM_MAX_SETS \<and> g \<noteq> 0 \<and> g \<le> 0x7fff \<and> semid = make_id i g"
    using k i g0 by simp
next
  assume r: "i < TGC_SEM_MAX_SETS \<and> g \<noteq> 0 \<and> g \<le> 0x7fff \<and> semid = make_id i g"
  then have k: "unat semid = unat g * 65536 + (i + 1)" by (simp add: unat_make_id)
  have g: "0 < unat g" "unat g \<le> 32767" using r by (auto simp: word_le_nat_alt unat_gt_0)
  have "unat semid mod 65536 = i + 1" "unat semid div 65536 = unat g"
    unfolding k using r by (simp_all add: div_mult_self3 del: add_Suc_right add_Suc)
  moreover from this(2) have "ucast (drop_bit 16 semid) = g"
    by (metis unat_high16 word_unat_eq_iff)
  moreover from calculation(1) have "semid AND 65535 \<noteq> 0"
    by (metis unat_0 unat_low16 add_is_0 zero_neq_one)
  ultimately show "decode_id semid = Some (i, g)"
    using r g k by (simp add: decode_id_def Let_def sint_nonpos_iff unat_low16)
qed

lemma make_id_inject:
  "i < TGC_SEM_MAX_SETS \<Longrightarrow> j < TGC_SEM_MAX_SETS \<Longrightarrow> make_id i g = make_id j h \<longleftrightarrow> i = j \<and> g = h"
proof
  assume b: "i < TGC_SEM_MAX_SETS" "j < TGC_SEM_MAX_SETS" and eq: "make_id i g = make_id j h"
  then have *: "unat g * 65536 + i = unat h * 65536 + j"
    using unat_make_id [of i g] unat_make_id [of j h] by simp
  have "(unat g * 65536 + i) mod 65536 = i" "(unat h * 65536 + j) mod 65536 = j"
    using b by simp_all
  with * have "i = j" by metis
  with * show "i = j \<and> g = h" by (simp add: word_unat_eq_iff)
qed simp

lemma make_id_positive:
  "i < TGC_SEM_MAX_SETS \<Longrightarrow> g \<noteq> 0 \<Longrightarrow> g \<le> 0x7fff \<Longrightarrow> 0 < sint (make_id i g)"
  using decode_id_Some_iff [of "make_id i g" i g]
  by (auto simp: decode_id_def not_le split: if_splits)

lemma next_generation_range:
  "next_generation g \<noteq> 0" "next_generation g \<le> 0x7fff"
  by (auto simp: next_generation_def word_le_nat_alt not_le unat_word_ariths unat_eq_0 [symmetric])

lemma next_generation_neq: "next_generation g \<noteq> g"
  by (auto simp: next_generation_def word_le_nat_alt)

lemma find_const_set_eq [simp]: "find_const_set = find_set"
  by (rule ext)+ (simp add: find_const_set_def find_set_def)

section \<open>The invariant\<close>

definition set_wf :: "tgc_sem_set \<Rightarrow> bool" where
  "set_wf s \<longleftrightarrow>
     s_generation s \<le> 0x7fff \<and>
     length (s_values s) = unat (s_nsems s) \<and>
     length (s_last_pids s) = unat (s_nsems s) \<and>
     length (s_negative_waiters s) = unat (s_nsems s) \<and>
     length (s_zero_waiters s) = unat (s_nsems s) \<and>
     (\<forall>v \<in> set (s_values s). unat v \<le> TGC_SEM_MAX_VALUE) \<and>
     unat (s_nsems s) \<le> TGC_SEM_MAX_PER_SET \<and>
     (if s_active s then s_generation s \<noteq> 0 \<and> 0 < unat (s_nsems s) else s_nsems s = 0)"

abbreviation undo_key :: "tgc_undo_entry \<Rightarrow> s32 \<times> s32 \<times> u16" where
  "undo_key e \<equiv> (u_pid e, u_semid e, u_semnum e)"

text \<open>An active undo entry belongs to a live set and semaphore and holds a non-zero adjustment.\<close>

definition undo_wf :: "tgc_sem_store \<Rightarrow> tgc_undo_entry \<Rightarrow> bool" where
  "undo_wf store e \<longleftrightarrow>
     (u_active e \<longrightarrow>
        (\<exists>i. find_set store (u_semid e) = Some i \<and>
             unat (u_semnum e) < unat (s_nsems (st_sets store ! i))) \<and>
        u_adjustment e \<noteq> 0 \<and> \<not> undo_out_of_range (sint (u_adjustment e)))"

definition store_wf :: "tgc_sem_store \<Rightarrow> bool" where
  "store_wf store \<longleftrightarrow>
     length (st_sets store) = TGC_SEM_MAX_SETS \<and>
     (\<forall>s \<in> set (st_sets store). set_wf s) \<and>
     slots_unique (\<lambda>s. s_active s \<and> s_key s \<noteq> TGC_IPC_PRIVATE) s_key (st_sets store) \<and>
     length (st_undo store) = TGC_SEM_MAX_UNDO_ENTRIES \<and>
     (\<forall>e \<in> set (st_undo store). undo_wf store e) \<and>
     slots_unique u_active undo_key (st_undo store)"

lemma store_wfD:
  assumes "store_wf store"
  shows "length (st_sets store) = 128" "length (st_undo store) = 4096"
    and "i < 128 \<Longrightarrow> set_wf (st_sets store ! i)"
    and "e \<in> set (st_undo store) \<Longrightarrow> undo_wf store e"
    and "slots_unique (\<lambda>s. s_active s \<and> s_key s \<noteq> TGC_IPC_PRIVATE) s_key (st_sets store)"
    and "slots_unique u_active undo_key (st_undo store)"
  using assms by (auto simp: store_wf_def)

lemma find_set_SomeD:
  assumes "store_wf store" and "find_set store semid = Some i"
  shows "i < 128" and "s_active (st_sets store ! i)" and "set_wf (st_sets store ! i)"
    and "semid = make_id i (s_generation (st_sets store ! i))"
  using assms store_wfD(3) [of store i]
  by (auto simp: find_set_def Let_def decode_id_Some_iff split: option.splits if_splits)

text \<open>The identifiers a well-formed store answers to are exactly those of its active slots.\<close>

lemma find_set_iff:
  assumes "store_wf store"
  shows "find_set store semid = Some i \<longleftrightarrow>
    i < 128 \<and> s_active (st_sets store ! i) \<and> semid = make_id i (s_generation (st_sets store ! i))"
proof
  assume r: "i < 128 \<and> s_active (st_sets store ! i) \<and>
    semid = make_id i (s_generation (st_sets store ! i))"
  with store_wfD(3) [OF assms, of i]
  have "decode_id semid = Some (i, s_generation (st_sets store ! i))"
    by (simp add: decode_id_Some_iff set_wf_def)
  with r show "find_set store semid = Some i" by (simp add: find_set_def)
qed (use find_set_SomeD [OF assms] in auto)

lemma store_wf_create: "store_wf tgc_sem_store_create"
  by (auto simp: store_wf_def tgc_sem_store_create_def empty_set_def empty_undo_def set_wf_def
      undo_wf_def intro!: slots_unique_inactive)

section \<open>Updating one set or the undo table\<close>

text \<open>An update that keeps a slot's generation and active flag changes no identifier's meaning.\<close>

lemma find_set_update:
  assumes "s_active s = s_active (st_sets store ! i)"
    and "s_generation s = s_generation (st_sets store ! i)"
  shows "find_set (store\<lparr>st_sets := (st_sets store)[i := s]\<rparr>) semid = find_set store semid"
proof -
  have "s_active ((st_sets store)[i := s] ! j) = s_active (st_sets store ! j) \<and>
      s_generation ((st_sets store)[i := s] ! j) = s_generation (st_sets store ! j)" for j
    using assms by (cases "i < length (st_sets store)") (auto simp: nth_list_update list_update_beyond)
  then show ?thesis by (simp add: find_set_def Let_def split: option.splits)
qed

lemma find_set_undo_update [simp]: "find_set (store\<lparr>st_undo := u\<rparr>) semid = find_set store semid"
  by (simp add: find_set_def split: option.splits)

lemma store_wf_update_set:
  assumes wf: "store_wf store" and "i < 128" and "set_wf s"
    and "s_active s = s_active (st_sets store ! i)"
    and "s_generation s = s_generation (st_sets store ! i)"
    and "s_key s = s_key (st_sets store ! i)" and n: "s_nsems s = s_nsems (st_sets store ! i)"
  shows "store_wf (store\<lparr>st_sets := (st_sets store)[i := s]\<rparr>)"
proof -
  let ?st = "store\<lparr>st_sets := (st_sets store)[i := s]\<rparr>"
  have nsems: "s_nsems ((st_sets store)[i := s] ! j) = s_nsems (st_sets store ! j)" for j
    using n by (cases "i < length (st_sets store)") (auto simp: nth_list_update list_update_beyond)
  have "undo_wf ?st e" if "undo_wf store e" for e
    using that assms(4,5) by (simp add: undo_wf_def find_set_update nsems)
  then show ?thesis using assms
    by (auto simp: store_wf_def intro!: slots_unique_replace dest!: set_update_subset_insert [THEN subsetD])
qed

lemma undo_wf_undo_update [simp]: "undo_wf (store\<lparr>st_undo := u\<rparr>) e = undo_wf store e"
  by (simp add: undo_wf_def)

lemma store_wf_update_undo:
  assumes "store_wf store" and "length u = 4096" and "\<And>e. e \<in> set u \<Longrightarrow> undo_wf store e"
    and "slots_unique u_active undo_key u"
  shows "store_wf (store\<lparr>st_undo := u\<rparr>)"
  using assms by (simp add: store_wf_def)

lemma clear_undo_entries_simps [simp]:
  "st_sets (clear_undo_entries store semid n all) = st_sets store"
  "find_set (clear_undo_entries store semid n all) x = find_set store x"
  by (simp_all add: clear_undo_entries_def)

lemma store_wf_clear_undo:
  assumes "store_wf store"
  shows "store_wf (clear_undo_entries store semid n all)"
  unfolding clear_undo_entries_def
  by (rule store_wf_update_undo)
    (use store_wfD [OF assms] in \<open>auto simp: undo_wf_def intro!: slots_unique_map assms split: if_splits\<close>)

lemma clear_undo_entries_inactive:
  "e \<in> set (st_undo (clear_undo_entries store semid n True)) \<Longrightarrow> u_semid e = semid \<Longrightarrow> \<not> u_active e"
proof -
  assume "e \<in> set (st_undo (clear_undo_entries store semid n True))" and id: "u_semid e = semid"
  from this(1) have "e \<in> (\<lambda>x. if u_active x \<and> u_semid x = semid then x\<lparr>u_active := False\<rparr> else x) `
      set (st_undo store)" by (simp add: clear_undo_entries_def)
  then obtain x where e: "e = (if u_active x \<and> u_semid x = semid then x\<lparr>u_active := False\<rparr> else x)"
    by (rule imageE)
  show "\<not> u_active e"
  proof (cases "u_active x \<and> u_semid x = semid")
    case False
    then have "e = x" unfolding e by (rule if_not_P)
    with False id show ?thesis by blast
  qed (simp add: e)
qed

section \<open>Every operation keeps the invariant\<close>

lemma store_wf_remove:
  assumes wf: "store_wf store"
  shows "store_wf (snd (tgc_sem_store_remove store semid))"
proof (cases "find_set store semid")
  case None
  then show ?thesis using wf by (simp add: tgc_sem_store_remove_def)
next
  case (Some i)
  note i = find_set_SomeD [OF wf Some]
  let ?c = "clear_undo_entries store semid 0 True"
  let ?r = "removed_set (st_sets store ! i)"
  let ?st = "?c\<lparr>st_sets := (st_sets store)[i := ?r]\<rparr>"
  have len: "length (st_sets store) = 128" using wf by (simp add: store_wfD)
  have wfc: "store_wf ?c" using wf by (rule store_wf_clear_undo)
  have r: "set_wf ?r" "\<not> s_active ?r"
    using next_generation_range by (simp_all add: removed_set_def set_wf_def)
  have "undo_wf ?st e" if e: "e \<in> set (st_undo ?c)" for e
  proof (cases "u_active e")
    case True
    from store_wfD(4) [OF wfc e] True obtain j where
      j: "find_set store (u_semid e) = Some j"
        "unat (u_semnum e) < unat (s_nsems (st_sets store ! j))"
      and rest: "u_adjustment e \<noteq> 0" "\<not> undo_out_of_range (sint (u_adjustment e))"
      by (auto simp: undo_wf_def)
    have "u_semid e \<noteq> semid" using clear_undo_entries_inactive [OF e] True by blast
    then have "j \<noteq> i" using find_set_SomeD [OF wf j(1)] i by metis
    then have "find_set ?st (u_semid e) = Some j"
      using j(1) by (auto simp: find_set_def Let_def split: option.splits if_splits)
    then show ?thesis using j(2) rest \<open>j \<noteq> i\<close> by (simp add: undo_wf_def)
  qed (simp add: undo_wf_def)
  then have "store_wf ?st"
    using wfc r len
    by (auto simp: store_wf_def intro!: slots_unique_deactivate
        dest!: set_update_subset_insert [THEN subsetD])
  then show ?thesis by (simp add: tgc_sem_store_remove_def Some Let_def)
qed

lemma set_wf_new_set:
  assumes "set_wf s" and "0 < sint nsems" and "sint nsems \<le> 512"
  shows "set_wf (new_set clk s key nsems flags identity)"
proof -
  have s: "sint nsems = int (unat nsems)" using assms(2) sint_nonneg_eq [of nsems] by simp
  then have u: "unat nsems \<le> 512" "0 < unat nsems" using assms(2,3) by linarith+
  then have "unat (ucast nsems :: u16) = unat nsems" by (intro unat_ucast_u16) simp
  moreover have "nat (sint nsems) = unat nsems" unfolding s by simp
  ultimately show ?thesis
    using assms(1) u by (auto simp: set_wf_def new_set_def word_le_nat_alt)
qed

lemma store_wf_get_as:
  assumes wf: "store_wf store"
  shows "store_wf (snd (tgc_sem_store_get_as clk mem store key nsems flags identity))"
proof -
  let ?look = "if key \<noteq> TGC_IPC_PRIVATE
    then first_index (\<lambda>s. s_active s \<and> s_key s = key) (st_sets store) else None"
  have ins: "store_wf (store\<lparr>st_sets := (st_sets store)
      [i := new_set clk (st_sets store ! i) key nsems flags identity]\<rparr>)"
    if look: "?look = None" and free: "first_index (\<lambda>s. \<not> s_active s) (st_sets store) = Some i"
      and n: "0 < sint nsems" "sint nsems \<le> 512" for i
  proof -
    let ?s = "new_set clk (st_sets store ! i) key nsems flags identity"
    let ?st = "store\<lparr>st_sets := (st_sets store)[i := ?s]\<rparr>"
    have len: "length (st_sets store) = 128" using wf by (simp add: store_wfD)
    have i: "i < 128" "\<not> s_active (st_sets store ! i)" using first_indexD [OF free] len by auto
    have s: "set_wf ?s" using set_wf_new_set [OF store_wfD(3) [OF wf i(1)] n] .
    have "undo_wf ?st e" if "e \<in> set (st_undo store)" for e
    proof -
      have "find_set ?st (u_semid e) = Some j" if "find_set store (u_semid e) = Some j" for j
        using that i len by (auto simp: find_set_def Let_def nth_list_update split: option.splits if_splits)
      moreover have "j \<noteq> i" if "find_set store (u_semid e) = Some j" for j
        using find_set_SomeD [OF wf that] i by auto
      ultimately show ?thesis
        using store_wfD(4) [OF wf that] by (fastforce simp: undo_wf_def)
    qed
    moreover have "slots_unique (\<lambda>s. s_active s \<and> s_key s \<noteq> TGC_IPC_PRIVATE) s_key
        ((st_sets store)[i := ?s])"
    proof (cases "key = 0")
      case True
      then show ?thesis
        using store_wfD(5) [OF wf] by (intro slots_unique_deactivate) (auto simp: new_set_def)
    next
      case False
      then show ?thesis
        using store_wfD(5) [OF wf] look
        by (intro slots_unique_insert) (auto simp: new_set_def first_index_None_iff)
    qed
    ultimately show ?thesis
      using wf s by (auto simp: store_wf_def dest!: set_update_subset_insert [THEN subsetD])
  qed
  show ?thesis
    unfolding tgc_sem_store_get_as_def Let_def
    using wf ins by (auto simp: not_le not_less simp del: TGC_IPC_PRIVATE_def split: option.splits)
qed

lemma set_update_ballD:
  "v \<in> set (xs[i := y]) \<Longrightarrow> v = y \<or> v \<in> set xs"
  using set_update_subset_insert [of xs i y] by auto

lemma store_wf_setval:
  assumes wf: "store_wf store"
  shows "store_wf (snd (tgc_sem_store_setval clk store semid n val pid))"
proof (cases "find_set store semid")
  case (Some i)
  note i = find_set_SomeD [OF wf Some]
  show ?thesis
  proof (cases "unat (s_nsems (st_sets store ! i)) \<le> n \<or> 32767 < unat val")
    case False
    let ?s = "(st_sets store ! i)\<lparr>s_values := (s_values (st_sets store ! i))[n := ucast val],
        s_last_pids := (s_last_pids (st_sets store ! i))[n := pid], s_ctime := current_time_seconds clk\<rparr>"
    have "unat (ucast val :: u16) \<le> 32767" using False by (simp add: unat_ucast_u16)
    then have "set_wf ?s" using i(3) by (auto simp: set_wf_def dest!: set_update_ballD)
    then show ?thesis
      using store_wf_update_set [OF store_wf_clear_undo [OF wf] i(1), of ?s] False Some
      by (simp add: tgc_sem_store_setval_def Let_def)
  qed (use wf Some in \<open>auto simp: tgc_sem_store_setval_def Let_def\<close>)
qed (use wf in \<open>simp add: tgc_sem_store_setval_def\<close>)

lemma store_wf_setall:
  assumes wf: "store_wf store"
  shows "store_wf (snd (tgc_sem_store_setall clk store semid vals pid))"
proof (cases "find_set store semid")
  case (Some i)
  note i = find_set_SomeD [OF wf Some]
  let ?s = "(st_sets store ! i)\<lparr>s_values := vals, s_last_pids := replicate (length vals) pid,
    s_ctime := current_time_seconds clk\<rparr>"
  show ?thesis
  proof (cases "length vals \<noteq> unat (s_nsems (st_sets store ! i)) \<or> (\<exists>v\<in>set vals. 32767 < unat v)")
    case False
    then have "set_wf ?s" using i(3) by (auto simp: set_wf_def not_less)
    then show ?thesis
      using store_wf_update_set [OF store_wf_clear_undo [OF wf] i(1), of ?s] False Some
      by (simp add: tgc_sem_store_setall_def Let_def)
  qed (use wf Some in \<open>auto simp: tgc_sem_store_setall_def Let_def\<close>)
qed (use wf in \<open>simp add: tgc_sem_store_setall_def\<close>)

lemma store_wf_set_metadata:
  assumes wf: "store_wf store"
  shows "store_wf (snd (tgc_sem_store_set_metadata clk store semid uid gid mode actor))"
proof (cases "find_set store semid")
  case (Some i)
  note i = find_set_SomeD [OF wf Some]
  have "store_wf (store\<lparr>st_sets := (st_sets store)[i := (st_sets store ! i)
      \<lparr>s_gid := gid, s_mode := mode, s_ctime := current_time_seconds clk\<rparr>]\<rparr>)"
    by (rule store_wf_update_set) (use wf i in \<open>auto simp: set_wf_def\<close>)
  then show ?thesis using wf Some by (simp add: tgc_sem_store_set_metadata_def Let_def)
qed (use wf in \<open>simp add: tgc_sem_store_set_metadata_def\<close>)

lemma store_wf_adjust_wait_count:
  assumes wf: "store_wf store"
  shows "store_wf (snd (tgc_sem_store_adjust_wait_count store semid n z adj))"
proof (cases "find_set store semid")
  case (Some i)
  note i = find_set_SomeD [OF wf Some]
  have "store_wf (store\<lparr>st_sets := (st_sets store)[i := (st_sets store ! i)\<lparr>s_zero_waiters := z\<rparr>]\<rparr>)"
    if "length z = unat (s_nsems (st_sets store ! i))" for z
    by (rule store_wf_update_set) (use wf i that in \<open>auto simp: set_wf_def\<close>)
  moreover have "store_wf (store\<lparr>st_sets := (st_sets store)
      [i := (st_sets store ! i)\<lparr>s_negative_waiters := z\<rparr>]\<rparr>)"
    if "length z = unat (s_nsems (st_sets store ! i))" for z
    by (rule store_wf_update_set) (use wf i that in \<open>auto simp: set_wf_def\<close>)
  ultimately show ?thesis
    using wf Some i(3) by (simp add: tgc_sem_store_adjust_wait_count_def Let_def set_wf_def)
qed (use wf in \<open>simp add: tgc_sem_store_adjust_wait_count_def\<close>)

end
