(* ===== verification/Tgc_Sem_Undo.thy ===== *)
theory Tgc_Sem_Undo
  imports Tgc_Sem_Store_Inv
begin

text \<open>
  The undo table of the store. Abstractly it is a function from process, identifier and semaphore
  number to an integer adjustment (\<open>undo_of\<close>), zero where no entry is active. The two passes of
  \<^verbatim>\<open>tgc_sem_store_tryop_detail\<close> over it (the range and capacity check, then the commit) and
  \<^verbatim>\<open>tgc_sem_store_process_exit\<close> are shown to implement pointwise updates of that function.
\<close>

section \<open>The abstract state\<close>

text \<open>
  The value of a semaphore, \<open>None\<close> where the identifier is not live or the number is out of range.
  Together with \<open>undo_of\<close> below it is the abstract state of the store.
\<close>

definition sem_value :: "tgc_sem_store \<Rightarrow> s32 \<Rightarrow> nat \<Rightarrow> int option" where
  "sem_value store semid n =
     (case find_set store semid of
        None \<Rightarrow> None
      | Some i \<Rightarrow> if n < unat (s_nsems (st_sets store ! i))
                  then Some (uint (s_values (st_sets store ! i) ! n)) else None)"

lemma find_set_cong: "st_sets st = st_sets st' \<Longrightarrow> find_set st semid = find_set st' semid"
  unfolding find_set_def by (erule ssubst) (rule refl)

lemma sem_value_cong: "st_sets st = st_sets st' \<Longrightarrow> sem_value st = sem_value st'"
  unfolding sem_value_def find_set_def by (erule ssubst) (rule refl)

lemma sem_value_undo: "sem_value (store\<lparr>st_undo := u\<rparr>) = sem_value store"
  by (rule sem_value_cong) simp

lemma sem_value_range:
  assumes "store_wf store" and "sem_value store semid n = Some v"
  shows "0 \<le> v" "v \<le> 32767"
proof -
  from assms(2) obtain i where i: "find_set store semid = Some i"
    "n < unat (s_nsems (st_sets store ! i))" "v = uint (s_values (st_sets store ! i) ! n)"
    by (auto simp: sem_value_def split: option.splits if_splits)
  have "unat (s_values (st_sets store ! i) ! n) \<le> 32767"
    using find_set_SomeD(3) [OF assms(1) i(1)] i(2) by (simp add: set_wf_def)
  then have "int (unat (s_values (st_sets store ! i) ! n)) \<le> 32767" by linarith
  then show "0 \<le> v" "v \<le> 32767" using i(3) by simp_all
qed

lemma sem_value_update:
  assumes wf: "store_wf store" and i: "find_set store semid = Some i"
    and "s_active s = s_active (st_sets store ! i)"
    and "s_generation s = s_generation (st_sets store ! i)"
    and n: "s_nsems s = s_nsems (st_sets store ! i)"
  shows "sem_value (store\<lparr>st_sets := (st_sets store)[i := s]\<rparr>) x m =
    (if x = semid then if m < unat (s_nsems s) then Some (uint (s_values s ! m)) else None
     else sem_value store x m)"
proof -
  have len: "i < length (st_sets store)" using find_set_SomeD(1) [OF wf i] store_wfD(1) [OF wf] by simp
  have "j = i \<longleftrightarrow> x = semid" if "find_set store x = Some j" for j
    using find_set_SomeD(4) [OF wf that] find_set_SomeD(4) [OF wf i] that i
    by (metis option.inject)
  then show ?thesis
    using assms len
    by (cases "find_set store x") (auto simp: sem_value_def find_set_update nth_list_update)
qed

section \<open>The undo table as a function\<close>

definition undo_of :: "tgc_sem_store \<Rightarrow> s32 \<Rightarrow> s32 \<Rightarrow> u16 \<Rightarrow> int" where
  "undo_of store pid semid semnum =
     (case find_undo_entry store pid semid semnum of
        None \<Rightarrow> 0
      | Some k \<Rightarrow> sint (u_adjustment (st_undo store ! k)))"

interpretation undo_table: slot_table st_undo u_active undo_key
    "\<lambda>store. \<lambda>(pid, semid, semnum). find_undo_entry store pid semid semnum" find_free_undo_entry
  by unfold_locales
    (auto simp: find_undo_entry_def find_free_undo_entry_def intro: first_index_cong)

lemma undo_of_slot_get:
  "undo_of store pid semid semnum =
     (case slot_get u_active undo_key (st_undo store) (pid, semid, semnum) of
        None \<Rightarrow> 0 | Some e \<Rightarrow> sint (u_adjustment e))"
  by (simp add: undo_of_def slot_get_def find_undo_entry_def split: option.splits)

lemma undo_of_entry:
  assumes "store_wf store" and "e \<in> set (st_undo store)" and "u_active e"
  shows "undo_of store (u_pid e) (u_semid e) (u_semnum e) = sint (u_adjustment e)"
  using assms slot_get_Some_iff [OF store_wfD(6) [OF assms(1)], of "undo_key e" e]
  by (simp add: undo_of_slot_get)

lemma undo_of_cong: "st_undo st = st_undo st' \<Longrightarrow> undo_of st = undo_of st'"
  by (intro ext) (simp add: undo_of_slot_get)

lemma undo_slotD:
  assumes "store_wf store" and "slot_get u_active undo_key (st_undo store) (pid, semid, n) = Some e"
  shows "\<exists>i. find_set store semid = Some i \<and> unat n < unat (s_nsems (st_sets store ! i))"
    and "\<not> undo_out_of_range (sint (u_adjustment e))"
proof -
  from assms(2) have "e \<in> set (st_undo store)" "u_active e" "u_semid e = semid" "u_semnum e = n"
    by (simp_all add: slot_get_Some_iff [OF store_wfD(6) [OF assms(1)]])
  then show "\<exists>i. find_set store semid = Some i \<and> unat n < unat (s_nsems (st_sets store ! i))"
    "\<not> undo_out_of_range (sint (u_adjustment e))"
    using store_wfD(4) [OF assms(1), of e] by (auto simp: undo_wf_def)
qed

lemma undo_of_range:
  assumes "store_wf store"
  shows "\<not> undo_out_of_range (undo_of store pid semid n)"
  using undo_slotD(2) [OF assms]
  by (simp add: undo_of_slot_get undo_out_of_range_def [of 0] split: option.splits)

text \<open>Only live identifiers have adjustments.\<close>

lemma undo_of_nonzeroD:
  assumes "store_wf store" and "undo_of store pid semid n \<noteq> 0"
  obtains i where "find_set store semid = Some i" "unat n < unat (s_nsems (st_sets store ! i))"
proof (cases "slot_get u_active undo_key (st_undo store) (pid, semid, n)")
  case None
  then show ?thesis using assms by (simp add: undo_of_slot_get)
next
  case (Some e)
  from undo_slotD(1) [OF assms(1) this] that show ?thesis by blast
qed

lemma no_undo_entry_iff:
  assumes "store_wf store"
  shows "find_undo_entry store pid semid n = None \<longleftrightarrow> undo_of store pid semid n = 0"
proof (cases "find_undo_entry store pid semid n")
  case (Some k)
  then have "k < length (st_undo store)" "u_active (st_undo store ! k)"
    using undo_table.lookup_SomeD [of store "(pid, semid, n)"] by auto
  then have "u_adjustment (st_undo store ! k) \<noteq> 0"
    using store_wfD(4) [OF assms, of "st_undo store ! k"] by (simp add: undo_wf_def)
  then show ?thesis using Some by (simp add: undo_of_def signed_eq_0_iff)
qed (simp add: undo_of_def)

section \<open>Adding up the requested adjustments\<close>

definition is_undo :: "tgc_sem_op \<Rightarrow> bool" where
  "is_undo operation \<longleftrightarrow> sem_flg operation AND TGC_SEM_UNDO \<noteq> 0"

text \<open>The adjustment a list of operations asks for: minus the sum of its undoable operations.\<close>

fun undo_sum :: "tgc_sem_op list \<Rightarrow> nat \<Rightarrow> int" where
  "undo_sum [] n = 0"
| "undo_sum (operation # rest) n =
     (if is_undo operation \<and> unat (sem_num operation) = n then - sint (sem_op operation) else 0) +
     undo_sum rest n"

lemma sint_word_of_int_s32:
  "- 2147483648 \<le> d \<Longrightarrow> d < 2147483648 \<Longrightarrow> sint (word_of_int d :: s32) = d"
  by (simp add: signed_of_int signed_take_bit_int_eq_self)

lemma sum_undo_deltas_Cons:
  "sum_undo_deltas ds (operation # rest) =
     (if is_undo operation
      then let n = unat (sem_num operation); d = sint (ds ! n) - sint (sem_op operation)
           in if undo_out_of_range d then None else sum_undo_deltas (ds[n := word_of_int d]) rest
      else sum_undo_deltas ds rest)"
  by (simp add: is_undo_def)

lemma sum_undo_deltas_iff:
  assumes "\<forall>operation \<in> set ops. unat (sem_num operation) < length ds"
  shows "sum_undo_deltas ds ops = Some ds' \<longleftrightarrow>
    length ds' = length ds \<and>
    (\<forall>n < length ds. sint (ds' ! n) = sint (ds ! n) + undo_sum ops n) \<and>
    (\<forall>m < length ops. is_undo (ops ! m) \<longrightarrow>
       \<not> undo_out_of_range (sint (ds ! unat (sem_num (ops ! m))) +
           undo_sum (take (Suc m) ops) (unat (sem_num (ops ! m)))))"
  using assms
proof (induction ops arbitrary: ds)
  case Nil
  have "ds = ds' \<longleftrightarrow> length ds' = length ds \<and> (\<forall>n < length ds. sint (ds' ! n) = sint (ds ! n))"
    by (auto simp: list_eq_iff_nth_eq) (metis signed_word_eqI)
  then show ?case by auto
next
  case (Cons op ops)
  let ?k = "unat (sem_num op)"
  let ?d = "sint (ds ! ?k) - sint (sem_op op)"
  show ?case
  proof (cases "is_undo op")
    case False
    then show ?thesis
      using Cons.IH [of ds] Cons.prems
      by (simp add: sum_undo_deltas_Cons All_less_Suc2 del: sum_undo_deltas.simps)
  next
    case True
    show ?thesis
    proof (cases "undo_out_of_range ?d")
      case True
      then show ?thesis using \<open>is_undo op\<close>
        by (simp add: sum_undo_deltas_Cons All_less_Suc2 del: sum_undo_deltas.simps)
    next
      case False
      define w where "w = (word_of_int ?d :: s32)"
      have d: "sint w = ?d"
        using False unfolding w_def by (intro sint_word_of_int_s32) (auto simp: undo_out_of_range_def)
      have k: "?k < length ds" using Cons.prems by simp
      have upd: "sint (ds[?k := w] ! n) =
          sint (ds ! n) + (if ?k = n then - sint (sem_op op) else 0)" if "n < length ds" for n
        using that d by (cases "?k = n") auto
      have eq: "sum_undo_deltas ds (op # ops) = sum_undo_deltas (ds[?k := w]) ops"
        using \<open>is_undo op\<close> False by (simp only: sum_undo_deltas_Cons Let_def w_def if_True if_False)
      have num: "unat (sem_num (ops ! m)) < length ds" if "m < length ops" for m
        using that Cons.prems by simp
      have IH: "sum_undo_deltas (ds[?k := w]) ops = Some ds' \<longleftrightarrow>
        length ds' = length ds \<and>
        (\<forall>n < length ds. sint (ds' ! n) =
           sint (ds ! n) + (if ?k = n then - sint (sem_op op) else 0) + undo_sum ops n) \<and>
        (\<forall>m < length ops. is_undo (ops ! m) \<longrightarrow>
           \<not> undo_out_of_range (sint (ds ! unat (sem_num (ops ! m))) +
              (if ?k = unat (sem_num (ops ! m)) then - sint (sem_op op) else 0) +
              undo_sum (take (Suc m) ops) (unat (sem_num (ops ! m)))))"
        using Cons.IH [of "ds[?k := w]"] Cons.prems by (simp add: upd num)
      show ?thesis
        unfolding eq IH using \<open>is_undo op\<close> False
        by (simp add: All_less_Suc2 add.assoc)
    qed
  qed
qed

section \<open>The check before the commit\<close>

lemma required_entries_eq:
  assumes wf: "store_wf store"
  shows "required_entries store pid semid ds nums r =
    (if \<forall>n \<in> set nums. \<not> undo_out_of_range (undo_of store pid semid (of_nat n) + sint (ds ! n))
     then Some (r + length (filter (\<lambda>n. ds ! n \<noteq> 0 \<and> undo_of store pid semid (of_nat n) = 0) nums))
     else None)"
proof (induction nums arbitrary: r)
  case (Cons n nums)
  show ?case
  proof (cases "ds ! n = 0")
    case True
    then show ?thesis using undo_of_range [OF wf] by (simp add: Cons.IH)
  next
    case False
    show ?thesis
    proof (cases "find_undo_entry store pid semid (of_nat n)")
      case None
      then have "undo_of store pid semid (of_nat n) = 0" by (simp add: no_undo_entry_iff [OF wf])
      then show ?thesis using False None by (simp add: Cons.IH)
    next
      case (Some k)
      then have "undo_of store pid semid (of_nat n) \<noteq> 0"
        using no_undo_entry_iff [OF wf, of pid semid "of_nat n"] by simp
      moreover have "undo_of store pid semid (of_nat n) = sint (u_adjustment (st_undo store ! k))"
        using Some by (simp add: undo_of_def)
      ultimately show ?thesis using False Some by (simp add: Cons.IH add.commute)
    qed
  qed
qed simp

section \<open>The commit\<close>

lemma sint_add_s32:
  assumes "\<not> undo_out_of_range (sint x + sint y)"
  shows "sint (x + y :: s32) = sint x + sint y"
proof -
  have "sint (x + y) = signed_take_bit 31 (sint x + sint y)" by (simp add: sint_word_ariths)
  also have "\<dots> = sint x + sint y"
    using assms by (intro signed_take_bit_int_eq_self) (auto simp: undo_out_of_range_def)
  finally show ?thesis .
qed

text \<open>The entry one step of the commit writes for the key \<open>(pid, semid, n)\<close>.\<close>

lemma bump_undo_simps [simp]:
  "u_pid (bump_undo d e) = u_pid e"
  "u_semid (bump_undo d e) = u_semid e"
  "u_semnum (bump_undo d e) = u_semnum e"
  "u_adjustment (bump_undo d e) = u_adjustment e + d"
  "u_active (bump_undo d e) \<longleftrightarrow> u_active e \<and> u_adjustment e + d \<noteq> 0"
  by (simp_all add: bump_undo_def Let_def)

text \<open>
  Writing a bumped entry \<open>e\<close> for the key \<open>(pid, semid, n)\<close> into slot \<open>k\<close>, which is either the key's own
  slot or a free one.
\<close>

lemma commit_step:
  assumes wf: "store_wf store" and k: "k < length (st_undo store)"
    and live: "find_set store semid = Some i" "unat n < unat (s_nsems (st_sets store ! i))"
    and e: "undo_key e = (pid, semid, n)" "u_active e"
    and adj: "sint (u_adjustment e) = undo_of store pid semid n"
    and K: "u_active (st_undo store ! k) \<Longrightarrow> undo_key (st_undo store ! k) = (pid, semid, n)"
    and only: "\<And>j. j < length (st_undo store) \<Longrightarrow> j \<noteq> k \<Longrightarrow> u_active (st_undo store ! j) \<Longrightarrow>
      undo_key (st_undo store ! j) \<noteq> (pid, semid, n)"
    and range: "\<not> undo_out_of_range (undo_of store pid semid n + sint d)"
  defines "st' \<equiv> store\<lparr>st_undo := (st_undo store)[k := bump_undo d e]\<rparr>"
  shows "store_wf st'"
    and "undo_of st' p s m = undo_of store p s m + (if (p, s, m) = (pid, semid, n) then sint d else 0)"
proof -
  let ?e = "bump_undo d e"
  have key: "undo_key ?e = (pid, semid, n)" using e by simp
  note upd = slot_get_update [OF store_wfD(6) [OF wf] k K key only]
  have a: "sint (u_adjustment ?e) = undo_of store pid semid n + sint d"
    using range by (simp add: sint_add_s32 adj)
  have "undo_wf store ?e"
    using live key range a by (auto simp: undo_wf_def)
  then show "store_wf st'"
    unfolding st'_def
    by (intro store_wf_update_undo)
      (use wf store_wfD [OF wf] upd(1) in \<open>auto dest!: set_update_ballD\<close>)
  have z: "undo_of store pid semid n + sint d = 0" if "u_adjustment e + d = 0"
    using that a by simp
  show "undo_of st' p s m = undo_of store p s m + (if (p, s, m) = (pid, semid, n) then sint d else 0)"
    unfolding st'_def undo_of_slot_get [of _ p s m]
    using upd(2) [of "(p, s, m)"] a e(2) z by (auto simp: undo_of_slot_get [of store pid semid n])
qed

abbreviation free_entries :: "tgc_sem_store \<Rightarrow> nat" where
  "free_entries store \<equiv> length (filter (\<lambda>e. \<not> u_active e) (st_undo store))"

text \<open>One iteration of the commit: it always finds a slot when one is needed and free.\<close>

lemma commit_undo_step:
  assumes wf: "store_wf store" and live: "find_set store semid = Some i"
    and n: "n < unat (s_nsems (st_sets store ! i))" and d: "ds ! n \<noteq> 0"
    and range: "\<not> undo_out_of_range (undo_of store pid semid (of_nat n) + sint (ds ! n))"
    and free: "undo_of store pid semid (of_nat n) = 0 \<Longrightarrow> 0 < free_entries store"
  obtains st' where "commit_undo pid semid ds (n # rest) store = commit_undo pid semid ds rest st'"
    and "store_wf st'" and "st_sets st' = st_sets store"
    and "\<And>p s m. undo_of st' p s m = undo_of store p s m +
      (if (p, s, m) = (pid, semid, of_nat n) then sint (ds ! n) else 0)"
    and "free_entries store \<le>
      free_entries st' + (if undo_of store pid semid (of_nat n) = 0 then 1 else 0)"
proof -
  have un: "unat (of_nat n :: u16) = n"
    using n unat_bound16 [of "s_nsems (st_sets store ! i)"] by (simp add: unat_of_nat take_bit_nat_eq_self)
  show ?thesis
  proof (cases "find_undo_entry store pid semid (of_nat n)")
    case (Some k)
    let ?e = "st_undo store ! k"
    let ?st = "store\<lparr>st_undo := (st_undo store)[k := bump_undo (ds ! n) ?e]\<rparr>"
    have k: "k < length (st_undo store)" "u_active ?e" "undo_key ?e = (pid, semid, of_nat n)"
      using undo_table.lookup_SomeD [of store "(pid, semid, of_nat n)" k] Some by auto
    have adj: "sint (u_adjustment ?e) = undo_of store pid semid (of_nat n)"
      using Some by (simp add: undo_of_def)
    have only: "undo_key (st_undo store ! j) \<noteq> (pid, semid, of_nat n)"
      if "j < length (st_undo store)" "j \<noteq> k" "u_active (st_undo store ! j)" for j
      using slots_uniqueD [OF store_wfD(6) [OF wf] that(1) k(1) that(3) k(2)] that(2) k(3) by auto
    note step = commit_step [OF wf k(1) live _ k(3,2) adj k(3) only range, unfolded un, OF n]
    have "free_entries store \<le> free_entries ?st"
      using length_filter_list_update [OF k(1), of "\<lambda>e. \<not> u_active e" "bump_undo (ds ! n) ?e"] k(2)
      by (simp split: if_splits)
    then show ?thesis
      using that [of ?st] step Some d by simp
  next
    case None
    let ?e = "\<lparr>u_pid = pid, u_semid = semid, u_adjustment = 0, u_semnum = of_nat n, u_active = True\<rparr>"
    have zero: "undo_of store pid semid (of_nat n) = 0" using None by (simp add: undo_of_def)
    obtain k where f: "find_free_undo_entry store = Some k"
      using undo_table.free_available [OF free [OF zero]] by blast
    let ?st = "store\<lparr>st_undo := (st_undo store)[k := bump_undo (ds ! n) ?e]\<rparr>"
    have k: "k < length (st_undo store)" "\<not> u_active (st_undo store ! k)"
      using undo_table.free_SomeD [OF f] by auto
    have only: "undo_key (st_undo store ! j) \<noteq> (pid, semid, of_nat n)"
      if "j < length (st_undo store)" "j \<noteq> k" "u_active (st_undo store ! j)" for j
      using undo_table.lookup_NoneD [of store "(pid, semid, of_nat n)" j] None that by auto
    have step: "store_wf ?st" "\<And>p s m. undo_of ?st p s m = undo_of store p s m +
        (if (p, s, m) = (pid, semid, of_nat n) then sint (ds ! n) else 0)"
      using commit_step [OF wf k(1) live, of "of_nat n" ?e pid "ds ! n"] n k(2) only range zero
      by (simp_all add: un)
    have "free_entries store \<le> free_entries ?st + 1"
      using length_filter_list_update [OF k(1), of "\<lambda>e. \<not> u_active e" "bump_undo (ds ! n) ?e"] k(2)
      by (simp split: if_splits)
    then show ?thesis
      using that [of ?st] step None f d zero by simp
  qed
qed

lemma of_nat_u16_eq_iff:
  "n < 65536 \<Longrightarrow> (m :: u16) = of_nat n \<longleftrightarrow> unat m = n"
  by (auto simp: unat_of_nat take_bit_nat_eq_self word_unat_eq_iff)

text \<open>
  When the check succeeded the commit never runs out of entries, so its late \<^verbatim>\<open>-ENOSPC\<close> return is dead
  code, and it adds the deltas pointwise.
\<close>

lemma commit_undo_ok:
  assumes "store_wf store" and "find_set store semid = Some i" and "distinct nums"
    and "\<forall>n \<in> set nums. n < unat (s_nsems (st_sets store ! i))"
    and "\<forall>n \<in> set nums. \<not> undo_out_of_range (undo_of store pid semid (of_nat n) + sint (ds ! n))"
    and "length (filter (\<lambda>n. ds ! n \<noteq> 0 \<and> undo_of store pid semid (of_nat n) = 0) nums)
      \<le> free_entries store"
  shows "\<exists>st'. commit_undo pid semid ds nums store = (True, st') \<and> store_wf st' \<and>
    st_sets st' = st_sets store \<and>
    (\<forall>p s m. undo_of st' p s m = undo_of store p s m +
       (if p = pid \<and> s = semid \<and> unat m \<in> set nums then sint (ds ! unat m) else 0))"
  using assms
proof (induction nums arbitrary: store)
  case (Cons n nums)
  have n: "n < unat (s_nsems (st_sets store ! i))" using Cons.prems by simp
  then have n16: "n < 65536" using unat_bound16 [of "s_nsems (st_sets store ! i)"] by linarith
  show ?case
  proof (cases "ds ! n = 0")
    case True
    have "\<exists>st'. commit_undo pid semid ds nums store = (True, st') \<and> store_wf st' \<and>
      st_sets st' = st_sets store \<and>
      (\<forall>p s m. undo_of st' p s m = undo_of store p s m +
         (if p = pid \<and> s = semid \<and> unat m \<in> set nums then sint (ds ! unat m) else 0))"
      by (rule Cons.IH) (use Cons.prems True in simp_all)
    then show ?thesis using True by auto
  next
    case False
    have pos: "0 < free_entries store" if "undo_of store pid semid (of_nat n) = 0"
      using Cons.prems(6) that False by (simp del: length_greater_0_conv)
    obtain st1 where st1: "commit_undo pid semid ds (n # nums) store = commit_undo pid semid ds nums st1"
      "store_wf st1" "st_sets st1 = st_sets store"
      "\<And>p s m. undo_of st1 p s m = undo_of store p s m +
        (if (p, s, m) = (pid, semid, of_nat n) then sint (ds ! n) else 0)"
      "free_entries store \<le> free_entries st1 + (if undo_of store pid semid (of_nat n) = 0 then 1 else 0)"
      by (rule commit_undo_step [OF Cons.prems(1,2) n False _ pos]) (use Cons.prems(5) in auto)
    have other: "undo_of st1 pid semid (of_nat m) = undo_of store pid semid (of_nat m)"
      if "m \<in> set nums" for m
    proof -
      have "m < 65536" using that Cons.prems(4) unat_bound16 [of "s_nsems (st_sets store ! i)"]
        by (metis list.set_intros(2) order_less_trans)
      then have "(of_nat m :: u16) \<noteq> of_nat n"
        using n16 that Cons.prems(3) by (auto simp: of_nat_u16_eq_iff unat_of_nat take_bit_nat_eq_self)
      then show ?thesis by (simp add: st1(4))
    qed
    have "find_set st1 semid = Some i"
      using Cons.prems(2) find_set_cong [OF st1(3)] by simp
    moreover have "length (filter (\<lambda>n. ds ! n \<noteq> 0 \<and> undo_of st1 pid semid (of_nat n) = 0) nums)
        = length (filter (\<lambda>n. ds ! n \<noteq> 0 \<and> undo_of store pid semid (of_nat n) = 0) nums)"
      by (rule arg_cong [where f = length], rule filter_cong) (use other in auto)
    ultimately have "\<exists>st'. commit_undo pid semid ds nums st1 = (True, st') \<and> store_wf st' \<and>
      st_sets st' = st_sets st1 \<and>
      (\<forall>p s m. undo_of st' p s m = undo_of st1 p s m +
         (if p = pid \<and> s = semid \<and> unat m \<in> set nums then sint (ds ! unat m) else 0))"
      by (intro Cons.IH) (use Cons.prems st1(2,3,5) other False in \<open>auto split: if_splits\<close>)
    then show ?thesis
      unfolding st1(1) using st1(3,4) Cons.prems(3) by (auto simp: of_nat_u16_eq_iff [OF n16])
  qed
qed simp

section \<open>Process exit\<close>

lemma clamp_value_id: "0 \<le> v \<Longrightarrow> v \<le> 32767 \<Longrightarrow> clamp_value v = v"
  by (simp add: clamp_value_def)

lemma clamp_value_bounds: "0 \<le> clamp_value v" "clamp_value v \<le> 32767"
  by (simp_all add: clamp_value_def)

lemma uint_clamp: "uint (word_of_int (clamp_value v) :: u16) = clamp_value v"
  using clamp_value_bounds [of v] by (simp add: uint_word_of_int mod_pos_pos_trivial)

lemma unat_clamp: "unat (word_of_int (clamp_value v) :: u16) \<le> 32767"
proof -
  have "int (unat (word_of_int (clamp_value v) :: u16)) \<le> 32767"
    unfolding of_nat_unat uint_clamp by (rule clamp_value_bounds)
  then show ?thesis by linarith
qed

lemma undo_of_deactivate:
  assumes wf: "store_wf store" and k: "k < length (st_undo store)" "u_active (st_undo store ! k)"
  defines "st' \<equiv> store\<lparr>st_undo := (st_undo store)[k := (st_undo store ! k)\<lparr>u_active := False\<rparr>]\<rparr>"
  shows "store_wf st'"
    and "undo_of st' p s m = (if (p, s, m) = undo_key (st_undo store ! k) then 0 else undo_of store p s m)"
proof -
  let ?e = "(st_undo store ! k)\<lparr>u_active := False\<rparr>"
  have only: "undo_key (st_undo store ! j) \<noteq> undo_key (st_undo store ! k)"
    if "j < length (st_undo store)" "j \<noteq> k" "u_active (st_undo store ! j)" for j
    using slots_uniqueD [OF store_wfD(6) [OF wf] that(1) k(1) that(3) k(2)] that(2) by auto
  note upd = slot_get_update [OF store_wfD(6) [OF wf] k(1) refl _ only, of ?e]
  show "store_wf st'"
    unfolding st'_def
    by (rule store_wf_update_undo)
      (use wf store_wfD [OF wf] upd(1) in \<open>auto simp: undo_wf_def [of _ ?e] dest!: set_update_ballD\<close>)
  show "undo_of st' p s m =
      (if (p, s, m) = undo_key (st_undo store ! k) then 0 else undo_of store p s m)"
    unfolding st'_def undo_of_slot_get using upd(2) [of "(p, s, m)"] by auto
qed

text \<open>One entry of the exiting process: its adjustment is applied, clamped, and the entry is freed.\<close>

lemma process_exit_entry_step:
  assumes wf: "store_wf store" and k: "k < length (st_undo store)"
    and e: "u_active (st_undo store ! k)" "u_pid (st_undo store ! k) = pid"
  obtains st' v where "process_exit_entry clk pid k (store, changed) = (st', True)"
    and "store_wf st'"
    and "st_undo st' = (st_undo store)[k := (st_undo store ! k)\<lparr>u_active := False\<rparr>]"
    and "sem_value store (u_semid (st_undo store ! k)) (unat (u_semnum (st_undo store ! k))) = Some v"
    and "\<And>s m. sem_value st' s m =
      (if s = u_semid (st_undo store ! k) \<and> m = unat (u_semnum (st_undo store ! k))
       then Some (clamp_value (v + sint (u_adjustment (st_undo store ! k)))) else sem_value store s m)"
    and "\<And>p s m. undo_of st' p s m =
      (if (p, s, m) = undo_key (st_undo store ! k) then 0 else undo_of store p s m)"
proof -
  let ?e = "st_undo store ! k"
  let ?n = "unat (u_semnum ?e)"
  obtain j where j: "find_set store (u_semid ?e) = Some j"
    "?n < unat (s_nsems (st_sets store ! j))"
    using store_wfD(4) [OF wf, of ?e] k e by (auto simp: undo_wf_def)
  note J = find_set_SomeD [OF wf j(1)]
  let ?v = "uint (s_values (st_sets store ! j) ! ?n)"
  let ?c = "clamp_value (?v + sint (u_adjustment ?e))"
  let ?s = "(st_sets store ! j)\<lparr>s_values := (s_values (st_sets store ! j))[?n := word_of_int ?c],
      s_last_pids := (s_last_pids (st_sets store ! j))[?n := pid],
      s_otime := current_time_seconds (clk k)\<rparr>"
  let ?st1 = "store\<lparr>st_sets := (st_sets store)[j := ?s]\<rparr>"
  have "unat (word_of_int ?c :: u16) \<le> 32767" by (rule unat_clamp)
  then have "set_wf ?s" using J(3) by (auto simp: set_wf_def dest!: set_update_ballD)
  then have wf1: "store_wf ?st1" by (intro store_wf_update_set) (use wf J in auto)
  have sv: "sem_value ?st1 s m = (if s = u_semid ?e \<and> m = ?n then Some ?c else sem_value store s m)" for s m
    using sem_value_update [OF wf j(1), of ?s s m] J(3) j
    by (auto simp: set_wf_def nth_update_if uint_clamp sem_value_def)
  note de = undo_of_deactivate [OF wf1, of k]
  have eq: "process_exit_entry clk pid k (store, changed) =
      (?st1\<lparr>st_undo := (st_undo store)[k := ?e\<lparr>u_active := False\<rparr>]\<rparr>, True)"
    using k e j by (simp add: Let_def)
  have un: "undo_of ?st1 = undo_of store" by (rule undo_of_cong) simp
  show ?thesis
    by (rule that [OF eq]) (use k e j de un sv in \<open>simp_all add: sem_value_def [of store] sem_value_undo\<close>)
qed

text \<open>
  What any number of iterations of the exit loop does to the abstract state: a semaphore is either
  left alone, with its adjustment, or has the adjustment applied and cleared.
\<close>

definition exit_step :: "s32 \<Rightarrow> tgc_sem_store \<Rightarrow> tgc_sem_store \<Rightarrow> bool" where
  "exit_step pid st st' \<longleftrightarrow>
     (\<forall>p s m. p \<noteq> pid \<longrightarrow> undo_of st' p s m = undo_of st p s m) \<and>
     (\<forall>s m. undo_of st' pid s m = undo_of st pid s m \<and> sem_value st' s (unat m) = sem_value st s (unat m) \<or>
            undo_of st' pid s m = 0 \<and>
            (\<exists>v. sem_value st s (unat m) = Some v \<and>
                 sem_value st' s (unat m) = Some (clamp_value (v + undo_of st pid s m))))"

lemma exit_step_refl: "exit_step pid st st"
  by (simp add: exit_step_def)

lemma exit_step_trans:
  assumes "exit_step pid st st'" and "exit_step pid st' st''"
  shows "exit_step pid st st''"
  unfolding exit_step_def
proof (intro conjI allI impI)
  fix p s m
  assume "p \<noteq> pid"
  then show "undo_of st'' p s m = undo_of st p s m" using assms by (simp add: exit_step_def)
next
  fix s m
  from assms(1) have 1: "undo_of st' pid s m = undo_of st pid s m \<and> sem_value st' s (unat m) = sem_value st s (unat m) \<or>
    undo_of st' pid s m = 0 \<and> (\<exists>v. sem_value st s (unat m) = Some v \<and>
      sem_value st' s (unat m) = Some (clamp_value (v + undo_of st pid s m)))"
    by (simp add: exit_step_def)
  from assms(2) have 2: "undo_of st'' pid s m = undo_of st' pid s m \<and> sem_value st'' s (unat m) = sem_value st' s (unat m) \<or>
    undo_of st'' pid s m = 0 \<and> (\<exists>v. sem_value st' s (unat m) = Some v \<and>
      sem_value st'' s (unat m) = Some (clamp_value (v + undo_of st' pid s m)))"
    by (simp add: exit_step_def)
  have idem: "clamp_value (clamp_value v) = clamp_value v" for v
    using clamp_value_bounds [of v] by (simp add: clamp_value_id)
  show "undo_of st'' pid s m = undo_of st pid s m \<and> sem_value st'' s (unat m) = sem_value st s (unat m) \<or>
    undo_of st'' pid s m = 0 \<and> (\<exists>v. sem_value st s (unat m) = Some v \<and>
      sem_value st'' s (unat m) = Some (clamp_value (v + undo_of st pid s m)))"
    using 1 2 by (elim disjE) (auto simp: idem)
qed

lemma process_exit_fold:
  assumes "store_wf store" and "set ks \<subseteq> {..<length (st_undo store)}"
    and "fold (process_exit_entry clk pid) ks (store, changed) = (st', changed')"
  shows "store_wf st' \<and> exit_step pid store st' \<and>
    (\<forall>j < length (st_undo store). u_active (st_undo st' ! j) \<longrightarrow>
       st_undo st' ! j = st_undo store ! j \<and> (j \<in> set ks \<longrightarrow> u_pid (st_undo store ! j) \<noteq> pid)) \<and>
    (changed' \<longleftrightarrow> changed \<or> (\<exists>k \<in> set ks. u_active (st_undo store ! k) \<and> u_pid (st_undo store ! k) = pid))"
  using assms
proof (induction ks arbitrary: store changed)
  case Nil
  then show ?case by (simp add: exit_step_refl)
next
  case (Cons k ks)
  let ?e = "st_undo store ! k"
  have k: "k < length (st_undo store)" using Cons.prems by simp
  show ?case
  proof (cases "u_active ?e \<and> u_pid ?e = pid")
    case False
    then have eq: "process_exit_entry clk pid k (store, changed) = (store, changed)" by auto
    show ?thesis
      using Cons.IH [OF Cons.prems(1), of changed] Cons.prems(2,3) False unfolding fold_Cons o_apply eq
      by auto
  next
    case True
    obtain st1 v where st1: "process_exit_entry clk pid k (store, changed) = (st1, True)"
      "store_wf st1" "st_undo st1 = (st_undo store)[k := ?e\<lparr>u_active := False\<rparr>]"
      "sem_value store (u_semid ?e) (unat (u_semnum ?e)) = Some v"
      "\<And>s m. sem_value st1 s m = (if s = u_semid ?e \<and> m = unat (u_semnum ?e)
         then Some (clamp_value (v + sint (u_adjustment ?e))) else sem_value store s m)"
      "\<And>p s m. undo_of st1 p s m = (if (p, s, m) = undo_key ?e then 0 else undo_of store p s m)"
      by (rule process_exit_entry_step [OF Cons.prems(1) k conjunct1 [OF True] conjunct2 [OF True],
            of clk changed]) (rule that; assumption)
    have "undo_of store pid (u_semid ?e) (u_semnum ?e) = sint (u_adjustment ?e)"
      using undo_of_entry [OF Cons.prems(1), of ?e] True k by auto
    then have step: "exit_step pid store st1"
      using True st1(4) unfolding exit_step_def st1(5,6) by (auto simp: unsigned_word_eqI)
    have len: "length (st_undo st1) = length (st_undo store)" using st1(3) by simp
    have nth: "st_undo st1 ! j = (if k = j then ?e\<lparr>u_active := False\<rparr> else st_undo store ! j)"
      if "j < length (st_undo store)" for j
      using that st1(3) by (simp add: nth_update_if)
    have f: "fold (process_exit_entry clk pid) ks (st1, True) = (st', changed')"
      using Cons.prems(3) unfolding fold_Cons o_apply st1(1) .
    have "set ks \<subseteq> {..<length (st_undo st1)}" using Cons.prems(2) len by simp
    note IH = Cons.IH [OF st1(2) this f, unfolded len]
    have "st_undo st' ! j = st_undo store ! j \<and>
        (j \<in> set (k # ks) \<longrightarrow> u_pid (st_undo store ! j) \<noteq> pid)"
      if j: "j < length (st_undo store)" "u_active (st_undo st' ! j)" for j
    proof (cases "k = j")
      case True
      then show ?thesis using IH j nth [of j] by auto
    next
      case False
      then show ?thesis using IH j nth [of j] by auto
    qed
    then show ?thesis using IH True exit_step_trans [OF step] by auto
  qed
qed

lemma sem_value_large:
  assumes "store_wf store" and "65536 \<le> n"
  shows "sem_value store s n = None"
proof (cases "find_set store s")
  case (Some i)
  then show ?thesis
    using find_set_SomeD(3) [OF assms(1) Some] assms(2) by (simp add: sem_value_def set_wf_def)
qed (simp add: sem_value_def)

text \<open>The whole exit: every adjustment of the process is applied and clamped, then forgotten.\<close>

lemma process_exit_ok:
  assumes wf: "store_wf store" and pid: "0 < sint pid"
    and run: "tgc_sem_store_process_exit clk store pid = (r, st')"
  shows "store_wf st'"
    and "undo_of st' p s m = (if p = pid then 0 else undo_of store p s m)"
    and "sem_value st' s n =
      map_option (\<lambda>v. clamp_value (v + undo_of store pid s (of_nat n))) (sem_value store s n)"
    and "r = (if \<exists>s m. undo_of store pid s m \<noteq> 0 then 1 else 0)"
proof -
  let ?N = "length (st_undo store)"
  obtain ch where f: "fold (process_exit_entry clk pid) [0..<?N] (store, False) = (st', ch)"
    and r: "r = (if ch then 1 else 0)"
    using run pid by (auto simp: tgc_sem_store_process_exit_def split: prod.splits)
  have "set [0..<?N] \<subseteq> {..<?N}" by auto
  note F = process_exit_fold [OF wf this f]
  show wf': "store_wf st'" using F by blast
  have len: "length (st_undo st') = ?N" using store_wfD(2) [OF wf] store_wfD(2) [OF wf'] by simp
  have gone: "undo_of st' pid s m = 0" for s m
  proof -
    have "\<not> (u_active e \<and> u_pid e = pid)" if e: "e \<in> set (st_undo st')" for e
    proof -
      obtain j where "j < ?N" "st_undo st' ! j = e" using e len by (auto simp: in_set_conv_nth)
      then show ?thesis using F by auto
    qed
    then have "slot_get u_active undo_key (st_undo st') (pid, s, m) = None"
      unfolding slot_get_None_iff by blast
    then show ?thesis by (simp add: undo_of_slot_get)
  qed
  then show "undo_of st' p s m = (if p = pid then 0 else undo_of store p s m)"
    using F by (simp add: exit_step_def)
  show "sem_value st' s n =
      map_option (\<lambda>v. clamp_value (v + undo_of store pid s (of_nat n))) (sem_value store s n)"
  proof (cases "n < 65536")
    case True
    then have "unat (of_nat n :: u16) = n" by (simp add: unat_of_nat take_bit_nat_eq_self)
    moreover have "undo_of st' pid s (of_nat n) = undo_of store pid s (of_nat n) \<and>
        sem_value st' s (unat (of_nat n :: u16)) = sem_value store s (unat (of_nat n :: u16)) \<or>
      undo_of st' pid s (of_nat n) = 0 \<and> (\<exists>v. sem_value store s (unat (of_nat n :: u16)) = Some v \<and>
        sem_value st' s (unat (of_nat n :: u16)) = Some (clamp_value (v + undo_of store pid s (of_nat n))))"
      using F unfolding exit_step_def by blast
    ultimately show ?thesis
      using gone [of s "of_nat n"] sem_value_range [OF wf, of s n]
      by (cases "sem_value store s n") (auto simp: clamp_value_id)
  qed (simp add: sem_value_large [OF wf] sem_value_large [OF wf'] not_less)
  have "ch \<longleftrightarrow> (\<exists>k \<in> set [0..<?N]. u_active (st_undo store ! k) \<and> u_pid (st_undo store ! k) = pid)"
    using F by blast
  also have "\<dots> \<longleftrightarrow> (\<exists>e \<in> set (st_undo store). u_active e \<and> u_pid e = pid)"
    by (simp only: set_upt) (metis (no_types, lifting) atLeastLessThan_iff in_set_conv_nth le0)
  also have "\<dots> \<longleftrightarrow> (\<exists>s m. undo_of store pid s m \<noteq> 0)"
  proof
    assume "\<exists>e \<in> set (st_undo store). u_active e \<and> u_pid e = pid"
    then obtain e where e: "e \<in> set (st_undo store)" "u_active e" "u_pid e = pid" by blast
    then have "sint (u_adjustment e) \<noteq> 0"
      using store_wfD(4) [OF wf, of e] by (simp add: undo_wf_def signed_eq_0_iff)
    then show "\<exists>s m. undo_of store pid s m \<noteq> 0" using undo_of_entry [OF wf e(1,2)] e(3) by metis
  next
    assume "\<exists>s m. undo_of store pid s m \<noteq> 0"
    then obtain s m e where "slot_get u_active undo_key (st_undo store) (pid, s, m) = Some e"
      by (auto simp: undo_of_slot_get split: option.splits)
    then show "\<exists>e \<in> set (st_undo store). u_active e \<and> u_pid e = pid"
      by (auto simp: slot_get_Some_iff [OF store_wfD(6) [OF wf]])
  qed
  finally show "r = (if \<exists>s m. undo_of store pid s m \<noteq> 0 then 1 else 0)" using r by simp
qed

end
