(* ===== verification/Tgc_Sem_Ops.thy ===== *)
theory Tgc_Sem_Ops
  imports Tgc_Sem_Undo
begin

text \<open>
  The semantics of \<^verbatim>\<open>tgc_sem_store_tryop_detail\<close> (\<^verbatim>\<open>semop\<close>): an integer specification of the
  operations, the refinement of the word-level loop to it, the exact result code, and the effect of a
  successful call on the abstract state.
\<close>

section \<open>Integer semantics of an operation list\<close>

datatype spec_work = Spec_Done "int list" | Spec_Range | Spec_Blocked tgc_sem_op

fun spec_ops :: "int list \<Rightarrow> tgc_sem_op list \<Rightarrow> spec_work" where
  "spec_ops vs [] = Spec_Done vs"
| "spec_ops vs (operation # rest) =
     (let n = unat (sem_num operation); v = vs ! n + sint (sem_op operation) in
      if sem_op operation = 0 \<and> v \<noteq> 0 \<or> v < 0 then Spec_Blocked operation
      else if v > 32767 then Spec_Range
      else spec_ops (vs[n := v]) rest)"

fun abs_work :: "work \<Rightarrow> spec_work" where
  "abs_work (Work_Done w) = Spec_Done (map uint w)"
| "abs_work Work_Range = Spec_Range"
| "abs_work (Work_Blocked operation) = Spec_Blocked operation"

lemma sint_s16_zero_iff: "sint (x :: s16) = 0 \<longleftrightarrow> x = 0"
  by (rule signed_eq_0_iff)

lemma sint_s32_zero_iff: "sint (x :: s32) = 0 \<longleftrightarrow> x = 0"
  by (rule signed_eq_0_iff)

lemma unat_le_iff_uint: "unat v \<le> n \<longleftrightarrow> uint v \<le> int n"
proof -
  have "int (unat v) = uint v" by simp
  then show ?thesis by linarith
qed

lemma uint_of_int_u32: "0 \<le> k \<Longrightarrow> k < 4294967296 \<Longrightarrow> uint (word_of_int k :: u32) = k"
  by (simp add: uint_word_of_int mod_pos_pos_trivial)

lemma uint_narrow_u16: "uint (x :: u32) < 65536 \<Longrightarrow> uint (ucast x :: u16) = uint x"
  by (simp add: unsigned_ucast_eq take_bit_eq_mod mod_pos_pos_trivial)

text \<open>The 32-bit arithmetic of one positive and one negative operation, as integers.\<close>

lemma positive_op:
  assumes "uint (v :: u16) \<le> 32767" and "0 < sint (d :: s16)"
  shows "32767 < unat ((ucast v :: u32) + scast d) \<longleftrightarrow> 32767 < uint v + sint d"
    and "uint v + sint d \<le> 32767 \<Longrightarrow> uint (ucast ((ucast v :: u32) + scast d) :: u16) = uint v + sint d"
proof -
  have d: "sint d < 32768" using sint_bounds16 [of d] by simp
  have "(ucast v :: u32) + scast d = word_of_int (uint v + sint d)"
    by (simp only: ucast_eq scast_eq wi_hom_add)
  then have u: "uint ((ucast v :: u32) + scast d) = uint v + sint d"
    using assms d uint_bound16 [of v] by (simp only: uint_of_int_u32)
  then show "32767 < unat ((ucast v :: u32) + scast d) \<longleftrightarrow> 32767 < uint v + sint d"
    unfolding not_le [symmetric] unat_le_iff_uint by simp
  assume "uint v + sint d \<le> 32767"
  then show "uint (ucast ((ucast v :: u32) + scast d) :: u16) = uint v + sint d"
    by (subst uint_narrow_u16) (simp_all only: u)
qed

lemma negative_op:
  assumes "sint (d :: s16) < 0"
  shows "(ucast (v :: u16) :: u32) < - scast d \<longleftrightarrow> uint v + sint d < 0"
    and "0 \<le> uint v + sint d \<Longrightarrow> uint (ucast ((ucast v :: u32) - - scast d) :: u16) = uint v + sint d"
proof -
  have d: "- 32768 \<le> sint d" using sint_bounds16 [of d] by simp
  have "- (scast d :: u32) = word_of_int (- sint d)" by (simp only: scast_eq wi_hom_neg)
  then have a: "uint (- (scast d :: u32)) = - sint d"
    using d assms by (simp only: uint_of_int_u32)
  have "(ucast v :: u32) = word_of_int (uint v)" by (simp only: ucast_eq)
  then have v: "uint (ucast v :: u32) = uint v"
    using uint_bound16 [of v] by (simp only: uint_of_int_u32)
  show "(ucast v :: u32) < - scast d \<longleftrightarrow> uint v + sint d < 0"
    unfolding word_less_def v a by linarith
  assume p: "0 \<le> uint v + sint d"
  have "(ucast v :: u32) - - scast d = word_of_int (uint v + sint d)"
    by (simp only: ucast_eq scast_eq wi_hom_neg wi_hom_sub diff_minus_eq_add)
  then have u: "uint ((ucast v :: u32) - - scast d) = uint v + sint d"
    using p assms uint_bound16 [of v] by (simp only: uint_of_int_u32)
  show "uint (ucast ((ucast v :: u32) - - scast d) :: u16) = uint v + sint d"
    using assms uint_bound16 [of v] by (subst uint_narrow_u16) (simp_all only: u)
qed

text \<open>The loop of the source against the integer semantics.\<close>

lemma run_ops_refines:
  assumes "\<forall>v \<in> set w. unat v \<le> 32767" and "\<forall>operation \<in> set ops. unat (sem_num operation) < length w"
  shows "abs_work (run_ops w ops) = spec_ops (map uint w) ops"
  using assms
proof (induction ops arbitrary: w)
  case (Cons op ops)
  let ?n = "unat (sem_num op)"
  let ?v = "w ! ?n"
  let ?d = "sem_op op"
  let ?i = "uint ?v + sint ?d"
  have n: "?n < length w" and v: "uint ?v \<le> 32767" using Cons.prems by (auto simp: unat_le_iff_uint)
  have IH: "abs_work (run_ops (w[?n := x]) ops) = spec_ops ((map uint w)[?n := uint x]) ops"
    if "uint x \<le> 32767" for x
    using Cons.IH [of "w[?n := x]"] Cons.prems that
    by (auto simp: map_update unat_le_iff_uint dest!: set_update_ballD)
  have spec: "spec_ops (map uint w) (op # ops) =
      (if ?d = 0 \<and> ?i \<noteq> 0 \<or> ?i < 0 then Spec_Blocked op else if 32767 < ?i then Spec_Range
       else spec_ops ((map uint w)[?n := ?i]) ops)"
    using n by (simp add: Let_def)
  consider "0 < sint ?d" | "sint ?d < 0" | "sint ?d = 0" by linarith
  then show ?case
  proof cases
    case 1
    then have run: "run_ops w (op # ops) = (if 32767 < ?i then Work_Range
        else run_ops (w[?n := ucast ((ucast ?v :: u32) + scast ?d)]) ops)"
      using positive_op(1) [OF v 1] by (simp add: Let_def)
    have "0 < ?i" using 1 uint_bound16(1) [of ?v] by linarith
    then show ?thesis
      unfolding run spec using 1 positive_op(2) [OF v 1] IH by auto
  next
    case 2
    then have run: "run_ops w (op # ops) = (if ?i < 0 then Work_Blocked op
        else run_ops (w[?n := ucast ((ucast ?v :: u32) - - scast ?d)]) ops)"
      using negative_op(1) [OF 2, of ?v] by (simp add: Let_def)
    show ?thesis
      unfolding run spec using 2 negative_op(2) [OF 2, of ?v] IH v by auto
  next
    case 3
    then have z: "?d = 0" by (simp only: sint_s16_zero_iff)
    then have run: "run_ops w (op # ops) = (if ?v \<noteq> 0 then Work_Blocked op else run_ops w ops)"
      by (simp add: Let_def)
    show ?thesis
      unfolding run spec using z IH [OF v] v uint_bound16 [of ?v] by (auto simp: map_update unsigned_eq_0_iff)
  qed
qed simp

lemma run_ops_wf:
  assumes "run_ops w ops = Work_Done w'" and "\<forall>v \<in> set w. unat v \<le> 32767"
    and "\<forall>operation \<in> set ops. unat (sem_num operation) < length w"
  shows "length w' = length w" and "\<forall>v \<in> set w'. unat v \<le> 32767"
proof -
  have bound: "length vs' = length vs \<and> (\<forall>v \<in> set vs'. v \<le> 32767)"
    if "spec_ops vs ops = Spec_Done vs'" "\<forall>v \<in> set vs. v \<le> 32767" for vs vs'
    using that
  proof (induction ops arbitrary: vs)
    case (Cons op ops)
    have "\<forall>v \<in> set (vs[unat (sem_num op) := vs ! unat (sem_num op) + sint (sem_op op)]). v \<le> 32767"
      if "vs ! unat (sem_num op) + sint (sem_op op) \<le> 32767"
      using that Cons.prems(2) by (auto dest!: set_update_ballD)
    then show ?case
      using Cons.IH Cons.prems by (fastforce simp: Let_def split: if_splits)
  qed simp
  have "spec_ops (map uint w) ops = Spec_Done (map uint w')"
    using run_ops_refines [OF assms(2,3)] assms(1) by simp
  from bound [OF this] assms(2) show "length w' = length w" "\<forall>v \<in> set w'. unat v \<le> 32767"
    by (auto simp: unat_le_iff_uint)
qed

section \<open>The specification of a call\<close>

definition sem_values :: "tgc_sem_store \<Rightarrow> s32 \<Rightarrow> int list option" where
  "sem_values store semid =
     (case find_set store semid of
        None \<Rightarrow> None | Some i \<Rightarrow> Some (map uint (s_values (st_sets store ! i))))"

lemma sem_value_sem_values:
  assumes "store_wf store"
  shows "sem_value store semid n =
    (case sem_values store semid of None \<Rightarrow> None | Some vs \<Rightarrow> if n < length vs then Some (vs ! n) else None)"
  using find_set_SomeD(3) [OF assms, of semid]
  by (auto simp: sem_value_def sem_values_def set_wf_def split: option.splits)

text \<open>The requested adjustments stay in range after every operation of the list.\<close>

definition undo_request_ok :: "tgc_sem_op list \<Rightarrow> bool" where
  "undo_request_ok ops \<longleftrightarrow>
     (\<forall>m < length ops. is_undo (ops ! m) \<longrightarrow>
        \<not> undo_out_of_range (undo_sum (take (Suc m) ops) (unat (sem_num (ops ! m)))))"

definition undo_total_ok :: "tgc_sem_store \<Rightarrow> s32 \<Rightarrow> s32 \<Rightarrow> nat \<Rightarrow> tgc_sem_op list \<Rightarrow> bool" where
  "undo_total_ok store pid semid k ops \<longleftrightarrow>
     (\<forall>n < k. \<not> undo_out_of_range (undo_of store pid semid (of_nat n) + undo_sum ops n))"

definition new_undo_entries :: "tgc_sem_store \<Rightarrow> s32 \<Rightarrow> s32 \<Rightarrow> nat \<Rightarrow> tgc_sem_op list \<Rightarrow> nat" where
  "new_undo_entries store pid semid k ops =
     length (filter (\<lambda>n. undo_sum ops n \<noteq> 0 \<and> undo_of store pid semid (of_nat n) = 0) [0..<k])"

definition spec_result :: "tgc_sem_store \<Rightarrow> s32 \<Rightarrow> tgc_sem_op list \<Rightarrow> s32 \<Rightarrow> s32" where
  "spec_result store semid ops pid =
     (case sem_values store semid of
        None \<Rightarrow> - EINVAL
      | Some vs \<Rightarrow>
          if ops = [] \<or> (\<exists>operation \<in> set ops. op_is_invalid (of_nat (length vs)) operation) then - EINVAL
          else
            case spec_ops vs ops of
              Spec_Range \<Rightarrow> - ERANGE
            | Spec_Blocked operation \<Rightarrow>
                if sem_flg operation AND TGC_IPC_NOWAIT \<noteq> 0 then - EAGAIN else TGC_SEM_OP_BLOCKED
            | Spec_Done _ \<Rightarrow>
                if \<not> undo_request_ok ops \<or> \<not> undo_total_ok store pid semid (length vs) ops then - ERANGE
                else if new_undo_entries store pid semid (length vs) ops > free_entries store then - ENOSPC
                else 0)"

section \<open>The two passes over the undo table\<close>

lemma undo_sum_append: "undo_sum (xs @ ys) n = undo_sum xs n + undo_sum ys n"
  by (induction xs) simp_all

lemma undo_request_ok_range:
  "undo_request_ok ops \<Longrightarrow> \<not> undo_out_of_range (undo_sum ops n)"
proof (induction ops rule: rev_induct)
  case (snoc op ops)
  have "undo_request_ok ops"
    unfolding undo_request_ok_def
  proof (intro allI impI)
    fix m
    assume "m < length ops" and "is_undo (ops ! m)"
    then show "\<not> undo_out_of_range (undo_sum (take (Suc m) ops) (unat (sem_num (ops ! m))))"
      using snoc.prems unfolding undo_request_ok_def
      by (elim allE [of _ m]) (simp add: nth_append)
  qed
  moreover have "\<not> undo_out_of_range (undo_sum (ops @ [op]) (unat (sem_num op)))" if "is_undo op"
    using snoc.prems that unfolding undo_request_ok_def
    by (elim allE [of _ "length ops"]) simp
  ultimately show ?case using snoc.IH by (auto simp: undo_sum_append)
qed (simp add: undo_out_of_range_def)

lemma sum_undo_deltas_spec:
  assumes "\<forall>operation \<in> set ops. unat (sem_num operation) < 512"
  shows "sum_undo_deltas (replicate 512 0) ops = None \<longleftrightarrow> \<not> undo_request_ok ops"
    and "sum_undo_deltas (replicate 512 0) ops = Some ds \<Longrightarrow> n < 512 \<Longrightarrow> sint (ds ! n) = undo_sum ops n"
proof -
  have iff: "sum_undo_deltas (replicate 512 0) ops = Some ds \<longleftrightarrow>
      length ds = 512 \<and> (\<forall>n < 512. sint (ds ! n) = undo_sum ops n) \<and> undo_request_ok ops" for ds
  proof -
    have z: "sint ((replicate 512 (0 :: s32)) ! n) = 0" if "n < 512" for n
      using that by simp
    have nums: "unat (sem_num (ops ! m)) < 512" if "m < length ops" for m
      using assms that by simp
    show ?thesis
      using sum_undo_deltas_iff [of ops "replicate 512 0" ds] assms
      by (simp add: z nums undo_request_ok_def)
  qed
  then show "sum_undo_deltas (replicate 512 0) ops = Some ds \<Longrightarrow> n < 512 \<Longrightarrow> sint (ds ! n) = undo_sum ops n"
    by blast
  show "sum_undo_deltas (replicate 512 0) ops = None \<longleftrightarrow> \<not> undo_request_ok ops"
  proof
    show "\<not> undo_request_ok ops" if none: "sum_undo_deltas (replicate 512 0) ops = None"
    proof
      assume ok: "undo_request_ok ops"
      let ?ds = "map (\<lambda>n. word_of_int (undo_sum ops n) :: s32) [0..<512]"
      have "sint (word_of_int (undo_sum ops n) :: s32) = undo_sum ops n" for n
        using undo_request_ok_range [OF ok, of n]
        by (intro sint_word_of_int_s32) (simp_all add: undo_out_of_range_def)
      then have "sum_undo_deltas (replicate 512 0) ops = Some ?ds" unfolding iff using ok by simp
      with none show False by simp
    qed
    show "sum_undo_deltas (replicate 512 0) ops = None" if "\<not> undo_request_ok ops"
      using iff that by (metis not_None_eq)
  qed
qed

section \<open>The call\<close>

lemma op_valid_num: "\<not> op_is_invalid n operation \<Longrightarrow> unat (sem_num operation) < unat n"
  by (simp add: op_is_invalid_def word_less_nat_alt not_le)

text \<open>What the last part of a call does, from the check of the undo table on.\<close>

lemma tryop_commit:
  assumes wf: "store_wf store" and i: "find_set store semid = Some i"
    and valid: "\<forall>operation \<in> set ops. \<not> op_is_invalid (s_nsems (st_sets store ! i)) operation"
    and run: "run_ops (s_values (st_sets store ! i)) ops = Work_Done working"
    and ds: "sum_undo_deltas (replicate 512 0) ops = Some ds"
    and req: "required_entries store pid semid ds [0..<unat (s_nsems (st_sets store ! i))] 0 = Some req"
    and free: "req \<le> free_entries store"
  defines "s \<equiv> (st_sets store ! i)\<lparr>s_values := working,
    s_last_pids := set_last_pids pid ops (s_last_pids (st_sets store ! i))\<rparr>"
  shows "\<exists>st'. commit_undo pid semid ds [0..<unat (s_nsems (st_sets store ! i))]
      (store\<lparr>st_sets := (st_sets store)[i := s]\<rparr>) = (True, st') \<and>
    st_sets st' = (st_sets store)[i := s] \<and> store_wf st' \<and>
    (\<forall>p x n. undo_of st' p x n =
      undo_of store p x n + (if p = pid \<and> x = semid then undo_sum ops (unat n) else 0))"
proof -
  let ?k = "unat (s_nsems (st_sets store ! i))"
  note I = find_set_SomeD [OF wf i]
  have num: "\<forall>operation \<in> set ops. unat (sem_num operation) < ?k" using valid op_valid_num by blast
  have k: "?k \<le> 512" and len: "length (s_values (st_sets store ! i)) = ?k"
    and vals: "\<forall>v \<in> set (s_values (st_sets store ! i)). unat v \<le> 32767"
    using I(3) by (simp_all add: set_wf_def)
  have num512: "\<forall>operation \<in> set ops. unat (sem_num operation) < 512" using num k by force
  have d: "sint (ds ! n) = undo_sum ops n" if "n < ?k" for n
    using sum_undo_deltas_spec(2) [OF num512 ds] that k by simp
  have "length (set_last_pids pid ops xs) = length xs" for xs
    by (induction ops arbitrary: xs) simp_all
  then have "set_wf s"
    using I(3) run_ops_wf [OF run vals] num len by (simp add: set_wf_def s_def)
  let ?st = "store\<lparr>st_sets := (st_sets store)[i := s]\<rparr>"
  have wf1: "store_wf ?st"
    by (rule store_wf_update_set) (use wf I \<open>set_wf s\<close> in \<open>simp_all add: s_def\<close>)
  have f1: "find_set ?st semid = Some i" using i by (subst find_set_update) (simp_all add: s_def)
  have n1: "s_nsems (st_sets ?st ! i) = s_nsems (st_sets store ! i)"
    using I(1) store_wfD(1) [OF wf] by (simp add: s_def)
  have u1: "undo_of ?st = undo_of store" by (rule undo_of_cong) simp
  have "\<exists>st'. commit_undo pid semid ds [0..<?k] ?st = (True, st') \<and> store_wf st' \<and>
    st_sets st' = st_sets ?st \<and>
    (\<forall>p s m. undo_of st' p s m = undo_of ?st p s m +
       (if p = pid \<and> s = semid \<and> unat m \<in> set [0..<?k] then sint (ds ! unat m) else 0))"
    by (rule commit_undo_ok [OF wf1 f1], unfold n1 u1)
      (use req free in \<open>auto simp: required_entries_eq [OF wf] split: if_splits\<close>)
  then obtain st' where st': "commit_undo pid semid ds [0..<?k] ?st = (True, st')" "store_wf st'"
    "st_sets st' = (st_sets store)[i := s]"
    "\<And>p s m. undo_of st' p s m = undo_of store p s m +
       (if p = pid \<and> s = semid \<and> unat m < ?k then sint (ds ! unat m) else 0)"
    by (auto simp: u1)
  have "undo_sum ops n = 0" if "\<not> n < ?k" for n
    using num that by (induction ops) auto
  then have "undo_of st' p x n =
      undo_of store p x n + (if p = pid \<and> x = semid then undo_sum ops (unat n) else 0)" for p x n
    by (auto simp: st'(4) d)
  with st'(1-3) show ?thesis by blast
qed

lemma tryop_result:
  assumes wf: "store_wf store"
  shows "fst (tgc_sem_store_tryop_detail clk store semid ops pid) = spec_result store semid ops pid"
proof (cases "find_set store semid")
  case (Some i)
  let ?s = "st_sets store ! i"
  let ?k = "unat (s_nsems ?s)"
  note I = find_set_SomeD [OF wf Some]
  have len: "length (s_values ?s) = ?k" and k: "?k \<le> 512"
    and vals: "\<forall>v \<in> set (s_values ?s). unat v \<le> 32767"
    using I(3) by (simp_all add: set_wf_def)
  show ?thesis
  proof (cases "ops = [] \<or> (\<exists>operation \<in> set ops. op_is_invalid (s_nsems ?s) operation)")
    case False
    then have valid: "\<forall>operation \<in> set ops. \<not> op_is_invalid (s_nsems ?s) operation" by blast
    then have num: "\<forall>operation \<in> set ops. unat (sem_num operation) < ?k" using op_valid_num by blast
    have num512: "\<forall>operation \<in> set ops. unat (sem_num operation) < 512" using num k by force
    have ref: "spec_ops (map uint (s_values ?s)) ops = abs_work (run_ops (s_values ?s) ops)"
      using run_ops_refines [OF vals] num len by simp
    show ?thesis
    proof (cases "run_ops (s_values ?s) ops")
      case (Work_Done working)
      show ?thesis
      proof (cases "sum_undo_deltas (replicate 512 0) ops")
        case None
        then show ?thesis
          using False Some Work_Done ref sum_undo_deltas_spec(1) [OF num512] len
          by (simp add: tgc_sem_store_tryop_detail_def spec_result_def sem_values_def Let_def)
      next
        case ds: (Some ds)
        have d: "sint (ds ! n) = undo_sum ops n" "ds ! n \<noteq> 0 \<longleftrightarrow> undo_sum ops n \<noteq> 0" if "n < ?k" for n
          using sum_undo_deltas_spec(2) [OF num512 ds, of n] that k by (simp_all flip: sint_s32_zero_iff)
        have "filter (\<lambda>n. ds ! n \<noteq> 0 \<and> undo_of store pid semid (of_nat n) = 0) [0..<?k] =
            filter (\<lambda>n. undo_sum ops n \<noteq> 0 \<and> undo_of store pid semid (of_nat n) = 0) [0..<?k]"
          by (rule filter_cong) (use d in auto)
        then have req: "required_entries store pid semid ds [0..<?k] 0 =
            (if undo_total_ok store pid semid ?k ops then Some (new_undo_entries store pid semid ?k ops)
             else None)"
          by (auto simp: required_entries_eq [OF wf] undo_total_ok_def new_undo_entries_def d)
        have ok: "undo_request_ok ops" using ds sum_undo_deltas_spec(1) [OF num512] by auto
        show ?thesis
        proof (cases "undo_total_ok store pid semid ?k ops \<and>
            new_undo_entries store pid semid ?k ops \<le> free_entries store")
          case True
          with req have r: "required_entries store pid semid ds [0..<?k] 0 =
            Some (new_undo_entries store pid semid ?k ops)" by simp
          from tryop_commit [OF wf Some valid Work_Done ds r] True obtain st' where
            "commit_undo pid semid ds [0..<?k] (store\<lparr>st_sets := (st_sets store)[i := ?s\<lparr>s_values := working,
              s_last_pids := set_last_pids pid ops (s_last_pids ?s)\<rparr>]\<rparr>) = (True, st')"
            by blast
          then show ?thesis using False Some Work_Done ref ds r ok True len
            by (simp add: tgc_sem_store_tryop_detail_def spec_result_def sem_values_def Let_def)
        qed (use False Some Work_Done ref ds req ok len in
            \<open>auto simp: tgc_sem_store_tryop_detail_def spec_result_def sem_values_def Let_def\<close>)
      qed
    qed (use False Some ref len in
        \<open>auto simp: tgc_sem_store_tryop_detail_def spec_result_def sem_values_def Let_def\<close>)
  qed (use Some len in \<open>auto simp: tgc_sem_store_tryop_detail_def spec_result_def sem_values_def Let_def\<close>)
qed (simp add: tgc_sem_store_tryop_detail_def spec_result_def sem_values_def)

lemma sem_values_cong: "st_sets st = st_sets st' \<Longrightarrow> sem_values st = sem_values st'"
  unfolding sem_values_def find_set_def by (erule ssubst) (rule refl)

lemma sem_values_update:
  assumes wf: "store_wf store" and i: "find_set store semid = Some i"
    and "s_active s = s_active (st_sets store ! i)"
    and "s_generation s = s_generation (st_sets store ! i)"
  shows "sem_values (store\<lparr>st_sets := (st_sets store)[i := s]\<rparr>) x =
    (if x = semid then Some (map uint (s_values s)) else sem_values store x)"
proof -
  have len: "i < length (st_sets store)" using find_set_SomeD(1) [OF wf i] store_wfD(1) [OF wf] by simp
  have "j = i \<longleftrightarrow> x = semid" if "find_set store x = Some j" for j
    using find_set_SomeD(4) [OF wf that] find_set_SomeD(4) [OF wf i] that i
    by (metis option.inject)
  then show ?thesis
    using assms len
    by (cases "find_set store x") (auto simp: sem_values_def find_set_update nth_list_update)
qed

text \<open>
  The two outcomes of a call on a well-formed store: every result but 0 leaves the store exactly as
  it was; 0 means the whole list was applied and all its adjustments recorded.
\<close>

lemma tryop_cases:
  assumes wf: "store_wf store" and call: "tgc_sem_store_tryop_detail clk store semid ops pid = (r, st', w)"
  obtains (unchanged) "r \<noteq> 0" "st' = store"
  | (applied) i s vs' where "r = 0" "w = None" "find_set store semid = Some i" "store_wf st'"
      "st_sets st' = (st_sets store)[i := s]" "s_active s" "s_key s = s_key (st_sets store ! i)"
      "s_generation s = s_generation (st_sets store ! i)" "s_nsems s = s_nsems (st_sets store ! i)"
      "spec_ops (map uint (s_values (st_sets store ! i))) ops = Spec_Done vs'"
      "map uint (s_values s) = vs'"
      "s_otime s = current_time_seconds clk"
      "\<And>p x n. undo_of st' p x n =
        undo_of store p x n + (if p = pid \<and> x = semid then undo_sum ops (unat n) else 0)"
proof (cases "find_set store semid")
  case None
  then show ?thesis using call unchanged by (simp add: tgc_sem_store_tryop_detail_def)
next
  case (Some i)
  let ?s = "st_sets store ! i"
  let ?k = "unat (s_nsems ?s)"
  note I = find_set_SomeD [OF wf Some]
  have len: "length (s_values ?s) = ?k" and vals: "\<forall>v \<in> set (s_values ?s). unat v \<le> 32767"
    using I(3) by (simp_all add: set_wf_def)
  show ?thesis
  proof (cases "ops = [] \<or> (\<exists>operation \<in> set ops. op_is_invalid (s_nsems ?s) operation)")
    case True
    then show ?thesis using call Some unchanged
      by (auto simp: tgc_sem_store_tryop_detail_def Let_def split: if_splits)
  next
    case False
    then have valid: "\<forall>operation \<in> set ops. \<not> op_is_invalid (s_nsems ?s) operation" by blast
    then have num: "\<forall>operation \<in> set ops. unat (sem_num operation) < length (s_values ?s)"
      using op_valid_num len by simp
    show ?thesis
    proof (cases "\<exists>working ds req. run_ops (s_values ?s) ops = Work_Done working \<and>
        sum_undo_deltas (replicate 512 0) ops = Some ds \<and>
        required_entries store pid semid ds [0..<?k] 0 = Some req \<and> req \<le> free_entries store")
      case True
      then obtain working ds req where run: "run_ops (s_values ?s) ops = Work_Done working"
        and ds: "sum_undo_deltas (replicate 512 0) ops = Some ds"
        and req: "required_entries store pid semid ds [0..<?k] 0 = Some req"
        and free: "req \<le> free_entries store" by blast
      let ?s1 = "?s\<lparr>s_values := working, s_last_pids := set_last_pids pid ops (s_last_pids ?s)\<rparr>"
      let ?s2 = "?s1\<lparr>s_otime := current_time_seconds clk\<rparr>"
      obtain st1 where st1: "commit_undo pid semid ds [0..<?k]
          (store\<lparr>st_sets := (st_sets store)[i := ?s1]\<rparr>) = (True, st1)"
        "st_sets st1 = (st_sets store)[i := ?s1]" "store_wf st1"
        "\<And>p x n. undo_of st1 p x n =
          undo_of store p x n + (if p = pid \<and> x = semid then undo_sum ops (unat n) else 0)"
        using tryop_commit [OF wf Some valid run ds req free] by blast
      have nth: "st_sets st1 ! i = ?s1" using I(1) st1(2) store_wfD(1) [OF wf] by simp
      have eq: "r = 0" "w = None" "st' = st1\<lparr>st_sets := (st_sets st1)[i := ?s2]\<rparr>"
        using call False Some run ds req free st1(1,2)
        by (auto simp: tgc_sem_store_tryop_detail_def Let_def split: if_splits)
      have "set_wf ?s2" using store_wfD(3) [OF st1(3), of i] I(1,2) nth by (simp add: set_wf_def)
      then have wf': "store_wf st'"
        unfolding eq by (intro store_wf_update_set st1(3) I(1)) (use nth in simp_all)
      show ?thesis
      proof (rule applied [of i ?s2 "map uint working", OF eq(1,2) Some wf'])
        show "spec_ops (map uint (s_values ?s)) ops = Spec_Done (map uint working)"
          using run_ops_refines [OF vals num] run by simp
        fix p x n
        show "undo_of st' p x n =
            undo_of store p x n + (if p = pid \<and> x = semid then undo_sum ops (unat n) else 0)"
          using st1(4) undo_of_cong [of st' st1] eq(3) by simp
      qed (use eq(3) st1(2) I(2) in simp_all)
    next
      case no: False
      then have "r \<noteq> 0 \<and> st' = store"
        using call False Some
        by (auto simp: tgc_sem_store_tryop_detail_def Let_def split: if_splits work.splits option.splits)
      then show ?thesis using unchanged by blast
    qed
  qed
qed

end
