(* ===== verification/Tgc_Sem_Contract.thy ===== *)
theory Tgc_Sem_Contract
  imports Tgc_Sem_Ops
begin

text \<open>
  The promises of the semaphore store as the rest of the broker relies on them: the invariant of
  every reachable store, the contract of \<^verbatim>\<open>semop\<close> and process exit over the abstract state
  (\<open>sem_value\<close>, \<open>undo_of\<close>), identifiers and generations, and the round trips of the value accessors.
\<close>

section \<open>Reachable stores\<close>

text \<open>One call of any operation of \<^verbatim>\<open>sem_store.c\<close> that can change the store, with any arguments.\<close>

inductive store_step :: "tgc_sem_store \<Rightarrow> tgc_sem_store \<Rightarrow> bool" where
  step_get_as: "store_step st (snd (tgc_sem_store_get_as clk mem st key nsems flags identity))"
| step_remove: "store_step st (snd (tgc_sem_store_remove st semid))"
| step_setval: "store_step st (snd (tgc_sem_store_setval clk st semid n val pid))"
| step_setall: "store_step st (snd (tgc_sem_store_setall clk st semid vals pid))"
| step_set_metadata: "store_step st (snd (tgc_sem_store_set_metadata clk st semid uid gid mode actor))"
| step_adjust: "store_step st (snd (tgc_sem_store_adjust_wait_count st semid n zero adj))"
| step_tryop: "store_step st (snd (tgc_sem_store_tryop clk st semid ops pid))"
| step_exit: "store_step st (snd (tgc_sem_store_process_exit clks st pid))"

lemma store_wf_tryop_detail:
  assumes "store_wf store" and "tgc_sem_store_tryop_detail clk store semid ops pid = (r, st', w)"
  shows "store_wf st'"
  by (rule tryop_cases [OF assms]) (use assms in auto)

lemma store_wf_tryop: "store_wf store \<Longrightarrow> store_wf (snd (tgc_sem_store_tryop clk store semid ops pid))"
  using store_wf_tryop_detail
  by (cases "tgc_sem_store_tryop_detail clk store semid ops pid") (auto simp: tgc_sem_store_tryop_def)

lemma store_wf_process_exit:
  assumes "store_wf store"
  shows "store_wf (snd (tgc_sem_store_process_exit clks store pid))"
proof (cases "0 < sint pid")
  case True
  then show ?thesis using process_exit_ok(1) [OF assms] by (metis prod.collapse)
qed (use assms in \<open>simp add: tgc_sem_store_process_exit_def\<close>)

lemmas store_wf_ops =
  store_wf_get_as store_wf_remove store_wf_setval store_wf_setall store_wf_set_metadata
  store_wf_adjust_wait_count store_wf_tryop store_wf_process_exit

interpretation store_system: transition_system tgc_sem_store_create store_step store_wf
  by unfold_locales (auto simp: store_wf_create elim!: store_step.cases intro: store_wf_ops)

section \<open>The contract of semop and exit\<close>

fun op_sum :: "tgc_sem_op list \<Rightarrow> nat \<Rightarrow> int" where
  "op_sum [] n = 0"
| "op_sum (operation # rest) n =
     (if unat (sem_num operation) = n then sint (sem_op operation) else 0) + op_sum rest n"

lemma spec_ops_nth:
  "spec_ops vs ops = Spec_Done vs' \<Longrightarrow> n < length vs \<Longrightarrow> vs' ! n = vs ! n + op_sum ops n \<and> length vs' = length vs"
proof (induction ops arbitrary: vs)
  case (Cons op ops)
  from Cons.prems have "spec_ops (vs[unat (sem_num op) := vs ! unat (sem_num op) + sint (sem_op op)]) ops
      = Spec_Done vs'"
    by (simp add: Let_def split: if_splits)
  from Cons.IH [OF this] Cons.prems(2) show ?case by (simp add: nth_update_if)
qed simp

lemma undo_sum_all: "(\<forall>operation \<in> set ops. is_undo operation) \<Longrightarrow> undo_sum ops n = - op_sum ops n"
  by (induction ops) auto

text \<open>
  The interface the broker uses: \<open>val\<close> and \<open>adj\<close> are the abstract state, \<open>tryop\<close> is all-or-nothing and
  additive, \<open>exit\<close> applies and forgets the adjustments of one process.
\<close>

locale semaphore_contract =
  fixes inv :: "'s \<Rightarrow> bool"
    and val :: "'s \<Rightarrow> s32 \<Rightarrow> nat \<Rightarrow> int option"
    and adj :: "'s \<Rightarrow> s32 \<Rightarrow> s32 \<Rightarrow> u16 \<Rightarrow> int"
    and tryop :: "'s \<Rightarrow> s32 \<Rightarrow> tgc_sem_op list \<Rightarrow> s32 \<Rightarrow> s32 \<times> 's"
    and exit :: "'s \<Rightarrow> s32 \<Rightarrow> s32 \<times> 's"
  assumes tryop_inv: "inv s \<Longrightarrow> inv (snd (tryop s x ops p))"
    and tryop_unchanged: "inv s \<Longrightarrow> fst (tryop s x ops p) \<noteq> 0 \<Longrightarrow> snd (tryop s x ops p) = s"
    and tryop_val: "inv s \<Longrightarrow> fst (tryop s x ops p) = 0 \<Longrightarrow>
      val (snd (tryop s x ops p)) y n =
        map_option (\<lambda>v. v + (if y = x then op_sum ops n else 0)) (val s y n)"
    and tryop_adj: "inv s \<Longrightarrow> fst (tryop s x ops p) = 0 \<Longrightarrow>
      adj (snd (tryop s x ops p)) q y m = adj s q y m + (if q = p \<and> y = x then undo_sum ops (unat m) else 0)"
    and exit_inv: "inv s \<Longrightarrow> inv (snd (exit s p))"
    and exit_val: "inv s \<Longrightarrow> 0 < sint p \<Longrightarrow>
      val (snd (exit s p)) y n = map_option (\<lambda>v. clamp_value (v + adj s p y (of_nat n))) (val s y n)"
    and val_range: "inv s \<Longrightarrow> val s y n = Some v \<Longrightarrow> 0 \<le> v \<and> v \<le> 32767 \<and> n < 65536"
begin

lemma undoable_call:
  assumes "inv s" and "\<forall>operation \<in> set ops. is_undo operation"
  shows "map_option (\<lambda>v. v + adj (snd (tryop s x ops p)) p y (of_nat n)) (val (snd (tryop s x ops p)) y n)
    = map_option (\<lambda>v. v + adj s p y (of_nat n)) (val s y n)"
proof (cases "fst (tryop s x ops p) = 0")
  case True
  show ?thesis
  proof (cases "val s y n")
    case (Some v)
    then have "unat (of_nat n :: u16) = n"
      using val_range [OF assms(1)] by (simp add: unat_of_nat take_bit_nat_eq_self)
    then show ?thesis
      using Some tryop_val [OF assms(1) True] tryop_adj [OF assms(1) True] undo_sum_all [OF assms(2)]
      by simp
  qed (use tryop_val [OF assms(1) True] in simp)
qed (use tryop_unchanged [OF assms(1)] in simp)

lemma undoable_calls:
  fixes p :: s32
  assumes "inv s" and "\<forall>(x, ops) \<in> set calls. \<forall>operation \<in> set ops. is_undo operation"
  defines "s' \<equiv> fold (\<lambda>(x, ops) s. snd (tryop s x ops p)) calls s"
  shows "inv s' \<and> map_option (\<lambda>v. v + adj s' p y (of_nat n)) (val s' y n) =
    map_option (\<lambda>v. v + adj s p y (of_nat n)) (val s y n)"
  using assms(1,2) unfolding s'_def
proof (induction calls arbitrary: s)
  case (Cons c calls)
  obtain x ops where c: "c = (x, ops)" by (cases c)
  then show ?case
    using Cons.IH [OF tryop_inv [OF Cons.prems(1), of x ops p]] undoable_call [OF Cons.prems(1)] Cons.prems(2)
    by simp
qed simp

text \<open>After its undoable calls a process's exit leaves the values its exit before them would have left.\<close>

lemma exit_after_undoable_calls:
  assumes "inv s" and "0 < sint p" and "\<forall>(x, ops) \<in> set calls. \<forall>operation \<in> set ops. is_undo operation"
  shows "val (snd (exit (fold (\<lambda>(x, ops) s. snd (tryop s x ops p)) calls s) p)) y n =
    val (snd (exit s p)) y n"
proof -
  let ?s = "fold (\<lambda>(x, ops) s. snd (tryop s x ops p)) calls s"
  have "map_option clamp_value (map_option (\<lambda>v. v + adj ?s p y (of_nat n)) (val ?s y n)) =
      map_option clamp_value (map_option (\<lambda>v. v + adj s p y (of_nat n)) (val s y n))"
    using undoable_calls [OF assms(1,3)] by metis
  moreover have "inv ?s" using undoable_calls [OF assms(1,3)] by blast
  ultimately show ?thesis
    using exit_val [OF _ assms(2)] assms(1) by (simp add: option.map_comp comp_def)
qed

lemma exit_restores:
  assumes "inv s" and "0 < sint p" and "\<forall>(x, ops) \<in> set calls. \<forall>operation \<in> set ops. is_undo operation"
    and "\<forall>y m. adj s p y m = 0"
  shows "val (snd (exit (fold (\<lambda>(x, ops) s. snd (tryop s x ops p)) calls s) p)) y n = val s y n"
  unfolding exit_after_undoable_calls [OF assms(1-3)]
  using exit_val [OF assms(1,2)] assms(4) val_range [OF assms(1), of y n]
  by (cases "val s y n") (simp_all add: clamp_value_id)

end

lemma tryop_call:
  obtains r st' w where "tgc_sem_store_tryop_detail clk store semid ops pid = (r, st', w)"
    and "tgc_sem_store_tryop clk store semid ops pid = (r, st')"
  by (cases "tgc_sem_store_tryop_detail clk store semid ops pid") (auto simp: tgc_sem_store_tryop_def)

lemma tryop_sem_value:
  assumes wf: "store_wf store" and r: "fst (tgc_sem_store_tryop clk store semid ops pid) = 0"
  shows "sem_value (snd (tgc_sem_store_tryop clk store semid ops pid)) x n =
    map_option (\<lambda>v. v + (if x = semid then op_sum ops n else 0)) (sem_value store x n)"
proof -
  obtain st' w where call: "tgc_sem_store_tryop_detail clk store semid ops pid = (0, st', w)"
    and eq: "tgc_sem_store_tryop clk store semid ops pid = (0, st')"
    using r by (metis fst_conv tryop_call)
  show ?thesis
  proof (rule tryop_cases [OF wf call])
    fix i s vs'
    assume a: "find_set store semid = Some i" "st_sets st' = (st_sets store)[i := s]" "s_active s"
      "s_generation s = s_generation (st_sets store ! i)" "s_nsems s = s_nsems (st_sets store ! i)"
      "spec_ops (map uint (s_values (st_sets store ! i))) ops = Spec_Done vs'" "map uint (s_values s) = vs'"
    note I = find_set_SomeD [OF wf a(1)]
    have "sem_value st' x n = sem_value (store\<lparr>st_sets := (st_sets store)[i := s]\<rparr>) x n"
      by (rule sem_value_cong [THEN fun_cong, THEN fun_cong]) (simp add: a(2))
    also have "\<dots> = (if x = semid then if n < unat (s_nsems s) then Some (uint (s_values s ! n)) else None
        else sem_value store x n)"
      by (rule sem_value_update) (use wf a I(2) in simp_all)
    finally have sv: "sem_value st' x n = (if x = semid
        then if n < unat (s_nsems s) then Some (uint (s_values s ! n)) else None else sem_value store x n)" .
    have len: "length (s_values (st_sets store ! i)) = unat (s_nsems s)"
      using I(3) a(5) by (simp add: set_wf_def)
    show ?thesis
    proof (cases "x = semid \<and> n < unat (s_nsems s)")
      case True
      then have n: "vs' ! n = uint (s_values (st_sets store ! i) ! n) + op_sum ops n" "n < length vs'"
        using spec_ops_nth [OF a(6), of n] len by simp_all
      then have "uint (s_values s ! n) = vs' ! n" using a(7) by auto
      then show ?thesis using True sv n a(1,5) eq by (simp add: sem_value_def [of store])
    next
      case False
      then show ?thesis using sv eq a(1,5) by (cases "x = semid") (simp_all add: sem_value_def [of store] option.map_ident)
    qed
  qed simp
qed

interpretation store_contract: semaphore_contract store_wf sem_value undo_of
    "tgc_sem_store_tryop clk" "tgc_sem_store_process_exit clks" for clk clks
proof unfold_locales
  fix s x ops p q y m n v
  assume wf: "store_wf s"
  obtain r st' w where call: "tgc_sem_store_tryop_detail clk s x ops p = (r, st', w)"
    "tgc_sem_store_tryop clk s x ops p = (r, st')" by (rule tryop_call)
  show "store_wf (snd (tgc_sem_store_tryop clk s x ops p))" using wf by (rule store_wf_tryop)
  show "store_wf (snd (tgc_sem_store_process_exit clks s p))" using wf by (rule store_wf_process_exit)
  show "snd (tgc_sem_store_tryop clk s x ops p) = s" if "fst (tgc_sem_store_tryop clk s x ops p) \<noteq> 0"
    by (rule tryop_cases [OF wf call(1)]) (use that call in auto)
  show "undo_of (snd (tgc_sem_store_tryop clk s x ops p)) q y m =
      undo_of s q y m + (if q = p \<and> y = x then undo_sum ops (unat m) else 0)"
    if "fst (tgc_sem_store_tryop clk s x ops p) = 0"
    by (rule tryop_cases [OF wf call(1)]) (use that call in auto)
  show "sem_value (snd (tgc_sem_store_process_exit clks s p)) y n =
      map_option (\<lambda>v. clamp_value (v + undo_of s p y (of_nat n))) (sem_value s y n)" if "0 < sint p"
    by (rule process_exit_ok(3) [OF wf that prod.collapse [symmetric]])
  show "0 \<le> v \<and> v \<le> 32767 \<and> n < 65536" if "sem_value s y n = Some v"
    using sem_value_range [OF wf that] sem_value_large [OF wf, of n y] that by (cases "n < 65536") auto
qed (rule tryop_sem_value)

end
