(* ===== verification/Tgc_Sem_Props.thy ===== *)
theory Tgc_Sem_Props
  imports Tgc_Sem_Contract
begin

text \<open>
  The properties of the semaphore store: what \<^verbatim>\<open>semop\<close> and process exit do to the abstract state,
  how identifiers are issued and retired, and the round trips of the accessors. A small concrete store
  serves as the input of the witnesses.
\<close>

section \<open>A concrete store\<close>

definition demo_identity :: tgc_sem_identity where
  "demo_identity = \<lparr>id_uid = 1000, id_gid = 1000\<rparr>"

text \<open>An empty store in which one set of three semaphores was created under key 77.\<close>

definition demo_store :: tgc_sem_store where
  "demo_store = snd (tgc_sem_store_get_as (Some 5) True tgc_sem_store_create 77 3 0x380 demo_identity)"

definition demo_set :: tgc_sem_set where
  "demo_set = new_set (Some 5) empty_set 77 3 0x380 demo_identity"

lemma demo_store_eq:
  "demo_store =
     \<lparr>st_sets = (replicate 128 empty_set)[0 := demo_set], st_undo = replicate 4096 empty_undo\<rparr>"
  by (simp add: demo_store_def tgc_sem_store_get_as_def tgc_sem_store_create_def first_index_replicate
      demo_set_def Let_def empty_set_def [THEN arg_cong, of s_active])

lemma demo_get:
  "tgc_sem_store_get_as (Some 5) True tgc_sem_store_create 77 3 0x380 demo_identity = (0x10001, demo_store)"
  by (simp add: demo_store_eq tgc_sem_store_get_as_def tgc_sem_store_create_def first_index_replicate
      demo_set_def Let_def empty_set_def [THEN arg_cong, of s_active] new_set_def make_id_def
      empty_set_def [THEN arg_cong, of s_generation])

lemma demo_wf: "store_wf demo_store"
  unfolding demo_store_def by (intro store_wf_get_as store_wf_create)

lemma demo_find: "find_set demo_store 0x10001 = Some 0"
  by (simp add: find_set_def decode_id_def Let_def demo_store_eq demo_set_def new_set_def empty_set_def)

lemma demo_set_simps:
  "st_sets demo_store ! 0 = demo_set" "s_nsems demo_set = 3" "s_values demo_set = replicate 3 0"
  "s_generation demo_set = 1" "s_key demo_set = 77"
  by (simp_all add: demo_store_eq demo_set_def new_set_def empty_set_def)

lemma demo_undo: "undo_of demo_store p x n = 0"
  by (simp add: undo_of_def find_undo_entry_def demo_store_eq first_index_replicate empty_undo_def)

lemma demo_value: "sem_value demo_store 0x10001 n = (if n < 3 then Some 0 else None)"
  by (simp add: sem_value_def demo_find demo_set_simps)

lemma demo_free: "free_entries demo_store = 4096"
  by (simp add: demo_store_eq empty_undo_def)

text \<open>Take semaphore 0 (initially 0) up by two with undo, then down by one.\<close>

definition demo_ops :: "tgc_sem_op list" where
  "demo_ops = [\<lparr>sem_num = 0, sem_op = 2, sem_flg = 4096\<rparr>, \<lparr>sem_num = 0, sem_op = - 1, sem_flg = 4096\<rparr>]"

lemma demo_result: "fst (tgc_sem_store_tryop_detail clk demo_store 0x10001 demo_ops 42) = 0"
proof -
  have "undo_sum demo_ops n = (if n = 0 then - 1 else 0)" for n by (simp add: demo_ops_def is_undo_def)
  moreover have "undo_request_ok demo_ops"
    by (simp add: undo_request_ok_def demo_ops_def is_undo_def undo_out_of_range_def All_less_Suc2 numeral_2_eq_2)
  moreover have "spec_ops (replicate 3 0) demo_ops = Spec_Done ((replicate 3 0)[0 := 1])"
    by (simp add: demo_ops_def)
  moreover have "\<not> (\<exists>operation \<in> set demo_ops. op_is_invalid 3 operation)"
    by (simp add: demo_ops_def op_is_invalid_def)
  moreover have "demo_ops \<noteq> []" by (simp add: demo_ops_def)
  ultimately show ?thesis
    unfolding tryop_result [OF demo_wf]
    by (simp add: spec_result_def sem_values_def demo_find demo_set_simps undo_total_ok_def
        new_undo_entries_def demo_undo demo_free undo_out_of_range_def upt_rec)
qed

lemma demo_call:
  obtains st' w where "tgc_sem_store_tryop_detail clk demo_store 0x10001 demo_ops 42 = (0, st', w)"
  using demo_result [of clk] by (metis fst_conv prod_cases3)

section \<open>Invariant\<close>

text \<open>
  C4. Every store reachable from the freshly created one by any sequence of store operations, with any
  arguments, is well formed: 128 set slots whose value, pid and waiter arrays have the recorded length,
  values at most 32767, generations in 1..32767 for active sets, at most one active set per non-private
  key, and 4096 undo slots whose active entries have distinct keys, belong to a live semaphore and hold
  a non-zero adjustment in range.
\<close>

theorem store_reachable_wf: "store_step\<^sup>*\<^sup>* tgc_sem_store_create st \<Longrightarrow> store_wf st"
  by (rule store_system.reachable_inv)

theorem store_reachable_wf_witness: "store_step\<^sup>*\<^sup>* tgc_sem_store_create demo_store \<and> store_wf demo_store"
proof -
  have "store_step\<^sup>*\<^sup>* tgc_sem_store_create demo_store"
    unfolding demo_store_def by (intro r_into_rtranclp step_get_as)
  then show ?thesis using store_reachable_wf [of demo_store] by blast
qed

section \<open>Semaphore operations\<close>

text \<open>
  C1. The result code of \<^verbatim>\<open>tgc_sem_store_tryop_detail\<close> is the one of the integer specification on every
  branch: bad identifier or operation, a value above 32767, a blocking operation (with or without
  \<^verbatim>\<open>IPC_NOWAIT\<close>), an adjustment out of range, no room for the adjustments, success. In particular the
  late \<^verbatim>\<open>-ENOSPC\<close> inside the commit loop is never taken.
\<close>

theorem tryop_exact_result:
  "store_wf store \<Longrightarrow>
   fst (tgc_sem_store_tryop_detail clk store semid ops pid) = spec_result store semid ops pid"
  by (rule tryop_result)

theorem tryop_exact_result_witness:
  "store_wf demo_store \<and> spec_result demo_store 0x10001 demo_ops 42 = 0"
  using tryop_exact_result [OF demo_wf, of "Some 9" "0x10001" demo_ops 42] demo_wf demo_result [of "Some 9"]
  by simp

text \<open>
  C2. \<^verbatim>\<open>semop\<close> is all-or-nothing: whatever the reason, a call that does not return 0 leaves the whole
  store, values, undo table and timestamps, exactly as it was.
\<close>

theorem tryop_all_or_nothing:
  assumes "store_wf store" and "tgc_sem_store_tryop_detail clk store semid ops pid = (r, st', w)"
    and "r \<noteq> 0"
  shows "st' = store"
  by (rule tryop_cases [OF assms(1,2)]) (use assms(3) in auto)

theorem tryop_all_or_nothing_witness:
  "snd (snd (tgc_sem_store_tryop_detail None demo_store 0x10001
      [\<lparr>sem_num = 1, sem_op = 5, sem_flg = 0\<rparr>, \<lparr>sem_num = 0, sem_op = - 1, sem_flg = 0\<rparr>] 42)) =
     Some \<lparr>wr_sem_num = 0, wr_wait_for_zero = 0\<rparr> \<and>
   fst (snd (tgc_sem_store_tryop_detail None demo_store 0x10001
      [\<lparr>sem_num = 1, sem_op = 5, sem_flg = 0\<rparr>, \<lparr>sem_num = 0, sem_op = - 1, sem_flg = 0\<rparr>] 42)) = demo_store"
proof -
  let ?ops = "[\<lparr>sem_num = 1, sem_op = 5, sem_flg = 0\<rparr>, \<lparr>sem_num = 0, sem_op = - 1, sem_flg = 0\<rparr>]"
  have "tgc_sem_store_tryop_detail None demo_store 0x10001 ?ops 42 =
      (1, fst (snd (tgc_sem_store_tryop_detail None demo_store 0x10001 ?ops 42)),
       Some \<lparr>wr_sem_num = 0, wr_wait_for_zero = 0\<rparr>)"
    by (simp add: tgc_sem_store_tryop_detail_def demo_find demo_set_simps op_is_invalid_def
        wait_reason_of_def Let_def word_le_nat_alt)
  then show ?thesis
    using tryop_all_or_nothing [OF demo_wf, of None "0x10001" ?ops 42 1] by (metis snd_conv one_neq_zero)
qed

text \<open>
  C3. A call that returns 0 applied every operation: each semaphore of the set moved by the sum of its
  operations and no other value changed; the undo adjustment of the calling process moved by minus the
  sum of the operations flagged \<^verbatim>\<open>SEM_UNDO\<close> and no other adjustment changed; the store stays well formed.
\<close>

theorem tryop_applies_all:
  assumes "store_wf store" and "tgc_sem_store_tryop_detail clk store semid ops pid = (0, st', w)"
  shows "store_wf st' \<and>
    sem_value st' x n = map_option (\<lambda>v. v + (if x = semid then op_sum ops n else 0)) (sem_value store x n) \<and>
    undo_of st' p x m = undo_of store p x m + (if p = pid \<and> x = semid then undo_sum ops (unat m) else 0)"
proof -
  have eq: "tgc_sem_store_tryop clk store semid ops pid = (0, st')"
    using assms(2) by (simp add: tgc_sem_store_tryop_def)
  show ?thesis
    using store_contract.tryop_inv [OF assms(1), of clk semid ops pid]
      store_contract.tryop_val [OF assms(1), of clk semid ops pid x n]
      store_contract.tryop_adj [OF assms(1), of clk semid ops pid p x m]
    by (simp add: eq)
qed

theorem tryop_applies_all_witness:
  "\<exists>st'. fst (tgc_sem_store_tryop_detail None demo_store 0x10001 demo_ops 42) = 0 \<and>
     sem_value st' 0x10001 0 = Some 1 \<and> undo_of st' 42 0x10001 0 = - 1"
proof -
  obtain st' w where "tgc_sem_store_tryop_detail None demo_store 0x10001 demo_ops 42 = (0, st', w)"
    by (rule demo_call)
  from tryop_applies_all [OF demo_wf this, of "0x10001" 0 42 0] show ?thesis
    using demo_result [of None]
    by (auto simp: demo_value demo_undo demo_ops_def is_undo_def intro!: exI [of _ st'])
qed

section \<open>Process exit\<close>

text \<open>
  C7. Process exit applies every undo adjustment of the process, clamped to 0..32767, to the semaphore
  it belongs to, drops exactly that process's adjustments, changes no other value, keeps the store well
  formed and returns 1 exactly when there was an adjustment to apply.
\<close>

theorem process_exit_applies_undo:
  assumes "store_wf store" and "0 < sint pid"
    and "tgc_sem_store_process_exit clks store pid = (r, st')"
  shows "store_wf st' \<and>
    sem_value st' x n =
      map_option (\<lambda>v. clamp_value (v + undo_of store pid x (of_nat n))) (sem_value store x n) \<and>
    undo_of st' p x m = (if p = pid then 0 else undo_of store p x m) \<and>
    r = (if \<exists>x m. undo_of store pid x m \<noteq> 0 then 1 else 0)"
  using process_exit_ok [OF assms] by blast

theorem process_exit_applies_undo_witness:
  "sem_value (snd (tgc_sem_store_process_exit (\<lambda>_. None) demo_store 42)) 0x10001 2 = Some 0 \<and>
   fst (tgc_sem_store_process_exit (\<lambda>_. None) demo_store 42) = 0"
  using process_exit_applies_undo [OF demo_wf, of 42 "\<lambda>_. None"
      "fst (tgc_sem_store_process_exit (\<lambda>_. None) demo_store 42)"
      "snd (tgc_sem_store_process_exit (\<lambda>_. None) demo_store 42)" "0x10001" 2 42 0]
  by (simp add: demo_value demo_undo clamp_value_def)

text \<open>
  C11. Undo is exact: if a process that has no adjustments makes any number of \<^verbatim>\<open>semop\<close> calls on any sets,
  every operation flagged \<^verbatim>\<open>SEM_UNDO\<close>, successful or not, and then exits, every semaphore of every set
  has the value it had before.
\<close>

theorem undo_restores_values:
  assumes "store_wf store" and "0 < sint pid"
    and "\<forall>(x, ops) \<in> set calls. \<forall>operation \<in> set ops. is_undo operation"
    and "\<forall>x m. undo_of store pid x m = 0"
  shows "sem_value (snd (tgc_sem_store_process_exit clks
           (fold (\<lambda>(x, ops) st. snd (tgc_sem_store_tryop clk st x ops pid)) calls store) pid)) semid n =
         sem_value store semid n"
  by (rule store_contract.exit_restores [OF assms])

theorem undo_restores_values_witness:
  "sem_value (snd (tgc_sem_store_process_exit (\<lambda>_. None)
     (fold (\<lambda>(x, ops) st. snd (tgc_sem_store_tryop None st x ops 42))
        [(0x10001, demo_ops), (0x10001, demo_ops)] demo_store) 42)) 0x10001 0 = Some 0"
proof -
  have "\<forall>(x :: s32, ops) \<in> set [(0x10001, demo_ops), (0x10001, demo_ops)].
      \<forall>operation \<in> set ops. is_undo operation"
    by (simp add: demo_ops_def is_undo_def)
  from undo_restores_values [OF demo_wf _ this, of 42 "\<lambda>_. None" None "0x10001" 0] show ?thesis
    by (simp add: demo_undo demo_value)
qed

section \<open>Identifiers\<close>

text \<open>
  Decoding a semaphore identifier succeeds exactly on the identifiers \<^verbatim>\<open>make_id\<close> issues: index below
  128, generation 1..32767, and it returns the two components. Encoding is therefore injective.
\<close>

theorem decode_id_exact:
  "decode_id semid = Some (index, generation) \<longleftrightarrow>
   index < TGC_SEM_MAX_SETS \<and> generation \<noteq> 0 \<and> generation \<le> 0x7fff \<and> semid = make_id index generation"
  by (rule decode_id_Some_iff)

lemma remove_success:
  assumes wf: "store_wf store" and r: "tgc_sem_store_remove store semid = (0, st')"
  obtains i where "find_set store semid = Some i"
    and "st' = (clear_undo_entries store semid 0 True)
      \<lparr>st_sets := (st_sets store)[i := removed_set (st_sets store ! i)]\<rparr>"
  using r by (auto simp: tgc_sem_store_remove_def Let_def split: option.splits)

lemma find_set_removed:
  assumes wf: "store_wf store" and i: "find_set store semid = Some i"
    and s: "st_sets st' = (st_sets store)[i := removed_set (st_sets store ! i)]"
  shows "find_set st' x = (if x = semid then None else find_set store x)"
proof -
  note I = find_set_SomeD [OF wf i]
  have len: "i < length (st_sets store)" using I(1) store_wfD(1) [OF wf] by simp
  have nth: "st_sets st' ! j = (if j = i then removed_set (st_sets store ! i) else st_sets store ! j)" for j
    using len by (simp add: s nth_list_update)
  have off: "\<not> s_active (removed_set (st_sets store ! i))" by (simp add: removed_set_def)
  show ?thesis
  proof (cases "find_set store x")
    case None
    then show ?thesis using off by (auto simp: find_set_def nth Let_def split: option.splits if_splits)
  next
    case (Some j)
    have ji: "j = i \<longleftrightarrow> x = semid"
      using find_set_SomeD(4) [OF wf Some] I(4) Some i by (metis option.inject)
    have "find_set st' x = (if j = i then None else Some j)"
      using Some off by (auto simp: find_set_def nth Let_def split: option.splits if_splits)
    then show ?thesis using ji Some by simp
  qed
qed

lemma find_set_get_as:
  assumes wf: "store_wf store"
    and g: "tgc_sem_store_get_as clk mem store key nsems flags identity = (r, st')" and r: "0 < sint r"
  obtains (existing) i where "st' = store" "key \<noteq> TGC_IPC_PRIVATE" "find_set store r = Some i"
      "s_key (st_sets store ! i) = key" "\<not> (flags AND TGC_IPC_CREAT \<noteq> 0 \<and> flags AND TGC_IPC_EXCL \<noteq> 0)"
      "0 \<le> sint nsems" "sint nsems \<le> uint (s_nsems (st_sets store ! i))"
  | (created) i where "find_set store r = None" "i < 128" "\<not> s_active (st_sets store ! i)"
      "st' = store\<lparr>st_sets := (st_sets store)[i := new_set clk (st_sets store ! i) key nsems flags identity]\<rparr>"
      "r = make_id i (s_generation (new_set clk (st_sets store ! i) key nsems flags identity))"
      "find_set st' r = Some i" "0 < sint nsems" "sint nsems \<le> 512"
      "key = TGC_IPC_PRIVATE \<or> flags AND TGC_IPC_CREAT \<noteq> 0"
      "\<And>j. j < 128 \<Longrightarrow> s_active (st_sets store ! j) \<Longrightarrow> key \<noteq> TGC_IPC_PRIVATE \<Longrightarrow> s_key (st_sets store ! j) \<noteq> key"
proof -
  let ?look = "if key \<noteq> TGC_IPC_PRIVATE
    then first_index (\<lambda>s. s_active s \<and> s_key s = key) (st_sets store) else None"
  have len: "length (st_sets store) = 128" using wf by (simp add: store_wfD)
  show ?thesis
  proof (cases ?look)
    case (Some i)
    then have k: "key \<noteq> TGC_IPC_PRIVATE"
      and f: "first_index (\<lambda>s. s_active s \<and> s_key s = key) (st_sets store) = Some i"
      by (auto split: if_splits)
    have i: "i < 128" "s_active (st_sets store ! i)" "s_key (st_sets store ! i) = key"
      using first_indexD [OF f] len by auto
    from g r Some have "st' = store" "r = make_id i (s_generation (st_sets store ! i))"
      "\<not> (flags AND TGC_IPC_CREAT \<noteq> 0 \<and> flags AND TGC_IPC_EXCL \<noteq> 0)"
      "0 \<le> sint nsems" "sint nsems \<le> uint (s_nsems (st_sets store ! i))"
      unfolding tgc_sem_store_get_as_def by (auto simp: Let_def not_less simp del: TGC_IPC_PRIVATE_def split: if_splits)
    then show ?thesis using existing [of i] k i find_set_iff [OF wf, of r i] by simp
  next
    case None
    note g' = g [unfolded tgc_sem_store_get_as_def None option.case Let_def]
    obtain i where f: "first_index (\<lambda>s. \<not> s_active s) (st_sets store) = Some i"
      and eq: "st' = store\<lparr>st_sets := (st_sets store)[i := new_set clk (st_sets store ! i) key nsems flags identity]\<rparr>"
        "r = make_id i (s_generation (new_set clk (st_sets store ! i) key nsems flags identity))"
      and n: "0 < sint nsems" "sint nsems \<le> 512"
      and fl: "key = TGC_IPC_PRIVATE \<or> flags AND TGC_IPC_CREAT \<noteq> 0"
      using r g'
      by (cases "first_index (\<lambda>s. \<not> s_active s) (st_sets store)")
        (simp_all add: not_less not_le split: if_splits)
    have i: "i < 128" "\<not> s_active (st_sets store ! i)" using first_indexD [OF f] len by auto
    have wf': "store_wf st'" using store_wf_get_as [OF wf, of clk mem key nsems flags identity] g by simp
    have fs: "find_set st' r = Some i"
      unfolding find_set_iff [OF wf'] using i eq len by (simp add: new_set_def)
    have "find_set store r \<noteq> Some j" for j
    proof
      assume "find_set store r = Some j"
      from find_set_SomeD [OF wf this] i eq(2) show False by (metis make_id_inject TGC_SEM_MAX_SETS_def)
    qed
    moreover have "s_key (st_sets store ! j) \<noteq> key"
      if "j < 128" "s_active (st_sets store ! j)" "key \<noteq> TGC_IPC_PRIVATE" for j
      using None that len by (auto simp: first_index_None_iff split: if_splits)
    ultimately show ?thesis using created [of i] i eq n fl fs by blast
  qed
qed

lemma undo_of_clear:
  "undo_of (clear_undo_entries store semid k all) p x n =
    (if x = semid \<and> (all \<or> unat n = k) then 0 else undo_of store p x n)"
proof -
  let ?P = "\<lambda>(p :: s32, x, n :: u16). x = semid \<and> (all \<or> unat n = k)"
  have "slot_get u_active undo_key (st_undo (clear_undo_entries store semid k all)) (p, x, n) =
      (if ?P (p, x, n) then None else slot_get u_active undo_key (st_undo store) (p, x, n))"
    using slot_get_switch_off [of u_active "\<lambda>e. e\<lparr>u_active := False\<rparr>" undo_key ?P "st_undo store"]
    by (simp add: clear_undo_entries_def)
  then show ?thesis by (auto simp: undo_of_slot_get)
qed

lemma get_as_failed:
  assumes wf: "store_wf store"
    and g: "tgc_sem_store_get_as clk mem store key nsems flags identity = (r, st')" and r: "\<not> 0 < sint r"
  shows "st' = store"
proof (rule ccontr)
  assume "st' \<noteq> store"
  then obtain j where j: "first_index (\<lambda>s. \<not> s_active s) (st_sets store) = Some j"
    and eq: "r = make_id j (s_generation (new_set clk (st_sets store ! j) key nsems flags identity))"
    using g unfolding tgc_sem_store_get_as_def
    by (auto simp: Let_def split: option.splits if_splits)
  have "j < 128" using first_indexD(1) [OF j] store_wfD(1) [OF wf] by simp
  then have "0 < sint r" unfolding eq using store_wfD(3) [OF wf, of j]
    by (intro make_id_positive) (auto simp: new_set_def set_wf_def)
  with r show False by simp
qed

lemma stale_in_new_store:
  assumes wf: "store_wf store" and rm: "tgc_sem_store_remove store semid = (0, st1)"
    and g: "tgc_sem_store_get_as clk mem st1 key nsems flags identity = (r, st2)" and r: "0 < sint r"
  shows "find_set st2 semid = None"
proof -
  obtain i where i: "find_set store semid = Some i"
    and st1: "st1 = (clear_undo_entries store semid 0 True)
      \<lparr>st_sets := (st_sets store)[i := removed_set (st_sets store ! i)]\<rparr>"
    by (rule remove_success [OF wf rm])
  note I = find_set_SomeD [OF wf i]
  have wf1: "store_wf st1" using store_wf_remove [OF wf, of semid] rm by simp
  have wf2: "store_wf st2" using store_wf_get_as [OF wf1, of clk mem key nsems flags identity] g by simp
  have none: "find_set st1 semid = None" using find_set_removed [OF wf i, of st1 semid] st1 by simp
  have s1: "st_sets st1 ! i = removed_set (st_sets store ! i)" using I(1) st1 store_wfD(1) [OF wf] by simp
  show ?thesis
  proof (rule find_set_get_as [OF wf1 g r])
    fix j
    assume j: "j < 128" "\<not> s_active (st_sets st1 ! j)"
      and st2: "st2 = st1\<lparr>st_sets := (st_sets st1)[j := new_set clk (st_sets st1 ! j) key nsems flags identity]\<rparr>"
    have "find_set st2 semid \<noteq> Some k" for k
    proof
      assume k: "find_set st2 semid = Some k"
      note K = find_set_SomeD [OF wf2 k]
      have "k = i" and gen: "s_generation (st_sets st2 ! k) = s_generation (st_sets store ! i)"
        using K(1,4) I(1,4) make_id_inject [of k i] by (metis TGC_SEM_MAX_SETS_def)+
      show False
      proof (cases "j = i")
        case True
        then have "s_generation (st_sets st2 ! k) = next_generation (s_generation (st_sets store ! i))"
          using \<open>k = i\<close> st2 s1 I(1) store_wfD(1) [OF wf1] next_generation_range
          by (simp add: new_set_def removed_set_def)
        then show False using gen next_generation_neq by metis
      next
        case False
        then have "st_sets st2 ! k = st_sets st1 ! k" using \<open>k = i\<close> st2 by simp
        then show False using K(2) s1 \<open>k = i\<close> by (simp add: removed_set_def)
      qed
    qed
    then show ?thesis by (cases "find_set st2 semid") auto
  qed (use none in simp)
qed

text \<open>
  C19. Removing a set retires its identifier and only that one: every later use of it fails (the lookup
  finds nothing), its undo adjustments are gone, every other identifier keeps its meaning, and a set
  created next, even in the same slot, neither gets the identifier nor makes it valid again.
\<close>

theorem removed_id_is_stale:
  assumes "store_wf store" and "tgc_sem_store_remove store semid = (0, st1)"
    and "tgc_sem_store_get_as clk mem st1 key nsems flags identity = (r, st2)"
  shows "find_set st1 x = (if x = semid then None else find_set store x) \<and>
    sem_value st1 x n = (if x = semid then None else sem_value store x n) \<and>
    undo_of st1 p x m = (if x = semid then 0 else undo_of store p x m) \<and>
    find_set st2 semid = None \<and> (0 < sint r \<longrightarrow> r \<noteq> semid)"
proof -
  obtain i where i: "find_set store semid = Some i"
    and st1: "st1 = (clear_undo_entries store semid 0 True)
      \<lparr>st_sets := (st_sets store)[i := removed_set (st_sets store ! i)]\<rparr>"
    by (rule remove_success [OF assms(1,2)])
  have wf1: "store_wf st1" using store_wf_remove [OF assms(1), of semid] assms(2) by simp
  have f: "find_set st1 y = (if y = semid then None else find_set store y)" for y
    using find_set_removed [OF assms(1) i, of st1 y] st1 by simp
  have "sem_value st1 x n = (if x = semid then None else sem_value store x n)"
  proof (cases "find_set store x")
    case (Some j)
    have "x \<noteq> semid \<Longrightarrow> j \<noteq> i"
      using find_set_SomeD(4) [OF assms(1) Some] find_set_SomeD(4) [OF assms(1) i] by metis
    then show ?thesis using Some f st1 by (cases "x = semid") (simp_all add: sem_value_def)
  qed (simp add: sem_value_def f)
  moreover have "undo_of st1 p x m = (if x = semid then 0 else undo_of store p x m)"
    using undo_of_clear [of store semid 0 True p x m]
      undo_of_cong [of st1 "clear_undo_entries store semid 0 True"] st1 by simp
  moreover have "find_set st2 semid = None"
  proof (cases "0 < sint r")
    case True
    then show ?thesis using stale_in_new_store [OF assms] by blast
  next
    case False
    then show ?thesis using get_as_failed [OF wf1 assms(3)] by (simp add: f)
  qed
  moreover have "r \<noteq> semid" if "0 < sint r"
  proof -
    have "find_set st2 r \<noteq> None" by (rule find_set_get_as [OF wf1 assms(3) that]) auto
    then show ?thesis using calculation(3) by metis
  qed
  ultimately show ?thesis using f by blast
qed

theorem removed_id_is_stale_witness:
  "find_set (snd (tgc_sem_store_remove demo_store 0x10001)) 0x10001 = None \<and>
   fst (tgc_sem_store_get_as None True (snd (tgc_sem_store_remove demo_store 0x10001)) 77 3 512 demo_identity)
     \<noteq> 0x10001"
proof -
  let ?st1 = "snd (tgc_sem_store_remove demo_store 0x10001)"
  let ?g = "tgc_sem_store_get_as None True ?st1 77 3 512 demo_identity"
  have "tgc_sem_store_remove demo_store 0x10001 = (0, ?st1)"
    by (simp add: tgc_sem_store_remove_def demo_find)
  note stale = removed_id_is_stale [OF demo_wf this prod.collapse [symmetric],
      of "0x10001" 0 1 0 None True 77 3 512 demo_identity]
  have "fst ?g \<noteq> 0x10001"
  proof
    assume "fst ?g = 0x10001"
    moreover from this have "0 < sint (fst ?g)" by simp
    ultimately show False using stale by blast
  qed
  with stale show ?thesis by simp
qed

text \<open>
  The generation counter of a slot runs through 1..32767 in a cycle: after \<open>k\<close> removals it is
  \<open>(g - 1 + k) mod 32767 + 1\<close>, so a slot issues an identifier again only after exactly 32767 removals.
\<close>

theorem generation_cycle:
  assumes "g \<noteq> 0" and "g \<le> 0x7fff"
  shows "unat ((next_generation ^^ k) g) = (unat g - 1 + k) mod 32767 + 1"
proof (induction k)
  case 0
  have "0 < unat g" "unat g \<le> 32767" using assms by (auto simp: word_le_nat_alt unat_gt_0)
  then show ?case by simp
next
  case (Suc k)
  let ?h = "(next_generation ^^ k) g"
  let ?m = "(unat g - 1 + k) mod 32767"
  have "unat (next_generation ?h) = (if unat ?h \<ge> 32767 then 1 else unat ?h + 1)"
    by (auto simp: next_generation_def word_le_nat_alt unat_word_ariths)
  moreover have "(unat g - 1 + Suc k) mod 32767 = (if ?m = 32766 then 0 else ?m + 1)"
    by (simp add: mod_Suc)
  moreover have "?m < 32767" by simp
  ultimately show ?case using Suc by auto
qed

theorem generation_cycle_witness:
  "unat ((next_generation ^^ 3) 32766) = 2 \<and> unat ((next_generation ^^ 32767) 7) = 7"
  using generation_cycle [of 32766 3] generation_cycle [of 7 32767] by (simp add: word_le_nat_alt)

section \<open>Opening and creating sets\<close>

lemma nsems_narrow:
  assumes "0 < sint (nsems :: s32)" and "sint nsems \<le> 512"
  shows "unat (ucast nsems :: u16) = unat nsems" "sint nsems = int (unat nsems)" "unat nsems \<le> 512"
    "(ucast (ucast nsems :: u16) :: u32) = nsems"
proof -
  show s: "sint nsems = int (unat nsems)" using assms(1) by (intro sint_nonneg_eq) simp
  then show u: "unat nsems \<le> 512" using assms(2) by linarith
  then show n: "unat (ucast nsems :: u16) = unat nsems" by (intro unat_ucast_u16) simp
  then show "(ucast (ucast nsems :: u16) :: u32) = nsems"
    by (simp add: word_unat_eq_iff unsigned_ucast_eq unsigned_take_bit_eq)
qed

text \<open>
  A successful \<^verbatim>\<open>semget\<close> binds its key: whether it found a set or created one, the identifier it
  returns is live afterwards, and any later \<^verbatim>\<open>semget\<close> of the same non-private key, without
  \<^verbatim>\<open>IPC_EXCL\<close> and asking for no more semaphores than the set has, returns the same identifier and
  changes nothing.
\<close>

theorem get_binds_key:
  assumes "store_wf store" and "key \<noteq> TGC_IPC_PRIVATE"
    and "tgc_sem_store_get_as clk mem store key nsems flags identity = (r, st')" and "0 < sint r"
    and "flags' AND TGC_IPC_EXCL = 0" and "0 \<le> sint nsems'" and "sint nsems' \<le> sint nsems"
  shows "find_set st' r \<noteq> None \<and>
    tgc_sem_store_get_as clk' mem' st' key nsems' flags' identity' = (r, st')"
proof -
  have wf': "store_wf st'" using store_wf_get_as [OF assms(1), of clk mem key nsems flags identity] assms(3) by simp
  obtain i where i: "find_set st' r = Some i" "s_key (st_sets st' ! i) = key"
    and n: "sint nsems \<le> uint (s_nsems (st_sets st' ! i))"
  proof (rule find_set_get_as [OF assms(1,3,4)])
    fix i
    assume c: "i < 128" "find_set st' r = Some i" "0 < sint nsems" "sint nsems \<le> 512"
      "st' = store\<lparr>st_sets := (st_sets store)[i := new_set clk (st_sets store ! i) key nsems flags identity]\<rparr>"
    have s: "st_sets st' ! i = new_set clk (st_sets store ! i) key nsems flags identity"
      using c(1,5) store_wfD(1) [OF assms(1)] by simp
    have "uint (ucast nsems :: u16) = sint nsems"
      using nsems_narrow(1,2) [OF c(3,4)] by (metis of_nat_unat)
    then show ?thesis using that [of i] c(2) s by (simp add: new_set_def)
  qed (use that in auto)
  note I = find_set_SomeD [OF wf' i(1)]
  have "first_index (\<lambda>s. s_active s \<and> s_key s = key) (st_sets st') = Some i"
  proof (rule first_index_unique)
    show "j = i" if "j < length (st_sets st')" "s_active (st_sets st' ! j) \<and> s_key (st_sets st' ! j) = key" for j
      using slots_uniqueD [OF store_wfD(5) [OF wf'] that(1), of i] that(2) I(1,2) i(2) assms(2)
        store_wfD(1) [OF wf'] by simp
  qed (use I i store_wfD(1) [OF wf'] in auto)
  then have "tgc_sem_store_get_as clk' mem' st' key nsems' flags' identity' = (r, st')"
    using assms(2,5-7) n I(4) by (simp add: tgc_sem_store_get_as_def Let_def)
  with i show ?thesis by simp
qed

theorem get_binds_key_witness:
  "tgc_sem_store_get_as None False demo_store 77 2 0 demo_identity = (0x10001, demo_store)"
  using get_binds_key [OF store_wf_create _ demo_get, of 0 2 None False demo_identity] by simp

text \<open>
  A \<^verbatim>\<open>semget\<close> that creates a set returns an identifier that was not live before; the new set has
  exactly the requested number of semaphores, all zero, no undo adjustments and no waiters, belongs to the caller
  with the low nine permission bits of the flags, and no other identifier or adjustment is affected.
\<close>

theorem get_creates_fresh_set:
  assumes "store_wf store"
    and "tgc_sem_store_get_as clk mem store key nsems flags identity = (r, st')" and "0 < sint r"
    and "find_set store r = None"
  shows "sem_value st' x n =
      (if x = r then if n < nat (sint nsems) then Some 0 else None else sem_value store x n) \<and>
    undo_of st' = undo_of store \<and> undo_of st' p r m = 0 \<and>
    tgc_sem_store_get_metadata st' r =
      Inr \<lparr>m_key = key, m_uid = id_uid identity, m_gid = id_gid identity, m_cuid = id_uid identity,
           m_cgid = id_gid identity, m_mode = flags AND 511, m_nsems = nsems, m_otime = 0,
           m_ctime = current_time_seconds clk, m_sequence = ucast (ucast (drop_bit 16 r) :: u16)\<rparr>"
proof -
  have wf': "store_wf st'" using store_wf_get_as [OF assms(1), of clk mem key nsems flags identity] assms(2) by simp
  obtain i where i: "i < 128" "\<not> s_active (st_sets store ! i)" "find_set st' r = Some i"
    "0 < sint nsems" "sint nsems \<le> 512" "r = make_id i (s_generation (new_set clk (st_sets store ! i) key nsems flags identity))"
    and st': "st' = store\<lparr>st_sets := (st_sets store)[i := new_set clk (st_sets store ! i) key nsems flags identity]\<rparr>"
    by (rule find_set_get_as [OF assms(1-3)]) (use assms(4) in auto)
  let ?s = "new_set clk (st_sets store ! i) key nsems flags identity"
  have len: "length (st_sets store) = 128" using assms(1) by (rule store_wfD(1))
  have s: "st_sets st' ! j = (if j = i then ?s else st_sets store ! j)" for j
    using st' i(1) len by (simp add: nth_list_update)
  note nn = nsems_narrow [OF i(4,5)]
  have un: "undo_of st' = undo_of store" by (rule undo_of_cong) (simp add: st')
  have "undo_of store p r m = 0" using undo_of_nonzeroD [OF assms(1), of p r m] assms(4) by auto
  moreover have "find_set st' x = (if x = r then Some i else find_set store x)"
  proof (cases "x = r")
    case False
    have "s_generation ?s \<noteq> g" if "decode_id x = Some (i, g)" for g
      using that False i(6) by (auto simp: decode_id_Some_iff)
    then show ?thesis
      using False i(2) by (auto simp: find_set_def s Let_def split: option.splits)
  qed (simp add: i(3))
  then have "sem_value st' x n =
      (if x = r then if n < nat (sint nsems) then Some 0 else None else sem_value store x n)"
    using find_set_SomeD(2) [OF assms(1), of x i] i(2) nn(1,2)
    by (cases "find_set store x") (auto simp: sem_value_def s new_set_def)
  moreover have "tgc_sem_store_get_metadata st' r =
      Inr \<lparr>m_key = key, m_uid = id_uid identity, m_gid = id_gid identity, m_cuid = id_uid identity,
           m_cgid = id_gid identity, m_mode = flags AND 511, m_nsems = nsems, m_otime = 0,
           m_ctime = current_time_seconds clk, m_sequence = ucast (ucast (drop_bit 16 r) :: u16)\<rparr>"
  proof -
    have d: "decode_id r = Some (i, s_generation ?s)"
      using find_set_SomeD [OF wf' i(3)] s [of i] by (simp add: decode_id_Some_iff set_wf_def i(6) [symmetric])
    then have "ucast (drop_bit 16 r) = s_generation ?s"
      by (simp add: decode_id_def Let_def split: if_splits)
    then show ?thesis using i(3) s [of i] d nn(4) by (simp add: tgc_sem_store_get_metadata_def new_set_def)
  qed
  ultimately show ?thesis using un by simp
qed

theorem get_creates_fresh_set_witness:
  "sem_value demo_store 0x10001 2 = Some 0 \<and> sem_value demo_store 0x10001 3 = None \<and>
   (\<exists>m. tgc_sem_store_get_metadata demo_store 0x10001 = Inr m \<and> m_key m = 77 \<and> m_mode m = 0x180)"
proof -
  have none: "find_set tgc_sem_store_create 0x10001 = None"
    by (simp add: find_set_def decode_id_def tgc_sem_store_create_def empty_set_def Let_def)
  show ?thesis
    using get_creates_fresh_set [OF store_wf_create demo_get _ none, of "0x10001" 2 1 0]
      get_creates_fresh_set [OF store_wf_create demo_get _ none, of "0x10001" 3 1 0]
    by simp
qed

section \<open>Values, metadata and waiter counts\<close>

lemma sem_value_SomeD:
  assumes "sem_value store semid n = Some v"
  obtains i where "find_set store semid = Some i" "n < unat (s_nsems (st_sets store ! i))"
    "v = uint (s_values (st_sets store ! i) ! n)"
  using assms by (auto simp: sem_value_def split: option.splits if_splits)

lemma getval_eq:
  "tgc_sem_store_getval store semid n =
     (case sem_value store semid n of None \<Rightarrow> - EINVAL | Some v \<Rightarrow> word_of_int v)"
  by (auto simp: tgc_sem_store_getval_def sem_value_def Let_def split: option.splits)

text \<open>
  \<^verbatim>\<open>SETVAL\<close> on a live semaphore with a value up to 32767 succeeds; \<^verbatim>\<open>GETVAL\<close> then returns that value and
  \<^verbatim>\<open>GETPID\<close> the caller, every other semaphore keeps its value, and exactly the undo adjustments of that
  semaphore are cleared, for every process.
\<close>

theorem setval_getval:
  assumes "store_wf store" and "sem_value store semid n = Some old" and "unat val \<le> TGC_SEM_MAX_VALUE"
    and "tgc_sem_store_setval clk store semid n val pid = (r, st')"
  shows "r = 0 \<and> tgc_sem_store_getval st' semid n = val \<and> tgc_sem_store_getpid st' semid n = pid \<and>
    sem_value st' x m = (if x = semid \<and> m = n then Some (uint val) else sem_value store x m) \<and>
    undo_of st' p x k = (if x = semid \<and> unat k = n then 0 else undo_of store p x k)"
proof -
  obtain i where i: "find_set store semid = Some i" "n < unat (s_nsems (st_sets store ! i))"
    using assms(2) by (rule sem_value_SomeD)
  note I = find_set_SomeD [OF assms(1) i(1)]
  let ?c = "clear_undo_entries store semid n False"
  let ?s = "(st_sets store ! i)\<lparr>s_values := (s_values (st_sets store ! i))[n := ucast val],
      s_last_pids := (s_last_pids (st_sets store ! i))[n := pid], s_ctime := current_time_seconds clk\<rparr>"
  have eq: "r = 0" "st' = ?c\<lparr>st_sets := (st_sets ?c)[i := ?s]\<rparr>"
    using assms(3,4) i by (auto simp: tgc_sem_store_setval_def Let_def split: if_splits)
  have len: "length (s_values (st_sets store ! i)) = unat (s_nsems (st_sets store ! i))"
      "length (s_last_pids (st_sets store ! i)) = unat (s_nsems (st_sets store ! i))"
      "i < length (st_sets store)"
    using I(1,3) store_wfD(1) [OF assms(1)] by (simp_all add: set_wf_def)
  have v: "uint val \<le> 32767" using assms(3) by (simp add: unat_le_iff_uint)
  then have u: "uint (ucast val :: u16) = uint val" by (intro uint_narrow_u16) simp
  have c: "store_wf ?c" "find_set ?c semid = Some i" "\<And>x m. sem_value ?c x m = sem_value store x m"
    using store_wf_clear_undo [OF assms(1)] i sem_value_cong [of ?c store] by simp_all
  have sv: "sem_value st' x m = (if x = semid \<and> m = n then Some (uint val) else sem_value store x m)" for x m
    unfolding eq(2) using sem_value_update [OF c(1,2), of ?s x m] i len u
    by (auto simp: c(3) nth_update_if sem_value_def [of store])
  have "undo_of st' = undo_of ?c" unfolding eq(2) by (rule undo_of_cong) simp
  moreover have "find_set st' semid = Some i"
    unfolding eq(2) using c(2) by (subst find_set_update) simp_all
  moreover have "word_of_int (uint val) = val" by simp
  ultimately show ?thesis
    using eq sv [of semid n] sv [of x m] i len undo_of_clear [of store semid n False p x k]
    by (auto simp: getval_eq tgc_sem_store_getpid_def Let_def simp del: word_of_int_uint)
qed

theorem setval_getval_witness:
  "tgc_sem_store_getval (snd (tgc_sem_store_setval None demo_store 0x10001 1 500 9)) 0x10001 1 = 500"
  using setval_getval [OF demo_wf, of "0x10001" 1 0 500 None 9 _ _ 0 0 0 0, OF _ _ prod.collapse [symmetric]]
  by (simp add: demo_value)

text \<open>
  \<^verbatim>\<open>SETALL\<close> followed by \<^verbatim>\<open>GETALL\<close> returns the array that was set: with one value per semaphore, each at
  most 32767, the call succeeds, replaces all values of the set and no other value, and clears every undo
  adjustment of the set.
\<close>

theorem setall_getall:
  assumes "store_wf store" and "find_set store semid = Some i"
    and "length vals = unat (s_nsems (st_sets store ! i))" and "\<forall>v \<in> set vals. unat v \<le> TGC_SEM_MAX_VALUE"
    and "tgc_sem_store_setall clk store semid vals pid = (r, st')"
  shows "r = 0 \<and> tgc_sem_store_getall st' semid (length vals) = Inr vals \<and>
    sem_value st' x m =
      (if x = semid then if m < length vals then Some (uint (vals ! m)) else None else sem_value store x m) \<and>
    undo_of st' p x k = (if x = semid then 0 else undo_of store p x k)"
proof -
  note I = find_set_SomeD [OF assms(1,2)]
  let ?c = "clear_undo_entries store semid 0 True"
  let ?s = "(st_sets store ! i)\<lparr>s_values := vals, s_last_pids := replicate (length vals) pid,
      s_ctime := current_time_seconds clk\<rparr>"
  have eq: "r = 0" "st' = ?c\<lparr>st_sets := (st_sets ?c)[i := ?s]\<rparr>"
    using assms by (auto simp: tgc_sem_store_setall_def Let_def not_less split: if_splits)
  have len: "i < length (st_sets store)" using I(1) store_wfD(1) [OF assms(1)] by simp
  have c: "store_wf ?c" "find_set ?c semid = Some i" "\<And>x m. sem_value ?c x m = sem_value store x m"
    using store_wf_clear_undo [OF assms(1)] assms(2) sem_value_cong [of ?c store] by simp_all
  have "sem_value st' x m =
      (if x = semid then if m < length vals then Some (uint (vals ! m)) else None else sem_value store x m)"
    unfolding eq(2) using sem_value_update [OF c(1,2), of ?s x m] assms(3) by (simp add: c(3))
  moreover have "undo_of st' = undo_of ?c" unfolding eq(2) by (rule undo_of_cong) simp
  moreover have "find_set st' semid = Some i"
    unfolding eq(2) using c(2) by (subst find_set_update) simp_all
  ultimately show ?thesis
    using eq len assms(3) undo_of_clear [of store semid 0 True p x k]
    by (simp add: tgc_sem_store_getall_def Let_def)
qed

theorem setall_getall_witness:
  "tgc_sem_store_getall (snd (tgc_sem_store_setall None demo_store 0x10001 [4, 0, 32767] 9)) 0x10001 3 =
     Inr [4, 0, 32767]"
proof -
  have n: "length [4, 0, 32767 :: u16] = 3" by simp
  then have "length [4, 0, 32767 :: u16] = unat (s_nsems (st_sets demo_store ! 0))"
    by (simp only: demo_set_simps) simp
  from setall_getall [OF demo_wf demo_find this _ prod.collapse [symmetric], where clk = None and pid = 9]
  show ?thesis unfolding n by simp
qed

text \<open>
  \<^verbatim>\<open>IPC_SET\<close>: only the owner or the creator may change a set, only the group and the low nine mode bits
  can change, the new group must be the old one or the caller's, and the owner cannot be given away. When
  permitted, the metadata read back is the old metadata with the new group, mode and change time; when
  refused, the store is unchanged.
\<close>

theorem set_metadata_effect:
  assumes "store_wf store" and "tgc_sem_store_get_metadata store semid = Inr old"
    and "tgc_sem_store_set_metadata clk store semid uid gid mode actor = (r, st')"
  shows "if (id_uid actor = m_uid old \<or> id_uid actor = m_cuid old) \<and> uid = m_uid old \<and>
       (gid = m_gid old \<or> gid = id_gid actor) \<and> mode AND NOT 511 = 0
    then r = 0 \<and> tgc_sem_store_get_metadata st' semid =
           Inr (old\<lparr>m_gid := gid, m_mode := mode, m_ctime := current_time_seconds clk\<rparr>) \<and>
         sem_value st' = sem_value store \<and> undo_of st' = undo_of store
    else r = - EPERM \<and> st' = store"
proof -
  obtain i index generation where i: "find_set store semid = Some i"
    and d: "decode_id semid = Some (index, generation)"
    using assms(2) by (auto simp: tgc_sem_store_get_metadata_def split: option.splits prod.splits)
  note I = find_set_SomeD [OF assms(1) i]
  let ?s0 = "st_sets store ! i"
  have old: "old = \<lparr>m_key = s_key ?s0, m_uid = s_uid ?s0, m_gid = s_gid ?s0, m_cuid = s_cuid ?s0,
      m_cgid = s_cgid ?s0, m_mode = s_mode ?s0, m_nsems = ucast (s_nsems ?s0),
      m_otime = s_otime ?s0, m_ctime = s_ctime ?s0, m_sequence = ucast generation\<rparr>"
    using assms(2) i d by (simp add: tgc_sem_store_get_metadata_def Let_def)
  let ?s = "?s0\<lparr>s_gid := gid, s_mode := mode, s_ctime := current_time_seconds clk\<rparr>"
  let ?st = "store\<lparr>st_sets := (st_sets store)[i := ?s]\<rparr>"
  have f: "find_set ?st x = find_set store x" for x by (rule find_set_update) simp_all
  have len: "i < length (st_sets store)" using I(1) store_wfD(1) [OF assms(1)] by simp
  have sv: "sem_value ?st = sem_value store"
    by (intro ext) (use sem_value_update [OF assms(1) i, of ?s] i in \<open>simp add: sem_value_def [of store]\<close>)
  have un: "undo_of ?st = undo_of store" by (rule undo_of_cong) simp
  have md: "tgc_sem_store_get_metadata ?st semid =
      Inr (old\<lparr>m_gid := gid, m_mode := mode, m_ctime := current_time_seconds clk\<rparr>)"
    using i d len by (simp add: tgc_sem_store_get_metadata_def f old Let_def)
  show ?thesis
    using assms(3) i sv un md unfolding tgc_sem_store_set_metadata_def
    by (auto simp: old Let_def split: if_splits)
qed

theorem set_metadata_effect_witness:
  "fst (tgc_sem_store_set_metadata None demo_store 0x10001 1000 1000 0x1B0 demo_identity) = 0 \<and>
   fst (tgc_sem_store_set_metadata None demo_store 0x10001 0 1000 0x1B0 demo_identity) = - EPERM"
proof -
  obtain m where m: "tgc_sem_store_get_metadata demo_store 0x10001 = Inr m"
    and "m_uid m = 1000" "m_cuid m = 1000" "m_gid m = 1000"
    by (simp add: tgc_sem_store_get_metadata_def demo_find decode_id_def demo_set_simps Let_def
        demo_set_def new_set_def demo_identity_def)
  then show ?thesis
    using set_metadata_effect [OF demo_wf m prod.collapse [symmetric], where clk = None and uid = 1000 and gid = 1000 and mode = "0x1B0" and actor = demo_identity]
      set_metadata_effect [OF demo_wf m prod.collapse [symmetric], where clk = None and uid = 0 and gid = 1000 and mode = "0x1B0" and actor = demo_identity]
    by (simp add: demo_identity_def)
qed

text \<open>
  Waiter counts: on a live semaphore whose count is below the unsigned maximum, counting one waiter up and
  then down again succeeds both times and restores the store exactly; in between \<^verbatim>\<open>GETNCNT\<close>/\<^verbatim>\<open>GETZCNT\<close> is one
  higher (saturating at the largest \<^verbatim>\<open>int\<close>) and the other kind of count is untouched.
\<close>

theorem wait_count_up_down:
  assumes "store_wf store" and "sem_value store semid n = Some v"
    and "tgc_sem_store_get_wait_count store semid n zero = c" and "unat c < 0x7fffffff"
    and "tgc_sem_store_adjust_wait_count store semid n zero 1 = (r, st')"
  shows "r = 0 \<and> tgc_sem_store_get_wait_count st' semid n zero = c + 1 \<and>
    tgc_sem_store_get_wait_count st' semid n (\<not> zero) = tgc_sem_store_get_wait_count store semid n (\<not> zero) \<and>
    tgc_sem_store_adjust_wait_count st' semid n zero (- 1) = (0, store)"
proof -
  obtain i where i: "find_set store semid = Some i" "n < unat (s_nsems (st_sets store ! i))"
    using assms(2) by (rule sem_value_SomeD)
  note I = find_set_SomeD [OF assms(1) i(1)]
  let ?s0 = "st_sets store ! i"
  have len: "i < length (st_sets store)" "length (s_zero_waiters ?s0) = unat (s_nsems ?s0)"
    "length (s_negative_waiters ?s0) = unat (s_nsems ?s0)"
    using I(1,3) store_wfD(1) [OF assms(1)] by (simp_all add: set_wf_def)
  let ?c = "if zero then s_zero_waiters ?s0 ! n else s_negative_waiters ?s0 ! n"
  have c: "?c = c" using assms(3,4) i by (auto simp: tgc_sem_store_get_wait_count_def Let_def split: if_splits)
  have small: "c + 1 \<noteq> 0" "c + 1 - 1 = c" "\<not> 0x7fffffff < c + 1" "c \<noteq> 0xffffffff"
    using assms(4) by (auto simp: word_less_nat_alt word_unat_eq_iff unat_word_ariths)
  let ?s = "if zero then ?s0\<lparr>s_zero_waiters := (s_zero_waiters ?s0)[n := c + 1]\<rparr>
    else ?s0\<lparr>s_negative_waiters := (s_negative_waiters ?s0)[n := c + 1]\<rparr>"
  have eq: "r = 0" "st' = store\<lparr>st_sets := (st_sets store)[i := ?s]\<rparr>"
    using assms(5) i c small(4) by (auto simp: tgc_sem_store_adjust_wait_count_def Let_def split: if_splits)
  have f: "find_set st' semid = Some i" unfolding eq using i by (subst find_set_update) simp_all
  have nth: "st_sets st' ! i = ?s" using eq len by simp
  have down: "tgc_sem_store_adjust_wait_count st' semid n zero (- 1) = (0, store)"
    using f nth i len c small eq
    by (cases zero) (auto simp: tgc_sem_store_adjust_wait_count_def Let_def)
  show ?thesis
    using eq(1) down f nth i len c small
    by (cases zero) (auto simp: tgc_sem_store_get_wait_count_def Let_def)
qed

theorem wait_count_up_down_witness:
  "tgc_sem_store_get_wait_count (snd (tgc_sem_store_adjust_wait_count demo_store 0x10001 2 True 1))
     0x10001 2 True = 1 \<and>
   snd (tgc_sem_store_adjust_wait_count (snd (tgc_sem_store_adjust_wait_count demo_store 0x10001 2 True 1))
     0x10001 2 True (- 1)) = demo_store"
proof -
  have "sem_value demo_store 0x10001 2 = Some 0" by (simp add: demo_value)
  moreover have "tgc_sem_store_get_wait_count demo_store 0x10001 2 True = 0"
    by (simp add: tgc_sem_store_get_wait_count_def demo_find demo_set_simps demo_set_def new_set_def Let_def)
  ultimately show ?thesis
    using wait_count_up_down [OF demo_wf, of "0x10001" 2 0 True 0, OF _ _ _ prod.collapse [symmetric]] by simp
qed

lemma info_scan_counts:
  "snd (info_scan i ss (h, a, t)) =
     (a + of_nat (length (filter s_active ss)),
      t + of_nat (\<Sum>s \<leftarrow> filter s_active ss. unat (s_nsems s)))"
  by (induction ss arbitrary: i h a t) (simp_all add: algebra_simps)

lemma info_scan_highest:
  "if \<exists>s \<in> set ss. s_active s
   then \<exists>j < length ss. s_active (ss ! j) \<and> fst (info_scan i ss (h, a, t)) = of_nat (i + j) \<and>
          (\<forall>k < length ss. s_active (ss ! k) \<longrightarrow> k \<le> j)
   else fst (info_scan i ss (h, a, t)) = h"
proof (induction ss arbitrary: i h a t)
  case (Cons s ss)
  have scan: "info_scan i (s # ss) (h, a, t) = info_scan (Suc i) ss
      (if s_active s then (of_nat i, a + 1, t + ucast (s_nsems s)) else (h, a, t))"
    by simp
  show ?case
  proof (cases "\<exists>s \<in> set ss. s_active s")
    case True
    then obtain j where "j < length ss" "s_active (ss ! j)"
      "fst (info_scan i (s # ss) (h, a, t)) = of_nat (Suc i + j)"
      "\<forall>k < length ss. s_active (ss ! k) \<longrightarrow> k \<le> j"
      unfolding scan
      using Cons.IH [of "Suc i" "of_nat i" "a + 1" "t + ucast (s_nsems s)"] Cons.IH [of "Suc i" h a t]
      by (cases "s_active s") auto
    then show ?thesis using True by (auto simp: All_less_Suc2 simp del: info_scan.simps intro!: exI [of _ "Suc j"])
  next
    case False
    then show ?thesis
      unfolding scan
      using Cons.IH [of "Suc i" "of_nat i" "a + 1" "t + ucast (s_nsems s)"] Cons.IH [of "Suc i" h a t]
      by (cases "s_active s") (auto simp: All_less_Suc2 simp del: info_scan.simps intro!: exI [of _ 0])
  qed
qed simp

text \<open>
  \<^verbatim>\<open>SEM_INFO\<close> is exact: on a well-formed store it reports the number of active sets and the total number
  of their semaphores without overflow, and returns the highest active index (0 when there is none).
\<close>

theorem info_is_exact:
  assumes "store_wf store" and "tgc_sem_store_info store True = (h, info)"
  shows "unat (semusz info) = length (filter s_active (st_sets store)) \<and>
    unat (semaem info) = (\<Sum>s \<leftarrow> filter s_active (st_sets store). unat (s_nsems s)) \<and>
    (\<forall>i < length (st_sets store). s_active (st_sets store ! i) \<longrightarrow> i \<le> unat h) \<and>
    (if \<exists>s \<in> set (st_sets store). s_active s then s_active (st_sets store ! unat h) else h = 0)"
proof -
  let ?ss = "st_sets store"
  let ?f = "filter s_active ?ss"
  have len: "length ?ss = 128" using assms(1) by (rule store_wfD)
  have "length ?f \<le> 128" using length_filter_le [of s_active ?ss] len by simp
  moreover have "(\<Sum>s \<leftarrow> ?f. unat (s_nsems s)) \<le> (\<Sum>s \<leftarrow> ?f. 512)"
    by (rule sum_list_mono) (use assms(1) in \<open>auto simp: store_wf_def set_wf_def\<close>)
  ultimately have b: "length ?f \<le> 128" "(\<Sum>s \<leftarrow> ?f. unat (s_nsems s)) \<le> 65536"
    by (simp_all add: sum_list_triv)
  have info: "semusz info = of_nat (length ?f)" "semaem info = of_nat (\<Sum>s \<leftarrow> ?f. unat (s_nsems s))"
    and h: "h = fst (info_scan 0 ?ss (0, 0, 0))"
    using assms(2) info_scan_counts [of 0 ?ss 0 0 0]
    by (auto simp: tgc_sem_store_info_def split: prod.splits)
  have "(\<forall>i < length ?ss. s_active (?ss ! i) \<longrightarrow> i \<le> unat h) \<and>
      (if \<exists>s \<in> set ?ss. s_active s then s_active (?ss ! unat h) else h = 0)"
  proof (cases "\<exists>s \<in> set ?ss. s_active s")
    case True
    then obtain j where j: "j < 128" "s_active (?ss ! j)" "h = of_nat j"
      "\<forall>k < 128. s_active (?ss ! k) \<longrightarrow> k \<le> j"
      using info_scan_highest [of ?ss 0 0 0 0] len by (auto simp: h)
    then have "unat h = j" by (simp add: unat_of_nat take_bit_nat_eq_self)
    then show ?thesis using True j len by simp
  next
    case False
    then show ?thesis using info_scan_highest [of ?ss 0 0 0 0] by (auto simp: h)
  qed
  moreover have "unat (semusz info) = length ?f"
    using b(1) unfolding info(1) by (simp add: unat_of_nat take_bit_nat_eq_self)
  moreover have "unat (semaem info) = (\<Sum>s \<leftarrow> ?f. unat (s_nsems s))"
    using b(2) unfolding info(2) by (subst unat_of_nat) (simp add: take_bit_nat_eq_self)
  ultimately show ?thesis by blast
qed

theorem info_is_exact_witness:
  "unat (semusz (snd (tgc_sem_store_info demo_store True))) = 1 \<and>
   unat (semaem (snd (tgc_sem_store_info demo_store True))) = 3"
proof -
  have "replicate 128 empty_set = empty_set # replicate 127 empty_set"
    using replicate_Suc [of 127 empty_set] by simp
  then have "(replicate 128 empty_set)[0 := demo_set] = demo_set # replicate 127 empty_set" by simp
  then have "filter s_active (st_sets demo_store) = [demo_set]"
    by (simp add: demo_store_eq empty_set_def) (simp add: demo_set_def new_set_def)
  then show ?thesis
    using info_is_exact [OF demo_wf prod.collapse [symmetric]] by (simp add: demo_set_simps)
qed

section \<open>Blocking\<close>

lemma spec_ops_blockedD:
  assumes "spec_ops vs ops = Spec_Blocked operation"
  obtains k vs' where "k < length ops" "operation = ops ! k" "spec_ops vs (take k ops) = Spec_Done vs'"
    "if sem_op operation = 0 then vs' ! unat (sem_num operation) \<noteq> 0
     else vs' ! unat (sem_num operation) + sint (sem_op operation) < 0 "
  using assms
proof (induction ops arbitrary: vs thesis)
  case (Cons op ops)
  let ?n = "unat (sem_num op)"
  let ?v = "vs ! ?n + sint (sem_op op)"
  show ?case
  proof (cases "sem_op op = 0 \<and> ?v \<noteq> 0 \<or> ?v < 0")
    case True
    then have "operation = op" using Cons.prems(2) by (simp add: Let_def)
    then show ?thesis using True by (intro Cons.prems(1) [of 0 vs]) auto
  next
    case False
    then have le: "?v \<le> 32767" and rec: "spec_ops (vs[?n := ?v]) ops = Spec_Blocked operation"
      using Cons.prems(2) by (auto simp: Let_def split: if_splits)
    from rec obtain k vs' where k: "k < length ops" "operation = ops ! k"
      "spec_ops (vs[?n := ?v]) (take k ops) = Spec_Done vs'"
      "if sem_op operation = 0 then vs' ! unat (sem_num operation) \<noteq> 0
       else vs' ! unat (sem_num operation) + sint (sem_op operation) < 0"
      using Cons.IH by blast
    have "spec_ops vs (take (Suc k) (op # ops)) = Spec_Done vs'"
      using False le k(3) by (auto simp: Let_def)
    then show ?thesis using k by (intro Cons.prems(1) [of "Suc k" vs']) auto
  qed
qed simp

text \<open>
  When a call reports a wait reason, the reason names the first operation that cannot proceed: all
  operations before it can be applied, and with their effect its semaphore is non-zero (for a wait-for-zero) or too
  small (for a decrement). The result is then \<^verbatim>\<open>-EAGAIN\<close> if that operation asked not to wait and the
  internal "blocked" code otherwise.
\<close>

theorem wait_reason_is_first_blocker:
  assumes "store_wf store" and "find_set store semid = Some i"
    and "tgc_sem_store_tryop_detail clk store semid ops pid = (r, st', Some reason)"
  shows "\<exists>k vs'. k < length ops \<and> reason = wait_reason_of (ops ! k) \<and>
    spec_ops (map uint (s_values (st_sets store ! i))) (take k ops) = Spec_Done vs' \<and>
    (if wr_wait_for_zero reason = 1 then vs' ! unat (wr_sem_num reason) \<noteq> 0
     else vs' ! unat (wr_sem_num reason) + sint (sem_op (ops ! k)) < 0) \<and>
    r = (if sem_flg (ops ! k) AND TGC_IPC_NOWAIT \<noteq> 0 then - EAGAIN else TGC_SEM_OP_BLOCKED)"
proof -
  let ?s = "st_sets store ! i"
  note I = find_set_SomeD [OF assms(1,2)]
  from assms(2,3) obtain operation where
    valid: "\<forall>operation \<in> set ops. \<not> op_is_invalid (s_nsems ?s) operation"
    and run: "run_ops (s_values ?s) ops = Work_Blocked operation"
    and r: "r = (if sem_flg operation AND TGC_IPC_NOWAIT \<noteq> 0 then - EAGAIN else TGC_SEM_OP_BLOCKED)"
    and reason: "reason = wait_reason_of operation"
    unfolding tgc_sem_store_tryop_detail_def
    by (auto simp: Let_def split: if_splits work.splits option.splits prod.splits)
  have "spec_ops (map uint (s_values ?s)) ops = Spec_Blocked operation"
    using run_ops_refines [of "s_values ?s" ops] op_valid_num valid I(3) run by (simp add: set_wf_def)
  then show ?thesis
  proof (rule spec_ops_blockedD)
    fix k vs'
    assume "k < length ops" "operation = ops ! k"
      "spec_ops (map uint (s_values ?s)) (take k ops) = Spec_Done vs'"
      "if sem_op operation = 0 then vs' ! unat (sem_num operation) \<noteq> 0
       else vs' ! unat (sem_num operation) + sint (sem_op operation) < 0"
    then show ?thesis
      using r reason by (intro exI [of _ k] exI [of _ vs']) (simp add: wait_reason_of_def split: if_splits)
  qed
qed

theorem wait_reason_is_first_blocker_witness:
  "\<exists>k vs'. k < 2 \<and> spec_ops (replicate 3 0)
     (take k [\<lparr>sem_num = 1, sem_op = 5, sem_flg = 0\<rparr>, \<lparr>sem_num = 0, sem_op = - 1, sem_flg = 0\<rparr>]) =
       Spec_Done vs'"
proof -
  let ?ops = "[\<lparr>sem_num = 1, sem_op = 5, sem_flg = 0\<rparr>, \<lparr>sem_num = 0, sem_op = - 1, sem_flg = 0\<rparr>]"
  have "tgc_sem_store_tryop_detail None demo_store 0x10001 ?ops 42 =
      (1, demo_store, Some \<lparr>wr_sem_num = 0, wr_wait_for_zero = 0\<rparr>)"
    by (simp add: tgc_sem_store_tryop_detail_def demo_find demo_set_simps op_is_invalid_def
        wait_reason_of_def Let_def word_le_nat_alt)
  from wait_reason_is_first_blocker [OF demo_wf demo_find this] show ?thesis
    by (auto simp only: demo_set_simps map_replicate unsigned_0 list.size)
      (auto simp: numeral_2_eq_2)
qed

end
