(* ===== verification/Tgc_Dispatch.thy ===== *)
theory Tgc_Dispatch
  imports Tgc_Wire Tgc_Sem_Props
begin

text \<open>
  The request dispatcher of \<^verbatim>\<open>src/reference-termux-glibc-compat/src/broker_dispatch.c\<close>: it decodes the
  payload of a request, calls the store and encodes the response. The response buffer is an argument,
  as in the source: \<^verbatim>\<open>prepare_response\<close> resets its header and the handlers write into its payload.
  \<open>clk\<close>, \<open>mem\<close> are the environment of the store operations.
\<close>

section \<open>Constants and data\<close>

definition SEMGET_SIZE :: u32 where [simp]: "SEMGET_SIZE = 12"
definition SEMID_SIZE :: u32 where [simp]: "SEMID_SIZE = 4"
definition SEMNUM_SIZE :: u32 where [simp]: "SEMNUM_SIZE = 8"
definition SETVAL_SIZE :: u32 where [simp]: "SETVAL_SIZE = 12"
definition ARRAY_PREFIX_SIZE :: u32 where [simp]: "ARRAY_PREFIX_SIZE = 8"
definition OP_SIZE :: u32 where [simp]: "OP_SIZE = 8"
definition TIMED_OP_PREFIX_SIZE :: u32 where [simp]: "TIMED_OP_PREFIX_SIZE = 16"
definition METADATA_SIZE :: u32 where [simp]: "METADATA_SIZE = 56"
definition SETMETA_SIZE :: u32 where [simp]: "SETMETA_SIZE = 16"

record tgc_broker_actor =
  ac_pid :: s32
  ac_identity :: tgc_sem_identity

abbreviation payload_length :: "tgc_protocol_packet \<Rightarrow> u32" where
  "payload_length p \<equiv> h_payload_length (pk_header p)"

abbreviation opcode :: "tgc_protocol_packet \<Rightarrow> u16" where
  "opcode p \<equiv> h_opcode (pk_header p)"

text \<open>Writing the payload of the response together with its length field.\<close>

definition respond :: "tgc_protocol_packet \<Rightarrow> u8 list \<Rightarrow> u32 \<Rightarrow> tgc_protocol_packet" where
  "respond response payload n =
     response\<lparr>pk_payload := payload, pk_header := (pk_header response)\<lparr>h_payload_length := n\<rparr>\<rparr>"

section \<open>Handlers\<close>

definition prepare_response :: "tgc_protocol_packet \<Rightarrow> tgc_protocol_packet \<Rightarrow> tgc_protocol_packet" where
  "prepare_response request response =
     response\<lparr>pk_header :=
       \<lparr>h_version = TGC_PROTOCOL_VERSION, h_kind = TGC_PROTOCOL_RESPONSE,
        h_opcode = opcode request, h_request_id = h_request_id (pk_header request),
        h_payload_length = 0, h_result = 0\<rparr>\<rparr>"

definition dispatch_semget ::
  "s64 option \<Rightarrow> bool \<Rightarrow> tgc_sem_store \<Rightarrow> tgc_protocol_packet \<Rightarrow> tgc_sem_identity \<Rightarrow>
   s32 \<times> tgc_sem_store" where
  "dispatch_semget clk mem store request identity =
     (if payload_length request \<noteq> SEMGET_SIZE then (- EMSGSIZE, store)
      else
        let key = tgc_wire_get_i32 (pk_payload request) 0;
            nsems = tgc_wire_get_i32 (pk_payload request) 4;
            flags = tgc_wire_get_u32 (pk_payload request) 8
        in if flags AND NOT (TGC_IPC_CREAT OR TGC_IPC_EXCL OR 511) \<noteq> 0 then (- EINVAL, store)
           else tgc_sem_store_get_as clk mem store key nsems flags identity)"

definition dispatch_semnum :: "tgc_sem_store \<Rightarrow> tgc_protocol_packet \<Rightarrow> u16 \<Rightarrow> s32" where
  "dispatch_semnum store request opc =
     (if payload_length request \<noteq> SEMNUM_SIZE then - EMSGSIZE
      else
        let semid = tgc_wire_get_i32 (pk_payload request) 0;
            semnum = unat (tgc_wire_get_u32 (pk_payload request) 4)
        in if opc = TGC_OPCODE_GETVAL then tgc_sem_store_getval store semid semnum
           else if opc = TGC_OPCODE_GETPID then tgc_sem_store_getpid store semid semnum
           else tgc_sem_store_get_wait_count store semid semnum (opc = TGC_OPCODE_GETZCNT))"

definition dispatch_setval ::
  "s64 option \<Rightarrow> tgc_sem_store \<Rightarrow> tgc_protocol_packet \<Rightarrow> s32 \<Rightarrow> s32 \<times> tgc_sem_store" where
  "dispatch_setval clk store request actor_pid =
     (if payload_length request \<noteq> SETVAL_SIZE then (- EMSGSIZE, store)
      else
        let semid = tgc_wire_get_i32 (pk_payload request) 0;
            semnum = unat (tgc_wire_get_u32 (pk_payload request) 4);
            val = tgc_wire_get_u32 (pk_payload request) 8
        in tgc_sem_store_setval clk store semid semnum val actor_pid)"

definition dispatch_getall ::
  "tgc_sem_store \<Rightarrow> tgc_protocol_packet \<Rightarrow> tgc_protocol_packet \<Rightarrow> s32 \<times> tgc_protocol_packet" where
  "dispatch_getall store request response =
     (if payload_length request \<noteq> SEMNUM_SIZE then (- EMSGSIZE, response)
      else
        let semid = tgc_wire_get_i32 (pk_payload request) 0;
            count = tgc_wire_get_u32 (pk_payload request) 4
        in if count = 0 \<or> unat count > TGC_SEM_MAX_PER_SET then (- EINVAL, response)
           else
             case tgc_sem_store_getall store semid (unat count) of
               Inl r \<Rightarrow> (r, response)
             | Inr vals \<Rightarrow>
                 let payload = tgc_wire_put_u32 (pk_payload response) 0 count;
                     payload = put_array tgc_wire_put_u16 2 payload 4 vals
                 in (0, respond response payload (4 + count * 2)))"

definition dispatch_setall ::
  "s64 option \<Rightarrow> tgc_sem_store \<Rightarrow> tgc_protocol_packet \<Rightarrow> s32 \<Rightarrow> s32 \<times> tgc_sem_store" where
  "dispatch_setall clk store request actor_pid =
     (if payload_length request < ARRAY_PREFIX_SIZE then (- EMSGSIZE, store)
      else
        let semid = tgc_wire_get_i32 (pk_payload request) 0;
            count = tgc_wire_get_u32 (pk_payload request) 4
        in if count = 0 \<or> unat count > TGC_SEM_MAX_PER_SET \<or>
              payload_length request \<noteq> ARRAY_PREFIX_SIZE + count * 2
           then (- EMSGSIZE, store)
           else
             let vals = get_array tgc_wire_get_u16 2 (pk_payload request) 8 (unat count)
             in tgc_sem_store_setall clk store semid vals actor_pid)"

text \<open>One operation on the wire: number, operation, flags and a reserved half-word that must be zero.\<close>

definition get_op :: "u8 list \<Rightarrow> nat \<Rightarrow> tgc_sem_op" where
  "get_op inp p =
     \<lparr>sem_num = tgc_wire_get_u16 inp p,
      sem_op = tgc_wire_get_i16 inp (p + 2),
      sem_flg = tgc_wire_get_u16 inp (p + 4)\<rparr>"

fun decode_operations :: "u8 list \<Rightarrow> nat \<Rightarrow> nat \<Rightarrow> tgc_sem_op list option" where
  "decode_operations inp p 0 = Some []"
| "decode_operations inp p (Suc n) =
     (if tgc_wire_get_u16 inp (p + 6) \<noteq> 0 then None
      else
        case decode_operations inp (p + unat OP_SIZE) n of
          None \<Rightarrow> None
        | Some ops \<Rightarrow> Some (get_op inp p # ops))"

definition dispatch_semop ::
  "s64 option \<Rightarrow> tgc_sem_store \<Rightarrow> tgc_protocol_packet \<Rightarrow> s32 \<Rightarrow> tgc_protocol_packet \<Rightarrow>
   s32 \<times> tgc_sem_store \<times> tgc_protocol_packet" where
  "dispatch_semop clk store request actor_pid response =
     (let prefix_size = (if opcode request = TGC_OPCODE_SEMTIMEDOP then TIMED_OP_PREFIX_SIZE
                         else ARRAY_PREFIX_SIZE) in
      if payload_length request < prefix_size then (- EMSGSIZE, store, response)
      else
        let semid = tgc_wire_get_i32 (pk_payload request) 0;
            count = tgc_wire_get_u32 (pk_payload request) 4
        in if count = 0 \<or> unat count > TGC_SEM_MAX_PER_SET \<or>
              payload_length request \<noteq> prefix_size + count * OP_SIZE
           then (- EMSGSIZE, store, response)
           else if opcode request = TGC_OPCODE_SEMTIMEDOP \<and> sint (tgc_wire_get_i64 (pk_payload request) 8) < 0
           then (- EINVAL, store, response)
           else
             case decode_operations (pk_payload request) (unat prefix_size) (unat count) of
               None \<Rightarrow> (- EPROTO, store, response)
             | Some operations \<Rightarrow>
                 let (r, store, reason) = tgc_sem_store_tryop_detail clk store semid operations actor_pid;
                     reason = (case reason of Some w \<Rightarrow> w | None \<Rightarrow> \<lparr>wr_sem_num = 0, wr_wait_for_zero = 0\<rparr>)
                 in if r = TGC_SEM_OP_BLOCKED then
                      let payload = tgc_wire_put_u16 (pk_payload response) 0 (wr_sem_num reason);
                          payload = tgc_wire_put_u16 payload 2 (wr_wait_for_zero reason);
                          payload = tgc_wire_put_u32 payload 4 0
                      in (r, store, respond response payload 8)
                    else (r, store, response))"

definition encode_metadata :: "tgc_protocol_packet \<Rightarrow> tgc_sem_metadata \<Rightarrow> tgc_protocol_packet" where
  "encode_metadata response metadata =
     (let p = pk_payload response;
          p = tgc_wire_put_i32 p 0 (m_key metadata);
          p = tgc_wire_put_u32 p 4 (m_uid metadata);
          p = tgc_wire_put_u32 p 8 (m_gid metadata);
          p = tgc_wire_put_u32 p 12 (m_cuid metadata);
          p = tgc_wire_put_u32 p 16 (m_cgid metadata);
          p = tgc_wire_put_u32 p 20 (m_mode metadata);
          p = tgc_wire_put_u32 p 24 (m_nsems metadata);
          p = tgc_wire_put_u32 p 28 0;
          p = tgc_wire_put_i64 p 32 (m_otime metadata);
          p = tgc_wire_put_i64 p 40 (m_ctime metadata);
          p = tgc_wire_put_u32 p 48 (m_sequence metadata);
          p = tgc_wire_put_u32 p 52 0
      in respond response p METADATA_SIZE)"

definition dispatch_stat ::
  "tgc_sem_store \<Rightarrow> tgc_protocol_packet \<Rightarrow> tgc_protocol_packet \<Rightarrow> s32 \<times> tgc_protocol_packet" where
  "dispatch_stat store request response =
     (if payload_length request \<noteq> SEMID_SIZE then (- EMSGSIZE, response)
      else
        case tgc_sem_store_get_metadata store (tgc_wire_get_i32 (pk_payload request) 0) of
          Inl r \<Rightarrow> (r, response)
        | Inr metadata \<Rightarrow> (0, encode_metadata response metadata))"

definition dispatch_stat_index ::
  "tgc_sem_store \<Rightarrow> tgc_protocol_packet \<Rightarrow> tgc_protocol_packet \<Rightarrow> s32 \<times> tgc_protocol_packet" where
  "dispatch_stat_index store request response =
     (if payload_length request \<noteq> SEMID_SIZE then (- EMSGSIZE, response)
      else
        case tgc_sem_store_stat_index store (unat (tgc_wire_get_u32 (pk_payload request) 0)) of
          Inl r \<Rightarrow> (r, response)
        | Inr (r, metadata) \<Rightarrow>
            if negative r then (r, response) else (r, encode_metadata response metadata))"

definition dispatch_setmeta ::
  "s64 option \<Rightarrow> tgc_sem_store \<Rightarrow> tgc_protocol_packet \<Rightarrow> tgc_sem_identity \<Rightarrow> s32 \<times> tgc_sem_store" where
  "dispatch_setmeta clk store request actor =
     (if payload_length request \<noteq> SETMETA_SIZE then (- EMSGSIZE, store)
      else tgc_sem_store_set_metadata clk store
        (tgc_wire_get_i32 (pk_payload request) 0)
        (tgc_wire_get_u32 (pk_payload request) 4)
        (tgc_wire_get_u32 (pk_payload request) 8)
        (tgc_wire_get_u32 (pk_payload request) 12) actor)"

definition dispatch_info ::
  "tgc_sem_store \<Rightarrow> tgc_protocol_packet \<Rightarrow> tgc_protocol_packet \<Rightarrow> s32 \<times> tgc_protocol_packet" where
  "dispatch_info store request response =
     (if payload_length request \<noteq> 4 then (- EMSGSIZE, response)
      else
        let dynamic = tgc_wire_get_u32 (pk_payload request) 0 in
        if dynamic > 1 then (- EINVAL, response)
        else
          let (r, info) = tgc_sem_store_info store (dynamic \<noteq> 0) in
          if negative r then (r, response)
          else
            let fields = [semmap info, semmni info, semmns info, semmnu info, semmsl info,
                          semopm info, semume info, semusz info, semvmx info, semaem info];
                payload = put_array tgc_wire_put_i32 4 (pk_payload response) 0 fields
            in (r, respond response payload 40))"

section \<open>The dispatcher\<close>

definition dispatch_opcode ::
  "s64 option \<Rightarrow> bool \<Rightarrow> tgc_sem_store \<Rightarrow> tgc_protocol_packet \<Rightarrow> tgc_broker_actor \<Rightarrow> tgc_protocol_packet \<Rightarrow>
   s32 \<times> tgc_sem_store \<times> tgc_protocol_packet" where
  "dispatch_opcode clk mem store request actor response =
     (let opc = opcode request in
      if opc = TGC_OPCODE_PING then
        (if payload_length request = 0 then 0 else - EMSGSIZE, store, response)
      else if opc = TGC_OPCODE_SEMGET then
        let (r, store) = dispatch_semget clk mem store request (ac_identity actor) in (r, store, response)
      else if opc = TGC_OPCODE_REMOVE then
        (if payload_length request = SEMID_SIZE
         then let (r, store) = tgc_sem_store_remove store (tgc_wire_get_i32 (pk_payload request) 0)
              in (r, store, response)
         else (- EMSGSIZE, store, response))
      else if opc = TGC_OPCODE_GETVAL \<or> opc = TGC_OPCODE_GETPID \<or> opc = TGC_OPCODE_GETNCNT \<or>
              opc = TGC_OPCODE_GETZCNT then
        (dispatch_semnum store request opc, store, response)
      else if opc = TGC_OPCODE_SETVAL then
        let (r, store) = dispatch_setval clk store request (ac_pid actor) in (r, store, response)
      else if opc = TGC_OPCODE_GETALL then
        let (r, response) = dispatch_getall store request response in (r, store, response)
      else if opc = TGC_OPCODE_SETALL then
        let (r, store) = dispatch_setall clk store request (ac_pid actor) in (r, store, response)
      else if opc = TGC_OPCODE_SEMOP \<or> opc = TGC_OPCODE_SEMTIMEDOP then
        dispatch_semop clk store request (ac_pid actor) response
      else if opc = TGC_OPCODE_STAT then
        let (r, response) = dispatch_stat store request response in (r, store, response)
      else if opc = TGC_OPCODE_STAT_INDEX then
        let (r, response) = dispatch_stat_index store request response in (r, store, response)
      else if opc = TGC_OPCODE_SETMETA then
        let (r, store) = dispatch_setmeta clk store request (ac_identity actor) in (r, store, response)
      else if opc = TGC_OPCODE_INFO then
        let (r, response) = dispatch_info store request response in (r, store, response)
      else (- ENOSYS, store, response))"

text \<open>The final lines of the dispatcher: the result goes into the header, an error has no payload.\<close>

definition finish_response :: "s32 \<Rightarrow> tgc_protocol_packet \<Rightarrow> tgc_protocol_packet" where
  "finish_response r response =
     (let response = response\<lparr>pk_header := (pk_header response)\<lparr>h_result := r\<rparr>\<rparr> in
      if negative r then response\<lparr>pk_header := (pk_header response)\<lparr>h_payload_length := 0\<rparr>\<rparr>
      else response)"

text \<open>\<open>Inl\<close> is a negative return (nothing was written); \<open>Inr\<close> is the return value 0.\<close>

definition tgc_broker_dispatch ::
  "s64 option \<Rightarrow> bool \<Rightarrow> tgc_sem_store \<Rightarrow> tgc_protocol_packet \<Rightarrow> tgc_broker_actor \<Rightarrow> tgc_protocol_packet \<Rightarrow>
   s32 + tgc_sem_store \<times> tgc_protocol_packet" where
  "tgc_broker_dispatch clk mem store request actor response =
     (if sint (ac_pid actor) \<le> 0 then Inl (- EINVAL)
      else if h_version (pk_header request) \<noteq> TGC_PROTOCOL_VERSION \<or>
              h_kind (pk_header request) \<noteq> TGC_PROTOCOL_REQUEST \<or>
              h_result (pk_header request) \<noteq> 0 \<or>
              payload_length request > TGC_PROTOCOL_MAX_PAYLOAD
      then Inl (- EPROTO)
      else
        let response = prepare_response request response;
            (r, store, response) = dispatch_opcode clk mem store request actor response
        in Inr (store, finish_response r response))"

section \<open>What every handler keeps\<close>

text \<open>
  The contract every handler meets: the store stays well formed, a negative result means the store is
  untouched, and the response keeps its version, kind, opcode, request number and buffer size, with a
  payload length that fits.
\<close>

definition handler_ok ::
  "tgc_sem_store \<Rightarrow> tgc_protocol_packet \<Rightarrow> s32 \<times> tgc_sem_store \<times> tgc_protocol_packet \<Rightarrow> bool" where
  "handler_ok store response out \<longleftrightarrow>
     (case out of (r, store', response') \<Rightarrow>
        store_wf store' \<and> (negative r \<longrightarrow> store' = store) \<and>
        length (pk_payload response') = length (pk_payload response) \<and>
        unat (payload_length response') \<le> 8192 \<and>
        (pk_header response')\<lparr>h_payload_length := 0\<rparr> = (pk_header response)\<lparr>h_payload_length := 0\<rparr>)"

lemma handler_okI:
  assumes "store_wf store'" and "negative r \<Longrightarrow> store' = store" and "payload_length response = 0"
  shows "handler_ok store response (r, store', response)"
  using assms by (simp add: handler_ok_def)

lemma handler_ok_respond:
  assumes "store_wf store'" and "negative r \<Longrightarrow> store' = store"
    and "length payload = length (pk_payload response)" and "unat n \<le> 8192"
  shows "handler_ok store response (r, store', respond response payload n)"
  using assms by (simp add: handler_ok_def respond_def)

lemma length_put_array_wire [simp]:
  "length (put_array tgc_wire_put_u16 2 b p vs) = length b"
  "length (put_array tgc_wire_put_i32 4 b p ws) = length b"
  using u16.length_put_array u32.length_put_array by (simp_all add: tgc_wire_put_i32_def [abs_def])

lemma put_signed_length [simp]:
  "length (tgc_wire_put_i16 b p v) = length b" "length (tgc_wire_put_i32 b p w) = length b"
  "length (tgc_wire_put_i64 b p x) = length b"
  by (simp_all add: wire_signed)

lemma handler_semget:
  assumes wf: "store_wf store" and p: "payload_length response = 0"
  shows "handler_ok store response
    (let (r, st) = dispatch_semget clk mem store request identity in (r, st, response))"
proof -
  have "negative (fst (tgc_sem_store_get_as clk mem store key nsems flags identity)) \<longrightarrow>
      snd (tgc_sem_store_get_as clk mem store key nsems flags identity) = store" for key nsems flags
    using get_as_failed [OF wf prod.collapse [symmetric], of clk mem key nsems flags identity] by simp
  then show ?thesis
    unfolding dispatch_semget_def Let_def case_prod_beta
    using wf p store_wf_get_as [OF wf] by (auto intro!: handler_okI)
qed

lemma handler_remove:
  assumes "store_wf store" and "payload_length response = 0"
  shows "handler_ok store response (let (r, st) = tgc_sem_store_remove store semid in (r, st, response))"
  unfolding case_prod_beta Let_def
  by (rule handler_okI) (use assms store_wf_remove in
      \<open>auto simp: tgc_sem_store_remove_def Let_def split: option.splits\<close>)

lemma handler_setval:
  assumes "store_wf store" and "payload_length response = 0"
  shows "handler_ok store response
    (let (r, st) = dispatch_setval clk store request pid in (r, st, response))"
  unfolding case_prod_beta Let_def dispatch_setval_def
  by (rule handler_okI) (use assms store_wf_setval [OF assms(1)] in
      \<open>auto simp: tgc_sem_store_setval_def Let_def split: option.splits if_splits\<close>)

lemma handler_setall:
  assumes "store_wf store" and "payload_length response = 0"
  shows "handler_ok store response
    (let (r, st) = dispatch_setall clk store request pid in (r, st, response))"
  unfolding case_prod_beta Let_def dispatch_setall_def
  by (rule handler_okI) (use assms store_wf_setall [OF assms(1)] in
      \<open>auto simp: tgc_sem_store_setall_def Let_def split: option.splits if_splits\<close>)

lemma handler_setmeta:
  assumes "store_wf store" and "payload_length response = 0"
  shows "handler_ok store response
    (let (r, st) = dispatch_setmeta clk store request identity in (r, st, response))"
  unfolding case_prod_beta Let_def dispatch_setmeta_def
  by (rule handler_okI) (use assms store_wf_set_metadata [OF assms(1)] in
      \<open>auto simp: tgc_sem_store_set_metadata_def Let_def split: option.splits if_splits\<close>)

lemma handler_getall:
  assumes "store_wf store" and "payload_length response = 0"
  shows "handler_ok store response
    (let (r, response') = dispatch_getall store request response in (r, store, response'))"
proof -
  have "unat (4 + c * 2 :: u32) \<le> 8192" if "unat c \<le> 512" for c
    using that by (simp add: unat_word_ariths)
  then show ?thesis
    using assms unfolding dispatch_getall_def Let_def
    by (auto intro!: handler_okI handler_ok_respond split: sum.splits)
qed

lemma handler_semop:
  assumes wf: "store_wf store" and "payload_length response = 0"
  shows "handler_ok store response (dispatch_semop clk store request pid response)"
proof -
  have "handler_ok store response
      (case tgc_sem_store_tryop_detail clk store semid ops pid of (r, st, w) \<Rightarrow>
         if r = 1 then (r, st, respond response (f w) 8) else (r, st, response))"
    if "\<And>w. length (f w) = length (pk_payload response)" for semid ops f
  proof -
    obtain r st w where call: "tgc_sem_store_tryop_detail clk store semid ops pid = (r, st, w)"
      by (metis prod_cases3)
    have "store_wf st" using store_wf_tryop_detail [OF wf call] .
    moreover have "negative r \<Longrightarrow> st = store" by (rule tryop_cases [OF wf call]) auto
    ultimately show ?thesis using assms that by (auto simp: call intro!: handler_okI handler_ok_respond)
  qed
  then show ?thesis
    using assms unfolding dispatch_semop_def Let_def TGC_SEM_OP_BLOCKED_def
    by (auto intro!: handler_okI split: option.splits)
qed

lemma handler_metadata:
  assumes "store_wf store" and "payload_length response = 0"
  shows "handler_ok store response
      (let (r, response') = dispatch_stat store request response in (r, store, response'))"
    and "handler_ok store response
      (let (r, response') = dispatch_stat_index store request response in (r, store, response'))"
  using assms
  by (auto simp: dispatch_stat_def dispatch_stat_index_def encode_metadata_def Let_def
      intro!: handler_okI handler_ok_respond split: sum.splits)

lemma handler_info:
  assumes "store_wf store" and "payload_length response = 0"
  shows "handler_ok store response
    (let (r, response') = dispatch_info store request response in (r, store, response'))"
  using assms
  by (auto simp: dispatch_info_def Let_def case_prod_beta intro!: handler_okI handler_ok_respond)

lemma handler_opcode:
  assumes "store_wf store" and "payload_length response = 0"
  shows "handler_ok store response (dispatch_opcode clk mem store request actor response)"
  unfolding dispatch_opcode_def Let_def [of "opcode request"]
  by (intro if_split [where P = "handler_ok store response", THEN iffD2] conjI impI
      handler_semget handler_remove handler_setval handler_setall handler_setmeta
      handler_getall handler_semop handler_metadata handler_info handler_okI assms refl)

lemma dispatch_InrD:
  assumes "tgc_broker_dispatch clk mem store request actor response = Inr (store', response')"
  obtains r response1 where
    "dispatch_opcode clk mem store request actor (prepare_response request response) = (r, store', response1)"
    "response' = finish_response r response1"
  using assms by (auto simp: tgc_broker_dispatch_def Let_def split: if_splits prod.splits)

lemma prepare_response_simps [simp]:
  "pk_payload (prepare_response request response) = pk_payload response"
  "payload_length (prepare_response request response) = 0"
  by (simp_all add: prepare_response_def)

lemma dispatch_handler_ok:
  assumes "store_wf store"
    and "tgc_broker_dispatch clk mem store request actor response = Inr (store', response')"
  obtains r response1 where "response' = finish_response r response1"
    and "handler_ok store (prepare_response request response) (r, store', response1)"
  using dispatch_InrD [OF assms(2)] handler_opcode [OF assms(1)] prepare_response_simps(2) by metis

text \<open>
  C12. Every answer the dispatcher produces is well formed and safe: the store stays well formed; a
  negative result means the store is untouched and the payload is empty; the response echoes the opcode
  and request number, is marked as a response, keeps the size of its buffer and never claims more than
  8192 payload bytes; for every opcode of the protocol its header passes the validity check, so it can
  be encoded.
\<close>

theorem dispatch_answers_well_formed:
  assumes "store_wf store"
    and "tgc_broker_dispatch clk mem store request actor response = Inr (store', response')"
  shows "store_wf store' \<and>
    (negative (h_result (pk_header response')) \<longrightarrow> store' = store \<and> payload_length response' = 0) \<and>
    opcode response' = opcode request \<and>
    h_request_id (pk_header response') = h_request_id (pk_header request) \<and>
    h_kind (pk_header response') = TGC_PROTOCOL_RESPONSE \<and>
    length (pk_payload response') = length (pk_payload response) \<and>
    unat (payload_length response') \<le> 8192 \<and>
    (TGC_OPCODE_PING \<le> opcode request \<and> opcode request \<le> TGC_OPCODE_STAT_INDEX \<longrightarrow>
       header_is_valid (pk_header response') = 0)"
proof -
  obtain r response1 where f: "response' = finish_response r response1"
    and ok: "handler_ok store (prepare_response request response) (r, store', response1)"
    by (rule dispatch_handler_ok [OF assms])
  have h: "(pk_header response1)\<lparr>h_payload_length := 0\<rparr> =
      (pk_header (prepare_response request response))\<lparr>h_payload_length := 0\<rparr>"
    using ok by (simp add: handler_ok_def)
  have h1: "h_version (pk_header response1) = 1" "h_kind (pk_header response1) = 2"
    "h_opcode (pk_header response1) = opcode request"
    "h_request_id (pk_header response1) = h_request_id (pk_header request)"
    using arg_cong [OF h, of h_version] arg_cong [OF h, of h_kind] arg_cong [OF h, of h_opcode]
      arg_cong [OF h, of h_request_id] by (simp_all add: prepare_response_def)
  show ?thesis
    using ok h1 unfolding f
    by (simp add: handler_ok_def finish_response_def Let_def header_is_valid_def word_le_nat_alt
        word_less_nat_alt)
qed

text \<open>The concrete request of the witnesses: \<^verbatim>\<open>GETVAL\<close> of semaphore 2 of the demo set.\<close>

definition demo_request :: "u16 \<Rightarrow> u32 \<Rightarrow> u8 list \<Rightarrow> tgc_protocol_packet" where
  "demo_request opc n payload =
     \<lparr>pk_header = \<lparr>h_version = 1, h_kind = 1, h_opcode = opc, h_request_id = 7,
        h_payload_length = n, h_result = 0\<rparr>, pk_payload = payload\<rparr>"

definition demo_actor :: tgc_broker_actor where
  "demo_actor = \<lparr>ac_pid = 42, ac_identity = demo_identity\<rparr>"

theorem dispatch_answers_well_formed_witness:
  "\<exists>st' resp. tgc_broker_dispatch None True demo_store (demo_request 4 8 [1, 0, 1, 0, 2, 0, 0, 0]) demo_actor
       (demo_request 0 0 (replicate 8192 0)) = Inr (st', resp) \<and>
     h_result (pk_header resp) = 0 \<and> header_is_valid (pk_header resp) = 0"
proof -
  let ?q = "demo_request 4 8 [1, 0, 1, 0, 2, 0, 0, 0]"
  let ?p = "demo_request 0 0 (replicate 8192 0)"
  have "dispatch_semnum demo_store ?q 4 = 0"
    by (simp add: dispatch_semnum_def demo_request_def wire_signed tgc_wire_get_u32_def getval_eq demo_value)
  then obtain resp where r: "tgc_broker_dispatch None True demo_store ?q demo_actor ?p = Inr (demo_store, resp)"
    "h_result (pk_header resp) = 0"
    by (simp add: tgc_broker_dispatch_def dispatch_opcode_def demo_request_def demo_actor_def
        finish_response_def Let_def)
  from dispatch_answers_well_formed [OF demo_wf r(1)] r show ?thesis
    by (simp add: demo_request_def word_le_nat_alt)
qed

text \<open>
  Only seven opcodes can change the store: every request with another opcode (the readers, \<^verbatim>\<open>PING\<close>
  and unknown opcodes) leaves the store exactly as it was.
\<close>

theorem readers_do_not_write:
  assumes "tgc_broker_dispatch clk mem store request actor response = Inr (store', response')"
    and "opcode request \<notin> {TGC_OPCODE_SEMGET, TGC_OPCODE_REMOVE, TGC_OPCODE_SETVAL, TGC_OPCODE_SETALL,
      TGC_OPCODE_SEMOP, TGC_OPCODE_SEMTIMEDOP, TGC_OPCODE_SETMETA}"
  shows "store' = store"
proof -
  obtain r response1 where
    "dispatch_opcode clk mem store request actor (prepare_response request response) = (r, store', response1)"
    using assms(1) by (rule dispatch_InrD)
  then show ?thesis
    using assms(2) by (auto simp: dispatch_opcode_def Let_def case_prod_beta split: if_splits)
qed

theorem readers_do_not_write_witness:
  "\<exists>resp. tgc_broker_dispatch None True demo_store (demo_request 1 0 []) demo_actor
     (demo_request 0 0 []) = Inr (demo_store, resp)"
proof -
  obtain st' resp where d: "tgc_broker_dispatch None True demo_store (demo_request 1 0 []) demo_actor
      (demo_request 0 0 []) = Inr (st', resp)"
    by (simp add: tgc_broker_dispatch_def demo_request_def demo_actor_def case_prod_beta Let_def)
  from readers_do_not_write [OF d] d show ?thesis by (simp add: demo_request_def)
qed

end
