(* ===== verification/Tgc_Waiter_Queue.thy ===== *)
theory Tgc_Waiter_Queue
  imports Tgc_Dispatch
begin

text \<open>
  The state of the broker (\<^verbatim>\<open>struct tgc_broker\<close> of
  \<^verbatim>\<open>src/reference-termux-glibc-compat/src/broker_server.c\<close>) and its queue of blocked callers, a singly
  linked list with head and tail pointers whose nodes live on the stacks of the waiting threads. A
  pointer to a node is a number (the waiting thread), \<open>None\<close> is NULL, and \<open>br_nodes\<close> is the memory the
  nodes live in. The pointer operations are shown to implement a list of waiters.
\<close>

section \<open>State\<close>

text \<open>\<^verbatim>\<open>struct timespec\<close>; the components stay far from the limits of their 64-bit types.\<close>

record timespec =
  tv_sec :: int
  tv_nsec :: int

record tgc_waiter =
  w_semid :: s32
  w_semnum :: u16
  w_wait_for_zero :: u16
  w_counted :: bool
  w_has_deadline :: bool
  w_deadline :: timespec
  w_next :: "nat option"

record tgc_process_watcher =
  pw_pid :: s32
  pw_pidfd :: s32
  pw_proc_inode :: u64
  pw_active :: bool

record tgc_broker =
  br_store :: tgc_sem_store
  br_nodes :: "nat \<Rightarrow> tgc_waiter"
  br_waiters_head :: "nat option"
  br_waiters_tail :: "nat option"
  br_process_watchers :: "tgc_process_watcher list"
  br_process_monitor_started :: bool
  br_stop_process_monitor :: bool

section \<open>Pointer operations\<close>

definition set_next :: "(nat \<Rightarrow> tgc_waiter) \<Rightarrow> nat \<Rightarrow> nat option \<Rightarrow> nat \<Rightarrow> tgc_waiter" where
  "set_next nodes a n = nodes(a := (nodes a)\<lparr>w_next := n\<rparr>)"

definition enqueue_waiter :: "tgc_broker \<Rightarrow> nat \<Rightarrow> tgc_broker" where
  "enqueue_waiter broker waiter =
     (let broker = broker\<lparr>br_nodes := set_next (br_nodes broker) waiter None\<rparr>;
          broker = (case br_waiters_tail broker of
                      None \<Rightarrow> broker\<lparr>br_waiters_head := Some waiter\<rparr>
                    | Some t \<Rightarrow> broker\<lparr>br_nodes := set_next (br_nodes broker) t (Some waiter)\<rparr>)
      in broker\<lparr>br_waiters_tail := Some waiter\<rparr>)"

text \<open>The search loop: the node before the waiter (NULL for the head) and the waiter itself, if found.\<close>

partial_function (option) find_waiter ::
  "(nat \<Rightarrow> tgc_waiter) \<Rightarrow> nat \<Rightarrow> nat option \<Rightarrow> nat option \<Rightarrow> (nat option \<times> nat option) option" where
  "find_waiter nodes waiter previous current =
     (if current = None \<or> current = Some waiter then Some (previous, current)
      else find_waiter nodes waiter current (w_next (nodes (the current))))"

definition remove_waiter :: "tgc_broker \<Rightarrow> nat \<Rightarrow> tgc_broker option" where
  "remove_waiter broker waiter =
     (case find_waiter (br_nodes broker) waiter None (br_waiters_head broker) of
        None \<Rightarrow> None
      | Some (previous, None) \<Rightarrow> Some broker
      | Some (previous, Some current) \<Rightarrow>
          let next = w_next (br_nodes broker current);
              broker = (case previous of
                          None \<Rightarrow> broker\<lparr>br_waiters_head := next\<rparr>
                        | Some p \<Rightarrow> broker\<lparr>br_nodes := set_next (br_nodes broker) p next\<rparr>)
          in Some (if br_waiters_tail broker = Some current
                   then broker\<lparr>br_waiters_tail := previous\<rparr> else broker))"

partial_function (option) first_for_set ::
  "(nat \<Rightarrow> tgc_waiter) \<Rightarrow> nat \<Rightarrow> nat option \<Rightarrow> bool option" where
  "first_for_set nodes waiter current =
     (if current = None then Some False
      else if current = Some waiter then Some True
      else if w_semid (nodes (the current)) = w_semid (nodes waiter) then Some False
      else first_for_set nodes waiter (w_next (nodes (the current))))"

declare find_waiter.simps [code] first_for_set.simps [code]

definition waiter_is_first_for_set :: "tgc_broker \<Rightarrow> nat \<Rightarrow> bool option" where
  "waiter_is_first_for_set broker waiter =
     first_for_set (br_nodes broker) waiter (br_waiters_head broker)"

section \<open>The list a queue represents\<close>

fun chain :: "(nat \<Rightarrow> tgc_waiter) \<Rightarrow> nat option \<Rightarrow> nat list \<Rightarrow> bool" where
  "chain nodes p [] \<longleftrightarrow> p = None"
| "chain nodes p (a # as) \<longleftrightarrow> p = Some a \<and> chain nodes (w_next (nodes a)) as"

definition queue_rep :: "tgc_broker \<Rightarrow> nat list \<Rightarrow> bool" where
  "queue_rep broker xs \<longleftrightarrow>
     distinct xs \<and> chain (br_nodes broker) (br_waiters_head broker) xs \<and>
     br_waiters_tail broker = (if xs = [] then None else Some (last xs))"

lemma chain_cong:
  "(\<And>a. a \<in> set as \<Longrightarrow> w_next (nodes' a) = w_next (nodes a)) \<Longrightarrow> chain nodes' p as = chain nodes p as"
  by (induction as arbitrary: p) auto

lemma chain_other: "a \<notin> set as \<Longrightarrow> chain (set_next nodes a n) p as = chain nodes p as"
  by (rule chain_cong) (auto simp: set_next_def)

lemma chain_unique: "chain nodes p xs \<Longrightarrow> chain nodes p ys \<Longrightarrow> xs = ys"
proof (induction xs arbitrary: p ys)
  case Nil
  then show ?case by (cases ys) auto
next
  case (Cons x xs)
  then show ?case by (cases ys) auto
qed

lemma chain_append_node:
  assumes "chain nodes p (as @ [t])" and "a \<notin> set (as @ [t])" and "distinct (as @ [t])"
    and "w_next (nodes a) = None"
  shows "chain (set_next nodes t (Some a)) p (as @ [t, a])"
  using assms
proof (induction as arbitrary: p)
  case Nil
  then show ?case by (auto simp: set_next_def)
next
  case (Cons b as)
  have "w_next (set_next nodes t (Some a) b) = w_next (nodes b)" using Cons.prems(3) by (auto simp: set_next_def)
  then show ?case using Cons by simp
qed

lemma queue_rep_enqueue:
  assumes "queue_rep broker xs" and "a \<notin> set xs"
  shows "queue_rep (enqueue_waiter broker a) (xs @ [a])"
proof (cases xs rule: rev_cases)
  case Nil
  then show ?thesis using assms by (simp add: queue_rep_def enqueue_waiter_def set_next_def)
next
  case (snoc as t)
  let ?n = "set_next (br_nodes broker) a None"
  have c: "chain ?n (br_waiters_head broker) (as @ [t])" and tl: "br_waiters_tail broker = Some t"
    using assms snoc by (simp_all add: queue_rep_def chain_other)
  have "chain (set_next ?n t (Some a)) (br_waiters_head broker) (as @ [t, a])"
    by (rule chain_append_node [OF c]) (use assms snoc in \<open>auto simp: queue_rep_def set_next_def\<close>)
  then show ?thesis using assms snoc tl by (simp add: queue_rep_def enqueue_waiter_def Let_def)
qed

text \<open>The two loops terminate on every represented queue.\<close>

lemma find_waiter_chain:
  assumes "chain nodes p xs"
  shows "find_waiter nodes w prev p = Some
    (if w \<in> set xs
     then (if takeWhile (\<lambda>x. x \<noteq> w) xs = [] then prev else Some (last (takeWhile (\<lambda>x. x \<noteq> w) xs)), Some w)
     else (if xs = [] then prev else Some (last xs), None))"
  using assms
proof (induction xs arbitrary: p prev)
  case Nil
  then show ?case by (simp add: find_waiter.simps)
next
  case (Cons x xs)
  have p: "p = Some x" and rest: "chain nodes (w_next (nodes x)) xs" using Cons.prems by auto
  show ?case
    using Cons.IH [OF rest, of "Some x"] by (simp add: p find_waiter.simps [of _ _ _ "Some x"])
qed

lemma first_for_set_chain:
  assumes "chain nodes p xs"
  shows "first_for_set nodes w p = Some (w \<in> set xs \<and>
    (\<forall>x \<in> set (takeWhile (\<lambda>x. x \<noteq> w) xs). w_semid (nodes x) \<noteq> w_semid (nodes w)))"
  using assms
proof (induction xs arbitrary: p)
  case Nil
  then show ?case by (simp add: first_for_set.simps)
next
  case (Cons x xs)
  have p: "p = Some x" and rest: "chain nodes (w_next (nodes x)) xs" using Cons.prems by auto
  show ?case
    using Cons.IH [OF rest] by (auto simp: p first_for_set.simps [of _ _ "Some x"])
qed

lemma chain_bypass:
  assumes "chain nodes q (cs @ p # a # bs)" and "distinct (cs @ p # a # bs)"
  shows "chain (set_next nodes p (w_next (nodes a))) q (cs @ p # bs)"
  using assms
proof (induction cs arbitrary: q)
  case Nil
  then have "chain nodes (w_next (nodes a)) bs" "p \<notin> set bs" "q = Some p" by auto
  then show ?case by (simp add: chain_other) (simp add: set_next_def)
next
  case (Cons c cs)
  have "w_next (set_next nodes p (w_next (nodes a)) c) = w_next (nodes c)"
    using Cons.prems(2) by (auto simp: set_next_def)
  then show ?case using Cons by simp
qed

lemma queue_rep_remove:
  assumes rep: "queue_rep broker xs"
  shows "\<exists>b'. remove_waiter broker a = Some b' \<and> queue_rep b' (remove1 a xs)"
proof (cases "a \<in> set xs")
  case False
  have "find_waiter (br_nodes broker) a None (br_waiters_head broker) =
      Some (if xs = [] then None else Some (last xs), None)"
    by (subst find_waiter_chain [of _ _ xs]) (use rep False in \<open>auto simp: queue_rep_def\<close>)
  then show ?thesis using rep False by (simp add: remove_waiter_def remove1_idem)
next
  case True
  then obtain as bs where xs: "xs = as @ a # bs" and a: "a \<notin> set as" by (meson split_list_first)
  have d: "distinct (as @ a # bs)" and c: "chain (br_nodes broker) (br_waiters_head broker) (as @ a # bs)"
    and tl: "br_waiters_tail broker = Some (last (a # bs))"
    using rep by (simp_all add: queue_rep_def xs)
  have f: "find_waiter (br_nodes broker) a None (br_waiters_head broker) =
      Some (if as = [] then None else Some (last as), Some a)"
    using find_waiter_chain [OF c, of a None] by (simp add: takeWhile_upto [OF a])
  have r: "remove1 a xs = as @ bs" using a by (simp add: xs remove1_append)
  have l: "bs \<noteq> [] \<Longrightarrow> last bs \<noteq> a" using d last_in_set [of bs] by auto
  show ?thesis
  proof (cases as rule: rev_cases)
    case Nil
    then show ?thesis using c d tl f l unfolding r
      by (cases "bs = []") (auto simp: remove_waiter_def queue_rep_def Let_def)
  next
    case (snoc cs p)
    have "chain (set_next (br_nodes broker) p (w_next (br_nodes broker a))) (br_waiters_head broker) (cs @ p # bs)"
      by (rule chain_bypass) (use c d snoc in auto)
    then show ?thesis
      using d tl f l snoc unfolding r
      by (cases "bs = []") (auto simp: remove_waiter_def queue_rep_def Let_def)
  qed
qed

lemma waiter_is_first_rep:
  assumes "queue_rep broker xs"
  shows "waiter_is_first_for_set broker a = Some (a \<in> set xs \<and>
    (\<forall>x \<in> set (takeWhile (\<lambda>x. x \<noteq> a) xs).
       w_semid (br_nodes broker x) \<noteq> w_semid (br_nodes broker a)))"
  unfolding waiter_is_first_for_set_def
  by (rule first_for_set_chain) (use assms in \<open>simp add: queue_rep_def\<close>)

text \<open>Neither operation touches anything but links.\<close>

definition node_data :: "tgc_waiter \<Rightarrow> tgc_waiter" where
  "node_data w = w\<lparr>w_next := None\<rparr>"

lemma set_next_data: "node_data (set_next nodes a n b) = node_data (nodes b)"
  by (simp add: set_next_def node_data_def)

lemma node_data_fields:
  assumes "node_data w = node_data v"
  shows "w_semid w = w_semid v" "w_semnum w = w_semnum v" "w_wait_for_zero w = w_wait_for_zero v"
    "w_counted w = w_counted v"
  using assms by (auto simp: node_data_def dest: arg_cong [of _ _ w_semid] arg_cong [of _ _ w_semnum]
      arg_cong [of _ _ w_wait_for_zero] arg_cong [of _ _ w_counted])

lemma enqueue_waiter_frame:
  "br_store (enqueue_waiter b a) = br_store b"
  "br_process_watchers (enqueue_waiter b a) = br_process_watchers b"
  "br_stop_process_monitor (enqueue_waiter b a) = br_stop_process_monitor b"
  "br_process_monitor_started (enqueue_waiter b a) = br_process_monitor_started b"
  "node_data (br_nodes (enqueue_waiter b a) x) = node_data (br_nodes b x)"
  by (simp_all add: enqueue_waiter_def Let_def set_next_data split: option.splits)

lemma remove_waiter_frame:
  assumes "remove_waiter b a = Some b'"
  shows "br_store b' = br_store b" "br_process_watchers b' = br_process_watchers b"
    "br_stop_process_monitor b' = br_stop_process_monitor b"
    "br_process_monitor_started b' = br_process_monitor_started b"
    "node_data (br_nodes b' x) = node_data (br_nodes b x)"
  using assms
  by (auto simp: remove_waiter_def Let_def set_next_data split: option.splits prod.splits if_splits)

section \<open>The queue interface\<close>

text \<open>
  What the broker relies on: \<open>rep s xs\<close> says that the pointers of \<open>s\<close> represent the list \<open>xs\<close>; entering
  appends, leaving deletes, and a waiter is first when no earlier one waits for the same set.
\<close>

locale waiter_queue =
  fixes rep :: "'s \<Rightarrow> nat list \<Rightarrow> bool"
    and enter :: "'s \<Rightarrow> nat \<Rightarrow> 's"
    and leave :: "'s \<Rightarrow> nat \<Rightarrow> 's option"
    and first :: "'s \<Rightarrow> nat \<Rightarrow> bool option"
    and target :: "'s \<Rightarrow> nat \<Rightarrow> 'k"
  assumes rep_unique: "rep s xs \<Longrightarrow> rep s ys \<Longrightarrow> xs = ys"
    and rep_distinct: "rep s xs \<Longrightarrow> distinct xs"
    and enter_rep: "rep s xs \<Longrightarrow> a \<notin> set xs \<Longrightarrow> rep (enter s a) (xs @ [a])"
    and leave_rep: "rep s xs \<Longrightarrow> \<exists>t. leave s a = Some t \<and> rep t (remove1 a xs)"
    and first_rep: "rep s xs \<Longrightarrow> first s a = Some (a \<in> set xs \<and>
      (\<forall>x \<in> set (takeWhile (\<lambda>x. x \<noteq> a) xs). target s x \<noteq> target s a))"
begin

lemma leave_after_enter:
  assumes "rep s xs" and "a \<notin> set xs"
  obtains t where "leave (enter s a) a = Some t" and "rep t xs"
  using leave_rep [OF enter_rep [OF assms], of a] assms(2) by (auto simp: remove1_append)

lemma first_split:
  assumes "rep s (as @ a # bs)"
  shows "first s a = Some (\<forall>x \<in> set as. target s x \<noteq> target s a)"
proof -
  have "a \<notin> set as" using rep_distinct [OF assms] by simp
  then show ?thesis using first_rep [OF assms, of a] by (simp add: takeWhile_upto)
qed

text \<open>Of the waiters for one set exactly the earliest is first.\<close>

lemma first_exists:
  assumes "rep s xs" and "\<exists>x \<in> set xs. target s x = k"
  shows "\<exists>!a. a \<in> set xs \<and> target s a = k \<and> first s a = Some True"
proof -
  obtain as a bs where xs: "xs = as @ a # bs" and a: "target s a = k" "\<forall>x \<in> set as. target s x \<noteq> k"
    using split_list_first_propE [OF assms(2)] by metis
  show ?thesis
  proof (rule ex1I [of _ a])
    show "a \<in> set xs \<and> target s a = k \<and> first s a = Some True"
      using first_split [of s as a bs] assms(1) a by (simp add: xs)
  next
    fix b
    assume b: "b \<in> set xs \<and> target s b = k \<and> first s b = Some True"
    show "b = a"
    proof (rule ccontr)
      assume "b \<noteq> a"
      then have "b \<in> set bs" using b a xs by auto
      then obtain cs ds where bs: "bs = cs @ b # ds" by (meson split_list)
      have "first s b = Some (\<forall>x \<in> set (as @ a # cs). target s x \<noteq> target s b)"
        by (rule first_split [of s "as @ a # cs" b ds]) (use assms(1) in \<open>simp add: xs bs\<close>)
      then show False using a b by simp
    qed
  qed
qed

end

interpretation broker_queue: waiter_queue queue_rep enqueue_waiter remove_waiter waiter_is_first_for_set
    "\<lambda>b a. w_semid (br_nodes b a)"
proof unfold_locales
  show "xs = ys" if "queue_rep s xs" "queue_rep s ys" for s xs ys
    using that chain_unique unfolding queue_rep_def by blast
  show "distinct xs" if "queue_rep s xs" for s xs using that by (simp add: queue_rep_def)
qed (auto intro: queue_rep_enqueue queue_rep_remove simp: waiter_is_first_rep)

end
