(* ===== verification/Tgc_Sem_Waiters.thy ===== *)
theory Tgc_Sem_Waiters
  imports Tgc_Sem_Props
begin

text \<open>
  How the operations of the store treat the waiter counters: only \<^verbatim>\<open>adjust_wait_count\<close> changes a
  counter, creation starts all counters of the new set at zero, removal drops them.
\<close>

definition wait_count :: "tgc_sem_store \<Rightarrow> s32 \<Rightarrow> nat \<Rightarrow> bool \<Rightarrow> nat option" where
  "wait_count store semid n zero =
     (case find_set store semid of
        None \<Rightarrow> None
      | Some i \<Rightarrow>
          let s = st_sets store ! i in
          if n < unat (s_nsems s)
          then Some (unat (if zero then s_zero_waiters s ! n else s_negative_waiters s ! n)) else None)"

text \<open>The part of a set the counters and the identifiers depend on.\<close>

definition set_shape :: "tgc_sem_set \<Rightarrow> bool \<times> u16 \<times> u16 \<times> u32 list \<times> u32 list" where
  "set_shape s = (s_active s, s_generation s, s_nsems s, s_negative_waiters s, s_zero_waiters s)"

abbreviation store_shape :: "tgc_sem_store \<Rightarrow> (bool \<times> u16 \<times> u16 \<times> u32 list \<times> u32 list) list" where
  "store_shape st \<equiv> map set_shape (st_sets st)"

lemma store_shape_update:
  "set_shape s = set_shape (st_sets st ! i) \<Longrightarrow> map set_shape ((st_sets st)[i := s]) = store_shape st"
  by (metis list_update_id map_update)

lemma shape_nth:
  assumes "store_shape st = store_shape st'" and "j < length (st_sets st)"
  shows "set_shape (st_sets st ! j) = set_shape (st_sets st' ! j)"
  using assms by (metis length_map nth_map)

lemma find_set_shape:
  assumes "store_wf st" and "store_wf st'" and "store_shape st = store_shape st'"
  shows "find_set st semid = find_set st' semid"
proof (rule option_eqI)
  fix i
  have "set_shape (st_sets st ! i) = set_shape (st_sets st' ! i)" if "i < 128"
    using shape_nth [OF assms(3)] that store_wfD(1) [OF assms(1)] by simp
  then show "find_set st semid = Some i \<longleftrightarrow> find_set st' semid = Some i"
    unfolding find_set_iff [OF assms(1)] find_set_iff [OF assms(2)] by (auto simp: set_shape_def)
qed

lemma wait_count_shape:
  assumes "store_wf st" and "store_wf st'" and "store_shape st = store_shape st'"
  shows "wait_count st semid n zero = wait_count st' semid n zero"
proof (cases "find_set st semid")
  case (Some i)
  have "set_shape (st_sets st ! i) = set_shape (st_sets st' ! i)"
    using shape_nth [OF assms(3)] find_set_SomeD(1) [OF assms(1) Some] store_wfD(1) [OF assms(1)] by simp
  then show ?thesis
    using Some find_set_shape [OF assms, of semid]
    by (simp add: wait_count_def Let_def set_shape_def)
qed (use find_set_shape [OF assms, of semid] in \<open>simp add: wait_count_def\<close>)

section \<open>Operations that leave the shape alone\<close>

lemma shape_setval: "store_shape (snd (tgc_sem_store_setval clk st semid n val pid)) = store_shape st"
  by (auto simp: tgc_sem_store_setval_def Let_def set_shape_def intro!: store_shape_update
      split: option.splits)

lemma shape_setall: "store_shape (snd (tgc_sem_store_setall clk st semid vals pid)) = store_shape st"
  by (auto simp: tgc_sem_store_setall_def Let_def set_shape_def intro!: store_shape_update
      split: option.splits)

lemma shape_set_metadata:
  "store_shape (snd (tgc_sem_store_set_metadata clk st semid uid gid mode actor)) = store_shape st"
  by (auto simp: tgc_sem_store_set_metadata_def Let_def set_shape_def intro!: store_shape_update
      split: option.splits)

lemma shape_process_exit_entry:
  "store_shape (fst (process_exit_entry clk pid i (st, ch))) = store_shape st"
  by (auto simp: Let_def set_shape_def intro!: store_shape_update split: option.splits)

lemma shape_process_exit_fold:
  "store_shape (fst (fold (process_exit_entry clk pid) ks p)) = store_shape (fst p)"
proof (induction ks arbitrary: p)
  case (Cons k ks)
  show ?case
    using Cons.IH [of "process_exit_entry clk pid k p"] shape_process_exit_entry [of clk pid k "fst p" "snd p"]
    by (simp del: process_exit_entry.simps)
qed simp

lemma shape_process_exit: "store_shape (snd (tgc_sem_store_process_exit clk st pid)) = store_shape st"
  using shape_process_exit_fold [of clk pid _ "(st, False)"]
  by (auto simp: tgc_sem_store_process_exit_def case_prod_beta)

lemma shape_commit_undo: "st_sets (snd (commit_undo pid semid ds nums st)) = st_sets st"
  by (induction nums arbitrary: st) (auto split: option.splits)

lemma shape_tryop_detail:
  assumes "tgc_sem_store_tryop_detail clk st semid ops pid = (r, st', w)"
  shows "store_shape st' = store_shape st"
proof (cases "find_set st semid")
  case (Some i)
  let ?s = "\<lambda>working. (st_sets st ! i)\<lparr>s_values := working,
    s_last_pids := set_last_pids pid ops (s_last_pids (st_sets st ! i))\<rparr>"
  have a: "map set_shape ((st_sets st)[i := ?s working]) = store_shape st" for working
    by (rule store_shape_update) (simp add: set_shape_def)
  have b: "map set_shape ((st_sets st)[i := (?s working)\<lparr>s_otime := t\<rparr>]) = store_shape st" for working t
    by (rule store_shape_update) (simp add: set_shape_def)
  show ?thesis
    using assms Some a b shape_commit_undo
    by (auto simp: tgc_sem_store_tryop_detail_def Let_def case_prod_beta split: if_splits work.splits option.splits)
qed (use assms in \<open>auto simp: tgc_sem_store_tryop_detail_def\<close>)

section \<open>Adjusting, creating, removing\<close>

lemma wait_count_Some_sem_value:
  "wait_count st semid n zero = Some c \<Longrightarrow> \<exists>v. sem_value st semid n = Some v"
  by (auto simp: wait_count_def sem_value_def Let_def split: option.splits if_splits)

lemma wait_count_update:
  assumes wf: "store_wf store" and i: "find_set store semid = Some i"
    and "s_active s = s_active (st_sets store ! i)"
    and "s_generation s = s_generation (st_sets store ! i)"
    and n: "s_nsems s = s_nsems (st_sets store ! i)"
  shows "wait_count (store\<lparr>st_sets := (st_sets store)[i := s]\<rparr>) x m zero =
    (if x = semid
     then if m < unat (s_nsems s)
          then Some (unat (if zero then s_zero_waiters s ! m else s_negative_waiters s ! m)) else None
     else wait_count store x m zero)"
proof -
  have len: "i < length (st_sets store)" using find_set_SomeD(1) [OF wf i] store_wfD(1) [OF wf] by simp
  have "j = i \<longleftrightarrow> x = semid" if "find_set store x = Some j" for j
    using find_set_SomeD(4) [OF wf that] find_set_SomeD(4) [OF wf i] that i
    by (metis option.inject)
  then show ?thesis
    using assms len
    by (cases "find_set store x") (auto simp: wait_count_def find_set_update nth_list_update)
qed

lemma unat_succ_u32: "(w :: u32) \<noteq> 0xffffffff \<Longrightarrow> unat (w + 1) = unat w + 1"
proof -
  assume "w \<noteq> 0xffffffff"
  moreover have "(- 1 :: u32) = 0xffffffff" by simp
  ultimately have "w \<noteq> - 1" by metis
  then have "1 + w \<noteq> 0" by (metis add.commute eq_neg_iff_add_eq_0)
  then show ?thesis by (simp add: unatSuc add.commute)
qed

text \<open>A successful adjustment moves one counter by one and nothing else; a failing one changes nothing.\<close>

lemma adjust_cases:
  assumes wf: "store_wf st" and call: "tgc_sem_store_adjust_wait_count st semid n zero adj = (r, st')"
  obtains (failed) "r \<noteq> 0" "st' = st" "\<And>c. wait_count st semid n zero = Some c \<Longrightarrow> adj = - 1 \<Longrightarrow> c = 0"
  | (moved) c where "r = 0" "store_wf st'" "wait_count st semid n zero = Some c" "adj = 1 \<or> adj = - 1 \<and> 0 < c"
      "\<And>x m z. wait_count st' x m z = (if x = semid \<and> m = n \<and> z = zero
         then Some (if adj = 1 then c + 1 else c - 1) else wait_count st x m z)"
      "\<And>x. find_set st' x = find_set st x" "sem_value st' = sem_value st" "undo_of st' = undo_of st"
proof (cases "r = 0")
  case False
  have "st' = st"
    using call False by (auto simp: tgc_sem_store_adjust_wait_count_def Let_def split: option.splits if_splits)
  moreover have "c = 0" if "wait_count st semid n zero = Some c" "adj = - 1" for c
    using call False that
    by (auto simp: tgc_sem_store_adjust_wait_count_def wait_count_def Let_def split: option.splits if_splits)
  ultimately show ?thesis using False by (intro failed)
next
  case True
  then obtain i where i: "find_set st semid = Some i"
    using call by (auto simp: tgc_sem_store_adjust_wait_count_def split: option.splits)
  let ?s0 = "st_sets st ! i"
  let ?w = "if zero then s_zero_waiters ?s0 ! n else s_negative_waiters ?s0 ! n"
  define v where "v = (if adj = 1 then ?w + 1 else ?w - 1)"
  define s where "s = (if zero then ?s0\<lparr>s_zero_waiters := (s_zero_waiters ?s0)[n := v]\<rparr>
    else ?s0\<lparr>s_negative_waiters := (s_negative_waiters ?s0)[n := v]\<rparr>)"
  have n: "n < unat (s_nsems ?s0)" and adj: "adj = 1 \<and> ?w \<noteq> 0xffffffff \<or> adj = - 1 \<and> ?w \<noteq> 0"
    and st': "st' = st\<lparr>st_sets := (st_sets st)[i := s]\<rparr>"
    using call True i
    by (auto simp: tgc_sem_store_adjust_wait_count_def Let_def s_def v_def split: if_splits)
  have len: "length (s_zero_waiters ?s0) = unat (s_nsems ?s0)" "length (s_negative_waiters ?s0) = unat (s_nsems ?s0)"
    using find_set_SomeD(3) [OF wf i] by (simp_all add: set_wf_def)
  have same: "s_active s = s_active ?s0" "s_generation s = s_generation ?s0" "s_nsems s = s_nsems ?s0"
    "s_values s = s_values ?s0" by (simp_all add: s_def)
  have cell: "(if z then s_zero_waiters s ! m else s_negative_waiters s ! m) =
      (if m = n \<and> z = zero then v else if z then s_zero_waiters ?s0 ! m else s_negative_waiters ?s0 ! m)"
    if "m < unat (s_nsems ?s0)" for m z
    using that len by (cases z; cases zero) (simp_all add: s_def nth_update_if)
  have w': "unat v = (if adj = 1 then unat ?w + 1 else unat ?w - 1)"
    using adj unat_succ_u32 [of ?w] by (auto simp: v_def unat_minus_one)
  have wc: "wait_count st' x m z = (if x = semid \<and> m = n \<and> z = zero then Some (unat v) else wait_count st x m z)"
    for x m z
    unfolding st' wait_count_update [OF wf i same(1-3)] same(3)
    using i n cell [of m z]
    by (cases "m < unat (s_nsems ?s0)"; cases z; cases zero) (auto simp: wait_count_def [of st] Let_def)
  have sv: "sem_value st' = sem_value st"
    unfolding st' by (intro ext) (simp add: sem_value_update [OF wf i same(1-3)] same i sem_value_def [of st])
  have "store_wf st'" using store_wf_adjust_wait_count [OF wf, of semid n zero adj] call by simp
  moreover have "find_set st' x = find_set st x" for x unfolding st' by (rule find_set_update) (simp_all add: same)
  moreover have "undo_of st' = undo_of st" by (rule undo_of_cong) (simp add: st')
  moreover have "wait_count st semid n zero = Some (unat ?w)" using i n by (simp add: wait_count_def Let_def)
  moreover have "adj = 1 \<or> adj = - 1 \<and> 0 < unat ?w" using adj by (auto simp: unat_gt_0)
  ultimately show ?thesis using True sv wc w' by (intro moved [of "unat ?w"]) auto
qed

lemma wait_count_get_as:
  assumes wf: "store_wf st" and g: "tgc_sem_store_get_as clk mem st key nsems flags identity = (r, st')"
  shows "wait_count st' x n z = wait_count st x n z \<or>
    x = r \<and> find_set st x = None \<and> find_set st' x \<noteq> None \<and> (\<forall>c. wait_count st' x n z = Some c \<longrightarrow> c = 0)"
proof (cases "0 < sint r")
  case False
  then show ?thesis using get_as_failed [OF wf g] by simp
next
  case True
  show ?thesis
  proof (rule find_set_get_as [OF wf g True])
    fix i
    assume none: "find_set st r = None" and i: "i < 128" "\<not> s_active (st_sets st ! i)"
      and st': "st' = st\<lparr>st_sets := (st_sets st)[i := new_set clk (st_sets st ! i) key nsems flags identity]\<rparr>"
      and r: "r = make_id i (s_generation (new_set clk (st_sets st ! i) key nsems flags identity))"
      and f: "find_set st' r = Some i" and n: "0 < sint nsems" "sint nsems \<le> 512"
    let ?s = "new_set clk (st_sets st ! i) key nsems flags identity"
    have s: "st_sets st' ! j = (if j = i then ?s else st_sets st ! j)" for j
      using st' i(1) store_wfD(1) [OF wf] by (simp add: nth_list_update)
    show ?thesis
    proof (cases "x = r")
      case True
      then show ?thesis
        using none f nsems_narrow(1,2) [OF n] by (auto simp: wait_count_def s new_set_def Let_def)
    next
      case False
      have "s_generation ?s \<noteq> g" if "decode_id x = Some (i, g)" for g
        using that False r by (auto simp: decode_id_Some_iff)
      then have fx: "find_set st' x = find_set st x"
        using i(2) by (auto simp: find_set_def s Let_def split: option.splits)
      moreover have "j \<noteq> i" if "find_set st x = Some j" for j
        using find_set_SomeD(2) [OF wf that] i(2) by auto
      ultimately show ?thesis by (cases "find_set st x") (simp_all add: wait_count_def s)
    qed
  qed simp
qed

lemma wait_count_remove:
  assumes wf: "store_wf st" and r: "tgc_sem_store_remove st semid = (r, st')"
  shows "wait_count st' x n z = (if r = 0 \<and> x = semid then None else wait_count st x n z)"
proof (cases "r = 0")
  case True
  obtain i where i: "find_set st semid = Some i"
    and st': "st' = (clear_undo_entries st semid 0 True)\<lparr>st_sets := (st_sets st)[i := removed_set (st_sets st ! i)]\<rparr>"
    using remove_success [OF wf] r True by metis
  have f: "find_set st' x = (if x = semid then None else find_set st x)"
    by (rule find_set_removed [OF wf i]) (simp add: st')
  have "j \<noteq> i" if "find_set st x = Some j" "x \<noteq> semid" for j
    using find_set_SomeD(4) [OF wf that(1)] find_set_SomeD(4) [OF wf i] that(2) by metis
  then show ?thesis
    using True f st' by (cases "find_set st x") (auto simp: wait_count_def)
next
  case False
  then have "st' = st" using r by (auto simp: tgc_sem_store_remove_def Let_def split: option.splits)
  then show ?thesis using False by simp
qed

end
