(* ===== verification/Tgc_Text.thy ===== *)
theory Tgc_Text
  imports Tgc_Prelude
begin

text \<open>
  C strings and the numbers in them, shared by the components that print or read text: searching, \<^verbatim>\<open>strtoul\<close> and \<^verbatim>\<open>strtol\<close> in base 10, \<^verbatim>\<open>%ld\<close>, and that
  reading a printed number gives it back.
\<close>

section \<open>Strings\<close>

text \<open>The string a buffer holds: its bytes up to the first zero.\<close>

definition c_str :: "string \<Rightarrow> string" where
  "c_str bytes = takeWhile (\<lambda>c. c \<noteq> CHR 0x00) bytes"

text \<open>Whether \<open>needle\<close> lies in \<open>buffer\<close>.\<close>

fun occurs_in :: "string \<Rightarrow> string \<Rightarrow> bool" where
  "occurs_in needle [] = (needle = [])"
| "occurs_in needle (c # cs) = (take (length needle) (c # cs) = needle \<or> occurs_in needle cs)"

lemma occurs_in_iff: "occurs_in needle buffer \<longleftrightarrow> (\<exists>pre post. buffer = pre @ needle @ post)"
proof (induction buffer)
  case (Cons c cs)
  have "take (length needle) (c # cs) = needle \<longleftrightarrow> (\<exists>post. c # cs = needle @ post)"
    by (metis append_eq_conv_conj append_take_drop_id)
  moreover have "(\<exists>pre post. c # cs = pre @ needle @ post) \<longleftrightarrow>
      (\<exists>post. c # cs = needle @ post) \<or> (\<exists>pre post. cs = pre @ needle @ post)"
    by (metis append_Cons append_Nil list.inject neq_Nil_conv)
  ultimately show ?case using Cons by simp
qed simp

section \<open>Numbers\<close>

definition is_space :: "char \<Rightarrow> bool" where
  "is_space c \<longleftrightarrow> c = CHR '' '' \<or> 9 \<le> (of_char c :: nat) \<and> (of_char c :: nat) \<le> 13"

definition is_digit :: "char \<Rightarrow> bool" where
  "is_digit c \<longleftrightarrow> 48 \<le> (of_char c :: nat) \<and> (of_char c :: nat) \<le> 57"

definition decimal :: "string \<Rightarrow> nat" where
  "decimal ds = fold (\<lambda>c v. 10 * v + (of_char c - 48)) ds 0"

text \<open>What a number is read from: after blanks a sign, digits, and what follows them.\<close>

definition number_parts :: "string \<Rightarrow> bool \<times> string \<times> string" where
  "number_parts s =
     (let t = dropWhile is_space s;
          neg = (take 1 t = ''-'');
          u = (if neg \<or> take 1 t = ''+'' then drop 1 t else t)
      in (neg, takeWhile is_digit u, dropWhile is_digit u))"

text \<open>\<^verbatim>\<open>strtoul\<close> in base 10: the value, what follows the number, and whether it was out of range.\<close>

definition strtoul :: "string \<Rightarrow> u64 \<times> string \<times> bool" where
  "strtoul s =
     (case number_parts s of (neg, ds, rest) \<Rightarrow>
        if ds = [] then (0, s, False)
        else if decimal ds > 18446744073709551615 then (18446744073709551615, rest, True)
        else (if neg then - of_nat (decimal ds) else of_nat (decimal ds), rest, False))"

text \<open>The value of \<^verbatim>\<open>strtol\<close> in base 10; one that does not fit is replaced by the nearest that does.\<close>

definition strtol10 :: "string \<Rightarrow> s64" where
  "strtol10 s =
     (case number_parts s of (neg, ds, rest) \<Rightarrow>
        if neg then - of_nat (min (decimal ds) (2 ^ 63)) else of_nat (min (decimal ds) (2 ^ 63 - 1)))"

text \<open>\<^verbatim>\<open>%ld\<close>.\<close>

fun show_nat :: "nat \<Rightarrow> string" where
  "show_nat n = (if n < 10 then [char_of (48 + n)] else show_nat (n div 10) @ [char_of (48 + n mod 10)])"

declare show_nat.simps [simp del]

definition show_int :: "int \<Rightarrow> string" where
  "show_int i = (if i < 0 then ''-'' @ show_nat (nat (- i)) else show_nat (nat i))"

section \<open>Printing and reading\<close>

lemma show_nat_digits: "set (show_nat n) \<subseteq> char_of ` {48..<58 :: nat}"
proof (induction n rule: show_nat.induct)
  case (1 n)
  show ?case
  proof (cases "n < 10")
    case False
    have "char_of (48 + n mod 10) \<in> char_of ` {48..<58 :: nat}" by (rule imageI) simp
    with False 1 show ?thesis by (subst show_nat.simps) simp
  next
    case True
    then have "char_of (48 + n) \<in> char_of ` {48..<58 :: nat}" by (intro imageI) simp
    then show ?thesis using True by (subst show_nat.simps) simp
  qed
qed

lemma show_nat_length: "n < 10 ^ Suc k \<Longrightarrow> length (show_nat n) \<le> Suc k"
proof (induction k arbitrary: n)
  case 0
  then show ?case by (subst show_nat.simps) simp
next
  case (Suc k)
  then show ?case by (subst show_nat.simps) auto
qed

lemma show_nat_is_digit: "c \<in> set (show_nat n) \<Longrightarrow> is_digit c"
  using show_nat_digits [of n] by (auto simp: is_digit_def)

lemma show_nat_not_Nil: "show_nat n \<noteq> []"
  by (subst show_nat.simps) simp

lemma decimal_show_nat: "decimal (show_nat n) = n"
proof (induction n rule: show_nat.induct)
  case (1 n)
  then show ?case by (cases "n < 10"; subst show_nat.simps) (simp_all add: decimal_def)
qed

lemma number_parts_show_nat:
  assumes "\<forall>c \<in> set blanks. is_space c" and "rest = [] \<or> \<not> is_digit (hd rest)" and "sign = [] \<or> sign = ''-''"
  shows "number_parts (blanks @ sign @ show_nat n @ rest) = (sign = ''-'', show_nat n, rest)"
proof -
  obtain d ds where ds: "show_nat n = d # ds" using show_nat_not_Nil by (cases "show_nat n") auto
  then have d: "is_digit d" using show_nat_is_digit [of d n] by simp
  then have sign: "d \<noteq> CHR ''-''" "d \<noteq> CHR ''+''" and "\<not> is_space d" by (auto simp: is_digit_def is_space_def)
  moreover have "\<not> is_space (CHR ''-'')" by (simp add: is_space_def)
  ultimately have "dropWhile is_space (sign @ show_nat n @ rest) = sign @ show_nat n @ rest" using assms(3) unfolding ds by fastforce
  then have "dropWhile is_space (blanks @ sign @ show_nat n @ rest) = sign @ show_nat n @ rest"
    using assms(1) by (simp add: dropWhile_append2)
  moreover have "takeWhile is_digit rest = []" "dropWhile is_digit rest = rest" using assms(2) by (cases rest; simp)+
  then have "takeWhile is_digit (show_nat n @ rest) = show_nat n" "dropWhile is_digit (show_nat n @ rest) = rest"
    using show_nat_is_digit by (simp_all add: takeWhile_append2 dropWhile_append2)
  ultimately show ?thesis using assms(3) sign ds unfolding number_parts_def Let_def by fastforce
qed

lemma strtol10_show_int:
  assumes "- (2 ^ 63) \<le> i" "i < 2 ^ 63" and "\<forall>c \<in> set blanks. is_space c" and "rest = [] \<or> \<not> is_digit (hd rest)"
  shows "strtol10 (blanks @ show_int i @ rest) = word_of_int i"
proof (cases "i < 0")
  case True
  then have parts: "number_parts (blanks @ show_int i @ rest) = (True, show_nat (nat (- i)), rest)"
    using number_parts_show_nat [OF assms(3,4), of "''-''" "nat (- i)"] by (simp add: show_int_def)
  have "min (nat (- i)) (2 ^ 63) = nat (- i)" using assms(1) by (simp add: min_def nat_le_iff)
  then show ?thesis using True unfolding strtol10_def parts by (simp add: decimal_show_nat)
next
  case False
  then have parts: "number_parts (blanks @ show_int i @ rest) = (False, show_nat (nat i), rest)"
    using number_parts_show_nat [OF assms(3,4), of "[]" "nat i"] by (simp add: show_int_def)
  have "min (nat i) (2 ^ 63 - 1) = nat i" using assms(2) False by (simp add: min_def nat_le_iff)
  then show ?thesis using False unfolding strtol10_def parts by (simp add: decimal_show_nat)
qed

end
