(* ===== verification/Tgc_Process.thy ===== *)
theory Tgc_Process
  imports Tgc_Waiter_Queue Tgc_Sem_Waiters Tgc_Text
begin

text \<open>
  Detecting process exits, from \<^verbatim>\<open>src/reference-termux-glibc-compat/src/broker_server.c\<close>: the table of
  watched processes, the pidfd and \<^verbatim>\<open>/proc\<close> checks, and one pass of the monitor thread. What the kernel
  answers is a parameter of type \<open>kernel\<close>; every step of the broker gets its own.
\<close>

section \<open>The kernel's answers\<close>

text \<open>
  \<open>k_pidfd_open\<close> is the descriptor or minus the errno; \<open>k_stat\<close> the inode or the errno; \<open>k_read_file\<close> the
  errno of \<^verbatim>\<open>open\<close>, or the bytes the first \<^verbatim>\<open>read\<close> delivers (none when it fails); \<open>k_poll\<close> the result and
  the returned events of \<^verbatim>\<open>poll\<close> with timeout 0.
\<close>

record kernel =
  k_pidfd_open :: "s32 \<Rightarrow> s32"
  k_stat :: "string \<Rightarrow> s32 + u64"
  k_read_file :: "string \<Rightarrow> s32 + string"
  k_poll :: "s32 \<Rightarrow> s32 \<times> s16"

definition TGC_MAX_UNDO_PROCESSES :: nat where [simp]: "TGC_MAX_UNDO_PROCESSES = 1024"
definition PROCESS_CHECK_INTERVAL_NS :: int where [simp]: "PROCESS_CHECK_INTERVAL_NS = 250000000"

definition open_pidfd :: "kernel \<Rightarrow> s32 \<Rightarrow> s32" where
  "open_pidfd k pid = k_pidfd_open k pid"

section \<open>The /proc fallback\<close>

definition proc_path :: "s32 \<Rightarrow> string \<Rightarrow> s32 + string" where
  "proc_path pid suffix =
     (let output = ''/proc/'' @ show_int (sint pid) @ suffix in
      if length output < 64 then Inr output else Inl (- EOVERFLOW))"

text \<open>The result and the inode; both callers start from inode 0, which an error leaves in place.\<close>

definition read_proc_identity :: "kernel \<Rightarrow> s32 \<Rightarrow> s32 \<times> u64" where
  "read_proc_identity k pid =
     (case proc_path pid '''' of
        Inl r \<Rightarrow> (r, 0)
      | Inr path \<Rightarrow> (case k_stat k path of Inl errno \<Rightarrow> (- errno, 0) | Inr inode \<Rightarrow> (0, inode)))"

text \<open>
  The text after the last closing parenthesis of the C string in the buffer, if there is one: what
  \<^verbatim>\<open>strrchr(buffer, ')') + 1\<close> points to.
\<close>

definition after_last_parenthesis :: "string \<Rightarrow> string option" where
  "after_last_parenthesis buffer =
     (let s = takeWhile (\<lambda>c. c \<noteq> CHR 0x00) buffer in
      if CHR '')'' \<in> set s then Some (rev (takeWhile (\<lambda>c. c \<noteq> CHR '')'') (rev s))) else None)"

definition stat_line_is_exited :: "string \<Rightarrow> bool" where
  "stat_line_is_exited buffer =
     (case after_last_parenthesis buffer of
        Some (a # b # _) \<Rightarrow> a = CHR '' '' \<and> (b = CHR ''Z'' \<or> b = CHR ''X'')
      | _ \<Rightarrow> False)"

definition proc_state_is_exited :: "kernel \<Rightarrow> s32 \<Rightarrow> u64 \<Rightarrow> bool" where
  "proc_state_is_exited k pid expected_inode =
     (let (r, current_inode) = read_proc_identity k pid in
      if r = - ENOENT \<or> r = 0 \<and> current_inode \<noteq> expected_inode then True
      else if r \<noteq> 0 then False
      else
        case proc_path pid ''/stat'' of
          Inl _ \<Rightarrow> False
        | Inr path \<Rightarrow>
            (case k_read_file k path of
               Inl errno \<Rightarrow> errno = ENOENT
             | Inr content \<Rightarrow>
                 let buffer = take 255 content in
                 if buffer = [] then False else stat_line_is_exited buffer))"

definition process_has_exited :: "kernel \<Rightarrow> tgc_process_watcher \<Rightarrow> bool" where
  "process_has_exited k watcher =
     (if 0 \<le> sint (pw_pidfd watcher)
      then let (r, revents) = k_poll k (pw_pidfd watcher)
           in 0 < sint r \<and> revents AND (1 OR 16 OR 8) \<noteq> 0
      else proc_state_is_exited k (pw_pid watcher) (pw_proc_inode watcher))"

section \<open>The table of watched processes\<close>

definition has_process_watchers :: "tgc_broker \<Rightarrow> bool" where
  "has_process_watchers broker \<longleftrightarrow> (\<exists>w \<in> set (br_process_watchers broker). pw_active w)"

definition cleared_watcher :: tgc_process_watcher where
  "cleared_watcher = \<lparr>pw_pid = 0, pw_pidfd = - 1, pw_proc_inode = 0, pw_active = False\<rparr>"

text \<open>The two things the scan of \<^verbatim>\<open>watch_process\<close> looks for.\<close>

definition find_watcher :: "tgc_broker \<Rightarrow> s32 \<Rightarrow> nat option" where
  "find_watcher broker pid =
     first_index (\<lambda>w. pw_active w \<and> pw_pid w = pid) (br_process_watchers broker)"

definition find_available :: "tgc_broker \<Rightarrow> nat option" where
  "find_available broker = first_index (\<lambda>w. \<not> pw_active w) (br_process_watchers broker)"

text \<open>The last component says whether the condition variable was signalled.\<close>

definition watch_process :: "kernel \<Rightarrow> tgc_broker \<Rightarrow> s32 \<Rightarrow> s32 \<times> tgc_broker \<times> bool" where
  "watch_process k broker pid =
     (if find_watcher broker pid \<noteq> None then (0, broker, False)
      else
        case find_available broker of
          None \<Rightarrow> (- ENOSPC, broker, False)
        | Some available \<Rightarrow>
            let pidfd = open_pidfd k pid;
                (r, proc_inode) = (if negative pidfd then read_proc_identity k pid else (0, 0))
            in if r \<noteq> 0 then (r, broker, False)
               else (0, broker\<lparr>br_process_watchers := (br_process_watchers broker)
                      [available := \<lparr>pw_pid = pid,
                                     pw_pidfd = (if 0 \<le> sint pidfd then pidfd else - 1),
                                     pw_proc_inode = proc_inode,
                                     pw_active = True\<rparr>]\<rparr>, True))"

section \<open>One pass of the monitor\<close>

text \<open>
  The body of the \<^verbatim>\<open>for\<close> loop of \<^verbatim>\<open>monitor_process_exits\<close> for one slot; the flag records whether the
  condition variable was signalled.
\<close>

fun monitor_entry ::
  "kernel \<Rightarrow> (nat \<Rightarrow> nat \<Rightarrow> s64 option) \<Rightarrow> nat \<Rightarrow> tgc_broker \<times> bool \<Rightarrow> tgc_broker \<times> bool" where
  "monitor_entry k clks i (broker, signalled) =
     (let watcher = br_process_watchers broker ! i in
      if \<not> pw_active watcher \<or> \<not> process_has_exited k watcher then (broker, signalled)
      else
        let (changed, store) = tgc_sem_store_process_exit (clks i) (br_store broker) (pw_pid watcher)
        in (broker\<lparr>br_store := store,
                   br_process_watchers := (br_process_watchers broker)[i := cleared_watcher]\<rparr>,
            signalled \<or> 0 < sint changed))"

definition monitor_pass ::
  "kernel \<Rightarrow> (nat \<Rightarrow> nat \<Rightarrow> s64 option) \<Rightarrow> tgc_broker \<Rightarrow> tgc_broker \<times> bool" where
  "monitor_pass k clks broker =
     fold (monitor_entry k clks) [0..<length (br_process_watchers broker)] (broker, False)"

text \<open>The absolute time one check interval from now, with the nanoseconds normalised.\<close>

definition after_interval :: "timespec \<Rightarrow> timespec" where
  "after_interval now =
     (let nsec = tv_nsec now + PROCESS_CHECK_INTERVAL_NS in
      if nsec \<ge> 1000000000 then \<lparr>tv_sec = tv_sec now + 1, tv_nsec = nsec - 1000000000\<rparr>
      else \<lparr>tv_sec = tv_sec now, tv_nsec = nsec\<rparr>)"

text \<open>
  What the monitor does after a pass: stop, sleep until signalled, or sleep until a deadline. \<open>monotonic\<close> is
  the \<^verbatim>\<open>CLOCK_MONOTONIC\<close> reading.
\<close>

datatype monitor_action = Monitor_Stop | Monitor_Wait | Monitor_Timed_Wait timespec

definition monitor_next :: "timespec option \<Rightarrow> tgc_broker \<Rightarrow> monitor_action" where
  "monitor_next monotonic broker =
     (if br_stop_process_monitor broker then Monitor_Stop
      else if \<not> has_process_watchers broker then Monitor_Wait
      else case monotonic of None \<Rightarrow> Monitor_Stop | Some now \<Rightarrow> Monitor_Timed_Wait (after_interval now))"

section \<open>Properties\<close>

interpretation watcher_table: slot_table br_process_watchers pw_active pw_pid find_watcher find_available
  by unfold_locales (simp_all add: find_watcher_def find_available_def)

lemma show_int_length: "length (show_int (sint (pid :: s32))) \<le> 11"
proof -
  have "nat (sint pid) < 10 ^ Suc 9" "nat (- sint pid) < 10 ^ Suc 9"
    using sint_bounds32 [of pid] by (simp_all add: nat_less_iff)
  then show ?thesis
    using show_nat_length [of "nat (sint pid)" 9] show_nat_length [of "nat (- sint pid)" 9]
    by (simp add: show_int_def)
qed

lemma proc_path_fits:
  assumes "length suffix < 46"
  shows "proc_path pid suffix = Inr (''/proc/'' @ show_int (sint pid) @ suffix)"
  using show_int_length [of pid] assms by (simp add: proc_path_def)

text \<open>The state letter after the command name, whatever the name contains.\<close>

lemma after_last_parenthesis_append:
  assumes "CHR 0x00 \<notin> set (pre @ CHR '')'' # post)" and "CHR '')'' \<notin> set post"
  shows "after_last_parenthesis (pre @ CHR '')'' # post) = Some post"
proof -
  have s: "takeWhile (\<lambda>c. c \<noteq> CHR 0x00) (pre @ CHR '')'' # post) = pre @ CHR '')'' # post"
    using assms(1) by (intro takeWhile_eq_all_conv [THEN iffD2]) auto
  moreover have "takeWhile (\<lambda>c. c \<noteq> CHR '')'') (rev post @ CHR '')'' # rev pre) = rev post"
    using assms(2) by (subst takeWhile_append2) auto
  ultimately show ?thesis
    unfolding after_last_parenthesis_def Let_def s by simp
qed

definition watchers_wf :: "tgc_broker \<Rightarrow> bool" where
  "watchers_wf b \<longleftrightarrow>
     length (br_process_watchers b) = TGC_MAX_UNDO_PROCESSES \<and>
     slots_unique pw_active pw_pid (br_process_watchers b) \<and>
     (\<forall>w \<in> set (br_process_watchers b). pw_active w \<longrightarrow> 0 < sint (pw_pid w))"

abbreviation watched :: "tgc_broker \<Rightarrow> s32 \<Rightarrow> bool" where
  "watched b pid \<equiv> find_watcher b pid \<noteq> None"

lemma watched_iff: "watched b pid \<longleftrightarrow> (\<exists>w \<in> set (br_process_watchers b). pw_active w \<and> pw_pid w = pid)"
  by (simp add: find_watcher_def first_index_None_iff)

lemma find_watcher_cong:
  "br_process_watchers b = br_process_watchers b' \<Longrightarrow> find_watcher b pid = find_watcher b' pid"
  by (simp add: find_watcher_def)

lemma watch_process_ok:
  assumes wf: "watchers_wf b" and pid: "0 < sint pid" and call: "watch_process k b pid = (r, b', sg)"
  shows "watchers_wf b'" and "r = 0 \<Longrightarrow> watched b' pid" and "watched b p \<Longrightarrow> watched b' p"
    and "r \<noteq> 0 \<Longrightarrow> b' = b" and "b'\<lparr>br_process_watchers := br_process_watchers b\<rparr> = b"
proof -
  consider (same) "b' = b" "r = 0 \<Longrightarrow> watched b pid"
    | (new) i w where "\<not> watched b pid" "find_available b = Some i" "r = 0" "pw_active w" "pw_pid w = pid"
      "b' = b\<lparr>br_process_watchers := (br_process_watchers b)[i := w]\<rparr>"
  proof (cases "watched b pid \<or> find_available b = None \<or> r \<noteq> 0")
    case True
    then have "b' = b" "r = 0 \<Longrightarrow> watched b pid"
      using call by (auto simp: watch_process_def Let_def split: option.splits prod.splits if_splits)
    then show ?thesis by (rule that(1))
  next
    case False
    then obtain i where i: "find_available b = Some i" by auto
    with False call obtain fd ino where "b' = b\<lparr>br_process_watchers := (br_process_watchers b)
        [i := \<lparr>pw_pid = pid, pw_pidfd = fd, pw_proc_inode = ino, pw_active = True\<rparr>]\<rparr>"
      by (auto simp: watch_process_def Let_def split: prod.splits if_splits)
    with False i show ?thesis by (intro that(2)) auto
  qed
  then have "watchers_wf b' \<and> (r = 0 \<longrightarrow> watched b' pid) \<and> (watched b p \<longrightarrow> watched b' p) \<and>
      (r \<noteq> 0 \<longrightarrow> b' = b) \<and> b'\<lparr>br_process_watchers := br_process_watchers b\<rparr> = b"
  proof cases
    case same
    then show ?thesis using wf by auto
  next
    case new
    have i: "i < length (br_process_watchers b)" "\<not> pw_active (br_process_watchers b ! i)"
      using watcher_table.free_SomeD [OF new(2)] by auto
    have "slots_unique pw_active pw_pid ((br_process_watchers b)[i := w])"
      by (rule watcher_table.insert_unique) (use wf new in \<open>auto simp: watchers_wf_def\<close>)
    then have "watchers_wf b'"
      using wf new pid by (auto simp: watchers_wf_def dest!: set_update_ballD)
    moreover have "w \<in> set (br_process_watchers b')" using new i by (auto simp: set_update_memI)
    then have "watched b' pid" unfolding watched_iff using new by blast
    moreover have "watched b' p" if "watched b p"
    proof -
      from that obtain j where j: "find_watcher b p = Some j" by blast
      note J = watcher_table.lookup_SomeD [OF j]
      have "br_process_watchers b' ! j = br_process_watchers b ! j" "j < length (br_process_watchers b')"
        using J i new by (cases "j = i", auto)
      then show ?thesis unfolding watched_iff using J by (metis nth_mem)
    qed
    ultimately show ?thesis using new by auto
  qed
  then show "watchers_wf b'" "r = 0 \<Longrightarrow> watched b' pid" "watched b p \<Longrightarrow> watched b' p"
    "r \<noteq> 0 \<Longrightarrow> b' = b" "b'\<lparr>br_process_watchers := br_process_watchers b\<rparr> = b" by auto
qed

text \<open>A process some active watcher of which is found to have exited.\<close>

definition exit_detected :: "kernel \<Rightarrow> tgc_broker \<Rightarrow> nat set \<Rightarrow> s32 \<Rightarrow> bool" where
  "exit_detected k b js pid \<longleftrightarrow>
     (\<exists>j \<in> js. j < length (br_process_watchers b) \<and> pw_active (br_process_watchers b ! j) \<and>
        pw_pid (br_process_watchers b ! j) = pid \<and> process_has_exited k (br_process_watchers b ! j))"

lemma process_exit_unchanged:
  assumes "store_wf st" and "0 < sint pid" and "tgc_sem_store_process_exit clk st pid = (r, st')" and "\<not> 0 < sint r"
  shows "sem_value st' = sem_value st"
proof -
  note E = process_exit_ok [OF assms(1-3)]
  have zero: "undo_of st pid x m = 0" for x m
    using E(4) assms(4) by (auto split: if_splits)
  show ?thesis
  proof (intro ext)
    show "sem_value st' x n = sem_value st x n" for x n
      using E(3) [of x n] zero sem_value_range [OF assms(1), of x n]
      by (cases "sem_value st x n") (simp_all add: clamp_value_id)
  qed
qed

lemma monitor_entry_ok:
  assumes wf: "store_wf (br_store b)" and ww: "watchers_wf b" and i: "i < length (br_process_watchers b)"
    and call: "monitor_entry k clks i (b, sg) = (b', sg')"
  shows "store_wf (br_store b')" and "watchers_wf b'" and "store_shape (br_store b') = store_shape (br_store b)"
    and "br_process_watchers b' = (br_process_watchers b)
      [i := if pw_active (br_process_watchers b ! i) \<and> process_has_exited k (br_process_watchers b ! i)
            then cleared_watcher else br_process_watchers b ! i]"
    and "undo_of (br_store b') p x m = (if exit_detected k b {i} p then 0 else undo_of (br_store b) p x m)"
    and "\<not> sg' \<Longrightarrow> \<not> sg \<and> sem_value (br_store b') = sem_value (br_store b)"
    and "b'\<lparr>br_store := br_store b, br_process_watchers := br_process_watchers b\<rparr> = b"
proof -
  let ?w = "br_process_watchers b ! i"
  have "store_wf (br_store b') \<and> watchers_wf b' \<and> store_shape (br_store b') = store_shape (br_store b) \<and>
    br_process_watchers b' = (br_process_watchers b)
      [i := if pw_active ?w \<and> process_has_exited k ?w then cleared_watcher else ?w] \<and>
    undo_of (br_store b') p x m = (if exit_detected k b {i} p then 0 else undo_of (br_store b) p x m) \<and>
    (\<not> sg' \<longrightarrow> \<not> sg \<and> sem_value (br_store b') = sem_value (br_store b)) \<and>
    b'\<lparr>br_store := br_store b, br_process_watchers := br_process_watchers b\<rparr> = b"
  proof (cases "pw_active ?w \<and> process_has_exited k ?w")
    case False
    then have "b' = b" "sg' = sg" using call by auto
    then show ?thesis using wf ww False by (auto simp: exit_detected_def)
  next
    case True
    obtain r st' where e: "tgc_sem_store_process_exit (clks i) (br_store b) (pw_pid ?w) = (r, st')"
      by fastforce
    have pid: "0 < sint (pw_pid ?w)" using ww True i by (auto simp: watchers_wf_def)
    note E = process_exit_ok [OF wf pid e]
    have b': "b' = b\<lparr>br_store := st', br_process_watchers := (br_process_watchers b)[i := cleared_watcher]\<rparr>"
      and sg': "sg' \<longleftrightarrow> sg \<or> 0 < sint r"
      using call True e by auto
    have "watchers_wf b'"
      using ww unfolding b' watchers_wf_def
      by (auto simp: cleared_watcher_def intro: slots_unique_deactivate dest!: set_update_ballD)
    moreover have "exit_detected k b {i} p \<longleftrightarrow> p = pw_pid ?w" using True i by (auto simp: exit_detected_def)
    moreover have "store_shape st' = store_shape (br_store b)"
      using shape_process_exit [of "clks i" "br_store b" "pw_pid ?w"] e by simp
    moreover have "\<not> sg' \<longrightarrow> \<not> sg \<and> sem_value st' = sem_value (br_store b)"
      using process_exit_unchanged [OF wf pid e] sg' by blast
    ultimately show ?thesis using E(1,2) True by (simp add: b')
  qed
  then show "store_wf (br_store b')" "watchers_wf b'" "store_shape (br_store b') = store_shape (br_store b)"
    "br_process_watchers b' = (br_process_watchers b)
      [i := if pw_active ?w \<and> process_has_exited k ?w then cleared_watcher else ?w]"
    "undo_of (br_store b') p x m = (if exit_detected k b {i} p then 0 else undo_of (br_store b) p x m)"
    "\<not> sg' \<Longrightarrow> \<not> sg \<and> sem_value (br_store b') = sem_value (br_store b)"
    "b'\<lparr>br_store := br_store b, br_process_watchers := br_process_watchers b\<rparr> = b" by auto
qed

lemma monitor_fold_ok:
  assumes "store_wf (br_store b)" and "watchers_wf b" and "set ks \<subseteq> {..<length (br_process_watchers b)}"
    and "distinct ks" and "fold (monitor_entry k clks) ks (b, sg) = (b', sg')"
  shows "store_wf (br_store b') \<and> watchers_wf b' \<and> store_shape (br_store b') = store_shape (br_store b) \<and>
    length (br_process_watchers b') = length (br_process_watchers b) \<and>
    (\<forall>j < length (br_process_watchers b). br_process_watchers b' ! j =
       (if j \<in> set ks \<and> pw_active (br_process_watchers b ! j) \<and> process_has_exited k (br_process_watchers b ! j)
        then cleared_watcher else br_process_watchers b ! j)) \<and>
    (\<forall>p x m. undo_of (br_store b') p x m =
       (if exit_detected k b (set ks) p then 0 else undo_of (br_store b) p x m)) \<and>
    (\<not> sg' \<longrightarrow> \<not> sg \<and> sem_value (br_store b') = sem_value (br_store b)) \<and>
    b'\<lparr>br_store := br_store b, br_process_watchers := br_process_watchers b\<rparr> = b"
  using assms
proof (induction ks arbitrary: b sg)
  case Nil
  then show ?case by (auto simp: exit_detected_def)
next
  case (Cons i ks)
  obtain b1 sg1 where m: "monitor_entry k clks i (b, sg) = (b1, sg1)" by fastforce
  have i: "i < length (br_process_watchers b)" using Cons.prems by simp
  note M = monitor_entry_ok [OF Cons.prems(1,2) i m]
  have len: "length (br_process_watchers b1) = length (br_process_watchers b)" by (simp add: M(4))
  have f: "fold (monitor_entry k clks) ks (b1, sg1) = (b', sg')"
    using Cons.prems(5) unfolding fold_Cons o_apply m .
  have "set ks \<subseteq> {..<length (br_process_watchers b1)}" "distinct ks" using Cons.prems(3,4) len by auto
  note IH = Cons.IH [OF M(1,2) this f, unfolded len]
  have nth1: "br_process_watchers b1 ! j = br_process_watchers b ! j" if "j \<in> set ks" for j
    using that Cons.prems(4) by (metis M(4) distinct.simps(2) nth_list_update_neq)
  have det: "exit_detected k b1 (set ks) p \<longleftrightarrow> exit_detected k b (set ks) p" for p
    unfolding exit_detected_def len using nth1 by auto
  have un: "undo_of (br_store b') p x m =
      (if exit_detected k b (set (i # ks)) p then 0 else undo_of (br_store b) p x m)" for p x m
    using IH M(5) [of p x m] det by (auto simp: exit_detected_def)
  have nth: "br_process_watchers b' ! j =
      (if j \<in> set (i # ks) \<and> pw_active (br_process_watchers b ! j) \<and> process_has_exited k (br_process_watchers b ! j)
       then cleared_watcher else br_process_watchers b ! j)" if "j < length (br_process_watchers b)" for j
    using IH that M(4) nth1 [of j] Cons.prems(4) by (cases "j = i") (auto simp: nth_update_if)
  have fr: "b'\<lparr>br_store := br_store b, br_process_watchers := br_process_watchers b\<rparr> = b"
  proof -
    have "b'\<lparr>br_store := br_store b1, br_process_watchers := br_process_watchers b1\<rparr> = b1" using IH by blast
    then have "b1\<lparr>br_store := br_store b, br_process_watchers := br_process_watchers b\<rparr> =
        b'\<lparr>br_store := br_store b1, br_process_watchers := br_process_watchers b1,
           br_store := br_store b, br_process_watchers := br_process_watchers b\<rparr>" by simp
    then show ?thesis using M(7) by simp
  qed
  show ?case using IH M(3,6) un nth fr by auto
qed

abbreviation undo_watched :: "tgc_broker \<Rightarrow> bool" where
  "undo_watched b \<equiv> \<forall>pid x m. undo_of (br_store b) pid x m \<noteq> 0 \<longrightarrow> watched b pid"

text \<open>A broker whose only watched process is 42, with pidfd 9, over the demo store.\<close>

definition demo_watching :: tgc_broker where
  "demo_watching =
     \<lparr>br_store = demo_store, br_nodes = (\<lambda>_. undefined), br_waiters_head = None, br_waiters_tail = None,
      br_process_watchers = (replicate 1024 cleared_watcher)
        [0 := \<lparr>pw_pid = 42, pw_pidfd = 9, pw_proc_inode = 0, pw_active = True\<rparr>],
      br_process_monitor_started = True, br_stop_process_monitor = False\<rparr>"

text \<open>A kernel that reports the exit of every process.\<close>

definition demo_kernel :: kernel where
  "demo_kernel = \<lparr>k_pidfd_open = (\<lambda>_. 9), k_stat = (\<lambda>_. Inl ENOENT), k_read_file = (\<lambda>_. Inl ENOENT),
     k_poll = (\<lambda>_. (1, 1))\<rparr>"

lemma demo_watchers_wf: "watchers_wf demo_watching"
proof -
  have "slots_unique pw_active pw_pid (br_process_watchers demo_watching)"
    unfolding demo_watching_def
    by (simp, rule slots_unique_insert) (auto simp: cleared_watcher_def intro: slots_unique_inactive)
  then show ?thesis
    by (auto simp: watchers_wf_def demo_watching_def cleared_watcher_def dest!: set_update_ballD)
qed

lemma monitor_pass_ok:
  assumes "store_wf (br_store b)" and "watchers_wf b" and "monitor_pass k clks b = (b', signalled)"
  shows "store_wf (br_store b') \<and> watchers_wf b' \<and>
    undo_of (br_store b') p x m =
      (if exit_detected k b UNIV p then 0 else undo_of (br_store b) p x m) \<and>
    (watched b' p \<longleftrightarrow> watched b p \<and> \<not> exit_detected k b UNIV p) \<and>
    (undo_watched b \<longrightarrow> undo_watched b') \<and>
    wait_count (br_store b') x n z = wait_count (br_store b) x n z \<and>
    b'\<lparr>br_store := br_store b, br_process_watchers := br_process_watchers b\<rparr> = b \<and>
    (\<not> signalled \<longrightarrow> sem_value (br_store b') = sem_value (br_store b))"
proof -
  let ?N = "length (br_process_watchers b)"
  have "set [0..<?N] \<subseteq> {..<?N}" "distinct [0..<?N]" by auto
  note F = monitor_fold_ok [OF assms(1,2) this assms(3) [unfolded monitor_pass_def]]
  have det: "exit_detected k b (set [0..<?N]) q \<longleftrightarrow> exit_detected k b UNIV q" for q
    by (auto simp: exit_detected_def)
  have nth: "br_process_watchers b' ! j =
      (if pw_active (br_process_watchers b ! j) \<and> process_has_exited k (br_process_watchers b ! j)
       then cleared_watcher else br_process_watchers b ! j)" if "j < ?N" for j
    using F that by auto
  have len: "length (br_process_watchers b') = ?N" using F by blast
  have w: "watched b' q \<longleftrightarrow> watched b q \<and> \<not> exit_detected k b UNIV q" for q
  proof
    assume "watched b' q"
    then obtain j where j: "j < ?N" "pw_active (br_process_watchers b' ! j)" "pw_pid (br_process_watchers b' ! j) = q"
      unfolding watched_iff using len by (metis in_set_conv_nth)
    then have same: "br_process_watchers b' ! j = br_process_watchers b ! j"
      and alive: "\<not> process_has_exited k (br_process_watchers b ! j)"
      using nth [of j] by (auto simp: cleared_watcher_def split: if_splits)
    have "watched b q" unfolding watched_iff using j same by (metis nth_mem)
    moreover have "\<not> exit_detected k b UNIV q"
    proof
      assume "exit_detected k b UNIV q"
      then obtain l where l: "l < ?N" "pw_active (br_process_watchers b ! l)" "pw_pid (br_process_watchers b ! l) = q"
        "process_has_exited k (br_process_watchers b ! l)" by (auto simp: exit_detected_def)
      have "j = l"
        using assms(2) j l same unfolding watchers_wf_def by (metis slots_uniqueD)
      then show False using l(4) alive by simp
    qed
    ultimately show "watched b q \<and> \<not> exit_detected k b UNIV q" ..
  next
    assume a: "watched b q \<and> \<not> exit_detected k b UNIV q"
    then obtain j where j: "j < ?N" "pw_active (br_process_watchers b ! j)" "pw_pid (br_process_watchers b ! j) = q"
      unfolding watched_iff by (auto simp: in_set_conv_nth)
    then have "br_process_watchers b' ! j = br_process_watchers b ! j"
      using nth [of j] a by (auto simp: exit_detected_def)
    then show "watched b' q" unfolding watched_iff using j F by (metis nth_mem)
  qed
  have un: "undo_of (br_store b') q y l = (if exit_detected k b UNIV q then 0 else undo_of (br_store b) q y l)" for q y l
    using F det by simp
  have "undo_watched b'" if "undo_watched b" using that un w by auto
  moreover have "wait_count (br_store b') x n z = wait_count (br_store b) x n z"
    using F assms(1) by (intro wait_count_shape) auto
  ultimately show ?thesis using F un w by blast
qed

text \<open>
  One pass of the exit monitor over the watched processes: the undo adjustments of every process found
  dead, and of no other, are dropped from the store and its watcher is freed; every other watcher stays; if
  every process with adjustments was watched before, this is still so after; identifiers, waiter counters and
  the waiter queue are untouched; and when the pass does not wake the waiters, no semaphore value changed.
\<close>

theorem monitor_pass_applies_exits:
  assumes "store_wf (br_store b)" and "watchers_wf b" and "monitor_pass k clks b = (b', signalled)"
  shows "store_wf (br_store b') \<and> watchers_wf b' \<and>
    undo_of (br_store b') p x m =
      (if exit_detected k b UNIV p then 0 else undo_of (br_store b) p x m) \<and>
    (watched b' p \<longleftrightarrow> watched b p \<and> \<not> exit_detected k b UNIV p) \<and>
    (undo_watched b \<longrightarrow> undo_watched b') \<and>
    wait_count (br_store b') x n z = wait_count (br_store b) x n z \<and>
    b'\<lparr>br_store := br_store b, br_process_watchers := br_process_watchers b\<rparr> = b \<and>
    (\<not> signalled \<longrightarrow> sem_value (br_store b') = sem_value (br_store b))"
  using assms by (rule monitor_pass_ok)

theorem monitor_pass_applies_exits_witness:
  "\<not> watched (fst (monitor_pass demo_kernel (\<lambda>_ _. None) demo_watching)) 42"
proof -
  have "exit_detected demo_kernel demo_watching UNIV 42"
    unfolding exit_detected_def
    by (rule bexI [of _ 0]) (simp_all add: demo_watching_def process_has_exited_def demo_kernel_def)
  moreover have "store_wf (br_store demo_watching)" using demo_wf by (simp add: demo_watching_def)
  ultimately show ?thesis
    using monitor_pass_applies_exits [OF _ demo_watchers_wf prod.collapse [symmetric],
        of demo_kernel "\<lambda>_ _. None" 42 0 0 0 False] by blast
qed

text \<open>
  The \<^verbatim>\<open>/proc/<pid>/stat\<close> check reads the state letter after the command name for every command name,
  also one with spaces or parentheses: if the inode is the recorded one and the line is
  \<open>pid (name) S ...\<close> with no later parenthesis, the process counts as exited exactly when \<open>S\<close> is \<open>Z\<close> or \<open>X\<close>.
\<close>

theorem proc_state_reads_state_letter:
  assumes "k_stat k (''/proc/'' @ show_int (sint pid)) = Inr inode"
    and "k_read_file k (''/proc/'' @ show_int (sint pid) @ ''/stat'') = Inr line"
    and "line = pre @ CHR '')'' # CHR '' '' # S # post" and "length line \<le> 255"
    and "CHR 0x00 \<notin> set line" and "CHR '')'' \<notin> set (S # post)"
  shows "proc_state_is_exited k pid inode \<longleftrightarrow> S = CHR ''Z'' \<or> S = CHR ''X''"
proof -
  have "read_proc_identity k pid = (0, inode)"
    using assms(1) proc_path_fits [of "[]" pid] by (simp add: read_proc_identity_def)
  moreover have "proc_path pid ''/stat'' = Inr (''/proc/'' @ show_int (sint pid) @ ''/stat'')"
    by (rule proc_path_fits) simp
  moreover have "take 255 line = line" "line \<noteq> []" using assms(3,4) by auto
  moreover have "after_last_parenthesis line = Some (CHR '' '' # S # post)"
    unfolding assms(3) by (rule after_last_parenthesis_append) (use assms(3,5,6) in auto)
  ultimately show ?thesis
    using assms(2) by (simp add: proc_state_is_exited_def stat_line_is_exited_def)
qed

definition demo_proc_kernel :: kernel where
  "demo_proc_kernel = demo_kernel\<lparr>k_stat := (\<lambda>_. Inr 77), k_read_file := (\<lambda>_. Inr ''42 (a) R (b) Z 1 2'')\<rparr>"

theorem proc_state_reads_state_letter_witness: "proc_state_is_exited demo_proc_kernel 42 77"
proof -
  let ?line = "''42 (a) R (b) Z 1 2''"
  have "k_stat demo_proc_kernel path = Inr 77" "k_read_file demo_proc_kernel path = Inr ?line" for path
    by (simp_all add: demo_proc_kernel_def)
  moreover have "?line = ''42 (a) R (b'' @ CHR '')'' # CHR '' '' # CHR ''Z'' # '' 1 2''" by simp
  moreover have "length ?line \<le> 255" "CHR 0x00 \<notin> set ?line" "CHR '')'' \<notin> set (CHR ''Z'' # '' 1 2'')"
    by simp_all
  ultimately have "proc_state_is_exited demo_proc_kernel 42 77 \<longleftrightarrow> CHR ''Z'' = CHR ''Z'' \<or> CHR ''Z'' = CHR ''X''"
    by (rule proc_state_reads_state_letter)
  then show ?thesis by simp
qed

end
