(* ===== verification/Tgc_Transport.thy ===== *)
theory Tgc_Transport
  imports Tgc_Wire
begin

text \<open>
  The Unix-socket transport of \<^verbatim>\<open>src/reference-termux-glibc-compat/src/transport.c\<close>. A socket is the sequence of
  answers its \<^verbatim>\<open>recv\<close> or \<^verbatim>\<open>send\<close> calls get; when the sequence runs out the call blocks, which is the
  result \<open>None\<close>. The system calls of \<^verbatim>\<open>listen\<close> and \<^verbatim>\<open>connect\<close> are parameters, their side effects a trace.
  Such a socket is open: the checks for a negative descriptor and for a null packet at the start of \<^verbatim>\<open>send\<close>, \<^verbatim>\<open>receive\<close> and the reading of
  credentials, which give \<^verbatim>\<open>-EINVAL\<close>, have no counterpart. Their callers do not reach them: the client exchanges only after \<^verbatim>\<open>ensure_connection\<close> has
  a descriptor that is not negative, and the daemon serves descriptors \<^verbatim>\<open>accept\<close> has returned.
\<close>

section \<open>Sockets as event sequences\<close>

definition TGC_TRANSPORT_EOF :: s32 where [simp]: "TGC_TRANSPORT_EOF = 1"

text \<open>Bytes that have arrived, end of stream, or a failing call with its errno.\<close>

datatype recv_event = Recv_Data "u8 list" | Recv_Eof | Recv_Error s32

text \<open>How many bytes a call accepts, or its errno.\<close>

datatype send_event = Send_Count nat | Send_Error s32

record tgc_peer_credentials =
  cr_pid :: s32
  cr_uid :: u32
  cr_gid :: u32

section \<open>Receiving\<close>

text \<open>
  The loop of \<^verbatim>\<open>receive_exact\<close>: \<open>got\<close> are the bytes received so far. A \<^verbatim>\<open>recv\<close> takes at most what is missing; the
  rest of a chunk stays in the socket.
\<close>

fun receive_exact ::
  "recv_event list \<Rightarrow> nat \<Rightarrow> u8 list \<Rightarrow> bool \<Rightarrow> bool \<Rightarrow> (s32 \<times> u8 list \<times> recv_event list) option" where
  "receive_exact [] len got clean_eof_allowed restart_on_eintr =
     (if length got \<ge> len then Some (0, got, []) else None)"
| "receive_exact (e # es) len got clean_eof_allowed restart_on_eintr =
     (if length got \<ge> len then Some (0, got, e # es)
      else
        case e of
          Recv_Data bytes \<Rightarrow>
            let missing = len - length got in
            if length bytes \<le> missing
            then receive_exact es len (got @ bytes) clean_eof_allowed restart_on_eintr
            else Some (0, got @ take missing bytes, Recv_Data (drop missing bytes) # es)
        | Recv_Eof \<Rightarrow>
            Some (if clean_eof_allowed \<and> got = [] then TGC_TRANSPORT_EOF else - EPROTO, got, e # es)
        | Recv_Error errno \<Rightarrow>
            if errno = EINTR then
              if restart_on_eintr then receive_exact es len got clean_eof_allowed restart_on_eintr
              else Some (- EINTR, got, es)
            else Some (- errno, got, es))"

text \<open>Received bytes overwrite the beginning of the payload buffer.\<close>

definition receive_packet ::
  "recv_event list \<Rightarrow> tgc_protocol_packet \<Rightarrow> bool \<Rightarrow>
   (s32 \<times> tgc_protocol_packet \<times> recv_event list) option" where
  "receive_packet socket packet restart_on_eintr =
     (case receive_exact socket TGC_PROTOCOL_HEADER_SIZE [] True restart_on_eintr of
        None \<Rightarrow> None
      | Some (r, wire_header, socket) \<Rightarrow>
          if r \<noteq> 0 then Some (r, packet, socket)
          else
            case tgc_protocol_decode_header wire_header of
              Inl r \<Rightarrow> Some (r, packet, socket)
            | Inr header \<Rightarrow>
                (case receive_exact socket (unat (h_payload_length header)) [] False restart_on_eintr of
                   None \<Rightarrow> None
                 | Some (r, bytes, socket) \<Rightarrow>
                     Some (r, packet\<lparr>pk_header := header,
                                     pk_payload := bytes @ drop (length bytes) (pk_payload packet)\<rparr>, socket)))"

definition tgc_transport_receive ::
  "recv_event list \<Rightarrow> tgc_protocol_packet \<Rightarrow> (s32 \<times> tgc_protocol_packet \<times> recv_event list) option" where
  "tgc_transport_receive socket packet = receive_packet socket packet True"

definition tgc_transport_receive_interruptible ::
  "recv_event list \<Rightarrow> tgc_protocol_packet \<Rightarrow> (s32 \<times> tgc_protocol_packet \<times> recv_event list) option" where
  "tgc_transport_receive_interruptible socket packet = receive_packet socket packet False"

section \<open>Sending\<close>

text \<open>The result and the bytes the kernel took.\<close>

fun send_exact :: "send_event list \<Rightarrow> u8 list \<Rightarrow> (s32 \<times> u8 list) option" where
  "send_exact es [] = Some (0, [])"
| "send_exact [] (b # bs) = None"
| "send_exact (Send_Count n # es) (b # bs) =
     (if n = 0 then Some (- EPIPE, [])
      else
        case send_exact es (drop n (b # bs)) of
          None \<Rightarrow> None
        | Some (r, sent) \<Rightarrow> Some (r, take n (b # bs) @ sent))"
| "send_exact (Send_Error errno # es) (b # bs) =
     (if errno \<noteq> EINTR then Some (- errno, []) else send_exact es (b # bs))"

text \<open>The bytes of a packet on the wire; \<open>wire0\<close> is the uninitialised stack buffer.\<close>

definition packet_wire :: "u8 list \<Rightarrow> tgc_protocol_packet \<Rightarrow> s32 + u8 list" where
  "packet_wire wire0 packet =
     (case tgc_protocol_encode_header wire0 (pk_header packet) of
        Inl r \<Rightarrow> Inl r
      | Inr wire \<Rightarrow>
          let n = unat (h_payload_length (pk_header packet)) in
          Inr (take (TGC_PROTOCOL_HEADER_SIZE + n)
            (take TGC_PROTOCOL_HEADER_SIZE wire @ take n (pk_payload packet) @
             drop (TGC_PROTOCOL_HEADER_SIZE + n) wire)))"

definition tgc_transport_send ::
  "u8 list \<Rightarrow> send_event list \<Rightarrow> tgc_protocol_packet \<Rightarrow> (s32 \<times> u8 list) option" where
  "tgc_transport_send wire0 socket packet =
     (case packet_wire wire0 packet of Inl r \<Rightarrow> Some (r, []) | Inr wire \<Rightarrow> send_exact socket wire)"

section \<open>Fragmentation\<close>

text \<open>
  The bytes a reader that restarts interrupted calls can get: all data before the end of the stream or
  the first real error.
\<close>

fun stream_bytes :: "recv_event list \<Rightarrow> u8 list" where
  "stream_bytes [] = []"
| "stream_bytes (Recv_Data bytes # es) = bytes @ stream_bytes es"
| "stream_bytes (Recv_Eof # es) = []"
| "stream_bytes (Recv_Error errno # es) = (if errno = EINTR then stream_bytes es else [])"

lemma receive_exact_stream:
  assumes "len \<le> length got + length (stream_bytes es)" and "length got \<le> len"
  shows "\<exists>es'. receive_exact es len got eof True =
      Some (0, got @ take (len - length got) (stream_bytes es), es') \<and>
    stream_bytes es' = drop (len - length got) (stream_bytes es)"
  using assms
proof (induction es arbitrary: got)
  case (Cons e es)
  show ?case
  proof (cases "length got = len")
    case False
    show ?thesis
    proof (cases e)
      case (Recv_Data bytes)
      then show ?thesis
        using Cons.IH [of "got @ bytes"] Cons.prems False
        by (cases "length bytes \<le> len - length got") (auto simp: Let_def)
    qed (use Cons False in \<open>auto split: if_splits\<close>)
  qed simp
qed simp

lemma receive_packet_stream:
  assumes stream: "stream_bytes es = wire @ rest"
    and enc: "tgc_protocol_encode_header (replicate 24 0) h = Inr hdr" and wire: "wire = hdr @ payload"
    and len: "length payload = unat (h_payload_length h)"
  shows "\<exists>es'. tgc_transport_receive es packet =
      Some (0, packet\<lparr>pk_header := h, pk_payload := payload @ drop (length payload) (pk_payload packet)\<rparr>, es') \<and>
    stream_bytes es' = rest"
proof -
  have hl: "length hdr = 24" using encode_header_length [OF enc] by simp
  obtain es1 where es1: "receive_exact es 24 [] True True = Some (0, hdr, es1)" "stream_bytes es1 = payload @ rest"
    using receive_exact_stream [of 24 "[]" es True] stream hl wire by auto
  obtain es2 where es2: "receive_exact es1 (length payload) [] False True = Some (0, payload, es2)"
    "stream_bytes es2 = rest"
    using receive_exact_stream [of "length payload" "[]" es1 False] es1(2) by auto
  have "tgc_protocol_decode_header hdr = Inr h" using decode_encode_header [OF _ enc] by simp
  then show ?thesis using es1 es2 len by (simp add: tgc_transport_receive_def receive_packet_def)
qed

text \<open>A failing call sets a non-zero errno, so a result of 0 means that everything was sent.\<close>

lemma send_exact_ok:
  assumes "send_exact es bs = Some (r, sent)" and "Send_Error 0 \<notin> set es"
  shows "\<exists>rest. bs = sent @ rest \<and> (r = 0 \<longrightarrow> rest = [])"
  using assms
proof (induction es bs arbitrary: r sent rule: send_exact.induct)
  case (3 n es b bs)
  show ?case
  proof (cases "n = 0")
    case False
    then obtain sent' where rec: "send_exact es (drop n (b # bs)) = Some (r, sent')"
      and sent: "sent = take n (b # bs) @ sent'"
      using 3 by (auto split: option.splits)
    have "Send_Error 0 \<notin> set es" using 3(3) by simp
    from 3(1) [OF False rec this] obtain rest where "drop n (b # bs) = sent' @ rest" "r = 0 \<longrightarrow> rest = []" by blast
    then have "b # bs = sent @ rest" unfolding sent by (metis append.assoc append_take_drop_id)
    then show ?thesis using \<open>r = 0 \<longrightarrow> rest = []\<close> by blast
  qed (use 3(2) in auto)
next
  case (4 errno es b bs)
  then show ?case by (cases "errno = EINTR") auto
qed simp_all

lemma packet_wire_eq:
  assumes "tgc_protocol_encode_header (replicate 24 0) (pk_header packet) = Inr hdr" and "24 \<le> length wire0"
    and "unat (h_payload_length (pk_header packet)) \<le> length (pk_payload packet)"
  shows "packet_wire wire0 packet =
    Inr (hdr @ take (unat (h_payload_length (pk_header packet))) (pk_payload packet))"
proof -
  have dec: "tgc_protocol_decode_header hdr = Inr (pk_header packet)"
    using decode_encode_header [OF _ assms(1)] by simp
  obtain w where w: "tgc_protocol_encode_header wire0 (pk_header packet) = Inr w"
    "\<And>j. j < 24 \<Longrightarrow> w ! j = hdr ! j"
    using encode_header_bytes [OF dec assms(2)] by blast
  have "length hdr = 24" "24 \<le> length w"
    using encode_header_length [OF assms(1)] encode_header_length [OF w(1)] assms(2) by simp_all
  then have "take 24 w = hdr" using w(2) by (intro nth_equalityI) simp_all
  then show ?thesis using assms(3) \<open>length hdr = 24\<close> by (simp add: packet_wire_def w(1) Let_def)
qed

lemma valid_header_encodes:
  "header_is_valid h = 0 \<Longrightarrow> \<exists>hdr. tgc_protocol_encode_header (replicate 24 0) h = Inr hdr"
  by (simp add: tgc_protocol_encode_header_def Let_def)

text \<open>What was sent completely is received as it was, whatever the fragmentation.\<close>

lemma sent_is_received:
  assumes "tgc_transport_send wire0 out packet = Some (0, sent)" and "Send_Error 0 \<notin> set out"
    and "24 \<le> length wire0" and "unat (h_payload_length (pk_header packet)) \<le> length (pk_payload packet)"
    and "stream_bytes socket = sent @ rest"
  shows "\<exists>socket'. tgc_transport_receive socket buffer =
      Some (0, buffer\<lparr>pk_header := pk_header packet,
        pk_payload := take (unat (h_payload_length (pk_header packet))) (pk_payload packet) @
          drop (unat (h_payload_length (pk_header packet))) (pk_payload buffer)\<rparr>, socket') \<and>
    stream_bytes socket' = rest"
proof -
  let ?n = "unat (h_payload_length (pk_header packet))"
  have "header_is_valid (pk_header packet) = 0"
    using assms(1) by (auto simp: tgc_transport_send_def packet_wire_def tgc_protocol_encode_header_def Let_def
        split: if_splits sum.splits)
  then obtain hdr where hdr: "tgc_protocol_encode_header (replicate 24 0) (pk_header packet) = Inr hdr"
    using valid_header_encodes by blast
  have "send_exact out (hdr @ take ?n (pk_payload packet)) = Some (0, sent)"
    using assms(1) packet_wire_eq [OF hdr assms(3,4)] by (simp add: tgc_transport_send_def)
  then have "sent = hdr @ take ?n (pk_payload packet)" using send_exact_ok [OF _ assms(2)] by fastforce
  from receive_packet_stream [OF assms(5) hdr this] assms(4) show ?thesis by simp
qed

text \<open>
  C14. Packets survive the stream: if sending a packet reports success, the bytes handed to the kernel,
  however they are then cut into chunks, interleaved with interrupted calls and followed by other data, are received as
  exactly that header and payload, and the following data stays in the stream.
\<close>

theorem send_receive_roundtrip:
  assumes "tgc_transport_send wire0 out packet = Some (0, sent)" and "Send_Error 0 \<notin> set out"
    and "24 \<le> length wire0" and "unat (h_payload_length (pk_header packet)) \<le> length (pk_payload packet)"
    and "stream_bytes socket = sent @ rest"
  shows "\<exists>socket'. tgc_transport_receive socket buffer =
      Some (0, buffer\<lparr>pk_header := pk_header packet,
        pk_payload := take (unat (h_payload_length (pk_header packet))) (pk_payload packet) @
          drop (unat (h_payload_length (pk_header packet))) (pk_payload buffer)\<rparr>, socket') \<and>
    stream_bytes socket' = rest"
  using assms by (rule sent_is_received)

theorem send_receive_roundtrip_witness:
  "\<exists>socket'. tgc_transport_receive
     [Recv_Data [0x54, 0x47, 0x53], Recv_Error EINTR, Recv_Data [0x43, 1, 0, 1, 0, 3, 0, 0, 0, 7, 0, 0, 0, 4, 0],
      Recv_Data [0, 0, 0, 0, 0, 0, 1], Recv_Data [0, 1, 0, 9, 9], Recv_Eof]
     \<lparr>pk_header = \<lparr>h_version = 0, h_kind = 0, h_opcode = 0, h_request_id = 0, h_payload_length = 0, h_result = 0\<rparr>,
      pk_payload = [5, 5, 5, 5, 5]\<rparr> =
   Some (0, \<lparr>pk_header = \<lparr>h_version = 1, h_kind = 1, h_opcode = 3, h_request_id = 7, h_payload_length = 4,
        h_result = 0\<rparr>, pk_payload = [1, 0, 1, 0, 5]\<rparr>, socket')"
proof -
  let ?h = "\<lparr>h_version = 1, h_kind = 1, h_opcode = 3, h_request_id = 7, h_payload_length = 4, h_result = 0\<rparr>"
  let ?p = "\<lparr>pk_header = ?h, pk_payload = [1, 0, 1, 0]\<rparr>"
  let ?b = "[0x54, 0x47, 0x53, 0x43, 1, 0, 1, 0, 3, 0, 0, 0, 7, 0, 0, 0, 4, 0, 0, 0, 0, 0, 0, 0] :: u8 list"
  have "tgc_protocol_decode_header ?b = Inr ?h"
    by (simp add: tgc_protocol_decode_header_def header_is_valid_def TGC_PROTOCOL_MAGIC_def wire_signed
        tgc_wire_get_u32_def tgc_wire_get_u16_def)
  then obtain b where b: "tgc_protocol_encode_header (replicate 24 0) ?h = Inr b" "\<And>j. j < 24 \<Longrightarrow> b ! j = ?b ! j"
    by (rule encode_header_bytes [of _ _ "replicate 24 0"]) simp_all
  have "length b = 24" using encode_header_length [OF b(1)] by simp
  then have "b = ?b" using b(2) by (intro nth_equalityI) simp_all
  then have "packet_wire (replicate 24 0) ?p = Inr (?b @ [1, 0, 1, 0])"
    using packet_wire_eq [of ?p b "replicate 24 0"] b(1) by simp
  then have "tgc_transport_send (replicate 24 0) [Send_Count 28] ?p = Some (0, ?b @ [1, 0, 1, 0])"
    by (simp add: tgc_transport_send_def)
  from send_receive_roundtrip [OF this, where socket = "[Recv_Data [0x54, 0x47, 0x53], Recv_Error EINTR,
      Recv_Data [0x43, 1, 0, 1, 0, 3, 0, 0, 0, 7, 0, 0, 0, 4, 0],
      Recv_Data [0, 0, 0, 0, 0, 0, 1], Recv_Data [0, 1, 0, 9, 9], Recv_Eof]" and rest = "[9, 9]" and
      buffer = "\<lparr>pk_header = \<lparr>h_version = 0, h_kind = 0, h_opcode = 0, h_request_id = 0, h_payload_length = 0,
        h_result = 0\<rparr>, pk_payload = [5, 5, 5, 5, 5]\<rparr>"]
  show ?thesis by auto
qed

section \<open>Rendezvous: paths, permissions and credentials\<close>

definition PATH_MAX :: nat where [simp]: "PATH_MAX = 4096"

text \<open>\<^verbatim>\<open>sizeof(sun_path)\<close>.\<close>

definition SUN_PATH_SIZE :: nat where [simp]: "SUN_PATH_SIZE = 108"

record file_status =
  st_mode :: u32
  st_uid :: u32

definition S_ISDIR :: "u32 \<Rightarrow> bool" where "S_ISDIR mode \<longleftrightarrow> mode AND 0xF000 = 0x4000"
definition S_ISSOCK :: "u32 \<Rightarrow> bool" where "S_ISSOCK mode \<longleftrightarrow> mode AND 0xF000 = 0xC000"

definition validate_runtime_directory :: "s32 + file_status \<Rightarrow> u32 \<Rightarrow> s32" where
  "validate_runtime_directory lstat_result expected_uid =
     (case lstat_result of
        Inl errno \<Rightarrow> - errno
      | Inr status \<Rightarrow>
          if \<not> S_ISDIR (st_mode status) then - ENOTDIR
          else if st_uid status \<noteq> expected_uid \<or> st_mode status AND 511 \<noteq> 448 then - EPERM
          else 0)"

text \<open>A C string has no NUL; \<open>Inr\<close> is the directory part of the path.\<close>

definition runtime_directory :: "string \<Rightarrow> s32 + string" where
  "runtime_directory socket_path =
     (if socket_path = [] \<or> hd socket_path \<noteq> CHR ''/'' then Inl (- EINVAL)
      else
        let len = length socket_path in
        if len = 0 \<or> len \<ge> PATH_MAX \<or> len \<ge> SUN_PATH_SIZE then Inl (- ENAMETOOLONG)
        else
          let name_length = length (takeWhile (\<lambda>c. c \<noteq> CHR ''/'') (rev socket_path));
              separator = len - name_length - 1
          in if separator = 0 \<or> name_length = 0 then Inl (- EINVAL)
             else Inr (take separator socket_path))"

text \<open>What \<^verbatim>\<open>getsockopt(SO_PEERCRED)\<close> reports: the errno, or the length and the credentials.\<close>

definition tgc_transport_get_credentials ::
  "s32 \<Rightarrow> s32 + nat \<times> tgc_peer_credentials \<Rightarrow> u32 \<Rightarrow> s32 + tgc_peer_credentials" where
  "tgc_transport_get_credentials socket_fd peer expected_uid =
     (if negative socket_fd then Inl (- EINVAL)
      else
        case peer of
          Inl errno \<Rightarrow> Inl (- errno)
        | Inr (len, native) \<Rightarrow>
            if len \<noteq> 12 \<or> sint (cr_pid native) \<le> 0 \<or> cr_uid native \<noteq> expected_uid then Inl (- EACCES)
            else Inr \<lparr>cr_pid = cr_pid native, cr_uid = cr_uid native, cr_gid = cr_gid native\<rparr>)"

definition tgc_transport_authenticate ::
  "s32 \<Rightarrow> s32 + nat \<times> tgc_peer_credentials \<Rightarrow> u32 \<Rightarrow> s32 + s32" where
  "tgc_transport_authenticate socket_fd peer expected_uid =
     (if negative socket_fd then Inl (- EINVAL)
      else
        case tgc_transport_get_credentials socket_fd peer expected_uid of
          Inl r \<Rightarrow> Inl r
        | Inr credentials \<Rightarrow> Inr (cr_pid credentials))"

text \<open>
  The answers of the system calls, in the order they are made. \<open>x_mkdir\<close>, \<open>x_bind\<close>, \<open>x_chmod\<close>, \<open>x_listen\<close> and
  \<open>x_connect\<close> are 0 or the errno; \<open>x_socket\<close> is the errno or the descriptor; the two \<^verbatim>\<open>lstat\<close> results of the
  socket path are before and after it is created.
\<close>

record socket_env =
  x_mkdir :: s32
  x_lstat_directory :: "s32 + file_status"
  x_lstat_existing :: "s32 + file_status"
  x_socket :: "s32 + s32"
  x_bind :: s32
  x_chmod :: s32
  x_lstat_created :: "s32 + file_status"
  x_listen :: s32
  x_connect :: s32
  x_peer :: "s32 + nat \<times> tgc_peer_credentials"

datatype socket_effect = Mkdir string | Bind s32 string | Chmod string | Listen s32 | Connect s32 string
  | Close s32 | Unlink string

definition socket_is_private :: "file_status \<Rightarrow> u32 \<Rightarrow> bool" where
  "socket_is_private status expected_uid \<longleftrightarrow>
     S_ISSOCK (st_mode status) \<and> st_uid status = expected_uid \<and> st_mode status AND 511 = 384"

definition tgc_transport_listen :: "socket_env \<Rightarrow> string \<Rightarrow> u32 \<Rightarrow> s32 \<times> socket_effect list" where
  "tgc_transport_listen x socket_path expected_uid =
     (case runtime_directory socket_path of
        Inl r \<Rightarrow> (r, [])
      | Inr directory \<Rightarrow>
          if x_mkdir x \<noteq> 0 \<and> x_mkdir x \<noteq> EEXIST then (- x_mkdir x, [Mkdir directory])
          else
            let r = validate_runtime_directory (x_lstat_directory x) expected_uid in
            if r \<noteq> 0 then (r, [Mkdir directory])
            else
              case x_lstat_existing x of
                Inr _ \<Rightarrow> (- EADDRINUSE, [Mkdir directory])
              | Inl errno \<Rightarrow>
                  if errno \<noteq> ENOENT then (- errno, [Mkdir directory])
                  else
                    (case x_socket x of
                       Inl errno \<Rightarrow> (- errno, [Mkdir directory])
                     | Inr fd \<Rightarrow>
                         let bound = [Mkdir directory, Bind fd socket_path] in
                         if x_bind x \<noteq> 0 then (- x_bind x, bound @ [Close fd])
                         else if x_chmod x \<noteq> 0 then
                           (- x_chmod x, bound @ [Chmod socket_path, Close fd, Unlink socket_path])
                         else
                           case x_lstat_created x of
                             Inl errno \<Rightarrow>
                               (- errno, bound @ [Chmod socket_path, Close fd, Unlink socket_path])
                           | Inr created \<Rightarrow>
                               if \<not> socket_is_private created expected_uid then
                                 (- EPERM, bound @ [Chmod socket_path, Close fd, Unlink socket_path])
                               else if x_listen x \<noteq> 0 then
                                 (- x_listen x,
                                  bound @ [Chmod socket_path, Listen fd, Close fd, Unlink socket_path])
                               else (fd, bound @ [Chmod socket_path, Listen fd])))"

definition tgc_transport_connect :: "socket_env \<Rightarrow> string \<Rightarrow> u32 \<Rightarrow> s32 \<times> socket_effect list" where
  "tgc_transport_connect x socket_path expected_uid =
     (case runtime_directory socket_path of
        Inl r \<Rightarrow> (r, [])
      | Inr directory \<Rightarrow>
          let r = validate_runtime_directory (x_lstat_directory x) expected_uid in
          if r \<noteq> 0 then (r, [])
          else
            case x_lstat_existing x of
              Inl errno \<Rightarrow> (- errno, [])
            | Inr socket_status \<Rightarrow>
                if \<not> socket_is_private socket_status expected_uid then (- EPERM, [])
                else
                  (case x_socket x of
                     Inl errno \<Rightarrow> (- errno, [])
                   | Inr fd \<Rightarrow>
                       if x_connect x \<noteq> 0 then (- x_connect x, [Connect fd socket_path, Close fd])
                       else
                         case tgc_transport_get_credentials fd (x_peer x) expected_uid of
                           Inl r \<Rightarrow> (r, [Connect fd socket_path, Close fd])
                         | Inr _ \<Rightarrow> (fd, [Connect fd socket_path])))"

lemma takeWhile_rev_name:
  "CHR ''/'' \<notin> set name \<Longrightarrow> takeWhile (\<lambda>c. c \<noteq> CHR ''/'') (rev (d @ ''/'' @ name)) = rev name"
  by (simp add: takeWhile_upto)

text \<open>
  The directory of a socket path is split off exactly: the split succeeds with directory \<open>d\<close> if and only if the
  path is \<open>d/name\<close> with a non-empty name without slashes, a non-empty absolute \<open>d\<close>, and fits a Unix socket
  address (fewer than 108 bytes).
\<close>

theorem runtime_directory_exact:
  "runtime_directory path = Inr d \<longleftrightarrow>
     (\<exists>name. path = d @ ''/'' @ name \<and> name \<noteq> [] \<and> CHR ''/'' \<notin> set name \<and>
             d \<noteq> [] \<and> hd d = CHR ''/'' \<and> length path < 108)"
proof
  let ?n = "takeWhile (\<lambda>c. c \<noteq> CHR ''/'') (rev path)"
  assume ok: "runtime_directory path = Inr d"
  then have ne: "path \<noteq> []" "hd path = CHR ''/''" and len: "length path < 108"
    and sep: "length path - length ?n - 1 \<noteq> 0" "length ?n \<noteq> 0" and d: "d = take (length path - length ?n - 1) path"
    by (auto simp: runtime_directory_def Let_def split: if_splits)
  have "CHR ''/'' \<in> set (rev path)" using ne by (cases path) auto
  then obtain ys zs where r: "rev path = ys @ CHR ''/'' # zs" "CHR ''/'' \<notin> set ys"
    by (meson split_list_first)
  then have p: "path = rev zs @ ''/'' @ rev ys" by (metis append.assoc append_Cons append_Nil rev.simps(2) rev_append rev_rev_ident)
  have n: "?n = ys" using r by (simp add: takeWhile_upto)
  have "d = rev zs" using d n unfolding p by simp
  moreover have "zs \<noteq> []" "ys \<noteq> []" using sep n unfolding p by auto
  moreover have "hd (rev zs) = CHR ''/''" using ne(2) \<open>zs \<noteq> []\<close> unfolding p by (simp add: hd_append)
  ultimately show "\<exists>name. path = d @ ''/'' @ name \<and> name \<noteq> [] \<and> CHR ''/'' \<notin> set name \<and>
      d \<noteq> [] \<and> hd d = CHR ''/'' \<and> length path < 108"
    using p r(2) len by (intro exI [of _ "rev ys"]) auto
next
  assume "\<exists>name. path = d @ ''/'' @ name \<and> name \<noteq> [] \<and> CHR ''/'' \<notin> set name \<and>
      d \<noteq> [] \<and> hd d = CHR ''/'' \<and> length path < 108"
  then obtain name where p: "path = d @ ''/'' @ name" "name \<noteq> []" "CHR ''/'' \<notin> set name"
    "d \<noteq> []" "hd d = CHR ''/''" "length path < 108" by blast
  then have "takeWhile (\<lambda>c. c \<noteq> CHR ''/'') (rev path) = rev name" using takeWhile_rev_name by metis
  then show "runtime_directory path = Inr d"
    using p by (simp add: runtime_directory_def Let_def hd_append)
qed

text \<open>System calls report failure with a positive errno and success with a non-negative descriptor.\<close>

definition sane_env :: "socket_env \<Rightarrow> bool" where
  "sane_env x \<longleftrightarrow>
     (\<forall>e \<in> {x_mkdir x, x_bind x, x_chmod x, x_listen x, x_connect x}. 0 \<le> sint e) \<and>
     (\<forall>e. x_lstat_directory x = Inl e \<or> x_lstat_existing x = Inl e \<or> x_lstat_created x = Inl e \<or>
          x_socket x = Inl e \<or> x_peer x = Inl e \<longrightarrow> 0 < sint e) \<and>
     (\<forall>fd. x_socket x = Inr fd \<longrightarrow> 0 \<le> sint fd)"

lemma negative_errno: "0 < sint (e :: s32) \<Longrightarrow> sint (- e) < 0"
proof -
  assume e: "0 < sint e"
  have "sint (- e) = signed_take_bit 31 (- sint e)" by (simp add: sint_word_ariths)
  also have "\<dots> = - sint e" using e sint_bounds32 [of e] by (intro signed_take_bit_int_eq_self) auto
  finally show ?thesis using e by simp
qed

lemma errno_not_descriptor: "0 < sint (e :: s32) \<Longrightarrow> 0 \<le> sint (- e) \<Longrightarrow> False"
  using negative_errno [of e] by simp

lemma nonzero_errno: "0 \<le> sint (e :: s32) \<Longrightarrow> e \<noteq> 0 \<Longrightarrow> sint (- e) < 0"
  using negative_errno [of e] signed_eq_0_iff [of e] by (cases "sint e = 0") auto

lemma runtime_directory_error: "runtime_directory path = Inl r \<Longrightarrow> sint r < 0"
  by (auto simp: runtime_directory_def Let_def split: if_splits)

lemma validate_negative:
  assumes "\<And>e. l = Inl e \<Longrightarrow> 0 < sint e" and "validate_runtime_directory l uid \<noteq> 0"
  shows "sint (validate_runtime_directory l uid) < 0"
  using assms negative_errno by (auto simp: validate_runtime_directory_def split: sum.splits if_splits)

lemma credentials_negative:
  assumes "\<And>e. peer = Inl e \<Longrightarrow> 0 < sint e" and "tgc_transport_get_credentials fd peer uid = Inl r"
  shows "sint r < 0"
  using assms negative_errno by (auto simp: tgc_transport_get_credentials_def split: sum.splits if_splits prod.splits)

lemma sane_envD:
  assumes "sane_env x"
  shows "x_lstat_directory x = Inl e \<Longrightarrow> 0 < sint e" "x_lstat_existing x = Inl e \<Longrightarrow> 0 < sint e"
    "x_lstat_created x = Inl e \<Longrightarrow> 0 < sint e" "x_socket x = Inl e \<Longrightarrow> 0 < sint e"
    "x_peer x = Inl e \<Longrightarrow> 0 < sint e" "x_socket x = Inr fd \<Longrightarrow> 0 \<le> sint fd"
    "x_mkdir x \<noteq> 0 \<Longrightarrow> sint (- x_mkdir x) < 0" "x_bind x \<noteq> 0 \<Longrightarrow> sint (- x_bind x) < 0"
    "x_chmod x \<noteq> 0 \<Longrightarrow> sint (- x_chmod x) < 0" "x_listen x \<noteq> 0 \<Longrightarrow> sint (- x_listen x) < 0"
    "x_connect x \<noteq> 0 \<Longrightarrow> sint (- x_connect x) < 0"
  using assms nonzero_errno by (simp_all add: sane_env_def)

text \<open>Every failing branch of connecting returns a negative number and closes what it opened.\<close>

lemma connect_failure:
  assumes sane: "sane_env x" and call: "tgc_transport_connect x path uid = (r, effects)"
    and fails: "\<not> (\<exists>d sock fd peer. runtime_directory path = Inr d \<and>
      validate_runtime_directory (x_lstat_directory x) uid = 0 \<and>
      x_lstat_existing x = Inr sock \<and> socket_is_private sock uid \<and> x_socket x = Inr fd \<and> x_connect x = 0 \<and>
      tgc_transport_get_credentials fd (x_peer x) uid = Inr peer)"
  shows "negative r \<and> (\<forall>fd. Connect fd path \<in> set effects \<longrightarrow> Close fd \<in> set effects)"
proof (cases "runtime_directory path")
  case (Inl e)
  then show ?thesis using call runtime_directory_error [OF Inl] by (simp add: tgc_transport_connect_def)
next
  case d: (Inr d)
  show ?thesis
  proof (cases "validate_runtime_directory (x_lstat_directory x) uid = 0")
    case False
    then show ?thesis
      using call d validate_negative [OF sane_envD(1) [OF sane] False] by (simp add: tgc_transport_connect_def Let_def)
  next
    case True
    then show ?thesis
      using call d fails negative_errno sane_envD(2,4,11) [OF sane] credentials_negative [OF sane_envD(5) [OF sane]]
      by (auto simp: tgc_transport_connect_def Let_def split: sum.splits if_splits)
  qed
qed

text \<open>
  A client only talks to a broker it can trust: if connecting returns a descriptor, the socket directory is a
  mode-0700 directory of the expected user, the socket a mode-0600 socket of that user, and the process at
  the other end runs as that user. If connecting fails after the socket was connected, the descriptor is closed.
\<close>

theorem connect_checks_everything:
  assumes "sane_env x" and "tgc_transport_connect x path uid = (r, effects)"
  shows "(0 \<le> sint r \<longrightarrow>
      x_socket x = Inr r \<and> effects = [Connect r path] \<and>
      (\<exists>dir. x_lstat_directory x = Inr dir \<and> S_ISDIR (st_mode dir) \<and> st_uid dir = uid \<and> st_mode dir AND 511 = 448) \<and>
      (\<exists>sock. x_lstat_existing x = Inr sock \<and> socket_is_private sock uid) \<and>
      (\<exists>peer. x_peer x = Inr (12, peer) \<and> cr_uid peer = uid \<and> 0 < sint (cr_pid peer))) \<and>
    (negative r \<longrightarrow> (\<forall>fd. Connect fd path \<in> set effects \<longrightarrow> Close fd \<in> set effects))"
proof (cases "\<exists>d sock fd peer. runtime_directory path = Inr d \<and>
    validate_runtime_directory (x_lstat_directory x) uid = 0 \<and>
    x_lstat_existing x = Inr sock \<and> socket_is_private sock uid \<and> x_socket x = Inr fd \<and> x_connect x = 0 \<and>
    tgc_transport_get_credentials fd (x_peer x) uid = Inr peer")
  case True
  then obtain d sock fd peer where c: "runtime_directory path = Inr d"
    "validate_runtime_directory (x_lstat_directory x) uid = 0" "x_lstat_existing x = Inr sock"
    "socket_is_private sock uid" "x_socket x = Inr fd" "x_connect x = 0"
    "tgc_transport_get_credentials fd (x_peer x) uid = Inr peer" by blast
  have "0 \<le> sint fd" using sane_envD(6) [OF assms(1) c(5)] .
  moreover have "r = fd" "effects = [Connect fd path]"
    using assms(2) c by (auto simp: tgc_transport_connect_def)
  moreover have "\<exists>dir. x_lstat_directory x = Inr dir \<and> S_ISDIR (st_mode dir) \<and> st_uid dir = uid \<and> st_mode dir AND 511 = 448"
    using c(2) sane_envD(1) [OF assms(1)]
    by (cases "x_lstat_directory x") (auto simp: validate_runtime_directory_def split: if_splits)
  moreover have "\<exists>peer. x_peer x = Inr (12, peer) \<and> cr_uid peer = uid \<and> 0 < sint (cr_pid peer)"
    using c(7) by (auto simp: tgc_transport_get_credentials_def split: if_splits sum.splits prod.splits)
  ultimately show ?thesis using c by auto
next
  case False
  then show ?thesis using connect_failure [OF assms] by simp
qed

definition demo_socket_env :: socket_env where
  "demo_socket_env =
     \<lparr>x_mkdir = EEXIST, x_lstat_directory = Inr \<lparr>st_mode = 0x41C0, st_uid = 1000\<rparr>,
      x_lstat_existing = Inr \<lparr>st_mode = 0xC180, st_uid = 1000\<rparr>, x_socket = Inr 5, x_bind = 0, x_chmod = 0,
      x_lstat_created = Inr \<lparr>st_mode = 0xC180, st_uid = 1000\<rparr>, x_listen = 0, x_connect = 0,
      x_peer = Inr (12, \<lparr>cr_pid = 77, cr_uid = 1000, cr_gid = 1000\<rparr>)\<rparr>"

lemma demo_directory: "runtime_directory ''/run/s'' = Inr ''/run''"
  by (simp add: runtime_directory_def Let_def)

theorem connect_checks_everything_witness:
  "tgc_transport_connect demo_socket_env ''/run/s'' 1000 = (5, [Connect 5 ''/run/s'']) \<and>
   (\<exists>peer. x_peer demo_socket_env = Inr (12, peer) \<and> cr_uid peer = 1000)"
proof -
  have "sane_env demo_socket_env" by (simp add: sane_env_def demo_socket_env_def)
  moreover have "tgc_transport_connect demo_socket_env ''/run/s'' 1000 = (5, [Connect 5 ''/run/s''])"
    by (simp add: tgc_transport_connect_def demo_directory demo_socket_env_def validate_runtime_directory_def
        S_ISDIR_def S_ISSOCK_def socket_is_private_def tgc_transport_get_credentials_def)
  ultimately show ?thesis using connect_checks_everything [of demo_socket_env "''/run/s''" 1000] by auto
qed

text \<open>
  A broker only listens on a socket it can trust, and leaves nothing behind otherwise: if listening returns a descriptor,
  the directory is a mode-0700 directory of the expected user, the path did not exist before and is now a mode-0600
  socket of that user; if it fails after the socket was bound, the descriptor is closed and the path is removed.
\<close>

theorem listen_checks_everything:
  assumes "sane_env x" and "tgc_transport_listen x path uid = (r, effects)"
  shows "(0 \<le> sint r \<longrightarrow>
      x_socket x = Inr r \<and> Listen r \<in> set effects \<and> Close r \<notin> set effects \<and> Unlink path \<notin> set effects \<and>
      validate_runtime_directory (x_lstat_directory x) uid = 0 \<and> x_lstat_existing x = Inl ENOENT \<and>
      (\<exists>sock. x_lstat_created x = Inr sock \<and> socket_is_private sock uid)) \<and>
    (negative r \<longrightarrow> (\<forall>fd. Bind fd path \<in> set effects \<longrightarrow>
      Close fd \<in> set effects \<and> (x_bind x = 0 \<longrightarrow> Unlink path \<in> set effects)))"
proof (cases "runtime_directory path")
  case (Inl e)
  then show ?thesis using assms(2) runtime_directory_error [OF Inl] by (simp add: tgc_transport_listen_def)
next
  case d: (Inr d)
  show ?thesis
  proof (cases "validate_runtime_directory (x_lstat_directory x) uid = 0")
    case False
    then show ?thesis
      using assms(2) d validate_negative [OF sane_envD(1) [OF assms(1)] False] sane_envD(7) [OF assms(1)]
      by (auto simp: tgc_transport_listen_def Let_def split: if_splits)
  next
    case True
    then show ?thesis
      using assms(2) d sane_envD(2-4,6-10) [OF assms(1)]
      by (auto simp: tgc_transport_listen_def Let_def split: sum.splits if_splits dest: errno_not_descriptor)
  qed
qed

theorem listen_checks_everything_witness:
  "tgc_transport_listen (demo_socket_env\<lparr>x_lstat_existing := Inl ENOENT, x_listen := ENOSPC\<rparr>) ''/run/s'' 1000 =
     (- ENOSPC, [Mkdir ''/run'', Bind 5 ''/run/s'', Chmod ''/run/s'', Listen 5, Close 5, Unlink ''/run/s'']) \<and>
   Unlink ''/run/s'' \<in> set (snd (tgc_transport_listen
     (demo_socket_env\<lparr>x_lstat_existing := Inl ENOENT, x_listen := ENOSPC\<rparr>) ''/run/s'' 1000))"
proof -
  let ?x = "demo_socket_env\<lparr>x_lstat_existing := Inl ENOENT, x_listen := ENOSPC\<rparr>"
  have "sane_env ?x" by (auto simp: sane_env_def demo_socket_env_def)
  moreover have eq: "tgc_transport_listen ?x ''/run/s'' 1000 =
      (- ENOSPC, [Mkdir ''/run'', Bind 5 ''/run/s'', Chmod ''/run/s'', Listen 5, Close 5, Unlink ''/run/s''])"
    by (simp add: tgc_transport_listen_def demo_directory demo_socket_env_def validate_runtime_directory_def
        S_ISDIR_def S_ISSOCK_def socket_is_private_def)
  ultimately show ?thesis
    using listen_checks_everything [OF _ eq] by (simp add: demo_socket_env_def)
qed

end
