(* ===== verification/Tgc_Broker.thy ===== *)
theory Tgc_Broker
  imports Tgc_Process Tgc_Transport
begin

text \<open>
  The request path of \<^verbatim>\<open>src/reference-termux-glibc-compat/src/broker_server.c\<close>. Everything a thread does while
  it holds the broker's mutex is one function from state to state: handling a request up to the point where it
  answers or starts to wait, and one round of the wait loop after a wake-up. What the machine
  supplies in that section is a \<open>broker_env\<close>. Next to the new state each function returns
  whether it signalled the condition variable. An errno is never 0.
\<close>

section \<open>Environment and outcomes\<close>

text \<open>What \<^verbatim>\<open>recv(MSG_PEEK | MSG_DONTWAIT)\<close> on the caller's socket says.\<close>

datatype peek = Peek_Data | Peek_Eof | Peek_Error s32

text \<open>
  \<open>e_lock\<close>: result of locking the mutex; \<open>e_realtime\<close>, \<open>e_memory\<close>: clock and allocator of the store;
  \<open>e_monotonic\<close>: \<^verbatim>\<open>CLOCK_MONOTONIC\<close> or the errno; \<open>e_peek\<close>: the state of the caller's socket.
\<close>

record broker_env =
  e_lock :: s32
  e_realtime :: "s64 option"
  e_memory :: bool
  e_monotonic :: "s32 + timespec"
  e_kernel :: kernel
  e_peek :: peek

text \<open>
  \<open>Served\<close>: \<^verbatim>\<open>dispatch_request\<close> returned 0 with this response; \<open>Failed\<close>: it returned this error;
  \<open>Queued\<close>: the thread waits on the condition variable until the given time, with the response buffer as it is.
\<close>

datatype served = Served tgc_protocol_packet | Failed s32 | Queued tgc_protocol_packet timespec

section \<open>Helpers\<close>

definition operation_changed_state :: "tgc_protocol_packet \<Rightarrow> tgc_protocol_packet \<Rightarrow> bool" where
  "operation_changed_state request response \<longleftrightarrow>
     h_result (pk_header response) = 0 \<and>
     (opcode request = TGC_OPCODE_REMOVE \<or> opcode request = TGC_OPCODE_SETVAL \<or>
      opcode request = TGC_OPCODE_SETALL \<or> opcode request = TGC_OPCODE_SEMOP \<or>
      opcode request = TGC_OPCODE_SEMTIMEDOP)"

definition peer_has_closed :: "peek \<Rightarrow> bool" where
  "peer_has_closed p =
     (case p of
        Peek_Eof \<Rightarrow> True
      | Peek_Data \<Rightarrow> False
      | Peek_Error errno \<Rightarrow> errno \<noteq> EAGAIN \<and> errno \<noteq> EINTR)"

definition compare_timespec :: "timespec \<Rightarrow> timespec \<Rightarrow> int" where
  "compare_timespec left right =
     (if tv_sec left \<noteq> tv_sec right then (if tv_sec left < tv_sec right then - 1 else 1)
      else if tv_nsec left = tv_nsec right then 0
      else if tv_nsec left < tv_nsec right then - 1 else 1)"

definition INT_MAX :: int where [simp]: "INT_MAX = 2147483647"

definition initialize_deadline ::
  "s32 + timespec \<Rightarrow> tgc_protocol_packet \<Rightarrow> tgc_waiter \<Rightarrow> s32 \<times> tgc_waiter" where
  "initialize_deadline monotonic request waiter =
     (if opcode request \<noteq> TGC_OPCODE_SEMTIMEDOP then (0, waiter)
      else
        let timeout_ns = sint (tgc_wire_get_i64 (pk_payload request) 8) in
        if timeout_ns < 0 then (- EINVAL, waiter)
        else
          case monotonic of
            Inl errno \<Rightarrow> (- errno, waiter)
          | Inr now \<Rightarrow>
              let seconds = timeout_ns div 1000000000;
                  nanoseconds = timeout_ns mod 1000000000;
                  deadline =
                    (if seconds > INT_MAX \<or> tv_sec now > INT_MAX - seconds
                     then \<lparr>tv_sec = INT_MAX, tv_nsec = 999999999\<rparr>
                     else
                       let sec = tv_sec now + seconds; nsec = tv_nsec now + nanoseconds in
                       if nsec \<ge> 1000000000 then \<lparr>tv_sec = sec + 1, tv_nsec = nsec - 1000000000\<rparr>
                       else \<lparr>tv_sec = sec, tv_nsec = nsec\<rparr>)
              in (0, waiter\<lparr>w_deadline := deadline, w_has_deadline := True\<rparr>))"

text \<open>
  \<^verbatim>\<open>wait_for_state_change\<close> in two halves, before and after the wait releases the mutex: the absolute
  deadline of the wait, and what is made of its result (\<open>now\<close> is the clock after the wait).
\<close>

definition wait_deadline :: "tgc_waiter \<Rightarrow> timespec \<Rightarrow> timespec" where
  "wait_deadline waiter now =
     (let deadline = after_interval now in
      if w_has_deadline waiter \<and> compare_timespec (w_deadline waiter) deadline < 0
      then w_deadline waiter else deadline)"

definition wait_result :: "tgc_waiter \<Rightarrow> s32 \<Rightarrow> s32 + timespec \<Rightarrow> s32 \<times> bool" where
  "wait_result waiter r now =
     (if r \<noteq> 0 \<and> r \<noteq> ETIMEDOUT then (- r, False)
      else if \<not> w_has_deadline waiter then (0, False)
      else
        case now of
          Inl errno \<Rightarrow> (- errno, False)
        | Inr t \<Rightarrow> (0, compare_timespec t (w_deadline waiter) \<ge> 0))"

definition finish_waiter :: "tgc_broker \<Rightarrow> nat \<Rightarrow> tgc_broker option" where
  "finish_waiter broker a =
     (case remove_waiter broker a of
        None \<Rightarrow> None
      | Some broker \<Rightarrow>
          let waiter = br_nodes broker a in
          if w_counted waiter then
            let (_, store) = tgc_sem_store_adjust_wait_count (br_store broker) (w_semid waiter)
                  (unat (w_semnum waiter)) (w_wait_for_zero waiter \<noteq> 0) (- 1)
            in Some (broker\<lparr>br_store := store,
                 br_nodes := (br_nodes broker)(a := waiter\<lparr>w_counted := False\<rparr>)\<rparr>)
          else Some broker)"

definition request_uses_undo :: "tgc_protocol_packet \<Rightarrow> bool" where
  "request_uses_undo request \<longleftrightarrow>
     (opcode request = TGC_OPCODE_SEMOP \<or> opcode request = TGC_OPCODE_SEMTIMEDOP) \<and>
     (let prefix_size = (if opcode request = TGC_OPCODE_SEMTIMEDOP then 16 else 8 :: u32);
          count = tgc_wire_get_u32 (pk_payload request) 4
      in \<not> payload_length request < prefix_size \<and>
         \<not> (count = 0 \<or> unat count > TGC_SEM_MAX_PER_SET \<or> payload_length request \<noteq> prefix_size + count * 8) \<and>
         (\<exists>i \<in> {0..<unat count}.
            tgc_wire_get_u16 (pk_payload request) (unat prefix_size + i * 8 + 4) AND TGC_SEM_UNDO \<noteq> 0))"

definition prepare_error_response ::
  "tgc_protocol_packet \<Rightarrow> tgc_protocol_packet \<Rightarrow> s32 \<Rightarrow> tgc_protocol_packet" where
  "prepare_error_response request response r =
     response\<lparr>pk_header :=
       \<lparr>h_version = TGC_PROTOCOL_VERSION, h_kind = TGC_PROTOCOL_RESPONSE,
        h_opcode = opcode request, h_request_id = h_request_id (pk_header request),
        h_payload_length = 0, h_result = r\<rparr>\<rparr>"

section \<open>Handling a request\<close>

text \<open>The waiter record of a blocked request, from the wait reason in the response payload.\<close>

definition new_waiter :: "tgc_protocol_packet \<Rightarrow> tgc_protocol_packet \<Rightarrow> tgc_waiter" where
  "new_waiter request response =
     \<lparr>w_semid = tgc_wire_get_i32 (pk_payload request) 0,
      w_semnum = (if payload_length response = 8 then tgc_wire_get_u16 (pk_payload response) 0 else 0xffff),
      w_wait_for_zero =
        (if payload_length response = 8 then tgc_wire_get_u16 (pk_payload response) 2 else 0xffff),
      w_counted = False, w_has_deadline = False,
      w_deadline = \<lparr>tv_sec = 0, tv_nsec = 0\<rparr>, w_next = None\<rparr>"

text \<open>From the blocked dispatch to the head of the wait loop; 0 when the waiter is in the queue.\<close>

definition queue_request ::
  "broker_env \<Rightarrow> tgc_broker \<Rightarrow> nat \<Rightarrow> tgc_protocol_packet \<Rightarrow> tgc_protocol_packet \<Rightarrow> s32 \<times> tgc_broker" where
  "queue_request env broker a request response =
     (let waiter = new_waiter request response in
      if payload_length response \<noteq> 8 \<or> w_wait_for_zero waiter > 1 \<or>
         tgc_wire_get_u32 (pk_payload response) 4 \<noteq> 0
      then (- EPROTO, broker)
      else
        let (r, waiter) = initialize_deadline (e_monotonic env) request waiter in
        if r \<noteq> 0 then (r, broker)
        else
          let (r, store) = tgc_sem_store_adjust_wait_count (br_store broker) (w_semid waiter)
                (unat (w_semnum waiter)) (w_wait_for_zero waiter \<noteq> 0) 1
          in if r \<noteq> 0 then (r, broker\<lparr>br_store := store\<rparr>)
             else (0, enqueue_waiter (broker\<lparr>br_store := store,
                     br_nodes := (br_nodes broker)(a := waiter\<lparr>w_counted := True\<rparr>)\<rparr>) a))"

text \<open>
  One round of the wait loop, from its head to the wait: the caller may be gone, the head waiter of a set
  retries its operation. \<open>None\<close> would mean that a walk over the queue does not end.
\<close>

definition finish_with :: "served \<Rightarrow> tgc_broker \<Rightarrow> nat \<Rightarrow> (served \<times> tgc_broker \<times> bool) option" where
  "finish_with out broker a =
     (case finish_waiter broker a of None \<Rightarrow> None | Some broker \<Rightarrow> Some (out, broker, True))"

definition wait_round ::
  "broker_env \<Rightarrow> tgc_broker \<Rightarrow> nat \<Rightarrow> tgc_protocol_packet \<Rightarrow> (served \<times> tgc_broker \<times> bool) option" where
  "wait_round env broker a response =
     (case e_monotonic env of
        Inl errno \<Rightarrow> finish_with (Failed (- errno)) broker a
      | Inr now \<Rightarrow> Some (Queued response (wait_deadline (br_nodes broker a) now), broker, False))"

definition waiter_pass ::
  "broker_env \<Rightarrow> tgc_broker \<Rightarrow> nat \<Rightarrow> tgc_protocol_packet \<Rightarrow> tgc_broker_actor \<Rightarrow> tgc_protocol_packet \<Rightarrow>
   (served \<times> tgc_broker \<times> bool) option" where
  "waiter_pass env broker a request actor response =
     (if peer_has_closed (e_peek env) then finish_with (Served response) broker a
      else
        case waiter_is_first_for_set broker a of
          None \<Rightarrow> None
        | Some False \<Rightarrow> wait_round env broker a response
        | Some True \<Rightarrow>
            (case tgc_broker_dispatch (e_realtime env) (e_memory env) (br_store broker) request actor response of
               Inl r \<Rightarrow> finish_with (Failed r) broker a
             | Inr (store, response) \<Rightarrow>
                 let broker = broker\<lparr>br_store := store\<rparr> in
                 if h_result (pk_header response) \<noteq> TGC_SEM_OP_BLOCKED
                 then finish_with (Served response) broker a
                 else wait_round env broker a response))"

text \<open>
  The whole critical section of a new request. \<open>env'\<close> is the environment of the first round of the wait loop.
\<close>

definition dispatch_request ::
  "broker_env \<Rightarrow> broker_env \<Rightarrow> tgc_broker \<Rightarrow> nat \<Rightarrow> tgc_protocol_packet \<Rightarrow> tgc_broker_actor \<Rightarrow>
   tgc_protocol_packet \<Rightarrow> (served \<times> tgc_broker \<times> bool) option" where
  "dispatch_request env env' broker a request actor response =
     (if e_lock env \<noteq> 0 then Some (Failed (- e_lock env), broker, False)
      else
        let (r, broker, signalled) =
              (if request_uses_undo request then watch_process (e_kernel env) broker (ac_pid actor)
               else (0, broker, False))
        in if r \<noteq> 0 then Some (Served (prepare_error_response request response r), broker, signalled)
           else
             case tgc_broker_dispatch (e_realtime env) (e_memory env) (br_store broker) request actor response of
               Inl r \<Rightarrow> Some (Failed r, broker, signalled)
             | Inr (store, response) \<Rightarrow>
                 let broker = broker\<lparr>br_store := store\<rparr> in
                 if (opcode request \<noteq> TGC_OPCODE_SEMOP \<and> opcode request \<noteq> TGC_OPCODE_SEMTIMEDOP) \<or>
                    h_result (pk_header response) \<noteq> TGC_SEM_OP_BLOCKED
                 then Some (Served response, broker, signalled \<or> operation_changed_state request response)
                 else
                   let (r, broker) = queue_request env broker a request response in
                   if r \<noteq> 0 then Some (Failed r, broker, signalled)
                   else
                     map_option (\<lambda>(out, broker, s). (out, broker, signalled \<or> s))
                       (waiter_pass env' broker a request actor response))"

text \<open>After the condition wait returned \<open>r\<close> at time \<open>now\<close>.\<close>

definition waiter_wake ::
  "broker_env \<Rightarrow> s32 \<Rightarrow> s32 + timespec \<Rightarrow> tgc_broker \<Rightarrow> nat \<Rightarrow> tgc_protocol_packet \<Rightarrow> tgc_broker_actor \<Rightarrow>
   tgc_protocol_packet \<Rightarrow> (served \<times> tgc_broker \<times> bool) option" where
  "waiter_wake env r now broker a request actor response =
     (let (r, operation_timed_out) = wait_result (br_nodes broker a) r now in
      if r \<noteq> 0 then finish_with (Failed r) broker a
      else if operation_timed_out then
        finish_with (Served (response\<lparr>pk_header :=
          (pk_header response)\<lparr>h_result := - EAGAIN, h_payload_length := 0\<rparr>\<rparr>)) broker a
      else waiter_pass env broker a request actor response)"

section \<open>Connections\<close>

text \<open>
  Where the thread of a connection is in the loop of \<^verbatim>\<open>tgc_broker_serve_connection\<close>: reading a request,
  writing a response, waiting on the condition variable inside \<^verbatim>\<open>dispatch_request\<close>, or done with a result.
\<close>

datatype conn_state =
    Receiving
  | Sending tgc_protocol_packet
  | Waiting tgc_protocol_packet tgc_protocol_packet timespec
  | Closed s32

text \<open>Up to the loop: who the peer is.\<close>

definition serve_start :: "s32 \<Rightarrow> s32 + nat \<times> tgc_peer_credentials \<Rightarrow> u32 \<Rightarrow> s32 + tgc_broker_actor" where
  "serve_start socket_fd peer expected_uid =
     (if negative socket_fd then Inl (- EINVAL)
      else
        case tgc_transport_get_credentials socket_fd peer expected_uid of
          Inl r \<Rightarrow> Inl r
        | Inr credentials \<Rightarrow>
            if sint (cr_pid credentials) > 2147483647 \<or> uint (cr_uid credentials) > 4294967295 \<or>
               uint (cr_gid credentials) > 4294967295
            then Inl (- EOVERFLOW)
            else Inr \<lparr>ac_pid = cr_pid credentials,
                      ac_identity = \<lparr>id_uid = cr_uid credentials, id_gid = cr_gid credentials\<rparr>\<rparr>)"

fun conn_after :: "tgc_protocol_packet \<Rightarrow> served \<Rightarrow> conn_state" where
  "conn_after request (Served response) = Sending response"
| "conn_after request (Failed r) = Closed r"
| "conn_after request (Queued response deadline) = Waiting request response deadline"

text \<open>The loop body after \<^verbatim>\<open>tgc_transport_receive\<close> returned \<open>r\<close>.\<close>

definition serve_received ::
  "broker_env \<Rightarrow> broker_env \<Rightarrow> tgc_broker \<Rightarrow> nat \<Rightarrow> s32 \<Rightarrow> tgc_protocol_packet \<Rightarrow> tgc_broker_actor \<Rightarrow>
   tgc_protocol_packet \<Rightarrow> (conn_state \<times> tgc_broker \<times> bool) option" where
  "serve_received env env' broker a r request actor response =
     (if r = TGC_TRANSPORT_EOF then Some (Closed 0, broker, False)
      else if r \<noteq> 0 then Some (Closed r, broker, False)
      else if h_kind (pk_header request) \<noteq> TGC_PROTOCOL_REQUEST then Some (Closed (- EPROTO), broker, False)
      else map_option (\<lambda>(out, broker, s). (conn_after request out, broker, s))
             (dispatch_request env env' broker a request actor response))"

text \<open>The end of the loop body, after \<^verbatim>\<open>tgc_transport_send\<close> returned \<open>r\<close>.\<close>

definition serve_sent :: "s32 \<Rightarrow> conn_state" where
  "serve_sent r = (if r \<noteq> 0 then Closed r else Receiving)"

section \<open>Creating and destroying a broker\<close>

text \<open>What creation and destruction acquire and release, in order; a detached attribute object counts.\<close>

datatype resource =
    R_Memory | R_Store | R_Mutex | R_Cond_Attributes | R_Cond | R_Thread_Attributes | R_Thread | R_Pidfd s32

datatype resource_event = Acquire resource | Release resource

text \<open>The results of the calls \<^verbatim>\<open>tgc_broker_create\<close> makes: whether memory was available, else error numbers.\<close>

record create_env =
  ce_calloc :: bool
  ce_store :: bool
  ce_mutex_init :: s32
  ce_condattr_init :: s32
  ce_condattr_setclock :: s32
  ce_cond_init :: s32
  ce_attr_init :: s32
  ce_attr_setstacksize :: s32
  ce_thread_create :: s32

definition new_broker :: tgc_broker where
  "new_broker =
     \<lparr>br_store = tgc_sem_store_create,
      br_nodes = (\<lambda>_. \<lparr>w_semid = 0, w_semnum = 0, w_wait_for_zero = 0, w_counted = False, w_has_deadline = False,
        w_deadline = \<lparr>tv_sec = 0, tv_nsec = 0\<rparr>, w_next = None\<rparr>),
      br_waiters_head = None, br_waiters_tail = None,
      br_process_watchers = replicate TGC_MAX_UNDO_PROCESSES cleared_watcher,
      br_process_monitor_started = True, br_stop_process_monitor = False\<rparr>"

text \<open>The condition variable, and the monitor thread: the error number and what happened.\<close>

definition create_condition :: "create_env \<Rightarrow> s32 \<times> resource_event list" where
  "create_condition e =
     (if ce_condattr_init e \<noteq> 0 then (ce_condattr_init e, [])
      else
        let result = (if ce_condattr_setclock e = 0 then ce_cond_init e else ce_condattr_setclock e) in
        (result, [Acquire R_Cond_Attributes] @ (if result = 0 then [Acquire R_Cond] else []) @
                 [Release R_Cond_Attributes]))"

definition create_monitor :: "create_env \<Rightarrow> s32 \<times> resource_event list" where
  "create_monitor e =
     (if ce_attr_init e \<noteq> 0 then (ce_attr_init e, [])
      else
        let result = (if ce_attr_setstacksize e = 0 then ce_thread_create e else ce_attr_setstacksize e) in
        (result, [Acquire R_Thread_Attributes] @ (if result = 0 then [Acquire R_Thread] else []) @
                 [Release R_Thread_Attributes]))"

definition tgc_broker_create :: "create_env \<Rightarrow> tgc_broker option \<times> resource_event list" where
  "tgc_broker_create e =
     (if \<not> ce_calloc e then (None, [])
      else if \<not> ce_store e then (None, [Acquire R_Memory, Release R_Memory])
      else
        let base = [Acquire R_Memory, Acquire R_Store] in
        if ce_mutex_init e \<noteq> 0 then (None, base @ [Release R_Store, Release R_Memory])
        else
          let (result, events) = create_condition e; base = base @ [Acquire R_Mutex] @ events in
          if result \<noteq> 0 then (None, base @ [Release R_Mutex, Release R_Store, Release R_Memory])
          else
            let (result, events) = create_monitor e; base = base @ events in
            if result \<noteq> 0
            then (None, base @ [Release R_Cond, Release R_Mutex, Release R_Store, Release R_Memory])
            else (Some new_broker, base))"

text \<open>
  Joining the monitor thread is its release; \<open>lock\<close> is the result of locking the mutex. The first component
  is the broker whose monitor was told to stop.
\<close>

definition tgc_broker_destroy :: "s32 \<Rightarrow> tgc_broker option \<Rightarrow> tgc_broker option \<times> resource_event list" where
  "tgc_broker_destroy lock broker =
     (case broker of
        None \<Rightarrow> (None, [])
      | Some b \<Rightarrow>
          (Some (if br_process_monitor_started b \<and> lock = 0 then b\<lparr>br_stop_process_monitor := True\<rparr> else b),
           (if br_process_monitor_started b then [Release R_Thread] else []) @
           map (\<lambda>w. Release (R_Pidfd (pw_pidfd w)))
             (filter (\<lambda>w. pw_active w \<and> 0 \<le> sint (pw_pidfd w)) (br_process_watchers b)) @
           [Release R_Cond, Release R_Mutex, Release R_Store, Release R_Memory]))"

end
