(* ===== verification/Tgc_Broker_Inv.thy ===== *)
theory Tgc_Broker_Inv
  imports Tgc_Broker
begin

text \<open>
  The state invariant of the broker and how the critical sections of its threads keep it: the waiter queue
  represents a list of blocked callers, the waiter counters of the store count them, the store and the
  watcher table are well formed.
\<close>

section \<open>What a dispatched request does to the store\<close>

lemma finish_response_result [simp]: "h_result (pk_header (finish_response r response)) = r"
  by (simp add: finish_response_def Let_def)

definition semop_prefix :: "tgc_protocol_packet \<Rightarrow> u32" where
  "semop_prefix request = (if opcode request = TGC_OPCODE_SEMTIMEDOP then 16 else 8)"

abbreviation request_semid :: "tgc_protocol_packet \<Rightarrow> s32" where
  "request_semid request \<equiv> tgc_wire_get_i32 (pk_payload request) 0"

abbreviation request_count :: "tgc_protocol_packet \<Rightarrow> u32" where
  "request_count request \<equiv> tgc_wire_get_u32 (pk_payload request) 4"

text \<open>A well-formed \<^verbatim>\<open>SEMOP\<close> or \<^verbatim>\<open>SEMTIMEDOP\<close> request for these operations.\<close>

definition semop_request :: "tgc_protocol_packet \<Rightarrow> tgc_sem_op list \<Rightarrow> bool" where
  "semop_request request ops \<longleftrightarrow>
     \<not> payload_length request < semop_prefix request \<and> request_count request \<noteq> 0 \<and>
     unat (request_count request) \<le> TGC_SEM_MAX_PER_SET \<and>
     payload_length request = semop_prefix request + request_count request * 8 \<and>
     (opcode request = TGC_OPCODE_SEMTIMEDOP \<longrightarrow> 0 \<le> sint (tgc_wire_get_i64 (pk_payload request) 8)) \<and>
     decode_operations (pk_payload request) (unat (semop_prefix request)) (unat (request_count request)) = Some ops"

text \<open>What is known of a request that blocked.\<close>

definition waiting_request :: "tgc_protocol_packet \<Rightarrow> bool" where
  "waiting_request request \<longleftrightarrow>
     (opcode request = TGC_OPCODE_SEMOP \<or> opcode request = TGC_OPCODE_SEMTIMEDOP) \<and>
     h_version (pk_header request) = TGC_PROTOCOL_VERSION \<and> h_kind (pk_header request) = TGC_PROTOCOL_REQUEST \<and>
     h_result (pk_header request) = 0 \<and> payload_length request \<le> TGC_PROTOCOL_MAX_PAYLOAD \<and>
     (\<exists>ops. semop_request request ops)"

text \<open>The payload that reports which semaphore blocks, and how.\<close>

definition blocked_payload :: "u8 list \<Rightarrow> tgc_sem_wait_reason option \<Rightarrow> u8 list" where
  "blocked_payload payload w =
     (let reason = (case w of Some w \<Rightarrow> w | None \<Rightarrow> \<lparr>wr_sem_num = 0, wr_wait_for_zero = 0\<rparr>);
          payload = tgc_wire_put_u16 payload 0 (wr_sem_num reason);
          payload = tgc_wire_put_u16 payload 2 (wr_wait_for_zero reason)
      in tgc_wire_put_u32 payload 4 0)"

lemma dispatch_semop_cases:
  assumes "dispatch_semop clk store request pid response = (r, store', response')"
  obtains (same) "store' = store" "response' = response" "r = - EMSGSIZE \<or> r = - EINVAL \<or> r = - EPROTO"
  | (tried) w ops where "semop_request request ops"
      "tgc_sem_store_tryop_detail clk store (request_semid request) ops pid = (r, store', w)"
      "response' = (if r = 1 then respond response (blocked_payload (pk_payload response) w) 8 else response)"
proof -
  have "store' = store \<and> response' = response \<and> (r = - EMSGSIZE \<or> r = - EINVAL \<or> r = - EPROTO) \<or>
    (\<exists>w ops. semop_request request ops \<and>
      tgc_sem_store_tryop_detail clk store (request_semid request) ops pid = (r, store', w) \<and>
      response' = (if r = 1 then respond response (blocked_payload (pk_payload response) w) 8 else response))"
    using assms unfolding dispatch_semop_def semop_request_def semop_prefix_def blocked_payload_def
    by (auto simp: Let_def split: if_splits option.splits prod.splits)
  then show ?thesis using that by blast
qed

lemma dispatch_semopD:
  assumes "tgc_broker_dispatch clk mem store request actor response = Inr (store', response')"
    and "opcode request = TGC_OPCODE_SEMOP \<or> opcode request = TGC_OPCODE_SEMTIMEDOP"
  shows "\<exists>r response1. response' = finish_response r response1 \<and>
    dispatch_semop clk store request (ac_pid actor) (prepare_response request response) = (r, store', response1)"
proof -
  obtain r response1 where
    "dispatch_opcode clk mem store request actor (prepare_response request response) = (r, store', response1)"
    "response' = finish_response r response1" by (rule dispatch_InrD [OF assms(1)])
  then show ?thesis using assms(2) by (auto simp: dispatch_opcode_def Let_def)
qed

lemma blocked_is_waiting:
  assumes d: "tgc_broker_dispatch clk mem store request actor response = Inr (store', response')"
    and op: "opcode request = TGC_OPCODE_SEMOP \<or> opcode request = TGC_OPCODE_SEMTIMEDOP"
    and blocked: "h_result (pk_header response') = TGC_SEM_OP_BLOCKED"
  shows "waiting_request request"
proof -
  obtain r response1 where r: "response' = finish_response r response1"
    and s: "dispatch_semop clk store request (ac_pid actor) (prepare_response request response) = (r, store', response1)"
    using dispatch_semopD [OF d op] by blast
  have "\<exists>ops. semop_request request ops"
    by (cases rule: dispatch_semop_cases [OF s]) (use r blocked in auto)
  then show ?thesis
    using d op by (auto simp: waiting_request_def tgc_broker_dispatch_def not_less split: if_splits)
qed

lemma dispatch_cases:
  assumes "tgc_broker_dispatch clk mem store request actor response = Inr (store', response')"
  obtains (same) "store' = store"
  | (semget) r key nsems flags where "opcode request = TGC_OPCODE_SEMGET"
      "tgc_sem_store_get_as clk mem store key nsems flags (ac_identity actor) = (r, store')"
  | (remove) r semid where "opcode request = TGC_OPCODE_REMOVE" "h_result (pk_header response') = r"
      "tgc_sem_store_remove store semid = (r, store')"
  | (setval) r semid n val where "opcode request = TGC_OPCODE_SETVAL" "h_result (pk_header response') = r"
      "tgc_sem_store_setval clk store semid n val (ac_pid actor) = (r, store')"
  | (setall) r semid vals where "opcode request = TGC_OPCODE_SETALL" "h_result (pk_header response') = r"
      "tgc_sem_store_setall clk store semid vals (ac_pid actor) = (r, store')"
  | (setmeta) r semid uid gid mode where "opcode request = TGC_OPCODE_SETMETA"
      "tgc_sem_store_set_metadata clk store semid uid gid mode (ac_identity actor) = (r, store')"
  | (semop) r w ops where "opcode request = TGC_OPCODE_SEMOP \<or> opcode request = TGC_OPCODE_SEMTIMEDOP"
      "h_result (pk_header response') = r"
      "semop_request request ops"
      "tgc_sem_store_tryop_detail clk store (request_semid request) ops (ac_pid actor) = (r, store', w)"
proof -
  obtain r response1 where
    d: "dispatch_opcode clk mem store request actor (prepare_response request response) = (r, store', response1)"
    and r: "response' = finish_response r response1" by (rule dispatch_InrD [OF assms])
  have res: "h_result (pk_header response') = r" by (simp add: r)
  show ?thesis
  proof (cases "store' = store")
    case False
    consider "opcode request = TGC_OPCODE_SEMGET" "dispatch_semget clk mem store request (ac_identity actor) = (r, store')"
      | "opcode request = TGC_OPCODE_REMOVE" "tgc_sem_store_remove store (tgc_wire_get_i32 (pk_payload request) 0) = (r, store')"
      | "opcode request = TGC_OPCODE_SETVAL" "dispatch_setval clk store request (ac_pid actor) = (r, store')"
      | "opcode request = TGC_OPCODE_SETALL" "dispatch_setall clk store request (ac_pid actor) = (r, store')"
      | "opcode request = TGC_OPCODE_SETMETA" "dispatch_setmeta clk store request (ac_identity actor) = (r, store')"
      | "opcode request = TGC_OPCODE_SEMOP \<or> opcode request = TGC_OPCODE_SEMTIMEDOP"
        "dispatch_semop clk store request (ac_pid actor) (prepare_response request response) = (r, store', response1)"
      using d False
      by (auto simp: dispatch_opcode_def Let_def case_prod_beta split: if_splits)
    then show ?thesis
    proof cases
      case 1 then show ?thesis using False semget by (auto simp: dispatch_semget_def Let_def split: if_splits)
    next
      case 2 then show ?thesis using remove res by metis
    next
      case 3 then show ?thesis using False setval res by (auto simp: dispatch_setval_def Let_def split: if_splits)
    next
      case 4 then show ?thesis using False setall res by (auto simp: dispatch_setall_def Let_def split: if_splits)
    next
      case 5 then show ?thesis using False setmeta by (auto simp: dispatch_setmeta_def Let_def split: if_splits)
    next
      case 6
      show ?thesis by (rule dispatch_semop_cases [OF 6(2)]) (use False semop res 6(1) in blast)+
    qed
  qed (rule same)
qed

text \<open>The waiter counters: a request leaves a counter alone, removes it with its set, or starts it at zero.\<close>

lemma dispatch_wait_count:
  assumes wf: "store_wf st" and d: "tgc_broker_dispatch clk mem st request actor response = Inr (st', response')"
  shows "wait_count st' x n z = wait_count st x n z \<or> wait_count st' x n z = None \<or>
    find_set st x = None \<and> find_set st' x \<noteq> None \<and> wait_count st' x n z = Some 0"
proof -
  have wf': "store_wf st'" by (rule dispatch_handler_ok [OF wf d]) (simp add: handler_ok_def)
  have shape: "wait_count st' x n z = wait_count st x n z" if "store_shape st' = store_shape st"
    by (rule wait_count_shape [OF wf' wf that])
  show ?thesis
  proof (cases rule: dispatch_cases [OF d])
    case 1 then show ?thesis by simp
  next
    case (2 r key nsems flags)
    then show ?thesis using wait_count_get_as [OF wf 2(2), of x n z] by (cases "wait_count st' x n z") auto
  next
    case (3 r semid)
    then show ?thesis using wait_count_remove [OF wf 3(3), of x n z] by auto
  next
    case (4 r semid k val)
    then show ?thesis using shape shape_setval [of clk st semid k val "ac_pid actor"] by simp
  next
    case (5 r semid vals)
    then show ?thesis using shape shape_setall [of clk st semid vals "ac_pid actor"] by simp
  next
    case (6 r semid uid gid mode)
    then show ?thesis using shape shape_set_metadata [of clk st semid uid gid mode "ac_identity actor"] by simp
  next
    case (7 r w ops)
    then show ?thesis using shape shape_tryop_detail [OF 7(4)] by simp
  qed
qed

text \<open>The values: without the effect the broker signals, every semaphore keeps its value.\<close>

lemma sem_value_get_as:
  assumes wf: "store_wf st" and g: "tgc_sem_store_get_as clk mem st key nsems flags identity = (r, st')"
    and v: "sem_value st x n = Some v"
  shows "sem_value st' x n = Some v"
proof (cases "0 < sint r")
  case False
  then show ?thesis using get_as_failed [OF wf g] v by simp
next
  case True
  show ?thesis
  proof (rule find_set_get_as [OF wf g True])
    fix i
    let ?s = "new_set clk (st_sets st ! i) key nsems flags identity"
    assume i: "i < 128" "\<not> s_active (st_sets st ! i)"
      and st': "st' = st\<lparr>st_sets := (st_sets st)[i := ?s]\<rparr>"
    obtain j where j: "find_set st x = Some j" using v by (rule sem_value_SomeD)
    note J = find_set_SomeD [OF wf j]
    have "j \<noteq> i" using J(2) i(2) by auto
    then have same: "st_sets st' ! j = st_sets st ! j" by (simp add: st')
    have "find_set st' x = Some j" using j same by (auto simp: find_set_def Let_def split: option.splits if_splits)
    then show ?thesis using v j same by (simp add: sem_value_def split: if_splits)
  qed (use v in simp)
qed

lemma set_metadata_frame:
  assumes "store_wf st" and "tgc_sem_store_set_metadata clk st semid uid gid mode actor = (r, st')"
  shows "sem_value st' = sem_value st" and "st_undo st' = st_undo st"
proof -
  have "st' = st \<or> (\<exists>i s. find_set st semid = Some i \<and> st' = st\<lparr>st_sets := (st_sets st)[i := s]\<rparr> \<and>
      s_active s = s_active (st_sets st ! i) \<and> s_generation s = s_generation (st_sets st ! i) \<and>
      s_nsems s = s_nsems (st_sets st ! i) \<and> s_values s = s_values (st_sets st ! i))"
    using assms(2) by (auto simp: tgc_sem_store_set_metadata_def Let_def split: option.splits if_splits)
  then show "sem_value st' = sem_value st" "st_undo st' = st_undo st"
    using sem_value_update [OF assms(1)] by (auto intro!: ext simp: sem_value_def [of st])
qed

lemma dispatch_values:
  assumes wf: "store_wf st" and d: "tgc_broker_dispatch clk mem st request actor response = Inr (st', response')"
    and quiet: "\<not> operation_changed_state request response'" and v: "sem_value st x n = Some v"
  shows "sem_value st' x n = Some v"
proof (cases rule: dispatch_cases [OF d])
  case 1 then show ?thesis using v by simp
next
  case (2 r key nsems flags)
  then show ?thesis using sem_value_get_as [OF wf 2(2) v] by simp
next
  case (3 r semid)
  then show ?thesis
    using v quiet by (auto simp: operation_changed_state_def tgc_sem_store_remove_def Let_def split: option.splits)
next
  case (4 r semid k val)
  then show ?thesis using v quiet
    by (auto simp: operation_changed_state_def tgc_sem_store_setval_def Let_def split: option.splits if_splits)
next
  case (5 r semid vals)
  then show ?thesis using v quiet
    by (auto simp: operation_changed_state_def tgc_sem_store_setall_def Let_def split: option.splits if_splits)
next
  case (6 r semid uid gid mode)
  then show ?thesis using set_metadata_frame [OF wf 6(2)] v by simp
next
  case (7 r w ops)
  show ?thesis by (rule tryop_cases [OF wf 7(4)]) (use 7 v quiet in \<open>auto simp: operation_changed_state_def\<close>)
qed

text \<open>The undo table: only an operation with \<^verbatim>\<open>SEM_UNDO\<close> of the calling process adds to it.\<close>

lemma undo_sum_nonzero: "undo_sum ops n \<noteq> 0 \<Longrightarrow> \<exists>i < length ops. sem_flg (ops ! i) AND TGC_SEM_UNDO \<noteq> 0"
proof (induction ops)
  case (Cons op ops)
  then show ?case
  proof (cases "sem_flg op AND TGC_SEM_UNDO \<noteq> 0")
    case True
    then show ?thesis by (intro exI [of _ 0]) simp
  next
    case False
    then obtain i where "i < length ops" "sem_flg (ops ! i) AND TGC_SEM_UNDO \<noteq> 0"
      using Cons by (auto simp: is_undo_def split: if_splits)
    then show ?thesis by (intro exI [of _ "Suc i"]) simp
  qed
qed simp

lemma decode_operations_nth:
  "decode_operations inp p n = Some ops \<Longrightarrow> length ops = n \<and> (\<forall>i < n. ops ! i = get_op inp (p + i * 8))"
proof (induction n arbitrary: p ops)
  case (Suc n)
  then obtain rest where rest: "decode_operations inp (p + 8) n = Some rest" and ops: "ops = get_op inp p # rest"
    by (auto split: if_splits option.splits)
  have "ops ! i = get_op inp (p + i * 8)" if "i < Suc n" for i
    using Suc.IH [OF rest] that by (cases i) (auto simp: ops algebra_simps)
  then show ?case using Suc.IH [OF rest] ops by simp
qed simp

lemma request_uses_undoI:
  assumes "semop_request request ops" and "undo_sum ops n \<noteq> 0"
    and "opcode request = TGC_OPCODE_SEMOP \<or> opcode request = TGC_OPCODE_SEMTIMEDOP"
  shows "request_uses_undo request"
proof -
  obtain i where i: "i < length ops" "sem_flg (ops ! i) AND TGC_SEM_UNDO \<noteq> 0" using undo_sum_nonzero [OF assms(2)] by blast
  have "length ops = unat (request_count request)"
    "ops ! i = get_op (pk_payload request) (unat (semop_prefix request) + i * 8)"
    using assms(1) i(1) decode_operations_nth unfolding semop_request_def by metis+
  then have "\<exists>i \<in> {0..<unat (request_count request)}.
      tgc_wire_get_u16 (pk_payload request) (unat (semop_prefix request) + i * 8 + 4) AND TGC_SEM_UNDO \<noteq> 0"
    using i by (intro bexI [of _ i]) (auto simp: get_op_def)
  then show ?thesis
    using assms(1,3) unfolding request_uses_undo_def Let_def semop_request_def semop_prefix_def [symmetric]
    by (auto simp: not_less)
qed

lemma dispatch_undo:
  assumes wf: "store_wf st" and d: "tgc_broker_dispatch clk mem st request actor response = Inr (st', response')"
    and u: "undo_of st' p x m \<noteq> 0"
  shows "undo_of st p x m \<noteq> 0 \<or> p = ac_pid actor \<and> request_uses_undo request"
proof (cases rule: dispatch_cases [OF d])
  case 1 then show ?thesis using u by simp
next
  case (2 r key nsems flags)
  have "st_undo st' = st_undo st"
    using 2(2) get_as_failed [OF wf 2(2)] by (cases "0 < sint r") (auto elim: find_set_get_as [OF wf 2(2)])
  then show ?thesis using u undo_of_cong by metis
next
  case (3 r semid)
  have "st' = st \<or> st_undo st' = st_undo (clear_undo_entries st semid 0 True)"
    using 3 by (auto simp: tgc_sem_store_remove_def Let_def split: option.splits)
  then show ?thesis using u undo_of_cong undo_of_clear by metis
next
  case (4 r semid k val)
  have "st' = st \<or> st_undo st' = st_undo (clear_undo_entries st semid k False)"
    using 4 by (auto simp: tgc_sem_store_setval_def Let_def split: option.splits if_splits)
  then show ?thesis using u undo_of_cong undo_of_clear by metis
next
  case (5 r semid vals)
  have "st' = st \<or> st_undo st' = st_undo (clear_undo_entries st semid 0 True)"
    using 5 by (auto simp: tgc_sem_store_setall_def Let_def split: option.splits if_splits)
  then show ?thesis using u undo_of_cong undo_of_clear by metis
next
  case (6 r semid uid gid mode)
  then show ?thesis using undo_of_cong [OF set_metadata_frame(2) [OF wf 6(2)]] u by simp
next
  case (7 r w ops)
  show ?thesis
    by (rule tryop_cases [OF wf 7(4)]) (use u request_uses_undoI [OF 7(3) _ 7(1)] in \<open>auto split: if_splits\<close>)
qed

section \<open>The invariant\<close>

definition matches :: "(nat \<Rightarrow> tgc_waiter) \<Rightarrow> s32 \<Rightarrow> nat \<Rightarrow> bool \<Rightarrow> nat \<Rightarrow> bool" where
  "matches nodes x n z a \<longleftrightarrow>
     w_semid (nodes a) = x \<and> unat (w_semnum (nodes a)) = n \<and> (w_wait_for_zero (nodes a) \<noteq> 0) = z"

text \<open>How many queued callers wait for semaphore \<open>n\<close> of set \<open>x\<close>, to become zero or to grow.\<close>

definition waiting_for :: "tgc_broker \<Rightarrow> nat list \<Rightarrow> s32 \<Rightarrow> nat \<Rightarrow> bool \<Rightarrow> nat" where
  "waiting_for b xs x n z = length (filter (matches (br_nodes b) x n z) xs)"

text \<open>
  \<open>xs\<close> is the waiter queue. A counter of the store never exceeds the number of queued callers it counts; it is
  that number if \<open>strict\<close>.
\<close>

definition broker_inv :: "bool \<Rightarrow> tgc_broker \<Rightarrow> nat list \<Rightarrow> bool" where
  "broker_inv strict b xs \<longleftrightarrow>
     store_wf (br_store b) \<and> watchers_wf b \<and> queue_rep b xs \<and> (\<forall>a \<in> set xs. w_counted (br_nodes b a)) \<and>
     (\<forall>x n z c. wait_count (br_store b) x n z = Some c \<longrightarrow>
        c \<le> waiting_for b xs x n z \<and> (strict \<longrightarrow> c = waiting_for b xs x n z))"

lemma broker_invD:
  assumes "broker_inv strict b xs"
  shows "store_wf (br_store b)" "watchers_wf b" "queue_rep b xs" "\<And>a. a \<in> set xs \<Longrightarrow> w_counted (br_nodes b a)"
    "wait_count (br_store b) x n z = Some c \<Longrightarrow> c \<le> waiting_for b xs x n z"
    "wait_count (br_store b) x n z = Some c \<Longrightarrow> strict \<Longrightarrow> c = waiting_for b xs x n z"
  using assms by (auto simp: broker_inv_def)

lemma matches_data: "node_data (nodes a) = node_data (nodes' a) \<Longrightarrow> matches nodes x n z a = matches nodes' x n z a"
  using node_data_fields [of "nodes a" "nodes' a"] by (simp add: matches_def)

lemma waiting_for_cong:
  "(\<And>a. a \<in> set xs \<Longrightarrow> node_data (br_nodes b a) = node_data (br_nodes b' a)) \<Longrightarrow>
     waiting_for b xs x n z = waiting_for b' xs x n z"
  unfolding waiting_for_def by (intro arg_cong [of _ _ length] filter_cong refl matches_data)

lemma waiting_for_remove:
  "a \<in> set xs \<Longrightarrow> waiting_for b (remove1 a xs) x n z =
     waiting_for b xs x n z - (if matches (br_nodes b) x n z a then 1 else 0)"
  by (simp add: waiting_for_def filter_remove1 length_remove1)

lemma queue_rep_cong:
  assumes "queue_rep b xs" and "br_waiters_head b' = br_waiters_head b" and "br_waiters_tail b' = br_waiters_tail b"
    and "\<And>a. a \<in> set xs \<Longrightarrow> w_next (br_nodes b' a) = w_next (br_nodes b a)"
  shows "queue_rep b' xs"
  using assms chain_cong [of xs "br_nodes b'" "br_nodes b"] by (simp add: queue_rep_def)

lemma watchers_wf_cong: "br_process_watchers b' = br_process_watchers b \<Longrightarrow> watchers_wf b' = watchers_wf b"
  by (simp add: watchers_wf_def)

text \<open>What leaving the queue keeps besides the invariant.\<close>

definition same_but_queue :: "tgc_broker \<Rightarrow> tgc_broker \<Rightarrow> nat \<Rightarrow> bool" where
  "same_but_queue b b' a \<longleftrightarrow>
     sem_value (br_store b') = sem_value (br_store b) \<and> undo_of (br_store b') = undo_of (br_store b) \<and>
     (\<forall>x. find_set (br_store b') x = find_set (br_store b) x) \<and>
     br_process_watchers b' = br_process_watchers b \<and>
     br_process_monitor_started b' = br_process_monitor_started b \<and>
     br_stop_process_monitor b' = br_stop_process_monitor b \<and>
     (\<forall>x. x \<noteq> a \<longrightarrow> node_data (br_nodes b' x) = node_data (br_nodes b x))"

lemma finish_waiter_ok:
  assumes inv: "broker_inv strict b xs" and a: "a \<in> set xs"
  shows "\<exists>b'. finish_waiter b a = Some b' \<and> broker_inv strict b' (remove1 a xs) \<and> same_but_queue b b' a"
proof -
  note I = broker_invD [OF inv]
  obtain b1 where r: "remove_waiter b a = Some b1" and q: "queue_rep b1 (remove1 a xs)"
    using broker_queue.leave_rep [OF I(3)] by blast
  note F = remove_waiter_frame [OF r]
  let ?w = "br_nodes b1 a"
  have counted: "w_counted ?w" using node_data_fields(4) [OF F(5)] I(4) [OF a] by simp
  have notin: "a \<notin> set (remove1 a xs)" using broker_queue.rep_distinct [OF I(3)] by simp
  obtain rr st where adj: "tgc_sem_store_adjust_wait_count (br_store b1) (w_semid ?w) (unat (w_semnum ?w))
      (w_wait_for_zero ?w \<noteq> 0) (- 1) = (rr, st)" by fastforce
  define b' where "b' = b1\<lparr>br_store := st, br_nodes := (br_nodes b1)(a := ?w\<lparr>w_counted := False\<rparr>)\<rparr>"
  have fin: "finish_waiter b a = Some b'" by (simp add: finish_waiter_def r counted adj b'_def)
  have data: "node_data (br_nodes b' x) = node_data (br_nodes b x)" if "x \<noteq> a" for x
    using that F(5) [of x] by (simp add: b'_def)
  have q': "queue_rep b' (remove1 a xs)" by (rule queue_rep_cong [OF q]) (use notin in \<open>auto simp: b'_def\<close>)
  have wait: "waiting_for b' (remove1 a xs) x n z =
      waiting_for b xs x n z - (if matches (br_nodes b1) x n z a then 1 else 0)" for x n z
  proof -
    have "waiting_for b' (remove1 a xs) x n z = waiting_for b (remove1 a xs) x n z"
      by (rule waiting_for_cong) (use data notin in metis)
    then show ?thesis using matches_data [of "br_nodes b1" a "br_nodes b" x n z, OF F(5)] by (simp add: waiting_for_remove [OF a])
  qed
  have counted': "\<forall>x \<in> set (remove1 a xs). w_counted (br_nodes b' x)"
    using node_data_fields(4) [OF data] I(4) notin notin_set_remove1 by metis
  have st1: "br_store b1 = br_store b" by (rule F(1))
  have "store_wf st \<and> sem_value st = sem_value (br_store b) \<and> undo_of st = undo_of (br_store b) \<and>
      (\<forall>x. find_set st x = find_set (br_store b) x) \<and>
      (\<forall>x n z c. wait_count st x n z = Some c \<longrightarrow> c \<le> waiting_for b' (remove1 a xs) x n z \<and>
         (strict \<longrightarrow> c = waiting_for b' (remove1 a xs) x n z))"
  proof (cases rule: adjust_cases [OF I(1) adj [unfolded st1]])
    case 1
    then show ?thesis using I(1,5,6) unfolding wait by (fastforce simp: matches_def)
  next
    case (2 c)
    then show ?thesis using I(5,6) unfolding wait by (fastforce simp: matches_def)
  qed
  then show ?thesis
    using fin q' counted' I(2) F data unfolding broker_inv_def same_but_queue_def
    by (intro exI [of _ b']) (auto simp: b'_def watchers_wf_def)
qed

section \<open>Entering the queue\<close>

lemma initialize_deadline_fields:
  assumes "initialize_deadline now request w = (r, w')"
  shows "w_semid w' = w_semid w" "w_semnum w' = w_semnum w" "w_wait_for_zero w' = w_wait_for_zero w"
  using assms by (auto simp: initialize_deadline_def Let_def split: if_splits sum.splits)

lemma queue_request_cases:
  assumes wf: "store_wf (br_store b)" and q: "queue_request env b a request response = (r, b')"
  obtains (failed) "r \<noteq> 0" "b' = b"
  | (queued) w c st where "r = 0" "w_semid w = request_semid request" "w_counted w"
      "wait_count (br_store b) (w_semid w) (unat (w_semnum w)) (w_wait_for_zero w \<noteq> 0) = Some c"
      "b' = enqueue_waiter (b\<lparr>br_store := st, br_nodes := (br_nodes b)(a := w)\<rparr>) a" "store_wf st"
      "\<And>x m z. wait_count st x m z = (if x = w_semid w \<and> m = unat (w_semnum w) \<and> z = (w_wait_for_zero w \<noteq> 0)
         then Some (c + 1) else wait_count (br_store b) x m z)"
      "\<And>x. find_set st x = find_set (br_store b) x" "sem_value st = sem_value (br_store b)"
      "undo_of st = undo_of (br_store b)"
proof -
  obtain r1 w1 where dl: "initialize_deadline (e_monotonic env) request (new_waiter request response) = (r1, w1)"
    by fastforce
  obtain r2 st where adj: "tgc_sem_store_adjust_wait_count (br_store b) (w_semid w1) (unat (w_semnum w1))
      (w_wait_for_zero w1 \<noteq> 0) 1 = (r2, st)" by fastforce
  let ?w = "w1\<lparr>w_counted := True\<rparr>"
  have semid: "w_semid w1 = request_semid request"
    using initialize_deadline_fields(1) [OF dl] by (simp add: new_waiter_def)
  consider "r \<noteq> 0" "b' = b \<or> r2 \<noteq> 0 \<and> b' = b\<lparr>br_store := st\<rparr>"
    | "r = 0" "r2 = 0" "b' = enqueue_waiter (b\<lparr>br_store := st, br_nodes := (br_nodes b)(a := ?w)\<rparr>) a"
    using q dl adj by (auto simp: queue_request_def Let_def split: if_splits)
  then show ?thesis
  proof cases
    case 1
    then show ?thesis by (cases rule: adjust_cases [OF wf adj]) (auto intro: failed)
  next
    case 2
    show ?thesis
      by (cases rule: adjust_cases [OF wf adj]) (use 2 semid in \<open>auto intro!: queued [of ?w]\<close>)
  qed
qed

lemma queue_request_ok:
  assumes inv: "broker_inv strict b xs" and a: "a \<notin> set xs" and q: "queue_request env b a request response = (r, b')"
  shows "if r = 0 then broker_inv strict b' (xs @ [a]) \<and> same_but_queue b b' a \<and>
      w_semid (br_nodes b' a) = request_semid request else b' = b"
proof (cases rule: queue_request_cases [OF broker_invD(1) [OF inv] q])
  case (2 w c st)
  note I = broker_invD [OF inv]
  let ?b = "b\<lparr>br_store := st, br_nodes := (br_nodes b)(a := w)\<rparr>"
  note F = enqueue_waiter_frame [of ?b a, folded 2(5)]
  have "queue_rep ?b xs" by (rule queue_rep_cong [OF I(3)]) (use a in auto)
  then have rep: "queue_rep b' (xs @ [a])" unfolding 2(5) by (rule broker_queue.enter_rep) (rule a)
  have data: "node_data (br_nodes b' x) = node_data (if x = a then w else br_nodes b x)" for x
    using F(5) [of x] by simp
  have counted: "w_counted (br_nodes b' x)" if "x \<in> set (xs @ [a])" for x
    using node_data_fields(4) [OF data [of x]] that I(4) 2(3) by auto
  have wait: "waiting_for b' (xs @ [a]) x n z = waiting_for b xs x n z +
      (if x = w_semid w \<and> n = unat (w_semnum w) \<and> z = (w_wait_for_zero w \<noteq> 0) then 1 else 0)" for x n z
  proof -
    have "waiting_for b' xs x n z = waiting_for b xs x n z"
      by (rule waiting_for_cong) (use data a in auto)
    moreover have "matches (br_nodes b') x n z a \<longleftrightarrow>
        x = w_semid w \<and> n = unat (w_semnum w) \<and> z = (w_wait_for_zero w \<noteq> 0)"
      using node_data_fields [OF data [of a]] by (auto simp: matches_def)
    ultimately show ?thesis by (simp add: waiting_for_def)
  qed
  have "broker_inv strict b' (xs @ [a])"
    unfolding broker_inv_def
  proof (intro conjI allI impI)
    fix x n z k
    assume "wait_count (br_store b') x n z = Some k"
    then show "k \<le> waiting_for b' (xs @ [a]) x n z" "strict \<Longrightarrow> k = waiting_for b' (xs @ [a]) x n z"
      using I(5,6) 2(4) F(1) 2(7) [of x n z] unfolding wait by (auto split: if_splits)
  qed (use rep counted F 2(6) I(2) in \<open>auto simp: watchers_wf_def\<close>)
  moreover have "same_but_queue b b' a" using F 2 data by (simp add: same_but_queue_def)
  moreover have "w_semid (br_nodes b' a) = request_semid request"
    using node_data_fields(1) [OF data [of a]] 2(2) by simp
  ultimately show ?thesis using 2(1) by simp
qed simp

section \<open>Changing the store\<close>

lemma dispatch_keeps_inv:
  assumes inv: "broker_inv strict b xs"
    and d: "tgc_broker_dispatch clk mem (br_store b) request actor response = Inr (st', response')"
    and fresh: "\<And>a. strict \<Longrightarrow> a \<in> set xs \<Longrightarrow> find_set (br_store b) (w_semid (br_nodes b a)) = None \<Longrightarrow>
      find_set st' (w_semid (br_nodes b a)) = None"
  shows "broker_inv strict (b\<lparr>br_store := st'\<rparr>) xs"
proof -
  note I = broker_invD [OF inv]
  have wf': "store_wf st'" by (rule dispatch_handler_ok [OF I(1) d]) (simp add: handler_ok_def)
  have w: "waiting_for (b\<lparr>br_store := st'\<rparr>) xs x n z = waiting_for b xs x n z" for x n z
    by (rule waiting_for_cong) simp
  have "queue_rep (b\<lparr>br_store := st'\<rparr>) xs" by (rule queue_rep_cong [OF I(3)]) simp_all
  moreover have "c \<le> waiting_for b xs x n z \<and> (strict \<longrightarrow> c = waiting_for b xs x n z)"
    if c: "wait_count st' x n z = Some c" for x n z c
  proof (cases "wait_count st' x n z = wait_count (br_store b) x n z")
    case True
    then show ?thesis using c I(5,6) by metis
  next
    case False
    then have new: "find_set (br_store b) x = None" "find_set st' x \<noteq> None" "c = 0"
      using dispatch_wait_count [OF I(1) d, of x n z] c by auto
    have "\<not> matches (br_nodes b) x n z a" if "strict" "a \<in> set xs" for a
      using fresh [OF that] new by (auto simp: matches_def)
    then have "strict \<Longrightarrow> waiting_for b xs x n z = 0" by (simp add: waiting_for_def filter_empty_conv)
    then show ?thesis using new by simp
  qed
  ultimately show ?thesis
    using wf' I(2,4) by (simp add: broker_inv_def w watchers_wf_def)
qed

lemma semop_keeps_sets:
  assumes wf: "store_wf st" and op: "opcode request = TGC_OPCODE_SEMOP \<or> opcode request = TGC_OPCODE_SEMTIMEDOP"
    and d: "tgc_broker_dispatch clk mem st request actor response = Inr (st', response')"
  shows "find_set st' x = find_set st x"
    and "h_result (pk_header response') \<noteq> 0 \<Longrightarrow> st' = st"
proof -
  have wf': "store_wf st'" by (rule dispatch_handler_ok [OF wf d]) (simp add: handler_ok_def)
  obtain r response1 where r: "response' = finish_response r response1"
    and s: "dispatch_semop clk st request (ac_pid actor) (prepare_response request response) = (r, st', response1)"
    using dispatch_semopD [OF d op] by blast
  show "find_set st' x = find_set st x"
    by (cases rule: dispatch_semop_cases [OF s])
      (use shape_tryop_detail find_set_shape [OF wf' wf] in auto)
  show "st' = st" if "h_result (pk_header response') \<noteq> 0"
  proof (cases rule: dispatch_semop_cases [OF s])
    case (2 w ops)
    show ?thesis by (rule tryop_cases [OF wf 2(2)]) (use that r in auto)
  qed
qed

section \<open>One round of a waiting thread\<close>

definition is_queued :: "served \<Rightarrow> bool" where
  "is_queued out \<longleftrightarrow> (case out of Queued _ _ \<Rightarrow> True | _ \<Rightarrow> False)"

lemma is_queued_simps [simp]:
  "is_queued (Queued response d)" "\<not> is_queued (Served response)" "\<not> is_queued (Failed r)"
  by (simp_all add: is_queued_def)

text \<open>
  What one round by waiter \<open>a\<close> does, seen from outside: it stays queued or leaves; the other waiters, the sets and
  the watchers are untouched; a value or an undo adjustment changes only when the waiter was first for its set
  and is answered with success; when nobody is signalled no value changed.
\<close>

definition round_ok ::
  "bool \<Rightarrow> tgc_broker \<Rightarrow> nat list \<Rightarrow> nat \<Rightarrow> tgc_protocol_packet \<Rightarrow> tgc_broker_actor \<Rightarrow> served \<Rightarrow> tgc_broker \<Rightarrow> bool \<Rightarrow> bool" where
  "round_ok strict b xs a request actor out b' sg \<longleftrightarrow>
     broker_inv strict b' (if is_queued out then xs else remove1 a xs) \<and>
     (is_queued out \<longrightarrow> node_data (br_nodes b' a) = node_data (br_nodes b a)) \<and>
     (\<forall>x. x \<noteq> a \<longrightarrow> node_data (br_nodes b' x) = node_data (br_nodes b x)) \<and>
     (\<forall>x. find_set (br_store b') x = find_set (br_store b) x) \<and>
     br_process_watchers b' = br_process_watchers b \<and>
     br_process_monitor_started b' = br_process_monitor_started b \<and>
     br_stop_process_monitor b' = br_stop_process_monitor b \<and>
     (sem_value (br_store b') \<noteq> sem_value (br_store b) \<or> undo_of (br_store b') \<noteq> undo_of (br_store b) \<longrightarrow>
        sg \<and> waiter_is_first_for_set b a = Some True \<and>
        (\<exists>response. out = Served response \<and> h_result (pk_header response) = 0)) \<and>
     (\<forall>p x m. undo_of (br_store b') p x m \<noteq> 0 \<longrightarrow>
        undo_of (br_store b) p x m \<noteq> 0 \<or> p = ac_pid actor \<and> request_uses_undo request)"

lemma round_okI_finish:
  assumes "broker_inv strict b xs" and "a \<in> set xs" and "\<not> is_queued out"
  shows "\<exists>b'. finish_with out b a = Some (out, b', True) \<and> round_ok strict b xs a request actor out b' True"
proof -
  obtain b' where "finish_waiter b a = Some b'" "broker_inv strict b' (remove1 a xs)" "same_but_queue b b' a"
    using finish_waiter_ok [OF assms(1,2)] by blast
  then show ?thesis
    using assms(3) by (intro exI [of _ b']) (auto simp: finish_with_def round_ok_def same_but_queue_def)
qed

lemma round_okI_wait:
  assumes "broker_inv strict b xs" and "a \<in> set xs"
  shows "\<exists>out b' sg. wait_round env b a response = Some (out, b', sg) \<and> round_ok strict b xs a request actor out b' sg"
proof (cases "e_monotonic env")
  case (Inl e)
  then show ?thesis using round_okI_finish [OF assms, of "Failed (- e)" request actor] by (auto simp: wait_round_def)
next
  case (Inr now)
  then show ?thesis using assms by (auto simp: wait_round_def round_ok_def)
qed

lemma waiter_pass_ok:
  assumes inv: "broker_inv strict b xs" and a: "a \<in> set xs"
    and op: "opcode request = TGC_OPCODE_SEMOP \<or> opcode request = TGC_OPCODE_SEMTIMEDOP"
  shows "\<exists>out b' sg. waiter_pass env b a request actor response = Some (out, b', sg) \<and>
    round_ok strict b xs a request actor out b' sg"
proof (cases "peer_has_closed (e_peek env)")
  case True
  then show ?thesis using round_okI_finish [OF inv a, of "Served response" request actor] by (auto simp: waiter_pass_def)
next
  case alive: False
  note I = broker_invD [OF inv]
  obtain first where first: "waiter_is_first_for_set b a = Some first"
    using broker_queue.first_rep [OF I(3)] by blast
  show ?thesis
  proof (cases first)
    case False
    then show ?thesis
      using alive first round_okI_wait [OF inv a, of env response request actor] by (simp add: waiter_pass_def)
  next
    case True
    show ?thesis
    proof (cases "tgc_broker_dispatch (e_realtime env) (e_memory env) (br_store b) request actor response")
      case (Inl r)
      then show ?thesis
        using alive first True round_okI_finish [OF inv a, of "Failed r" request actor] by (auto simp: waiter_pass_def)
    next
      case (Inr p)
      then obtain st' response' where
        d: "tgc_broker_dispatch (e_realtime env) (e_memory env) (br_store b) request actor response = Inr (st', response')"
        by (cases p) auto
      note S = semop_keeps_sets [OF I(1) op d]
      let ?b = "b\<lparr>br_store := st'\<rparr>"
      have inv': "broker_inv strict ?b xs" by (rule dispatch_keeps_inv [OF inv d]) (simp add: S)
      show ?thesis
      proof (cases "h_result (pk_header response') = TGC_SEM_OP_BLOCKED")
        case blocked: True
        then have "?b = b" using S(2) by simp
        then show ?thesis
          using alive first True d blocked round_okI_wait [OF inv a, of env response' request actor] by (simp add: waiter_pass_def)
      next
        case False
        obtain b' where fin: "finish_waiter ?b a = Some b'" and left: "broker_inv strict b' (remove1 a xs)"
          and same: "same_but_queue ?b b' a"
          using finish_waiter_ok [OF inv' a] by blast
        have "waiter_pass env b a request actor response = Some (Served response', b', True)"
          using alive first True d False fin by (simp add: waiter_pass_def finish_with_def)
        moreover have "sem_value (br_store b') = sem_value st'" "undo_of (br_store b') = undo_of st'"
          using same by (simp_all add: same_but_queue_def)
        then have "round_ok strict b xs a request actor (Served response') b' True"
          using left same S first True dispatch_undo [OF I(1) d]
          unfolding round_ok_def same_but_queue_def by (cases "st' = br_store b") (simp_all, blast+)
        ultimately show ?thesis by blast
      qed
    qed
  qed
qed

lemma waiter_wake_ok:
  assumes inv: "broker_inv strict b xs" and a: "a \<in> set xs"
    and op: "opcode request = TGC_OPCODE_SEMOP \<or> opcode request = TGC_OPCODE_SEMTIMEDOP"
  shows "\<exists>out b' sg. waiter_wake env r now b a request actor response = Some (out, b', sg) \<and>
    round_ok strict b xs a request actor out b' sg"
proof -
  obtain r' timed_out where w: "wait_result (br_nodes b a) r now = (r', timed_out)" by fastforce
  consider "r' \<noteq> 0" | "r' = 0" "timed_out" | "r' = 0" "\<not> timed_out" by blast
  then show ?thesis
  proof cases
    case 1
    then show ?thesis using w round_okI_finish [OF inv a, of "Failed r'" request actor] by (auto simp: waiter_wake_def)
  next
    case 2
    then show ?thesis
      using w round_okI_finish [OF inv a, of "Served (response\<lparr>pk_header :=
        (pk_header response)\<lparr>h_result := - EAGAIN, h_payload_length := 0\<rparr>\<rparr>)" request actor] by (auto simp: waiter_wake_def)
  next
    case 3
    then show ?thesis using w waiter_pass_ok [OF inv a op] by (simp add: waiter_wake_def)
  qed
qed

section \<open>A new request\<close>

text \<open>No set with the identifier some queued caller still waits for comes into being.\<close>

definition no_reuse :: "tgc_broker \<Rightarrow> tgc_broker \<Rightarrow> nat list \<Rightarrow> bool" where
  "no_reuse b b' xs \<longleftrightarrow> (\<forall>a \<in> set xs. find_set (br_store b) (w_semid (br_nodes b a)) = None \<longrightarrow>
     find_set (br_store b') (w_semid (br_nodes b a)) = None)"

definition request_ok ::
  "bool \<Rightarrow> tgc_broker \<Rightarrow> nat list \<Rightarrow> nat \<Rightarrow> tgc_protocol_packet \<Rightarrow> tgc_broker_actor \<Rightarrow> served \<Rightarrow> tgc_broker \<Rightarrow> bool \<Rightarrow> bool" where
  "request_ok strict b xs a request actor out b' sg \<longleftrightarrow>
     broker_inv strict b' (if is_queued out then xs @ [a] else xs) \<and>
     (is_queued out \<longrightarrow> w_semid (br_nodes b' a) = request_semid request \<and>
        waiting_request request) \<and>
     (\<forall>x. x \<noteq> a \<longrightarrow> node_data (br_nodes b' x) = node_data (br_nodes b x)) \<and>
     br_process_monitor_started b' = br_process_monitor_started b \<and>
     br_stop_process_monitor b' = br_stop_process_monitor b \<and>
     (\<forall>p. watched b p \<longrightarrow> watched b' p) \<and>
     (\<not> sg \<longrightarrow> (\<forall>x n v. sem_value (br_store b) x n = Some v \<longrightarrow> sem_value (br_store b') x n = Some v)) \<and>
     (\<forall>p x m. undo_of (br_store b') p x m \<noteq> 0 \<longrightarrow> undo_of (br_store b) p x m \<noteq> 0 \<or> watched b' p)"

lemma request_ok_trivial:
  assumes "broker_inv strict b xs" and "\<not> is_queued out"
  shows "request_ok strict b xs a request actor out b sg"
  using assms by (simp add: request_ok_def)

text \<open>Watching the process first does not disturb anything; the rest is as if the watcher had been there.\<close>

lemma request_ok_watch:
  assumes "watch_process k b pid = (r, b1, s1)" and "watchers_wf b" and "0 < sint pid"
    and "request_ok strict b1 xs a request actor out b' sg"
  shows "request_ok strict b xs a request actor out b' (s1 \<or> sg)"
proof -
  note W = watch_process_ok [OF assms(2,3,1)]
  have "br_store b1 = br_store b" "br_nodes b1 = br_nodes b"
    "br_process_monitor_started b1 = br_process_monitor_started b"
    "br_stop_process_monitor b1 = br_stop_process_monitor b"
    using arg_cong [OF W(5), of br_store] arg_cong [OF W(5), of br_nodes]
      arg_cong [OF W(5), of br_process_monitor_started] arg_cong [OF W(5), of br_stop_process_monitor] by simp_all
  then show ?thesis using assms(4) W(3) unfolding request_ok_def by simp
qed

lemma watch_keeps_inv:
  assumes "watch_process k b pid = (r, b1, s1)" and "broker_inv strict b xs" and "0 < sint pid"
  shows "broker_inv strict b1 xs"
proof -
  note W = watch_process_ok [OF broker_invD(2) [OF assms(2)] assms(3,1)]
  have eq: "b1 = b\<lparr>br_process_watchers := br_process_watchers b1\<rparr>"
    using arg_cong [OF W(5), of "\<lambda>b. b\<lparr>br_process_watchers := br_process_watchers b1\<rparr>"] by simp
  have "queue_rep b1 xs" "\<And>x n z. waiting_for b1 xs x n z = waiting_for b xs x n z"
    by (subst eq, rule queue_rep_cong [OF broker_invD(3) [OF assms(2)]], simp_all)
      (subst eq, rule waiting_for_cong, simp)
  moreover have "br_store b1 = br_store b" "br_nodes b1 = br_nodes b"
    by (subst eq, simp)+
  ultimately show ?thesis using assms(2) W(1) by (simp add: broker_inv_def)
qed

text \<open>The request path after the watch.\<close>

definition handle_request ::
  "broker_env \<Rightarrow> broker_env \<Rightarrow> tgc_broker \<Rightarrow> nat \<Rightarrow> tgc_protocol_packet \<Rightarrow> tgc_broker_actor \<Rightarrow>
   tgc_protocol_packet \<Rightarrow> (served \<times> tgc_broker \<times> bool) option" where
  "handle_request env env' broker a request actor response =
     (case tgc_broker_dispatch (e_realtime env) (e_memory env) (br_store broker) request actor response of
        Inl r \<Rightarrow> Some (Failed r, broker, False)
      | Inr (store, response) \<Rightarrow>
          let broker = broker\<lparr>br_store := store\<rparr> in
          if (opcode request \<noteq> TGC_OPCODE_SEMOP \<and> opcode request \<noteq> TGC_OPCODE_SEMTIMEDOP) \<or>
             h_result (pk_header response) \<noteq> TGC_SEM_OP_BLOCKED
          then Some (Served response, broker, operation_changed_state request response)
          else
            let (r, broker) = queue_request env broker a request response in
            if r \<noteq> 0 then Some (Failed r, broker, False)
            else waiter_pass env' broker a request actor response)"

lemma dispatch_request_eq:
  assumes "e_lock env = 0"
    and "(if request_uses_undo request then watch_process (e_kernel env) b (ac_pid actor) else (0, b, False)) = (r, b1, s1)"
  shows "dispatch_request env env' b a request actor response =
    (if r \<noteq> 0 then Some (Served (prepare_error_response request response r), b1, s1)
     else map_option (\<lambda>(out, b', s). (out, b', s1 \<or> s)) (handle_request env env' b1 a request actor response))"
  unfolding dispatch_request_def assms(2) handle_request_def
  by (auto simp: assms(1) Let_def split: sum.splits prod.splits)

lemma handle_request_ok:
  assumes inv: "broker_inv strict b xs" and a: "a \<notin> set xs"
    and w: "request_uses_undo request \<Longrightarrow> watched b (ac_pid actor)"
  shows "\<exists>out b' sg. handle_request env env' b a request actor response = Some (out, b', sg) \<and>
    ((strict \<longrightarrow> no_reuse b b' xs) \<longrightarrow> request_ok strict b xs a request actor out b' sg)"
proof (cases "tgc_broker_dispatch (e_realtime env) (e_memory env) (br_store b) request actor response")
  case (Inl r)
  then show ?thesis using request_ok_trivial [OF inv] by (auto simp: handle_request_def)
next
  case (Inr p)
  then obtain st' response' where
    d: "tgc_broker_dispatch (e_realtime env) (e_memory env) (br_store b) request actor response = Inr (st', response')"
    by (cases p) auto
  note I = broker_invD [OF inv]
  let ?b = "b\<lparr>br_store := st'\<rparr>"
  have wat: "find_watcher ?b = find_watcher b" by (intro ext find_watcher_cong) simp
  have undo: "undo_of st' q x m \<noteq> 0 \<Longrightarrow> undo_of (br_store b) q x m \<noteq> 0 \<or> watched b q" for q x m
    using dispatch_undo [OF I(1) d, of q x m] w by blast
  let ?op = "opcode request = TGC_OPCODE_SEMOP \<or> opcode request = TGC_OPCODE_SEMTIMEDOP"
  show ?thesis
  proof (cases "?op \<and> h_result (pk_header response') = TGC_SEM_OP_BLOCKED")
    case False
    have "request_ok strict b xs a request actor (Served response') ?b (operation_changed_state request response')"
      if "strict \<longrightarrow> no_reuse b ?b xs"
      using dispatch_keeps_inv [OF inv d] that dispatch_values [OF I(1) d] undo
      by (auto simp: request_ok_def no_reuse_def wat)
    then show ?thesis using d False by (auto simp: handle_request_def)
  next
    case True
    then have same: "?b = b" using semop_keeps_sets(2) [OF I(1) _ d] by simp
    obtain r b2 where q: "queue_request env b a request response' = (r, b2)" by fastforce
    note Q = queue_request_ok [OF inv a q]
    show ?thesis
    proof (cases "r = 0")
      case False
      then show ?thesis
        using d True q Q same request_ok_trivial [OF inv] by (auto simp: handle_request_def)
    next
      case r: True
      have inv2: "broker_inv strict b2 (xs @ [a])" and sbq: "same_but_queue b b2 a"
        and semid: "w_semid (br_nodes b2 a) = request_semid request" using Q r by auto
      obtain out b' sg where p: "waiter_pass env' b2 a request actor response' = Some (out, b', sg)"
        and ok: "round_ok strict b2 (xs @ [a]) a request actor out b' sg"
        using waiter_pass_ok [OF inv2, of a request env' actor response'] True by auto
      have wat': "find_watcher b' = find_watcher b"
        by (intro ext find_watcher_cong) (use ok sbq in \<open>simp add: round_ok_def same_but_queue_def\<close>)
      have inv': "broker_inv strict b' (if is_queued out then xs @ [a] else xs)"
        using ok a by (simp add: round_ok_def remove1_append split: if_splits)
      moreover have "is_queued out \<Longrightarrow> w_semid (br_nodes b' a) = request_semid request"
        using ok semid node_data_fields(1) by (metis round_ok_def)
      moreover have "\<not> sg \<Longrightarrow> sem_value (br_store b') = sem_value (br_store b)"
        using ok sbq unfolding round_ok_def same_but_queue_def by metis
      moreover have "undo_of (br_store b') q x m \<noteq> 0 \<Longrightarrow> undo_of (br_store b) q x m \<noteq> 0 \<or> watched b q" for q x m
        using ok sbq w unfolding round_ok_def same_but_queue_def by metis
      ultimately have "request_ok strict b xs a request actor out b' sg"
        using ok sbq True blocked_is_waiting [OF d] unfolding request_ok_def wat' round_ok_def same_but_queue_def by simp
      then show ?thesis using d True q r same p by (auto simp: handle_request_def)
    qed
  qed
qed

lemma dispatch_request_ok:
  assumes inv: "broker_inv strict b xs" and a: "a \<notin> set xs" and pid: "0 < sint (ac_pid actor)"
  shows "\<exists>out b' sg. dispatch_request env env' b a request actor response = Some (out, b', sg) \<and>
    ((strict \<longrightarrow> no_reuse b b' xs) \<longrightarrow> request_ok strict b xs a request actor out b' sg)"
proof (cases "e_lock env = 0")
  case False
  then show ?thesis using request_ok_trivial [OF inv] by (auto simp: dispatch_request_def)
next
  case True
  obtain r b1 s1 where w: "(if request_uses_undo request then watch_process (e_kernel env) b (ac_pid actor)
      else (0, b, False)) = (r, b1, s1)" by (metis prod_cases3)
  have inv1: "broker_inv strict b1 xs"
    using w watch_keeps_inv [OF _ inv pid] inv by (auto split: if_splits)
  have lift: "request_ok strict b xs a request actor out b' (s1 \<or> sg)"
    if "request_ok strict b1 xs a request actor out b' sg" for out b' sg
    using w that request_ok_watch [OF _ broker_invD(2) [OF inv] pid] by (auto split: if_splits)
  show ?thesis
  proof (cases "r = 0")
    case False
    have "request_ok strict b1 xs a request actor (Served (prepare_error_response request response r)) b1 s1"
      by (rule request_ok_trivial [OF inv1]) simp
    then show ?thesis using False lift unfolding dispatch_request_eq [OF True w] by fastforce
  next
    case r: True
    have "watched b1 (ac_pid actor)" if "request_uses_undo request"
      using that w r watch_process_ok(2) [OF broker_invD(2) [OF inv] pid] by auto
    then obtain out b' sg where h: "handle_request env env' b1 a request actor response = Some (out, b', sg)"
      and ok: "(strict \<longrightarrow> no_reuse b1 b' xs) \<longrightarrow> request_ok strict b1 xs a request actor out b' sg"
      using handle_request_ok [OF inv1 a] by blast
    have "b1\<lparr>br_process_watchers := br_process_watchers b\<rparr> = b"
      using w watch_process_ok(5) [OF broker_invD(2) [OF inv] pid] by (auto split: if_splits)
    then have "br_store b1 = br_store b" "br_nodes b1 = br_nodes b" by (metis tgc_broker.select_convs(1,2) tgc_broker.surjective tgc_broker.update_convs(5))+
    then have "no_reuse b1 b' xs \<longleftrightarrow> no_reuse b b' xs" by (simp add: no_reuse_def)
    then show ?thesis using h ok lift r unfolding dispatch_request_eq [OF True w] by auto
  qed
qed

end
