(* ===== verification/Tgc_Broker_System.thy ===== *)
theory Tgc_Broker_System
  imports Tgc_Broker_Inv
begin

text \<open>
  The running broker: the shared state and one thread per connection, as a step relation. A step is what one
  thread does between two points where it gives up the mutex or blocks on its socket; steps of different
  threads interleave in every order. The answers of the machine are arbitrary in every step.
\<close>

section \<open>The step relation\<close>

record tgc_system =
  sy_broker :: tgc_broker
  sy_conns :: "nat \<Rightarrow> (tgc_broker_actor \<times> conn_state) option"

definition initial_system :: tgc_system where
  "initial_system = \<lparr>sy_broker = new_broker, sy_conns = (\<lambda>_. None)\<rparr>"

inductive sys_step :: "tgc_system \<Rightarrow> tgc_system \<Rightarrow> bool" where
  accept: "sy_conns s a = None \<Longrightarrow> serve_start fd peer uid = Inr actor \<Longrightarrow>
    sys_step s (s\<lparr>sy_conns := (sy_conns s)(a \<mapsto> (actor, Receiving))\<rparr>)"
| receive: "sy_conns s a = Some (actor, Receiving) \<Longrightarrow>
    tgc_transport_receive socket buffer = Some (r, request, socket') \<Longrightarrow>
    serve_received env env' (sy_broker s) a r request actor response = Some (st, b, sg) \<Longrightarrow>
    sys_step s \<lparr>sy_broker = b, sy_conns = (sy_conns s)(a \<mapsto> (actor, st))\<rparr>"
| wake: "sy_conns s a = Some (actor, Waiting request response deadline) \<Longrightarrow>
    waiter_wake env r now (sy_broker s) a request actor response = Some (out, b, sg) \<Longrightarrow>
    sys_step s \<lparr>sy_broker = b, sy_conns = (sy_conns s)(a \<mapsto> (actor, conn_after request out))\<rparr>"
| send: "sy_conns s a = Some (actor, Sending response) \<Longrightarrow>
    tgc_transport_send wire socket response = Some (r, sent) \<Longrightarrow>
    sys_step s (s\<lparr>sy_conns := (sy_conns s)(a \<mapsto> (actor, serve_sent r))\<rparr>)"
| close: "sy_conns s a = Some (actor, Closed r) \<Longrightarrow>
    sys_step s (s\<lparr>sy_conns := (sy_conns s)(a := None)\<rparr>)"
| monitor: "\<not> br_stop_process_monitor (sy_broker s) \<Longrightarrow> monitor_pass k clks (sy_broker s) = (b, sg) \<Longrightarrow>
    sys_step s (s\<lparr>sy_broker := b\<rparr>)"

inductive_cases sys_stepE: "sys_step s t"

definition waits :: "tgc_system \<Rightarrow> nat \<Rightarrow> bool" where
  "waits s a \<longleftrightarrow> (\<exists>actor request response deadline. sy_conns s a = Some (actor, Waiting request response deadline))"

text \<open>Steps in which no set with an identifier some caller is still waiting for comes into being.\<close>

definition fresh_step :: "tgc_system \<Rightarrow> tgc_system \<Rightarrow> bool" where
  "fresh_step s t \<longleftrightarrow> sys_step s t \<and>
     (\<forall>a. waits s a \<longrightarrow> find_set (br_store (sy_broker s)) (w_semid (br_nodes (sy_broker s) a)) = None \<longrightarrow>
        find_set (br_store (sy_broker t)) (w_semid (br_nodes (sy_broker s) a)) = None)"

section \<open>The invariant\<close>

definition conn_ok :: "tgc_broker \<Rightarrow> nat \<Rightarrow> tgc_broker_actor \<times> conn_state \<Rightarrow> bool" where
  "conn_ok b a c \<longleftrightarrow>
     (case c of (actor, st) \<Rightarrow>
        0 < sint (ac_pid actor) \<and>
        (case st of
           Waiting request response deadline \<Rightarrow>
             w_semid (br_nodes b a) = request_semid request \<and>
             waiting_request request
         | _ \<Rightarrow> True))"

definition queue_inv :: "bool \<Rightarrow> tgc_system \<Rightarrow> nat list \<Rightarrow> bool" where
  "queue_inv strict s xs \<longleftrightarrow>
     broker_inv strict (sy_broker s) xs \<and> set xs = {a. waits s a} \<and>
     (\<forall>a c. sy_conns s a = Some c \<longrightarrow> conn_ok (sy_broker s) a c)"

definition sys_inv :: "bool \<Rightarrow> tgc_system \<Rightarrow> bool" where
  "sys_inv strict s \<longleftrightarrow> (\<exists>xs. queue_inv strict s xs)"

lemma conn_ok_data:
  "conn_ok b a c \<Longrightarrow> node_data (br_nodes b' a) = node_data (br_nodes b a) \<Longrightarrow> conn_ok b' a c"
  using node_data_fields(1) [of "br_nodes b' a" "br_nodes b a"]
  by (auto simp: conn_ok_def split: conn_state.splits)

lemma queue_invD:
  assumes "queue_inv strict s xs"
  shows "broker_inv strict (sy_broker s) xs" "a \<in> set xs \<longleftrightarrow> waits s a"
    "sy_conns s a = Some c \<Longrightarrow> conn_ok (sy_broker s) a c"
  using assms by (cases c; auto simp: queue_inv_def)+

text \<open>One connection moves on, the others keep their nodes.\<close>

lemma queue_inv_move:
  assumes inv: "queue_inv strict s xs" and b: "broker_inv strict b ys"
    and ys: "set ys = (if \<exists>rq rs d. st = Waiting rq rs d then insert a (set xs) else set xs - {a})"
    and others: "\<And>x. x \<noteq> a \<Longrightarrow> node_data (br_nodes b x) = node_data (br_nodes (sy_broker s) x)"
    and ok: "conn_ok b a (actor, st)"
  shows "queue_inv strict \<lparr>sy_broker = b, sy_conns = (sy_conns s)(a \<mapsto> (actor, st))\<rparr> ys"
proof -
  have "waits \<lparr>sy_broker = b, sy_conns = (sy_conns s)(a \<mapsto> (actor, st))\<rparr> x \<longleftrightarrow>
      (if x = a then \<exists>rq rs d. st = Waiting rq rs d else waits s x)" for x
    by (auto simp: waits_def)
  then have "set ys = {x. waits \<lparr>sy_broker = b, sy_conns = (sy_conns s)(a \<mapsto> (actor, st))\<rparr> x}"
    using inv ys by (auto simp: queue_inv_def split: if_splits)
  then show ?thesis
    using inv b ok conn_ok_data [OF _ others] by (auto simp: queue_inv_def)
qed

lemma queue_inv_conns:
  assumes "queue_inv strict s xs" and "\<not> waits s a" and "\<not> waits t a" and "sy_broker t = sy_broker s"
    and "\<And>x. x \<noteq> a \<Longrightarrow> sy_conns t x = sy_conns s x"
    and "\<And>c. sy_conns t a = Some c \<Longrightarrow> conn_ok (sy_broker s) a c"
  shows "queue_inv strict t xs"
proof -
  have "waits t x = waits s x" for x using assms(2,3,5) by (cases "x = a") (auto simp: waits_def)
  moreover have "conn_ok (sy_broker t) x c" if "sy_conns t x = Some c" for x c
    using that assms(1,4-6) unfolding queue_inv_def by (cases "x = a") metis+
  ultimately show ?thesis using assms(1,4) by (simp add: queue_inv_def)
qed

lemma serve_start_pid: "serve_start fd peer uid = Inr actor \<Longrightarrow> 0 < sint (ac_pid actor)"
  by (auto simp: serve_start_def tgc_transport_get_credentials_def split: if_splits sum.splits prod.splits)

lemma conn_after_waiting: "(\<exists>rq rs d. conn_after request out = Waiting rq rs d) \<longleftrightarrow> is_queued out"
  by (cases out) simp_all

lemma conn_ok_after:
  assumes "0 < sint (ac_pid actor)" and "is_queued out \<Longrightarrow> w_semid (br_nodes b a) = request_semid request \<and> waiting_request request"
  shows "conn_ok b a (actor, conn_after request out)"
  using assms by (cases out) (simp_all add: conn_ok_def)

section \<open>Every step keeps it\<close>

lemma serve_received_ok:
  assumes inv: "queue_inv strict s xs" and c: "sy_conns s a = Some (actor, Receiving)"
  shows "\<exists>st b sg. serve_received env env' (sy_broker s) a r request actor response = Some (st, b, sg) \<and>
    ((strict \<longrightarrow> no_reuse (sy_broker s) b xs) \<longrightarrow>
      (\<exists>ys. queue_inv strict \<lparr>sy_broker = b, sy_conns = (sy_conns s)(a \<mapsto> (actor, st))\<rparr> ys) \<and>
      (\<exists>out. request_ok strict (sy_broker s) xs a request actor out b sg))"
proof -
  have bi: "broker_inv strict (sy_broker s) xs" and ok: "conn_ok (sy_broker s) a (actor, Receiving)"
    using inv c by (auto simp: queue_inv_def)
  have a: "a \<notin> set xs" using inv c by (auto simp: queue_inv_def waits_def)
  have pid: "0 < sint (ac_pid actor)" using ok by (simp add: conn_ok_def)
  have closed: "queue_inv strict \<lparr>sy_broker = sy_broker s, sy_conns = (sy_conns s)(a \<mapsto> (actor, Closed e))\<rparr> xs" for e
    by (rule queue_inv_move [OF inv bi]) (use a pid in \<open>auto simp: conn_ok_def\<close>)
  have triv: "request_ok strict (sy_broker s) xs a request actor (Failed 0) (sy_broker s) False"
    by (rule request_ok_trivial [OF bi]) simp
  consider (eof) "r = 1" | (bad) "r \<noteq> 1" "r \<noteq> 0" | (kind) "r = 0" "h_kind (pk_header request) \<noteq> TGC_PROTOCOL_REQUEST"
    | (good) "r = 0" "h_kind (pk_header request) = TGC_PROTOCOL_REQUEST" by blast
  then show ?thesis
  proof cases
    case good
    obtain out b sg where d: "dispatch_request env env' (sy_broker s) a request actor response = Some (out, b, sg)"
      and ok: "(strict \<longrightarrow> no_reuse (sy_broker s) b xs) \<longrightarrow> request_ok strict (sy_broker s) xs a request actor out b sg"
      using dispatch_request_ok [OF bi a pid] by blast
    have "queue_inv strict \<lparr>sy_broker = b, sy_conns = (sy_conns s)(a \<mapsto> (actor, conn_after request out))\<rparr>
        (if is_queued out then xs @ [a] else xs)"
      if q: "request_ok strict (sy_broker s) xs a request actor out b sg"
      by (rule queue_inv_move [OF inv]) (use q a pid in
          \<open>auto simp: request_ok_def conn_after_waiting intro: conn_ok_after\<close>)
    then show ?thesis using good d ok by (auto simp: serve_received_def)
  qed (use closed triv in \<open>auto simp: serve_received_def\<close>)
qed

lemma waiter_wake_step:
  assumes inv: "queue_inv strict s xs" and c: "sy_conns s a = Some (actor, Waiting request response deadline)"
  shows "\<exists>out b sg. waiter_wake env r now (sy_broker s) a request actor response = Some (out, b, sg) \<and>
    queue_inv strict \<lparr>sy_broker = b, sy_conns = (sy_conns s)(a \<mapsto> (actor, conn_after request out))\<rparr>
      (if is_queued out then xs else remove1 a xs) \<and>
    round_ok strict (sy_broker s) xs a request actor out b sg"
proof -
  have bi: "broker_inv strict (sy_broker s) xs" and a: "a \<in> set xs" and pid: "0 < sint (ac_pid actor)"
    and semid: "w_semid (br_nodes (sy_broker s) a) = request_semid request"
    and rq: "waiting_request request"
    using queue_invD [OF inv] queue_invD(3) [OF inv c] c by (auto simp: waits_def conn_ok_def)
  have op: "opcode request = TGC_OPCODE_SEMOP \<or> opcode request = TGC_OPCODE_SEMTIMEDOP"
    using rq by (simp add: waiting_request_def)
  obtain out b sg where w: "waiter_wake env r now (sy_broker s) a request actor response = Some (out, b, sg)"
    and ok: "round_ok strict (sy_broker s) xs a request actor out b sg"
    using waiter_wake_ok [OF bi a op] by blast
  have d: "distinct xs" using broker_queue.rep_distinct broker_invD(3) [OF bi] .
  have "queue_inv strict \<lparr>sy_broker = b, sy_conns = (sy_conns s)(a \<mapsto> (actor, conn_after request out))\<rparr>
      (if is_queued out then xs else remove1 a xs)"
  proof (rule queue_inv_move [OF inv])
    have "is_queued out \<Longrightarrow> w_semid (br_nodes b a) = request_semid request"
      using ok semid node_data_fields(1) [of "br_nodes b a" "br_nodes (sy_broker s) a"] by (simp add: round_ok_def)
    then show "conn_ok b a (actor, conn_after request out)" using pid rq by (intro conn_ok_after) auto
  qed (use ok a d in \<open>auto simp: round_ok_def conn_after_waiting\<close>)
  then show ?thesis using w ok by blast
qed

lemma monitor_keeps_inv:
  assumes inv: "queue_inv strict s xs" and m: "monitor_pass k clks (sy_broker s) = (b, sg)"
  shows "queue_inv strict (s\<lparr>sy_broker := b\<rparr>) xs"
proof -
  let ?b = "sy_broker s"
  let ?N = "length (br_process_watchers ?b)"
  have bi: "broker_inv strict ?b xs" using inv by (simp add: queue_inv_def)
  note I = broker_invD [OF bi]
  have "set [0..<?N] \<subseteq> {..<?N}" "distinct [0..<?N]" by auto
  note F = monitor_fold_ok [OF I(1,2) this m [unfolded monitor_pass_def]]
  have fr: "b\<lparr>br_store := br_store ?b, br_process_watchers := br_process_watchers ?b\<rparr> = ?b" using F by blast
  have eq: "br_nodes b = br_nodes ?b" "br_waiters_head b = br_waiters_head ?b" "br_waiters_tail b = br_waiters_tail ?b"
    using arg_cong [OF fr, of br_nodes] arg_cong [OF fr, of br_waiters_head] arg_cong [OF fr, of br_waiters_tail]
    by simp_all
  have wc: "wait_count (br_store b) x n z = wait_count (br_store ?b) x n z" for x n z
    using F I(1) by (intro wait_count_shape) auto
  have "queue_rep b xs" by (rule queue_rep_cong [OF I(3)]) (simp_all add: eq)
  moreover have "waiting_for b xs x n z = waiting_for ?b xs x n z" for x n z
    by (rule waiting_for_cong) (simp add: eq)
  ultimately have "broker_inv strict b xs" using F bi by (simp add: broker_inv_def eq wc)
  moreover have "waits (s\<lparr>sy_broker := b\<rparr>) x = waits s x" for x by (simp add: waits_def)
  moreover have "conn_ok b x c" if "sy_conns s x = Some c" for x c
    using queue_invD(3) [OF inv that] conn_ok_data [of ?b x c b] by (simp add: eq)
  ultimately show ?thesis using inv by (simp add: queue_inv_def)
qed

lemma initial_inv: "queue_inv strict initial_system []"
proof -
  have "slots_unique pw_active pw_pid (replicate 1024 cleared_watcher)"
    by (rule slots_unique_inactive) (simp add: cleared_watcher_def)
  then have "watchers_wf new_broker" by (simp add: watchers_wf_def new_broker_def cleared_watcher_def)
  moreover have "wait_count tgc_sem_store_create x n z = None" for x n z
  proof -
    have "find_set tgc_sem_store_create x = None"
      using find_set_SomeD(1,2) [OF store_wf_create, of x]
      by (cases "find_set tgc_sem_store_create x") (auto simp: tgc_sem_store_create_def empty_set_def)
    then show ?thesis by (simp add: wait_count_def)
  qed
  ultimately show ?thesis
    using store_wf_create
    by (simp add: queue_inv_def broker_inv_def initial_system_def new_broker_def queue_rep_def waits_def)
qed

lemma sys_inv_step:
  assumes inv: "queue_inv strict s xs" and step: "sys_step s t"
    and fresh: "strict \<Longrightarrow> no_reuse (sy_broker s) (sy_broker t) xs"
  shows "sys_inv strict t"
proof (cases rule: sys_stepE [OF step])
  case (1 a fd peer uid actor)
  have "queue_inv strict t xs"
    by (rule queue_inv_conns [OF inv, of a]) (use 1 serve_start_pid in \<open>auto simp: waits_def conn_ok_def\<close>)
  then show ?thesis by (auto simp: sys_inv_def)
next
  case (2 a actor socket buffer r request socket' env env' response st b sg)
  then show ?thesis
    using serve_received_ok [OF inv 2(2), of env env' r request response] fresh by (auto simp: sys_inv_def)
next
  case (3 a actor request response deadline env r now out b sg)
  then show ?thesis
    using waiter_wake_step [OF inv 3(2), of env r now] by (auto simp: sys_inv_def)
next
  case (4 a actor response wire socket r sent)
  have "queue_inv strict t xs"
    by (rule queue_inv_conns [OF inv, of a])
      (use 4 inv in \<open>auto simp: waits_def conn_ok_def queue_inv_def serve_sent_def split: if_splits\<close>)
  then show ?thesis by (auto simp: sys_inv_def)
next
  case (5 a actor r)
  have "queue_inv strict t xs"
    by (rule queue_inv_conns [OF inv, of a]) (use 5 in \<open>auto simp: waits_def\<close>)
  then show ?thesis by (auto simp: sys_inv_def)
next
  case (6 k clks b sg)
  then show ?thesis using monitor_keeps_inv [OF inv 6(3)] by (auto simp: sys_inv_def)
qed

interpretation broker_system: transition_system initial_system sys_step "sys_inv False"
proof unfold_locales
  show "sys_inv False initial_system" using initial_inv by (auto simp: sys_inv_def)
  show "sys_inv False t" if "sys_inv False s" "sys_step s t" for s t
    using that sys_inv_step [of False s _ t] by (auto simp: sys_inv_def [of False s])
qed

interpretation exact_system: transition_system initial_system fresh_step "sys_inv True"
proof unfold_locales
  show "sys_inv True initial_system" using initial_inv by (auto simp: sys_inv_def)
  show "sys_inv True t" if s: "sys_inv True s" and f: "fresh_step s t" for s t
  proof -
    obtain xs where inv: "queue_inv True s xs" using s unfolding sys_inv_def by blast
    have "no_reuse (sy_broker s) (sy_broker t) xs"
      using f inv by (auto simp: fresh_step_def no_reuse_def queue_inv_def)
    then show ?thesis using sys_inv_step [OF inv, of t] f by (simp add: fresh_step_def)
  qed
qed

end
