(* ===== verification/Tgc_Broker_Props.thy ===== *)
theory Tgc_Broker_Props
  imports Tgc_Broker_System "HOL-Library.Multiset"
begin

text \<open>The properties of the running broker, with a concrete run for their witnesses.\<close>

section \<open>A concrete run\<close>

text \<open>
  Connection 0 creates the set of \<open>demo_store\<close>; connection 2 then asks to decrement semaphore 2, whose value is
  0, for at most one second, and has to wait; connection 4 sets that semaphore to 1. All are of process 42.
\<close>

definition demo_env :: broker_env where
  "demo_env = \<lparr>e_lock = 0, e_realtime = Some 5, e_memory = True, e_monotonic = Inr \<lparr>tv_sec = 100, tv_nsec = 0\<rparr>,
     e_kernel = demo_kernel, e_peek = Peek_Data\<rparr>"

definition demo_semget :: tgc_protocol_packet where
  "demo_semget = demo_request 2 12 [77, 0, 0, 0, 3, 0, 0, 0, 0x80, 3, 0, 0]"

definition demo_semop :: tgc_protocol_packet where
  "demo_semop = demo_request 14 24 [1, 0, 1, 0, 1, 0, 0, 0, 0, 0xCA, 0x9A, 0x3B, 0, 0, 0, 0, 2, 0, 0xff, 0xff, 0, 0, 0, 0]"

definition demo_setval :: tgc_protocol_packet where
  "demo_setval = demo_request 5 12 [1, 0, 1, 0, 2, 0, 0, 0, 1, 0, 0, 0]"

definition demo_response :: tgc_protocol_packet where
  "demo_response = demo_request 0 0 [0, 0, 0, 0, 0, 0, 0, 0]"

definition demo_accepted :: tgc_system where
  "demo_accepted = initial_system\<lparr>sy_conns := [0 \<mapsto> (demo_actor, Receiving), 2 \<mapsto> (demo_actor, Receiving), 4 \<mapsto> (demo_actor, Receiving)]\<rparr>"

text \<open>The system after connection \<open>a\<close> received this request.\<close>

definition after_request :: "tgc_system \<Rightarrow> nat \<Rightarrow> tgc_protocol_packet \<Rightarrow> tgc_system" where
  "after_request s a request =
     (case serve_received demo_env demo_env (sy_broker s) a 0 request demo_actor demo_response of
        None \<Rightarrow> s
      | Some (st, b, sg) \<Rightarrow> \<lparr>sy_broker = b, sy_conns = (sy_conns s)(a \<mapsto> (demo_actor, st))\<rparr>)"

definition demo_created :: tgc_system where
  "demo_created = after_request demo_accepted 0 demo_semget"

definition demo_waiting :: tgc_system where
  "demo_waiting = after_request demo_created 2 demo_semop"

definition demo_ready :: tgc_system where
  "demo_ready = after_request demo_waiting 4 demo_setval"

lemma demo_received:
  "tgc_transport_receive
     [Recv_Data [0x54, 0x47, 0x53, 0x43, 1, 0, 1, 0, 2, 0, 0, 0, 7, 0, 0, 0, 12, 0, 0, 0, 0, 0, 0, 0],
      Recv_Data [77, 0, 0, 0, 3, 0, 0, 0, 0x80, 3, 0, 0]] (demo_request 0 0 []) = Some (0, demo_semget, [])"
  "tgc_transport_receive
     [Recv_Data [0x54, 0x47, 0x53, 0x43, 1, 0, 1, 0, 14, 0, 0, 0, 7, 0, 0, 0, 24, 0, 0, 0, 0, 0, 0, 0],
      Recv_Data [1, 0, 1, 0, 1, 0, 0, 0, 0, 0xCA, 0x9A, 0x3B, 0, 0, 0, 0, 2, 0, 0xff, 0xff, 0, 0, 0, 0]] (demo_request 0 0 []) =
     Some (0, demo_semop, [])"
  "tgc_transport_receive
     [Recv_Data [0x54, 0x47, 0x53, 0x43, 1, 0, 1, 0, 5, 0, 0, 0, 7, 0, 0, 0, 12, 0, 0, 0, 0, 0, 0, 0],
      Recv_Data [1, 0, 1, 0, 2, 0, 0, 0, 1, 0, 0, 0]] (demo_request 0 0 []) = Some (0, demo_setval, [])"
  by code_simp+

text \<open>The dispatches of the run.\<close>

definition demo_blocked :: tgc_protocol_packet where
  "demo_blocked =
     \<lparr>pk_header = \<lparr>h_version = 1, h_kind = 2, h_opcode = 14, h_request_id = 7, h_payload_length = 8, h_result = 1\<rparr>,
      pk_payload = [2, 0, 0, 0, 0, 0, 0, 0]\<rparr>"

lemma demo_fields [simp]:
  "opcode demo_semget = 2" "opcode demo_semop = 14" "payload_length demo_semop = 24" "payload_length demo_semget = 12"
  "h_kind (pk_header demo_semget) = 1" "h_kind (pk_header demo_semop) = 1"
  "h_result (pk_header demo_semget) = 0" "h_result (pk_header demo_semop) = 0"
  "h_version (pk_header demo_semget) = 1" "h_version (pk_header demo_semop) = 1"
  "h_request_id (pk_header demo_semop) = 7" "request_semid demo_semop = 0x10001" "request_count demo_semop = 1"
  "tgc_wire_get_i64 (pk_payload demo_semop) 8 = 1000000000"
  "e_lock demo_env = 0" "e_realtime demo_env = Some 5" "e_memory demo_env = True"
  "e_monotonic demo_env = Inr \<lparr>tv_sec = 100, tv_nsec = 0\<rparr>" "e_peek demo_env = Peek_Data"
  "ac_pid demo_actor = 42" "ac_identity demo_actor = demo_identity"
  by (simp_all add: demo_semget_def demo_semop_def demo_request_def demo_env_def demo_actor_def
      wire_signed tgc_wire_get_u32_def tgc_wire_get_u64_def)

lemma demo_no_undo: "\<not> request_uses_undo demo_semget" "\<not> request_uses_undo demo_semop"
  by (simp_all add: request_uses_undo_def Let_def demo_semop_def demo_request_def tgc_wire_get_u16_def
      tgc_wire_get_u32_def)

lemma demo_dispatch_get:
  "\<exists>response. tgc_broker_dispatch (Some 5) True tgc_sem_store_create demo_semget demo_actor demo_response =
     Inr (demo_store, response)"
proof -
  have "dispatch_semget (Some 5) True tgc_sem_store_create demo_semget demo_identity = (0x10001, demo_store)"
    using demo_get by (simp add: dispatch_semget_def Let_def demo_semget_def demo_request_def wire_signed tgc_wire_get_u32_def)
  then show ?thesis by (simp add: tgc_broker_dispatch_def dispatch_opcode_def Let_def)
qed

lemma demo_dispatch_op:
  assumes "find_set st 0x10001 = Some 0" and "s_nsems (st_sets st ! 0) = 3"
    and "s_values (st_sets st ! 0) = replicate 3 0" and "pk_payload response = [a, b, c, d, e, f, g, h]"
  shows "tgc_broker_dispatch clk mem st demo_semop demo_actor response = Inr (st, demo_blocked)"
proof -
  have dec: "decode_operations (pk_payload demo_semop) 16 (Suc 0) = Some [\<lparr>sem_num = 2, sem_op = - 1, sem_flg = 0\<rparr>]"
    by (simp add: demo_semop_def demo_request_def get_op_def wire_signed tgc_wire_get_u16_def)
  have op: "tgc_sem_store_tryop_detail clk st 0x10001 [\<lparr>sem_num = 2, sem_op = - 1, sem_flg = 0\<rparr>] 42 =
      (1, st, Some \<lparr>wr_sem_num = 2, wr_wait_for_zero = 0\<rparr>)"
    using assms by (simp add: tgc_sem_store_tryop_detail_def op_is_invalid_def wait_reason_of_def Let_def word_le_nat_alt)
  have "dispatch_semop clk st demo_semop 42 (prepare_response demo_semop response) =
      (1, st, demo_blocked\<lparr>pk_header := (pk_header demo_blocked)\<lparr>h_result := 0\<rparr>\<rparr>)"
    using assms(4) dec op
    by (simp add: dispatch_semop_def Let_def respond_def prepare_response_def demo_blocked_def
        tgc_wire_put_u16_def tgc_wire_put_u32_def del: decode_operations.simps)
  then show ?thesis
    by (simp add: tgc_broker_dispatch_def dispatch_opcode_def Let_def finish_response_def demo_blocked_def)
qed

lemma demo_created_eq:
  "\<exists>response. demo_created = \<lparr>sy_broker = new_broker\<lparr>br_store := demo_store\<rparr>,
     sy_conns = (sy_conns demo_accepted)(0 \<mapsto> (demo_actor, Sending response))\<rparr>"
proof -
  obtain response where d: "tgc_broker_dispatch (Some 5) True tgc_sem_store_create demo_semget demo_actor demo_response =
     Inr (demo_store, response)" using demo_dispatch_get by blast
  have "br_store new_broker = tgc_sem_store_create" by (simp add: new_broker_def)
  then have "dispatch_request demo_env demo_env new_broker 0 demo_semget demo_actor demo_response =
      Some (Served response, new_broker\<lparr>br_store := demo_store\<rparr>, False)"
    using d by (simp add: dispatch_request_def demo_no_undo operation_changed_state_def)
  then show ?thesis
    by (intro exI [of _ response])
      (simp add: demo_created_def after_request_def serve_received_def demo_accepted_def initial_system_def)
qed

text \<open>The store with one waiter counted.\<close>

definition demo_counted :: tgc_sem_store where
  "demo_counted =
     demo_store\<lparr>st_sets := (st_sets demo_store)[0 := demo_set\<lparr>s_negative_waiters := [0, 0, 1]\<rparr>]\<rparr>"

lemma demo_counted_simps:
  "tgc_sem_store_adjust_wait_count demo_store 0x10001 2 False 1 = (0, demo_counted)"
  "find_set demo_counted 0x10001 = Some 0" "st_sets demo_counted ! 0 = demo_set\<lparr>s_negative_waiters := [0, 0, 1]\<rparr>"
proof -
  show n: "st_sets demo_counted ! 0 = demo_set\<lparr>s_negative_waiters := [0, 0, 1]\<rparr>"
    by (simp add: demo_counted_def demo_store_eq)
  show "find_set demo_counted 0x10001 = Some 0"
    using demo_find by (simp add: demo_counted_def find_set_update demo_set_simps(1))
  have "s_negative_waiters demo_set = [0, 0, 0]" by (simp add: demo_set_def new_set_def numeral_3_eq_3)
  then show "tgc_sem_store_adjust_wait_count demo_store 0x10001 2 False 1 = (0, demo_counted)"
    by (simp add: tgc_sem_store_adjust_wait_count_def demo_find demo_set_simps demo_counted_def Let_def)
qed

definition demo_waiter :: tgc_waiter where
  "demo_waiter = (new_waiter demo_semop demo_blocked)\<lparr>w_deadline := \<lparr>tv_sec = 101, tv_nsec = 0\<rparr>,
     w_has_deadline := True, w_counted := True\<rparr>"

lemma demo_served:
  "\<exists>b deadline. serve_received demo_env demo_env (sy_broker demo_created) 2 0 demo_semop demo_actor demo_response =
     Some (Waiting demo_semop demo_blocked deadline, b, False) \<and> br_store b = demo_counted \<and>
     waiter_is_first_for_set b 2 = Some True \<and> w_has_deadline (br_nodes b 2) \<and>
     w_deadline (br_nodes b 2) = \<lparr>tv_sec = 101, tv_nsec = 0\<rparr>"
proof -
  let ?b = "new_broker\<lparr>br_store := demo_store\<rparr>"
  define b2 where "b2 = enqueue_waiter (?b\<lparr>br_store := demo_counted, br_nodes := (br_nodes ?b)(2 := demo_waiter)\<rparr>) 2"
  have op: "tgc_broker_dispatch (Some 5) True demo_store demo_semop demo_actor demo_response = Inr (demo_store, demo_blocked)"
    by (rule demo_dispatch_op) (simp_all add: demo_find demo_set_simps demo_response_def demo_request_def)
  have op2: "tgc_broker_dispatch (Some 5) True demo_counted demo_semop demo_actor demo_blocked = Inr (demo_counted, demo_blocked)"
    by (rule demo_dispatch_op) (simp_all add: demo_counted_simps demo_set_simps demo_blocked_def)
  have w: "w_semid (new_waiter demo_semop demo_blocked) = 0x10001" "w_semnum (new_waiter demo_semop demo_blocked) = 2"
    "w_wait_for_zero (new_waiter demo_semop demo_blocked) = 0"
    by (simp_all add: new_waiter_def demo_blocked_def tgc_wire_get_u16_def)
  have "tgc_wire_get_u32 (pk_payload demo_blocked) 4 = 0" "payload_length demo_blocked = 8"
    "h_result (pk_header demo_blocked) = 1"
    by (simp_all add: demo_blocked_def tgc_wire_get_u32_def)
  note blocked = this
  have q: "queue_request demo_env ?b 2 demo_semop demo_blocked = (0, b2)"
    by (simp add: queue_request_def Let_def w blocked initialize_deadline_def demo_counted_simps demo_waiter_def b2_def)
  have first: "waiter_is_first_for_set b2 2 = Some True"
    by (simp add: waiter_is_first_for_set_def first_for_set.simps enqueue_waiter_def new_broker_def b2_def)
  have store2: "br_store b2 = demo_counted" by (simp add: enqueue_waiter_frame b2_def)
  have pass: "waiter_pass demo_env b2 2 demo_semop demo_actor demo_blocked =
      Some (Queued demo_blocked (wait_deadline (br_nodes b2 2) \<lparr>tv_sec = 100, tv_nsec = 0\<rparr>), b2, False)"
    using op2 store2 by (simp add: waiter_pass_def first peer_has_closed_def blocked wait_round_def)
  have "dispatch_request demo_env demo_env ?b 2 demo_semop demo_actor demo_response =
      Some (Queued demo_blocked (wait_deadline (br_nodes b2 2) \<lparr>tv_sec = 100, tv_nsec = 0\<rparr>), b2, False)"
    using op q pass by (simp add: dispatch_request_def demo_no_undo blocked)
  moreover have "sy_broker demo_created = ?b" using demo_created_eq by (metis tgc_system.select_convs(1))
  moreover have "w_has_deadline (br_nodes b2 2)" "w_deadline (br_nodes b2 2) = \<lparr>tv_sec = 101, tv_nsec = 0\<rparr>"
    by (simp_all add: b2_def enqueue_waiter_def set_next_def demo_waiter_def new_broker_def)
  ultimately show ?thesis using store2 first by (intro exI [of _ b2] exI) (simp add: serve_received_def)
qed

lemma demo_waiting_eq:
  "\<exists>b deadline. demo_waiting = \<lparr>sy_broker = b,
     sy_conns = (sy_conns demo_created)(2 \<mapsto> (demo_actor, Waiting demo_semop demo_blocked deadline))\<rparr> \<and>
     br_store b = demo_counted \<and> waiter_is_first_for_set b 2 = Some True \<and> w_has_deadline (br_nodes b 2) \<and>
     w_deadline (br_nodes b 2) = \<lparr>tv_sec = 101, tv_nsec = 0\<rparr>"
  using demo_served by (auto simp: demo_waiting_def after_request_def)

lemma after_request_step:
  assumes r: "sys_step\<^sup>*\<^sup>* initial_system s" and c: "sy_conns s a = Some (demo_actor, Receiving)"
    and "tgc_transport_receive socket buffer = Some (0, request, socket')"
  shows "sys_step s (after_request s a request)"
proof -
  obtain xs where "queue_inv False s xs" using broker_system.reachable_inv [OF r] unfolding sys_inv_def by blast
  then obtain st b sg where g: "serve_received demo_env demo_env (sy_broker s) a 0 request demo_actor
      demo_response = Some (st, b, sg)" using serve_received_ok [OF _ c] by blast
  then show ?thesis using receive [OF c assms(3) g] by (simp add: after_request_def)
qed

lemma fresh_run_is_run: "fresh_step\<^sup>*\<^sup>* s t \<Longrightarrow> sys_step\<^sup>*\<^sup>* s t"
  by (rule mono_rtranclp [rule_format, of fresh_step]) (simp_all add: fresh_step_def)

lemma after_request_fresh:
  assumes "fresh_step\<^sup>*\<^sup>* initial_system s" and "sy_conns s a = Some (demo_actor, Receiving)"
    and "\<And>x. \<not> waits s x" and "tgc_transport_receive socket buffer = Some (0, request, socket')"
  shows "fresh_step\<^sup>*\<^sup>* initial_system (after_request s a request)"
proof -
  have "fresh_step s (after_request s a request)"
    using after_request_step [OF fresh_run_is_run [OF assms(1)] assms(2,4)] assms(3) by (simp add: fresh_step_def)
  then show ?thesis using assms(1) by simp
qed

lemma after_request_other: "x \<noteq> a \<Longrightarrow> sy_conns (after_request s a request) x = sy_conns s x"
  by (simp add: after_request_def split: option.splits)

lemma demo_accepted_run: "fresh_step\<^sup>*\<^sup>* initial_system demo_accepted"
proof -
  let ?s0 = initial_system
  let ?c = "\<lambda>s a. s\<lparr>sy_conns := (sy_conns s)(a \<mapsto> (demo_actor, Receiving))\<rparr>"
  have start: "serve_start 3 (Inr (12, \<lparr>cr_pid = 42, cr_uid = 1000, cr_gid = 1000\<rparr>)) 1000 = Inr demo_actor"
    by (simp add: serve_start_def tgc_transport_get_credentials_def demo_actor_def demo_identity_def)
  have "sys_step ?s0 (?c ?s0 0)" by (rule accept [OF _ start]) (simp add: initial_system_def)
  moreover have "sys_step (?c ?s0 0) (?c (?c ?s0 0) 2)" by (rule accept [OF _ start]) (simp add: initial_system_def)
  moreover have "sys_step (?c (?c ?s0 0) 2) demo_accepted"
    using accept [OF _ start, of "?c (?c ?s0 0) 2" 4] by (simp add: initial_system_def demo_accepted_def)
  moreover have "\<not> waits ?s0 x" "\<not> waits (?c ?s0 0) x" "\<not> waits (?c (?c ?s0 0) 2) x" for x
    by (auto simp: waits_def initial_system_def)
  ultimately have "fresh_step ?s0 (?c ?s0 0)" "fresh_step (?c ?s0 0) (?c (?c ?s0 0) 2)"
    "fresh_step (?c (?c ?s0 0) 2) demo_accepted" by (simp_all add: fresh_step_def)
  then show ?thesis by (meson converse_rtranclp_into_rtranclp r_into_rtranclp)
qed

lemma demo_created_run: "fresh_step\<^sup>*\<^sup>* initial_system demo_created"
proof -
  have "\<not> waits demo_accepted x" for x by (simp add: waits_def demo_accepted_def)
  then show "fresh_step\<^sup>*\<^sup>* initial_system demo_created"
    unfolding demo_created_def
    by (intro after_request_fresh [OF demo_accepted_run _ _ demo_received(1)]) (simp_all add: demo_accepted_def)
qed

lemma demo_created_conns: "\<not> waits demo_created x" "sy_conns demo_created 2 = Some (demo_actor, Receiving)"
proof -
  obtain response where "sy_conns demo_created = (sy_conns demo_accepted)(0 \<mapsto> (demo_actor, Sending response))"
    using demo_created_eq by (metis tgc_system.select_convs(2))
  then show "\<not> waits demo_created x" "sy_conns demo_created 2 = Some (demo_actor, Receiving)"
    by (simp_all add: waits_def demo_accepted_def)
qed

lemma demo_waiting_run: "fresh_step\<^sup>*\<^sup>* initial_system demo_waiting"
  unfolding demo_waiting_def
  by (intro after_request_fresh [OF demo_created_run _ _ demo_received(2)] demo_created_conns)

lemma demo_conn:
  obtains deadline where "sy_conns demo_waiting 2 = Some (demo_actor, Waiting demo_semop demo_blocked deadline)"
  using demo_waiting_eq by (metis fun_upd_same tgc_system.select_convs(2))

lemma demo_waits: "waits demo_waiting 2"
  using demo_conn unfolding waits_def by metis

lemma demo_waiting_broker:
  "br_store (sy_broker demo_waiting) = demo_counted" "waiter_is_first_for_set (sy_broker demo_waiting) 2 = Some True"
  "w_has_deadline (br_nodes (sy_broker demo_waiting) 2)"
  "w_deadline (br_nodes (sy_broker demo_waiting) 2) = \<lparr>tv_sec = 101, tv_nsec = 0\<rparr>"
  using demo_waiting_eq by (metis tgc_system.select_convs(1))+

lemma demo_wait_count: "wait_count (br_store (sy_broker demo_waiting)) 0x10001 2 False = Some 1"
  by (simp add: demo_waiting_broker wait_count_def demo_counted_simps demo_set_simps)

text \<open>The end of the run: the semaphore has been set to 1, the waiter has not been woken yet.\<close>

definition demo_raised :: tgc_sem_store where
  "demo_raised = snd (tgc_sem_store_setval (Some 5) demo_counted 0x10001 2 1 42)"

lemma demo_raised_simps:
  "tgc_sem_store_setval (Some 5) demo_counted 0x10001 2 1 42 = (0, demo_raised)"
  "find_set demo_raised 0x10001 = Some 0" "s_values (st_sets demo_raised ! 0) = [0, 0, 1]"
  "s_nsems (st_sets demo_raised ! 0) = 3" "undo_of demo_raised p x m = 0"
proof -
  let ?s = "st_sets demo_counted ! 0"
  let ?c = "clear_undo_entries demo_counted 0x10001 2 False"
  let ?s' = "?s\<lparr>s_values := (s_values ?s)[2 := 1], s_last_pids := (s_last_pids ?s)[2 := 42],
    s_ctime := current_time_seconds (Some 5)\<rparr>"
  have sv: "tgc_sem_store_setval (Some 5) demo_counted 0x10001 2 1 42 =
      (0, ?c\<lparr>st_sets := (st_sets ?c)[0 := ?s']\<rparr>)"
    by (simp add: tgc_sem_store_setval_def demo_counted_simps demo_set_simps Let_def)
  then show "tgc_sem_store_setval (Some 5) demo_counted 0x10001 2 1 42 = (0, demo_raised)"
    by (simp add: demo_raised_def)
  have eq: "demo_raised = ?c\<lparr>st_sets := (st_sets demo_counted)[0 := ?s']\<rparr>"
    using sv by (simp add: demo_raised_def clear_undo_entries_def)
  have len: "0 < length (st_sets demo_counted)" by (simp add: demo_counted_def demo_store_eq)
  show "s_values (st_sets demo_raised ! 0) = [0, 0, 1]" "s_nsems (st_sets demo_raised ! 0) = 3"
    using len by (simp_all add: eq demo_counted_simps demo_set_simps numeral_3_eq_3 numeral_2_eq_2)
  have "find_set demo_raised x = find_set (demo_counted\<lparr>st_sets := (st_sets demo_counted)[0 := ?s']\<rparr>) x" for x
    by (rule find_set_cong) (simp add: eq)
  then show "find_set demo_raised 0x10001 = Some 0"
    using demo_counted_simps(2) find_set_update [of ?s' demo_counted 0 "0x10001"] by simp
  have "undo_of demo_counted = undo_of demo_store" by (rule undo_of_cong) (simp add: demo_counted_def)
  moreover have "undo_of demo_raised = undo_of ?c" by (rule undo_of_cong) (simp add: eq)
  ultimately show "undo_of demo_raised p x m = 0" by (simp add: undo_of_clear demo_undo)
qed

lemma demo_ready_eq:
  "sy_broker demo_ready = (sy_broker demo_waiting)\<lparr>br_store := demo_raised\<rparr>"
  "sy_conns demo_ready 2 = sy_conns demo_waiting 2"
  "sys_step\<^sup>*\<^sup>* initial_system demo_ready"
proof -
  have run: "sys_step\<^sup>*\<^sup>* initial_system demo_waiting" using demo_waiting_run by (rule fresh_run_is_run)
  have c: "sy_conns demo_waiting 4 = Some (demo_actor, Receiving)"
    by (simp add: demo_waiting_def demo_created_def after_request_other demo_accepted_def)
  have v: "dispatch_setval (Some 5) demo_counted demo_setval 42 = (0, demo_raised)"
    using demo_raised_simps(1)
    by (simp add: dispatch_setval_def demo_setval_def demo_request_def wire_signed tgc_wire_get_u32_def)
  have f: "opcode demo_setval = 5" "h_kind (pk_header demo_setval) = 1" "h_version (pk_header demo_setval) = 1"
    "h_result (pk_header demo_setval) = 0" "payload_length demo_setval = 12"
    by (simp_all add: demo_setval_def demo_request_def)
  obtain response where d: "tgc_broker_dispatch (Some 5) True demo_counted demo_setval demo_actor demo_response =
      Inr (demo_raised, response)"
    using v by (simp add: tgc_broker_dispatch_def dispatch_opcode_def Let_def f)
  have "\<exists>sg. serve_received demo_env demo_env (sy_broker demo_waiting) 4 0 demo_setval demo_actor demo_response =
      Some (Sending response, (sy_broker demo_waiting)\<lparr>br_store := demo_raised\<rparr>, sg)"
    using d by (simp add: serve_received_def dispatch_request_def f request_uses_undo_def demo_waiting_broker)
  then show "sy_broker demo_ready = (sy_broker demo_waiting)\<lparr>br_store := demo_raised\<rparr>"
    by (auto simp: demo_ready_def after_request_def)
  show "sy_conns demo_ready 2 = sy_conns demo_waiting 2" by (simp add: demo_ready_def after_request_other)
  show "sys_step\<^sup>*\<^sup>* initial_system demo_ready"
    using after_request_step [OF run c demo_received(3)] run by (simp add: demo_ready_def)
qed

lemma demo_created_store: "br_store (sy_broker demo_created) = demo_store"
  using demo_created_eq
  by (metis tgc_broker.select_convs(1) tgc_broker.surjective tgc_broker.update_convs(1) tgc_system.select_convs(1))

section \<open>Reachable states\<close>

lemma waiting_for_card:
  "distinct xs \<Longrightarrow> waiting_for b xs x n z = card {a \<in> set xs. matches (br_nodes b) x n z a}"
  by (simp add: waiting_for_def distinct_length_filter Int_def conj_commute)

lemma reachable_queue:
  assumes "sys_step\<^sup>*\<^sup>* initial_system s"
  obtains xs where "queue_inv False s xs"
  using broker_system.reachable_inv [OF assms] by (auto simp: sys_inv_def)

lemma queue_invE:
  assumes "queue_inv strict s xs"
  shows "store_wf (br_store (sy_broker s))" "watchers_wf (sy_broker s)" "queue_rep (sy_broker s) xs"
    "set xs = {a. waits s a}"
    "wait_count (br_store (sy_broker s)) x n z = Some c \<Longrightarrow>
       c \<le> card {a. waits s a \<and> matches (br_nodes (sy_broker s)) x n z a}"
    "wait_count (br_store (sy_broker s)) x n z = Some c \<Longrightarrow> strict \<Longrightarrow>
       c = card {a. waits s a \<and> matches (br_nodes (sy_broker s)) x n z a}"
proof -
  note I = broker_invD [OF queue_invD(1) [OF assms]]
  show set: "set xs = {a. waits s a}" using queue_invD(2) [OF assms] by blast
  have "waiting_for (sy_broker s) xs x n z = card {a. waits s a \<and> matches (br_nodes (sy_broker s)) x n z a}"
    using waiting_for_card [OF broker_queue.rep_distinct [OF I(3)]] set by simp
  then show "wait_count (br_store (sy_broker s)) x n z = Some c \<Longrightarrow>
       c \<le> card {a. waits s a \<and> matches (br_nodes (sy_broker s)) x n z a}"
    "wait_count (br_store (sy_broker s)) x n z = Some c \<Longrightarrow> strict \<Longrightarrow>
       c = card {a. waits s a \<and> matches (br_nodes (sy_broker s)) x n z a}"
    using I(5,6) by metis+
qed (use broker_invD [OF queue_invD(1) [OF assms]] in auto)

text \<open>
  C6. In every reachable state of the running broker, whatever the interleaving of connections and the exit
  monitor: the store and the watcher table are well formed, the waiter queue is a proper list without
  repetition of exactly the connections whose thread is blocked in \<^verbatim>\<open>semop\<close>, and of the callers that
  wait for one set exactly one is first in line.
\<close>

theorem broker_reachable_state:
  assumes "sys_step\<^sup>*\<^sup>* initial_system s"
  shows "store_wf (br_store (sy_broker s)) \<and> watchers_wf (sy_broker s) \<and>
    (\<exists>xs. queue_rep (sy_broker s) xs \<and> distinct xs \<and> set xs = {a. waits s a}) \<and>
    (\<forall>a. waits s a \<longrightarrow> (\<exists>!f. waits s f \<and>
       w_semid (br_nodes (sy_broker s) f) = w_semid (br_nodes (sy_broker s) a) \<and>
       waiter_is_first_for_set (sy_broker s) f = Some True))"
proof -
  obtain xs where inv: "queue_inv False s xs" using assms by (rule reachable_queue)
  note I = queue_invE [OF inv]
  have "\<exists>!f. waits s f \<and> w_semid (br_nodes (sy_broker s) f) = w_semid (br_nodes (sy_broker s) a) \<and>
      waiter_is_first_for_set (sy_broker s) f = Some True" if "waits s a" for a
    using broker_queue.first_exists [OF I(3), of "w_semid (br_nodes (sy_broker s) a)"] that I(4) by auto
  then show ?thesis using I(1-4) broker_queue.rep_distinct [OF I(3)] by blast
qed

theorem broker_reachable_state_witness: "\<exists>f. waiter_is_first_for_set (sy_broker demo_waiting) f = Some True"
  using broker_reachable_state [OF fresh_run_is_run [OF demo_waiting_run]] demo_waits by blast

text \<open>
  C27. \<^verbatim>\<open>GETNCNT\<close> and \<^verbatim>\<open>GETZCNT\<close> count the blocked callers: in every reachable state a counter is at most
  the number of connections queued for that semaphore, and it is exactly that number in every run in which no new
  set takes the identifier (15-bit generation included) that a queued caller still waits for.
\<close>

theorem waiter_counts_exact:
  assumes "wait_count (br_store (sy_broker s)) x n z = Some c"
  shows "(sys_step\<^sup>*\<^sup>* initial_system s \<longrightarrow> c \<le> card {a. waits s a \<and> matches (br_nodes (sy_broker s)) x n z a}) \<and>
    (fresh_step\<^sup>*\<^sup>* initial_system s \<longrightarrow> c = card {a. waits s a \<and> matches (br_nodes (sy_broker s)) x n z a})"
proof (intro conjI impI)
  assume "sys_step\<^sup>*\<^sup>* initial_system s"
  then obtain xs where "queue_inv False s xs" by (rule reachable_queue)
  from queue_invE(5) [OF this assms] show "c \<le> card {a. waits s a \<and> matches (br_nodes (sy_broker s)) x n z a}" .
next
  assume "fresh_step\<^sup>*\<^sup>* initial_system s"
  then obtain xs where "queue_inv True s xs" using exact_system.reachable_inv by (auto simp: sys_inv_def)
  from queue_invE(6) [OF this assms] show "c = card {a. waits s a \<and> matches (br_nodes (sy_broker s)) x n z a}" by simp
qed

theorem waiter_counts_exact_witness:
  "card {a. waits demo_waiting a \<and> matches (br_nodes (sy_broker demo_waiting)) 0x10001 2 False a} = 1"
  using waiter_counts_exact [OF demo_wait_count] demo_waiting_run by simp

section \<open>Wake-ups\<close>

text \<open>
  C8. No wake-up is lost: from every reachable state, if a request, a round of a waiting caller or a pass of the
  exit monitor does not signal the condition variable, then every semaphore that existed before has the value
  it had.
\<close>

theorem no_lost_wakeup:
  assumes "sys_step\<^sup>*\<^sup>* initial_system s" and "sem_value (br_store (sy_broker s)) x n = Some v"
    and "sy_conns s a = Some (actor, Receiving) \<and>
           serve_received env env' (sy_broker s) a r request actor response = Some (st, b, False) \<or>
         sy_conns s a = Some (actor, Waiting request response deadline) \<and>
           waiter_wake env r now (sy_broker s) a request actor response = Some (out, b, False) \<or>
         monitor_pass k clks (sy_broker s) = (b, False)"
  shows "sem_value (br_store b) x n = Some v"
proof -
  obtain xs where inv: "queue_inv False s xs" using assms(1) by (rule reachable_queue)
  note I = queue_invE [OF inv]
  from assms(3) consider
      (request) "sy_conns s a = Some (actor, Receiving)"
        "serve_received env env' (sy_broker s) a r request actor response = Some (st, b, False)"
    | (wake) "sy_conns s a = Some (actor, Waiting request response deadline)"
        "waiter_wake env r now (sy_broker s) a request actor response = Some (out, b, False)"
    | (monitor) "monitor_pass k clks (sy_broker s) = (b, False)" by blast
  then show ?thesis
  proof cases
    case request
    then show ?thesis
      using serve_received_ok [OF inv request(1), of env env' r request response] assms(2)
      by (auto simp: request_ok_def)
  next
    case wake
    then show ?thesis
      using waiter_wake_step [OF inv wake(1), of env r now] assms(2) by (auto simp: round_ok_def)
  next
    case monitor
    let ?N = "length (br_process_watchers (sy_broker s))"
    have "set [0..<?N] \<subseteq> {..<?N}" "distinct [0..<?N]" by auto
    from monitor_fold_ok [OF I(1,2) this monitor [unfolded monitor_pass_def]] show ?thesis using assms(2) by simp
  qed
qed

theorem no_lost_wakeup_witness:
  "\<exists>st b. serve_received demo_env demo_env (sy_broker demo_created) 2 0 demo_semop demo_actor demo_response =
     Some (st, b, False) \<and> sem_value (br_store b) 0x10001 2 = Some 0"
proof -
  obtain st b where r: "serve_received demo_env demo_env (sy_broker demo_created) 2 0 demo_semop demo_actor demo_response =
     Some (st, b, False)" using demo_served by blast
  have "sem_value (br_store (sy_broker demo_created)) 0x10001 2 = Some 0" by (simp add: demo_created_store demo_value)
  from no_lost_wakeup [OF fresh_run_is_run [OF demo_created_run] this, of 2] demo_created_conns(2) r
  show ?thesis by blast
qed

text \<open>The first waiter of a set, when its operations can be decided.\<close>

lemma first_waiter_wakes:
  assumes "sys_step\<^sup>*\<^sup>* initial_system s"
    and "sy_conns s a = Some (actor, Waiting request response deadline)"
    and "waiter_is_first_for_set (sy_broker s) a = Some True"
    and "\<not> peer_has_closed (e_peek env)" and "wait_result (br_nodes (sy_broker s) a) r now = (0, False)"
    and "semop_request request ops"
    and "spec_result (br_store (sy_broker s)) (request_semid request) ops (ac_pid actor) = result"
    and "result \<noteq> TGC_SEM_OP_BLOCKED"
  shows "\<exists>response' b ys. waiter_wake env r now (sy_broker s) a request actor response = Some (Served response', b, True) \<and>
    h_result (pk_header response') = result \<and> queue_rep b ys \<and> a \<notin> set ys \<and>
    sem_value (br_store b) x n = (if result = 0
      then map_option (\<lambda>v. v + (if x = request_semid request then op_sum ops n else 0)) (sem_value (br_store (sy_broker s)) x n)
      else sem_value (br_store (sy_broker s)) x n)"
proof -
  obtain xs where inv: "queue_inv False s xs" using assms(1) by (rule reachable_queue)
  note I = queue_invE [OF inv]
  have pid: "0 < sint (ac_pid actor)" and rq: "waiting_request request"
    using queue_invD(3) [OF inv assms(2)] by (auto simp: conn_ok_def)
  have op: "opcode request = TGC_OPCODE_SEMOP \<or> opcode request = TGC_OPCODE_SEMTIMEDOP"
    using rq by (simp add: waiting_request_def)
  let ?b = "sy_broker s"
  let ?d = "tgc_broker_dispatch (e_realtime env) (e_memory env) (br_store ?b) request actor response"
  let ?t = "tgc_sem_store_tryop (e_realtime env) (br_store ?b) (request_semid request) ops (ac_pid actor)"
  have "\<exists>st' response'. ?d = Inr (st', response')"
    using pid rq by (simp add: waiting_request_def tgc_broker_dispatch_def Let_def not_less case_prod_beta)
  then obtain st' response' where d: "?d = Inr (st', response')" by blast
  obtain r1 response1 where r1: "response' = finish_response r1 response1"
    and s: "dispatch_semop (e_realtime env) (br_store ?b) request (ac_pid actor) (prepare_response request response) =
      (r1, st', response1)" using dispatch_semopD [OF d op] by blast
  have tr: "?t = (r1, st')"
    using s assms(6) unfolding dispatch_semop_def semop_request_def semop_prefix_def tgc_sem_store_tryop_def
    by (auto simp: Let_def split: if_splits prod.splits)
  then have "r1 = result"
    using tryop_result [OF I(1), of "e_realtime env" "request_semid request" ops "ac_pid actor"] assms(7)
    by (auto simp: tgc_sem_store_tryop_def split: prod.splits)
  then have res: "h_result (pk_header response') = result" by (simp add: r1)
  have "a \<in> set xs" using I(4) assms(2) by (auto simp: waits_def)
  moreover have "broker_inv False (?b\<lparr>br_store := st'\<rparr>) xs" by (rule dispatch_keeps_inv [OF queue_invD(1) [OF inv] d]) simp
  ultimately obtain b where b: "finish_waiter (?b\<lparr>br_store := st'\<rparr>) a = Some b" "broker_inv False b (remove1 a xs)"
    "same_but_queue (?b\<lparr>br_store := st'\<rparr>) b a" using finish_waiter_ok by blast
  have "waiter_wake env r now ?b a request actor response = Some (Served response', b, True)"
    using assms(3-5,8) d res b(1) by (simp add: waiter_wake_def waiter_pass_def finish_with_def)
  moreover have "a \<notin> set (remove1 a xs)" using broker_queue.rep_distinct [OF I(3)] by simp
  moreover have "sem_value (br_store b) = sem_value st'" using b(3) by (simp add: same_but_queue_def)
  moreover note broker_invD(3) [OF b(2)] res store_contract.tryop_val [OF I(1), of "e_realtime env" "request_semid request" ops "ac_pid actor"]
    store_contract.tryop_unchanged [OF I(1), of "e_realtime env" "request_semid request" ops "ac_pid actor"]
  ultimately show ?thesis using tr \<open>r1 = result\<close> by (cases "result = 0") auto
qed

lemma demo_semop_request: "semop_request demo_semop [\<lparr>sem_num = 2, sem_op = - 1, sem_flg = 0\<rparr>]"
  by (simp add: semop_request_def semop_prefix_def)
    (simp add: demo_semop_def demo_request_def get_op_def wire_signed tgc_wire_get_u16_def)

lemma demo_spec_result: "spec_result demo_raised 0x10001 [\<lparr>sem_num = 2, sem_op = - 1, sem_flg = 0\<rparr>] 42 = 0"
  by (simp add: spec_result_def sem_values_def demo_raised_simps op_is_invalid_def undo_request_ok_def is_undo_def
      undo_total_ok_def undo_out_of_range_def new_undo_entries_def word_le_nat_alt)

lemma demo_ready_facts:
  "br_store (sy_broker demo_ready) = demo_raised" "waiter_is_first_for_set (sy_broker demo_ready) 2 = Some True"
  "wait_result (br_nodes (sy_broker demo_ready) 2) 0 (Inr \<lparr>tv_sec = 100, tv_nsec = 7\<rparr>) = (0, False)" "\<not> peer_has_closed (e_peek demo_env)"
  "sem_value demo_raised 0x10001 2 = Some 1"
  using demo_waiting_broker demo_ready_eq(1)
  by (simp_all add: waiter_is_first_for_set_def wait_result_def peer_has_closed_def sem_value_def demo_raised_simps
      compare_timespec_def)

text \<open>
  C9. Callers blocked on one set are served in the order they queued: from every reachable state, if the round of
  a woken caller changes a value or an undo adjustment, no caller ahead of it in the queue waits for the same
  set, the others are signalled, and the caller is answered with success.
\<close>

theorem waiters_served_in_order:
  assumes "sys_step\<^sup>*\<^sup>* initial_system s"
    and "sy_conns s a = Some (actor, Waiting request response deadline)"
    and "waiter_wake env r now (sy_broker s) a request actor response = Some (out, b, signalled)"
    and "sem_value (br_store b) \<noteq> sem_value (br_store (sy_broker s)) \<or>
         undo_of (br_store b) \<noteq> undo_of (br_store (sy_broker s))"
    and "queue_rep (sy_broker s) (ahead @ a # behind)"
  shows "(\<forall>x \<in> set ahead. w_semid (br_nodes (sy_broker s) x) \<noteq> w_semid (br_nodes (sy_broker s) a)) \<and> signalled \<and>
    (\<exists>response'. out = Served response' \<and> h_result (pk_header response') = 0)"
proof -
  obtain xs where inv: "queue_inv False s xs" using assms(1) by (rule reachable_queue)
  have "round_ok False (sy_broker s) xs a request actor out b signalled"
    using waiter_wake_step [OF inv assms(2), of env r now] assms(3) by auto
  then have "waiter_is_first_for_set (sy_broker s) a = Some True" "signalled"
    "\<exists>response'. out = Served response' \<and> h_result (pk_header response') = 0"
    using assms(4) unfolding round_ok_def by blast+
  then show ?thesis using broker_queue.first_split [OF assms(5)] by simp
qed

lemma demo_ready_conn:
  obtains deadline where "sy_conns demo_ready 2 = Some (demo_actor, Waiting demo_semop demo_blocked deadline)"
  using demo_conn demo_ready_eq(2) by metis

lemma demo_ready_result:
  "spec_result (br_store (sy_broker demo_ready)) (request_semid demo_semop)
     [\<lparr>sem_num = 2, sem_op = - 1, sem_flg = 0\<rparr>] (ac_pid demo_actor) = 0"
  using demo_spec_result by (simp add: demo_ready_facts)

theorem waiters_served_in_order_witness:
  "\<exists>out b. waiter_wake demo_env 0 (Inr \<lparr>tv_sec = 100, tv_nsec = 7\<rparr>) (sy_broker demo_ready) 2 demo_semop demo_actor
     demo_blocked = Some (out, b, True) \<and> (\<exists>response. out = Served response \<and> h_result (pk_header response) = 0)"
proof -
  obtain deadline where c: "sy_conns demo_ready 2 = Some (demo_actor, Waiting demo_semop demo_blocked deadline)"
    by (rule demo_ready_conn)
  obtain response b where w: "waiter_wake demo_env 0 (Inr \<lparr>tv_sec = 100, tv_nsec = 7\<rparr>) (sy_broker demo_ready) 2
      demo_semop demo_actor demo_blocked = Some (Served response, b, True)" "sem_value (br_store b) 0x10001 2 = Some 0"
    using first_waiter_wakes [OF demo_ready_eq(3) c demo_ready_facts(2,4,3) demo_semop_request demo_ready_result,
      where x = "0x10001" and n = 2] by (auto simp: demo_ready_facts)
  obtain xs where inv: "queue_inv False demo_ready xs" using demo_ready_eq(3) by (rule reachable_queue)
  have "2 \<in> set xs" using queue_invD(2) [OF inv, of 2] c by (auto simp: waits_def)
  then obtain ahead behind where "xs = ahead @ 2 # behind" by (meson split_list)
  then have q: "queue_rep (sy_broker demo_ready) (ahead @ 2 # behind)" using queue_invE(3) [OF inv] by simp
  have "sem_value (br_store b) 0x10001 2 \<noteq> sem_value (br_store (sy_broker demo_ready)) 0x10001 2"
    using w(2) by (simp add: demo_ready_facts)
  then have "sem_value (br_store b) \<noteq> sem_value (br_store (sy_broker demo_ready))" by metis
  from waiters_served_in_order [OF demo_ready_eq(3) c w(1) disjI1 [OF this] q] w(1) show ?thesis by blast
qed

text \<open>
  C10. A waiting caller is not stuck: if it is first in line for its set, its peer is there, its deadline has
  not passed and its operations no longer block, the next wake-up answers it with exactly the result the
  specification of \<^verbatim>\<open>semop\<close> gives now, takes it off the queue and signals the others; with result 0 all its
  operations are applied.
\<close>

theorem first_waiter_is_answered:
  assumes "sys_step\<^sup>*\<^sup>* initial_system s"
    and "sy_conns s a = Some (actor, Waiting request response deadline)"
    and "waiter_is_first_for_set (sy_broker s) a = Some True"
    and "\<not> peer_has_closed (e_peek env)" and "wait_result (br_nodes (sy_broker s) a) r now = (0, False)"
    and "semop_request request ops"
    and "spec_result (br_store (sy_broker s)) (request_semid request) ops (ac_pid actor) = result"
    and "result \<noteq> TGC_SEM_OP_BLOCKED"
  shows "\<exists>response' b ys. waiter_wake env r now (sy_broker s) a request actor response = Some (Served response', b, True) \<and>
    h_result (pk_header response') = result \<and> queue_rep b ys \<and> a \<notin> set ys \<and>
    sem_value (br_store b) x n = (if result = 0
      then map_option (\<lambda>v. v + (if x = request_semid request then op_sum ops n else 0)) (sem_value (br_store (sy_broker s)) x n)
      else sem_value (br_store (sy_broker s)) x n)"
  using assms by (rule first_waiter_wakes)

theorem first_waiter_is_answered_witness:
  "\<exists>response b. waiter_wake demo_env 0 (Inr \<lparr>tv_sec = 100, tv_nsec = 7\<rparr>) (sy_broker demo_ready) 2 demo_semop
     demo_actor demo_blocked = Some (Served response, b, True) \<and> h_result (pk_header response) = 0 \<and>
     sem_value (br_store b) 0x10001 2 = Some 0"
proof -
  obtain deadline where c: "sy_conns demo_ready 2 = Some (demo_actor, Waiting demo_semop demo_blocked deadline)"
    by (rule demo_ready_conn)
  from first_waiter_is_answered [OF demo_ready_eq(3) c demo_ready_facts(2,4,3) demo_semop_request demo_ready_result,
      where x = "0x10001" and n = 2] show ?thesis by (auto simp: demo_ready_facts)
qed

section \<open>Time\<close>

text \<open>Nanoseconds of a normalised time, and the order of such times.\<close>

definition nanoseconds :: "timespec \<Rightarrow> int" where
  "nanoseconds t = tv_sec t * 1000000000 + tv_nsec t"

definition normalised :: "timespec \<Rightarrow> bool" where
  "normalised t \<longleftrightarrow> 0 \<le> tv_nsec t \<and> tv_nsec t < 1000000000"

lemma compare_timespec_nanoseconds:
  assumes "normalised t" and "normalised u"
  shows "compare_timespec t u < 0 \<longleftrightarrow> nanoseconds t < nanoseconds u"
    and "compare_timespec t u \<ge> 0 \<longleftrightarrow> nanoseconds t \<ge> nanoseconds u"
  using assms by (auto simp: compare_timespec_def nanoseconds_def normalised_def)

text \<open>
  The deadline of a timed wait is exact: with a non-negative timeout and a readable clock the waiter gets
  a deadline that is the current time plus the timeout to the nanosecond, unless the seconds would pass the
  32-bit limit, where the deadline is the last representable instant; and every single wait ends at the
  deadline or after 250 ms, whichever is first.
\<close>

theorem timed_wait_deadline:
  assumes "opcode request = TGC_OPCODE_SEMTIMEDOP" and "normalised now" and "0 \<le> tv_sec now"
    and "sint (tgc_wire_get_i64 (pk_payload request) 8) = timeout" and "0 \<le> timeout"
  shows "\<exists>w'. initialize_deadline (Inr now) request w = (0, w') \<and> w_has_deadline w' \<and> normalised (w_deadline w') \<and>
    (if tv_sec now + timeout div 1000000000 \<le> INT_MAX
     then nanoseconds (w_deadline w') = nanoseconds now + timeout
     else w_deadline w' = \<lparr>tv_sec = INT_MAX, tv_nsec = 999999999\<rparr>) \<and>
    (normalised t \<longrightarrow> normalised (wait_deadline w' t) \<and>
       nanoseconds (wait_deadline w' t) = min (nanoseconds t + 250000000) (nanoseconds (w_deadline w')))"
proof -
  let ?s = "timeout div 1000000000" and ?n = "timeout mod 1000000000"
  define d where "d = (if ?s > INT_MAX \<or> tv_sec now > INT_MAX - ?s
     then \<lparr>tv_sec = INT_MAX, tv_nsec = 999999999\<rparr>
     else if tv_nsec now + ?n \<ge> 1000000000
       then \<lparr>tv_sec = tv_sec now + ?s + 1, tv_nsec = tv_nsec now + ?n - 1000000000\<rparr>
       else \<lparr>tv_sec = tv_sec now + ?s, tv_nsec = tv_nsec now + ?n\<rparr>)"
  let ?w = "w\<lparr>w_deadline := d, w_has_deadline := True\<rparr>"
  have i: "initialize_deadline (Inr now) request w = (0, ?w)"
    using assms by (simp add: initialize_deadline_def Let_def d_def)
  have b: "0 \<le> ?n" "?n < 1000000000" "timeout = ?s * 1000000000 + ?n" by simp_all
  have nd: "normalised d" using assms(2) b(1,2) by (auto simp: normalised_def d_def)
  have "if tv_sec now + ?s \<le> INT_MAX then nanoseconds d = nanoseconds now + timeout
      else d = \<lparr>tv_sec = INT_MAX, tv_nsec = 999999999\<rparr>"
    using assms(2,3) b by (auto simp: d_def nanoseconds_def algebra_simps)
  moreover have "normalised (wait_deadline ?w t) \<and>
      nanoseconds (wait_deadline ?w t) = min (nanoseconds t + 250000000) (nanoseconds d)" if "normalised t"
  proof -
    have a: "normalised (after_interval t)" "nanoseconds (after_interval t) = nanoseconds t + 250000000"
      using that by (auto simp: after_interval_def Let_def normalised_def nanoseconds_def)
    then show ?thesis
      using nd compare_timespec_nanoseconds(1) [OF nd a(1)] by (auto simp: wait_deadline_def Let_def)
  qed
  ultimately show ?thesis using i nd by (intro exI [of _ ?w]) simp
qed

theorem timed_wait_deadline_witness:
  "\<exists>w'. initialize_deadline (Inr \<lparr>tv_sec = 100, tv_nsec = 999999999\<rparr>) demo_semop demo_waiter = (0, w') \<and>
     nanoseconds (w_deadline w') = 101999999999"
  using timed_wait_deadline [of demo_semop "\<lparr>tv_sec = 100, tv_nsec = 999999999\<rparr>" 1000000000 demo_waiter]
  by (auto simp: normalised_def nanoseconds_def)

text \<open>
  C28. A timed-out caller leaves without effect: from every reachable state, when a wait ends at or after the caller's
  deadline, the caller is answered \<^verbatim>\<open>EAGAIN\<close> with no payload, it is off the queue, the others are signalled, and no
  value and no undo adjustment changed.
\<close>

theorem timed_out_waiter:
  assumes "sys_step\<^sup>*\<^sup>* initial_system s"
    and "sy_conns s a = Some (actor, Waiting request response deadline)"
    and "w_has_deadline (br_nodes (sy_broker s) a)" and "r = 0 \<or> r = ETIMEDOUT"
    and "compare_timespec now (w_deadline (br_nodes (sy_broker s) a)) \<ge> 0"
  shows "\<exists>b ys. waiter_wake env r (Inr now) (sy_broker s) a request actor response =
      Some (Served (response\<lparr>pk_header := (pk_header response)\<lparr>h_result := - EAGAIN, h_payload_length := 0\<rparr>\<rparr>), b, True) \<and>
    queue_rep b ys \<and> a \<notin> set ys \<and>
    sem_value (br_store b) = sem_value (br_store (sy_broker s)) \<and> undo_of (br_store b) = undo_of (br_store (sy_broker s))"
proof -
  obtain xs where inv: "queue_inv False s xs" using assms(1) by (rule reachable_queue)
  note I = queue_invE [OF inv]
  have "wait_result (br_nodes (sy_broker s) a) r (Inr now) = (0, True)"
    using assms(3-5) by (auto simp: wait_result_def)
  moreover have "a \<in> set xs" using I(4) assms(2) by (auto simp: waits_def)
  then obtain b where "finish_waiter (sy_broker s) a = Some b" "broker_inv False b (remove1 a xs)"
    "same_but_queue (sy_broker s) b a" using finish_waiter_ok [OF queue_invD(1) [OF inv]] by blast
  moreover have "a \<notin> set (remove1 a xs)" using broker_queue.rep_distinct [OF I(3)] by simp
  ultimately show ?thesis
    using broker_invD(3) by (auto simp: waiter_wake_def finish_with_def same_but_queue_def)
qed

theorem timed_out_waiter_witness:
  "\<exists>response b. waiter_wake demo_env ETIMEDOUT (Inr \<lparr>tv_sec = 101, tv_nsec = 0\<rparr>) (sy_broker demo_waiting) 2 demo_semop
     demo_actor demo_blocked = Some (Served response, b, True) \<and> h_result (pk_header response) = - EAGAIN"
proof -
  obtain deadline where c: "sy_conns demo_waiting 2 = Some (demo_actor, Waiting demo_semop demo_blocked deadline)"
    by (rule demo_conn)
  from timed_out_waiter [OF fresh_run_is_run [OF demo_waiting_run] c demo_waiting_broker(3), of ETIMEDOUT
      "\<lparr>tv_sec = 101, tv_nsec = 0\<rparr>" demo_env] show ?thesis
    by (auto simp: demo_waiting_broker compare_timespec_def)
qed

section \<open>Progress and process exits\<close>

text \<open>
  C20. No thread gets lost in a critical section: in every reachable state the walks over the waiter queue end, so
  handling any request and any wake-up of a waiting caller returns, whatever the machine answers.
\<close>

theorem critical_sections_return:
  assumes "sys_step\<^sup>*\<^sup>* initial_system s"
  shows "(sy_conns s a = Some (actor, Receiving) \<longrightarrow>
      serve_received env env' (sy_broker s) a r request actor response \<noteq> None) \<and>
    (sy_conns s a = Some (actor, Waiting request response deadline) \<longrightarrow>
      waiter_wake env r now (sy_broker s) a request actor response \<noteq> None)"
proof -
  obtain xs where inv: "queue_inv False s xs" using assms by (rule reachable_queue)
  show ?thesis
    using serve_received_ok [OF inv, of a actor env env' r request response]
      waiter_wake_step [OF inv, of a actor request response deadline env r now] by auto
qed

theorem critical_sections_return_witness:
  "waiter_wake demo_env EINVAL (Inl EINVAL) (sy_broker demo_waiting) 2 demo_semop demo_actor demo_blocked \<noteq> None"
proof -
  obtain deadline where c: "sy_conns demo_waiting 2 = Some (demo_actor, Waiting demo_semop demo_blocked deadline)"
    by (rule demo_conn)
  then show ?thesis using critical_sections_return [OF fresh_run_is_run [OF demo_waiting_run]] by blast
qed

text \<open>
  C29. Undo adjustments belong to watched processes: if every process with a recorded adjustment is watched for
  its exit, this is still so after any request, after a pass of the exit monitor, and after a round of a woken
  caller, provided that caller's own process is still watched or it asked for no undo.
\<close>

theorem undo_entries_are_watched:
  assumes "sys_step\<^sup>*\<^sup>* initial_system s" and "undo_watched (sy_broker s)"
    and "sy_conns s a = Some (actor, Receiving) \<and>
           serve_received env env' (sy_broker s) a r request actor response = Some (st, b, signalled) \<or>
         sy_conns s a = Some (actor, Waiting request response deadline) \<and>
           (request_uses_undo request \<longrightarrow> watched (sy_broker s) (ac_pid actor)) \<and>
           waiter_wake env r now (sy_broker s) a request actor response = Some (out, b, signalled) \<or>
         monitor_pass k clks (sy_broker s) = (b, signalled)"
  shows "undo_watched b"
proof -
  obtain xs where inv: "queue_inv False s xs" using assms(1) by (rule reachable_queue)
  note I = queue_invE [OF inv]
  from assms(3) consider
      (request) "sy_conns s a = Some (actor, Receiving)"
        "serve_received env env' (sy_broker s) a r request actor response = Some (st, b, signalled)"
    | (wake) "sy_conns s a = Some (actor, Waiting request response deadline)"
        "request_uses_undo request \<longrightarrow> watched (sy_broker s) (ac_pid actor)"
        "waiter_wake env r now (sy_broker s) a request actor response = Some (out, b, signalled)"
    | (monitor) "monitor_pass k clks (sy_broker s) = (b, signalled)" by blast
  then show ?thesis
  proof cases
    case request
    then obtain out where "request_ok False (sy_broker s) xs a request actor out b signalled"
      using serve_received_ok [OF inv request(1), of env env' r request response] by auto
    then have "watched (sy_broker s) p \<Longrightarrow> watched b p"
      "undo_of (br_store b) p x m \<noteq> 0 \<Longrightarrow> undo_of (br_store (sy_broker s)) p x m \<noteq> 0 \<or> watched b p" for p x m
      by (simp_all add: request_ok_def)
    then show ?thesis using assms(2) by blast
  next
    case wake
    then have ok: "round_ok False (sy_broker s) xs a request actor out b signalled"
      using waiter_wake_step [OF inv wake(1), of env r now] by auto
    then have "find_watcher b = find_watcher (sy_broker s)"
      by (intro ext find_watcher_cong) (simp add: round_ok_def)
    then show ?thesis using ok assms(2) wake(2) unfolding round_ok_def by metis
  next
    case monitor
    then show ?thesis using monitor_pass_ok [OF I(1,2) monitor] assms(2) by blast
  qed
qed

theorem undo_entries_are_watched_witness:
  "\<exists>st b. serve_received demo_env demo_env (sy_broker demo_created) 2 0 demo_semop demo_actor demo_response =
     Some (st, b, False) \<and> undo_watched b"
proof -
  obtain st b where r: "serve_received demo_env demo_env (sy_broker demo_created) 2 0 demo_semop demo_actor demo_response =
     Some (st, b, False)" using demo_served by blast
  have "undo_watched (sy_broker demo_created)" by (simp add: demo_created_store demo_undo)
  from undo_entries_are_watched [OF fresh_run_is_run [OF demo_created_run] this, of 2] demo_created_conns(2) r
  show ?thesis by blast
qed

section \<open>Resources\<close>

text \<open>The resources held after a sequence of events; \<open>None\<close> if something is released that is not held.\<close>

fun run_events :: "resource multiset \<Rightarrow> resource_event list \<Rightarrow> resource multiset option" where
  "run_events held [] = Some held"
| "run_events held (Acquire r # es) = run_events (add_mset r held) es"
| "run_events held (Release r # es) = (if r \<in># held then run_events (held - {#r#}) es else None)"

lemma run_events_append:
  "run_events held (es @ fs) = (case run_events held es of None \<Rightarrow> None | Some h \<Rightarrow> run_events h fs)"
  by (induction held es rule: run_events.induct) auto

lemma run_events_release: "run_events (mset rs + held) (map Release rs) = Some held"
  by (induction rs) auto

definition pidfds :: "tgc_broker \<Rightarrow> s32 list" where
  "pidfds b = map pw_pidfd (filter (\<lambda>w. pw_active w \<and> 0 \<le> sint (pw_pidfd w)) (br_process_watchers b))"

lemma create_resources:
  assumes "tgc_broker_create e = (broker, events)"
  shows "run_events {#} events =
    Some (if broker = None then {#} else {#R_Memory, R_Store, R_Mutex, R_Cond, R_Thread#})"
proof -
  have c: "run_events held (snd (create_condition e)) =
      Some (if fst (create_condition e) = 0 then add_mset R_Cond held else held)" for held
    by (simp add: create_condition_def Let_def add_mset_commute)
  have m: "run_events held (snd (create_monitor e)) =
      Some (if fst (create_monitor e) = 0 then add_mset R_Thread held else held)" for held
    by (simp add: create_monitor_def Let_def add_mset_commute)
  show ?thesis
    using assms unfolding tgc_broker_create_def Let_def case_prod_beta
    by (auto simp: run_events_append c m split: if_splits)
qed

lemma destroy_resources:
  assumes "br_process_monitor_started b"
  shows "run_events (mset (map R_Pidfd (pidfds b)) + {#R_Memory, R_Store, R_Mutex, R_Cond, R_Thread#})
    (snd (tgc_broker_destroy lock (Some b))) = Some {#}"
proof -
  have "run_events (mset (map R_Pidfd ps) + {#R_Memory, R_Store, R_Mutex, R_Cond#})
      (map (\<lambda>p. Release (R_Pidfd p)) ps @ [Release R_Cond, Release R_Mutex, Release R_Store, Release R_Memory]) = Some {#}" for ps
    unfolding run_events_append using run_events_release [of "map R_Pidfd ps"] by (simp only: map_map o_def) simp
  note R = this [of "pidfds b"]
  have "snd (tgc_broker_destroy lock (Some b)) = Release R_Thread # (map (\<lambda>p. Release (R_Pidfd p)) (pidfds b) @
      [Release R_Cond, Release R_Mutex, Release R_Store, Release R_Memory])"
    using assms by (simp add: tgc_broker_destroy_def pidfds_def)
  then show ?thesis using R by (simp add: diff_add_mset_swap)
qed

text \<open>
  Creating and destroying a broker leaks nothing and frees nothing twice: if any call of the creation fails,
  everything acquired so far has been released again; if it succeeds, exactly memory, store, mutex, condition variable
  and monitor thread are held; and destroying a broker of any later state, with these and the pidfds of its active watchers
  held, releases all of them, joining the monitor before the objects it uses go away.
\<close>

theorem create_destroy_resources:
  assumes "tgc_broker_create e = (broker, events)" and "br_process_monitor_started b"
  shows "run_events {#} events =
      Some (if broker = None then {#} else {#R_Memory, R_Store, R_Mutex, R_Cond, R_Thread#}) \<and>
    run_events (mset (map R_Pidfd (pidfds b)) + {#R_Memory, R_Store, R_Mutex, R_Cond, R_Thread#})
      (snd (tgc_broker_destroy lock (Some b))) = Some {#} \<and>
    hd (snd (tgc_broker_destroy lock (Some b))) = Release R_Thread"
  using create_resources [OF assms(1)] destroy_resources [OF assms(2)] assms(2)
  by (simp add: tgc_broker_destroy_def)

theorem create_destroy_resources_witness:
  "\<exists>events. tgc_broker_create \<lparr>ce_calloc = True, ce_store = True, ce_mutex_init = 0, ce_condattr_init = 0,
     ce_condattr_setclock = 0, ce_cond_init = 0, ce_attr_init = 0, ce_attr_setstacksize = 0, ce_thread_create = EAGAIN\<rparr> =
     (None, events) \<and> run_events {#} events = Some {#}"
proof -
  have "br_process_monitor_started demo_watching" by (simp add: demo_watching_def)
  moreover obtain events where e: "tgc_broker_create \<lparr>ce_calloc = True, ce_store = True, ce_mutex_init = 0, ce_condattr_init = 0,
     ce_condattr_setclock = 0, ce_cond_init = 0, ce_attr_init = 0, ce_attr_setstacksize = 0, ce_thread_create = EAGAIN\<rparr> =
     (None, events)"
    by (simp add: tgc_broker_create_def create_condition_def create_monitor_def)
  ultimately show ?thesis using create_destroy_resources [OF e] by auto
qed

end
