(* ===== verification/Tgc_Client.thy ===== *)
theory Tgc_Client
  imports Tgc_Dispatch Tgc_Transport
begin

text \<open>
  The client of \<^verbatim>\<open>src/reference-termux-glibc-compat/src/client.c\<close>: one lazily opened connection per thread,
  one request and one response per call. What the machine answers during a call is a \<open>client_env\<close>; a call
  returns \<open>None\<close> when its script of socket events ends before the call does, that is, when it blocks. Next to its
  result and the new client a call returns what it did to descriptors and the bytes it sent.
\<close>

section \<open>Data\<close>

record tgc_client =
  cl_socket_fd :: s32
  cl_connection_pid :: s32
  cl_next_request_id :: u32
  cl_socket_path :: string

text \<open>
  \<open>cv_pid\<close>, \<open>cv_euid\<close>: \<^verbatim>\<open>getpid\<close> and \<^verbatim>\<open>geteuid\<close>; \<open>cv_connect\<close>: what \<^verbatim>\<open>tgc_transport_connect\<close> meets; \<open>cv_send\<close>,
  \<open>cv_recv\<close>: the events of the socket; \<open>cv_wire\<close>, \<open>cv_request\<close>, \<open>cv_response\<close>: the uninitialised buffers on the stack.
\<close>

record client_env =
  cv_pid :: s32
  cv_euid :: u32
  cv_connect :: socket_env
  cv_wire :: "u8 list"
  cv_send :: "send_event list"
  cv_recv :: "recv_event list"
  cv_request :: "u8 list"
  cv_response :: tgc_protocol_packet

datatype client_event = Socket socket_effect | Sent s32 "u8 list"

section \<open>The connection\<close>

definition request_init :: "u8 list \<Rightarrow> u16 \<Rightarrow> u32 \<Rightarrow> tgc_protocol_packet" where
  "request_init payload opc n =
     \<lparr>pk_header = \<lparr>h_version = TGC_PROTOCOL_VERSION, h_kind = TGC_PROTOCOL_REQUEST, h_opcode = opc,
        h_request_id = 0, h_payload_length = n, h_result = 0\<rparr>, pk_payload = payload\<rparr>"

text \<open>\<open>None\<close> is a NULL argument; the second component is the client written on success.\<close>

definition tgc_client_init :: "string option \<Rightarrow> s32 \<times> tgc_client option" where
  "tgc_client_init socket_path =
     (case socket_path of
        None \<Rightarrow> (- EINVAL, None)
      | Some path \<Rightarrow>
          if path = [] \<or> hd path \<noteq> CHR ''/'' \<or> length path \<ge> SUN_PATH_SIZE
          then (if length path \<ge> SUN_PATH_SIZE then - ENAMETOOLONG else - EINVAL, None)
          else (0, Some \<lparr>cl_socket_fd = - 1, cl_connection_pid = 0, cl_next_request_id = 0, cl_socket_path = path\<rparr>))"

definition tgc_client_close :: "tgc_client \<Rightarrow> tgc_client \<times> client_event list" where
  "tgc_client_close client =
     (client\<lparr>cl_socket_fd := - 1, cl_connection_pid := 0\<rparr>,
      if 0 \<le> sint (cl_socket_fd client) then [Socket (Close (cl_socket_fd client))] else [])"

definition ensure_connection :: "client_env \<Rightarrow> tgc_client \<Rightarrow> s32 \<times> tgc_client \<times> client_event list" where
  "ensure_connection env client =
     (if 0 \<le> sint (cl_socket_fd client) \<and> cl_connection_pid client = cv_pid env then (0, client, [])
      else
        let (client, closed) = tgc_client_close client;
            (socket_fd, effects) = tgc_transport_connect (cv_connect env) (cl_socket_path client) (cv_euid env)
        in if negative socket_fd then (socket_fd, client, closed @ map Socket effects)
           else (0, client\<lparr>cl_socket_fd := socket_fd, cl_connection_pid := cv_pid env\<rparr>,
                 closed @ map Socket effects))"

section \<open>One exchange\<close>

type_synonym 'a call_result = "('a \<times> tgc_client \<times> client_event list) option"

text \<open>Dropping the connection with a result.\<close>

definition drop_connection :: "'a \<Rightarrow> tgc_client \<Rightarrow> client_event list \<Rightarrow> 'a call_result" where
  "drop_connection r client log =
     (let (client, closed) = tgc_client_close client in Some (r, client, log @ closed))"

definition next_request_id :: "u32 \<Rightarrow> u32" where
  "next_request_id n = (if n + 1 = 0 then 1 else n + 1)"

text \<open>The checks on a received response.\<close>

definition response_matches :: "tgc_protocol_packet \<Rightarrow> tgc_protocol_packet \<Rightarrow> bool" where
  "response_matches request response \<longleftrightarrow>
     h_version (pk_header response) = TGC_PROTOCOL_VERSION \<and>
     h_kind (pk_header response) = TGC_PROTOCOL_RESPONSE \<and>
     opcode response = opcode request \<and>
     h_request_id (pk_header response) = h_request_id (pk_header request) \<and>
     \<not> (negative (h_result (pk_header response)) \<and> payload_length response \<noteq> 0)"

definition exchange_with_interrupt ::
  "client_env \<Rightarrow> tgc_client \<Rightarrow> tgc_protocol_packet \<Rightarrow> bool \<Rightarrow> (s32 \<times> tgc_protocol_packet) call_result" where
  "exchange_with_interrupt env client request interruptible =
     (let (r, client, log) = ensure_connection env client in
      if r \<noteq> 0 then Some ((r, cv_response env), client, log)
      else
        let id = next_request_id (cl_next_request_id client);
            client = client\<lparr>cl_next_request_id := id\<rparr>;
            request = request\<lparr>pk_header := (pk_header request)\<lparr>h_request_id := id\<rparr>\<rparr>
        in case tgc_transport_send (cv_wire env) (cv_send env) request of
             None \<Rightarrow> None
           | Some (r, sent) \<Rightarrow>
               let log = log @ [Sent (cl_socket_fd client) sent] in
               if r \<noteq> 0 then
                 drop_connection (if r = TGC_TRANSPORT_EOF then - ECONNRESET else r, cv_response env) client log
               else
                 case (if interruptible then tgc_transport_receive_interruptible (cv_recv env) (cv_response env)
                       else tgc_transport_receive (cv_recv env) (cv_response env)) of
                   None \<Rightarrow> None
                 | Some (r, response, rest) \<Rightarrow>
                     if r \<noteq> 0 then
                       drop_connection (if r = TGC_TRANSPORT_EOF then - ECONNRESET else r, response) client log
                     else if \<not> response_matches request response then
                       drop_connection (- EPROTO, response) client log
                     else Some ((0, response), client, log))"

definition exchange ::
  "client_env \<Rightarrow> tgc_client \<Rightarrow> tgc_protocol_packet \<Rightarrow> (s32 \<times> tgc_protocol_packet) call_result" where
  "exchange env client request = exchange_with_interrupt env client request False"

text \<open>What a scalar call makes of the outcome of an exchange.\<close>

definition scalar_result :: "(s32 \<times> tgc_protocol_packet) call_result \<Rightarrow> s32 call_result" where
  "scalar_result outcome =
     (case outcome of
        None \<Rightarrow> None
      | Some ((r, response), client, log) \<Rightarrow>
          if r \<noteq> 0 then Some (r, client, log)
          else if payload_length response \<noteq> 0 then drop_connection (- EPROTO) client log
          else Some (h_result (pk_header response), client, log))"

definition scalar_call :: "client_env \<Rightarrow> tgc_client \<Rightarrow> tgc_protocol_packet \<Rightarrow> s32 call_result" where
  "scalar_call env client request = scalar_result (exchange env client request)"

definition scalar_call_interruptible :: "client_env \<Rightarrow> tgc_client \<Rightarrow> tgc_protocol_packet \<Rightarrow> s32 call_result" where
  "scalar_call_interruptible env client request = scalar_result (exchange_with_interrupt env client request True)"

section \<open>Requests\<close>

text \<open>The packets the calls build in an uninitialised buffer.\<close>

definition semget_request :: "u8 list \<Rightarrow> s32 \<Rightarrow> s32 \<Rightarrow> u32 \<Rightarrow> tgc_protocol_packet" where
  "semget_request buf key nsems flags =
     (let p = tgc_wire_put_i32 buf 0 key; p = tgc_wire_put_i32 p 4 nsems; p = tgc_wire_put_u32 p 8 flags
      in request_init p TGC_OPCODE_SEMGET 12)"

definition semid_request :: "u8 list \<Rightarrow> u16 \<Rightarrow> s32 \<Rightarrow> tgc_protocol_packet" where
  "semid_request buf opc semid = request_init (tgc_wire_put_i32 buf 0 semid) opc 4"

definition semnum_request :: "u8 list \<Rightarrow> u16 \<Rightarrow> s32 \<Rightarrow> u32 \<Rightarrow> tgc_protocol_packet" where
  "semnum_request buf opc semid semnum =
     (let p = tgc_wire_put_i32 buf 0 semid; p = tgc_wire_put_u32 p 4 semnum in request_init p opc 8)"

definition setval_request :: "u8 list \<Rightarrow> s32 \<Rightarrow> u32 \<Rightarrow> u32 \<Rightarrow> tgc_protocol_packet" where
  "setval_request buf semid semnum val =
     (let p = tgc_wire_put_i32 buf 0 semid; p = tgc_wire_put_u32 p 4 semnum; p = tgc_wire_put_u32 p 8 val
      in request_init p TGC_OPCODE_SETVAL 12)"

definition setall_request :: "u8 list \<Rightarrow> s32 \<Rightarrow> u16 list \<Rightarrow> tgc_protocol_packet" where
  "setall_request buf semid vals =
     (let p = tgc_wire_put_i32 buf 0 semid; p = tgc_wire_put_u32 p 4 (of_nat (length vals));
          p = put_array tgc_wire_put_u16 2 p 8 vals
      in request_init p TGC_OPCODE_SETALL (of_nat (8 + length vals * 2)))"

definition put_op :: "u8 list \<Rightarrow> nat \<Rightarrow> tgc_sem_op \<Rightarrow> u8 list" where
  "put_op wire p operation =
     (let wire = tgc_wire_put_u16 wire p (sem_num operation);
          wire = tgc_wire_put_i16 wire (p + 2) (sem_op operation);
          wire = tgc_wire_put_u16 wire (p + 4) (sem_flg operation)
      in tgc_wire_put_u16 wire (p + 6) 0)"

text \<open>\<open>timeout\<close> is given for a timed call.\<close>

definition semop_request_packet :: "u8 list \<Rightarrow> s32 \<Rightarrow> tgc_sem_op list \<Rightarrow> s64 option \<Rightarrow> tgc_protocol_packet" where
  "semop_request_packet buf semid operations timeout =
     (let prefix_size = (if timeout \<noteq> None then 16 else 8);
          p = tgc_wire_put_i32 buf 0 semid;
          p = tgc_wire_put_u32 p 4 (of_nat (length operations));
          p = (case timeout of None \<Rightarrow> p | Some t \<Rightarrow> tgc_wire_put_i64 p 8 t);
          p = put_array put_op 8 p prefix_size operations
      in request_init p (if timeout \<noteq> None then TGC_OPCODE_SEMTIMEDOP else TGC_OPCODE_SEMOP)
           (of_nat (prefix_size + length operations * 8)))"

definition setmeta_request :: "u8 list \<Rightarrow> s32 \<Rightarrow> u32 \<Rightarrow> u32 \<Rightarrow> u32 \<Rightarrow> tgc_protocol_packet" where
  "setmeta_request buf semid uid gid mode =
     (let p = tgc_wire_put_i32 buf 0 semid; p = tgc_wire_put_u32 p 4 uid; p = tgc_wire_put_u32 p 8 gid;
          p = tgc_wire_put_u32 p 12 mode
      in request_init p TGC_OPCODE_SETMETA 16)"

section \<open>Calls\<close>

text \<open>A call refused before anything is sent.\<close>

definition refuse :: "'a \<Rightarrow> tgc_client \<Rightarrow> 'a call_result" where
  "refuse r client = Some (r, client, [])"

definition tgc_client_ping :: "client_env \<Rightarrow> tgc_client \<Rightarrow> s32 call_result" where
  "tgc_client_ping env client = scalar_call env client (request_init (cv_request env) TGC_OPCODE_PING 0)"

definition tgc_client_semget :: "client_env \<Rightarrow> tgc_client \<Rightarrow> s32 \<Rightarrow> s32 \<Rightarrow> s32 \<Rightarrow> s32 call_result" where
  "tgc_client_semget env client key nsems flags =
     scalar_call env client (semget_request (cv_request env) key nsems flags)"

definition tgc_client_remove :: "client_env \<Rightarrow> tgc_client \<Rightarrow> s32 \<Rightarrow> s32 call_result" where
  "tgc_client_remove env client semid =
     scalar_call env client (semid_request (cv_request env) TGC_OPCODE_REMOVE semid)"

definition UINT32_MAX :: nat where [simp]: "UINT32_MAX = 4294967295"

definition semnum_call :: "client_env \<Rightarrow> tgc_client \<Rightarrow> u16 \<Rightarrow> s32 \<Rightarrow> u64 \<Rightarrow> s32 call_result" where
  "semnum_call env client opc semid semnum =
     (if unat semnum > UINT32_MAX then refuse (- EINVAL) client
      else scalar_call env client (semnum_request (cv_request env) opc semid (ucast semnum)))"

definition tgc_client_getval :: "client_env \<Rightarrow> tgc_client \<Rightarrow> s32 \<Rightarrow> u64 \<Rightarrow> s32 call_result" where
  "tgc_client_getval env client semid semnum = semnum_call env client TGC_OPCODE_GETVAL semid semnum"

definition tgc_client_setval :: "client_env \<Rightarrow> tgc_client \<Rightarrow> s32 \<Rightarrow> u64 \<Rightarrow> u32 \<Rightarrow> s32 call_result" where
  "tgc_client_setval env client semid semnum val =
     (if unat semnum > UINT32_MAX then refuse (- EINVAL) client
      else scalar_call env client (setval_request (cv_request env) semid (ucast semnum) val))"

definition tgc_client_getpid :: "client_env \<Rightarrow> tgc_client \<Rightarrow> s32 \<Rightarrow> u64 \<Rightarrow> s32 call_result" where
  "tgc_client_getpid env client semid semnum = semnum_call env client TGC_OPCODE_GETPID semid semnum"

definition tgc_client_getncnt :: "client_env \<Rightarrow> tgc_client \<Rightarrow> s32 \<Rightarrow> u64 \<Rightarrow> s32 call_result" where
  "tgc_client_getncnt env client semid semnum = semnum_call env client TGC_OPCODE_GETNCNT semid semnum"

definition tgc_client_getzcnt :: "client_env \<Rightarrow> tgc_client \<Rightarrow> s32 \<Rightarrow> u64 \<Rightarrow> s32 call_result" where
  "tgc_client_getzcnt env client semid semnum = semnum_call env client TGC_OPCODE_GETZCNT semid semnum"

text \<open>
  The calls that return data: the second component of the result is what was written to the caller's
  buffer. \<open>wanted\<close> is false for a NULL buffer.
\<close>

definition getall_result ::
  "u64 \<Rightarrow> (s32 \<times> tgc_protocol_packet) call_result \<Rightarrow> (s32 \<times> u16 list option) call_result" where
  "getall_result count outcome =
     (case outcome of
        None \<Rightarrow> None
      | Some ((r, response), client, log) \<Rightarrow>
          if r \<noteq> 0 then Some ((r, None), client, log)
          else if h_result (pk_header response) \<noteq> 0 then Some ((h_result (pk_header response), None), client, log)
          else if unat (payload_length response) \<noteq> 4 + unat count * 2 \<or>
                  unat (tgc_wire_get_u32 (pk_payload response) 0) \<noteq> unat count
          then drop_connection (- EPROTO, None) client log
          else Some ((0, Some (get_array tgc_wire_get_u16 2 (pk_payload response) 4 (unat count))), client, log))"

definition tgc_client_getall ::
  "client_env \<Rightarrow> tgc_client \<Rightarrow> s32 \<Rightarrow> bool \<Rightarrow> u64 \<Rightarrow> (s32 \<times> u16 list option) call_result" where
  "tgc_client_getall env client semid wanted count =
     (if \<not> wanted \<or> count = 0 \<or> unat count > TGC_SEM_MAX_PER_SET then refuse (- EINVAL, None) client
      else getall_result count
        (exchange env client (semnum_request (cv_request env) TGC_OPCODE_GETALL semid (ucast count))))"

text \<open>An array argument is its elements; \<open>None\<close> is NULL.\<close>

definition tgc_client_setall ::
  "client_env \<Rightarrow> tgc_client \<Rightarrow> s32 \<Rightarrow> u16 list option \<Rightarrow> s32 call_result" where
  "tgc_client_setall env client semid vals =
     (case vals of
        None \<Rightarrow> refuse (- EINVAL) client
      | Some vs \<Rightarrow>
          if vs = [] \<or> length vs > TGC_SEM_MAX_PER_SET then refuse (- EINVAL) client
          else scalar_call env client (setall_request (cv_request env) semid vs))"

definition semop_call ::
  "client_env \<Rightarrow> tgc_client \<Rightarrow> s32 \<Rightarrow> tgc_sem_op list option \<Rightarrow> s64 option \<Rightarrow> s32 call_result" where
  "semop_call env client semid operations timeout =
     (case operations of
        None \<Rightarrow> refuse (- EINVAL) client
      | Some ops \<Rightarrow>
          if ops = [] \<or> length ops > TGC_SEM_MAX_PER_SET \<or> (case timeout of None \<Rightarrow> False | Some t \<Rightarrow> sint t < 0)
          then refuse (- EINVAL) client
          else
            map_option (\<lambda>(r, client, log). (if r = TGC_SEM_OP_BLOCKED then - EPROTO else r, client, log))
              (scalar_call_interruptible env client (semop_request_packet (cv_request env) semid ops timeout)))"

definition tgc_client_semop :: "client_env \<Rightarrow> tgc_client \<Rightarrow> s32 \<Rightarrow> tgc_sem_op list option \<Rightarrow> s32 call_result" where
  "tgc_client_semop env client semid operations = semop_call env client semid operations None"

definition tgc_client_semtimedop ::
  "client_env \<Rightarrow> tgc_client \<Rightarrow> s32 \<Rightarrow> tgc_sem_op list option \<Rightarrow> s64 \<Rightarrow> s32 call_result" where
  "tgc_client_semtimedop env client semid operations timeout = semop_call env client semid operations (Some timeout)"

definition decode_metadata_response ::
  "tgc_protocol_packet \<Rightarrow> tgc_client \<Rightarrow> client_event list \<Rightarrow> (s32 \<times> tgc_sem_metadata option) call_result" where
  "decode_metadata_response response client log =
     (let p = pk_payload response; r = h_result (pk_header response) in
      if negative r then Some ((r, None), client, log)
      else if payload_length response \<noteq> 56 \<or> tgc_wire_get_u32 p 28 \<noteq> 0 \<or> tgc_wire_get_u32 p 52 \<noteq> 0
      then drop_connection (- EPROTO, None) client log
      else Some ((r, Some
        \<lparr>m_key = tgc_wire_get_i32 p 0, m_uid = tgc_wire_get_u32 p 4, m_gid = tgc_wire_get_u32 p 8,
         m_cuid = tgc_wire_get_u32 p 12, m_cgid = tgc_wire_get_u32 p 16, m_mode = tgc_wire_get_u32 p 20,
         m_nsems = tgc_wire_get_u32 p 24, m_otime = tgc_wire_get_i64 p 32, m_ctime = tgc_wire_get_i64 p 40,
         m_sequence = tgc_wire_get_u32 p 48\<rparr>), client, log))"

definition metadata_result ::
  "(s32 \<times> tgc_protocol_packet) call_result \<Rightarrow> (s32 \<times> tgc_sem_metadata option) call_result" where
  "metadata_result outcome =
     (case outcome of
        None \<Rightarrow> None
      | Some ((r, response), client, log) \<Rightarrow>
          if r \<noteq> 0 then Some ((r, None), client, log) else decode_metadata_response response client log)"

definition tgc_client_stat ::
  "client_env \<Rightarrow> tgc_client \<Rightarrow> s32 \<Rightarrow> bool \<Rightarrow> (s32 \<times> tgc_sem_metadata option) call_result" where
  "tgc_client_stat env client semid wanted =
     (if \<not> wanted then refuse (- EINVAL, None) client
      else
        map_option (\<lambda>((r, m), client, log). ((if negative r then r else if m = None then r else 0, m), client, log))
          (metadata_result (exchange env client (semid_request (cv_request env) TGC_OPCODE_STAT semid))))"

definition tgc_client_stat_index ::
  "client_env \<Rightarrow> tgc_client \<Rightarrow> u64 \<Rightarrow> bool \<Rightarrow> (s32 \<times> tgc_sem_metadata option) call_result" where
  "tgc_client_stat_index env client index wanted =
     (if \<not> wanted \<or> unat index > UINT32_MAX then refuse (- EINVAL, None) client
      else metadata_result (exchange env client (semid_request (cv_request env) TGC_OPCODE_STAT_INDEX (ucast index))))"

definition tgc_client_set_metadata ::
  "client_env \<Rightarrow> tgc_client \<Rightarrow> s32 \<Rightarrow> u32 \<Rightarrow> u32 \<Rightarrow> u32 \<Rightarrow> s32 call_result" where
  "tgc_client_set_metadata env client semid uid gid mode =
     scalar_call env client (setmeta_request (cv_request env) semid uid gid mode)"

definition get_info :: "u8 list \<Rightarrow> tgc_sem_info" where
  "get_info p =
     \<lparr>semmap = tgc_wire_get_i32 p 0, semmni = tgc_wire_get_i32 p 4, semmns = tgc_wire_get_i32 p 8,
      semmnu = tgc_wire_get_i32 p 12, semmsl = tgc_wire_get_i32 p 16, semopm = tgc_wire_get_i32 p 20,
      semume = tgc_wire_get_i32 p 24, semusz = tgc_wire_get_i32 p 28, semvmx = tgc_wire_get_i32 p 32,
      semaem = tgc_wire_get_i32 p 36\<rparr>"

definition info_result ::
  "(s32 \<times> tgc_protocol_packet) call_result \<Rightarrow> (s32 \<times> tgc_sem_info option) call_result" where
  "info_result outcome =
     (case outcome of
        None \<Rightarrow> None
      | Some ((r, response), client, log) \<Rightarrow>
          if r \<noteq> 0 then Some ((r, None), client, log)
          else if negative (h_result (pk_header response)) then Some ((h_result (pk_header response), None), client, log)
          else if payload_length response \<noteq> 40 then drop_connection (- EPROTO, None) client log
          else Some ((h_result (pk_header response), Some (get_info (pk_payload response))), client, log))"

definition tgc_client_info ::
  "client_env \<Rightarrow> tgc_client \<Rightarrow> s32 \<Rightarrow> bool \<Rightarrow> (s32 \<times> tgc_sem_info option) call_result" where
  "tgc_client_info env client dynamic wanted =
     (if \<not> wanted \<or> (dynamic \<noteq> 0 \<and> dynamic \<noteq> 1) then refuse (- EINVAL, None) client
      else info_result (exchange env client
        (request_init (tgc_wire_put_u32 (cv_request env) 0 dynamic) TGC_OPCODE_INFO 4)))"

end
