(* ===== verification/Tgc_Client_Props.thy ===== *)
theory Tgc_Client_Props
  imports Tgc_Client Tgc_Broker_Props
begin

text \<open>
  The client against the broker: what a call encodes is what the dispatcher decodes, so a call through the wire
  is the operation of the store. The connection discipline of the client.
\<close>

section \<open>Operations on the wire\<close>

text \<open>One operation together with its reserved half-word is an exact codec of eight bytes.\<close>

definition put_op_pair :: "u8 list \<Rightarrow> nat \<Rightarrow> tgc_sem_op \<times> u16 \<Rightarrow> u8 list" where
  "put_op_pair wire p v =
     tgc_wire_put_u16 (tgc_wire_put_u16 (tgc_wire_put_u16 (tgc_wire_put_u16 wire p (sem_num (fst v)))
       (p + 2) (sem_op (fst v))) (p + 4) (sem_flg (fst v))) (p + 6) (snd v)"

definition get_op_pair :: "u8 list \<Rightarrow> nat \<Rightarrow> tgc_sem_op \<times> u16" where
  "get_op_pair wire p = (get_op wire p, tgc_wire_get_u16 wire (p + 6))"

interpretation op: wire_codec put_op_pair get_op_pair 8
proof
  show "get_op_pair (put_op_pair b p v) p = v" if "p + 8 \<le> length b" for b p v
    using that by (cases v) (simp add: get_op_pair_def put_op_pair_def get_op_def wire_signed wire_get_put)
  show "get_op_pair b p = get_op_pair c p" if "\<And>j. p \<le> j \<Longrightarrow> j < p + 8 \<Longrightarrow> b ! j = c ! j" for b c p
    using u16.get_window [of p b c] u16.get_window [of "p + 2" b c] u16.get_window [of "p + 4" b c]
      u16.get_window [of "p + 6" b c] that by (simp add: get_op_pair_def get_op_def wire_signed)
  show "put_op_pair c p (get_op_pair b p) ! j = b ! j" if "p + 8 \<le> length c" "p \<le> j" "j < p + 8" for b c p j
  proof -
    from that consider "j < p + 2" | "p + 2 \<le> j" "j < p + 4" | "p + 4 \<le> j" "j < p + 6" | "p + 6 \<le> j" by linarith
    then show ?thesis
      by cases (use that in \<open>simp_all add: get_op_pair_def put_op_pair_def get_op_def wire_signed u16.put_frame u16.put_get\<close>)
  qed
  show "put_op_pair b p v ! j = b ! j" if "j < p \<or> p + 8 \<le> j" for b p v j
  proof -
    from that have "j < p \<or> p + 2 \<le> j" "j < p + 2 \<or> p + 2 + 2 \<le> j" "j < p + 4 \<or> p + 4 + 2 \<le> j" "j < p + 6 \<or> p + 6 + 2 \<le> j"
      by linarith+
    then show ?thesis by (simp only: put_op_pair_def u16.put_frame)
  qed
qed (simp add: put_op_pair_def u16.put_length)

interpretation u32_op: wire_codec_pair tgc_wire_put_u32 tgc_wire_get_u32 4 put_op_pair get_op_pair 8 ..
interpretation u64_op: wire_codec_pair tgc_wire_put_u64 tgc_wire_get_u64 8 put_op_pair get_op_pair 8 ..

lemma put_ops_pairs: "put_array put_op 8 b p ops = put_array put_op_pair 8 b p (map (\<lambda>q. (q, 0)) ops)"
  by (induction ops arbitrary: b p) (simp_all add: put_op_def put_op_pair_def wire_signed Let_def)

lemma decode_operations_pairs:
  "get_array get_op_pair 8 inp p n = map (\<lambda>q. (q, 0)) ops \<Longrightarrow> decode_operations inp p n = Some ops"
proof (induction n arbitrary: p ops)
  case 0
  then show ?case by (simp add: get_array_def)
next
  case (Suc n)
  then obtain q ops' where ops: "ops = q # ops'" by (cases ops) (auto simp: get_array_def)
  have split: "get_array get_op_pair 8 inp p (Suc n) = get_op_pair inp p # get_array get_op_pair 8 inp (p + 8) n"
    by (rule nth_equalityI) (simp_all add: get_array_def nth_Cons nth_append add.assoc del: upt_Suc split: nat.split)
  then have "get_op_pair inp p = (q, 0)" and "decode_operations inp (p + 8) n = Some ops'"
    using Suc.prems Suc.IH [of "p + 8" ops'] by (simp_all add: ops)
  then show ?case by (simp add: get_op_pair_def ops)
qed

section \<open>What arrives\<close>

text \<open>The packet \<open>rq\<close> is \<open>request\<close> up to the unused rest of its payload buffer.\<close>

definition same_packet :: "tgc_protocol_packet \<Rightarrow> tgc_protocol_packet \<Rightarrow> bool" where
  "same_packet request rq \<longleftrightarrow> pk_header rq = pk_header request \<and>
     (\<forall>j < unat (payload_length request). pk_payload rq ! j = pk_payload request ! j)"

lemma same_packet_get:
  assumes "same_packet request rq"
  shows "p + 2 \<le> unat (payload_length request) \<Longrightarrow> tgc_wire_get_u16 (pk_payload rq) p = tgc_wire_get_u16 (pk_payload request) p"
    and "p + 4 \<le> unat (payload_length request) \<Longrightarrow> tgc_wire_get_u32 (pk_payload rq) p = tgc_wire_get_u32 (pk_payload request) p"
    and "p + 8 \<le> unat (payload_length request) \<Longrightarrow> tgc_wire_get_u64 (pk_payload rq) p = tgc_wire_get_u64 (pk_payload request) p"
    and "p + 2 * n \<le> unat (payload_length request) \<Longrightarrow>
      get_array tgc_wire_get_u16 2 (pk_payload rq) p n = get_array tgc_wire_get_u16 2 (pk_payload request) p n"
    and "p + 8 * n \<le> unat (payload_length request) \<Longrightarrow>
      get_array get_op_pair 8 (pk_payload rq) p n = get_array get_op_pair 8 (pk_payload request) p n"
  using assms
  by (auto simp: same_packet_def intro!: u16.get_window u32.get_window u64.get_window u16.get_array_window op.get_array_window)

section \<open>Calls\<close>

text \<open>The calls that return one number, with their arguments after the conversions of the client.\<close>

datatype sem_call =
    Ping
  | Semget s32 s32 s32
  | Remove s32
  | Getval s32 u32
  | Getpid s32 u32
  | Getncnt s32 u32
  | Getzcnt s32 u32
  | Setval s32 u32 u32
  | Setall s32 "u16 list"
  | Semop s32 "tgc_sem_op list" "s64 option"
  | Setmeta s32 u32 u32 u32

text \<open>The arguments the client accepts.\<close>

fun call_ok :: "sem_call \<Rightarrow> bool" where
  "call_ok (Setall semid vals) \<longleftrightarrow> vals \<noteq> [] \<and> length vals \<le> TGC_SEM_MAX_PER_SET"
| "call_ok (Semop semid ops timeout) \<longleftrightarrow>
     ops \<noteq> [] \<and> length ops \<le> TGC_SEM_MAX_PER_SET \<and> (case timeout of None \<Rightarrow> True | Some t \<Rightarrow> 0 \<le> sint t)"
| "call_ok _ \<longleftrightarrow> True"

fun call_request :: "u8 list \<Rightarrow> sem_call \<Rightarrow> tgc_protocol_packet" where
  "call_request buf Ping = request_init buf TGC_OPCODE_PING 0"
| "call_request buf (Semget key nsems flags) = semget_request buf key nsems flags"
| "call_request buf (Remove semid) = semid_request buf TGC_OPCODE_REMOVE semid"
| "call_request buf (Getval semid n) = semnum_request buf TGC_OPCODE_GETVAL semid n"
| "call_request buf (Getpid semid n) = semnum_request buf TGC_OPCODE_GETPID semid n"
| "call_request buf (Getncnt semid n) = semnum_request buf TGC_OPCODE_GETNCNT semid n"
| "call_request buf (Getzcnt semid n) = semnum_request buf TGC_OPCODE_GETZCNT semid n"
| "call_request buf (Setval semid n v) = setval_request buf semid n v"
| "call_request buf (Setall semid vals) = setall_request buf semid vals"
| "call_request buf (Semop semid ops timeout) = semop_request_packet buf semid ops timeout"
| "call_request buf (Setmeta semid uid gid mode) = setmeta_request buf semid uid gid mode"

text \<open>The call of the client, and the operation of the store it is meant to be.\<close>

fun client_call :: "client_env \<Rightarrow> tgc_client \<Rightarrow> sem_call \<Rightarrow> s32 call_result" where
  "client_call env client Ping = tgc_client_ping env client"
| "client_call env client (Semget key nsems flags) = tgc_client_semget env client key nsems flags"
| "client_call env client (Remove semid) = tgc_client_remove env client semid"
| "client_call env client (Getval semid n) = tgc_client_getval env client semid (ucast n)"
| "client_call env client (Getpid semid n) = tgc_client_getpid env client semid (ucast n)"
| "client_call env client (Getncnt semid n) = tgc_client_getncnt env client semid (ucast n)"
| "client_call env client (Getzcnt semid n) = tgc_client_getzcnt env client semid (ucast n)"
| "client_call env client (Setval semid n v) = tgc_client_setval env client semid (ucast n) v"
| "client_call env client (Setall semid vals) = tgc_client_setall env client semid (Some vals)"
| "client_call env client (Semop semid ops None) = tgc_client_semop env client semid (Some ops)"
| "client_call env client (Semop semid ops (Some t)) = tgc_client_semtimedop env client semid (Some ops) t"
| "client_call env client (Setmeta semid uid gid mode) = tgc_client_set_metadata env client semid uid gid mode"

fun store_call :: "s64 option \<Rightarrow> bool \<Rightarrow> tgc_sem_store \<Rightarrow> tgc_broker_actor \<Rightarrow> sem_call \<Rightarrow> s32 \<times> tgc_sem_store" where
  "store_call clk mem st actor Ping = (0, st)"
| "store_call clk mem st actor (Semget key nsems flags) =
     (if flags AND NOT (TGC_IPC_CREAT OR TGC_IPC_EXCL OR 511) \<noteq> 0 then (- EINVAL, st)
      else tgc_sem_store_get_as clk mem st key nsems flags (ac_identity actor))"
| "store_call clk mem st actor (Remove semid) = tgc_sem_store_remove st semid"
| "store_call clk mem st actor (Getval semid n) = (tgc_sem_store_getval st semid (unat n), st)"
| "store_call clk mem st actor (Getpid semid n) = (tgc_sem_store_getpid st semid (unat n), st)"
| "store_call clk mem st actor (Getncnt semid n) = (tgc_sem_store_get_wait_count st semid (unat n) False, st)"
| "store_call clk mem st actor (Getzcnt semid n) = (tgc_sem_store_get_wait_count st semid (unat n) True, st)"
| "store_call clk mem st actor (Setval semid n v) = tgc_sem_store_setval clk st semid (unat n) v (ac_pid actor)"
| "store_call clk mem st actor (Setall semid vals) = tgc_sem_store_setall clk st semid vals (ac_pid actor)"
| "store_call clk mem st actor (Semop semid ops timeout) = tgc_sem_store_tryop clk st semid ops (ac_pid actor)"
| "store_call clk mem st actor (Setmeta semid uid gid mode) =
     tgc_sem_store_set_metadata clk st semid uid gid mode (ac_identity actor)"


text \<open>The packet a call sends: its request with the number of the exchange.\<close>

definition numbered :: "u32 \<Rightarrow> tgc_protocol_packet \<Rightarrow> tgc_protocol_packet" where
  "numbered n p = p\<lparr>pk_header := (pk_header p)\<lparr>h_request_id := n\<rparr>\<rparr>"

lemma numbered_simps [simp]:
  "pk_payload (numbered n p) = pk_payload p" "payload_length (numbered n p) = payload_length p"
  "opcode (numbered n p) = opcode p" "h_version (pk_header (numbered n p)) = h_version (pk_header p)"
  "h_kind (pk_header (numbered n p)) = h_kind (pk_header p)" "h_result (pk_header (numbered n p)) = h_result (pk_header p)"
  "h_request_id (pk_header (numbered n p)) = n"
  by (simp_all add: numbered_def)

lemma request_init_simps [simp]:
  "pk_payload (request_init b opc n) = b" "payload_length (request_init b opc n) = n" "opcode (request_init b opc n) = opc"
  "h_version (pk_header (request_init b opc n)) = 1" "h_kind (pk_header (request_init b opc n)) = 1"
  "h_result (pk_header (request_init b opc n)) = 0"
  by (simp_all add: request_init_def)

lemmas request_defs =
  semget_request_def semid_request_def semnum_request_def setval_request_def setall_request_def semop_request_packet_def
  setmeta_request_def

lemma payload_sizes:
  assumes "n \<le> 512"
  shows "unat (8 + of_nat n * 2 :: u32) = 8 + n * 2" and "unat (8 + of_nat n * 8 :: u32) = 8 + n * 8"
    and "unat (16 + of_nat n * 8 :: u32) = 16 + n * 8" and "unat (of_nat n :: u32) = n"
  using assms by (simp_all add: unat_word_ariths unat_of_nat)

lemma length_put_ops [simp]: "length (put_array put_op 8 b p ops) = length b"
  by (simp add: put_ops_pairs op.length_put_array)

text \<open>Every request the client builds has a valid header and fits.\<close>

lemma call_request_length: "length (pk_payload (call_request buf c)) = length buf"
  by (cases c) (simp_all add: request_defs Let_def wire_signed u32.put_length u64.put_length split: option.split)

lemma call_request_size: "call_ok c \<Longrightarrow> unat (payload_length (call_request buf c)) \<le> 8192"
  by (cases c) (auto simp: request_defs Let_def payload_sizes split: option.split)

lemma call_request_header:
  "h_version (pk_header (call_request buf c)) = 1" "h_kind (pk_header (call_request buf c)) = 1"
  "h_result (pk_header (call_request buf c)) = 0" "0 < unat (opcode (call_request buf c))" "unat (opcode (call_request buf c)) \<le> 16"
  by (cases c; simp add: request_defs Let_def)+

section \<open>What the dispatcher decodes\<close>

text \<open>
  The handlers on an arriving request, call by call: the arguments decoded are the ones encoded.
\<close>

lemma arrived_request:
  assumes "same_packet (numbered n request) rq"
  shows "opcode rq = opcode request" and "payload_length rq = payload_length request"
    and "h_version (pk_header rq) = h_version (pk_header request)" and "h_kind (pk_header rq) = h_kind (pk_header request)"
    and "h_result (pk_header rq) = h_result (pk_header request)" and "h_request_id (pk_header rq) = n"
  using assms by (simp_all add: same_packet_def)

lemma semget_arrives:
  assumes "same_packet (numbered n (semget_request buf key nsems flags)) rq" and "12 \<le> length buf"
  shows "dispatch_semget clk mem st rq identity =
    (if flags AND NOT (TGC_IPC_CREAT OR TGC_IPC_EXCL OR 511) \<noteq> 0 then (- EINVAL, st)
     else tgc_sem_store_get_as clk mem st key nsems flags identity)"
  using assms arrived_request [OF assms(1)] same_packet_get(2) [OF assms(1)]
  by (simp add: dispatch_semget_def semget_request_def Let_def wire_signed wire_get_put u32.put_length)

lemma semid_arrives:
  assumes "same_packet (numbered n (semid_request buf opc semid)) rq" and "4 \<le> length buf"
  shows "tgc_wire_get_i32 (pk_payload rq) 0 = semid" and "payload_length rq = 4" and "opcode rq = opc"
  using assms arrived_request [OF assms(1)] same_packet_get(2) [OF assms(1)]
  by (simp_all add: semid_request_def wire_signed wire_get_put)

lemma semnum_arrives:
  assumes "same_packet (numbered n (semnum_request buf opc semid semnum)) rq" and "8 \<le> length buf"
  shows "tgc_wire_get_i32 (pk_payload rq) 0 = semid" and "tgc_wire_get_u32 (pk_payload rq) 4 = semnum"
    and "payload_length rq = 8" and "opcode rq = opc"
  using assms arrived_request [OF assms(1)] same_packet_get(2) [OF assms(1)]
  by (simp_all add: semnum_request_def Let_def wire_signed wire_get_put u32.put_length)

lemma setval_arrives:
  assumes "same_packet (numbered n (setval_request buf semid semnum val)) rq" and "12 \<le> length buf"
  shows "dispatch_setval clk st rq pid = tgc_sem_store_setval clk st semid (unat semnum) val pid"
  using assms arrived_request [OF assms(1)] same_packet_get(2) [OF assms(1)]
  by (simp add: dispatch_setval_def setval_request_def Let_def wire_signed wire_get_put u32.put_length)

lemma setmeta_arrives:
  assumes "same_packet (numbered n (setmeta_request buf semid uid gid mode)) rq" and "16 \<le> length buf"
  shows "dispatch_setmeta clk st rq actor = tgc_sem_store_set_metadata clk st semid uid gid mode actor"
  using assms arrived_request [OF assms(1)] same_packet_get(2) [OF assms(1)]
  by (simp add: dispatch_setmeta_def setmeta_request_def Let_def wire_signed wire_get_put u32.put_length)

lemma setall_arrives:
  assumes arr: "same_packet (numbered n (setall_request buf semid vals)) rq" and room: "8192 \<le> length buf"
    and ok: "vals \<noteq> []" "length vals \<le> 512"
  shows "dispatch_setall clk st rq pid = tgc_sem_store_setall clk st semid vals pid"
proof -
  note got = same_packet_get [OF arr]
  have "tgc_wire_get_u32 (pk_payload rq) 0 = semid" "tgc_wire_get_u32 (pk_payload rq) 4 = of_nat (length vals)"
    and "get_array tgc_wire_get_u16 2 (pk_payload rq) 8 (length vals) = vals"
    using got(2) [of 0] got(2) [of 4] got(4) [of 8 "length vals"] room ok
    by (simp_all add: setall_request_def Let_def wire_signed wire_get_put u32.put_length payload_sizes
        u32_u16.get_put_array_disjoint u16.get_put_array)
  moreover have "payload_length rq = 8 + of_nat (length vals) * 2"
    using arrived_request(2) [OF arr] by (simp add: setall_request_def Let_def)
  moreover have "of_nat (length vals) \<noteq> (0 :: u32)" using ok payload_sizes(4) [of "length vals"] by (auto simp: unat_eq_0)
  ultimately show ?thesis
    using ok payload_sizes [of "length vals"]
    by (simp add: dispatch_setall_def wire_signed word_less_nat_alt)
qed

lemma semop_arrives:
  assumes arr: "same_packet (numbered n (semop_request_packet buf semid ops timeout)) rq" and room: "8192 \<le> length buf"
    and ok: "ops \<noteq> []" "length ops \<le> 512" "case timeout of None \<Rightarrow> True | Some t \<Rightarrow> 0 \<le> sint t"
  shows "semop_request rq ops" and "request_semid rq = semid"
    and "opcode rq = (if timeout \<noteq> None then TGC_OPCODE_SEMTIMEDOP else TGC_OPCODE_SEMOP)"
proof -
  note got = same_packet_get [OF arr]
  let ?n = "length ops" and ?p = "if timeout \<noteq> None then 16 else 8 :: nat"
  show op: "opcode rq = (if timeout \<noteq> None then TGC_OPCODE_SEMTIMEDOP else TGC_OPCODE_SEMOP)"
    using arrived_request(1) [OF arr] by (simp add: semop_request_packet_def Let_def)
  have prefix: "semop_prefix rq = of_nat ?p" by (simp add: op semop_prefix_def)
  have len: "payload_length rq = semop_prefix rq + of_nat ?n * 8"
    using arrived_request(2) [OF arr] by (simp add: semop_request_packet_def Let_def prefix)
  have size: "unat (payload_length (semop_request_packet buf semid ops timeout)) = ?p + ?n * 8"
    using payload_sizes [OF ok(2)] by (simp add: semop_request_packet_def Let_def)
  have words: "tgc_wire_get_u32 (pk_payload rq) 0 = semid" "request_count rq = of_nat ?n"
    using got(2) [of 0] got(2) [of 4] room size
    by (auto simp: semop_request_packet_def Let_def wire_signed wire_get_put u32.put_length u64.put_length
        put_ops_pairs u32_op.get_put_array_disjoint split: option.split)
  show "request_semid rq = semid" using words by (simp add: wire_signed)
  have time: "timeout = Some t \<Longrightarrow> tgc_wire_get_i64 (pk_payload rq) 8 = t" for t
    using got(3) [of 8] room size
    by (simp add: semop_request_packet_def Let_def wire_signed wire_get_put u32.put_length
        put_ops_pairs u64_op.get_put_array_disjoint)
  have "get_array get_op_pair 8 (pk_payload rq) ?p ?n = map (\<lambda>q. (q, 0)) ops"
    using got(5) [of ?p ?n] room size ok
    by (auto simp: semop_request_packet_def Let_def wire_signed u32.put_length u64.put_length put_ops_pairs
        op.get_put_array [of _ "map (\<lambda>q. (q, 0)) ops", simplified] split: option.split)
  then have "decode_operations (pk_payload rq) ?p ?n = Some ops" by (rule decode_operations_pairs)
  moreover have "of_nat ?n \<noteq> (0 :: u32)" using ok payload_sizes(4) [of ?n] by (auto simp: unat_eq_0)
  ultimately show "semop_request rq ops"
    using ok payload_sizes [of ?n] words time
    by (auto simp: semop_request_def len prefix op word_less_nat_alt split: if_splits option.splits)
qed

text \<open>The only result that keeps the caller waiting.\<close>

fun call_blocks :: "sem_call \<Rightarrow> s32 \<Rightarrow> bool" where
  "call_blocks (Semop semid ops timeout) v \<longleftrightarrow> v = TGC_SEM_OP_BLOCKED"
| "call_blocks _ v \<longleftrightarrow> False"

lemma dispatch_is_store_call:
  assumes ok: "call_ok c" and room: "8192 \<le> length buf" and actor: "0 < sint (ac_pid actor)"
    and arr: "same_packet (numbered n (call_request buf c)) rq"
    and call: "store_call clk mem st actor c = (v, st')" "\<not> call_blocks c v"
  shows "tgc_broker_dispatch clk mem st rq actor response = Inr (st', finish_response v (prepare_response rq response))"
proof -
  have "\<not> payload_length rq > TGC_PROTOCOL_MAX_PAYLOAD"
    using call_request_size [OF ok, of buf] arrived_request(2) [OF arr] by (simp add: word_less_nat_alt)
  moreover have "dispatch_opcode clk mem st rq actor (prepare_response rq response) = (v, st', prepare_response rq response)"
  proof (cases c)
    case Ping
    then show ?thesis using call arrived_request [OF arr] by (simp add: dispatch_opcode_def)
  next
    case (Semget key nsems flags)
    then show ?thesis
      using call room arr semget_arrives [of n buf key nsems flags rq clk mem st] arrived_request(1) [OF arr]
      by (simp add: dispatch_opcode_def semget_request_def Let_def del: word_not_simps)
  next
    case (Remove semid)
    then show ?thesis using call room arr semid_arrives [of n buf _ semid rq] by (simp add: dispatch_opcode_def)
  next
    case (Getval semid k)
    then show ?thesis
      using call room arr semnum_arrives [of n buf _ semid k rq] by (auto simp: dispatch_opcode_def dispatch_semnum_def)
  next
    case (Getpid semid k)
    then show ?thesis
      using call room arr semnum_arrives [of n buf _ semid k rq] by (auto simp: dispatch_opcode_def dispatch_semnum_def)
  next
    case (Getncnt semid k)
    then show ?thesis
      using call room arr semnum_arrives [of n buf _ semid k rq] by (auto simp: dispatch_opcode_def dispatch_semnum_def)
  next
    case (Getzcnt semid k)
    then show ?thesis
      using call room arr semnum_arrives [of n buf _ semid k rq] by (auto simp: dispatch_opcode_def dispatch_semnum_def)
  next
    case (Setval semid k val)
    then show ?thesis
      using call room arr setval_arrives [of n buf semid k val rq clk st] arrived_request(1) [OF arr]
      by (simp add: dispatch_opcode_def setval_request_def Let_def)
  next
    case (Setall semid vals)
    then show ?thesis
      using ok call room arr setall_arrives [of n buf semid vals rq clk st] arrived_request(1) [OF arr]
      by (simp add: dispatch_opcode_def setall_request_def Let_def)
  next
    case (Setmeta semid uid gid mode)
    then show ?thesis
      using call room arr setmeta_arrives [of n buf semid uid gid mode rq clk st] arrived_request(1) [OF arr]
      by (simp add: dispatch_opcode_def setmeta_request_def Let_def)
  next
    case (Semop semid ops timeout)
    then have sem: "semop_request rq ops" "request_semid rq = semid"
      "opcode rq = (if timeout \<noteq> None then TGC_OPCODE_SEMTIMEDOP else TGC_OPCODE_SEMOP)"
      using semop_arrives [of n buf semid ops timeout rq] ok room arr by simp_all
    then have "dispatch_semop clk st rq (ac_pid actor) (prepare_response rq response) = (v, st', prepare_response rq response)"
      using call unfolding dispatch_semop_def
      by (auto simp: Semop Let_def semop_request_def semop_prefix_def tgc_sem_store_tryop_def split: prod.splits if_splits)
    then show ?thesis using sem by (simp add: dispatch_opcode_def)
  qed
  ultimately show ?thesis
    using actor arrived_request(3-5) [OF arr] call_request_header [of buf c]
    by (simp add: tgc_broker_dispatch_def Let_def del: sint_0)
qed

section \<open>The exchange\<close>

text \<open>Without interruptions the two receivers agree.\<close>

lemma receive_exact_uninterrupted:
  assumes "Recv_Error EINTR \<notin> set es" and "receive_exact es len got eof False = Some (r, bytes, es')"
  shows "receive_exact es len got eof True = Some (r, bytes, es')" and "Recv_Error EINTR \<notin> set es'"
  using assms
  by (induction es arbitrary: got) (auto simp: Let_def split: if_splits recv_event.splits)

lemma receive_exact_agree:
  "Recv_Error EINTR \<notin> set es \<Longrightarrow> receive_exact es len got eof False = receive_exact es len got eof True"
  by (induction es arbitrary: got) (auto simp: Let_def split: if_splits recv_event.splits)

lemma receive_interruptible_agree:
  assumes "Recv_Error EINTR \<notin> set es"
  shows "tgc_transport_receive_interruptible es packet = tgc_transport_receive es packet"
proof (cases "receive_exact es TGC_PROTOCOL_HEADER_SIZE [] True False")
  case (Some out)
  obtain r bytes es' where out: "out = (r, bytes, es')" by (cases out)
  note u = receive_exact_uninterrupted [OF assms Some [unfolded out]]
  show ?thesis
    unfolding tgc_transport_receive_def tgc_transport_receive_interruptible_def receive_packet_def
    using Some u receive_exact_agree [OF u(2)] by (simp add: out split: sum.split)
next
  case None
  then show ?thesis
    unfolding tgc_transport_receive_def tgc_transport_receive_interruptible_def receive_packet_def
    using receive_exact_agree [OF assms, of "TGC_PROTOCOL_HEADER_SIZE" "[]" True] by simp
qed

text \<open>A connection is there, the request goes out whole, and the next packet of the stream answers it.\<close>

definition answered ::
  "client_env \<Rightarrow> tgc_client \<Rightarrow> tgc_client \<Rightarrow> client_event list \<Rightarrow> u8 list \<Rightarrow> tgc_protocol_packet \<Rightarrow> tgc_protocol_packet \<Rightarrow> bool"
where
  "answered env client client1 log sent request response \<longleftrightarrow>
     ensure_connection env client = (0, client1, log) \<and>
     tgc_transport_send (cv_wire env) (cv_send env)
       (numbered (next_request_id (cl_next_request_id client1)) request) = Some (0, sent) \<and>
     (\<exists>rest. tgc_transport_receive (cv_recv env) (cv_response env) = Some (0, response, rest)) \<and>
     response_matches (numbered (next_request_id (cl_next_request_id client1)) request) response"

definition after_exchange :: "tgc_client \<Rightarrow> tgc_client" where
  "after_exchange client = client\<lparr>cl_next_request_id := next_request_id (cl_next_request_id client)\<rparr>"

lemma exchange_answered:
  assumes "answered env client client1 log sent request response"
    and "interruptible \<Longrightarrow> Recv_Error EINTR \<notin> set (cv_recv env)"
  shows "exchange_with_interrupt env client request interruptible =
    Some ((0, response), after_exchange client1, log @ [Sent (cl_socket_fd client1) sent])"
  using assms receive_interruptible_agree [of "cv_recv env" "cv_response env"]
  by (auto simp: answered_def exchange_with_interrupt_def numbered_def [symmetric] after_exchange_def Let_def)

lemma client_call_scalar:
  assumes "call_ok c"
  shows "client_call env client c =
    (case c of
       Semop _ _ _ \<Rightarrow>
         map_option (\<lambda>(r, client, log). (if r = TGC_SEM_OP_BLOCKED then - EPROTO else r, client, log))
           (scalar_call_interruptible env client (call_request (cv_request env) c))
     | _ \<Rightarrow> scalar_call env client (call_request (cv_request env) c))"
proof -
  have "\<not> 4294967295 < unat (ucast k :: u64)" and "(ucast (ucast k :: u64) :: u32) = k" for k :: u32
  proof -
    have lt: "unat k < 4294967296" using unsigned_less [of k, where ?'a = nat] by simp
    then have up: "unat (ucast k :: u64) = unat k" by (simp add: unsigned_ucast_eq take_bit_nat_eq_self)
    with lt show "\<not> 4294967295 < unat (ucast k :: u64)" by simp
    show "(ucast (ucast k :: u64) :: u32) = k"
      by (simp add: word_unat_eq_iff unsigned_ucast_eq take_bit_word_eq_self)
  qed
  with assms show ?thesis
    by (cases "(env, client, c)" rule: client_call.cases)
      (simp_all add: tgc_client_ping_def tgc_client_semget_def tgc_client_remove_def tgc_client_getval_def
        tgc_client_setval_def tgc_client_getpid_def tgc_client_getncnt_def tgc_client_getzcnt_def semnum_call_def
        tgc_client_setall_def tgc_client_semop_def tgc_client_semtimedop_def semop_call_def tgc_client_set_metadata_def)
qed

lemma client_call_answered:
  assumes "call_ok c" and ans: "answered env client client1 log sent (call_request (cv_request env) c) response"
    and "Recv_Error EINTR \<notin> set (cv_recv env)" and "payload_length response = 0"
    and "\<not> call_blocks c (h_result (pk_header response))"
  shows "client_call env client c =
    Some (h_result (pk_header response), after_exchange client1, log @ [Sent (cl_socket_fd client1) sent])"
proof -
  have "exchange_with_interrupt env client (call_request (cv_request env) c) i =
    Some ((0, response), after_exchange client1, log @ [Sent (cl_socket_fd client1) sent])" for i
    using exchange_answered [OF ans] assms(3) by simp
  then show ?thesis
    using assms(1,4,5)
    by (cases c) (simp_all add: client_call_scalar scalar_call_def scalar_call_interruptible_def exchange_def
        scalar_result_def del: client_call.simps call_request.simps)
qed

section \<open>Through the broker and back\<close>

lemma watch_process_store: "watch_process k b pid = (r, b', sg) \<Longrightarrow> br_store b' = br_store b"
  by (auto simp: watch_process_def Let_def split: option.splits if_splits sum.splits prod.splits)

lemma received_is_same_packet:
  assumes "tgc_transport_send wire0 out packet = Some (0, sent)" and "Send_Error 0 \<notin> set out"
    and "24 \<le> length wire0" and "unat (payload_length packet) \<le> length (pk_payload packet)"
    and "stream_bytes socket = sent @ rest" and "tgc_transport_receive socket buffer = Some (r, rq, socket')"
  shows "r = 0" and "same_packet packet rq"
  using sent_is_received [OF assms(1-5), of buffer] assms(4,6)
  by (auto simp: same_packet_def nth_append)

text \<open>The request path of the broker on an arriving call that does not block.\<close>

lemma serve_arrived_call:
  assumes ok: "call_ok c" and room: "8192 \<le> length buf" and actor: "0 < sint (ac_pid actor)"
    and arr: "same_packet (numbered n (call_request buf c)) rq"
    and lock: "e_lock benv = 0" and watch: "request_uses_undo rq \<Longrightarrow> fst (watch_process (e_kernel benv) broker (ac_pid actor)) = 0"
    and call: "store_call (e_realtime benv) (e_memory benv) (br_store broker) actor c = (v, store')" "\<not> call_blocks c v"
  shows "\<exists>broker' sg. serve_received benv benv' broker a 0 rq actor rsp =
      Some (Sending (finish_response v (prepare_response rq rsp)), broker', sg) \<and> br_store broker' = store'"
proof -
  let ?w = "if request_uses_undo rq then watch_process (e_kernel benv) broker (ac_pid actor) else (0, broker, False)"
  obtain b1 s1 where w: "?w = (0, b1, s1)" "br_store b1 = br_store broker"
  proof (cases "request_uses_undo rq")
    case True
    then show ?thesis
      using that watch watch_process_store by (cases "watch_process (e_kernel benv) broker (ac_pid actor)") auto
  qed (use that in auto)
  note d = dispatch_is_store_call [OF ok room actor arr call, of rsp]
  have "(opcode rq = TGC_OPCODE_SEMOP \<or> opcode rq = TGC_OPCODE_SEMTIMEDOP) \<longrightarrow> v \<noteq> 1"
    using call(2) arrived_request(1) [OF arr] by (cases c) (auto simp: request_defs Let_def)
  then have "dispatch_request benv benv' broker a rq actor rsp =
      Some (Served (finish_response v (prepare_response rq rsp)), b1\<lparr>br_store := store'\<rparr>,
        s1 \<or> operation_changed_state rq (finish_response v (prepare_response rq rsp)))"
    using lock by (auto simp: dispatch_request_def Let_def w d finish_response_def [of v])
  moreover have "h_kind (pk_header rq) = 1" using arrived_request(4) [OF arr] call_request_header by simp
  ultimately show ?thesis by (simp add: serve_received_def)
qed

lemma answer_matches:
  assumes arr: "same_packet (numbered n request) rq"
    and got: "pk_header response = pk_header (finish_response v (prepare_response rq rsp))"
  shows "response_matches (numbered n request) response" and "payload_length response = 0"
    and "h_result (pk_header response) = v"
  using got arrived_request [OF arr]
  by (simp_all add: response_matches_def finish_response_def prepare_response_def Let_def split: if_splits)

text \<open>The way of a call that does not block: from the client to the store of the broker, and back.\<close>

lemma call_served:
  assumes "call_ok c" and "8192 \<le> length (cv_request env)" and "24 \<le> length (cv_wire env)"
    and "ensure_connection env client = (0, client1, log)"
    and "tgc_transport_send (cv_wire env) (cv_send env)
      (numbered (next_request_id (cl_next_request_id client1)) (call_request (cv_request env) c)) = Some (0, sent)"
    and "Send_Error 0 \<notin> set (cv_send env)"
    and "stream_bytes up = sent @ tail" and "tgc_transport_receive up buffer = Some (r, rq, up')"
    and "e_lock benv = 0" and "0 < sint (ac_pid actor)"
    and "request_uses_undo rq \<Longrightarrow> fst (watch_process (e_kernel benv) broker (ac_pid actor)) = 0"
    and "store_call (e_realtime benv) (e_memory benv) (br_store broker) actor c = (v, store')" and "\<not> call_blocks c v"
  shows "\<exists>response broker' signalled.
    serve_received benv benv' broker a r rq actor rsp = Some (Sending response, broker', signalled) \<and>
    br_store broker' = store' \<and>
    (\<forall>wire0 down answer. tgc_transport_send wire0 down response = Some (0, answer) \<and> Send_Error 0 \<notin> set down \<and>
        24 \<le> length wire0 \<and> stream_bytes (cv_recv env) = answer \<and> Recv_Error EINTR \<notin> set (cv_recv env) \<longrightarrow>
      client_call env client c = Some (v, after_exchange client1, log @ [Sent (cl_socket_fd client1) sent]))"
proof -
  let ?n = "next_request_id (cl_next_request_id client1)" and ?q = "call_request (cv_request env) c"
  let ?response = "finish_response v (prepare_response rq rsp)"
  have fits: "unat (payload_length (numbered ?n ?q)) \<le> length (pk_payload (numbered ?n ?q))"
    using call_request_size [OF assms(1), of "cv_request env"] call_request_length [of "cv_request env" c] assms(2) by simp
  note arr = received_is_same_packet [OF assms(5,6,3) fits assms(7,8)]
  obtain broker' sg where served: "serve_received benv benv' broker a 0 rq actor rsp = Some (Sending ?response, broker', sg)"
    "br_store broker' = store'"
    using serve_arrived_call [OF assms(1,2,10) arr(2) assms(9,11,12,13)] by blast
  have "client_call env client c = Some (v, after_exchange client1, log @ [Sent (cl_socket_fd client1) sent])"
    if down: "tgc_transport_send wire0 down ?response = Some (0, answer)" "Send_Error 0 \<notin> set down" "24 \<le> length wire0"
      "stream_bytes (cv_recv env) = answer" "Recv_Error EINTR \<notin> set (cv_recv env)" for wire0 down answer
  proof -
    have "unat (payload_length ?response) \<le> length (pk_payload ?response)"
      using answer_matches(2) [OF arr(2) refl] by simp
    then obtain response rest where got: "tgc_transport_receive (cv_recv env) (cv_response env) = Some (0, response, rest)"
      "pk_header response = pk_header ?response"
      using sent_is_received [OF down(1-3), of "cv_recv env" "[]" "cv_response env"] down(4) by fastforce
    note m = answer_matches [OF arr(2) got(2)]
    have "answered env client client1 log sent ?q response"
      using assms(4,5) got(1) m(1) by (auto simp: answered_def)
    from client_call_answered [OF assms(1) this down(5) m(2)] assms(13) show ?thesis by (simp add: m(3))
  qed
  then show ?thesis using served arr(1) by blast
qed

text \<open>
  C5. A call through the client is the operation of the store. If the client can send its request and the broker
  receives the stream it came in, then the broker applies to its store the very operation the call stands for, answers,
  and when that answer reaches the client uninterrupted the call returns the result of the operation and keeps the
  connection. This covers every call that returns one number; a call whose operations block is answered by the
  waiters of the broker instead, and a call with undo assumes that its process could be watched.
\<close>

theorem client_call_is_store_operation:
  assumes "call_ok c" and "8192 \<le> length (cv_request env)" and "24 \<le> length (cv_wire env)"
    and "ensure_connection env client = (0, client1, log)"
    and "tgc_transport_send (cv_wire env) (cv_send env)
      (numbered (next_request_id (cl_next_request_id client1)) (call_request (cv_request env) c)) = Some (0, sent)"
    and "Send_Error 0 \<notin> set (cv_send env)"
    and "stream_bytes up = sent @ tail" and "tgc_transport_receive up buffer = Some (r, rq, up')"
    and "e_lock benv = 0" and "0 < sint (ac_pid actor)"
    and "request_uses_undo rq \<Longrightarrow> fst (watch_process (e_kernel benv) broker (ac_pid actor)) = 0"
    and "store_call (e_realtime benv) (e_memory benv) (br_store broker) actor c = (v, store')" and "\<not> call_blocks c v"
  shows "\<exists>response broker' signalled.
    serve_received benv benv' broker a r rq actor rsp = Some (Sending response, broker', signalled) \<and>
    br_store broker' = store' \<and>
    (\<forall>wire0 down answer. tgc_transport_send wire0 down response = Some (0, answer) \<and> Send_Error 0 \<notin> set down \<and>
        24 \<le> length wire0 \<and> stream_bytes (cv_recv env) = answer \<and> Recv_Error EINTR \<notin> set (cv_recv env) \<longrightarrow>
      client_call env client c = Some (v, after_exchange client1, log @ [Sent (cl_socket_fd client1) sent]))"
  using call_served [OF assms] .

text \<open>A packet that fits goes out in one piece.\<close>

lemma send_in_one:
  assumes "header_is_valid (pk_header packet) = 0" and "24 \<le> length wire0"
    and "unat (payload_length packet) \<le> length (pk_payload packet)" and "unat (payload_length packet) \<le> 8192"
  shows "\<exists>sent. tgc_transport_send wire0 [Send_Count 9000] packet = Some (0, sent)"
proof -
  obtain hdr where hdr: "tgc_protocol_encode_header (replicate 24 0) (pk_header packet) = Inr hdr"
    using valid_header_encodes [OF assms(1)] by blast
  have "length hdr = 24" using encode_header_length [OF hdr] by simp
  then obtain b bs where "hdr @ take (unat (payload_length packet)) (pk_payload packet) = b # bs" "length (b # bs) \<le> 9000"
    using assms(4) by (cases "hdr @ take (unat (payload_length packet)) (pk_payload packet)") (auto dest: arg_cong [of _ _ length])
  then show ?thesis using packet_wire_eq [OF hdr assms(2,3)] by (simp add: tgc_transport_send_def)
qed

text \<open>A concrete client with a connection on descriptor 5, and its machine.\<close>

definition demo_client :: tgc_client where
  "demo_client = \<lparr>cl_socket_fd = 5, cl_connection_pid = 42, cl_next_request_id = 8, cl_socket_path = ''/run/s''\<rparr>"

definition demo_client_env :: "recv_event list \<Rightarrow> client_env" where
  "demo_client_env es =
     \<lparr>cv_pid = 42, cv_euid = 1000,
      cv_connect = demo_socket_env, cv_wire = replicate 8216 0, cv_send = [Send_Count 9000], cv_recv = es,
      cv_request = replicate 8192 0, cv_response = demo_response\<rparr>"


lemma demo_connected [simp]: "ensure_connection (demo_client_env es) demo_client = (0, demo_client, [])"
  by (simp add: ensure_connection_def demo_client_env_def demo_client_def)

lemma demo_client_env_simps [simp]:
  "cv_request (demo_client_env es) = replicate 8192 0" "cv_wire (demo_client_env es) = replicate 8216 0"
  "cv_send (demo_client_env es) = [Send_Count 9000]" "cv_recv (demo_client_env es) = es"
  by (simp_all add: demo_client_env_def)

text \<open>The call the demonstration client makes: it creates the demonstration set.\<close>

abbreviation demo_call :: sem_call where "demo_call \<equiv> Semget 77 3 0x380"

text \<open>Any call the client accepts can be sent to the broker.\<close>

lemma call_goes_through:
  assumes ok: "call_ok c"
  obtains sent rq up' where "tgc_transport_send (replicate 8216 0) [Send_Count 9000]
       (numbered n (call_request (replicate 8192 0) c)) = Some (0, sent)"
     "tgc_transport_receive [Recv_Data sent] demo_response = Some (0, rq, up')"
     "same_packet (numbered n (call_request (replicate 8192 0) c)) rq"
proof -
  let ?q = "numbered n (call_request (replicate 8192 0) c)"
  have fits: "unat (payload_length ?q) \<le> length (pk_payload ?q)" "unat (payload_length ?q) \<le> 8192"
    using call_request_length [of "replicate 8192 0" c] call_request_size [OF ok, of "replicate 8192 0"] by simp_all
  moreover have "header_is_valid (pk_header ?q) = 0"
    using fits(2) call_request_header [of _ c] by (simp add: header_is_valid_def word_less_nat_alt not_less)
  ultimately obtain sent where sent: "tgc_transport_send (replicate 8216 0) [Send_Count 9000] ?q = Some (0, sent)"
    using send_in_one [of ?q "replicate 8216 0"] by auto
  then obtain rq up' where rq: "tgc_transport_receive [Recv_Data sent] demo_response = Some (0, rq, up')"
    using sent_is_received [OF sent _ _ fits(1), of "[Recv_Data sent]" "[]" demo_response] by auto
  have "same_packet ?q rq" using received_is_same_packet(2) [OF sent _ _ fits(1) _ rq, of "[]"] by simp
  from that [OF sent rq this] show ?thesis .
qed

lemma demo_client_simps [simp]: "cl_socket_fd demo_client = 5" "next_request_id (cl_next_request_id demo_client) = 9"
  by (simp_all add: demo_client_def next_request_id_def)

lemma demo_call_served:
  assumes "same_packet (numbered 9 (call_request (replicate 8192 0) demo_call)) rq"
  shows "\<exists>response broker' answer. serve_received demo_env demo_env new_broker 0 0 rq demo_actor demo_response = Some (Sending response, broker', False) \<and>
    tgc_transport_send (replicate 8216 0) [Send_Count 9000] response = Some (0, answer)"
proof -
  define response where "response = finish_response 0x10001 (prepare_response rq demo_response)"
  have store: "store_call (e_realtime demo_env) (e_memory demo_env) (br_store new_broker) demo_actor demo_call = (0x10001, demo_store)"
    using demo_get by (simp add: demo_env_def new_broker_def demo_actor_def)
  have op: "opcode rq = 2" using arrived_request(1) [OF assms] by (simp add: semget_request_def Let_def)
  then have no_undo: "\<not> request_uses_undo rq" by (simp add: request_uses_undo_def)
  have "header_is_valid (pk_header response) = 0" "payload_length response = 0"
    by (simp_all add: response_def header_is_valid_def finish_response_def prepare_response_def op arrived_request(6) [OF assms])
  then obtain answer where answer: "tgc_transport_send (replicate 8216 0) [Send_Count 9000] response = Some (0, answer)"
    using send_in_one [of response "replicate 8216 0"] by auto
  obtain broker' sg where served: "serve_received demo_env demo_env new_broker 0 0 rq demo_actor demo_response =
      Some (Sending response, broker', sg)"
    using serve_arrived_call [OF _ _ _ assms _ _ store, of demo_env 0 demo_response] no_undo
    by (auto simp: response_def demo_env_def demo_actor_def)
  have "\<not> sg" using served op no_undo
    by (auto simp: serve_received_def dispatch_request_def operation_changed_state_def Let_def
        split: if_splits sum.splits prod.splits option.splits)
  then have "sg = False" by simp
  with served answer show ?thesis by blast
qed

theorem client_call_is_store_operation_witness:
  "\<exists>sent rq response broker' answer.
     serve_received demo_env demo_env new_broker 0 0 rq demo_actor demo_response = Some (Sending response, broker', False) \<and>
     br_store broker' = demo_store \<and>
     client_call (demo_client_env [Recv_Data answer]) demo_client demo_call =
       Some (0x10001, demo_client\<lparr>cl_next_request_id := 9\<rparr>, [Sent 5 sent])"
proof -
  obtain sent rq up' where up: "tgc_transport_send (replicate 8216 0) [Send_Count 9000]
       (numbered 9 (call_request (replicate 8192 0) demo_call)) = Some (0, sent)"
     "tgc_transport_receive [Recv_Data sent] demo_response = Some (0, rq, up')"
     "same_packet (numbered 9 (call_request (replicate 8192 0) demo_call)) rq"
    by (rule call_goes_through [of demo_call 9]) simp_all
  obtain response broker' answer where served: "serve_received demo_env demo_env new_broker 0 0 rq demo_actor demo_response = Some (Sending response, broker', False)"
    and answer: "tgc_transport_send (replicate 8216 0) [Send_Count 9000] response = Some (0, answer)"
    using demo_call_served [OF up(3)] by blast
  have store: "store_call (e_realtime demo_env) (e_memory demo_env) (br_store new_broker) demo_actor demo_call = (0x10001, demo_store)"
    using demo_get by (simp add: demo_env_def new_broker_def demo_actor_def)
  have no_undo: "\<not> request_uses_undo rq" using arrived_request(1) [OF up(3)] by (simp add: semget_request_def Let_def request_uses_undo_def)
  obtain response2 broker2 s2 where run:
      "serve_received demo_env demo_env new_broker 0 0 rq demo_actor demo_response = Some (Sending response2, broker2, s2)"
      "br_store broker2 = demo_store"
      "\<And>wire0 down answer'. tgc_transport_send wire0 down response2 = Some (0, answer') \<Longrightarrow> Send_Error 0 \<notin> set down \<Longrightarrow>
        24 \<le> length wire0 \<Longrightarrow> answer = answer' \<Longrightarrow>
        client_call (demo_client_env [Recv_Data answer]) demo_client demo_call =
          Some (0x10001, after_exchange demo_client, [Sent 5 sent])"
    using client_call_is_store_operation [of demo_call "demo_client_env [Recv_Data answer]" demo_client demo_client "[]" sent
      "[Recv_Data sent]" "[]" demo_response 0 rq up' demo_env demo_actor new_broker "0x10001" demo_store demo_env 0 demo_response]
      up store no_undo
    by (simp add: demo_env_def demo_actor_def del: client_call.simps call_request.simps store_call.simps) blast
  moreover have "response2 = response" "broker2 = broker'" using served run(1) by simp_all
  moreover have "after_exchange demo_client = demo_client\<lparr>cl_next_request_id := 9\<rparr>" by (simp add: after_exchange_def)
  moreover have "client_call (demo_client_env [Recv_Data answer]) demo_client demo_call =
      Some (0x10001, after_exchange demo_client, [Sent 5 sent])"
    by (rule run(3) [of "replicate 8216 0" "[Send_Count 9000]"]) (use answer served run(1) in simp_all)
  ultimately show ?thesis
    using served by (intro exI [of _ sent] exI [of _ rq] exI [of _ response] exI [of _ broker'] exI [of _ answer]) simp
qed


section \<open>The connection of a client\<close>

lemma next_request_id_nonzero: "next_request_id n \<noteq> 0"
  by (simp add: next_request_id_def)

lemma ensure_connection_cases:
  assumes "ensure_connection env client = (r, client', log)"
  obtains (kept) "r = 0" "client' = client" "log = []" "0 \<le> sint (cl_socket_fd client)" "cl_connection_pid client = cv_pid env"
  | (opened) fd effects where "r = 0" "0 \<le> sint fd" "client' = client\<lparr>cl_socket_fd := fd, cl_connection_pid := cv_pid env\<rparr>"
      "log = snd (tgc_client_close client) @ map Socket effects"
      "\<not> (0 \<le> sint (cl_socket_fd client) \<and> cl_connection_pid client = cv_pid env)"
      "tgc_transport_connect (cv_connect env) (cl_socket_path client) (cv_euid env) = (fd, effects)"
  | (failed) effects where "negative r" "client' = client\<lparr>cl_socket_fd := - 1, cl_connection_pid := 0\<rparr>"
      "log = snd (tgc_client_close client) @ map Socket effects"
      "\<not> (0 \<le> sint (cl_socket_fd client) \<and> cl_connection_pid client = cv_pid env)"
      "tgc_transport_connect (cv_connect env) (cl_socket_path client) (cv_euid env) = (r, effects)"
proof (cases "0 \<le> sint (cl_socket_fd client) \<and> cl_connection_pid client = cv_pid env")
  case True
  then show ?thesis using assms kept by (auto simp: ensure_connection_def)
next
  case False
  obtain fd effects where c: "tgc_transport_connect (cv_connect env) (cl_socket_path client) (cv_euid env) = (fd, effects)"
    by (cases "tgc_transport_connect (cv_connect env) (cl_socket_path client) (cv_euid env)")
  show ?thesis
    using assms opened [of fd effects] failed [of effects] False c
    by (simp add: ensure_connection_def tgc_client_close_def split: if_splits)
qed

lemma exchange_outcome:
  assumes "exchange_with_interrupt env client request i = Some ((r, response), client', log)"
  obtains (no_connection) "ensure_connection env client = (r, client', log)" "r \<noteq> 0"
  | (dropped) client1 log1 bytes where "ensure_connection env client = (0, client1, log1)" "r \<noteq> 0"
      "client' = (after_exchange client1)\<lparr>cl_socket_fd := - 1, cl_connection_pid := 0\<rparr>"
      "log = log1 @ Sent (cl_socket_fd client1) bytes # snd (tgc_client_close client1)"
  | (answered) client1 log1 bytes where "ensure_connection env client = (0, client1, log1)" "r = 0"
      "client' = after_exchange client1" "log = log1 @ [Sent (cl_socket_fd client1) bytes]"
      "response_matches (numbered (cl_next_request_id client') request) response"
proof -
  obtain r1 client1 log1 where c: "ensure_connection env client = (r1, client1, log1)"
    by (cases "ensure_connection env client")
  show ?thesis
  proof (cases "r1 = 0")
    case False
    then show ?thesis using assms c no_connection by (simp add: exchange_with_interrupt_def)
  next
    case True
    show ?thesis
      using assms dropped [of client1 log1] answered [of client1 log1] c True
      by (auto simp: exchange_with_interrupt_def Let_def drop_connection_def tgc_client_close_def after_exchange_def
          numbered_def split: option.splits if_splits prod.splits)
  qed
qed

text \<open>
  C13. The connection of a client is sound: an exchange that succeeds leaves an open connection of this very process and
  returns a response with the opcode and the non-zero number of the request; an exchange that fails leaves the client
  without a connection, and every descriptor it had or sent on is closed, so that a late response is never taken for the
  answer to another request. After a fork the inherited descriptor is closed before anything else happens.
\<close>

theorem exchange_connection_sound:
  assumes "exchange_with_interrupt env client request i = Some ((r, response), client', log)"
  shows "(r = 0 \<longrightarrow> 0 \<le> sint (cl_socket_fd client') \<and> cl_connection_pid client' = cv_pid env \<and>
      cl_next_request_id client' \<noteq> 0 \<and> response_matches (numbered (cl_next_request_id client') request) response) \<and>
    (r \<noteq> 0 \<longrightarrow> cl_socket_fd client' = - 1 \<and>
      (\<forall>fd bytes. Sent fd bytes \<in> set log \<longrightarrow> Socket (Close fd) \<in> set log) \<and>
      (0 \<le> sint (cl_socket_fd client) \<longrightarrow> Socket (Close (cl_socket_fd client)) \<in> set log)) \<and>
    (0 \<le> sint (cl_socket_fd client) \<and> cl_connection_pid client \<noteq> cv_pid env \<longrightarrow>
      (\<exists>rest. log = Socket (Close (cl_socket_fd client)) # rest))"
  using assms
proof (cases rule: exchange_outcome)
  case no_connection
  from no_connection(1) show ?thesis
    by (cases rule: ensure_connection_cases) (use no_connection(2) in \<open>auto simp: tgc_client_close_def\<close>)
next
  case (dropped client1 log1 bytes)
  from dropped(1) show ?thesis
    by (cases rule: ensure_connection_cases) (use dropped(2-4) in \<open>auto simp: tgc_client_close_def after_exchange_def\<close>)
next
  case (answered client1 log1 bytes)
  from answered(1) show ?thesis
    by (cases rule: ensure_connection_cases)
      (use answered(2-5) in \<open>auto simp: tgc_client_close_def after_exchange_def next_request_id_nonzero\<close>)
qed

text \<open>A forked child inherits descriptor 7, connects anew on descriptor 5, and the broker hangs up.\<close>

theorem exchange_connection_sound_witness:
  "\<exists>response client' log rest. exchange_with_interrupt (demo_client_env [Recv_Eof]) (demo_client\<lparr>cl_socket_fd := 7, cl_connection_pid := 41\<rparr>)
       (request_init (replicate 8192 0) TGC_OPCODE_PING 0) False = Some ((- ECONNRESET, response), client', log) \<and>
     cl_socket_fd client' = - 1 \<and> log = Socket (Close 7) # rest \<and> (\<forall>bytes. Sent 5 bytes \<in> set log \<longrightarrow> Socket (Close 5) \<in> set log)"
proof -
  let ?env = "demo_client_env [Recv_Eof]" and ?c = "demo_client\<lparr>cl_socket_fd := 7, cl_connection_pid := 41\<rparr>"
  let ?q = "request_init (replicate 8192 0) TGC_OPCODE_PING 0"
  have "header_is_valid (pk_header (numbered 9 ?q)) = 0"
    by (simp add: header_is_valid_def numbered_def request_init_def)
  then obtain sent where sent: "tgc_transport_send (replicate 8216 0) [Send_Count 9000] (numbered 9 ?q) = Some (0, sent)"
    using send_in_one [of "numbered 9 ?q" "replicate 8216 0"] by auto
  have "tgc_transport_connect demo_socket_env ''/run/s'' 1000 = (5, [Connect 5 ''/run/s''])"
    by (simp add: tgc_transport_connect_def demo_directory demo_socket_env_def validate_runtime_directory_def
        S_ISDIR_def S_ISSOCK_def socket_is_private_def tgc_transport_get_credentials_def)
  then have conn: "ensure_connection ?env ?c = (0, demo_client, [Socket (Close 7), Socket (Connect 5 ''/run/s'')])"
    by (simp add: ensure_connection_def demo_client_env_def demo_client_def tgc_client_close_def)
  have "\<exists>response client' log. exchange_with_interrupt ?env ?c ?q False = Some ((- ECONNRESET, response), client', log)"
    using sent unfolding exchange_with_interrupt_def conn
    by (simp add: numbered_def tgc_transport_receive_def receive_packet_def drop_connection_def tgc_client_close_def Let_def)
  then obtain response client' log where
    run: "exchange_with_interrupt ?env ?c ?q False = Some ((- ECONNRESET, response), client', log)" by blast
  note sound = exchange_connection_sound [OF run]
  have "cl_socket_fd client' = - 1 \<and> (\<forall>bytes. Sent 5 bytes \<in> set log \<longrightarrow> Socket (Close 5) \<in> set log)"
    using sound by simp
  moreover obtain rest where "log = Socket (Close 7) # rest" using sound by (auto simp: demo_client_env_def)
  ultimately show ?thesis using run by blast
qed

section \<open>Interrupted calls\<close>

lemma interrupted_receive:
  "tgc_transport_receive_interruptible (Recv_Error EINTR # es) packet = Some (- EINTR, packet, es)"
  by (simp add: tgc_transport_receive_interruptible_def receive_packet_def)

lemma interrupted_exchange:
  assumes "ensure_connection env client = (0, client1, log)" and "cv_recv env = Recv_Error EINTR # es"
    and "tgc_transport_send (cv_wire env) (cv_send env)
      (numbered (next_request_id (cl_next_request_id client1)) request) = Some (0, sent)"
  shows "exchange_with_interrupt env client request True =
    Some ((- EINTR, cv_response env), (after_exchange client1)\<lparr>cl_socket_fd := - 1, cl_connection_pid := 0\<rparr>,
      log @ Sent (cl_socket_fd client1) sent # snd (tgc_client_close client1))"
  using assms
  by (simp add: exchange_with_interrupt_def interrupted_receive drop_connection_def tgc_client_close_def after_exchange_def
      numbered_def Let_def)

text \<open>
  A \<^verbatim>\<open>semop\<close> interrupted by a signal after its request went out returns \<open>-EINTR\<close> and drops the connection, but the
  broker that receives the request still applies the operations when they can proceed: an interrupted call may have
  taken effect, although the caller is told it did not.
\<close>

theorem interrupted_semop_may_take_effect:
  assumes "call_ok (Semop semid ops timeout)" and "8192 \<le> length (cv_request env)" and "24 \<le> length (cv_wire env)"
    and "ensure_connection env client = (0, client1, log)" and "cv_recv env = Recv_Error EINTR # es"
    and "tgc_transport_send (cv_wire env) (cv_send env) (numbered (next_request_id (cl_next_request_id client1))
      (call_request (cv_request env) (Semop semid ops timeout))) = Some (0, sent)"
    and "Send_Error 0 \<notin> set (cv_send env)"
    and "stream_bytes up = sent @ tail" and "tgc_transport_receive up buffer = Some (r, rq, up')"
    and "e_lock benv = 0" and "0 < sint (ac_pid actor)"
    and "request_uses_undo rq \<Longrightarrow> fst (watch_process (e_kernel benv) broker (ac_pid actor)) = 0"
    and "tgc_sem_store_tryop (e_realtime benv) (br_store broker) semid ops (ac_pid actor) = (0, store')"
  shows "client_call env client (Semop semid ops timeout) =
      Some (- EINTR, (after_exchange client1)\<lparr>cl_socket_fd := - 1, cl_connection_pid := 0\<rparr>,
        log @ Sent (cl_socket_fd client1) sent # snd (tgc_client_close client1)) \<and>
    (\<exists>response broker' signalled.
      serve_received benv benv' broker a r rq actor rsp = Some (Sending response, broker', signalled) \<and>
      br_store broker' = store')"
proof -
  let ?c = "Semop semid ops timeout"
  let ?n = "next_request_id (cl_next_request_id client1)" and ?q = "call_request (cv_request env) ?c"
  have "unat (payload_length (numbered ?n ?q)) \<le> length (pk_payload (numbered ?n ?q))"
    using call_request_size [OF assms(1), of "cv_request env"] call_request_length [of "cv_request env" ?c] assms(2) by simp
  note arr = received_is_same_packet [OF assms(6,7,3) this assms(8,9)]
  have "\<exists>broker' sg. serve_received benv benv' broker a 0 rq actor rsp =
      Some (Sending (finish_response 0 (prepare_response rq rsp)), broker', sg) \<and> br_store broker' = store'"
    by (rule serve_arrived_call [OF assms(1,2,11) arr(2) assms(10,12)]) (simp_all add: assms(13))
  moreover have "client_call env client ?c = Some (- EINTR, (after_exchange client1)\<lparr>cl_socket_fd := - 1, cl_connection_pid := 0\<rparr>,
      log @ Sent (cl_socket_fd client1) sent # snd (tgc_client_close client1))"
    using client_call_scalar [OF assms(1), of env client] interrupted_exchange [OF assms(4-6)]
    by (simp add: scalar_call_interruptible_def scalar_result_def del: client_call.simps call_request.simps)
  ultimately show ?thesis using arr(1) by blast
qed


text \<open>An interrupted attempt to raise a semaphore of the demonstration set.\<close>

definition demo_up :: "tgc_sem_op list" where
  "demo_up = [\<lparr>sem_num = 0, sem_op = 1, sem_flg = 0\<rparr>]"

lemma demo_up_result: "fst (tgc_sem_store_tryop clk demo_store 0x10001 demo_up 42) = 0"
proof -
  have "undo_sum demo_up n = 0" for n by (simp add: demo_up_def is_undo_def)
  moreover have "undo_request_ok demo_up"
    by (simp add: undo_request_ok_def demo_up_def is_undo_def undo_out_of_range_def)
  moreover have "spec_ops (replicate 3 0) demo_up = Spec_Done ((replicate 3 0)[0 := 1])"
    by (simp add: demo_up_def)
  moreover have "\<not> (\<exists>operation \<in> set demo_up. op_is_invalid 3 operation)"
    by (simp add: demo_up_def op_is_invalid_def)
  moreover have "demo_up \<noteq> []" by (simp add: demo_up_def)
  ultimately have "fst (tgc_sem_store_tryop_detail clk demo_store 0x10001 demo_up 42) = 0"
    unfolding tryop_result [OF demo_wf]
    by (simp add: spec_result_def sem_values_def demo_find demo_set_simps undo_total_ok_def
        new_undo_entries_def demo_undo demo_free undo_out_of_range_def upt_rec)
  then show ?thesis by (simp add: tgc_sem_store_tryop_def case_prod_beta)
qed

theorem interrupted_semop_may_take_effect_witness:
  "\<exists>sent client' log rq up' response broker' sg.
     client_call (demo_client_env [Recv_Error EINTR]) demo_client (Semop 0x10001 demo_up None) = Some (- EINTR, client', log) \<and>
     tgc_transport_receive [Recv_Data sent] demo_response = Some (0, rq, up') \<and> Sent 5 sent \<in> set log \<and>
     serve_received demo_env demo_env (new_broker\<lparr>br_store := demo_store\<rparr>) 0 0 rq demo_actor demo_response =
       Some (Sending response, broker', sg) \<and>
     br_store broker' = snd (tgc_sem_store_tryop (Some 5) demo_store 0x10001 demo_up 42)"
proof -
  let ?c = "Semop 0x10001 demo_up None"
  have ok: "call_ok ?c" by (simp add: demo_up_def)
  obtain sent rq up' where up: "tgc_transport_send (replicate 8216 0) [Send_Count 9000]
       (numbered 9 (call_request (replicate 8192 0) ?c)) = Some (0, sent)"
     "tgc_transport_receive [Recv_Data sent] demo_response = Some (0, rq, up')"
     "same_packet (numbered 9 (call_request (replicate 8192 0) ?c)) rq"
    by (rule call_goes_through [OF ok])
  have "semop_request rq demo_up" "opcode rq = 9"
    using semop_arrives [of 9 "replicate 8192 0" "0x10001" demo_up None rq] up(3) by (simp_all add: demo_up_def)
  then have nth: "length demo_up = unat (request_count rq)"
      "\<And>i. i < unat (request_count rq) \<Longrightarrow> demo_up ! i = get_op (pk_payload rq) (8 + i * 8)"
    using decode_operations_nth [of "pk_payload rq" 8 "unat (request_count rq)" demo_up]
    by (simp_all add: semop_request_def semop_prefix_def)
  from nth(1) have count: "unat (request_count rq) = 1" by (simp add: demo_up_def)
  with nth(2) [of 0] have "demo_up ! 0 = get_op (pk_payload rq) 8" by simp
  then have "tgc_wire_get_u16 (pk_payload rq) 12 = 0" by (simp add: demo_up_def get_op_def)
  then have no_undo: "\<not> request_uses_undo rq"
    using count \<open>opcode rq = 9\<close> by (auto simp: request_uses_undo_def Let_def)
  define st where "st = snd (tgc_sem_store_tryop (Some 5) demo_store 0x10001 demo_up 42)"
  have store: "tgc_sem_store_tryop (e_realtime demo_env) (br_store (new_broker\<lparr>br_store := demo_store\<rparr>)) 0x10001 demo_up
      (ac_pid demo_actor) = (0, st)"
    using demo_up_result [of "Some 5"] by (simp add: st_def demo_env_def demo_actor_def prod_eq_iff)
  have "client_call (demo_client_env [Recv_Error EINTR]) demo_client ?c =
      Some (- EINTR, (after_exchange demo_client)\<lparr>cl_socket_fd := - 1, cl_connection_pid := 0\<rparr>,
        [] @ Sent (cl_socket_fd demo_client) sent # snd (tgc_client_close demo_client)) \<and>
    (\<exists>response broker' sg. serve_received demo_env demo_env (new_broker\<lparr>br_store := demo_store\<rparr>) 0 0 rq demo_actor
        demo_response = Some (Sending response, broker', sg) \<and> br_store broker' = st)"
    by (rule interrupted_semop_may_take_effect [OF ok _ _ demo_connected _ _ _ _ up(2) _ _ _ store, where tail = "[]"])
      (use up no_undo in \<open>simp_all add: demo_env_def demo_actor_def\<close>)
  then show ?thesis using up(2) unfolding st_def by fastforce
qed

end
