(* ===== verification/Tgc_Client_Data.thy ===== *)
theory Tgc_Client_Data
  imports Tgc_Client_Props
begin

text \<open>
  The calls of the client that return data: what the dispatcher encodes from the store is what the client decodes.
\<close>

section \<open>Delivery\<close>

text \<open>The broker received \<open>request\<close>, dispatched it on the store \<open>st\<close>, and \<open>got\<close> is what arrived of its response.\<close>

definition delivered ::
  "s64 option \<Rightarrow> bool \<Rightarrow> tgc_sem_store \<Rightarrow> tgc_broker_actor \<Rightarrow> tgc_protocol_packet \<Rightarrow> tgc_protocol_packet \<Rightarrow>
   tgc_protocol_packet \<Rightarrow> bool" where
  "delivered clk mem st actor request rsp got \<longleftrightarrow>
     (\<exists>rq st' response. same_packet request rq \<and> tgc_broker_dispatch clk mem st rq actor rsp = Inr (st', response) \<and>
        same_packet response got)"

lemma deliveredE:
  assumes "delivered clk mem st actor request rsp got"
  obtains rq r st' out where "same_packet request rq"
    "dispatch_opcode clk mem st rq actor (prepare_response rq rsp) = (r, st', out)" "same_packet (finish_response r out) got"
  using assms that unfolding delivered_def by (metis dispatch_InrD)

lemma finish_response_ok:
  "0 \<le> sint r \<Longrightarrow> finish_response r out = out\<lparr>pk_header := (pk_header out)\<lparr>h_result := r\<rparr>\<rparr>"
  by (simp add: finish_response_def Let_def)

section \<open>Metadata\<close>

lemma metadata_arrives:
  assumes same: "same_packet (finish_response r (encode_metadata rsp m)) got" and r: "0 \<le> sint r"
    and room: "56 \<le> length (pk_payload rsp)"
  shows "decode_metadata_response got client log = Some ((r, Some m), client, log)"
proof -
  let ?p = "finish_response r (encode_metadata rsp m)"
  have len: "payload_length ?p = 56" "h_result (pk_header ?p) = r"
    and pay: "pk_payload ?p = pk_payload (encode_metadata rsp m)"
    using r by (simp_all add: finish_response_ok encode_metadata_def respond_def Let_def)
  then have hdr: "payload_length got = 56" "h_result (pk_header got) = r" using same by (simp_all add: same_packet_def)
  note got = same_packet_get(2,3) [OF same, unfolded len(1) pay]
  show ?thesis
    using r room
    by (simp add: decode_metadata_response_def hdr got wire_signed Let_def)
      (simp add: encode_metadata_def respond_def Let_def wire_signed wire_get_put u32.put_length u64.put_length)
qed

lemma values_arrive:
  assumes same: "same_packet (finish_response 0 (respond rsp
      (put_array tgc_wire_put_u16 2 (tgc_wire_put_u32 (pk_payload rsp) 0 (of_nat (length vals))) 4 vals)
      (4 + of_nat (length vals) * 2))) got"
    and room: "8192 \<le> length (pk_payload rsp)" and n: "length vals \<le> 512" "unat cnt = length vals"
  shows "getall_result cnt (Some ((0, got), client, log)) = Some ((0, Some vals), client, log)"
proof -
  let ?p = "finish_response 0 (respond rsp
      (put_array tgc_wire_put_u16 2 (tgc_wire_put_u32 (pk_payload rsp) 0 (of_nat (length vals))) 4 vals)
      (4 + of_nat (length vals) * 2))"
  have size: "unat (4 + of_nat (length vals) * 2 :: u32) = 4 + length vals * 2"
    using n by (simp add: unat_word_ariths unat_of_nat)
  have len: "payload_length ?p = 4 + of_nat (length vals) * 2" "h_result (pk_header ?p) = 0"
    and pay: "pk_payload ?p = put_array tgc_wire_put_u16 2 (tgc_wire_put_u32 (pk_payload rsp) 0 (of_nat (length vals))) 4 vals"
    by (simp_all add: finish_response_ok respond_def)
  then have hdr: "payload_length got = 4 + of_nat (length vals) * 2" "h_result (pk_header got) = 0"
    using same by (simp_all add: same_packet_def)
  note got = same_packet_get [OF same, unfolded len(1) pay]
  have "tgc_wire_get_u32 (pk_payload got) 0 = of_nat (length vals)"
    using got(2) [of 0] size room by (simp add: u32_u16.get_put_array_disjoint wire_get_put)
  moreover have "get_array tgc_wire_get_u16 2 (pk_payload got) 4 (length vals) = vals"
    using got(4) [of 4 "length vals"] size room n by (simp add: u16.get_put_array u32.put_length)
  ultimately show ?thesis using n size payload_sizes(4) [of "length vals"] by (simp add: getall_result_def hdr)
qed

lemma getall_outcome:
  assumes "tgc_sem_store_getall st semid n = out" and "store_wf st"
  shows "out = Inl (- EINVAL) \<or> (\<exists>vals. out = Inr vals \<and> length vals = n)"
  using assms
  using find_set_SomeD(3) [of st semid]
  by (auto simp: tgc_sem_store_getall_def Let_def find_const_set_def set_wf_def split: option.splits)

lemma data_calls:
  assumes "store_wf st" and "8192 \<le> length buf" and "8192 \<le> length (pk_payload rsp)"
  shows "delivered clk mem st actor (numbered n (semid_request buf TGC_OPCODE_STAT semid)) rsp got \<Longrightarrow>
      metadata_result (Some ((0, got), client, log)) =
        Some (case tgc_sem_store_get_metadata st semid of Inl e \<Rightarrow> (e, None) | Inr m \<Rightarrow> (0, Some m), client, log)"
    and "delivered clk mem st actor (numbered n (semnum_request buf TGC_OPCODE_GETALL semid (ucast cnt))) rsp got \<Longrightarrow>
      0 < unat cnt \<Longrightarrow> unat cnt \<le> TGC_SEM_MAX_PER_SET \<Longrightarrow>
      getall_result cnt (Some ((0, got), client, log)) =
        Some (case tgc_sem_store_getall st semid (unat cnt) of Inl e \<Rightarrow> (e, None) | Inr vals \<Rightarrow> (0, Some vals), client, log)"
proof -
  assume "delivered clk mem st actor (numbered n (semid_request buf TGC_OPCODE_STAT semid)) rsp got"
  then obtain rq r st' out where d: "same_packet (numbered n (semid_request buf TGC_OPCODE_STAT semid)) rq"
    "dispatch_opcode clk mem st rq actor (prepare_response rq rsp) = (r, st', out)" "same_packet (finish_response r out) got"
    by (rule deliveredE)
  have rq: "request_semid rq = semid" "payload_length rq = 4" "opcode rq = 12"
    using semid_arrives [OF d(1)] assms(2) by simp_all
  show "metadata_result (Some ((0, got), client, log)) =
      Some (case tgc_sem_store_get_metadata st semid of Inl e \<Rightarrow> (e, None) | Inr m \<Rightarrow> (0, Some m), client, log)"
  proof (cases "tgc_sem_store_get_metadata st semid")
    case (Inl e)
    then have "e = - EINVAL" by (auto simp: tgc_sem_store_get_metadata_def Let_def split: option.splits prod.splits)
    then show ?thesis
      using d(2,3) Inl by (auto simp: dispatch_opcode_def dispatch_stat_def rq metadata_result_def decode_metadata_response_def
          same_packet_def finish_response_def Let_def)
  next
    case (Inr m)
    then have "r = 0" "out = encode_metadata (prepare_response rq rsp) m"
      using d(2) by (auto simp: dispatch_opcode_def dispatch_stat_def rq)
    then show ?thesis
      using metadata_arrives [of 0 "prepare_response rq rsp" m got client log] d(3) assms(3) Inr
      by (simp add: metadata_result_def prepare_response_def)
  qed
next
  assume "delivered clk mem st actor (numbered n (semnum_request buf TGC_OPCODE_GETALL semid (ucast cnt))) rsp got"
    and cnt: "0 < unat cnt" "unat cnt \<le> TGC_SEM_MAX_PER_SET"
  then obtain rq r st' out where d: "same_packet (numbered n (semnum_request buf TGC_OPCODE_GETALL semid (ucast cnt))) rq"
    "dispatch_opcode clk mem st rq actor (prepare_response rq rsp) = (r, st', out)" "same_packet (finish_response r out) got"
    by (elim deliveredE)
  have rq: "request_semid rq = semid" "request_count rq = ucast cnt" "payload_length rq = 8" "opcode rq = 7"
    using semnum_arrives [OF d(1)] assms(2) by simp_all
  have u: "unat (ucast cnt :: u32) = unat cnt" using cnt by (simp add: unsigned_ucast_eq take_bit_nat_eq_self)
  have w: "(ucast cnt :: u32) \<noteq> 0" using u cnt by (auto simp: word_unat_eq_iff)
  show "getall_result cnt (Some ((0, got), client, log)) =
      Some (case tgc_sem_store_getall st semid (unat cnt) of Inl e \<Rightarrow> (e, None) | Inr vals \<Rightarrow> (0, Some vals), client, log)"
    using getall_outcome [OF refl assms(1), of semid "unat cnt"]
  proof (elim disjE exE conjE)
    assume "tgc_sem_store_getall st semid (unat cnt) = Inl (- EINVAL)"
    then show ?thesis
      using d(2,3) cnt w by (auto simp: dispatch_opcode_def dispatch_getall_def rq u getall_result_def
          same_packet_def finish_response_def Let_def)
  next
    fix vals
    assume v: "tgc_sem_store_getall st semid (unat cnt) = Inr vals" "length vals = unat cnt"
    have e: "(of_nat (length vals) :: u32) = ucast cnt" by (simp add: v(2))
    have "r = 0" "out = respond (prepare_response rq rsp)
      (put_array tgc_wire_put_u16 2 (tgc_wire_put_u32 (pk_payload (prepare_response rq rsp)) 0 (ucast cnt)) 4 vals)
      (4 + ucast cnt * 2)"
      using d(2) cnt w v by (auto simp: dispatch_opcode_def dispatch_getall_def rq u Let_def)
    then have "same_packet (finish_response 0 (respond (prepare_response rq rsp)
      (put_array tgc_wire_put_u16 2 (tgc_wire_put_u32 (pk_payload (prepare_response rq rsp)) 0 (of_nat (length vals))) 4 vals)
      (4 + of_nat (length vals) * 2))) got" using d(3) by (simp only: e)
    then have "getall_result cnt (Some ((0, got), client, log)) = Some ((0, Some vals), client, log)"
      by (rule values_arrive) (use assms(3) v(2) cnt(2) in \<open>simp_all add: prepare_response_def\<close>)
    then show ?thesis by (simp only: v(1) sum.case)
  qed
qed

text \<open>
  C21. The calls that read data return exactly what the store holds. When a STAT or GETALL request of the client has been
  dispatched on a well-formed store and the response has arrived, the client returns the metadata, respectively the array of values,
  that the store operation yields, or its error, and keeps the connection.
\<close>

theorem data_calls_read_the_store:
  assumes "store_wf st" and "8192 \<le> length buf" and "8192 \<le> length (pk_payload rsp)"
  shows "(delivered clk mem st actor (numbered n (semid_request buf TGC_OPCODE_STAT semid)) rsp got \<longrightarrow>
      metadata_result (Some ((0, got), client, log)) =
        Some (case tgc_sem_store_get_metadata st semid of Inl e \<Rightarrow> (e, None) | Inr m \<Rightarrow> (0, Some m), client, log)) \<and>
    (delivered clk mem st actor (numbered n (semnum_request buf TGC_OPCODE_GETALL semid (ucast cnt))) rsp got \<and>
      0 < unat cnt \<and> unat cnt \<le> TGC_SEM_MAX_PER_SET \<longrightarrow>
      getall_result cnt (Some ((0, got), client, log)) =
        Some (case tgc_sem_store_getall st semid (unat cnt) of Inl e \<Rightarrow> (e, None) | Inr vals \<Rightarrow> (0, Some vals), client, log))"
  using data_calls [OF assms] by blast

lemma same_packet_refl: "same_packet p p"
  by (simp add: same_packet_def)

theorem data_calls_read_the_store_witness:
  "\<exists>got. delivered (Some 5) True demo_store demo_actor
       (numbered 9 (semnum_request (replicate 8192 0) TGC_OPCODE_GETALL 0x10001 3)) (demo_request 0 0 (replicate 8192 0)) got \<and>
     getall_result 3 (Some ((0, got), demo_client, [])) = Some ((0, Some [0, 0, 0]), demo_client, [])"
proof -
  let ?q = "numbered 9 (semnum_request (replicate 8192 0) TGC_OPCODE_GETALL 0x10001 3)"
  let ?p = "demo_request 0 0 (replicate 8192 0)"
  obtain r st' out where "dispatch_opcode (Some 5) True demo_store ?q demo_actor (prepare_response ?q ?p) = (r, st', out)"
    by (rule prod_cases3)
  moreover define got where "got = finish_response r out"
  ultimately have "tgc_broker_dispatch (Some 5) True demo_store ?q demo_actor ?p = Inr (st', got)"
    by (simp add: tgc_broker_dispatch_def semnum_request_def demo_actor_def Let_def)
  then have d: "delivered (Some 5) True demo_store demo_actor ?q ?p got"
    using same_packet_refl unfolding delivered_def by blast
  have three: "replicate 3 (0 :: u16) = [0, 0, 0]" by (simp add: numeral_3_eq_3)
  have "tgc_sem_store_getall demo_store 0x10001 3 = Inr [0, 0, 0]"
    using three by (simp add: tgc_sem_store_getall_def find_const_set_def demo_find demo_set_simps)
  then have "getall_result 3 (Some ((0, got), demo_client, [])) = Some ((0, Some [0, 0, 0]), demo_client, [])"
    using data_calls_read_the_store [OF demo_wf, of "replicate 8192 0" ?p "Some 5" True demo_actor 9 "0x10001" got demo_client "[]" 3] d
    by (simp add: demo_request_def)
  then show ?thesis using d by blast
qed

end
