(* ===== verification/Tgc_Glibc.thy ===== *)
theory Tgc_Glibc
  imports Tgc_Client
begin

text \<open>
  The entry points glibc calls, from
  \<^verbatim>\<open>src/reference-termux-glibc-compat/integration/termux-glibc/overlay/tgcompat-glibc.c\<close>: one client per thread,
  set up on first use, and the C library's convention of returning \<open>-1\<close> with \<^verbatim>\<open>errno\<close>.
\<close>

section \<open>Thread state\<close>

text \<open>
  \<open>th_cleanup_key\<close> is the process-wide \<^verbatim>\<open>client_cleanup_error\<close>: \<open>None\<close> until the key was created once, then the
  error number of that attempt.
\<close>

record libc_thread =
  th_client :: tgc_client
  th_client_initialized :: bool
  th_cleanup_key :: "s32 option"
  th_errno :: s32

text \<open>
  \<open>lv_socket\<close>: \<^verbatim>\<open>secure_getenv("TGCOMPAT_SOCKET")\<close>; \<open>lv_once\<close>, \<open>lv_key_create\<close>, \<open>lv_setspecific\<close>: results of the pthread
  calls; \<open>lv_calls\<close>: what each of the (at most two) client calls meets.
\<close>

record libc_env =
  lv_socket :: "string option"
  lv_once :: s32
  lv_key_create :: s32
  lv_setspecific :: s32
  lv_call :: client_env
  lv_second_call :: client_env

text \<open>The value returned to the program, and the thread with its \<^verbatim>\<open>errno\<close>; \<open>None\<close> when the call blocks.\<close>

type_synonym 'a libc_result = "('a \<times> libc_thread \<times> client_event list) option"

definition set_errno :: "s32 \<Rightarrow> libc_thread \<Rightarrow> libc_thread" where
  "set_errno e thread = thread\<lparr>th_errno := e\<rparr>"

text \<open>The destructor of the cleanup key, run when the thread ends.\<close>

definition close_thread_client :: "libc_thread \<Rightarrow> libc_thread \<times> client_event list" where
  "close_thread_client thread =
     (let (client, log) = tgc_client_close (th_client thread) in
      (thread\<lparr>th_client := client, th_client_initialized := False\<rparr>, log))"

definition create_client_cleanup_key :: "libc_env \<Rightarrow> libc_thread \<Rightarrow> libc_thread" where
  "create_client_cleanup_key env thread =
     (if lv_once env = 0 \<and> th_cleanup_key thread = None
      then thread\<lparr>th_cleanup_key := Some (lv_key_create env)\<rparr> else thread)"

text \<open>The flag says whether there is a client.\<close>

definition client_for_thread :: "libc_env \<Rightarrow> libc_thread \<Rightarrow> bool \<times> libc_thread \<times> client_event list" where
  "client_for_thread env thread =
     (if th_client_initialized thread then (True, thread, [])
      else
        case lv_socket env of
          None \<Rightarrow> (False, set_errno ENOSYS thread, [])
        | Some path \<Rightarrow>
            if path = [] then (False, set_errno ENOSYS thread, [])
            else
              let thread = create_client_cleanup_key env thread;
                  r = (if lv_once env \<noteq> 0 then lv_once env
                       else case th_cleanup_key thread of None \<Rightarrow> 0 | Some e \<Rightarrow> e)
              in if r \<noteq> 0 then (False, set_errno r thread, [])
                 else
                   case tgc_client_init (Some path) of
                     (r, None) \<Rightarrow> (False, set_errno (- r) thread, [])
                   | (r, Some client) \<Rightarrow>
                       let thread = thread\<lparr>th_client := client\<rparr> in
                       if lv_setspecific env \<noteq> 0 then
                         let (client, log) = tgc_client_close client in
                         (False, set_errno (lv_setspecific env) (thread\<lparr>th_client := client\<rparr>), log)
                       else (True, thread\<lparr>th_client_initialized := True\<rparr>, []))"

definition libc_result :: "s32 \<Rightarrow> libc_thread \<Rightarrow> s32 \<times> libc_thread" where
  "libc_result r thread = (if negative r then (- 1, set_errno (- r) thread) else (r, thread))"

text \<open>Failing before any client is needed, and running a client call on the thread's client.\<close>

definition libc_error :: "s32 \<Rightarrow> libc_thread \<Rightarrow> s32 libc_result" where
  "libc_error e thread = Some (- 1, set_errno e thread, [])"

definition with_client :: "libc_env \<Rightarrow> libc_thread \<Rightarrow> (tgc_client \<Rightarrow> s32 call_result) \<Rightarrow> s32 libc_result" where
  "with_client env thread call =
     (case client_for_thread env thread of
        (False, thread, log) \<Rightarrow> Some (- 1, thread, log)
      | (True, thread, log) \<Rightarrow>
          (case call (th_client thread) of
             None \<Rightarrow> None
           | Some (r, client, log') \<Rightarrow>
               let (r, thread) = libc_result r (thread\<lparr>th_client := client\<rparr>) in Some (r, thread, log @ log')))"

text \<open>The same for calls that also write to the caller's buffer.\<close>

definition with_client_data ::
  "libc_env \<Rightarrow> libc_thread \<Rightarrow> (tgc_client \<Rightarrow> (s32 \<times> 'a option) call_result) \<Rightarrow> (s32 \<times> 'a option) libc_result" where
  "with_client_data env thread call =
     (case client_for_thread env thread of
        (False, thread, log) \<Rightarrow> Some ((- 1, None), thread, log)
      | (True, thread, log) \<Rightarrow>
          (case call (th_client thread) of
             None \<Rightarrow> None
           | Some ((r, data), client, log') \<Rightarrow>
               let (r, thread) = libc_result r (thread\<lparr>th_client := client\<rparr>) in Some ((r, data), thread, log @ log')))"

section \<open>Entry points\<close>

definition glibc_semget :: "libc_env \<Rightarrow> libc_thread \<Rightarrow> s32 \<Rightarrow> s32 \<Rightarrow> s32 \<Rightarrow> s32 libc_result" where
  "glibc_semget env thread key nsems semflg =
     with_client env thread (\<lambda>client. tgc_client_semget (lv_call env) client key nsems semflg)"

definition glibc_remove :: "libc_env \<Rightarrow> libc_thread \<Rightarrow> s32 \<Rightarrow> s32 libc_result" where
  "glibc_remove env thread semid = with_client env thread (\<lambda>client. tgc_client_remove (lv_call env) client semid)"

definition glibc_semnum_call ::
  "libc_env \<Rightarrow> libc_thread \<Rightarrow> s32 \<Rightarrow> s32 \<Rightarrow> (client_env \<Rightarrow> tgc_client \<Rightarrow> s32 \<Rightarrow> u64 \<Rightarrow> s32 call_result) \<Rightarrow> s32 libc_result" where
  "glibc_semnum_call env thread semid semnum operation =
     (if negative semnum then libc_error EINVAL thread
      else with_client env thread (\<lambda>client. operation (lv_call env) client semid (scast semnum)))"

definition glibc_getval :: "libc_env \<Rightarrow> libc_thread \<Rightarrow> s32 \<Rightarrow> s32 \<Rightarrow> s32 libc_result" where
  "glibc_getval env thread semid semnum = glibc_semnum_call env thread semid semnum tgc_client_getval"

definition glibc_setval :: "libc_env \<Rightarrow> libc_thread \<Rightarrow> s32 \<Rightarrow> s32 \<Rightarrow> s32 \<Rightarrow> s32 libc_result" where
  "glibc_setval env thread semid semnum val =
     (if negative semnum \<or> negative val then libc_error EINVAL thread
      else with_client env thread (\<lambda>client. tgc_client_setval (lv_call env) client semid (scast semnum) val))"

definition glibc_getpid :: "libc_env \<Rightarrow> libc_thread \<Rightarrow> s32 \<Rightarrow> s32 \<Rightarrow> s32 libc_result" where
  "glibc_getpid env thread semid semnum = glibc_semnum_call env thread semid semnum tgc_client_getpid"

definition glibc_getncnt :: "libc_env \<Rightarrow> libc_thread \<Rightarrow> s32 \<Rightarrow> s32 \<Rightarrow> s32 libc_result" where
  "glibc_getncnt env thread semid semnum = glibc_semnum_call env thread semid semnum tgc_client_getncnt"

definition glibc_getzcnt :: "libc_env \<Rightarrow> libc_thread \<Rightarrow> s32 \<Rightarrow> s32 \<Rightarrow> s32 libc_result" where
  "glibc_getzcnt env thread semid semnum = glibc_semnum_call env thread semid semnum tgc_client_getzcnt"

text \<open>The number of semaphores of a set, asked from the broker.\<close>

definition semaphore_count :: "client_env \<Rightarrow> tgc_client \<Rightarrow> s32 \<Rightarrow> (s32 \<times> u64) call_result" where
  "semaphore_count env client semid =
     map_option (\<lambda>((r, metadata), client, log).
         (if r \<noteq> 0 then (r, 0)
          else case metadata of
                 None \<Rightarrow> (r, 0)
               | Some m \<Rightarrow>
                   if m_nsems m = 0 \<or> unat (m_nsems m) > TGC_SEM_MAX_PER_SET then (- EPROTO, 0)
                   else (0, ucast (m_nsems m)),
          client, log))
       (tgc_client_stat env client semid True)"

definition glibc_getall ::
  "libc_env \<Rightarrow> libc_thread \<Rightarrow> s32 \<Rightarrow> bool \<Rightarrow> (s32 \<times> u16 list option) libc_result" where
  "glibc_getall env thread semid wanted =
     (if \<not> wanted then Some ((- 1, None), set_errno EFAULT thread, [])
      else with_client_data env thread (\<lambda>client.
        case semaphore_count (lv_call env) client semid of
          None \<Rightarrow> None
        | Some ((r, count), client, log) \<Rightarrow>
            if r \<noteq> 0 then Some ((r, None), client, log)
            else map_option (\<lambda>(out, client, log'). (out, client, log @ log'))
                   (tgc_client_getall (lv_second_call env) client semid True count)))"

text \<open>\<open>vals\<close> is the memory the caller's pointer refers to; the source reads as many elements as the set has.\<close>

definition glibc_setall ::
  "libc_env \<Rightarrow> libc_thread \<Rightarrow> s32 \<Rightarrow> u16 list option \<Rightarrow> s32 libc_result" where
  "glibc_setall env thread semid vals =
     (case vals of
        None \<Rightarrow> libc_error EFAULT thread
      | Some vs \<Rightarrow> with_client env thread (\<lambda>client.
          case semaphore_count (lv_call env) client semid of
            None \<Rightarrow> None
          | Some ((r, count), client, log) \<Rightarrow>
              if r \<noteq> 0 then Some (r, client, log)
              else map_option (\<lambda>(out, client, log'). (out, client, log @ log'))
                     (tgc_client_setall (lv_second_call env) client semid (Some (take (unat count) vs)))))"

definition glibc_stat ::
  "libc_env \<Rightarrow> libc_thread \<Rightarrow> s32 \<Rightarrow> bool \<Rightarrow> (s32 \<times> tgc_sem_metadata option) libc_result" where
  "glibc_stat env thread semid wanted =
     (if \<not> wanted then Some ((- 1, None), set_errno EFAULT thread, [])
      else with_client_data env thread (\<lambda>client. tgc_client_stat (lv_call env) client semid True))"

definition glibc_stat_index ::
  "libc_env \<Rightarrow> libc_thread \<Rightarrow> s32 \<Rightarrow> bool \<Rightarrow> (s32 \<times> tgc_sem_metadata option) libc_result" where
  "glibc_stat_index env thread index wanted =
     (if negative index \<or> \<not> wanted
      then Some ((- 1, None), set_errno (if negative index then EINVAL else EFAULT) thread, [])
      else with_client_data env thread (\<lambda>client. tgc_client_stat_index (lv_call env) client (scast index) True))"

definition glibc_set_metadata ::
  "libc_env \<Rightarrow> libc_thread \<Rightarrow> s32 \<Rightarrow> u32 \<Rightarrow> u32 \<Rightarrow> u32 \<Rightarrow> s32 libc_result" where
  "glibc_set_metadata env thread semid uid gid mode =
     with_client env thread (\<lambda>client. tgc_client_set_metadata (lv_call env) client semid uid gid mode)"

definition glibc_info ::
  "libc_env \<Rightarrow> libc_thread \<Rightarrow> s32 \<Rightarrow> bool \<Rightarrow> (s32 \<times> tgc_sem_info option) libc_result" where
  "glibc_info env thread dynamic wanted =
     (if \<not> wanted then Some ((- 1, None), set_errno EFAULT thread, [])
      else with_client_data env thread (\<lambda>client. tgc_client_info (lv_call env) client dynamic True))"

text \<open>
  \<^verbatim>\<open>struct sembuf\<close> has the same fields as \<open>tgc_sem_op\<close> with signed flags; the conversion keeps the bits. \<open>timeout\<close> is the
  pair of seconds and nanoseconds when \<^verbatim>\<open>has_timeout\<close> is set.
\<close>

definition INT64_MAX :: int where [simp]: "INT64_MAX = 9223372036854775807"

definition glibc_semtimedop ::
  "libc_env \<Rightarrow> libc_thread \<Rightarrow> s32 \<Rightarrow> tgc_sem_op list option \<Rightarrow> (s64 \<times> s64) option \<Rightarrow> s32 libc_result" where
  "glibc_semtimedop env thread semid operations timeout =
     (case operations of
        None \<Rightarrow> libc_error EINVAL thread
      | Some ops \<Rightarrow>
          if ops = [] \<or> length ops > TGC_SEM_MAX_PER_SET \<or>
             (case timeout of None \<Rightarrow> False | Some (s, n) \<Rightarrow> sint s < 0 \<or> sint n < 0 \<or> sint n \<ge> 1000000000)
          then libc_error EINVAL thread
          else
            case timeout of
              None \<Rightarrow> with_client env thread (\<lambda>client. tgc_client_semop (lv_call env) client semid (Some ops))
            | Some (s, n) \<Rightarrow>
                if sint s > (INT64_MAX - sint n) div 1000000000 then libc_error EOVERFLOW thread
                else with_client env thread (\<lambda>client.
                  tgc_client_semtimedop (lv_call env) client semid (Some ops) (s * 1000000000 + n)))"

end
