(* ===== verification/Tgc_Glibc_Props.thy ===== *)
theory Tgc_Glibc_Props
  imports Tgc_Client_Props Tgc_Glibc
begin

text \<open>
  The entry points of the C library against the client: the \<^verbatim>\<open>errno\<close> convention, the conversion of arguments and the
  set-up of the client of a thread.
\<close>

section \<open>The convention\<close>

text \<open>
  What the C library makes of the outcome of a client call: a negative result becomes \<open>-1\<close> with its negation in
  \<^verbatim>\<open>errno\<close>, any other result is passed on and \<^verbatim>\<open>errno\<close> is left alone.
\<close>

definition errno_convention :: "libc_thread \<Rightarrow> s32 call_result \<Rightarrow> s32 libc_result" where
  "errno_convention thread outcome =
     map_option (\<lambda>(r, client, log).
         (if negative r then - 1 else r,
          thread\<lparr>th_client := client, th_errno := (if negative r then - r else th_errno thread)\<rparr>, log)) outcome"

lemma with_client_ready:
  "th_client_initialized thread \<Longrightarrow> with_client env thread call = errno_convention thread (call (th_client thread))"
  by (auto simp: with_client_def client_for_thread_def errno_convention_def libc_result_def set_errno_def split: option.split)

lemma with_client_set_up:
  "client_for_thread env thread = (True, thread1, []) \<Longrightarrow> with_client env thread call = errno_convention thread1 (call (th_client thread1))"
  by (auto simp: with_client_def errno_convention_def libc_result_def set_errno_def split: option.split)

lemma scast_nonneg: "\<not> negative n \<Longrightarrow> (scast n :: u64) = ucast n"
  using sint_nonneg_eq [of n] by (simp add: scast_eq unsigned_ucast_eq word_unat_eq_iff flip: word_of_nat_eq_0_iff)

section \<open>Timeouts\<close>

lemma timeout_words:
  fixes s n :: s64
  assumes "0 \<le> sint s" "0 \<le> sint n" "sint s * 1000000000 + sint n \<le> INT64_MAX"
  shows "s * 1000000000 + n = word_of_int (sint s * 1000000000 + sint n)"
    and "sint (word_of_int (sint s * 1000000000 + sint n) :: s64) = sint s * 1000000000 + sint n"
proof -
  show "s * 1000000000 + n = word_of_int (sint s * 1000000000 + sint n)"
    by (simp flip: wi_hom_add wi_hom_mult)
  show "sint (word_of_int (sint s * 1000000000 + sint n) :: s64) = sint s * 1000000000 + sint n"
    unfolding sint_sbintrunc' using assms by (intro signed_take_bit_int_eq_self) simp_all
qed

lemma timeout_limit:
  fixes s n :: int
  assumes "0 \<le> s" "0 \<le> n" "n < 1000000000"
  shows "s > (INT64_MAX - n) div 1000000000 \<longleftrightarrow> s * 1000000000 + n > INT64_MAX"
  using assms by (simp add: div_less_iff_less_mult) linarith

section \<open>Entry points\<close>

text \<open>An argument refused at once: \<open>-1\<close>, \<^verbatim>\<open>errno\<close>, and nothing is done to any descriptor.\<close>

abbreviation refused :: "s32 \<Rightarrow> libc_thread \<Rightarrow> s32 libc_result" where
  "refused e thread \<equiv> Some (- 1, thread\<lparr>th_errno := e\<rparr>, [])"

text \<open>The call of the client made for the thread.\<close>

abbreviation thread_call :: "libc_env \<Rightarrow> libc_thread \<Rightarrow> sem_call \<Rightarrow> s32 libc_result" where
  "thread_call env thread c \<equiv> errno_convention thread (client_call (lv_call env) (th_client thread) c)"

text \<open>
  The entry points that return one number and take one exchange with the broker, with the arguments of the C functions; \<^verbatim>\<open>semop\<close> is \<^verbatim>\<open>semtimedop\<close> without a timeout. Those that fill
  a buffer of the caller (\<^verbatim>\<open>GETALL\<close>, \<^verbatim>\<open>IPC_STAT\<close>, \<^verbatim>\<open>SEM_STAT\<close>, \<^verbatim>\<open>IPC_INFO\<close>) and \<^verbatim>\<open>SETALL\<close>, which asks for the size of the set first, are not among them.
\<close>

datatype libc_call =
    Libc_Semget s32 s32 s32
  | Libc_Remove s32
  | Libc_Getval s32 s32
  | Libc_Getpid s32 s32
  | Libc_Getncnt s32 s32
  | Libc_Getzcnt s32 s32
  | Libc_Setval s32 s32 s32
  | Libc_Semtimedop s32 "tgc_sem_op list option" "(s64 \<times> s64) option"
  | Libc_Set_Metadata s32 u32 u32 u32

fun glibc_call :: "libc_env \<Rightarrow> libc_thread \<Rightarrow> libc_call \<Rightarrow> s32 libc_result" where
  "glibc_call env thread (Libc_Semget key nsems semflg) = glibc_semget env thread key nsems semflg"
| "glibc_call env thread (Libc_Remove semid) = glibc_remove env thread semid"
| "glibc_call env thread (Libc_Getval semid semnum) = glibc_getval env thread semid semnum"
| "glibc_call env thread (Libc_Getpid semid semnum) = glibc_getpid env thread semid semnum"
| "glibc_call env thread (Libc_Getncnt semid semnum) = glibc_getncnt env thread semid semnum"
| "glibc_call env thread (Libc_Getzcnt semid semnum) = glibc_getzcnt env thread semid semnum"
| "glibc_call env thread (Libc_Setval semid semnum val) = glibc_setval env thread semid semnum val"
| "glibc_call env thread (Libc_Semtimedop semid operations timeout) = glibc_semtimedop env thread semid operations timeout"
| "glibc_call env thread (Libc_Set_Metadata semid uid gid mode) = glibc_set_metadata env thread semid uid gid mode"

text \<open>
  What a call stands for: the error it is refused with, or the operation of the store. A timeout is meant in nanoseconds, as an exact number.
\<close>

definition at_semaphore :: "s32 \<Rightarrow> (u32 \<Rightarrow> sem_call) \<Rightarrow> s32 + sem_call" where
  "at_semaphore semnum operation = (if sint semnum < 0 then Inl EINVAL else Inr (operation semnum))"

definition timed_operation :: "s32 \<Rightarrow> tgc_sem_op list \<Rightarrow> s64 \<Rightarrow> s64 \<Rightarrow> s32 + sem_call" where
  "timed_operation semid ops s n =
     (let t = sint s * 1000000000 + sint n in
      if sint s < 0 \<or> sint n < 0 \<or> sint n \<ge> 1000000000 then Inl EINVAL
      else if t > INT64_MAX then Inl EOVERFLOW else Inr (Semop semid ops (Some (word_of_int t))))"

fun libc_operation :: "libc_call \<Rightarrow> s32 + sem_call" where
  "libc_operation (Libc_Semget key nsems semflg) = Inr (Semget key nsems semflg)"
| "libc_operation (Libc_Remove semid) = Inr (Remove semid)"
| "libc_operation (Libc_Getval semid semnum) = at_semaphore semnum (Getval semid)"
| "libc_operation (Libc_Getpid semid semnum) = at_semaphore semnum (Getpid semid)"
| "libc_operation (Libc_Getncnt semid semnum) = at_semaphore semnum (Getncnt semid)"
| "libc_operation (Libc_Getzcnt semid semnum) = at_semaphore semnum (Getzcnt semid)"
| "libc_operation (Libc_Setval semid semnum val) = (if sint val < 0 then Inl EINVAL else at_semaphore semnum (\<lambda>n. Setval semid n val))"
| "libc_operation (Libc_Semtimedop semid None timeout) = Inl EINVAL"
| "libc_operation (Libc_Semtimedop semid (Some ops) timeout) =
     (if ops = [] \<or> length ops > TGC_SEM_MAX_PER_SET then Inl EINVAL
      else case timeout of None \<Rightarrow> Inr (Semop semid ops None) | Some (s, n) \<Rightarrow> timed_operation semid ops s n)"
| "libc_operation (Libc_Set_Metadata semid uid gid mode) = Inr (Setmeta semid uid gid mode)"

lemmas glibc_entries = glibc_semget_def glibc_remove_def glibc_getval_def glibc_getpid_def glibc_getncnt_def glibc_getzcnt_def glibc_semnum_call_def
  glibc_setval_def glibc_set_metadata_def

lemma glibc_call_refused:
  assumes "libc_operation c = Inl e"
  shows "glibc_call env thread c = refused e thread"
proof (cases c)
  case (Libc_Semtimedop semid operations timeout)
  then show ?thesis using assms
    by (cases operations) (auto simp: glibc_semtimedop_def timed_operation_def timeout_limit Let_def libc_error_def set_errno_def split: if_splits option.splits prod.splits)
qed (use assms in \<open>auto simp: glibc_entries at_semaphore_def libc_error_def set_errno_def split: if_splits\<close>)

lemma glibc_call_sends:
  assumes "libc_operation c = Inr operation"
  shows "glibc_call env thread c = with_client env thread (\<lambda>client. client_call (lv_call env) client operation) \<and> call_ok operation"
proof (cases c)
  case (Libc_Semtimedop semid operations timeout)
  then show ?thesis using assms timeout_words
    by (cases operations) (auto simp: glibc_semtimedop_def timed_operation_def timeout_limit Let_def split: if_splits option.splits prod.splits)
qed (use assms in \<open>auto simp: glibc_entries at_semaphore_def scast_nonneg split: if_splits\<close>)

text \<open>
  C22. A semaphore call of the C library is the operation of the store, from the program to the broker and back. The arguments say which operation a call stands for: a negative semaphore
  number or value, a bad list of operations or a timeout out of range is refused with EINVAL, a timeout of more than 63 bits of nanoseconds with EOVERFLOW, and then nothing
  is sent and no client is needed. Otherwise, when the thread has its client or could set it up, its request goes out and the broker receives it, the broker applies exactly that
  operation to its store; and when the answer reaches the client uninterrupted, the program gets the result, or \<open>-1\<close> with the error in \<^verbatim>\<open>errno\<close> when it is negative, and \<^verbatim>\<open>errno\<close> is
  otherwise left alone. As for the calls of the client, operations that block and the watching of processes for undo are left to the broker's own theorems. The calls
  are the nine of \<open>libc_call\<close>.
\<close>

theorem glibc_call_is_store_operation:
  assumes "libc_operation c = Inr operation" and "client_for_thread env thread = (True, thread1, [])" and "cv = lv_call env"
    and "8192 \<le> length (cv_request cv)" and "24 \<le> length (cv_wire cv)"
    and "ensure_connection cv (th_client thread1) = (0, client1, log)"
    and "tgc_transport_send (cv_wire cv) (cv_send cv)
      (numbered (next_request_id (cl_next_request_id client1)) (call_request (cv_request cv) operation)) = Some (0, sent)"
    and "Send_Error 0 \<notin> set (cv_send cv)"
    and "stream_bytes up = sent @ tail" and "tgc_transport_receive up buffer = Some (r, rq, up')"
    and "e_lock benv = 0" and "0 < sint (ac_pid actor)"
    and "request_uses_undo rq \<Longrightarrow> fst (watch_process (e_kernel benv) broker (ac_pid actor)) = 0"
    and "store_call (e_realtime benv) (e_memory benv) (br_store broker) actor operation = (v, store')" and "\<not> call_blocks operation v"
  shows "(\<exists>response broker' signalled.
      serve_received benv benv' broker a r rq actor rsp = Some (Sending response, broker', signalled) \<and>
      br_store broker' = store' \<and>
      (\<forall>wire0 down answer. tgc_transport_send wire0 down response = Some (0, answer) \<and> Send_Error 0 \<notin> set down \<and>
          24 \<le> length wire0 \<and> stream_bytes (cv_recv cv) = answer \<and> Recv_Error EINTR \<notin> set (cv_recv cv) \<longrightarrow>
        glibc_call env thread c =
          Some (if negative v then - 1 else v,
            thread1\<lparr>th_client := after_exchange client1, th_errno := if negative v then - v else th_errno thread1\<rparr>,
            log @ [Sent (cl_socket_fd client1) sent]))) \<and>
    (\<forall>c' e. libc_operation c' = Inl e \<longrightarrow> glibc_call env thread c' = Some (- 1, thread\<lparr>th_errno := e\<rparr>, []))"
proof -
  note sends = glibc_call_sends [OF assms(1), of env thread]
  have "glibc_call env thread c = errno_convention thread1 (client_call cv (th_client thread1) operation)"
    using sends with_client_set_up [OF assms(2)] assms(3) by simp
  with call_served [OF conjunct2 [OF sends] assms(4-15)] glibc_call_refused show ?thesis
    by (fastforce simp: errno_convention_def simp del: client_call.simps)
qed

definition demo_thread :: libc_thread where
  "demo_thread = \<lparr>th_client = demo_client, th_client_initialized = True, th_cleanup_key = Some 0, th_errno = 0\<rparr>"

definition demo_libc_env :: libc_env where
  "demo_libc_env = \<lparr>lv_socket = Some ''/run/s'', lv_once = 0, lv_key_create = 0, lv_setspecific = 0,
     lv_call = demo_client_env [], lv_second_call = demo_client_env []\<rparr>"

theorem glibc_call_is_store_operation_witness:
  "\<exists>sent rq response broker' answer env.
     serve_received demo_env demo_env new_broker 0 0 rq demo_actor demo_response = Some (Sending response, broker', False) \<and>
     br_store broker' = demo_store \<and> env = demo_libc_env\<lparr>lv_call := demo_client_env [Recv_Data answer]\<rparr> \<and>
     glibc_call env demo_thread (Libc_Semget 77 3 0x380) =
       Some (0x10001, demo_thread\<lparr>th_client := demo_client\<lparr>cl_next_request_id := 9\<rparr>\<rparr>, [Sent 5 sent]) \<and>
     glibc_call env demo_thread (Libc_Getval 0x10001 (- 1)) = Some (- 1, demo_thread\<lparr>th_errno := EINVAL\<rparr>, [])"
proof -
  obtain sent rq up' where up: "tgc_transport_send (replicate 8216 0) [Send_Count 9000]
       (numbered 9 (call_request (replicate 8192 0) demo_call)) = Some (0, sent)"
     "tgc_transport_receive [Recv_Data sent] demo_response = Some (0, rq, up')"
     "same_packet (numbered 9 (call_request (replicate 8192 0) demo_call)) rq"
    by (rule call_goes_through [of demo_call 9]) simp_all
  obtain response broker' answer where served: "serve_received demo_env demo_env new_broker 0 0 rq demo_actor demo_response = Some (Sending response, broker', False)"
    and answer: "tgc_transport_send (replicate 8216 0) [Send_Count 9000] response = Some (0, answer)"
    using demo_call_served [OF up(3)] by blast
  let ?env = "demo_libc_env\<lparr>lv_call := demo_client_env [Recv_Data answer]\<rparr>"
  have store: "store_call (e_realtime demo_env) (e_memory demo_env) (br_store new_broker) demo_actor demo_call = (0x10001, demo_store)"
    using demo_get by (simp add: demo_env_def new_broker_def demo_actor_def)
  have no_undo: "\<not> request_uses_undo rq" using arrived_request(1) [OF up(3)] by (simp add: semget_request_def Let_def request_uses_undo_def)
  have thread: "client_for_thread ?env demo_thread = (True, demo_thread, [])" by (simp add: client_for_thread_def demo_thread_def)
  have ready: "libc_operation (Libc_Semget 77 3 0x380) = Inr demo_call" "ensure_connection (lv_call ?env) (th_client demo_thread) = (0, demo_client, [])"
    by (simp_all add: demo_thread_def)
  have h: "8192 \<le> length (cv_request (lv_call ?env))" "24 \<le> length (cv_wire (lv_call ?env))" "Send_Error 0 \<notin> set (cv_send (lv_call ?env))"
      "stream_bytes [Recv_Data sent] = sent @ []" "e_lock demo_env = 0" "0 < sint (ac_pid demo_actor)" "\<not> call_blocks demo_call 0x10001"
      "tgc_transport_send (cv_wire (lv_call ?env)) (cv_send (lv_call ?env))
        (numbered (next_request_id (cl_next_request_id demo_client)) (call_request (cv_request (lv_call ?env)) demo_call)) = Some (0, sent)"
    using up(1) by (simp_all add: demo_env_def demo_actor_def del: call_request.simps)
  have undo: "request_uses_undo rq \<Longrightarrow> fst (watch_process (e_kernel demo_env) new_broker (ac_pid demo_actor)) = 0" using no_undo by simp
  note facts = glibc_call_is_store_operation [OF ready(1) thread refl h(1,2) ready(2) h(8,3,4) up(2) h(5,6) undo store h(7), of demo_env 0 demo_response]
  obtain response2 broker2 s2 where run: "serve_received demo_env demo_env new_broker 0 0 rq demo_actor demo_response = Some (Sending response2, broker2, s2)" "br_store broker2 = demo_store"
      "\<forall>wire0 down ans. tgc_transport_send wire0 down response2 = Some (0, ans) \<and> Send_Error 0 \<notin> set down \<and> 24 \<le> length wire0 \<and>
        stream_bytes (cv_recv (lv_call ?env)) = ans \<and> Recv_Error EINTR \<notin> set (cv_recv (lv_call ?env)) \<longrightarrow>
        glibc_call ?env demo_thread (Libc_Semget 77 3 0x380) = Some (if negative 0x10001 then - 1 else 0x10001,
          demo_thread\<lparr>th_client := after_exchange demo_client, th_errno := if negative 0x10001 then - 0x10001 else th_errno demo_thread\<rparr>, [] @ [Sent (cl_socket_fd demo_client) sent])"
    using facts [THEN conjunct1] by blast
  have same: "response2 = response" "broker2 = broker'" using served run(1) by simp_all
  have "glibc_call ?env demo_thread (Libc_Semget 77 3 0x380) = Some (0x10001, demo_thread\<lparr>th_client := after_exchange demo_client\<rparr>, [Sent 5 sent])"
    using run(3) [rule_format, of "replicate 8216 0" "[Send_Count 9000]" answer] answer same by (simp add: demo_thread_def del: glibc_call.simps)
  moreover note run(2) [unfolded same] facts [THEN conjunct2]
  moreover have "libc_operation (Libc_Getval 0x10001 (- 1)) = Inl EINVAL" by (simp add: at_semaphore_def)
  moreover have "after_exchange demo_client = demo_client\<lparr>cl_next_request_id := 9\<rparr>" by (simp add: after_exchange_def)
  ultimately show ?thesis using served
    by (intro exI [of _ sent] exI [of _ rq] exI [of _ response] exI [of _ broker'] exI [of _ answer] exI [of _ ?env]) (simp del: glibc_call.simps)
qed

text \<open>
  A timed wait is passed on exactly: seconds and nanoseconds in range become their exact sum in nanoseconds when it fits the 64 bits of
  the wire format, and the call fails with EOVERFLOW when it does not; out-of-range arguments fail with EINVAL. Nothing is
  sent in the failing cases, and no sum ever wraps around.
\<close>

theorem glibc_timeout_exact:
  assumes "th_client_initialized thread"
  shows "glibc_semtimedop env thread semid (Some ops) (Some (s, n)) =
    (if ops = [] \<or> length ops > TGC_SEM_MAX_PER_SET \<or> sint s < 0 \<or> sint n < 0 \<or> sint n \<ge> 1000000000 then refused EINVAL thread
     else if sint s * 1000000000 + sint n > 9223372036854775807 then refused EOVERFLOW thread
     else thread_call env thread (Semop semid ops (Some (word_of_int (sint s * 1000000000 + sint n))))) \<and>
    (0 \<le> sint s \<and> 0 \<le> sint n \<and> sint s * 1000000000 + sint n \<le> 9223372036854775807 \<longrightarrow>
      sint (word_of_int (sint s * 1000000000 + sint n) :: s64) = sint s * 1000000000 + sint n)"
  using assms timeout_limit [of "sint s" "sint n"] timeout_words [of s n]
  by (auto simp: glibc_semtimedop_def libc_error_def set_errno_def with_client_ready)

theorem glibc_timeout_exact_witness:
  "\<forall>env. glibc_semtimedop env demo_thread 0x10001 (Some demo_up) (Some (9223372036, 854775808)) = refused EOVERFLOW demo_thread \<and>
     glibc_semtimedop env demo_thread 0x10001 (Some demo_up) (Some (9223372036, 854775807)) =
       thread_call env demo_thread (Semop 0x10001 demo_up (Some 9223372036854775807))"
proof
  fix env
  have "th_client_initialized demo_thread" by (simp add: demo_thread_def)
  from glibc_timeout_exact [OF this, of env "0x10001" demo_up 9223372036 854775808]
    glibc_timeout_exact [OF this, of env "0x10001" demo_up 9223372036 854775807]
  show "glibc_semtimedop env demo_thread 0x10001 (Some demo_up) (Some (9223372036, 854775808)) = refused EOVERFLOW demo_thread \<and>
     glibc_semtimedop env demo_thread 0x10001 (Some demo_up) (Some (9223372036, 854775807)) =
       thread_call env demo_thread (Semop 0x10001 demo_up (Some 9223372036854775807))"
    by (simp add: demo_up_def)
qed

section \<open>Setting up the client of a thread\<close>

text \<open>
  The client of a thread is set up at most once and only with a usable socket path: a thread that has its client keeps it
  and nothing happens; otherwise the thread gets a fresh client without a connection exactly when the socket variable holds an absolute path
  shorter than a socket address and the cleanup of the thread could be registered, and else the call fails with \<^verbatim>\<open>errno\<close> set (ENOSYS
  without the variable), the thread stays without a client, and no descriptor is opened or closed.
\<close>

theorem thread_client_set_up:
  assumes "client_for_thread env thread = (ready, thread', log)"
  shows "log = [] \<and> (ready \<longleftrightarrow> th_client_initialized thread') \<and>
    (th_client_initialized thread \<longrightarrow> thread' = thread) \<and>
    (\<not> th_client_initialized thread \<longrightarrow>
      (ready \<longleftrightarrow> (\<exists>path. lv_socket env = Some path \<and> path \<noteq> [] \<and> hd path = CHR ''/'' \<and> length path < SUN_PATH_SIZE \<and>
        lv_once env = 0 \<and> (case th_cleanup_key thread of None \<Rightarrow> lv_key_create env | Some e \<Rightarrow> e) = 0 \<and> lv_setspecific env = 0)) \<and>
      (ready \<longrightarrow> cl_socket_fd (th_client thread') = - 1 \<and> lv_socket env = Some (cl_socket_path (th_client thread')) \<and>
        th_errno thread' = th_errno thread) \<and>
      (lv_socket env = None \<longrightarrow> \<not> ready \<and> th_errno thread' = ENOSYS))"
  using assms
  by (auto simp: client_for_thread_def create_client_cleanup_key_def tgc_client_init_def set_errno_def tgc_client_close_def Let_def
      split: option.splits if_splits prod.splits)

theorem thread_client_set_up_witness:
  "\<exists>thread'. client_for_thread demo_libc_env (demo_thread\<lparr>th_client_initialized := False, th_cleanup_key := None\<rparr>) = (True, thread', []) \<and>
     cl_socket_path (th_client thread') = ''/run/s''"
proof -
  let ?t = "demo_thread\<lparr>th_client_initialized := False, th_cleanup_key := None\<rparr>"
  obtain ready thread' log where c: "client_for_thread demo_libc_env ?t = (ready, thread', log)" by (rule prod_cases3)
  from thread_client_set_up [OF this] have "ready" "log = []" "lv_socket demo_libc_env = Some (cl_socket_path (th_client thread'))"
    by (auto simp: demo_libc_env_def)
  with c show ?thesis by (simp add: demo_libc_env_def)
qed

end
