(* ===== verification/Tgc_Daemon.thy ===== *)
theory Tgc_Daemon
  imports Tgc_Broker
begin

text \<open>
  The daemon of \<^verbatim>\<open>src/reference-termux-glibc-compat/src/tgcompatd.c\<close>: command line, start-up, the loop that accepts clients, the
  table of worker threads, and shutdown. What happens between two iterations of the loop, namely which workers finished and
  what the system calls return, is a \<open>turn\<close>; the daemon returns \<open>None\<close> while its script of turns leaves it waiting in \<^verbatim>\<open>poll\<close>.
\<close>

section \<open>Data\<close>

definition MAX_CLIENTS :: nat where [simp]: "MAX_CLIENTS = 64"

record client_worker =
  wk_expected_uid :: u32
  wk_socket_fd :: s32
  wk_result :: s32
  wk_done :: bool
  wk_active :: bool

text \<open>What the daemon does; \<open>Start\<close> and \<open>Join\<close> name the worker slot, \<open>Complain\<close> is a message on the standard error stream.\<close>

datatype daemon_event =
    Usage bool
  | Complain string s32
  | Rendezvous socket_effect
  | Resource resource_event
  | Accepted s32
  | Serve s32
  | Start nat
  | Join nat
  | Shutdown s32
  | Close_Client s32
  | Close_Fd s32
  | Make_Broker
  | Destroy_Broker
  | Init_Attributes
  | Destroy_Attributes
  | Unlink_Path string

section \<open>Workers\<close>

definition is_normal_client_disconnect :: "s32 \<Rightarrow> bool" where
  "is_normal_client_disconnect r \<longleftrightarrow> r = - EPIPE \<or> r = - ECONNRESET"

text \<open>The thread of worker \<open>i\<close> ends its connection with result \<open>r\<close>.\<close>

definition serve_client :: "client_worker list \<Rightarrow> nat \<times> s32 \<Rightarrow> client_worker list \<times> daemon_event list" where
  "serve_client workers done =
     (case done of (i, r) \<Rightarrow>
        if i < length workers \<and> wk_active (workers ! i) \<and> \<not> wk_done (workers ! i)
        then (workers[i := (workers ! i)\<lparr>wk_result := r, wk_done := True\<rparr>], [Close_Client (wk_socket_fd (workers ! i))])
        else (workers, []))"

definition report_worker_result :: "client_worker \<Rightarrow> daemon_event list" where
  "report_worker_result worker =
     (if wk_result worker \<noteq> 0 \<and> \<not> is_normal_client_disconnect (wk_result worker)
      then [Complain ''client'' (- wk_result worker)] else [])"

text \<open>The loops over the table, from slot \<open>i\<close> on.\<close>

fun reap_finished_workers :: "nat \<Rightarrow> client_worker list \<Rightarrow> client_worker list \<times> daemon_event list" where
  "reap_finished_workers i [] = ([], [])"
| "reap_finished_workers i (w # ws) =
     (let (ws, events) = reap_finished_workers (Suc i) ws in
      if \<not> wk_active w \<or> \<not> wk_done w then (w # ws, events)
      else (w\<lparr>wk_active := False\<rparr> # ws, Join i # report_worker_result w @ events))"

definition available_worker :: "client_worker list \<Rightarrow> nat option \<times> client_worker list \<times> daemon_event list" where
  "available_worker workers =
     (let (workers, events) = reap_finished_workers 0 workers in
      (first_index (\<lambda>w. \<not> wk_active w) workers, workers, events))"

fun join_workers :: "nat \<Rightarrow> client_worker list \<Rightarrow> client_worker list \<times> daemon_event list" where
  "join_workers i [] = ([], [])"
| "join_workers i (w # ws) =
     (let (ws, events) = join_workers (Suc i) ws in
      if \<not> wk_active w then (w # ws, events)
      else (w\<lparr>wk_active := False\<rparr> # ws, Join i # report_worker_result w @ events))"

fun finish_all :: "nat \<Rightarrow> (nat \<Rightarrow> s32) \<Rightarrow> client_worker list \<Rightarrow> client_worker list \<times> daemon_event list" where
  "finish_all i final [] = ([], [])"
| "finish_all i final (w # ws) =
     (let (ws, events) = finish_all (Suc i) final ws in
      if wk_active w \<and> \<not> wk_done w
      then (w\<lparr>wk_result := final i, wk_done := True\<rparr> # ws, Close_Client (wk_socket_fd w) # events)
      else (w # ws, events))"

text \<open>
  Every active connection is shut down, upon which its thread ends (\<open>final\<close> are the results of the threads), and every
  active thread is joined.
\<close>

definition stop_and_join_workers :: "(nat \<Rightarrow> s32) \<Rightarrow> client_worker list \<Rightarrow> client_worker list \<times> daemon_event list" where
  "stop_and_join_workers final workers =
     (let shutdowns = map (\<lambda>w. Shutdown (wk_socket_fd w)) (filter wk_active workers);
          (workers, finished) = finish_all 0 final workers;
          (workers, joined) = join_workers 0 workers
      in (workers, shutdowns @ finished @ joined))"

section \<open>Command line and signals\<close>

text \<open>\<open>Inl\<close> is an exit with success or failure; the arguments are those after the program name.\<close>

fun parse_arguments :: "string list \<Rightarrow> string option \<Rightarrow> bool \<Rightarrow> bool + string option \<times> bool" where
  "parse_arguments [] socket_path once = Inr (socket_path, once)"
| "parse_arguments (arg # rest) socket_path once =
     (if arg = ''--once'' then parse_arguments rest socket_path True
      else if arg = ''--socket'' \<and> rest \<noteq> [] then parse_arguments (tl rest) (Some (hd rest)) once
      else if arg = ''--help'' then Inl True
      else Inl False)"

text \<open>\<open>sg_sigset\<close>: errno of the set operations or 0; \<open>sg_mask\<close>: error number of \<^verbatim>\<open>pthread_sigmask\<close>; \<open>sg_signalfd\<close>: errno or descriptor.\<close>

record signal_env =
  sg_sigset :: s32
  sg_mask :: s32
  sg_signalfd :: "s32 + s32"

definition create_signal_fd :: "signal_env \<Rightarrow> s32" where
  "create_signal_fd env =
     (if sg_sigset env \<noteq> 0 then - sg_sigset env
      else if sg_mask env \<noteq> 0 then - sg_mask env
      else case sg_signalfd env of Inl errno \<Rightarrow> - errno | Inr fd \<Rightarrow> fd)"

section \<open>The loop\<close>

definition POLLIN :: u16 where [simp]: "POLLIN = 1"
definition POLL_FAILURE :: u16 where [simp]: "POLL_FAILURE = 0x38"
definition SIGINFO_SIZE :: nat where [simp]: "SIGINFO_SIZE = 128"

text \<open>
  \<open>tn_finished\<close>: the workers whose threads ended since the last iteration, with their results; \<open>tn_poll\<close>: errno, or the
  returned events of the signal descriptor and of the listener; \<open>tn_read\<close>, \<open>tn_accept\<close>: errno, or the number of bytes and the
  descriptor; \<open>tn_serve\<close>: result of serving the connection in place; \<open>tn_thread\<close>: result of \<^verbatim>\<open>pthread_create\<close>.
\<close>

record turn =
  tn_finished :: "(nat \<times> s32) list"
  tn_poll :: "s32 + u16 \<times> u16"
  tn_read :: "s32 + nat"
  tn_accept :: "s32 + s32"
  tn_serve :: s32
  tn_thread :: s32

text \<open>The threads that ended, one after the other.\<close>

fun finish_workers :: "client_worker list \<Rightarrow> (nat \<times> s32) list \<Rightarrow> client_worker list \<times> daemon_event list" where
  "finish_workers workers [] = (workers, [])"
| "finish_workers workers (d # ds) =
     (let (workers, events) = serve_client workers d; (workers, events') = finish_workers workers ds
      in (workers, events @ events'))"

definition new_worker :: "u32 \<Rightarrow> s32 \<Rightarrow> client_worker" where
  "new_worker uid client_fd =
     \<lparr>wk_expected_uid = uid, wk_socket_fd = client_fd, wk_result = 0, wk_done = False, wk_active = True\<rparr>"

text \<open>A new connection is handed to a worker.\<close>

definition start_client ::
  "u32 \<Rightarrow> s32 \<Rightarrow> s32 \<Rightarrow> client_worker list \<Rightarrow> client_worker list \<times> daemon_event list" where
  "start_client uid thread_result client_fd workers =
     (case available_worker workers of
        (None, workers, events) \<Rightarrow> (workers, events @ [Complain ''client limit reached'' 0, Close_Client client_fd])
      | (Some i, workers, events) \<Rightarrow>
          let worker = new_worker uid client_fd in
          if thread_result \<noteq> 0
          then (workers[i := worker\<lparr>wk_active := False\<rparr>],
                events @ [Complain ''pthread_create'' thread_result, Close_Client client_fd])
          else (workers[i := worker], events @ [Start i]))"

text \<open>
  One iteration: \<open>None\<close> goes on, \<open>Some failed\<close> leaves the loop.
\<close>

definition serve_turn ::
  "bool \<Rightarrow> u32 \<Rightarrow> client_worker list \<Rightarrow> turn \<Rightarrow> bool option \<times> client_worker list \<times> daemon_event list" where
  "serve_turn once uid workers t =
     (let (workers, ended) = finish_workers workers (tn_finished t) in
      case tn_poll t of
        Inl errno \<Rightarrow>
          if errno = EINTR then (None, workers, ended) else (Some True, workers, ended @ [Complain ''poll'' errno])
      | Inr (signal_events, listener_events) \<Rightarrow>
          if signal_events AND POLLIN \<noteq> 0 then
            (case tn_read t of
               Inl errno \<Rightarrow>
                 if errno = EAGAIN then (Some False, workers, ended)
                 else (Some True, workers, ended @ [Complain ''signal read'' errno])
             | Inr bytes \<Rightarrow>
                 if bytes = SIGINFO_SIZE then (Some False, workers, ended)
                 else (Some True, workers, ended @ [Complain ''signal read'' 0]))
          else if signal_events AND POLL_FAILURE \<noteq> 0 \<or> listener_events AND POLL_FAILURE \<noteq> 0 then
            (Some True, workers, ended @ [Complain ''poll descriptor failure'' 0])
          else if listener_events AND POLLIN = 0 then (None, workers, ended)
          else
            (case tn_accept t of
               Inl errno \<Rightarrow>
                 if errno = EINTR then (None, workers, ended)
                 else (Some True, workers, ended @ [Complain ''accept'' errno])
             | Inr client_fd \<Rightarrow>
                 if once then
                   (if tn_serve t \<noteq> 0 \<and> \<not> is_normal_client_disconnect (tn_serve t)
                    then (Some True, workers,
                          ended @ [Accepted client_fd, Serve client_fd, Close_Client client_fd, Complain ''client'' (- tn_serve t)])
                    else (Some False, workers, ended @ [Accepted client_fd, Serve client_fd, Close_Client client_fd]))
                 else
                   let (workers, events) = start_client uid (tn_thread t) client_fd workers
                   in (None, workers, ended @ [Accepted client_fd] @ events)))"

fun serve_loop ::
  "bool \<Rightarrow> u32 \<Rightarrow> client_worker list \<Rightarrow> turn list \<Rightarrow> (bool \<times> client_worker list \<times> daemon_event list) option" where
  "serve_loop once uid workers [] = None"
| "serve_loop once uid workers (t # ts) =
     (case serve_turn once uid workers t of
        (Some failed, workers, events) \<Rightarrow> Some (failed, workers, events)
      | (None, workers, events) \<Rightarrow>
          map_option (\<lambda>(failed, workers, events'). (failed, workers, events @ events')) (serve_loop once uid workers ts))"

section \<open>The program\<close>

record daemon_env =
  dv_socket_variable :: "string option"
  dv_signal :: signal_env
  dv_euid :: u32
  dv_listen :: socket_env
  dv_create :: create_env
  dv_attr_init :: s32
  dv_attr_setstacksize :: s32
  dv_turns :: "turn list"
  dv_final :: "nat \<Rightarrow> s32"
  dv_unlink :: s32

definition no_worker :: client_worker where
  "no_worker = \<lparr>wk_expected_uid = 0, wk_socket_fd = 0, wk_result = 0, wk_done = False, wk_active = False\<rparr>"

text \<open>From the running loop to the end of the program.\<close>

definition run_daemon :: "daemon_env \<Rightarrow> bool \<Rightarrow> string \<Rightarrow> s32 \<Rightarrow> s32 \<Rightarrow> (bool \<times> daemon_event list) option" where
  "run_daemon env once socket_path signal_fd listener_fd =
     map_option (\<lambda>(failed, workers, events).
         let (workers, stopped) = stop_and_join_workers (dv_final env) workers;
             unlink_failed = (dv_unlink env \<noteq> 0 \<and> dv_unlink env \<noteq> ENOENT)
         in (\<not> failed \<and> \<not> unlink_failed,
             events @ [Destroy_Attributes, Close_Fd listener_fd, Close_Fd signal_fd] @ stopped @
             [Destroy_Broker, Unlink_Path socket_path] @
             (if unlink_failed then [Complain ''unlink'' (dv_unlink env)] else [])))
       (serve_loop once (dv_euid env) (replicate MAX_CLIENTS no_worker) (dv_turns env))"

text \<open>The exit status (success or not) and what was done.\<close>

definition tgcompatd_main :: "daemon_env \<Rightarrow> string list \<Rightarrow> (bool \<times> daemon_event list) option" where
  "tgcompatd_main env args =
     (case parse_arguments args (dv_socket_variable env) False of
        Inl ok \<Rightarrow> Some (ok, [Usage ok])
      | Inr (path, once) \<Rightarrow>
          if path = None \<or> path = Some [] then Some (False, [Usage False])
          else
            let socket_path = (case path of Some p \<Rightarrow> p | None \<Rightarrow> []);
                signal_fd = create_signal_fd (dv_signal env)
            in if negative signal_fd then Some (False, [Complain ''signal setup'' (- signal_fd)])
               else
                 let (listener_fd, effects) = tgc_transport_listen (dv_listen env) socket_path (dv_euid env);
                     base = map Rendezvous effects
                 in if negative listener_fd then
                      Some (False, base @ [Complain ''listen'' (- listener_fd), Close_Fd signal_fd])
                    else
                      let (broker, resources) = tgc_broker_create (dv_create env);
                          base = base @ map Resource resources
                      in if Option.is_none broker then
                           Some (False, base @ [Complain ''state allocation'' 0, Close_Fd listener_fd, Close_Fd signal_fd,
                             Unlink_Path socket_path])
                         else
                           let result = (if dv_attr_init env = 0 then dv_attr_setstacksize env else dv_attr_init env);
                               base = base @ [Make_Broker] @ (if dv_attr_init env = 0 then [Init_Attributes] else [])
                           in if result \<noteq> 0 then
                                Some (False, base @ [Complain ''worker attributes'' result] @
                                  (if dv_attr_init env = 0 then [Destroy_Attributes] else []) @
                                  [Destroy_Broker, Close_Fd listener_fd, Close_Fd signal_fd, Unlink_Path socket_path])
                              else
                                map_option (\<lambda>(ok, events). (ok, base @ events))
                                  (run_daemon env once socket_path signal_fd listener_fd))"

section \<open>Ledgers\<close>

text \<open>
  Two accounts of the daemon work alike: descriptors of clients are accepted and closed, threads are started and joined. What
  a table of workers holds of the resource \<open>k\<close> is opened by one event and closed by another; the laws are those of
  the operations on the table, and the loop and the shutdown follow from them for both accounts.
\<close>

definition balanced ::
  "(client_worker list \<Rightarrow> 'k \<Rightarrow> nat) \<Rightarrow> ('k \<Rightarrow> daemon_event) \<Rightarrow> ('k \<Rightarrow> daemon_event) \<Rightarrow>
   client_worker list \<Rightarrow> daemon_event list \<Rightarrow> client_worker list \<Rightarrow> bool" where
  "balanced holds opened closed ws events ws' \<longleftrightarrow>
     (\<forall>k. holds ws k + count_list events (opened k) = count_list events (closed k) + holds ws' k)"

definition bookkeeping :: "daemon_event \<Rightarrow> bool" where
  "bookkeeping e \<longleftrightarrow> (case e of Accepted _ \<Rightarrow> True | Close_Client _ \<Rightarrow> True | Start _ \<Rightarrow> True | Join _ \<Rightarrow> True | _ \<Rightarrow> False)"

locale worker_ledger =
  fixes holds :: "client_worker list \<Rightarrow> 'k \<Rightarrow> nat"
    and opened :: "'k \<Rightarrow> daemon_event"
    and closed :: "'k \<Rightarrow> daemon_event"
  assumes books: "bookkeeping (opened k)" "bookkeeping (closed k)"
    and ended: "serve_client ws d = (ws', events) \<Longrightarrow> balanced holds opened closed ws events ws'"
    and handed: "start_client uid r fd ws = (ws', events) \<Longrightarrow> balanced holds opened closed ws (Accepted fd # events) ws'"
    and stopped: "stop_and_join_workers final ws = (ws', events) \<Longrightarrow> balanced holds opened closed ws events ws'"
    and all_stopped: "stop_and_join_workers final ws = (ws', events) \<Longrightarrow> holds ws' k = 0"
    and in_place: "balanced holds opened closed ws [Accepted fd, Serve fd, Close_Client fd] ws"
    and none_held: "holds (replicate n no_worker) k = 0"
begin

lemma append_balanced:
  assumes "balanced holds opened closed ws e ws1" and "balanced holds opened closed ws1 e' ws'"
  shows "balanced holds opened closed ws (e @ e') ws'"
  unfolding balanced_def
proof
  fix k
  show "holds ws k + count_list (e @ e') (opened k) = count_list (e @ e') (closed k) + holds ws' k"
    using assms(1) [unfolded balanced_def, rule_format, of k] assms(2) [unfolded balanced_def, rule_format, of k] by simp
qed

lemma quiet_balanced:
  assumes "\<forall>e \<in> set events. \<not> bookkeeping e"
  shows "balanced holds opened closed ws events ws"
proof -
  have "opened k \<notin> set events" "closed k \<notin> set events" for k using assms books by blast+
  then show ?thesis by (simp add: balanced_def count_list_0_iff)
qed

lemma finish_workers_balanced:
  "finish_workers ws ds = (ws', events) \<Longrightarrow> balanced holds opened closed ws events ws'"
proof (induction ds arbitrary: ws events)
  case (Cons d ds)
  then show ?case
    by (auto simp: Let_def split: prod.splits intro: append_balanced ended)
qed (use quiet_balanced [of "[]"] in simp)

lemma turn_balanced:
  assumes "serve_turn once uid ws t = (out, ws', events)"
  shows "balanced holds opened closed ws events ws'"
proof -
  obtain ws1 ended where f: "finish_workers ws (tn_finished t) = (ws1, ended)" by (cases "finish_workers ws (tn_finished t)")
  have "\<exists>rest. events = ended @ rest \<and> balanced holds opened closed ws1 rest ws'"
  proof -
    have q: "balanced holds opened closed ws1 [] ws1" "balanced holds opened closed ws1 [Complain m e] ws1" for m e
      by (rule quiet_balanced; simp add: bookkeeping_def)+
    have p: "balanced holds opened closed ws1 [Accepted fd, Serve fd, Close_Client fd, Complain m e] ws1" for fd m e
      using append_balanced [OF in_place q(2), of fd m e] by simp
    show ?thesis
      using assms f q in_place p handed
      by (auto simp: serve_turn_def Let_def split: if_splits sum.splits prod.splits)
  qed
  then show ?thesis using finish_workers_balanced [OF f] append_balanced by blast
qed

lemma loop_balanced:
  "serve_loop once uid ws ts = Some (failed, ws', events) \<Longrightarrow> balanced holds opened closed ws events ws'"
proof (induction ts arbitrary: ws events)
  case (Cons t ts)
  then show ?case by (auto split: prod.splits option.splits intro: append_balanced turn_balanced)
qed simp

lemma run_balanced:
  assumes "run_daemon env once path signal_fd listener_fd = Some (ok, log)"
  shows "count_list log (opened k) = count_list log (closed k)"
proof -
  obtain failed ws events where loop: "serve_loop once (dv_euid env) (replicate MAX_CLIENTS no_worker) (dv_turns env) =
      Some (failed, ws, events)" using assms by (auto simp: run_daemon_def)
  obtain ws' stops where stop: "stop_and_join_workers (dv_final env) ws = (ws', stops)"
    by (cases "stop_and_join_workers (dv_final env) ws")
  define tail where "tail = [Destroy_Broker, Unlink_Path path] @
    (if dv_unlink env \<noteq> 0 \<and> dv_unlink env \<noteq> ENOENT then [Complain ''unlink'' (dv_unlink env)] else [])"
  have log: "log = events @ [Destroy_Attributes, Close_Fd listener_fd, Close_Fd signal_fd] @ stops @ tail"
    using assms loop stop by (auto simp: run_daemon_def tail_def Let_def)
  have "balanced holds opened closed (replicate MAX_CLIENTS no_worker) log ws'"
    unfolding log
    by (intro append_balanced [OF loop_balanced [OF loop]] append_balanced [OF quiet_balanced]
        append_balanced [OF stopped [OF stop]] quiet_balanced) (auto simp: bookkeeping_def tail_def)
  then show ?thesis using none_held all_stopped [OF stop] by (simp add: balanced_def)
qed

end

subsection \<open>The two accounts\<close>

text \<open>The descriptors still open in running threads, and the threads not yet joined (slots counted from \<open>j\<close>).\<close>

definition owns :: "s32 \<Rightarrow> client_worker \<Rightarrow> nat" where
  "owns fd w = of_bool (wk_active w \<and> \<not> wk_done w \<and> wk_socket_fd w = fd)"

definition owned_fds :: "client_worker list \<Rightarrow> s32 \<Rightarrow> nat" where
  "owned_fds ws fd = sum_list (map (owns fd) ws)"

fun running_from :: "nat \<Rightarrow> client_worker list \<Rightarrow> nat \<Rightarrow> nat" where
  "running_from j [] i = 0"
| "running_from j (w # ws) i = of_bool (i = j \<and> wk_active w) + running_from (Suc j) ws i"

lemma sum_list_update_nat:
  fixes f :: "'a \<Rightarrow> nat"
  shows "i < length ws \<Longrightarrow> sum_list (map f (ws[i := w])) + f (ws ! i) = sum_list (map f ws) + f w"
  by (induction ws arbitrary: i) (auto split: nat.split)

lemma running_from_nth: "running_from j ws n = of_bool (j \<le> n \<and> n < j + length ws \<and> wk_active (ws ! (n - j)))"
proof (induction ws arbitrary: j)
  case (Cons w ws)
  then show ?case by (cases "n = j") (auto simp: nth_Cons' Suc_le_eq)
qed simp

lemma report_counts: "bookkeeping e \<Longrightarrow> count_list (report_worker_result w) e = 0"
  by (auto simp: report_worker_result_def bookkeeping_def)

lemmas ledger_counts = owned_fds_def owns_def report_counts bookkeeping_def

lemma reap_offset:
  assumes "reap_finished_workers j ws = (ws', events)"
  shows "length ws' = length ws" and "owned_fds ws' fd = owned_fds ws fd"
    and "count_list events (Accepted fd) = 0" "count_list events (Close_Client fd) = 0" "count_list events (Start n) = 0"
    and "running_from j ws n = count_list events (Join n) + running_from j ws' n"
    and "\<forall>w \<in> set ws'. wk_active w \<longrightarrow> \<not> wk_done w"
proof -
  have "length ws' = length ws \<and> owned_fds ws' fd = owned_fds ws fd \<and> count_list events (Accepted fd) = 0 \<and>
      count_list events (Close_Client fd) = 0 \<and> count_list events (Start n) = 0 \<and>
      running_from j ws n = count_list events (Join n) + running_from j ws' n \<and> (\<forall>w \<in> set ws'. wk_active w \<longrightarrow> \<not> wk_done w)"
    using assms
  proof (induction ws arbitrary: j ws' events)
    case (Cons w ws)
    obtain ws1 ev where rec: "reap_finished_workers (Suc j) ws = (ws1, ev)" by (cases "reap_finished_workers (Suc j) ws")
    show ?case using Cons.IH [OF rec] Cons.prems rec
      by (auto simp: ledger_counts split: if_splits)
  qed (simp add: owned_fds_def)
  then show "length ws' = length ws" and "owned_fds ws' fd = owned_fds ws fd"
    and "count_list events (Accepted fd) = 0" "count_list events (Close_Client fd) = 0" "count_list events (Start n) = 0"
    and "running_from j ws n = count_list events (Join n) + running_from j ws' n"
    and "\<forall>w \<in> set ws'. wk_active w \<longrightarrow> \<not> wk_done w" by simp_all
qed

lemma finish_all_offset:
  assumes "finish_all j final ws = (ws', events)"
  shows "owned_fds ws fd = count_list events (Close_Client fd) \<and> owned_fds ws' fd = 0 \<and> count_list events (Accepted fd) = 0 \<and>
    count_list events (Start n) = 0 \<and> count_list events (Join n) = 0 \<and> running_from j ws' n = running_from j ws n"
  using assms
proof (induction ws arbitrary: j ws' events)
  case (Cons w ws)
  obtain ws1 ev where rec: "finish_all (Suc j) final ws = (ws1, ev)" by (cases "finish_all (Suc j) final ws")
  show ?case using Cons.IH [OF rec] Cons.prems rec by (auto simp: ledger_counts split: if_splits)
qed (simp add: owned_fds_def)

lemma join_offset:
  assumes "join_workers j ws = (ws', events)"
  shows "running_from j ws n = count_list events (Join n) \<and> running_from j ws' n = 0 \<and> owned_fds ws' fd = 0 \<and>
    count_list events (Start n) = 0 \<and> count_list events (Accepted fd) = 0 \<and> count_list events (Close_Client fd) = 0"
  using assms
proof (induction ws arbitrary: j ws' events)
  case (Cons w ws)
  obtain ws1 ev where rec: "join_workers (Suc j) ws = (ws1, ev)" by (cases "join_workers (Suc j) ws")
  show ?case using Cons.IH [OF rec] Cons.prems rec by (auto simp: ledger_counts split: if_splits)
qed (simp add: owned_fds_def)

lemma stop_counts:
  assumes "stop_and_join_workers final ws = (ws', events)"
  shows "owned_fds ws fd = count_list events (Close_Client fd) \<and> owned_fds ws' fd = 0 \<and> count_list events (Accepted fd) = 0 \<and>
    running_from 0 ws n = count_list events (Join n) \<and> running_from 0 ws' n = 0 \<and> count_list events (Start n) = 0"
proof -
  obtain ws1 e1 where f: "finish_all 0 final ws = (ws1, e1)" by (cases "finish_all 0 final ws")
  obtain e2 where j: "join_workers 0 ws1 = (ws', e2)" and
    ev: "events = map (\<lambda>w. Shutdown (wk_socket_fd w)) (filter wk_active ws) @ e1 @ e2"
    using assms f by (auto simp: stop_and_join_workers_def Let_def split: prod.splits)
  have "e \<notin> set (map (\<lambda>w. Shutdown (wk_socket_fd w)) (filter wk_active ws))" if "bookkeeping e" for e
    using that by (auto simp: bookkeeping_def)
  then show ?thesis
    using finish_all_offset [OF f, of fd n] join_offset [OF j, of n fd]
    by (simp add: ev count_list_0_iff [THEN iffD2] bookkeeping_def)
qed

lemma serve_client_counts:
  assumes "serve_client ws d = (ws', events)"
  shows "owned_fds ws fd = count_list events (Close_Client fd) + owned_fds ws' fd" and "count_list events (Accepted fd) = 0"
    and "count_list events (Start n) = 0" "count_list events (Join n) = 0" "running_from 0 ws' n = running_from 0 ws n"
proof -
  obtain i r where d: "d = (i, r)" by (cases d)
  have "owned_fds ws fd = count_list events (Close_Client fd) + owned_fds ws' fd \<and> count_list events (Accepted fd) = 0 \<and>
    count_list events (Start n) = 0 \<and> count_list events (Join n) = 0 \<and> running_from 0 ws' n = running_from 0 ws n"
  proof (cases "i < length ws \<and> wk_active (ws ! i) \<and> \<not> wk_done (ws ! i)")
    case True
    then have "ws' = ws[i := (ws ! i)\<lparr>wk_result := r, wk_done := True\<rparr>]" "events = [Close_Client (wk_socket_fd (ws ! i))]"
      using assms by (auto simp: serve_client_def d)
    then show ?thesis
      using True sum_list_update_nat [of i ws "owns fd" "(ws ! i)\<lparr>wk_result := r, wk_done := True\<rparr>"]
      by (auto simp: owned_fds_def owns_def running_from_nth nth_list_update)
  qed (use assms in \<open>auto simp: serve_client_def d\<close>)
  then show "owned_fds ws fd = count_list events (Close_Client fd) + owned_fds ws' fd" and "count_list events (Accepted fd) = 0"
    and "count_list events (Start n) = 0" "count_list events (Join n) = 0" "running_from 0 ws' n = running_from 0 ws n" by simp_all
qed

lemma start_client_counts:
  assumes "start_client uid r client_fd ws = (ws', events)"
  shows "owned_fds ws fd + of_bool (fd = client_fd) + count_list events (Accepted fd) = count_list events (Close_Client fd) + owned_fds ws' fd"
    and "running_from 0 ws n + count_list events (Start n) = count_list events (Join n) + running_from 0 ws' n"
proof -
  obtain ws1 e1 where reap: "reap_finished_workers 0 ws = (ws1, e1)" by (cases "reap_finished_workers 0 ws")
  note reaped = reap_offset [OF reap]
  have "owned_fds ws fd + of_bool (fd = client_fd) + count_list events (Accepted fd) = count_list events (Close_Client fd) + owned_fds ws' fd \<and>
    running_from 0 ws n + count_list events (Start n) = count_list events (Join n) + running_from 0 ws' n"
  proof (cases "first_index (\<lambda>w. \<not> wk_active w) ws1")
    case None
    then have "ws' = ws1" "events = e1 @ [Complain ''client limit reached'' 0, Close_Client client_fd]"
      using assms reap by (simp_all add: start_client_def available_worker_def)
    then show ?thesis using reaped by auto
  next
    case (Some i)
    then have i: "i < length ws1" "\<not> wk_active (ws1 ! i)" by (auto simp: first_index_Some_iff)
    show ?thesis
    proof (cases "r = 0")
      case True
      then have "ws' = ws1[i := new_worker uid client_fd]" "events = e1 @ [Start i]"
        using assms reap Some by (simp_all add: start_client_def available_worker_def)
      then show ?thesis
        using reaped i sum_list_update_nat [OF i(1), of "owns fd" "new_worker uid client_fd"]
        by (auto simp: owned_fds_def owns_def running_from_nth nth_list_update new_worker_def)
    next
      case False
      then have "ws' = ws1[i := (new_worker uid client_fd)\<lparr>wk_active := False\<rparr>]"
        "events = e1 @ [Complain ''pthread_create'' r, Close_Client client_fd]"
        using assms reap Some by (simp_all add: start_client_def available_worker_def)
      then show ?thesis
        using reaped i sum_list_update_nat [OF i(1), of "owns fd" "(new_worker uid client_fd)\<lparr>wk_active := False\<rparr>"]
        by (auto simp: owned_fds_def owns_def running_from_nth nth_list_update new_worker_def)
    qed
  qed
  then show "owned_fds ws fd + of_bool (fd = client_fd) + count_list events (Accepted fd) = count_list events (Close_Client fd) + owned_fds ws' fd"
    and "running_from 0 ws n + count_list events (Start n) = count_list events (Join n) + running_from 0 ws' n" by simp_all
qed

interpretation clients: worker_ledger owned_fds Accepted Close_Client
proof
  show "balanced owned_fds Accepted Close_Client ws (Accepted fd # events) ws'" if "start_client uid r fd ws = (ws', events)" for uid r fd ws ws' events
    using start_client_counts(1) [OF that] by (auto simp: balanced_def of_bool_def eq_commute split: if_splits)
  show "owned_fds (replicate n no_worker) k = 0" for n k by (simp add: owned_fds_def owns_def no_worker_def)
qed (auto simp: bookkeeping_def balanced_def serve_client_counts stop_counts)

interpretation threads: worker_ledger "running_from 0" Start Join
proof
  show "running_from 0 (replicate n no_worker) k = 0" for n k by (auto simp: running_from_nth no_worker_def)
  show "balanced (running_from 0) Start Join ws (Accepted fd # events) ws'" if "start_client uid r fd ws = (ws', events)" for uid r fd ws ws' events
    using start_client_counts(2) [OF that] by (simp add: balanced_def)
qed (auto simp: bookkeeping_def balanced_def serve_client_counts stop_counts)

section \<open>Shutdown\<close>

text \<open>The loop and the shutdown of the workers only do these things.\<close>

definition worker_event :: "daemon_event \<Rightarrow> bool" where
  "worker_event e \<longleftrightarrow>
     (case e of Complain _ _ \<Rightarrow> True | Accepted _ \<Rightarrow> True | Serve _ \<Rightarrow> True | Start _ \<Rightarrow> True | Join _ \<Rightarrow> True | Shutdown _ \<Rightarrow> True
      | Close_Client _ \<Rightarrow> True | _ \<Rightarrow> False)"

lemma report_events: "e \<in> set (report_worker_result w) \<Longrightarrow> worker_event e"
  by (auto simp: report_worker_result_def worker_event_def split: if_splits)

lemma reap_events: "reap_finished_workers j ws = (ws', events) \<Longrightarrow> e \<in> set events \<Longrightarrow> worker_event e"
  by (induction ws arbitrary: j ws' events)
    (auto simp: worker_event_def [of "Join _"] report_events split: prod.splits if_splits)

lemma start_client_events: "start_client uid r fd ws = (ws', events) \<Longrightarrow> e \<in> set events \<Longrightarrow> worker_event e"
  using reap_events [of 0 ws]
  by (auto simp: start_client_def available_worker_def Let_def worker_event_def split: prod.splits option.splits if_splits)

lemma finish_workers_events: "finish_workers ws ds = (ws', events) \<Longrightarrow> e \<in> set events \<Longrightarrow> worker_event e"
  by (induction ds arbitrary: ws events)
    (auto simp: serve_client_def worker_event_def [of "Close_Client _"] split: prod.splits if_splits)

lemma loop_events: "serve_loop once uid ws ts = Some (failed, ws', events) \<Longrightarrow> e \<in> set events \<Longrightarrow> worker_event e"
proof (induction ts arbitrary: ws events)
  case (Cons t ts)
  have "worker_event e" if "serve_turn once uid ws t = (out, ws1, ev)" "e \<in> set ev" for out ws1 ev
    using that finish_workers_events [of ws "tn_finished t"] start_client_events
    by (auto simp: serve_turn_def Let_def worker_event_def [of "Complain _ _"] worker_event_def [of "Accepted _"]
        worker_event_def [of "Serve _"] worker_event_def [of "Close_Client _"] split: prod.splits sum.splits if_splits)
  with Cons show ?case by (auto split: prod.splits option.splits)
qed simp

lemma stop_events:
  assumes "stop_and_join_workers final ws = (ws', events)" and "e \<in> set events"
  shows "worker_event e"
proof -
  have "worker_event e" if "finish_all j final ws = (ws1, ev)" "e \<in> set ev" for j ws ws1 ev
    using that by (induction ws arbitrary: j ws1 ev) (auto simp: worker_event_def [of "Close_Client _"] split: prod.splits if_splits)
  moreover have "worker_event e" if "join_workers j ws = (ws1, ev)" "e \<in> set ev" for j ws ws1 ev
    using that
    by (induction ws arbitrary: j ws1 ev) (auto simp: worker_event_def [of "Join _"] report_events split: prod.splits if_splits)
  ultimately show ?thesis
    using assms by (auto simp: stop_and_join_workers_def Let_def worker_event_def [of "Shutdown _"] split: prod.splits)
qed

text \<open>The end of a run of the loop.\<close>

lemma run_daemon_shape:
  assumes "run_daemon env once path signal_fd listener_fd = Some (ok, log)"
  obtains events stops tail where
    "log = events @ [Destroy_Attributes, Close_Fd listener_fd, Close_Fd signal_fd] @ stops @ [Destroy_Broker, Unlink_Path path] @ tail"
    "\<And>e. e \<in> set events \<union> set stops \<Longrightarrow> worker_event e" "\<And>e. e \<in> set tail \<Longrightarrow> \<exists>m n. e = Complain m n"
proof -
  obtain failed ws events where loop: "serve_loop once (dv_euid env) (replicate MAX_CLIENTS no_worker) (dv_turns env) =
      Some (failed, ws, events)" using assms by (auto simp: run_daemon_def)
  obtain ws' stops where stop: "stop_and_join_workers (dv_final env) ws = (ws', stops)"
    by (cases "stop_and_join_workers (dv_final env) ws")
  define tail where "tail = (if dv_unlink env \<noteq> 0 \<and> dv_unlink env \<noteq> ENOENT then [Complain ''unlink'' (dv_unlink env)] else [])"
  have "log = events @ [Destroy_Attributes, Close_Fd listener_fd, Close_Fd signal_fd] @ stops @ [Destroy_Broker, Unlink_Path path] @ tail"
    using assms loop stop by (auto simp: run_daemon_def tail_def Let_def)
  then show ?thesis
    by (rule that) (use loop_events [OF loop] stop_events [OF stop] in \<open>auto simp: tail_def split: if_splits\<close>)
qed

text \<open>The ways through the program.\<close>

lemma main_cases:
  assumes "tgcompatd_main env args = Some (ok, log)"
  obtains (usage) "log = [Usage ok]" "\<And>path once. parse_arguments args (dv_socket_variable env) False = Inr (Some path, once) \<Longrightarrow> path = []"
  | (no_signals) r where "log = [Complain ''signal setup'' r]" "negative (create_signal_fd (dv_signal env))"
  | (no_listener) p once effects r where "parse_arguments args (dv_socket_variable env) False = Inr (Some p, once)"
      "tgc_transport_listen (dv_listen env) p (dv_euid env) = (r, effects)" "negative r"
      "log = map Rendezvous effects @ [Complain ''listen'' (- r), Close_Fd (create_signal_fd (dv_signal env))]"
  | (no_broker) p once effects l resources where "parse_arguments args (dv_socket_variable env) False = Inr (Some p, once)"
      "tgc_transport_listen (dv_listen env) p (dv_euid env) = (l, effects)"
      "log = map Rendezvous effects @ map Resource resources @ [Complain ''state allocation'' 0, Close_Fd l,
         Close_Fd (create_signal_fd (dv_signal env)), Unlink_Path p]"
  | (no_attributes) p once effects l resources m r where "parse_arguments args (dv_socket_variable env) False = Inr (Some p, once)"
      "tgc_transport_listen (dv_listen env) p (dv_euid env) = (l, effects)"
      "log = map Rendezvous effects @ map Resource resources @ [Make_Broker] @ (if m then [Init_Attributes] else []) @
         [Complain ''worker attributes'' r] @ (if m then [Destroy_Attributes] else []) @
         [Destroy_Broker, Close_Fd l, Close_Fd (create_signal_fd (dv_signal env)), Unlink_Path p]"
  | (ran) p once effects l resources events where "parse_arguments args (dv_socket_variable env) False = Inr (Some p, once)"
      "tgc_transport_listen (dv_listen env) p (dv_euid env) = (l, effects)"
      "run_daemon env once p (create_signal_fd (dv_signal env)) l = Some (ok, events)"
      "log = map Rendezvous effects @ map Resource resources @ [Make_Broker, Init_Attributes] @ events"
proof (cases "parse_arguments args (dv_socket_variable env) False")
  case (Inl b)
  then show ?thesis using assms usage by (auto simp: tgcompatd_main_def)
next
  case (Inr x)
  show ?thesis
  proof (cases "fst x = None \<or> fst x = Some [] \<or> negative (create_signal_fd (dv_signal env))")
    case True
    then show ?thesis using assms Inr usage no_signals by (cases x) (auto simp: tgcompatd_main_def split: if_splits)
  next
    case False
    then obtain p where x: "x = (Some p, snd x)" "p \<noteq> []" by (cases x) auto
    obtain l effects where l: "tgc_transport_listen (dv_listen env) p (dv_euid env) = (l, effects)"
      by (cases "tgc_transport_listen (dv_listen env) p (dv_euid env)")
    obtain b resources where b: "tgc_broker_create (dv_create env) = (b, resources)" by (cases "tgc_broker_create (dv_create env)")
    have parsed: "parse_arguments args (dv_socket_variable env) False = Inr (Some p, snd x)" using Inr x by simp
    show ?thesis
    proof (cases "negative l \<or> Option.is_none b")
      case True
      then show ?thesis
        using assms parsed x(2) l b False no_listener [OF parsed l] no_broker [OF parsed l, of resources]
        by (auto simp: tgcompatd_main_def Let_def split: if_splits)
    next
      case ok: False
      then show ?thesis
        using assms parsed x(2) l b False no_attributes [OF parsed l, of resources "dv_attr_init env = 0"
            "if dv_attr_init env = 0 then dv_attr_setstacksize env else dv_attr_init env"] ran [OF parsed l _, of _ resources]
        by (auto simp: tgcompatd_main_def Let_def split: if_splits)
    qed
  qed
qed

lemma drop_until: "d \<notin> set xs \<Longrightarrow> dropWhile (\<lambda>e. e \<noteq> d) (xs @ ys) = dropWhile (\<lambda>e. e \<noteq> d) ys"
  by (induction xs) auto

text \<open>What the start-up does counts in neither account.\<close>

lemma startup_counts:
  "count_list (map Rendezvous es) (Accepted fd) = 0" "count_list (map Rendezvous es) (Close_Client fd) = 0"
  "count_list (map Rendezvous es) (Start n) = 0" "count_list (map Rendezvous es) (Join n) = 0"
  "count_list (map Rendezvous es) Make_Broker = 0" "count_list (map Rendezvous es) Destroy_Broker = 0"
  "count_list (map Rendezvous es) Init_Attributes = 0" "count_list (map Rendezvous es) Destroy_Attributes = 0"
  "count_list (map Resource rs) (Accepted fd) = 0" "count_list (map Resource rs) (Close_Client fd) = 0"
  "count_list (map Resource rs) (Start n) = 0" "count_list (map Resource rs) (Join n) = 0"
  "count_list (map Resource rs) Make_Broker = 0" "count_list (map Resource rs) Destroy_Broker = 0"
  "count_list (map Resource rs) Init_Attributes = 0" "count_list (map Resource rs) Destroy_Attributes = 0"
  by (auto simp: count_list_0_iff)

lemma startup_drop:
  "dropWhile (\<lambda>e. e \<noteq> Destroy_Broker) (map Rendezvous es @ rest) = dropWhile (\<lambda>e. e \<noteq> Destroy_Broker) rest"
  "dropWhile (\<lambda>e. e \<noteq> Destroy_Broker) (map Resource rs @ rest) = dropWhile (\<lambda>e. e \<noteq> Destroy_Broker) rest"
  by (rule drop_until; auto)+

lemma run_daemon_counts:
  assumes "run_daemon env once path signal_fd listener_fd = Some (ok, log)"
  shows "count_list log (Accepted fd) = count_list log (Close_Client fd)" and "count_list log (Start n) = count_list log (Join n)"
    and "count_list log Make_Broker = 0" "count_list log Destroy_Broker = 1"
    and "count_list log Init_Attributes = 0" "count_list log Destroy_Attributes = 1"
    and "{Close_Fd listener_fd, Close_Fd signal_fd, Unlink_Path path} \<subseteq> set log"
    and "Start n \<notin> set (dropWhile (\<lambda>e. e \<noteq> Destroy_Broker) log) \<and> Join n \<notin> set (dropWhile (\<lambda>e. e \<noteq> Destroy_Broker) log)"
proof -
  show "count_list log (Accepted fd) = count_list log (Close_Client fd)" by (rule clients.run_balanced [OF assms])
  show "count_list log (Start n) = count_list log (Join n)" by (rule threads.run_balanced [OF assms])
  obtain events stops tail where log: "log = events @ [Destroy_Attributes, Close_Fd listener_fd, Close_Fd signal_fd] @ stops @
      [Destroy_Broker, Unlink_Path path] @ tail"
    and ev: "\<And>e. e \<in> set events \<union> set stops \<Longrightarrow> worker_event e" and t: "\<And>e. e \<in> set tail \<Longrightarrow> \<exists>m n. e = Complain m n"
    using run_daemon_shape [OF assms] by metis
  have no: "e \<notin> set events" "e \<notin> set stops" "e \<notin> set tail" if "\<not> worker_event e" for e
    using that ev t worker_event_def [of "Complain _ _"] by fastforce+
  have kinds: "\<not> worker_event Make_Broker" "\<not> worker_event Destroy_Broker" "\<not> worker_event Init_Attributes"
    "\<not> worker_event Destroy_Attributes" by (simp_all add: worker_event_def)
  show "count_list log Make_Broker = 0" "count_list log Destroy_Broker = 1" "count_list log Init_Attributes = 0"
    "count_list log Destroy_Attributes = 1"
    using no [OF kinds(1)] no [OF kinds(2)] no [OF kinds(3)] no [OF kinds(4)] by (simp_all add: log count_list_0_iff [THEN iffD2])
  show "{Close_Fd listener_fd, Close_Fd signal_fd, Unlink_Path path} \<subseteq> set log" by (simp add: log)
  have "dropWhile (\<lambda>e. e \<noteq> Destroy_Broker) log = Destroy_Broker # Unlink_Path path # tail"
    using no [OF kinds(2)] by (simp add: log drop_until)
  then show "Start n \<notin> set (dropWhile (\<lambda>e. e \<noteq> Destroy_Broker) log) \<and> Join n \<notin> set (dropWhile (\<lambda>e. e \<noteq> Destroy_Broker) log)"
    using t by auto
qed

text \<open>
  C23. The daemon cleans up after itself on every way out: every accepted connection is closed exactly as often as it was accepted, every thread
  that was started is joined, and none runs on when the broker is destroyed; a broker that was made is destroyed, attributes that were initialised
  are destroyed, and once the daemon listens, it closes both its descriptors and removes the path of its socket before it ends.
\<close>

theorem daemon_cleans_up:
  assumes "tgcompatd_main env args = Some (ok, log)"
  shows "count_list log (Accepted fd) = count_list log (Close_Client fd) \<and> count_list log (Start n) = count_list log (Join n) \<and>
    Start n \<notin> set (dropWhile (\<lambda>e. e \<noteq> Destroy_Broker) log) \<and> Join n \<notin> set (dropWhile (\<lambda>e. e \<noteq> Destroy_Broker) log) \<and>
    count_list log Make_Broker = count_list log Destroy_Broker \<and>
    count_list log Init_Attributes = count_list log Destroy_Attributes \<and>
    (\<forall>l path once effects. parse_arguments args (dv_socket_variable env) False = Inr (Some path, once) \<and> path \<noteq> [] \<and>
        0 \<le> sint (create_signal_fd (dv_signal env)) \<and>
        tgc_transport_listen (dv_listen env) path (dv_euid env) = (l, effects) \<and> 0 \<le> sint l \<longrightarrow>
      {Close_Fd l, Close_Fd (create_signal_fd (dv_signal env)), Unlink_Path path} \<subseteq> set log)"
  using assms
proof (cases rule: main_cases)
  case usage
  then show ?thesis by auto
next
  case (no_signals r)
  then show ?thesis by auto
next
  case (no_listener p once effects r)
  then show ?thesis by (auto simp: startup_counts startup_drop)
next
  case (no_broker p once effects l resources)
  then show ?thesis by (auto simp: startup_counts startup_drop)
next
  case (no_attributes p once effects l resources m r)
  then show ?thesis by (auto simp: startup_counts startup_drop)
next
  case (ran p once effects l resources events)
  then show ?thesis
    using run_daemon_counts [OF ran(3)] by (auto simp: startup_counts startup_drop)
qed

text \<open>The demonstration run: one client is accepted and handed to a thread, then the daemon is told to stop.\<close>

definition demo_turn :: turn where
  "demo_turn = \<lparr>tn_finished = [], tn_poll = Inr (0, 1), tn_read = Inr 128, tn_accept = Inr 9, tn_serve = 0, tn_thread = 0\<rparr>"

definition demo_daemon_env :: daemon_env where
  "demo_daemon_env =
     \<lparr>dv_socket_variable = None, dv_signal = \<lparr>sg_sigset = 0, sg_mask = 0, sg_signalfd = Inr 4\<rparr>, dv_euid = 1000,
      dv_listen = demo_socket_env\<lparr>x_lstat_existing := Inl ENOENT\<rparr>,
      dv_create = \<lparr>ce_calloc = True, ce_store = True, ce_mutex_init = 0, ce_condattr_init = 0, ce_condattr_setclock = 0, ce_cond_init = 0,
        ce_attr_init = 0, ce_attr_setstacksize = 0, ce_thread_create = 0\<rparr>,
      dv_attr_init = 0, dv_attr_setstacksize = 0, dv_turns = [demo_turn, demo_turn\<lparr>tn_poll := Inr (1, 1)\<rparr>],
      dv_final = (\<lambda>i. - ECONNRESET), dv_unlink = 0\<rparr>"

lemma idle: "\<not> wk_active no_worker"
  by (simp add: no_worker_def)

lemma reap_idle: "reap_finished_workers j (replicate n no_worker) = (replicate n no_worker, [])"
  by (induction n arbitrary: j) (simp_all add: idle)

lemma join_idle: "join_workers j (replicate n no_worker) = (replicate n no_worker, [])"
  by (induction n arbitrary: j) (simp_all add: no_worker_def)

lemma finish_idle: "finish_all j final (replicate n no_worker) = (replicate n no_worker, [])"
  by (induction n arbitrary: j) (simp_all add: no_worker_def)

lemma demo_loop:
  "serve_loop False 1000 (replicate 64 no_worker) [demo_turn, demo_turn\<lparr>tn_poll := Inr (1, 1)\<rparr>] =
     Some (False, new_worker 1000 9 # replicate 63 no_worker, [Accepted 9, Start 0])"
proof -
  have split: "replicate 64 no_worker = no_worker # replicate 63 no_worker"
    by (simp add: numeral_eq_Suc)
  have "available_worker (replicate 64 no_worker) = (Some 0, replicate 64 no_worker, [])"
    unfolding available_worker_def reap_idle by (simp add: split idle)
  then have "start_client 1000 0 9 (replicate 64 no_worker) = (new_worker 1000 9 # replicate 63 no_worker, [Start 0])"
    unfolding start_client_def by (simp add: split)
  then show ?thesis by (simp add: serve_turn_def demo_turn_def)
qed

lemma demo_run:
  "run_daemon demo_daemon_env False ''/run/s'' 4 5 = Some (True,
     [Accepted 9, Start 0, Destroy_Attributes, Close_Fd 5, Close_Fd 4, Shutdown 9, Close_Client 9, Join 0, Destroy_Broker,
      Unlink_Path ''/run/s''])"
  using demo_loop
  by (simp add: run_daemon_def demo_daemon_env_def stop_and_join_workers_def finish_idle join_idle new_worker_def
      report_worker_result_def is_normal_client_disconnect_def idle)

theorem daemon_cleans_up_witness:
  "\<exists>log. tgcompatd_main demo_daemon_env [''--socket'', ''/run/s''] = Some (True, log) \<and> Accepted 9 \<in> set log \<and> Start 0 \<in> set log \<and>
     count_list log (Accepted 9) = count_list log (Close_Client 9) \<and> count_list log (Start 0) = count_list log (Join 0) \<and>
     Unlink_Path ''/run/s'' \<in> set log"
proof -
  have listen: "tgc_transport_listen (dv_listen demo_daemon_env) ''/run/s'' 1000 =
      (5, [Mkdir ''/run'', Bind 5 ''/run/s'', Chmod ''/run/s'', Listen 5])"
    by (simp add: demo_daemon_env_def tgc_transport_listen_def demo_directory demo_socket_env_def validate_runtime_directory_def
        S_ISDIR_def S_ISSOCK_def socket_is_private_def)
  have sig: "create_signal_fd (dv_signal demo_daemon_env) = 4" by (simp add: create_signal_fd_def demo_daemon_env_def)
  have env: "dv_socket_variable demo_daemon_env = None" "dv_euid demo_daemon_env = 1000" "dv_attr_init demo_daemon_env = 0"
    "dv_attr_setstacksize demo_daemon_env = 0" by (simp_all add: demo_daemon_env_def)
  obtain b resources where "tgc_broker_create (dv_create demo_daemon_env) = (Some b, resources)"
    by (simp add: demo_daemon_env_def tgc_broker_create_def create_condition_def create_monitor_def)
  then obtain log where run: "tgcompatd_main demo_daemon_env [''--socket'', ''/run/s''] = Some (True, log)" "Accepted 9 \<in> set log" "Start 0 \<in> set log"
    "Unlink_Path ''/run/s'' \<in> set log"
    using demo_run by (simp add: tgcompatd_main_def env listen sig Let_def)
  then show ?thesis using daemon_cleans_up [OF run(1), of 9 0] by blast
qed

section \<open>Admission\<close>

definition reaped :: "client_worker \<Rightarrow> client_worker" where
  "reaped w = (if wk_active w \<and> wk_done w then w\<lparr>wk_active := False\<rparr> else w)"

lemma reaped_active: "wk_active (reaped w) \<longleftrightarrow> wk_active w \<and> \<not> wk_done w"
  by (auto simp: reaped_def)

lemma reap_table: "fst (reap_finished_workers j ws) = map reaped ws"
  by (induction ws arbitrary: j) (auto simp: reaped_def Let_def case_prod_beta)

lemma start_client_cases:
  assumes "start_client uid r client_fd ws = (ws', events)"
  obtains (full) "\<forall>w \<in> set ws. wk_active w \<and> \<not> wk_done w" "ws' = map reaped ws" "Close_Client client_fd \<in> set events" "\<forall>i. Start i \<notin> set events"
  | (no_thread) i where "i < length ws" "\<not> wk_active (reaped (ws ! i))" "r \<noteq> 0"
      "ws' = (map reaped ws)[i := (new_worker uid client_fd)\<lparr>wk_active := False\<rparr>]" "Close_Client client_fd \<in> set events"
      "\<forall>i. Start i \<notin> set events"
  | (started) i where "i < length ws" "\<not> wk_active (reaped (ws ! i))" "r = 0" "ws' = (map reaped ws)[i := new_worker uid client_fd]"
      "Start i \<in> set events" "Close_Client client_fd \<notin> set events"
proof -
  obtain e1 where reap: "reap_finished_workers 0 ws = (map reaped ws, e1)"
    using reap_table [of 0 ws] by (cases "reap_finished_workers 0 ws") simp
  have quiet: "Start i \<notin> set e1" "Close_Client client_fd \<notin> set e1" for i
    using reap_offset(4,5) [OF reap] by (simp_all add: count_list_0_iff)
  show ?thesis
  proof (cases "first_index (\<lambda>w. \<not> wk_active w) (map reaped ws)")
    case None
    then have "wk_active (reaped w)" if "w \<in> set ws" for w using that unfolding first_index_None_iff by simp
    then have "\<forall>w \<in> set ws. wk_active w \<and> \<not> wk_done w" by (simp add: reaped_active)
    moreover have "ws' = map reaped ws" "events = e1 @ [Complain ''client limit reached'' 0, Close_Client client_fd]"
      using assms reap None by (simp_all add: start_client_def available_worker_def)
    ultimately show ?thesis using full quiet by simp
  next
    case (Some i)
    then have i: "i < length ws" "\<not> wk_active (reaped (ws ! i))" by (auto simp: first_index_Some_iff)
    show ?thesis
      using assms reap Some started [OF i] no_thread [OF i] quiet
      by (cases "r = 0") (auto simp: start_client_def available_worker_def Let_def)
  qed
qed

text \<open>
  A connection is admitted whenever there is room: when a slot is free or its thread has finished and the new thread can be created,
  the client gets a worker with its descriptor; otherwise its connection is closed. Workers that still serve a client are never disturbed.
\<close>

theorem client_admission:
  assumes "start_client uid r client_fd ws = (ws', events)"
  shows "(r = 0 \<and> (\<exists>w \<in> set ws. \<not> wk_active w \<or> wk_done w) \<longleftrightarrow>
      (\<exists>i < length ws. Start i \<in> set events \<and> ws' ! i = new_worker uid client_fd)) \<and>
    (\<not> (r = 0 \<and> (\<exists>w \<in> set ws. \<not> wk_active w \<or> wk_done w)) \<longleftrightarrow> Close_Client client_fd \<in> set events) \<and>
    (\<forall>j < length ws. wk_active (ws ! j) \<and> \<not> wk_done (ws ! j) \<longrightarrow> ws' ! j = ws ! j)"
  using assms
proof (cases rule: start_client_cases)
  case full
  then show ?thesis by (auto simp: reaped_def)
next
  case (no_thread i)
  then show ?thesis by (auto simp: reaped_def nth_list_update split: if_splits)
next
  case (started i)
  then have "\<exists>w \<in> set ws. \<not> wk_active w \<or> wk_done w"
    by (intro bexI [of _ "ws ! i"]) (auto simp: reaped_def split: if_splits)
  moreover have "\<exists>i < length ws. Start i \<in> set events \<and> ws' ! i = new_worker uid client_fd"
    using started by (intro exI [of _ i]) simp
  ultimately show ?thesis using started by (auto simp: reaped_def nth_list_update split: if_splits)
qed

theorem client_admission_witness:
  "\<exists>ws' events. start_client 1000 0 9 [no_worker\<lparr>wk_active := True\<rparr>, no_worker\<lparr>wk_active := True, wk_done := True\<rparr>] = (ws', events) \<and>
     (\<exists>i < 2. Start i \<in> set events \<and> ws' ! i = new_worker 1000 9)"
proof -
  let ?ws = "[no_worker\<lparr>wk_active := True\<rparr>, no_worker\<lparr>wk_active := True, wk_done := True\<rparr>]"
  obtain ws' events where run: "start_client 1000 0 9 ?ws = (ws', events)" by (cases "start_client 1000 0 9 ?ws")
  have "\<exists>w \<in> set ?ws. \<not> wk_active w \<or> wk_done w" by simp
  then have "\<exists>i < length ?ws. Start i \<in> set events \<and> ws' ! i = new_worker 1000 9"
    using client_admission [OF run] by blast
  then show ?thesis using run by (simp add: numeral_2_eq_2)
qed

end
