(* ===== verification/Tgc_Exec.thy ===== *)
theory Tgc_Exec
  imports Tgc_Wire
begin

text \<open>
  The interposed process-start functions of \<^verbatim>\<open>src/reference-termux-glibc-compat/src/exec_shim.c\<close>: a program whose ELF
  interpreter is the one of the distribution is started through a configured loader, paths may be redirected, and the
  environment of the new program is adjusted. C strings are \<open>string\<close>s without NUL, a pointer that may be NULL is an \<open>option\<close>. What the
  calls into the system answer is an \<open>exec_world\<close>; an interposed function yields the call it makes into the real one.
\<close>

section \<open>Data\<close>

definition E2BIG :: s32 where [simp]: "E2BIG = 7"
definition SIZE_MAX :: nat where [simp]: "SIZE_MAX = 18446744073709551615"
definition EXEC_PATH_MAX :: nat where [simp]: "EXEC_PATH_MAX = 4096"

datatype host = Aarch64 | X86_64

fun TGCOMPAT_ELF_MACHINE :: "host \<Rightarrow> u16" where
  "TGCOMPAT_ELF_MACHINE Aarch64 = 183"
| "TGCOMPAT_ELF_MACHINE X86_64 = 62"

fun default_interpreters :: "host \<Rightarrow> string list" where
  "default_interpreters Aarch64 = [''/lib/ld-linux-aarch64.so.1'', ''/lib64/ld-linux-aarch64.so.1'']"
| "default_interpreters X86_64 = [''/lib64/ld-linux-x86-64.so.2'', ''/lib/x86_64-linux-gnu/ld-linux-x86-64.so.2'']"

text \<open>One \<^verbatim>\<open>pread\<close> that returns fewer bytes than asked for (at most so many), or fails.\<close>

datatype pread_event = Pread_Max nat | Pread_Error s32

text \<open>
  A file that can be opened: whether it is a regular file, its size according to \<^verbatim>\<open>fstat\<close>, its bytes, and the deviations
  of the calls to \<^verbatim>\<open>pread\<close> from reading all that is asked for.
\<close>

record elf_file =
  ef_regular :: bool
  ef_size :: u64
  ef_content :: "u8 list"
  ef_preads :: "pread_event list"

text \<open>Which allocations succeed.\<close>

record exec_memory =
  xm_assignment :: bool
  xm_proc_assignment :: bool
  xm_values :: bool
  xm_filename :: bool
  xm_argv :: bool
  xm_loader_assignment :: bool
  xm_loader_environment :: bool
  xm_ld_preload :: bool
  xm_candidate :: bool
  xm_arguments :: bool

record exec_world =
  xw_host :: host
  xw_environ :: "string list"
  xw_open :: "string \<Rightarrow> elf_file option"
  xw_access :: "string \<Rightarrow> bool"
  xw_realpath :: "string \<Rightarrow> s32 + string"
  xw_memory :: exec_memory
  xw_execve :: bool
  xw_execvpe :: bool
  xw_posix_spawn :: bool
  xw_posix_spawnp :: bool

record loader_invocation =
  li_arguments :: "string list"
  li_filename :: string
  li_environment :: "string list"
  li_ld_preload_assignment :: "string option"
  li_proc_self_exe_assignment :: string

text \<open>With an error go its number and the blocks that are neither freed nor handed out.\<close>

datatype wrap_result = Wrap_Error s32 "string list" | Wrap_No | Wrap_Yes loader_invocation

text \<open>The environment for a final program: untouched, an error, or a new one.\<close>

datatype final_result = Final_No | Final_Error s32 | Final_Yes "string list"

text \<open>A call into a real function, or a failure with its error number.\<close>

datatype exec_action =
    Exec_Fail s32
  | Real_Execve "string option" "string list" "string list option"
  | Real_Execvpe string "string list" "string list option"
  | Real_Posix_Spawn "string option" "string list" "string list option"
  | Real_Posix_Spawnp string "string list" "string list option"

definition ld_preload_name :: string where "ld_preload_name = ''LD_PRELOAD''"
definition proc_self_exe_name :: string where "proc_self_exe_name = ''TGCOMPAT_PROC_SELF_EXE''"
definition shell_redirect_name :: string where "shell_redirect_name = ''TGCOMPAT_EXEC_SHELL''"
definition path_from_name :: string where "path_from_name = ''TGCOMPAT_EXEC_PATH_FROM''"
definition path_to_name :: string where "path_to_name = ''TGCOMPAT_EXEC_PATH_TO''"
definition final_path_prefix_name :: string where "final_path_prefix_name = ''TGCOMPAT_EXEC_FINAL_PATH_PREFIX''"
definition final_ld_preload_name :: string where "final_ld_preload_name = ''TGCOMPAT_EXEC_FINAL_LD_PRELOAD''"
definition final_proc_self_exe_name :: string where "final_proc_self_exe_name = ''TGCOMPAT_EXEC_FINAL_PROC_SELF_EXE''"

section \<open>The environment\<close>

text \<open>\<^verbatim>\<open>strncmp(entry, name, strlen(name)) == 0 && entry[strlen(name)] == '='\<close>\<close>

definition assigns :: "string \<Rightarrow> string \<Rightarrow> bool" where
  "assigns name entry \<longleftrightarrow> take (Suc (length name)) entry = name @ ''=''"

definition assignment :: "string \<Rightarrow> string \<Rightarrow> string" where
  "assignment name val = name @ ''='' @ val"

definition environment_value :: "string list option \<Rightarrow> string \<Rightarrow> string option" where
  "environment_value envp name =
     (case envp of
        None \<Rightarrow> None
      | Some entries \<Rightarrow> map_option (drop (length name + 1)) (find (assigns name) entries))"

definition configured_environment_value :: "exec_world \<Rightarrow> string list option \<Rightarrow> string \<Rightarrow> string option" where
  "configured_environment_value w envp name =
     (case environment_value envp name of
        Some v \<Rightarrow> Some v
      | None \<Rightarrow> environment_value (Some (xw_environ w)) name)"

text \<open>\<^verbatim>\<open>path[0] == '/'\<close>\<close>

definition is_absolute :: "string \<Rightarrow> bool" where
  "is_absolute path \<longleftrightarrow> path \<noteq> [] \<and> hd path = CHR ''/''"

definition final_path_matches :: "exec_world \<Rightarrow> string option \<Rightarrow> string list option \<Rightarrow> bool" where
  "final_path_matches w filename envp =
     (case (filename, configured_environment_value w envp final_path_prefix_name) of
        (Some file, Some prefix) \<Rightarrow>
          is_absolute file \<and> is_absolute prefix \<and> length prefix > 1 \<and> last prefix = CHR ''/'' \<and>
          take (length prefix) file = prefix
      | _ \<Rightarrow> False)"

definition build_final_environment :: "exec_world \<Rightarrow> string option \<Rightarrow> string list option \<Rightarrow> final_result" where
  "build_final_environment w filename envp =
     (if \<not> final_path_matches w filename envp then Final_No
      else
        let proc_self_exe = configured_environment_value w envp final_proc_self_exe_name;
            replace = (proc_self_exe \<noteq> None)
        in case (configured_environment_value w envp final_ld_preload_name, envp) of
             (Some preload, Some entries) \<Rightarrow>
               if length entries > SIZE_MAX - 3 then Final_Error E2BIG
               else if length preload > SIZE_MAX - length ld_preload_name - 2 then Final_Error E2BIG
               else if replace \<and> length (the proc_self_exe) > SIZE_MAX - length proc_self_exe_name - 2 then Final_Error E2BIG
               else if \<not> xm_assignment (xw_memory w) \<or> \<not> xm_values (xw_memory w) \<or>
                       (replace \<and> \<not> xm_proc_assignment (xw_memory w))
               then Final_Error ENOMEM
               else Final_Yes
                 (filter (\<lambda>e. \<not> assigns ld_preload_name e \<and> \<not> (replace \<and> assigns proc_self_exe_name e)) entries @
                  [assignment ld_preload_name preload] @
                  (case proc_self_exe of Some exe \<Rightarrow> [assignment proc_self_exe_name exe] | None \<Rightarrow> []))
           | _ \<Rightarrow> Final_Error EINVAL)"

section \<open>Decisions\<close>

definition disabled_by_environment :: "string list option \<Rightarrow> bool" where
  "disabled_by_environment envp =
     (case environment_value envp ''TGCOMPAT_EXEC_DISABLE'' of
        None \<Rightarrow> False
      | Some v \<Rightarrow> v \<noteq> [] \<and> v \<noteq> ''0'')"

text \<open>A redirection is \<open>Some\<close> path, \<open>None\<close> leaves the file name as it is.\<close>

definition redirect_shell_path :: "exec_world \<Rightarrow> string option \<Rightarrow> string list option \<Rightarrow> string option" where
  "redirect_shell_path w filename envp =
     (if filename \<noteq> Some ''/bin/sh'' \<and> filename \<noteq> Some ''/usr/bin/sh'' then None
      else
        case configured_environment_value w envp shell_redirect_name of
          None \<Rightarrow> None
        | Some redirect \<Rightarrow> if is_absolute redirect \<and> redirect \<noteq> ''/'' then Some redirect else None)"

definition redirect_configured_path :: "exec_world \<Rightarrow> string option \<Rightarrow> string list option \<Rightarrow> string option" where
  "redirect_configured_path w filename envp =
     (let from = environment_value envp path_from_name; dest = environment_value envp path_to_name;
          (from, dest) = (if from = None \<and> dest = None
            then (environment_value (Some (xw_environ w)) path_from_name, environment_value (Some (xw_environ w)) path_to_name)
            else (from, dest))
      in case (filename, from, dest) of
           (Some file, Some from, Some dest) \<Rightarrow>
             if is_absolute from \<and> from \<noteq> ''/'' \<and> is_absolute dest \<and> dest \<noteq> ''/'' \<and> file = from then Some dest else None
         | _ \<Rightarrow> None)"

definition interpreter_matches :: "exec_world \<Rightarrow> string \<Rightarrow> string list option \<Rightarrow> bool" where
  "interpreter_matches w interpreter envp =
     (case environment_value envp ''TGCOMPAT_EXEC_MATCH_INTERPRETER'' of
        Some override \<Rightarrow>
          if override \<noteq> [] then interpreter = override else interpreter \<in> set (default_interpreters (xw_host w))
      | None \<Rightarrow> interpreter \<in> set (default_interpreters (xw_host w)))"

definition redirect_exec_path :: "exec_world \<Rightarrow> string option \<Rightarrow> string list option \<Rightarrow> string option" where
  "redirect_exec_path w filename envp =
     (case redirect_configured_path w filename envp of
        Some redirect \<Rightarrow> Some redirect
      | None \<Rightarrow>
          case redirect_shell_path w filename envp of
            Some redirect \<Rightarrow> Some redirect
          | None \<Rightarrow>
              case filename of
                None \<Rightarrow> None
              | Some file \<Rightarrow>
                  if disabled_by_environment envp \<or> \<not> interpreter_matches w file envp then Some file
                  else
                    case environment_value envp ''TGCOMPAT_LD_SO'' of
                      None \<Rightarrow> Some file
                    | Some loader \<Rightarrow> if is_absolute loader \<and> loader \<noteq> ''/'' then Some loader else Some file)"

section \<open>Reading the interpreter of an ELF file\<close>

definition INT64_MAX_NAT :: nat where [simp]: "INT64_MAX_NAT = 9223372036854775807"

text \<open>
  The loop of \<^verbatim>\<open>read_exact_at\<close> over the deviations: \<open>got\<close> are the bytes read so far; the bytes, or \<open>None\<close> for failure, and the
  remaining deviations.
\<close>

fun read_loop :: "u8 list \<Rightarrow> pread_event list \<Rightarrow> nat \<Rightarrow> nat \<Rightarrow> u8 list \<Rightarrow> u8 list option \<times> pread_event list" where
  "read_loop content [] len offset got =
     (if length got \<ge> len then (Some got, [])
      else if offset + len \<le> length content
      then (Some (got @ take (len - length got) (drop (offset + length got) content)), [])
      else (None, []))"
| "read_loop content (e # es) len offset got =
     (if length got \<ge> len then (Some got, e # es)
      else
        case e of
          Pread_Error errno \<Rightarrow> if errno = EINTR then read_loop content es len offset got else (None, es)
        | Pread_Max n \<Rightarrow>
            let bytes = take n (take (len - length got) (drop (offset + length got) content))
            in if bytes = [] then (None, es) else read_loop content es len offset (got @ bytes))"

definition read_exact_at :: "u8 list \<Rightarrow> pread_event list \<Rightarrow> nat \<Rightarrow> nat \<Rightarrow> u8 list option \<times> pread_event list" where
  "read_exact_at content es len offset =
     (if len > INT64_MAX_NAT \<or> offset > INT64_MAX_NAT - len then (None, es)
      else read_loop content es len offset [])"

definition elf_header_ok :: "host \<Rightarrow> u8 list \<Rightarrow> bool" where
  "elf_header_ok h header \<longleftrightarrow>
     take 4 header = [0x7f, 0x45, 0x4c, 0x46] \<and> header ! 4 = 2 \<and> header ! 5 = 1 \<and>
     tgc_wire_get_u16 header 18 = TGCOMPAT_ELF_MACHINE h \<and> tgc_wire_get_u16 header 54 = 56 \<and>
     tgc_wire_get_u16 header 56 \<noteq> 0 \<and> unat (tgc_wire_get_u16 header 56) \<le> 128"

definition program_headers_ok :: "u8 list \<Rightarrow> u64 \<Rightarrow> bool" where
  "program_headers_ok header st_size \<longleftrightarrow>
     (let phoff = tgc_wire_get_u64 header 32; phnum = ucast (tgc_wire_get_u16 header 56) :: u64 in
      \<not> unat phoff > INT64_MAX_NAT \<and>
      \<not> unat phnum > (INT64_MAX_NAT - unat phoff) div 56 \<and>
      \<not> phoff + phnum * 56 > st_size)"

text \<open>The interpreter segment, its bytes with the final NUL; the deviations are used up.\<close>

definition read_interpreter_segment ::
  "u8 list \<Rightarrow> pread_event list \<Rightarrow> u64 \<Rightarrow> u8 list \<Rightarrow> nat \<Rightarrow> u8 list option" where
  "read_interpreter_segment content es st_size program_header capacity =
     (let p_offset = tgc_wire_get_u64 program_header 8; p_filesz = tgc_wire_get_u64 program_header 32 in
      if unat p_filesz < 2 \<or> unat p_filesz > capacity \<or> unat p_offset > INT64_MAX_NAT \<or> p_offset + p_filesz > st_size then None
      else
        case read_exact_at content es (unat p_filesz) (unat p_offset) of
          (None, _) \<Rightarrow> None
        | (Some bytes, _) \<Rightarrow> if bytes ! (unat p_filesz - 1) \<noteq> 0 then None else Some bytes)"

fun scan_program_headers ::
  "u8 list \<Rightarrow> pread_event list \<Rightarrow> u64 \<Rightarrow> nat \<Rightarrow> nat \<Rightarrow> nat \<Rightarrow> nat \<Rightarrow> u8 list option" where
  "scan_program_headers content es st_size phoff index 0 capacity = None"
| "scan_program_headers content es st_size phoff index (Suc n) capacity =
     (case read_exact_at content es 56 (phoff + index * 56) of
        (None, _) \<Rightarrow> None
      | (Some program_header, es) \<Rightarrow>
          if tgc_wire_get_u32 program_header 0 \<noteq> 3
          then scan_program_headers content es st_size phoff (Suc index) n capacity
          else read_interpreter_segment content es st_size program_header capacity)"

text \<open>The C string in a buffer.\<close>

definition c_string :: "u8 list \<Rightarrow> string" where
  "c_string bytes = map (\<lambda>b. char_of (unat b)) (takeWhile (\<lambda>b. b \<noteq> 0) bytes)"

definition read_elf_interpreter :: "exec_world \<Rightarrow> string option \<Rightarrow> nat \<Rightarrow> string option" where
  "read_elf_interpreter w filename capacity =
     (case Option.bind filename (xw_open w) of
        None \<Rightarrow> None
      | Some file \<Rightarrow>
          if \<not> ef_regular file then None
          else
            case read_exact_at (ef_content file) (ef_preads file) 64 0 of
              (None, _) \<Rightarrow> None
            | (Some header, es) \<Rightarrow>
                if \<not> elf_header_ok (xw_host w) header \<or> \<not> program_headers_ok header (ef_size file) then None
                else map_option c_string
                  (scan_program_headers (ef_content file) es (ef_size file) (unat (tgc_wire_get_u64 header 32)) 0
                    (unat (tgc_wire_get_u16 header 56)) capacity))"

definition should_wrap :: "exec_world \<Rightarrow> string option \<Rightarrow> string list option \<Rightarrow> bool" where
  "should_wrap w filename envp =
     (case environment_value envp ''TGCOMPAT_LD_SO'' of
        None \<Rightarrow> False
      | Some loader \<Rightarrow>
          is_absolute loader \<and> \<not> disabled_by_environment envp \<and>
          (case read_elf_interpreter w filename EXEC_PATH_MAX of
             None \<Rightarrow> False
           | Some interpreter \<Rightarrow> interpreter_matches w interpreter envp))"

section \<open>Starting through the loader\<close>

definition loader_arguments :: "string \<Rightarrow> string list \<Rightarrow> string \<Rightarrow> string option \<Rightarrow> string list" where
  "loader_arguments loader argv filename library_path =
     [loader, ''--inhibit-cache'', ''--argv0'', if argv = [] then filename else hd argv] @
     (case library_path of
        Some path \<Rightarrow> if path \<noteq> [] then [''--library-path'', path] else []
      | None \<Rightarrow> []) @
     [filename] @ tl argv"

definition loader_environment :: "string list option \<Rightarrow> string option \<Rightarrow> string \<Rightarrow> string list" where
  "loader_environment envp override original_path =
     filter (\<lambda>e. \<not> assigns proc_self_exe_name e \<and> \<not> (override \<noteq> None \<and> assigns ld_preload_name e))
       (case envp of None \<Rightarrow> [] | Some entries \<Rightarrow> entries) @
     (case override of Some preload \<Rightarrow> [assignment ld_preload_name preload] | None \<Rightarrow> []) @
     [assignment proc_self_exe_name original_path]"

definition build_loader_arguments ::
  "exec_world \<Rightarrow> string option \<Rightarrow> string list \<Rightarrow> string list option \<Rightarrow> wrap_result" where
  "build_loader_arguments w filename argv envp =
     (let launch_filename = redirect_exec_path w filename envp; m = xw_memory w in
      case (launch_filename, environment_value envp ''TGCOMPAT_LD_SO'') of
        (Some launch, Some loader) \<Rightarrow>
          if \<not> should_wrap w launch_filename envp then Wrap_No
          else if length argv > SIZE_MAX - 8 then Wrap_Error E2BIG []
          else
            let override = configured_environment_value w envp ''TGCOMPAT_EXEC_LD_PRELOAD'' in
            if length (case envp of None \<Rightarrow> [] | Some entries \<Rightarrow> entries) > SIZE_MAX - 3 then Wrap_Error E2BIG []
            else if \<not> xm_filename m then Wrap_Error ENOMEM []
            else if \<not> xm_argv m then Wrap_Error ENOMEM []
            else
              (case xw_realpath w launch of
                 Inl errno \<Rightarrow> Wrap_Error errno []
               | Inr original_path \<Rightarrow>
                   if length original_path > SIZE_MAX - length proc_self_exe_name - 2 then Wrap_Error ENAMETOOLONG []
                   else if \<not> xm_loader_assignment m \<or> \<not> xm_loader_environment m then Wrap_Error ENOMEM []
                   else if override \<noteq> None \<and> length (the override) > SIZE_MAX - length ld_preload_name - 2
                   then Wrap_Error ENAMETOOLONG [original_path]
                   else if override \<noteq> None \<and> \<not> xm_ld_preload m then Wrap_Error ENOMEM [original_path]
                   else Wrap_Yes
                     \<lparr>li_arguments = loader_arguments loader argv launch (environment_value envp ''TGCOMPAT_LIBRARY_PATH''),
                      li_filename = launch,
                      li_environment = loader_environment envp override original_path,
                      li_ld_preload_assignment = map_option (assignment ld_preload_name) override,
                      li_proc_self_exe_assignment = assignment proc_self_exe_name original_path\<rparr>)
      | _ \<Rightarrow> Wrap_No)"

section \<open>The interposed functions\<close>

definition execve :: "exec_world \<Rightarrow> string option \<Rightarrow> string list \<Rightarrow> string list option \<Rightarrow> exec_action" where
  "execve w filename argv envp =
     (if \<not> xw_execve w then Exec_Fail ENOSYS
      else
        case build_loader_arguments w filename argv envp of
          Wrap_No \<Rightarrow>
            (case build_final_environment w filename envp of
               Final_Error errno \<Rightarrow> Exec_Fail errno
             | Final_No \<Rightarrow> Real_Execve (redirect_exec_path w filename envp) argv envp
             | Final_Yes entries \<Rightarrow> Real_Execve (redirect_exec_path w filename envp) argv (Some entries))
        | Wrap_Error errno _ \<Rightarrow> Exec_Fail errno
        | Wrap_Yes invocation \<Rightarrow>
            Real_Execve (Some (hd (li_arguments invocation))) (li_arguments invocation) (Some (li_environment invocation)))"

text \<open>The directories of a search path, and the candidate for a directory.\<close>

fun split_path :: "string \<Rightarrow> string list" where
  "split_path [] = [[]]"
| "split_path (c # cs) =
     (if c = CHR '':'' then [] # split_path cs
      else case split_path cs of d # ds \<Rightarrow> (c # d) # ds | [] \<Rightarrow> [[c]])"

definition path_candidate :: "string \<Rightarrow> string \<Rightarrow> string" where
  "path_candidate directory file = (if directory = [] then file else directory @ ''/'' @ file)"

fun search_path :: "exec_world \<Rightarrow> string \<Rightarrow> string list option \<Rightarrow> string list \<Rightarrow> string option" where
  "search_path w file envp [] = None"
| "search_path w file envp (directory # directories) =
     (if length directory > SIZE_MAX - length file - 2 then None
      else if \<not> xm_candidate (xw_memory w) then None
      else
        let candidate = path_candidate directory file in
        if xw_access w candidate \<and> should_wrap w (Some candidate) envp then Some candidate
        else search_path w file envp directories)"

definition find_matching_path :: "exec_world \<Rightarrow> string \<Rightarrow> string list option \<Rightarrow> string option" where
  "find_matching_path w file envp =
     (if CHR ''/'' \<in> set file
      then (if should_wrap w (Some file) envp \<and> xm_candidate (xw_memory w) then Some file else None)
      else search_path w file envp
        (split_path (case environment_value (Some (xw_environ w)) ''PATH'' of None \<Rightarrow> ''/bin:/usr/bin'' | Some path \<Rightarrow> path)))"

definition execv :: "exec_world \<Rightarrow> string option \<Rightarrow> string list \<Rightarrow> exec_action" where
  "execv w path argv = execve w path argv (Some (xw_environ w))"

definition execvpe :: "exec_world \<Rightarrow> string \<Rightarrow> string list \<Rightarrow> string list option \<Rightarrow> exec_action" where
  "execvpe w file argv envp =
     (if CHR ''/'' \<in> set file then execve w (Some file) argv envp
      else
        case find_matching_path w file envp of
          Some candidate \<Rightarrow> execve w (Some candidate) argv envp
        | None \<Rightarrow> if \<not> xw_execvpe w then Exec_Fail ENOSYS else Real_Execvpe file argv envp)"

definition execvp :: "exec_world \<Rightarrow> string \<Rightarrow> string list \<Rightarrow> exec_action" where
  "execvp w file argv = execvpe w file argv (Some (xw_environ w))"

text \<open>
  The variadic functions: their arguments up to the terminating NULL are a list, which \<^verbatim>\<open>execle\<close> follows with an
  environment. \<open>Inl\<close> is the error number when no array could be made.
\<close>

definition collect_variadic_arguments :: "exec_world \<Rightarrow> string list \<Rightarrow> s32 + string list" where
  "collect_variadic_arguments w values =
     (if length values > SIZE_MAX - 1 then Inl E2BIG
      else if \<not> xm_arguments (xw_memory w) then Inl ENOMEM
      else Inr values)"

definition execl :: "exec_world \<Rightarrow> string option \<Rightarrow> string list \<Rightarrow> exec_action" where
  "execl w path values =
     (case collect_variadic_arguments w values of
        Inl errno \<Rightarrow> Exec_Fail errno
      | Inr arguments \<Rightarrow> execve w path arguments (Some (xw_environ w)))"

definition execle :: "exec_world \<Rightarrow> string option \<Rightarrow> string list \<Rightarrow> string list option \<Rightarrow> exec_action" where
  "execle w path values environment =
     (case collect_variadic_arguments w values of
        Inl errno \<Rightarrow> Exec_Fail errno
      | Inr arguments \<Rightarrow> execve w path arguments environment)"

definition execlp :: "exec_world \<Rightarrow> string \<Rightarrow> string list \<Rightarrow> exec_action" where
  "execlp w file values =
     (case collect_variadic_arguments w values of
        Inl errno \<Rightarrow> Exec_Fail errno
      | Inr arguments \<Rightarrow> execvpe w file arguments (Some (xw_environ w)))"

text \<open>Every caller passes the real \<^verbatim>\<open>posix_spawn\<close>; process id, file actions and attributes are passed through.\<close>

definition spawn_wrapped :: "exec_world \<Rightarrow> string option \<Rightarrow> string list \<Rightarrow> string list option \<Rightarrow> exec_action" where
  "spawn_wrapped w path argv envp =
     (case build_loader_arguments w path argv envp of
        Wrap_Error errno _ \<Rightarrow> Exec_Fail (if errno \<noteq> 0 then errno else ENOMEM)
      | Wrap_No \<Rightarrow>
          (case build_final_environment w path envp of
             Final_Error errno \<Rightarrow> Exec_Fail (if errno \<noteq> 0 then errno else ENOMEM)
           | Final_No \<Rightarrow> Real_Posix_Spawn (redirect_exec_path w path envp) argv envp
           | Final_Yes entries \<Rightarrow> Real_Posix_Spawn (redirect_exec_path w path envp) argv (Some entries))
      | Wrap_Yes invocation \<Rightarrow>
          Real_Posix_Spawn (Some (hd (li_arguments invocation))) (li_arguments invocation) (Some (li_environment invocation)))"

definition posix_spawn :: "exec_world \<Rightarrow> string option \<Rightarrow> string list \<Rightarrow> string list option \<Rightarrow> exec_action" where
  "posix_spawn w path argv envp =
     (if \<not> xw_posix_spawn w then Exec_Fail ENOSYS else spawn_wrapped w path argv envp)"

definition posix_spawnp :: "exec_world \<Rightarrow> string \<Rightarrow> string list \<Rightarrow> string list option \<Rightarrow> exec_action" where
  "posix_spawnp w file argv envp =
     (if \<not> xw_posix_spawnp w then Exec_Fail ENOSYS
      else if CHR ''/'' \<in> set file then
        (if \<not> xw_posix_spawn w then Exec_Fail ENOSYS else spawn_wrapped w (Some file) argv envp)
      else
        case find_matching_path w file envp of
          None \<Rightarrow> Real_Posix_Spawnp file argv envp
        | Some candidate \<Rightarrow>
            if \<not> xw_posix_spawn w then Exec_Fail ENOSYS else spawn_wrapped w (Some candidate) argv envp)"

end
