(* ===== verification/Tgc_Exec_Props.thy ===== *)
theory Tgc_Exec_Props
  imports Tgc_Exec
begin

text \<open>
  Properties of the interposed process-start functions: what the new program finds in its arguments and its environment, that the ELF reader
  stays inside the file, that nothing changes without configuration, and which program a search finds.
\<close>

section \<open>Environments\<close>

lemma assigns_iff: "assigns name e \<longleftrightarrow> (\<exists>v. e = assignment name v)"
proof
  assume "assigns name e"
  then have "e = (name @ ''='') @ drop (Suc (length name)) e" unfolding assigns_def by (metis append_take_drop_id)
  then have "e = assignment name (drop (Suc (length name)) e)" by (simp add: assignment_def)
  then show "\<exists>v. e = assignment name v" ..
qed (auto simp: assigns_def assignment_def)

lemma assigns_unique:
  assumes "assigns a e" "assigns b e" "CHR ''='' \<notin> set a" "CHR ''='' \<notin> set b"
  shows "a = b"
proof -
  obtain v where "e = a @ CHR ''='' # v" using assms(1) by (auto simp: assigns_iff assignment_def)
  moreover obtain v' where "e = b @ CHR ''='' # v'" using assms(2) by (auto simp: assigns_iff assignment_def)
  moreover have "takeWhile (\<lambda>c. c \<noteq> CHR ''='') (x @ CHR ''='' # y) = x" if "CHR ''='' \<notin> set x" for x y
    using that by (induction x) auto
  ultimately show ?thesis using assms(3,4) by metis
qed

lemma assigns_assignment: "CHR ''='' \<notin> set a \<Longrightarrow> CHR ''='' \<notin> set b \<Longrightarrow> assigns a (assignment b v) \<longleftrightarrow> a = b"
  using assigns_unique [of a "assignment b v" b] by (auto simp: assigns_iff)

lemma drop_assignment: "drop (Suc (length n)) (assignment n v) = v"
  by (simp add: assignment_def)

lemma find_append: "find P (xs @ ys) = (case find P xs of Some x \<Rightarrow> Some x | None \<Rightarrow> find P ys)"
  by (induction xs) auto

lemma find_filter_same: "(\<And>e. P e \<Longrightarrow> Q e) \<Longrightarrow> find P (filter Q xs) = find P xs"
  by (induction xs) auto

lemma find_filter_none: "(\<And>e. P e \<Longrightarrow> \<not> Q e) \<Longrightarrow> find P (filter Q xs) = None"
  by (induction xs) auto

lemma names_valid [simp]: "CHR ''='' \<notin> set ld_preload_name" "CHR ''='' \<notin> set proc_self_exe_name" "ld_preload_name \<noteq> proc_self_exe_name"
  "proc_self_exe_name \<noteq> ld_preload_name"
  by (simp_all add: ld_preload_name_def proc_self_exe_name_def)

text \<open>A variable after some entries were dropped and assignments were appended.\<close>

lemma value_appended:
  assumes "CHR ''='' \<notin> set name" "CHR ''='' \<notin> set n"
  shows "environment_value (Some (entries @ [assignment n v])) name =
    (case environment_value (Some entries) name of Some x \<Rightarrow> Some x | None \<Rightarrow> if n = name then Some v else None)"
  using assms by (auto simp: environment_value_def find_append assigns_assignment drop_assignment split: option.split)

lemma value_filtered:
  assumes "\<And>e. assigns name e \<Longrightarrow> Q e"
  shows "environment_value (Some (filter Q entries)) name = environment_value (Some entries) name"
  using find_filter_same [of "assigns name" Q entries] assms by (simp add: environment_value_def)

lemma value_dropped:
  assumes "\<And>e. assigns name e \<Longrightarrow> \<not> Q e"
  shows "environment_value (Some (filter Q entries)) name = None"
  using find_filter_none [of "assigns name" Q entries] assms by (simp add: environment_value_def)

lemma value_none: "environment_value (Some (case envp of None \<Rightarrow> [] | Some es \<Rightarrow> es)) name = environment_value envp name"
  by (cases envp) (simp_all add: environment_value_def)

lemma loader_environment_value:
  assumes "CHR ''='' \<notin> set name"
  shows "environment_value (Some (loader_environment envp override path)) name =
    (if name = proc_self_exe_name then Some path
     else if name = ld_preload_name \<and> override \<noteq> None then override
     else environment_value envp name)"
proof -
  let ?Q = "\<lambda>e. \<not> assigns proc_self_exe_name e \<and> \<not> (override \<noteq> None \<and> assigns ld_preload_name e)"
  let ?es = "case envp of None \<Rightarrow> [] | Some es \<Rightarrow> es"
  have base: "environment_value (Some (filter ?Q ?es)) name =
      (if name = proc_self_exe_name \<or> name = ld_preload_name \<and> override \<noteq> None then None else environment_value envp name)"
  proof (cases "name = proc_self_exe_name \<or> name = ld_preload_name \<and> override \<noteq> None")
    case True
    then show ?thesis using value_dropped [of name ?Q ?es] by auto
  next
    case False
    have "?Q e" if "assigns name e" for e
      using assigns_unique [OF that _ assms names_valid(1)] assigns_unique [OF that _ assms names_valid(2)] False by auto
    then show ?thesis using value_filtered [of name ?Q ?es] value_none [of envp name] False by auto
  qed
  show ?thesis
  proof (cases override)
    case None
    then show ?thesis
      using base value_appended [OF assms names_valid(2), of "filter ?Q ?es" path]
      by (auto simp: loader_environment_def split: option.split)
  next
    case (Some preload)
    then show ?thesis
      using base value_appended [OF assms names_valid(2), of "filter ?Q ?es @ [assignment ld_preload_name preload]" path]
        value_appended [OF assms names_valid(1), of "filter ?Q ?es" preload]
      by (auto simp: loader_environment_def split: option.split)
  qed
qed

lemma final_environment_value:
  assumes "CHR ''='' \<notin> set name" and "build_final_environment w filename envp = Final_Yes entries"
  shows "environment_value (Some entries) name =
    (if name = ld_preload_name then configured_environment_value w envp final_ld_preload_name
     else if name = proc_self_exe_name \<and> configured_environment_value w envp final_proc_self_exe_name \<noteq> None
     then configured_environment_value w envp final_proc_self_exe_name
     else environment_value envp name)"
proof -
  define exe where "exe = configured_environment_value w envp final_proc_self_exe_name"
  let ?Q = "\<lambda>e. \<not> assigns ld_preload_name e \<and> \<not> (exe \<noteq> None \<and> assigns proc_self_exe_name e)"
  obtain preload es where pre: "configured_environment_value w envp final_ld_preload_name = Some preload" and envp: "envp = Some es"
    and entries: "entries = filter ?Q es @ [assignment ld_preload_name preload] @
      (case exe of Some exe \<Rightarrow> [assignment proc_self_exe_name exe] | None \<Rightarrow> [])"
    using assms(2) by (auto simp: build_final_environment_def exe_def Let_def split: if_splits option.splits)
  have base: "environment_value (Some (filter ?Q es)) name =
      (if name = ld_preload_name \<or> name = proc_self_exe_name \<and> exe \<noteq> None then None else environment_value envp name)"
  proof (cases "name = ld_preload_name \<or> name = proc_self_exe_name \<and> exe \<noteq> None")
    case True
    then show ?thesis using value_dropped [of name ?Q es] by auto
  next
    case False
    have "?Q e" if "assigns name e" for e
      using assigns_unique [OF that _ assms(1) names_valid(1)] assigns_unique [OF that _ assms(1) names_valid(2)] False by auto
    then show ?thesis using value_filtered [of name ?Q es] False by (auto simp: envp)
  qed
  have one: "environment_value (Some (filter ?Q es @ [assignment ld_preload_name preload])) name =
      (if name = ld_preload_name then Some preload
       else if name = proc_self_exe_name \<and> exe \<noteq> None then None else environment_value envp name)"
    using base value_appended [OF assms(1) names_valid(1), of "filter ?Q es" preload] by (auto split: option.split)
  then show ?thesis
    using value_appended [OF assms(1) names_valid(2), of "filter ?Q es @ [assignment ld_preload_name preload]" "the exe"]
    by (cases exe) (auto simp: entries pre exe_def [symmetric] split: option.split)
qed

section \<open>Started through the loader\<close>

text \<open>
  C30. What a program started through the loader gets. The loader named by \<^verbatim>\<open>TGCOMPAT_LD_SO\<close> is run with the program as its argument; the program sees
  the argument vector of the caller, its own path in \<^verbatim>\<open>TGCOMPAT_PROC_SELF_EXE\<close>, the configured \<^verbatim>\<open>LD_PRELOAD\<close> if there is one, and every other
  variable as the caller set it. Wrapping only happens for a program with a matching ELF interpreter.
\<close>

theorem wrapped_execve:
  assumes "xw_execve w" and "build_loader_arguments w filename argv envp = Wrap_Yes invocation"
  shows "\<exists>launch loader original env'.
    redirect_exec_path w filename envp = Some launch \<and> should_wrap w (Some launch) envp \<and>
    environment_value envp ''TGCOMPAT_LD_SO'' = Some loader \<and> xw_realpath w launch = Inr original \<and>
    execve w filename argv envp = Real_Execve (Some loader)
      ([loader, ''--inhibit-cache'', ''--argv0'', if argv = [] then launch else hd argv] @
       (case environment_value envp ''TGCOMPAT_LIBRARY_PATH'' of
          Some path \<Rightarrow> if path = [] then [] else [''--library-path'', path] | None \<Rightarrow> []) @
       [launch] @ tl argv) (Some env') \<and>
    (\<forall>name. CHR ''='' \<notin> set name \<longrightarrow> environment_value (Some env') name =
      (if name = ''TGCOMPAT_PROC_SELF_EXE'' then Some original
       else if name = ''LD_PRELOAD'' \<and> configured_environment_value w envp ''TGCOMPAT_EXEC_LD_PRELOAD'' \<noteq> None
       then configured_environment_value w envp ''TGCOMPAT_EXEC_LD_PRELOAD''
       else environment_value envp name))"
proof -
  obtain launch loader original where b: "redirect_exec_path w filename envp = Some launch" "should_wrap w (Some launch) envp"
    "environment_value envp ''TGCOMPAT_LD_SO'' = Some loader" "xw_realpath w launch = Inr original"
    "li_arguments invocation = loader_arguments loader argv launch (environment_value envp ''TGCOMPAT_LIBRARY_PATH'')"
    "li_environment invocation =
       loader_environment envp (configured_environment_value w envp ''TGCOMPAT_EXEC_LD_PRELOAD'') original"
    using assms(2) unfolding build_loader_arguments_def Let_def
    by (auto split: option.splits if_splits sum.splits)
  show ?thesis
    using assms b loader_environment_value [of _ envp "configured_environment_value w envp ''TGCOMPAT_EXEC_LD_PRELOAD''" original]
    by (intro exI [of _ launch] exI [of _ loader] exI [of _ original] exI [of _ "li_environment invocation"])
      (auto simp: execve_def loader_arguments_def ld_preload_name_def proc_self_exe_name_def split: option.splits)
qed

section \<open>Without configuration\<close>

text \<open>No variable of the shim is set, neither for the new program nor in the process.\<close>

definition unconfigured :: "exec_world \<Rightarrow> string list option \<Rightarrow> bool" where
  "unconfigured w envp \<longleftrightarrow>
     (\<forall>e \<in> set (case envp of None \<Rightarrow> [] | Some es \<Rightarrow> es) \<union> set (xw_environ w). take 9 e \<noteq> ''TGCOMPAT_'')"

lemma no_value:
  assumes "\<forall>e \<in> set (case envp of None \<Rightarrow> [] | Some es \<Rightarrow> es). take 9 e \<noteq> ''TGCOMPAT_''" and "take 9 name = ''TGCOMPAT_''"
  shows "environment_value envp name = None"
proof -
  have "9 \<le> length name" using arg_cong [OF assms(2), of length] by simp
  then have "take 9 e = ''TGCOMPAT_''" if "assigns name e" for e
    using that assms(2) by (auto simp: assigns_iff assignment_def)
  then show ?thesis
    using assms(1) by (cases envp) (auto simp: environment_value_def find_None_iff)
qed

lemma unconfigured_values:
  assumes "unconfigured w envp" and "take 9 name = ''TGCOMPAT_''"
  shows "environment_value envp name = None" and "configured_environment_value w envp name = None"
    and "environment_value (Some (xw_environ w)) name = None"
  using no_value [OF _ assms(2), of envp] no_value [OF _ assms(2), of "Some (xw_environ w)"] assms(1)
  by (auto simp: unconfigured_def configured_environment_value_def)

lemma unconfigured_environ: "unconfigured w envp \<Longrightarrow> unconfigured w (Some (xw_environ w))"
  by (auto simp: unconfigured_def)

text \<open>
  The real functions as they are without the shim: \<^verbatim>\<open>ENOSYS\<close> when the next library has none. A name with a slash is not searched for, so for it a searching function is the
  one that takes a path.
\<close>

definition real_execve :: "exec_world \<Rightarrow> string option \<Rightarrow> string list \<Rightarrow> string list option \<Rightarrow> exec_action" where
  "real_execve w path argv envp = (if xw_execve w then Real_Execve path argv envp else Exec_Fail ENOSYS)"

definition real_execvpe :: "exec_world \<Rightarrow> string \<Rightarrow> string list \<Rightarrow> string list option \<Rightarrow> exec_action" where
  "real_execvpe w file argv envp =
     (if CHR ''/'' \<in> set file then real_execve w (Some file) argv envp
      else if xw_execvpe w then Real_Execvpe file argv envp else Exec_Fail ENOSYS)"

definition real_posix_spawn :: "exec_world \<Rightarrow> string option \<Rightarrow> string list \<Rightarrow> string list option \<Rightarrow> exec_action" where
  "real_posix_spawn w path argv envp = (if xw_posix_spawn w then Real_Posix_Spawn path argv envp else Exec_Fail ENOSYS)"

definition real_posix_spawnp :: "exec_world \<Rightarrow> string \<Rightarrow> string list \<Rightarrow> string list option \<Rightarrow> exec_action" where
  "real_posix_spawnp w file argv envp =
     (if \<not> xw_posix_spawnp w then Exec_Fail ENOSYS
      else if CHR ''/'' \<in> set file then real_posix_spawn w (Some file) argv envp else Real_Posix_Spawnp file argv envp)"

lemma unconfigured_steps:
  assumes "unconfigured w envp"
  shows "execve w filename argv envp = real_execve w filename argv envp" and "execvpe w file argv envp = real_execvpe w file argv envp"
    and "posix_spawn w filename argv envp = real_posix_spawn w filename argv envp" and "posix_spawnp w file argv envp = real_posix_spawnp w file argv envp"
proof -
  note v = unconfigured_values [OF assms(1)]
  have wrap: "\<not> should_wrap w f envp" for f using v(1) by (simp add: should_wrap_def)
  have redirect: "redirect_exec_path w f envp = f" for f
    using v by (cases f) (auto simp: redirect_exec_path_def redirect_configured_path_def redirect_shell_path_def
        path_from_name_def path_to_name_def shell_redirect_name_def split: option.split)
  have build: "build_loader_arguments w f argv envp = Wrap_No" for f
    using v(1) [of "''TGCOMPAT_LD_SO''"] by (cases "redirect_exec_path w f envp") (simp_all add: build_loader_arguments_def Let_def)
  have final: "build_final_environment w f envp = Final_No" for f
    using v(2) by (simp add: build_final_environment_def final_path_matches_def final_path_prefix_name_def split: option.split)
  have search: "search_path w file envp ds = None" for ds by (induction ds) (simp_all add: wrap)
  have e: "execve w f argv envp = real_execve w f argv envp" for f by (simp add: execve_def real_execve_def build final redirect)
  have s: "spawn_wrapped w f argv envp = Real_Posix_Spawn f argv envp" for f
    by (simp add: spawn_wrapped_def build final redirect)
  show "execve w filename argv envp = real_execve w filename argv envp" by (rule e)
  show "execvpe w file argv envp = real_execvpe w file argv envp" by (simp add: execvpe_def real_execvpe_def e find_matching_path_def search)
  show "posix_spawn w filename argv envp = real_posix_spawn w filename argv envp" by (simp add: posix_spawn_def real_posix_spawn_def s)
  show "posix_spawnp w file argv envp = real_posix_spawnp w file argv envp"
    by (simp add: posix_spawnp_def real_posix_spawnp_def real_posix_spawn_def s find_matching_path_def search)
qed

text \<open>
  C32. Without configuration the shim adds nothing: when no \<^verbatim>\<open>TGCOMPAT_\<close> variable is set, neither for the new program nor in the process, each of the nine interposed functions
  calls a real function with exactly the arguments and the environment it was given, the variadic ones and \<^verbatim>\<open>execv\<close> and \<^verbatim>\<open>execvp\<close> with that of the process where they take none.
  \<^verbatim>\<open>execve\<close>, \<^verbatim>\<open>execv\<close>, \<^verbatim>\<open>execl\<close> and \<^verbatim>\<open>execle\<close> reach the real \<^verbatim>\<open>execve\<close>, and \<^verbatim>\<open>posix_spawn\<close> the real \<^verbatim>\<open>posix_spawn\<close>; \<^verbatim>\<open>execvpe\<close>, \<^verbatim>\<open>execvp\<close>, \<^verbatim>\<open>execlp\<close> and
  \<^verbatim>\<open>posix_spawnp\<close> reach the real \<^verbatim>\<open>execvpe\<close> or \<^verbatim>\<open>posix_spawnp\<close> for a name without a slash, and the real \<^verbatim>\<open>execve\<close> or \<^verbatim>\<open>posix_spawn\<close> for one with a slash. They fail only when that
  function is missing, or, the variadic ones, when their arguments cannot be collected.
\<close>

theorem unconfigured_is_transparent:
  assumes "unconfigured w envp"
  shows "execve w filename argv envp = real_execve w filename argv envp \<and>
    execv w filename argv = real_execve w filename argv (Some (xw_environ w)) \<and>
    execvpe w file argv envp = real_execvpe w file argv envp \<and>
    execvp w file argv = real_execvpe w file argv (Some (xw_environ w)) \<and>
    posix_spawn w filename argv envp = real_posix_spawn w filename argv envp \<and>
    posix_spawnp w file argv envp = real_posix_spawnp w file argv envp \<and>
    (case collect_variadic_arguments w argv of
       Inl errno \<Rightarrow> execl w filename argv = Exec_Fail errno \<and> execle w filename argv envp = Exec_Fail errno \<and> execlp w file argv = Exec_Fail errno \<and>
         errno = (if length argv > SIZE_MAX - 1 then E2BIG else ENOMEM)
     | Inr arguments \<Rightarrow> arguments = argv \<and> execl w filename argv = real_execve w filename argv (Some (xw_environ w)) \<and>
         execle w filename argv envp = real_execve w filename argv envp \<and> execlp w file argv = real_execvpe w file argv (Some (xw_environ w)))"
proof -
  note own = unconfigured_steps [OF assms] and process = unconfigured_steps [OF unconfigured_environ [OF assms]]
  show ?thesis
    by (simp add: execv_def execvp_def execl_def execle_def execlp_def collect_variadic_arguments_def own process split: sum.split)
qed

section \<open>The ELF reader\<close>

text \<open>The bytes of a file from \<open>p\<close> on.\<close>

abbreviation part :: "'a list \<Rightarrow> nat \<Rightarrow> nat \<Rightarrow> 'a list" where
  "part xs p n \<equiv> take n (drop p xs)"

lemma take_own_length: "take (length (take k xs)) xs = take k xs"
  by (simp add: min_def)

lemma slice_append: "part xs p m @ part xs (p + m) n = part xs p (m + n)"
  by (simp add: take_add add.commute)

text \<open>However the reads are cut or interrupted, what is read is that part of the file.\<close>

lemma read_loop_slice:
  assumes "read_loop content es len offset got = (Some bytes, es')" and "got = part content offset (length got)" and "length got \<le> len"
  shows "bytes = part content offset len \<and> length bytes = len"
  using assms
proof (induction content es len offset got rule: read_loop.induct)
  case (1 content len offset got)
  then show ?case
    using slice_append [of "length got" offset content "len - length got"] by (auto split: if_splits)
next
  case (2 content e es len offset got)
  show ?case
  proof (cases "length got \<ge> len")
    case True
    then show ?thesis using 2 by auto
  next
    case False
    show ?thesis
    proof (cases e)
      case (Pread_Error errno)
      then show ?thesis using 2 False by (auto split: if_splits)
    next
      case (Pread_Max n)
      define bs where "bs = take n (take (len - length got) (drop (offset + length got) content))"
      have ne: "bs \<noteq> []" and rec: "read_loop content es len offset (got @ bs) = (Some bytes, es')"
        using 2(3) False Pread_Max by (auto simp: bs_def Let_def split: if_splits)
      have "bs = part content (offset + length got) (min n (len - length got))" by (simp add: bs_def)
      then have "bs = part content (offset + length got) (length bs)" using take_own_length by metis
      then have "got @ bs = part content offset (length (got @ bs))"
        using 2(4) slice_append [of "length got" offset content "length bs"] length_append by metis
      moreover have "length (got @ bs) \<le> len" using False by (simp add: bs_def)
      ultimately show ?thesis by (rule 2(1) [OF False Pread_Max bs_def ne rec])
    qed
  qed
qed

lemma read_exact_slice:
  assumes "read_exact_at content es len offset = (Some bytes, es')"
  shows "bytes = part content offset len" and "length bytes = len"
  using assms read_loop_slice [of content es len offset "[]"]
  by (auto simp: read_exact_at_def split: if_splits)

lemma slice_length: "length (part xs p n) = n \<Longrightarrow> p + n \<le> length xs \<or> n = 0"
  by (auto simp: min_def split: if_splits)

lemma takeWhile_shorter: "x \<in> set xs \<Longrightarrow> \<not> P x \<Longrightarrow> length (takeWhile P xs) < length xs"
  by (induction xs) auto

lemma interpreter_segment:
  assumes "read_interpreter_segment content es st_size ph capacity = Some bytes"
  shows "tgc_wire_get_u64 ph 32 \<noteq> 0" and "bytes = part content (unat (tgc_wire_get_u64 ph 8)) (unat (tgc_wire_get_u64 ph 32))"
    and "2 \<le> length bytes" "length bytes \<le> capacity" "last bytes = 0" "length bytes = unat (tgc_wire_get_u64 ph 32)"
    and "unat (tgc_wire_get_u64 ph 8) + length bytes \<le> length content"
    and "capacity \<le> INT64_MAX_NAT \<Longrightarrow> unat (tgc_wire_get_u64 ph 8) + length bytes \<le> unat st_size"
proof -
  let ?off = "tgc_wire_get_u64 ph 8" and ?sz = "tgc_wire_get_u64 ph 32"
  obtain es' where read: "read_exact_at content es (unat ?sz) (unat ?off) = (Some bytes, es')" and nul: "bytes ! (unat ?sz - 1) = 0"
    and lim: "\<not> unat ?sz < 2" "\<not> unat ?sz > capacity" "\<not> unat ?off > INT64_MAX_NAT" "\<not> ?off + ?sz > st_size"
    using assms by (auto simp: read_interpreter_segment_def Let_def split: if_splits option.splits prod.splits)
  note b = read_exact_slice [OF read]
  show "?sz \<noteq> 0" using lim(1) by auto
  show part: "bytes = part content (unat ?off) (unat ?sz)" by (rule b(1))
  show len: "length bytes = unat ?sz" by (rule b(2))
  show two: "2 \<le> length bytes" and "length bytes \<le> capacity" using lim by (simp_all add: len)
  show "last bytes = 0" using nul two by (cases bytes) (auto simp: last_conv_nth len [symmetric])
  show "unat ?off + length bytes \<le> length content" using slice_length [of "unat ?sz" "unat ?off" content] b two by auto
  assume cap: "capacity \<le> INT64_MAX_NAT"
  then have "unat ?off + unat ?sz < 2 ^ 64" using lim by simp
  then have "unat (?off + ?sz) = unat ?off + unat ?sz" by (simp add: unat_word_ariths)
  then show "unat ?off + length bytes \<le> unat st_size" using lim(4) by (simp add: len word_le_nat_alt not_less)
qed

text \<open>The program headers of a file, as its ELF header locates them.\<close>

definition program_header :: "u8 list \<Rightarrow> nat \<Rightarrow> u8 list" where
  "program_header content i = part content (unat (tgc_wire_get_u64 (take 64 content) 32) + i * 56) 56"

lemma scan_first_interp:
  assumes "scan_program_headers content es st_size phoff index n capacity = Some bytes"
  shows "\<exists>i es. index \<le> i \<and> i < index + n \<and>
    (\<forall>j. index \<le> j \<and> j < i \<longrightarrow> tgc_wire_get_u32 (part content (phoff + j * 56) 56) 0 \<noteq> 3) \<and>
    tgc_wire_get_u32 (part content (phoff + i * 56) 56) 0 = 3 \<and> phoff + i * 56 + 56 \<le> length content \<and>
    read_interpreter_segment content es st_size (part content (phoff + i * 56) 56) capacity = Some bytes"
  using assms
proof (induction n arbitrary: es index)
  case (Suc n)
  obtain ph es' where read: "read_exact_at content es 56 (phoff + index * 56) = (Some ph, es')"
    using Suc.prems by (auto split: prod.splits option.splits)
  have ph: "ph = part content (phoff + index * 56) 56" and inside: "phoff + index * 56 + 56 \<le> length content"
    using read_exact_slice [OF read] slice_length [of 56 "phoff + index * 56" content] by auto
  show ?case
  proof (cases "tgc_wire_get_u32 ph 0 = 3")
    case True
    then show ?thesis using Suc.prems read ph inside by (intro exI [of _ index] exI [of _ es']) auto
  next
    case False
    then have "scan_program_headers content es' st_size phoff (Suc index) n capacity = Some bytes"
      using Suc.prems read by simp
    from Suc.IH [OF this] obtain i es2 where i: "Suc index \<le> i" "i < Suc index + n"
      "\<forall>j. Suc index \<le> j \<and> j < i \<longrightarrow> tgc_wire_get_u32 (part content (phoff + j * 56) 56) 0 \<noteq> 3"
      "tgc_wire_get_u32 (part content (phoff + i * 56) 56) 0 = 3" "phoff + i * 56 + 56 \<le> length content"
      "read_interpreter_segment content es2 st_size (part content (phoff + i * 56) 56) capacity = Some bytes" by blast
    have "tgc_wire_get_u32 (part content (phoff + j * 56) 56) 0 \<noteq> 3" if "index \<le> j" "j < i" for j
      using i(3) False ph that by (cases "j = index") auto
    then show ?thesis using i by (intro exI [of _ i] exI [of _ es2]) auto
  qed
qed simp

text \<open>
  C31. The ELF reader is sound and stays inside the file: if it reports an interpreter, the file is a regular 64-bit little-endian ELF
  file for this machine, the interpreter is the string in the first interpreter segment, that segment and its program header lie within the
  bytes of the file, and the segment ends in a NUL byte and fits the buffer of the caller, whatever the header claims and however
  the reads are cut short or interrupted.
\<close>

theorem elf_interpreter_sound:
  assumes "read_elf_interpreter w filename capacity = Some interpreter" and "capacity \<le> EXEC_PATH_MAX"
  shows "\<exists>img i bytes. Option.bind filename (xw_open w) = Some img \<and> ef_regular img \<and>
    elf_header_ok (xw_host w) (take 64 (ef_content img)) \<and>
    i < unat (tgc_wire_get_u16 (take 64 (ef_content img)) 56) \<and>
    tgc_wire_get_u32 (program_header (ef_content img) i) 0 = 3 \<and>
    (\<forall>j < i. tgc_wire_get_u32 (program_header (ef_content img) j) 0 \<noteq> 3) \<and>
    unat (tgc_wire_get_u64 (take 64 (ef_content img)) 32) + i * 56 + 56 \<le> length (ef_content img) \<and>
    bytes = part (ef_content img) (unat (tgc_wire_get_u64 (program_header (ef_content img) i) 8))
      (unat (tgc_wire_get_u64 (program_header (ef_content img) i) 32)) \<and>
    unat (tgc_wire_get_u64 (program_header (ef_content img) i) 8) + length bytes \<le> length (ef_content img) \<and>
    unat (tgc_wire_get_u64 (program_header (ef_content img) i) 8) + length bytes \<le> unat (ef_size img) \<and>
    length bytes \<le> capacity \<and> last bytes = 0 \<and> interpreter = c_string bytes \<and> length interpreter < capacity"
proof -
  obtain img header es where f: "Option.bind filename (xw_open w) = Some img" "ef_regular img"
    and read: "read_exact_at (ef_content img) (ef_preads img) 64 0 = (Some header, es)"
    and ok: "elf_header_ok (xw_host w) header"
    and scan: "map_option c_string (scan_program_headers (ef_content img) es (ef_size img) (unat (tgc_wire_get_u64 header 32)) 0
      (unat (tgc_wire_get_u16 header 56)) capacity) = Some interpreter"
    using assms(1) by (auto simp: read_elf_interpreter_def split: option.splits if_splits prod.splits)
  have header: "header = take 64 (ef_content img)" using read_exact_slice(1) [OF read] by simp
  obtain bytes where bytes: "scan_program_headers (ef_content img) es (ef_size img) (unat (tgc_wire_get_u64 header 32)) 0
      (unat (tgc_wire_get_u16 header 56)) capacity = Some bytes" "interpreter = c_string bytes" using scan by auto
  obtain i es2 where i: "i < unat (tgc_wire_get_u16 header 56)"
    "\<forall>j < i. tgc_wire_get_u32 (program_header (ef_content img) j) 0 \<noteq> 3"
    "tgc_wire_get_u32 (program_header (ef_content img) i) 0 = 3"
    "unat (tgc_wire_get_u64 header 32) + i * 56 + 56 \<le> length (ef_content img)"
    and seg: "read_interpreter_segment (ef_content img) es2 (ef_size img) (program_header (ef_content img) i) capacity = Some bytes"
    using scan_first_interp [OF bytes(1)] by (auto simp: program_header_def header)
  note s = interpreter_segment [OF seg]
  have "length (c_string bytes) < length bytes"
  proof -
    have "last bytes \<in> set bytes" using s(3) by (cases bytes) auto
    then have "length (takeWhile (\<lambda>b. b \<noteq> 0) bytes) < length bytes" using s(5) by (intro takeWhile_shorter) auto
    then show ?thesis by (simp add: c_string_def)
  qed
  then show ?thesis
    using f ok i s assms(2) bytes(2) unfolding header
    by (intro exI [of _ img] exI [of _ i] exI [of _ bytes]) auto
qed

section \<open>A concrete world\<close>

text \<open>An ELF file for AArch64 with one program header, whose interpreter is \<^verbatim>\<open>/i\<close>; two directories to search.\<close>

definition demo_elf_header :: "u8 list" where
  "demo_elf_header =
     [0x7f, 0x45, 0x4c, 0x46, 2, 1, 0, 0, 0, 0, 0, 0, 0, 0, 0, 0, 2, 0, 183, 0, 0, 0, 0, 0, 0, 0, 0, 0, 0, 0, 0, 0,
      64, 0, 0, 0, 0, 0, 0, 0, 0, 0, 0, 0, 0, 0, 0, 0, 0, 0, 0, 0, 64, 0, 56, 0, 1, 0, 0, 0, 0, 0, 0, 0]"

definition demo_program_header :: "u8 list" where
  "demo_program_header =
     [3, 0, 0, 0, 0, 0, 0, 0, 120, 0, 0, 0, 0, 0, 0, 0, 0, 0, 0, 0, 0, 0, 0, 0, 0, 0, 0, 0, 0, 0, 0, 0,
      3, 0, 0, 0, 0, 0, 0, 0, 0, 0, 0, 0, 0, 0, 0, 0, 0, 0, 0, 0, 0, 0, 0, 0]"

definition demo_elf :: elf_file where
  "demo_elf = \<lparr>ef_regular = True, ef_size = 123, ef_content = demo_elf_header @ demo_program_header @ [0x2f, 0x69, 0],
     ef_preads = [Pread_Error EINTR]\<rparr>"

definition demo_memory :: exec_memory where
  "demo_memory = \<lparr>xm_assignment = True, xm_proc_assignment = True, xm_values = True, xm_filename = True, xm_argv = True,
     xm_loader_assignment = True, xm_loader_environment = True, xm_ld_preload = True, xm_candidate = True, xm_arguments = True\<rparr>"

definition demo_world :: exec_world where
  "demo_world = \<lparr>xw_host = Aarch64, xw_environ = [''PATH=/a:/b''],
     xw_open = (\<lambda>p. if p = ''/b/foo'' then Some demo_elf else None), xw_access = (\<lambda>p. True), xw_realpath = Inr, xw_memory = demo_memory,
     xw_execve = True, xw_execvpe = True, xw_posix_spawn = True, xw_posix_spawnp = True\<rparr>"

definition demo_environment :: "string list" where
  "demo_environment = [''A=1'', ''LD_PRELOAD=/x'', ''TGCOMPAT_LD_SO=/ld'', ''TGCOMPAT_EXEC_MATCH_INTERPRETER=/i'']"

lemma demo_lengths: "length demo_elf_header = 64" "length demo_program_header = 56"
  by (simp_all add: demo_elf_header_def demo_program_header_def)

lemma demo_reads:
  "read_exact_at (ef_content demo_elf) (ef_preads demo_elf) 64 0 = (Some demo_elf_header, [])"
  "read_exact_at (ef_content demo_elf) [] 56 64 = (Some demo_program_header, [])"
  "read_exact_at (ef_content demo_elf) [] 3 120 = (Some [0x2f, 0x69, 0], [])"
  by (simp_all add: read_exact_at_def demo_elf_def demo_lengths)

lemma demo_header_fields:
  "tgc_wire_get_u64 demo_elf_header 32 = 64" "tgc_wire_get_u16 demo_elf_header 56 = 1"
  "tgc_wire_get_u16 demo_elf_header 18 = 183" "tgc_wire_get_u16 demo_elf_header 54 = 56"
  "take 4 demo_elf_header = [0x7f, 0x45, 0x4c, 0x46]" "demo_elf_header ! 4 = 2" "demo_elf_header ! 5 = 1"
  "tgc_wire_get_u32 demo_program_header 0 = 3" "tgc_wire_get_u64 demo_program_header 8 = 120"
  "tgc_wire_get_u64 demo_program_header 32 = 3"
  by (simp_all add: tgc_wire_get_u64_def tgc_wire_get_u32_def tgc_wire_get_u16_def demo_elf_header_def demo_program_header_def)

lemma demo_interpreter: "read_elf_interpreter demo_world (Some ''/b/foo'') 4096 = Some ''/i''"
proof -
  have "read_interpreter_segment (ef_content demo_elf) [] 123 demo_program_header 4096 = Some [0x2f, 0x69, 0]"
    using demo_reads(3) by (simp add: read_interpreter_segment_def demo_header_fields)
  then have "scan_program_headers (ef_content demo_elf) [] 123 64 0 1 4096 = Some [0x2f, 0x69, 0]"
    using demo_reads(2) by (simp add: demo_header_fields)
  moreover have "elf_header_ok Aarch64 demo_elf_header" "program_headers_ok demo_elf_header 123"
    by (simp_all add: elf_header_ok_def program_headers_ok_def demo_header_fields)
  moreover have "xw_open demo_world ''/b/foo'' = Some demo_elf" "xw_host demo_world = Aarch64" "ef_regular demo_elf" "ef_size demo_elf = 123"
    by (simp_all add: demo_world_def demo_elf_def)
  moreover have "c_string [0x2f, 0x69, 0] = ''/i''" by code_simp
  ultimately show ?thesis using demo_reads(1) by (simp add: read_elf_interpreter_def demo_header_fields)
qed

lemma demo_values:
  "environment_value (Some demo_environment) ''TGCOMPAT_LD_SO'' = Some ''/ld''"
  "environment_value (Some demo_environment) ''TGCOMPAT_EXEC_MATCH_INTERPRETER'' = Some ''/i''"
  "environment_value (Some demo_environment) ''TGCOMPAT_EXEC_DISABLE'' = None"
  by (simp_all add: environment_value_def demo_environment_def assigns_def)

lemma demo_should_wrap:
  "should_wrap demo_world (Some ''/b/foo'') (Some demo_environment)"
  "\<not> should_wrap demo_world (Some ''/a/foo'') (Some demo_environment)"
  using demo_interpreter
  by (simp_all add: should_wrap_def demo_values disabled_by_environment_def interpreter_matches_def is_absolute_def)
    (simp add: read_elf_interpreter_def demo_world_def)

lemma demo_redirect: "redirect_exec_path demo_world (Some ''/b/foo'') (Some demo_environment) = Some ''/b/foo''"
  by (simp add: redirect_exec_path_def redirect_configured_path_def redirect_shell_path_def environment_value_def demo_environment_def
      assigns_def path_from_name_def path_to_name_def demo_world_def disabled_by_environment_def interpreter_matches_def)

lemma demo_configured: "configured_environment_value demo_world (Some demo_environment) ''TGCOMPAT_EXEC_LD_PRELOAD'' = None"
  by (simp add: configured_environment_value_def environment_value_def demo_environment_def demo_world_def assigns_def)

lemma demo_wrap:
  "\<exists>invocation. build_loader_arguments demo_world (Some ''/b/foo'') [''foo'', ''x''] (Some demo_environment) = Wrap_Yes invocation"
proof -
  have "xw_memory demo_world = demo_memory" "xw_realpath demo_world = Inr" by (simp_all add: demo_world_def)
  moreover have "length demo_environment = 4" "length proc_self_exe_name = 22"
    by (simp_all add: demo_environment_def proc_self_exe_name_def)
  ultimately show ?thesis
    by (simp add: build_loader_arguments_def demo_redirect demo_values demo_should_wrap demo_configured demo_memory_def Let_def)
qed

theorem wrapped_execve_witness:
  "\<exists>env'. execve demo_world (Some ''/b/foo'') [''foo'', ''x''] (Some demo_environment) =
      Real_Execve (Some ''/ld'') [''/ld'', ''--inhibit-cache'', ''--argv0'', ''foo'', ''/b/foo'', ''x''] (Some env') \<and>
     environment_value (Some env') ''TGCOMPAT_PROC_SELF_EXE'' = Some ''/b/foo'' \<and> environment_value (Some env') ''A'' = Some ''1''"
proof -
  obtain invocation where b: "build_loader_arguments demo_world (Some ''/b/foo'') [''foo'', ''x''] (Some demo_environment) = Wrap_Yes invocation"
    using demo_wrap by blast
  have w: "xw_execve demo_world" "xw_realpath demo_world = Inr" by (simp_all add: demo_world_def)
  obtain launch loader original env' where r: "redirect_exec_path demo_world (Some ''/b/foo'') (Some demo_environment) = Some launch"
    "environment_value (Some demo_environment) ''TGCOMPAT_LD_SO'' = Some loader" "xw_realpath demo_world launch = Inr original"
    "execve demo_world (Some ''/b/foo'') [''foo'', ''x''] (Some demo_environment) = Real_Execve (Some loader)
      ([loader, ''--inhibit-cache'', ''--argv0'', if [''foo'', ''x''] = [] then launch else hd [''foo'', ''x'']] @
       (case environment_value (Some demo_environment) ''TGCOMPAT_LIBRARY_PATH'' of
          Some path \<Rightarrow> if path = [] then [] else [''--library-path'', path] | None \<Rightarrow> []) @
       [launch] @ tl [''foo'', ''x'']) (Some env')"
    "\<And>name. CHR ''='' \<notin> set name \<Longrightarrow> environment_value (Some env') name =
      (if name = ''TGCOMPAT_PROC_SELF_EXE'' then Some original
       else if name = ''LD_PRELOAD'' \<and> configured_environment_value demo_world (Some demo_environment) ''TGCOMPAT_EXEC_LD_PRELOAD'' \<noteq> None
       then configured_environment_value demo_world (Some demo_environment) ''TGCOMPAT_EXEC_LD_PRELOAD''
       else environment_value (Some demo_environment) name)"
    using wrapped_execve [OF w(1) b] by blast
  have "environment_value (Some demo_environment) ''TGCOMPAT_LIBRARY_PATH'' = None"
    "environment_value (Some demo_environment) ''A'' = Some ''1''"
    by (simp_all add: environment_value_def demo_environment_def assigns_def)
  with r demo_redirect demo_values(1) w(2) show ?thesis by (intro exI [of _ env']) simp
qed

theorem unconfigured_is_transparent_witness:
  "execve demo_world (Some ''/b/foo'') [''foo''] (Some [''A=1'']) = Real_Execve (Some ''/b/foo'') [''foo''] (Some [''A=1'']) \<and>
   execvpe demo_world ''foo'' [''foo''] (Some [''A=1'']) = Real_Execvpe ''foo'' [''foo''] (Some [''A=1'']) \<and>
   execl demo_world (Some ''/b/foo'') [''foo''] = Real_Execve (Some ''/b/foo'') [''foo''] (Some [''PATH=/a:/b'']) \<and>
   execlp demo_world ''foo'' [''foo''] = Real_Execvpe ''foo'' [''foo''] (Some [''PATH=/a:/b''])"
proof -
  have "unconfigured demo_world (Some [''A=1''])" by (simp add: unconfigured_def demo_world_def)
  from unconfigured_is_transparent [OF this, of "Some ''/b/foo''" "[''foo'']" "''foo''"] show ?thesis
    by (simp add: demo_world_def demo_memory_def collect_variadic_arguments_def real_execve_def real_execvpe_def)
qed

theorem elf_interpreter_sound_witness:
  "\<exists>bytes. read_elf_interpreter demo_world (Some ''/b/foo'') 4096 = Some (c_string bytes) \<and> last bytes = 0 \<and> length bytes \<le> 4096"
  using elf_interpreter_sound [OF demo_interpreter] demo_interpreter by auto

section \<open>Searching for a program\<close>

lemma search_path_find:
  assumes "xm_candidate (xw_memory w)" and "\<forall>d \<in> set ds. length d + length file + 2 \<le> SIZE_MAX"
  shows "search_path w file envp ds =
    find (\<lambda>c. xw_access w c \<and> should_wrap w (Some c) envp) (map (\<lambda>d. path_candidate d file) ds)"
  using assms by (induction ds) (auto simp: Let_def)

text \<open>Splitting a search path loses nothing.\<close>

lemma split_path_join:
  "split_path path \<noteq> [] \<and> (\<forall>d \<in> set (split_path path). CHR '':'' \<notin> set d) \<and>
   concat (map (\<lambda>d. d @ '':'') (split_path path)) = path @ '':''"
  by (induction path rule: split_path.induct) (auto split: list.splits if_splits)

text \<open>
  The search for a program without a slash in its name tries the directories of the search path in order and
  starts the first candidate that is executable and has to be started through the loader; only if there is none does the real search run. A program that is not
  to be wrapped, such as a script, is passed over even when its directory comes first.
\<close>

theorem execvpe_search:
  assumes "CHR ''/'' \<notin> set file" and "xm_candidate (xw_memory w)" and "xw_execvpe w"
    and "environment_value (Some (xw_environ w)) ''PATH'' = Some path" and "length path + length file + 2 \<le> SIZE_MAX"
  shows "execvpe w file argv envp =
    (case find (\<lambda>c. xw_access w c \<and> should_wrap w (Some c) envp) (map (\<lambda>d. path_candidate d file) (split_path path)) of
       Some candidate \<Rightarrow> execve w (Some candidate) argv envp
     | None \<Rightarrow> Real_Execvpe file argv envp)"
proof -
  have "length d \<le> length path" if "d \<in> set (split_path path)" for d
  proof -
    have "length (d @ '':'') \<le> length (concat (map (\<lambda>d. d @ '':'') (split_path path)))"
      using that by (induction "split_path path" arbitrary: path) (auto simp: length_concat intro: member_le_sum_list trans_le_add1)
    then show ?thesis using split_path_join [of path] by simp
  qed
  then have "\<forall>d \<in> set (split_path path). length d + length file + 2 \<le> SIZE_MAX" using assms(5) by fastforce
  from search_path_find [OF assms(2) this] show ?thesis
    using assms(1,3,4) by (simp add: execvpe_def find_matching_path_def split: option.split)
qed

theorem execvpe_search_witness:
  "xw_access demo_world ''/a/foo'' \<and>
   execvpe demo_world ''foo'' [''foo'', ''x''] (Some demo_environment) = execve demo_world (Some ''/b/foo'') [''foo'', ''x''] (Some demo_environment)"
proof -
  have w: "xw_access demo_world c" "xm_candidate (xw_memory demo_world)" "xw_execvpe demo_world"
    "environment_value (Some (xw_environ demo_world)) ''PATH'' = Some ''/a:/b''" for c
    by (simp_all add: demo_world_def demo_memory_def environment_value_def assigns_def)
  from execvpe_search [OF _ w(2,3,4), of "''foo''" "[''foo'', ''x'']" "Some demo_environment"] demo_should_wrap w(1) show ?thesis
    by (simp add: path_candidate_def)
qed

section \<open>A leak\<close>

text \<open>
  When building the invocation fails, everything allocated is freed, except that the resolved path of the program is lost
  when the assignment of a configured \<^verbatim>\<open>LD_PRELOAD\<close> cannot be made.
\<close>

theorem wrap_error_leak:
  assumes "build_loader_arguments w filename argv envp = Wrap_Error errno leaked"
  shows "leaked = [] \<or> (\<exists>launch original preload. xw_realpath w launch = Inr original \<and> leaked = [original] \<and>
    configured_environment_value w envp ''TGCOMPAT_EXEC_LD_PRELOAD'' = Some preload \<and>
    (\<not> xm_ld_preload (xw_memory w) \<or> length preload > SIZE_MAX - length ld_preload_name - 2))"
  using assms unfolding build_loader_arguments_def Let_def
  by (auto split: option.splits if_splits sum.splits)

end
