(* ===== verification/Tgc_Android_Root.thy ===== *)
theory Tgc_Android_Root
  imports Tgc_Prelude
begin

text \<open>
  The file access shim of \<^verbatim>\<open>src/reference-termux-glibc-compat/src/android_root_shim.c\<close>: reads below \<^verbatim>\<open>/proc/net\<close> and of
  \<^verbatim>\<open>/proc/stat\<close> are redirected to configured places, and opening the root directory of the process is retried as a
  path-only open when Android refuses it. An interposed function yields the calls it makes into the real one.
\<close>

section \<open>Data\<close>

text \<open>The open flags whose values differ between the machines are fields.\<close>

record open_flags =
  O_DIRECTORY :: u32
  O_NOFOLLOW :: u32

definition aarch64_flags :: open_flags where
  "aarch64_flags = \<lparr>O_DIRECTORY = 0x4000, O_NOFOLLOW = 0x8000\<rparr>"

definition x86_64_flags :: open_flags where
  "x86_64_flags = \<lparr>O_DIRECTORY = 0x10000, O_NOFOLLOW = 0x20000\<rparr>"

definition O_ACCMODE :: u32 where [simp]: "O_ACCMODE = 3"
definition O_RDONLY :: u32 where [simp]: "O_RDONLY = 0"
definition O_CREAT :: u32 where [simp]: "O_CREAT = 0x40"
definition O_CLOEXEC :: u32 where [simp]: "O_CLOEXEC = 0x80000"
definition O_PATH :: u32 where [simp]: "O_PATH = 0x200000"
definition TMPFILE_BIT :: u32 where [simp]: "TMPFILE_BIT = 0x400000"
definition W_OK :: u32 where [simp]: "W_OK = 2"
definition ROOT_PATH_MAX :: nat where [simp]: "ROOT_PATH_MAX = 4096"

text \<open>
  The variables the shim reads, the flags of the machine, and whether the real function was found.
\<close>

record root_env =
  rv_proc_net :: "string option"
  rv_proc_stat :: "string option"
  rv_o_path :: "string option"
  rv_flags :: open_flags
  rv_function :: bool
  rv_fallback :: bool

text \<open>
  A call into the real function: \<open>Real_Openat\<close> also stands for the checked variant. A failure carries the error number, or \<open>None\<close> when
  \<^verbatim>\<open>errno\<close> keeps the value it had before the call.
\<close>

datatype file_action =
    File_Fail "s32 option"
  | Real_Open string u32 "u32 option"
  | Real_Openat s32 string u32 "u32 option"
  | Real_Fopen string "string option"
  | Real_Opendir string
  | Real_Access string u32
  | Real_Stat string

section \<open>Rewriting paths\<close>

text \<open>The part of a path after \<open>prefix\<close>, when the path is \<open>prefix\<close> or lies below it.\<close>

definition suffix_below :: "string \<Rightarrow> string \<Rightarrow> string option" where
  "suffix_below path prefix =
     (if path = prefix then Some []
      else if take (length prefix) path = prefix \<and> take 1 (drop (length prefix) path) = ''/'' then Some (drop (length prefix) path)
      else None)"

definition proc_net_suffix :: "string option \<Rightarrow> string option" where
  "proc_net_suffix path =
     (case path of
        None \<Rightarrow> None
      | Some p \<Rightarrow>
          case suffix_below p ''/proc/net'' of
            Some s \<Rightarrow> Some s
          | None \<Rightarrow>
              case suffix_below p ''/proc/self/net'' of
                Some s \<Rightarrow> Some s
              | None \<Rightarrow> suffix_below p ''/proc/thread-self/net'')"

text \<open>A configured place: absolute, not just a slash, and without a slash at the end.\<close>

definition usable_target :: "string \<Rightarrow> bool" where
  "usable_target target \<longleftrightarrow> take 1 target = ''/'' \<and> length target \<ge> 2 \<and> last target \<noteq> CHR ''/''"

text \<open>
  \<open>Inl\<close> is a NULL result with its error number; \<open>Inr\<close> the resulting path, \<open>None\<close> for the NULL path. \<open>output_size\<close> is the size of the
  buffer, \<open>None\<close> for a NULL buffer.
\<close>

definition tgcompat_android_root_rewrite_proc_net ::
  "root_env \<Rightarrow> string option \<Rightarrow> nat option \<Rightarrow> s32 + string option" where
  "tgcompat_android_root_rewrite_proc_net env path output_size =
     (case (proc_net_suffix path, rv_proc_net env) of
        (Some suffix, Some root) \<Rightarrow>
          if \<not> usable_target root then Inr path
          else
            (case output_size of
               None \<Rightarrow> Inl ENAMETOOLONG
             | Some n \<Rightarrow>
                 if n = 0 \<or> length suffix \<ge> n \<or> length root > n - length suffix - 1 then Inl ENAMETOOLONG
                 else Inr (Some (root @ suffix)))
      | _ \<Rightarrow> Inr path)"

text \<open>The flag says whether the path was replaced.\<close>

definition tgcompat_android_root_rewrite_proc_stat ::
  "root_env \<Rightarrow> string option \<Rightarrow> nat option \<Rightarrow> (s32 + string option) \<times> bool" where
  "tgcompat_android_root_rewrite_proc_stat env path output_size =
     (case (path, rv_proc_stat env) of
        (Some p, Some target) \<Rightarrow>
          if p \<noteq> ''/proc/stat'' \<or> \<not> usable_target target then (Inr path, False)
          else
            (case output_size of
               None \<Rightarrow> (Inl ENAMETOOLONG, True)
             | Some n \<Rightarrow>
                 if n = 0 \<or> length target \<ge> n then (Inl ENAMETOOLONG, True) else (Inr (Some target), True))
      | _ \<Rightarrow> (Inr path, False))"

definition tgcompat_android_root_rewrite_proc ::
  "root_env \<Rightarrow> string option \<Rightarrow> nat option \<Rightarrow> s32 + string option" where
  "tgcompat_android_root_rewrite_proc env path output_size =
     (let (mapped, replaced) = tgcompat_android_root_rewrite_proc_stat env path output_size in
      if replaced \<or> path = None then mapped
      else tgcompat_android_root_rewrite_proc_net env path output_size)"

section \<open>Flags\<close>

definition enabled :: "root_env \<Rightarrow> bool" where
  "enabled env \<longleftrightarrow> rv_o_path env = Some ''1''"

text \<open>\<open>Some\<close> the flags of the second attempt; \<open>wanted\<close> is false for a NULL result pointer.\<close>

definition tgcompat_android_root_retry_flags :: "root_env \<Rightarrow> string option \<Rightarrow> u32 \<Rightarrow> s32 \<Rightarrow> bool \<Rightarrow> u32 option" where
  "tgcompat_android_root_retry_flags env path flags error wanted =
     (let allowed_flags = O_CLOEXEC OR O_DIRECTORY (rv_flags env) OR O_NOFOLLOW (rv_flags env) in
      if \<not> enabled env \<or> path = None \<or> \<not> wanted \<or> (error \<noteq> EACCES \<and> error \<noteq> EPERM) \<or>
         (path \<noteq> Some ''/proc/self/root'' \<and> path \<noteq> Some ''/proc/self/root/'') \<or>
         flags AND O_DIRECTORY (rv_flags env) = 0 \<or> flags AND O_PATH \<noteq> 0 \<or> flags AND O_ACCMODE \<noteq> O_RDONLY
      then None
      else Some (O_PATH OR (flags AND allowed_flags)))"

definition flags_have_mode :: "open_flags \<Rightarrow> u32 \<Rightarrow> bool" where
  "flags_have_mode fl flags \<longleftrightarrow>
     flags AND O_CREAT \<noteq> 0 \<or> flags AND (TMPFILE_BIT OR O_DIRECTORY fl) = TMPFILE_BIT OR O_DIRECTORY fl"

definition read_only_open :: "open_flags \<Rightarrow> u32 \<Rightarrow> bool" where
  "read_only_open fl flags \<longleftrightarrow> flags AND O_ACCMODE = O_RDONLY \<and> \<not> flags_have_mode fl flags"

definition mapped_open_path :: "root_env \<Rightarrow> string option \<Rightarrow> u32 \<Rightarrow> s32 + string option" where
  "mapped_open_path env path flags =
     (if \<not> read_only_open (rv_flags env) flags then Inr path
      else tgcompat_android_root_rewrite_proc env path (Some ROOT_PATH_MAX))"

section \<open>The interposed functions\<close>

text \<open>What every function does with the mapped path: fail, or make the call.\<close>

definition with_mapped :: "bool \<Rightarrow> s32 + string option \<Rightarrow> (string \<Rightarrow> file_action) \<Rightarrow> file_action" where
  "with_mapped found mapped call =
     (if \<not> found then File_Fail (Some ENOSYS)
      else
        case mapped of
          Inl errno \<Rightarrow> File_Fail (Some errno)
        | Inr None \<Rightarrow> File_Fail None
        | Inr (Some p) \<Rightarrow> call p)"

text \<open>\<open>mode\<close> is the variadic argument.\<close>

definition call_open :: "root_env \<Rightarrow> string option \<Rightarrow> u32 \<Rightarrow> u32 \<Rightarrow> file_action" where
  "call_open env path flags mode =
     with_mapped (rv_function env) (mapped_open_path env path flags)
       (\<lambda>p. Real_Open p flags (if flags_have_mode (rv_flags env) flags then Some mode else None))"

text \<open>The second call made after the first returned \<open>result\<close>: its errno, or the descriptor.\<close>

definition retry_openat :: "root_env \<Rightarrow> bool \<Rightarrow> s32 \<Rightarrow> string \<Rightarrow> u32 \<Rightarrow> s32 + s32 \<Rightarrow> file_action option" where
  "retry_openat env found directory path flags result =
     (case result of
        Inr fd \<Rightarrow> None
      | Inl errno \<Rightarrow>
          if \<not> found then None
          else map_option (\<lambda>retry_flags. Real_Openat directory path retry_flags None)
                 (tgcompat_android_root_retry_flags env (Some path) flags errno True))"

text \<open>The calls made in turn when the first one answers \<open>result\<close>.\<close>

definition openat_calls :: "root_env \<Rightarrow> bool \<Rightarrow> u32 \<Rightarrow> s32 + s32 \<Rightarrow> file_action \<Rightarrow> file_action list" where
  "openat_calls env found flags result first =
     (case first of
        Real_Openat directory path f m \<Rightarrow>
          first # (case retry_openat env found directory path flags result of None \<Rightarrow> [] | Some call \<Rightarrow> [call])
      | _ \<Rightarrow> [first])"

definition call_openat :: "root_env \<Rightarrow> s32 \<Rightarrow> string option \<Rightarrow> u32 \<Rightarrow> u32 \<Rightarrow> s32 + s32 \<Rightarrow> file_action list" where
  "call_openat env directory path flags mode result =
     openat_calls env (rv_function env) flags result
       (with_mapped (rv_function env) (mapped_open_path env path flags)
         (\<lambda>p. Real_Openat directory p flags (if flags_have_mode (rv_flags env) flags then Some mode else None)))"

definition call_checked_open :: "root_env \<Rightarrow> string option \<Rightarrow> u32 \<Rightarrow> file_action" where
  "call_checked_open env path flags =
     with_mapped (rv_function env) (mapped_open_path env path flags) (\<lambda>p. Real_Open p flags None)"

definition call_checked_openat :: "root_env \<Rightarrow> s32 \<Rightarrow> string option \<Rightarrow> u32 \<Rightarrow> s32 + s32 \<Rightarrow> file_action list" where
  "call_checked_openat env directory path flags result =
     openat_calls env (rv_fallback env) flags result
       (with_mapped (rv_function env) (mapped_open_path env path flags) (\<lambda>p. Real_Openat directory p flags None))"

definition read_only_fopen_mode :: "string option \<Rightarrow> bool" where
  "read_only_fopen_mode mode =
     (case mode of None \<Rightarrow> False | Some m \<Rightarrow> take 1 m = ''r'' \<and> CHR ''+'' \<notin> set m)"

definition call_fopen :: "root_env \<Rightarrow> string option \<Rightarrow> string option \<Rightarrow> file_action" where
  "call_fopen env path mode =
     with_mapped (rv_function env)
       (if read_only_fopen_mode mode then tgcompat_android_root_rewrite_proc env path (Some ROOT_PATH_MAX) else Inr path)
       (\<lambda>p. Real_Fopen p mode)"

definition opendir :: "root_env \<Rightarrow> string option \<Rightarrow> file_action" where
  "opendir env path =
     with_mapped (rv_function env) (tgcompat_android_root_rewrite_proc env path (Some ROOT_PATH_MAX)) Real_Opendir"

definition access :: "root_env \<Rightarrow> string option \<Rightarrow> u32 \<Rightarrow> file_action" where
  "access env path mode =
     with_mapped (rv_function env)
       (if mode AND W_OK = 0 then tgcompat_android_root_rewrite_proc env path (Some ROOT_PATH_MAX) else Inr path)
       (\<lambda>p. Real_Access p mode)"

definition call_stat :: "root_env \<Rightarrow> string option \<Rightarrow> file_action" where
  "call_stat env path =
     with_mapped (rv_function env) (tgcompat_android_root_rewrite_proc env path (Some ROOT_PATH_MAX)) Real_Stat"

lemmas [shim_defs] = tgcompat_android_root_rewrite_proc_def tgcompat_android_root_rewrite_proc_stat_def
  tgcompat_android_root_rewrite_proc_net_def mapped_open_path_def with_mapped_def call_open_def call_openat_def openat_calls_def
  retry_openat_def access_def

section \<open>What is redirected\<close>

text \<open>The places that are redirected.\<close>

definition redirected :: "string \<Rightarrow> bool" where
  "redirected p \<longleftrightarrow> p = ''/proc/stat'' \<or> proc_net_suffix (Some p) \<noteq> None"

lemma suffix_below_exact: "suffix_below p prefix = Some s \<longleftrightarrow> p = prefix @ s \<and> (s = [] \<or> hd s = CHR ''/'')"
proof
  assume a: "suffix_below p prefix = Some s"
  show "p = prefix @ s \<and> (s = [] \<or> hd s = CHR ''/'')"
  proof (cases "p = prefix")
    case False
    then have t: "take (length prefix) p = prefix" "take 1 (drop (length prefix) p) = ''/''" "s = drop (length prefix) p"
      using a by (auto simp: suffix_below_def split: if_splits)
    have "p = prefix @ s" using t(1,3) append_take_drop_id [of "length prefix" p] by simp
    moreover have "hd s = CHR ''/''" using t(2) unfolding t(3) [symmetric] by (cases s) auto
    ultimately show ?thesis by simp
  qed (use a in \<open>simp add: suffix_below_def\<close>)
next
  assume "p = prefix @ s \<and> (s = [] \<or> hd s = CHR ''/'')"
  then show "suffix_below p prefix = Some s" by (cases s) (auto simp: suffix_below_def)
qed

text \<open>Where a path below one of the network directories lies.\<close>

lemma proc_net_suffix_exact:
  "proc_net_suffix (Some p) = Some s \<longleftrightarrow>
     (\<exists>prefix \<in> {''/proc/net'', ''/proc/self/net'', ''/proc/thread-self/net''}. p = prefix @ s) \<and> (s = [] \<or> hd s = CHR ''/'')"
proof -
  have None_iff: "suffix_below p prefix = None \<longleftrightarrow> (\<forall>s. suffix_below p prefix \<noteq> Some s)" for prefix by (cases "suffix_below p prefix") auto
  show ?thesis
    by (auto simp: proc_net_suffix_def suffix_below_exact None_iff split: option.splits)
qed

text \<open>
  Redirection is exact. A path is replaced only if it is \<^verbatim>\<open>/proc/stat\<close>, by the configured file, or one of the network directories or below, by the same
  path under the configured directory; a replacement always fits the buffer with its terminator, and if it does not fit the call
  fails with ENAMETOOLONG. An open that could write or create, or an access check for writing, always keeps its path.
\<close>

theorem redirection_exact:
  "(case tgcompat_android_root_rewrite_proc env (Some p) (Some n) of
      Inr (Some q) \<Rightarrow>
        q = p \<or>
        length q < n \<and>
        (p = ''/proc/stat'' \<and> rv_proc_stat env = Some q \<or>
         (\<exists>root suffix. rv_proc_net env = Some root \<and> q = root @ suffix \<and> (suffix = [] \<or> hd suffix = CHR ''/'') \<and>
           (p = ''/proc/net'' @ suffix \<or> p = ''/proc/self/net'' @ suffix \<or> p = ''/proc/thread-self/net'' @ suffix)))
    | Inr None \<Rightarrow> False
    | Inl e \<Rightarrow> e = ENAMETOOLONG \<and> redirected p) \<and>
   (\<not> redirected p \<longrightarrow> tgcompat_android_root_rewrite_proc env (Some p) (Some n) = Inr (Some p)) \<and>
   (\<not> read_only_open (rv_flags env) flags \<and> rv_function env \<longrightarrow>
     call_open env (Some p) flags mode = Real_Open p flags (if flags_have_mode (rv_flags env) flags then Some mode else None)) \<and>
   (acc AND W_OK \<noteq> 0 \<and> rv_function env \<longrightarrow> access env (Some p) acc = Real_Access p acc)"
proof -
  have net: "proc_net_suffix (Some p) = Some s \<Longrightarrow>
      (p = ''/proc/net'' @ s \<or> p = ''/proc/self/net'' @ s \<or> p = ''/proc/thread-self/net'' @ s) \<and> (s = [] \<or> hd s = CHR ''/'')" for s
    by (simp add: proc_net_suffix_exact)
  show ?thesis
    using net
    by (auto simp: shim_defs redirected_def
        split: option.splits sum.splits if_splits)
qed

definition demo_root_env :: root_env where
  "demo_root_env = \<lparr>rv_proc_net = Some ''/data/net'', rv_proc_stat = Some ''/data/stat'', rv_o_path = Some ''1'',
     rv_flags = aarch64_flags, rv_function = True, rv_fallback = True\<rparr>"

theorem redirection_exact_witness:
  "tgcompat_android_root_rewrite_proc demo_root_env (Some ''/proc/net/tcp'') (Some 4096) = Inr (Some ''/data/net/tcp'') \<and>
   tgcompat_android_root_rewrite_proc demo_root_env (Some ''/proc/network'') (Some 4096) = Inr (Some ''/proc/network'') \<and>
   call_open demo_root_env (Some ''/proc/net/tcp'') 2 0 = Real_Open ''/proc/net/tcp'' 2 None"
proof -
  have "\<not> redirected ''/proc/network''" by (simp add: redirected_def proc_net_suffix_def suffix_below_def)
  moreover have "\<not> read_only_open (rv_flags demo_root_env) 2" "rv_function demo_root_env" "\<not> flags_have_mode (rv_flags demo_root_env) 2"
    by (simp_all add: read_only_open_def flags_have_mode_def demo_root_env_def aarch64_flags_def)
  moreover have "tgcompat_android_root_rewrite_proc demo_root_env (Some ''/proc/net/tcp'') (Some 4096) = Inr (Some ''/data/net/tcp'')"
    by (simp add: shim_defs proc_net_suffix_def suffix_below_def usable_target_def demo_root_env_def)
  ultimately show ?thesis
    using redirection_exact [where env = demo_root_env and p = "''/proc/network''" and n = 4096]
      redirection_exact [where env = demo_root_env and p = "''/proc/net/tcp''" and flags = 2 and mode = 0] by simp
qed

section \<open>The second attempt\<close>

text \<open>Bits of the flags of the second attempt.\<close>

lemma retry_bits:
  fixes flags :: u32
  assumes "fl = aarch64_flags \<or> fl = x86_64_flags"
  shows "(O_PATH OR (flags AND (O_CLOEXEC OR O_DIRECTORY fl OR O_NOFOLLOW fl))) AND O_ACCMODE = O_RDONLY"
    and "(O_PATH OR (flags AND (O_CLOEXEC OR O_DIRECTORY fl OR O_NOFOLLOW fl))) AND O_CREAT = 0"
    and "(O_PATH OR (flags AND (O_CLOEXEC OR O_DIRECTORY fl OR O_NOFOLLOW fl))) AND O_PATH = O_PATH"
proof -
  have masked: "(x OR (flags AND m)) AND k = (x AND k) OR (flags AND (m AND k))" for x m k :: u32
    by (simp add: bit.conj_disj_distrib2 and.assoc)
  show "(O_PATH OR (flags AND (O_CLOEXEC OR O_DIRECTORY fl OR O_NOFOLLOW fl))) AND O_ACCMODE = O_RDONLY"
    and "(O_PATH OR (flags AND (O_CLOEXEC OR O_DIRECTORY fl OR O_NOFOLLOW fl))) AND O_CREAT = 0"
    and "(O_PATH OR (flags AND (O_CLOEXEC OR O_DIRECTORY fl OR O_NOFOLLOW fl))) AND O_PATH = O_PATH"
    unfolding masked using assms by (auto simp: aarch64_flags_def x86_64_flags_def)
qed

text \<open>
  The second attempt cannot do harm: a second call is only made for the root directory of the process, when enabled, after the
  first was refused with EACCES or EPERM, in the same directory and on the same path, and its flags ask for a path-only descriptor:
  they neither create nor open for reading or writing.
\<close>

theorem retry_is_path_only:
  assumes "rv_flags env = aarch64_flags \<or> rv_flags env = x86_64_flags"
    and "call_openat env directory path flags mode result = [first, second]"
  shows "\<exists>p errno retry. first = Real_Openat directory p flags (if flags_have_mode (rv_flags env) flags then Some mode else None) \<and>
    second = Real_Openat directory p retry None \<and> p \<in> {''/proc/self/root'', ''/proc/self/root/''} \<and>
    rv_o_path env = Some ''1'' \<and> result = Inl errno \<and> errno \<in> {EACCES, EPERM} \<and>
    retry AND O_PATH = O_PATH \<and> retry AND O_ACCMODE = O_RDONLY \<and> retry AND O_CREAT = 0"
proof -
  obtain p where first: "first = Real_Openat directory p flags (if flags_have_mode (rv_flags env) flags then Some mode else None)"
    and second: "retry_openat env (rv_function env) directory p flags result = Some second"
    using assms(2) by (auto simp: call_openat_def openat_calls_def with_mapped_def split: sum.splits option.splits if_splits)
  from second obtain errno retry where "result = Inl errno" "second = Real_Openat directory p retry None"
    "tgcompat_android_root_retry_flags env (Some p) flags errno True = Some retry"
    by (auto simp: retry_openat_def split: sum.splits if_splits)
  then show ?thesis
    using first retry_bits [OF assms(1), of flags]
    by (intro exI [of _ p] exI [of _ errno] exI [of _ retry])
      (auto simp: tgcompat_android_root_retry_flags_def enabled_def Let_def split: if_splits)
qed

theorem retry_is_path_only_witness:
  "\<exists>retry. call_openat demo_root_env 3 (Some ''/proc/self/root'') 0x84000 0 (Inl EACCES) =
     [Real_Openat 3 ''/proc/self/root'' 0x84000 None, Real_Openat 3 ''/proc/self/root'' retry None] \<and> retry AND O_PATH = O_PATH"
proof -
  have "call_openat demo_root_env 3 (Some ''/proc/self/root'') 0x84000 0 (Inl EACCES) =
     [Real_Openat 3 ''/proc/self/root'' 0x84000 None, Real_Openat 3 ''/proc/self/root'' 0x284000 None]"
    by (simp add: shim_defs read_only_open_def flags_have_mode_def proc_net_suffix_def suffix_below_def
        tgcompat_android_root_retry_flags_def enabled_def demo_root_env_def aarch64_flags_def)
  moreover have "rv_flags demo_root_env = aarch64_flags \<or> rv_flags demo_root_env = x86_64_flags" by (simp add: demo_root_env_def)
  ultimately show ?thesis using retry_is_path_only [of demo_root_env 3 "Some ''/proc/self/root''" "0x84000" 0 "Inl EACCES"] by auto
qed

section \<open>A missing error number\<close>

text \<open>An open of a NULL path fails without setting \<^verbatim>\<open>errno\<close>, which keeps whatever an earlier call left there.\<close>

theorem null_path_keeps_errno:
  "rv_function env \<Longrightarrow> call_open env None flags mode = File_Fail None"
  by (simp add: shim_defs split: option.split)

end
