(* ===== verification/Tgc_Path_Shims.thy ===== *)
theory Tgc_Path_Shims
  imports Tgc_Android_Root
begin

text \<open>
  The public functions of \<^verbatim>\<open>src/reference-termux-glibc-compat/src/android_root_shim.c\<close> over the bodies of \<^verbatim>\<open>Tgc_Android_Root\<close>, and the
  shim of \<^verbatim>\<open>src/steam-path-shim.c\<close>, which moves \<^verbatim>\<open>/tmp\<close> to the directory named by \<^verbatim>\<open>STEAM_TMP\<close>.
\<close>

section \<open>The public functions of the Android root shim\<close>

datatype root_function =
    Fn_open | Fn_open64 | Fn_openat | Fn_openat64 | Fn_open_2 | Fn_open64_2 | Fn_openat_2 | Fn_openat64_2
  | Fn_fopen | Fn_fopen64 | Fn_opendir | Fn_access | Fn_stat | Fn_lstat

fun symbol_name :: "root_function \<Rightarrow> string" where
  "symbol_name Fn_open = ''open''"
| "symbol_name Fn_open64 = ''open64''"
| "symbol_name Fn_openat = ''openat''"
| "symbol_name Fn_openat64 = ''openat64''"
| "symbol_name Fn_open_2 = ''__open_2''"
| "symbol_name Fn_open64_2 = ''__open64_2''"
| "symbol_name Fn_openat_2 = ''__openat_2''"
| "symbol_name Fn_openat64_2 = ''__openat64_2''"
| "symbol_name Fn_fopen = ''fopen''"
| "symbol_name Fn_fopen64 = ''fopen64''"
| "symbol_name Fn_opendir = ''opendir''"
| "symbol_name Fn_access = ''access''"
| "symbol_name Fn_stat = ''stat''"
| "symbol_name Fn_lstat = ''lstat''"

text \<open>Which of the real functions the dynamic linker found.\<close>

type_synonym real_functions = "root_function \<Rightarrow> bool"

definition initialize_android_root_shim :: "(string \<Rightarrow> bool) \<Rightarrow> real_functions" where
  "initialize_android_root_shim next_symbol = (\<lambda>f. next_symbol (symbol_name f))"

definition with_functions :: "real_functions \<Rightarrow> root_function \<Rightarrow> root_function \<Rightarrow> root_env \<Rightarrow> root_env" where
  "with_functions found f g env = env\<lparr>rv_function := found f, rv_fallback := found g\<rparr>"

text \<open>A call together with the function it goes to; of the calls of an \<^verbatim>\<open>openat\<close>, the second goes to the unchecked function.\<close>

type_synonym root_call = "root_function \<times> file_action"

definition openat_targets :: "root_function \<Rightarrow> root_function \<Rightarrow> file_action list \<Rightarrow> root_call list" where
  "openat_targets f g calls = map (Pair f) (take 1 calls) @ map (Pair g) (drop 1 calls)"

definition root_open :: "real_functions \<Rightarrow> root_env \<Rightarrow> string option \<Rightarrow> u32 \<Rightarrow> u32 \<Rightarrow> root_call" where
  "root_open found env path flags mode = (Fn_open, call_open (with_functions found Fn_open Fn_open env) path flags mode)"

definition root_open64 :: "real_functions \<Rightarrow> root_env \<Rightarrow> string option \<Rightarrow> u32 \<Rightarrow> u32 \<Rightarrow> root_call" where
  "root_open64 found env path flags mode = (Fn_open64, call_open (with_functions found Fn_open64 Fn_open64 env) path flags mode)"

definition root_openat :: "real_functions \<Rightarrow> root_env \<Rightarrow> s32 \<Rightarrow> string option \<Rightarrow> u32 \<Rightarrow> u32 \<Rightarrow> s32 + s32 \<Rightarrow> root_call list" where
  "root_openat found env directory path flags mode result =
     openat_targets Fn_openat Fn_openat (call_openat (with_functions found Fn_openat Fn_openat env) directory path flags mode result)"

definition root_openat64 :: "real_functions \<Rightarrow> root_env \<Rightarrow> s32 \<Rightarrow> string option \<Rightarrow> u32 \<Rightarrow> u32 \<Rightarrow> s32 + s32 \<Rightarrow> root_call list" where
  "root_openat64 found env directory path flags mode result =
     openat_targets Fn_openat64 Fn_openat64 (call_openat (with_functions found Fn_openat64 Fn_openat64 env) directory path flags mode result)"

definition root_open_2 :: "real_functions \<Rightarrow> root_env \<Rightarrow> string option \<Rightarrow> u32 \<Rightarrow> root_call" where
  "root_open_2 found env path flags = (Fn_open_2, call_checked_open (with_functions found Fn_open_2 Fn_open_2 env) path flags)"

definition root_open64_2 :: "real_functions \<Rightarrow> root_env \<Rightarrow> string option \<Rightarrow> u32 \<Rightarrow> root_call" where
  "root_open64_2 found env path flags = (Fn_open64_2, call_checked_open (with_functions found Fn_open64_2 Fn_open64_2 env) path flags)"

definition root_openat_2 :: "real_functions \<Rightarrow> root_env \<Rightarrow> s32 \<Rightarrow> string option \<Rightarrow> u32 \<Rightarrow> s32 + s32 \<Rightarrow> root_call list" where
  "root_openat_2 found env directory path flags result =
     openat_targets Fn_openat_2 Fn_openat (call_checked_openat (with_functions found Fn_openat_2 Fn_openat env) directory path flags result)"

definition root_openat64_2 :: "real_functions \<Rightarrow> root_env \<Rightarrow> s32 \<Rightarrow> string option \<Rightarrow> u32 \<Rightarrow> s32 + s32 \<Rightarrow> root_call list" where
  "root_openat64_2 found env directory path flags result =
     openat_targets Fn_openat64_2 Fn_openat64 (call_checked_openat (with_functions found Fn_openat64_2 Fn_openat64 env) directory path flags result)"

definition root_fopen :: "real_functions \<Rightarrow> root_env \<Rightarrow> string option \<Rightarrow> string option \<Rightarrow> root_call" where
  "root_fopen found env path mode = (Fn_fopen, call_fopen (with_functions found Fn_fopen Fn_fopen env) path mode)"

definition root_fopen64 :: "real_functions \<Rightarrow> root_env \<Rightarrow> string option \<Rightarrow> string option \<Rightarrow> root_call" where
  "root_fopen64 found env path mode = (Fn_fopen64, call_fopen (with_functions found Fn_fopen64 Fn_fopen64 env) path mode)"

definition root_stat :: "real_functions \<Rightarrow> root_env \<Rightarrow> string option \<Rightarrow> root_call" where
  "root_stat found env path = (Fn_stat, call_stat (with_functions found Fn_stat Fn_stat env) path)"

definition root_lstat :: "real_functions \<Rightarrow> root_env \<Rightarrow> string option \<Rightarrow> root_call" where
  "root_lstat found env path = (Fn_lstat, call_stat (with_functions found Fn_lstat Fn_lstat env) path)"

section \<open>The path shim of Steam\<close>

definition MAPPED_SIZE :: nat where [simp]: "MAPPED_SIZE = 4096"

text \<open>\<open>Inl\<close> is a NULL result with its error number, \<open>Inr None\<close> the NULL path passed through; \<open>base\<close> is the variable \<^verbatim>\<open>STEAM_TMP\<close>.\<close>

definition redirect_path :: "string option \<Rightarrow> string option \<Rightarrow> nat \<Rightarrow> s32 + string option" where
  "redirect_path base path output_size =
     (case path of
        None \<Rightarrow> Inr None
      | Some p \<Rightarrow>
          if take 4 p \<noteq> ''/tmp'' \<or> drop 4 p \<noteq> [] \<and> hd (drop 4 p) \<noteq> CHR ''/'' then Inr (Some p)
          else
            case base of
              None \<Rightarrow> Inr (Some p)
            | Some b \<Rightarrow>
                if b = [] then Inr (Some p)
                else if length b + length (drop 4 p) + 1 > output_size then Inl ENAMETOOLONG
                else Inr (Some (b @ drop 4 p)))"

text \<open>
  What a function ends in: \<open>-1\<close> or NULL, with the error number unless \<^verbatim>\<open>errno\<close> keeps its value, or a call of the real function of the name given, with its paths and
  its other arguments as words.
\<close>

datatype path_action = Path_Fail "s32 option" | Real_Call string "string list" "u64 list"

definition with_path :: "string option \<Rightarrow> string option \<Rightarrow> (string \<Rightarrow> path_action) \<Rightarrow> path_action" where
  "with_path base path call =
     (case redirect_path base path MAPPED_SIZE of
        Inl errno \<Rightarrow> Path_Fail (Some errno)
      | Inr None \<Rightarrow> Path_Fail None
      | Inr (Some p) \<Rightarrow> call p)"

text \<open>The test of the source for a mode argument, \<^verbatim>\<open>flags & (O_CREAT | O_TMPFILE)\<close>.\<close>

definition takes_mode :: "open_flags \<Rightarrow> u32 \<Rightarrow> bool" where
  "takes_mode fl flags \<longleftrightarrow> flags AND (O_CREAT OR TMPFILE_BIT OR O_DIRECTORY fl) \<noteq> 0"

definition steam_open :: "open_flags \<Rightarrow> string option \<Rightarrow> string option \<Rightarrow> u32 \<Rightarrow> u32 \<Rightarrow> path_action" where
  "steam_open fl base path flags mode =
     with_path base path (\<lambda>p. Real_Call ''open'' [p] (ucast flags # (if takes_mode fl flags then [ucast mode] else [])))"

definition steam_open64 :: "open_flags \<Rightarrow> string option \<Rightarrow> string option \<Rightarrow> u32 \<Rightarrow> u32 \<Rightarrow> path_action" where
  "steam_open64 fl base path flags mode =
     with_path base path (\<lambda>p. Real_Call ''open64'' [p] (ucast flags # (if takes_mode fl flags then [ucast mode] else [])))"

text \<open>Pointers to other things than paths are addresses.\<close>

definition steam_fopen :: "string option \<Rightarrow> string option \<Rightarrow> u64 \<Rightarrow> path_action" where
  "steam_fopen base path mode = with_path base path (\<lambda>p. Real_Call ''fopen'' [p] [mode])"

definition steam_mkdir :: "string option \<Rightarrow> string option \<Rightarrow> u32 \<Rightarrow> path_action" where
  "steam_mkdir base path mode = with_path base path (\<lambda>p. Real_Call ''mkdir'' [p] [ucast mode])"

definition steam_access :: "string option \<Rightarrow> string option \<Rightarrow> u32 \<Rightarrow> path_action" where
  "steam_access base path mode = with_path base path (\<lambda>p. Real_Call ''access'' [p] [ucast mode])"

definition steam_stat :: "string option \<Rightarrow> string option \<Rightarrow> u64 \<Rightarrow> path_action" where
  "steam_stat base path st = with_path base path (\<lambda>p. Real_Call ''stat'' [p] [st])"

definition steam_lstat :: "string option \<Rightarrow> string option \<Rightarrow> u64 \<Rightarrow> path_action" where
  "steam_lstat base path st = with_path base path (\<lambda>p. Real_Call ''lstat'' [p] [st])"

definition steam_chdir :: "string option \<Rightarrow> string option \<Rightarrow> path_action" where
  "steam_chdir base path = with_path base path (\<lambda>p. Real_Call ''chdir'' [p] [])"

definition steam_xstat :: "string option \<Rightarrow> u32 \<Rightarrow> string option \<Rightarrow> u64 \<Rightarrow> path_action" where
  "steam_xstat base ver path st = with_path base path (\<lambda>p. Real_Call ''__xstat'' [p] [ucast ver, st])"

definition steam_lxstat :: "string option \<Rightarrow> u32 \<Rightarrow> string option \<Rightarrow> u64 \<Rightarrow> path_action" where
  "steam_lxstat base ver path st = with_path base path (\<lambda>p. Real_Call ''__lxstat'' [p] [ucast ver, st])"

definition steam_xstat64 :: "string option \<Rightarrow> u32 \<Rightarrow> string option \<Rightarrow> u64 \<Rightarrow> path_action" where
  "steam_xstat64 base ver path st = with_path base path (\<lambda>p. Real_Call ''__xstat64'' [p] [ucast ver, st])"

definition steam_lxstat64 :: "string option \<Rightarrow> u32 \<Rightarrow> string option \<Rightarrow> u64 \<Rightarrow> path_action" where
  "steam_lxstat64 base ver path st = with_path base path (\<lambda>p. Real_Call ''__lxstat64'' [p] [ucast ver, st])"

definition steam_chmod :: "string option \<Rightarrow> string option \<Rightarrow> u32 \<Rightarrow> path_action" where
  "steam_chmod base path mode = with_path base path (\<lambda>p. Real_Call ''chmod'' [p] [ucast mode])"

definition steam_chown :: "string option \<Rightarrow> string option \<Rightarrow> u32 \<Rightarrow> u32 \<Rightarrow> path_action" where
  "steam_chown base path owner grp = with_path base path (\<lambda>p. Real_Call ''chown'' [p] [ucast owner, ucast grp])"

definition steam_lchown :: "string option \<Rightarrow> string option \<Rightarrow> u32 \<Rightarrow> u32 \<Rightarrow> path_action" where
  "steam_lchown base path owner grp = with_path base path (\<lambda>p. Real_Call ''lchown'' [p] [ucast owner, ucast grp])"

definition steam_opendir :: "string option \<Rightarrow> string option \<Rightarrow> path_action" where
  "steam_opendir base path = with_path base path (\<lambda>p. Real_Call ''opendir'' [p] [])"

definition steam_unlink :: "string option \<Rightarrow> string option \<Rightarrow> path_action" where
  "steam_unlink base path = with_path base path (\<lambda>p. Real_Call ''unlink'' [p] [])"

definition steam_rmdir :: "string option \<Rightarrow> string option \<Rightarrow> path_action" where
  "steam_rmdir base path = with_path base path (\<lambda>p. Real_Call ''rmdir'' [p] [])"

text \<open>Both paths are mapped before either is looked at.\<close>

definition steam_rename :: "string option \<Rightarrow> string option \<Rightarrow> string option \<Rightarrow> path_action" where
  "steam_rename base oldpath newpath =
     (let old_mapped = redirect_path base oldpath MAPPED_SIZE; new_mapped = redirect_path base newpath MAPPED_SIZE in
      case (old_mapped, new_mapped) of
        (Inr (Some old), Inr (Some new)) \<Rightarrow> Real_Call ''rename'' [old, new] []
      | (_, Inl errno) \<Rightarrow> Path_Fail (Some errno)
      | (Inl errno, _) \<Rightarrow> Path_Fail (Some errno)
      | _ \<Rightarrow> Path_Fail None)"

section \<open>Properties\<close>

text \<open>The second attempt of a checked \<^verbatim>\<open>openat\<close> goes to the unchecked function, and only if that was found.\<close>

theorem checked_openat_retry:
  assumes "root_openat_2 found env directory path flags result = [first, second]"
  shows "fst first = Fn_openat_2 \<and> fst second = Fn_openat \<and> found Fn_openat_2 \<and> found Fn_openat"
  using assms
  by (auto simp: root_openat_2_def openat_targets_def call_checked_openat_def openat_calls_def with_mapped_def with_functions_def retry_openat_def
      split: sum.splits option.splits if_splits)

text \<open>What lies in \<^verbatim>\<open>/tmp\<close>.\<close>

definition below_tmp :: "string \<Rightarrow> bool" where
  "below_tmp p \<longleftrightarrow> (\<exists>rest. p = ''/tmp'' @ rest \<and> (rest = [] \<or> hd rest = CHR ''/''))"

lemma below_tmp_iff: "below_tmp p \<longleftrightarrow> take 4 p = ''/tmp'' \<and> (drop 4 p = [] \<or> hd (drop 4 p) = CHR ''/'')"
proof
  assume "take 4 p = ''/tmp'' \<and> (drop 4 p = [] \<or> hd (drop 4 p) = CHR ''/'')"
  then show "below_tmp p" unfolding below_tmp_def by (metis append_take_drop_id)
qed (auto simp: below_tmp_def)

text \<open>
  The path shim moves \<^verbatim>\<open>/tmp\<close> and nothing else: a path in \<^verbatim>\<open>/tmp\<close> is replaced by the same path in the configured directory, and only if it fits the buffer with its terminator;
  every other path, and every path without configuration, is passed on as it is. A renaming moves both its paths, and if one does not fit,
  no call is made at all.
\<close>

theorem tmp_redirection_exact:
  "redirect_path base (Some p) n =
     (case base of
        Some b \<Rightarrow>
          if b \<noteq> [] \<and> below_tmp p
          then if length (b @ drop 4 p) < n then Inr (Some (b @ drop 4 p)) else Inl ENAMETOOLONG
          else Inr (Some p)
      | None \<Rightarrow> Inr (Some p)) \<and>
   (steam_rename base (Some p) (Some q) = Real_Call ''rename'' [p', q'] [] \<longleftrightarrow>
     redirect_path base (Some p) MAPPED_SIZE = Inr (Some p') \<and> redirect_path base (Some q) MAPPED_SIZE = Inr (Some q')) \<and>
   (redirect_path base (Some p) MAPPED_SIZE = Inl e \<longrightarrow> steam_rename base (Some p) (Some q) = Path_Fail (Some ENAMETOOLONG) \<and>
     steam_rename base (Some q) (Some p) = Path_Fail (Some ENAMETOOLONG))"
  unfolding below_tmp_iff
  by (auto simp: redirect_path_def steam_rename_def Let_def split: option.splits sum.splits if_splits)

theorem tmp_redirection_exact_witness:
  "redirect_path (Some ''/data/tmp'') (Some ''/tmp/x'') 4096 = Inr (Some ''/data/tmp/x'') \<and>
   redirect_path (Some ''/data/tmp'') (Some ''/tmpfile'') 4096 = Inr (Some ''/tmpfile'') \<and>
   steam_rename (Some (replicate 4095 CHR ''a'')) (Some ''/x'') (Some ''/tmp/x'') = Path_Fail (Some ENAMETOOLONG)"
proof -
  have below: "below_tmp ''/tmp/x''" "\<not> below_tmp ''/tmpfile''" by (simp_all add: below_tmp_iff)
  have "redirect_path (Some (replicate 4095 CHR ''a'')) (Some ''/tmp/x'') MAPPED_SIZE = Inl ENAMETOOLONG"
    using tmp_redirection_exact [of "Some (replicate 4095 CHR ''a'')" "''/tmp/x''" MAPPED_SIZE] below(1) by simp
  then show ?thesis
    using tmp_redirection_exact [of "Some ''/data/tmp''" "''/tmp/x''" 4096] tmp_redirection_exact [of "Some ''/data/tmp''" "''/tmpfile''" 4096]
      tmp_redirection_exact [of "Some (replicate 4095 CHR ''a'')" "''/tmp/x''" 0 "''/x''"] below by simp
qed

text \<open>
  The test for a mode argument is too wide: opening a directory to read it reads a mode the caller did not pass and hands it on, where the test of the Android root shim says there
  is none.
\<close>

theorem directory_open_reads_a_mode:
  assumes "fl = aarch64_flags \<or> fl = x86_64_flags"
  shows "takes_mode fl (O_DIRECTORY fl) \<and> \<not> flags_have_mode fl (O_DIRECTORY fl)"
  using assms by (auto simp: takes_mode_def flags_have_mode_def aarch64_flags_def x86_64_flags_def)

end
