(* ===== verification/Tgc_Mprotect.thy ===== *)
theory Tgc_Mprotect
  imports Tgc_Prelude
begin

text \<open>
  The interposed \<^verbatim>\<open>mprotect\<close> of \<^verbatim>\<open>src/reference-termux-glibc-compat/src/mprotect_shim.c\<close>: when the kernel refuses to make
  a range executable, the range is replaced by an anonymous copy of itself. Memory is a function from addresses to bytes; the
  kernel is a parameter that answers a call and says what becomes of memory and of its own state, and what is assumed of it is
  \<open>kernel_laws\<close>.
\<close>

section \<open>Calls and processes\<close>

definition PROT_READ :: u32 where [simp]: "PROT_READ = 1"
definition PROT_WRITE :: u32 where [simp]: "PROT_WRITE = 2"
definition PROT_EXEC :: u32 where [simp]: "PROT_EXEC = 4"
definition MAP_PRIVATE :: u32 where [simp]: "MAP_PRIVATE = 2"
definition MAP_FIXED :: u32 where [simp]: "MAP_FIXED = 0x10"
definition MAP_ANONYMOUS :: u32 where [simp]: "MAP_ANONYMOUS = 0x20"
definition MAP_FAILED :: u64 where [simp]: "MAP_FAILED = - 1"

datatype memory_call =
    Sys_mprotect u64 u64 u32
  | Sys_mmap u64 u64 u32 u32 s32 s64
  | Sys_munmap u64 u64

text \<open>
  \<open>pr_calls\<close> lists the calls made and what the kernel answered. A kernel maps its state, the memory and a call to its answer, its new state and the
  new memory.
\<close>

record 'k process =
  pr_bytes :: "u64 \<Rightarrow> u8"
  pr_kernel :: 'k
  pr_errno :: s32
  pr_calls :: "(memory_call \<times> s64) list"

type_synonym 'k kernel = "'k \<Rightarrow> (u64 \<Rightarrow> u8) \<Rightarrow> memory_call \<Rightarrow> s64 \<times> 'k \<times> (u64 \<Rightarrow> u8)"

text \<open>How the build enters the kernel: by the instruction itself on AArch64, by the C library's \<^verbatim>\<open>syscall\<close> elsewhere.\<close>

datatype syscall_path = Direct | Libc

definition kernel_result_is_error :: "s64 \<Rightarrow> bool" where
  "kernel_result_is_error result \<longleftrightarrow> result \<ge> - 4095"

definition raw_syscall6 :: "syscall_path \<Rightarrow> 'k kernel \<Rightarrow> memory_call \<Rightarrow> 'k process \<Rightarrow> s64 \<times> 'k process" where
  "raw_syscall6 path sys call p =
     (let (result, k, bytes) = sys (pr_kernel p) (pr_bytes p) call;
          p = p\<lparr>pr_bytes := bytes, pr_kernel := k, pr_calls := pr_calls p @ [(call, result)]\<rparr>
      in case path of
           Direct \<Rightarrow> (result, p)
         | Libc \<Rightarrow>
             if kernel_result_is_error result then (- 1, p\<lparr>pr_errno := ucast (- result)\<rparr>) else (result, p))"

definition raw_mprotect :: "syscall_path \<Rightarrow> 'k kernel \<Rightarrow> u64 \<Rightarrow> u64 \<Rightarrow> u32 \<Rightarrow> 'k process \<Rightarrow> s32 \<times> 'k process" where
  "raw_mprotect path sys address len protection p =
     (let (result, p) = raw_syscall6 path sys (Sys_mprotect address len protection) p in
      if kernel_result_is_error result then (- 1, p\<lparr>pr_errno := ucast (- result)\<rparr>) else (ucast result, p))"

definition raw_mmap ::
  "syscall_path \<Rightarrow> 'k kernel \<Rightarrow> u64 \<Rightarrow> u64 \<Rightarrow> u32 \<Rightarrow> u32 \<Rightarrow> s32 \<Rightarrow> s64 \<Rightarrow> 'k process \<Rightarrow> u64 \<times> 'k process" where
  "raw_mmap path sys address len protection flags descriptor offset p =
     (let (result, p) = raw_syscall6 path sys (Sys_mmap address len protection flags descriptor offset) p in
      if kernel_result_is_error result then (MAP_FAILED, p\<lparr>pr_errno := ucast (- result)\<rparr>) else (result, p))"

definition raw_munmap :: "syscall_path \<Rightarrow> 'k kernel \<Rightarrow> u64 \<Rightarrow> u64 \<Rightarrow> 'k process \<Rightarrow> s32 \<times> 'k process" where
  "raw_munmap path sys address len p =
     (let (result, p) = raw_syscall6 path sys (Sys_munmap address len) p in
      if kernel_result_is_error result then (- 1, p\<lparr>pr_errno := ucast (- result)\<rparr>) else (ucast result, p))"

section \<open>Replacing a range\<close>

definition copy_bytes :: "u64 \<Rightarrow> u64 \<Rightarrow> nat \<Rightarrow> (u64 \<Rightarrow> u8) \<Rightarrow> u64 \<Rightarrow> u8" where
  "copy_bytes destination source len bytes =
     fold (\<lambda>index bytes. bytes(destination + of_nat index := bytes (source + of_nat index))) [0..<len] bytes"

text \<open>Unmapping the scratch copy, keeping \<^verbatim>\<open>errno\<close>.\<close>

definition release_scratch :: "syscall_path \<Rightarrow> 'k kernel \<Rightarrow> u64 \<Rightarrow> u64 \<Rightarrow> 'k process \<Rightarrow> 'k process" where
  "release_scratch path sys scratch len p =
     (let saved_errno = pr_errno p; (_, p) = raw_munmap path sys scratch len p in p\<lparr>pr_errno := saved_errno\<rparr>)"

definition make_anonymous_executable_copy ::
  "syscall_path \<Rightarrow> 'k kernel \<Rightarrow> u64 \<Rightarrow> u64 \<Rightarrow> u32 \<Rightarrow> 'k process \<Rightarrow> s32 \<times> 'k process" where
  "make_anonymous_executable_copy path sys address len protection p =
     (let readable_protection = PROT_READ OR (protection AND PROT_WRITE) in
      if len = 0 then (- 1, p\<lparr>pr_errno := EINVAL\<rparr>)
      else
        let (result, p) = raw_mprotect path sys address len readable_protection p in
        if result \<noteq> 0 then (- 1, p)
        else
          let (scratch, p) =
                raw_mmap path sys 0 len (PROT_READ OR PROT_WRITE) (MAP_PRIVATE OR MAP_ANONYMOUS) (- 1) 0 p in
          if scratch = MAP_FAILED then (- 1, p)
          else
            let p = p\<lparr>pr_bytes := copy_bytes scratch address (unat len) (pr_bytes p)\<rparr>;
                (replacement, p) =
                  raw_mmap path sys address len (PROT_READ OR PROT_WRITE) (MAP_PRIVATE OR MAP_ANONYMOUS OR MAP_FIXED) (- 1) 0 p in
            if replacement = MAP_FAILED then (- 1, release_scratch path sys scratch len p)
            else
              let p = p\<lparr>pr_bytes := copy_bytes address scratch (unat len) (pr_bytes p)\<rparr>;
                  (result, p) = raw_mprotect path sys address len protection p in
              if result \<noteq> 0 then (- 1, release_scratch path sys scratch len p)
              else (0, release_scratch path sys scratch len p))"

definition mprotect :: "syscall_path \<Rightarrow> 'k kernel \<Rightarrow> u64 \<Rightarrow> u64 \<Rightarrow> u32 \<Rightarrow> 'k process \<Rightarrow> s32 \<times> 'k process" where
  "mprotect path sys address len protection p =
     (let (result, p) = raw_mprotect path sys address len protection p in
      if result = - 1 \<and> pr_errno p = EACCES \<and> protection AND PROT_EXEC \<noteq> 0
      then make_anonymous_executable_copy path sys address len protection p
      else (result, p))"

lemmas [shim_defs] = mprotect_def make_anonymous_executable_copy_def raw_mprotect_def raw_mmap_def raw_munmap_def raw_syscall6_def
  release_scratch_def copy_bytes_def Let_def

section \<open>What is assumed of the kernel\<close>

text \<open>The bytes of a range, and the bytes of the pages it touches; a page has \<open>2 ^ pg\<close> bytes.\<close>

definition span :: "u64 \<Rightarrow> nat \<Rightarrow> u64 set" where
  "span a n = (\<lambda>i. a + of_nat i) ` {..<n}"

definition touched :: "nat \<Rightarrow> u64 \<Rightarrow> nat \<Rightarrow> u64 set" where
  "touched pg a n = {x. \<exists>y \<in> span a n. drop_bit pg x = drop_bit pg y}"

text \<open>
  Documented behaviour, with \<open>mapped\<close> the mapped addresses. Changing a protection changes no byte and maps nothing, and it only succeeds on mapped pages.
  A new mapping goes where nothing was mapped and changes no mapped byte. A mapping at a fixed address, even a failing one, and an unmapping
  can only change the pages they touch; a fixed mapping that succeeds is where it was asked for.
\<close>

definition mprotect_law :: "nat \<Rightarrow> 'k kernel \<Rightarrow> ('k \<Rightarrow> u64 set) \<Rightarrow> bool" where
  "mprotect_law pg sys mapped \<longleftrightarrow>
     (\<forall>k b a n prot r k' b'. sys k b (Sys_mprotect a n prot) = (r, k', b') \<longrightarrow>
        b' = b \<and> mapped k' = mapped k \<and> (\<not> kernel_result_is_error r \<longrightarrow> touched pg a (unat n) \<subseteq> mapped k))"

definition mmap_law :: "nat \<Rightarrow> 'k kernel \<Rightarrow> ('k \<Rightarrow> u64 set) \<Rightarrow> bool" where
  "mmap_law pg sys mapped \<longleftrightarrow>
     (\<forall>k b a n prot flags fd off r k' b'. sys k b (Sys_mmap a n prot flags fd off) = (r, k', b') \<longrightarrow>
        (if flags AND MAP_FIXED = 0
         then (\<forall>x \<in> mapped k. b' x = b x) \<and> (\<not> kernel_result_is_error r \<longrightarrow> touched pg r (unat n) \<inter> mapped k = {})
         else (\<forall>x. x \<notin> touched pg a (unat n) \<longrightarrow> b' x = b x) \<and> (\<not> kernel_result_is_error r \<longrightarrow> r = a)))"

definition munmap_law :: "nat \<Rightarrow> 'k kernel \<Rightarrow> bool" where
  "munmap_law pg sys \<longleftrightarrow>
     (\<forall>k b a n r k' b'. sys k b (Sys_munmap a n) = (r, k', b') \<longrightarrow> (\<forall>x. x \<notin> touched pg a (unat n) \<longrightarrow> b' x = b x))"

definition kernel_laws :: "nat \<Rightarrow> 'k kernel \<Rightarrow> ('k \<Rightarrow> u64 set) \<Rightarrow> bool" where
  "kernel_laws pg sys mapped \<longleftrightarrow> mprotect_law pg sys mapped \<and> mmap_law pg sys mapped \<and> munmap_law pg sys"

section \<open>Copying\<close>

lemma span_touched: "span a n \<subseteq> touched pg a n"
  by (auto simp: touched_def)

lemma of_nat_offset_eq_iff:
  assumes "i < 2 ^ 64" "j < 2 ^ 64"
  shows "a + of_nat i = (a + of_nat j :: u64) \<longleftrightarrow> i = j"
proof -
  have "unat (of_nat i :: u64) = i" "unat (of_nat j :: u64) = j" using assms by (simp_all add: unsigned_of_nat take_bit_nat_eq_self)
  then show ?thesis by (metis add_left_imp_eq)
qed

lemma copy_bytes_Suc:
  "copy_bytes d s (Suc n) bytes = (copy_bytes d s n bytes)(d + of_nat n := copy_bytes d s n bytes (s + of_nat n))"
  by (simp add: copy_bytes_def)

lemma copy_bytes_outside: "x \<notin> span d n \<Longrightarrow> copy_bytes d s n bytes x = bytes x"
proof (induction n)
  case (Suc n)
  then show ?case by (auto simp: copy_bytes_Suc span_def lessThan_Suc)
qed (simp add: copy_bytes_def)

lemma copy_bytes_inside:
  assumes "n \<le> 2 ^ 64" "span d n \<inter> span s n = {}" "i < n"
  shows "copy_bytes d s n bytes (d + of_nat i) = bytes (s + of_nat i)"
  using assms
proof (induction n)
  case (Suc n)
  have sub: "span d n \<inter> span s n = {}" using Suc.prems(2) by (auto simp: span_def lessThan_Suc)
  have "s + of_nat n \<notin> span d n" using Suc.prems(2) by (auto simp: span_def lessThan_Suc)
  then have "copy_bytes d s n bytes (s + of_nat n) = bytes (s + of_nat n)" by (rule copy_bytes_outside)
  moreover have "d + of_nat i = d + of_nat n \<longleftrightarrow> i = n" using Suc.prems by (intro of_nat_offset_eq_iff) auto
  ultimately show ?case using Suc.IH [OF _ sub] Suc.prems by (cases "i = n") (auto simp: copy_bytes_Suc)
qed simp


section \<open>The single calls\<close>

lemma raw_syscall6_cases:
  assumes "raw_syscall6 path sys call p = (r, p')"
  obtains res k b where "sys (pr_kernel p) (pr_bytes p) call = (res, k, b)" "pr_bytes p' = b" "pr_kernel p' = k"
    "pr_calls p' = pr_calls p @ [(call, res)]" "kernel_result_is_error r \<longleftrightarrow> kernel_result_is_error res"
    "\<not> kernel_result_is_error res \<Longrightarrow> r = res \<and> pr_errno p' = pr_errno p"
proof -
  obtain res k b where c: "sys (pr_kernel p) (pr_bytes p) call = (res, k, b)" by (rule prod_cases3)
  have "kernel_result_is_error (- 1)" by (simp add: kernel_result_is_error_def)
  with assms c show ?thesis
    by (intro that [of res k b]) (auto simp: raw_syscall6_def Let_def split: syscall_path.splits if_splits)
qed

lemma raw_mprotect_step:
  assumes laws: "kernel_laws pg sys mapped" and call: "raw_mprotect path sys a n prot p = (r, p')"
  shows "pr_bytes p' = pr_bytes p" and "mapped (pr_kernel p') = mapped (pr_kernel p)"
    and "\<exists>res. pr_calls p' = pr_calls p @ [(Sys_mprotect a n prot, res)] \<and>
      (r = 0 \<longrightarrow> \<not> kernel_result_is_error res \<and> touched pg a (unat n) \<subseteq> mapped (pr_kernel p))"
proof -
  obtain r0 p0 where c: "raw_syscall6 path sys (Sys_mprotect a n prot) p = (r0, p0)" by (rule prod.exhaust)
  then obtain res k b where s: "sys (pr_kernel p) (pr_bytes p) (Sys_mprotect a n prot) = (res, k, b)" "pr_bytes p0 = b"
    "pr_kernel p0 = k" "pr_calls p0 = pr_calls p @ [(Sys_mprotect a n prot, res)]"
    "kernel_result_is_error r0 \<longleftrightarrow> kernel_result_is_error res" by (rule raw_syscall6_cases)
  have "b = pr_bytes p \<and> mapped k = mapped (pr_kernel p) \<and>
      (\<not> kernel_result_is_error res \<longrightarrow> touched pg a (unat n) \<subseteq> mapped (pr_kernel p))"
    using laws s(1) unfolding kernel_laws_def mprotect_law_def by blast
  moreover have "pr_bytes p' = b" "pr_kernel p' = k" "pr_calls p' = pr_calls p0" "r = 0 \<Longrightarrow> \<not> kernel_result_is_error res"
    using call c s(2,3,5) by (cases "kernel_result_is_error r0"; simp add: raw_mprotect_def; fastforce)+
  ultimately show "pr_bytes p' = pr_bytes p" "mapped (pr_kernel p') = mapped (pr_kernel p)"
    "\<exists>res. pr_calls p' = pr_calls p @ [(Sys_mprotect a n prot, res)] \<and>
      (r = 0 \<longrightarrow> \<not> kernel_result_is_error res \<and> touched pg a (unat n) \<subseteq> mapped (pr_kernel p))"
    using s(4) by simp_all
qed

lemma raw_mmap_step:
  assumes laws: "kernel_laws pg sys mapped" and call: "raw_mmap path sys a n prot flags fd off p = (r, p')"
  shows "\<exists>res. pr_calls p' = pr_calls p @ [(Sys_mmap a n prot flags fd off, res)] \<and> (kernel_result_is_error res \<longleftrightarrow> r = MAP_FAILED) \<and>
      (r \<noteq> MAP_FAILED \<longrightarrow> res = r)"
    and "flags AND MAP_FIXED = 0 \<Longrightarrow> x \<in> mapped (pr_kernel p) \<Longrightarrow> pr_bytes p' x = pr_bytes p x"
    and "flags AND MAP_FIXED = 0 \<Longrightarrow> r \<noteq> MAP_FAILED \<Longrightarrow> touched pg r (unat n) \<inter> mapped (pr_kernel p) = {}"
    and "flags AND MAP_FIXED \<noteq> 0 \<Longrightarrow> x \<notin> touched pg a (unat n) \<Longrightarrow> pr_bytes p' x = pr_bytes p x"
proof -
  let ?call = "Sys_mmap a n prot flags fd off"
  obtain r0 p0 where c: "raw_syscall6 path sys ?call p = (r0, p0)" by (rule prod.exhaust)
  then obtain res k b where s: "sys (pr_kernel p) (pr_bytes p) ?call = (res, k, b)" "pr_bytes p0 = b"
    "pr_kernel p0 = k" "pr_calls p0 = pr_calls p @ [(?call, res)]" "kernel_result_is_error r0 \<longleftrightarrow> kernel_result_is_error res"
    "\<not> kernel_result_is_error res \<Longrightarrow> r0 = res \<and> pr_errno p0 = pr_errno p" by (rule raw_syscall6_cases) blast
  have failed: "kernel_result_is_error MAP_FAILED" by (simp add: kernel_result_is_error_def)
  have law: "if flags AND MAP_FIXED = 0
      then (\<forall>x \<in> mapped (pr_kernel p). b x = pr_bytes p x) \<and>
        (\<not> kernel_result_is_error res \<longrightarrow> touched pg res (unat n) \<inter> mapped (pr_kernel p) = {})
      else (\<forall>x. x \<notin> touched pg a (unat n) \<longrightarrow> b x = pr_bytes p x) \<and> (\<not> kernel_result_is_error res \<longrightarrow> res = a)"
    using laws s(1) unfolding kernel_laws_def mmap_law_def by blast
  have r: "kernel_result_is_error res \<longleftrightarrow> r = MAP_FAILED" "r \<noteq> MAP_FAILED \<longrightarrow> res = r" "pr_bytes p' = b"
    "pr_calls p' = pr_calls p @ [(?call, res)]"
    using call s c failed by (auto simp: raw_mmap_def simp del: MAP_FAILED_def split: if_splits)
  show "\<exists>res. pr_calls p' = pr_calls p @ [(?call, res)] \<and> (kernel_result_is_error res \<longleftrightarrow> r = MAP_FAILED) \<and>
      (r \<noteq> MAP_FAILED \<longrightarrow> res = r)" using r by blast
  show "flags AND MAP_FIXED = 0 \<Longrightarrow> x \<in> mapped (pr_kernel p) \<Longrightarrow> pr_bytes p' x = pr_bytes p x"
    and "flags AND MAP_FIXED \<noteq> 0 \<Longrightarrow> x \<notin> touched pg a (unat n) \<Longrightarrow> pr_bytes p' x = pr_bytes p x"
    using law r(3) by (simp_all split: if_splits)
  show "flags AND MAP_FIXED = 0 \<Longrightarrow> r \<noteq> MAP_FAILED \<Longrightarrow> touched pg r (unat n) \<inter> mapped (pr_kernel p) = {}"
    using law r by metis
qed

lemma release_scratch_step:
  assumes "kernel_laws pg sys mapped"
  shows "x \<notin> touched pg s (unat n) \<Longrightarrow> pr_bytes (release_scratch path sys s n p) x = pr_bytes p x"
    and "\<exists>res. pr_calls (release_scratch path sys s n p) = pr_calls p @ [(Sys_munmap s n, res)]"
    and "pr_errno (release_scratch path sys s n p) = pr_errno p"
proof -
  obtain r0 p0 where c: "raw_syscall6 path sys (Sys_munmap s n) p = (r0, p0)" by (rule prod.exhaust)
  then obtain res k b where s: "sys (pr_kernel p) (pr_bytes p) (Sys_munmap s n) = (res, k, b)" "pr_bytes p0 = b"
    "pr_calls p0 = pr_calls p @ [(Sys_munmap s n, res)]" by (rule raw_syscall6_cases)
  have "x \<notin> touched pg s (unat n) \<Longrightarrow> b x = pr_bytes p x" for x
    using assms s(1) unfolding kernel_laws_def munmap_law_def by blast
  then show "x \<notin> touched pg s (unat n) \<Longrightarrow> pr_bytes (release_scratch path sys s n p) x = pr_bytes p x"
    "\<exists>res. pr_calls (release_scratch path sys s n p) = pr_calls p @ [(Sys_munmap s n, res)]"
    "pr_errno (release_scratch path sys s n p) = pr_errno p"
    using c s(2,3) by (auto simp: release_scratch_def raw_munmap_def)
qed


section \<open>The whole call\<close>

abbreviation scratch_call :: "u64 \<Rightarrow> memory_call" where
  "scratch_call n \<equiv> Sys_mmap 0 n (PROT_READ OR PROT_WRITE) (MAP_PRIVATE OR MAP_ANONYMOUS) (- 1) 0"

abbreviation replace_call :: "u64 \<Rightarrow> u64 \<Rightarrow> memory_call" where
  "replace_call a n \<equiv> Sys_mmap a n (PROT_READ OR PROT_WRITE) (MAP_PRIVATE OR MAP_ANONYMOUS OR MAP_FIXED) (- 1) 0"

text \<open>The calls of one attempt: what was mapped as scratch is unmapped, and success means the protection asked for was set last.\<close>

definition calls_ok :: "u64 \<Rightarrow> u64 \<Rightarrow> u32 \<Rightarrow> s32 \<Rightarrow> (memory_call \<times> s64) list \<Rightarrow> bool" where
  "calls_ok a n prot r calls \<longleftrightarrow>
     (\<forall>s. (scratch_call n, s) \<in> set calls \<and> \<not> kernel_result_is_error s \<longrightarrow> Sys_munmap s n \<in> fst ` set calls) \<and>
     (r = 0 \<longrightarrow> (\<exists>before res after. calls = before @ (Sys_mprotect a n prot, res) # after \<and> \<not> kernel_result_is_error res \<and>
        (\<forall>c \<in> set after. \<exists>s res. c = (Sys_munmap s n, res))))"

lemma calls_ok_Cons:
  assumes "calls_ok a n prot r calls"
  shows "calls_ok a n prot r ((Sys_mprotect a n prot', e) # calls)"
proof -
  have "\<exists>before res after. (Sys_mprotect a n prot', e) # calls = before @ (Sys_mprotect a n prot, res) # after \<and>
      \<not> kernel_result_is_error res \<and> (\<forall>c \<in> set after. \<exists>s res. c = (Sys_munmap s n, res))" if r: "r = 0"
  proof -
    obtain before res after where "calls = before @ (Sys_mprotect a n prot, res) # after" "\<not> kernel_result_is_error res"
      "\<forall>c \<in> set after. \<exists>s res. c = (Sys_munmap s n, res)" using assms r unfolding calls_ok_def by blast
    then show ?thesis by (intro exI [of _ "(Sys_mprotect a n prot', e) # before"] exI [of _ res] exI [of _ after]) simp
  qed
  then show ?thesis using assms by (auto simp: calls_ok_def)
qed

lemma unat_le_64: "unat (n :: u64) \<le> 2 ^ 64"
proof -
  have "unat n < 2 ^ LENGTH(64)" by (rule unsigned_less)
  then show ?thesis by simp
qed

text \<open>What the two copies do: the scratch copy lies outside of what was mapped, so the range gets its contents back.\<close>

lemma copied_back:
  fixes n :: u64
  assumes M: "touched pg a (unat n) \<subseteq> M" "touched pg s (unat n) \<inter> M = {}"
    and b2: "\<And>x. x \<in> M \<Longrightarrow> b2 x = b x"
    and b4: "\<And>x. x \<notin> touched pg a (unat n) \<Longrightarrow> b4 x = copy_bytes s a (unat n) b2 x"
  shows "x \<in> M \<Longrightarrow> x \<notin> touched pg a (unat n) \<Longrightarrow> b4 x = b x"
    and "x \<in> M \<Longrightarrow> x \<notin> touched pg a (unat n) \<Longrightarrow> copy_bytes a s (unat n) b4 x = b x"
    and "x \<in> span a (unat n) \<Longrightarrow> copy_bytes a s (unat n) b4 x = b x"
proof -
  have disjoint: "span s (unat n) \<inter> span a (unat n) = {}"
    using M span_touched [of s "unat n" pg] span_touched [of a "unat n" pg] by blast
  show outside: "x \<in> M \<Longrightarrow> x \<notin> touched pg a (unat n) \<Longrightarrow> b4 x = b x" for x
    using M(2) b2 b4 [of x] span_touched [of s "unat n" pg] copy_bytes_outside [of x s "unat n" a b2] by auto
  then show "x \<in> M \<Longrightarrow> x \<notin> touched pg a (unat n) \<Longrightarrow> copy_bytes a s (unat n) b4 x = b x"
    using span_touched [of a "unat n" pg] copy_bytes_outside [of x a "unat n" s b4] by auto
  assume "x \<in> span a (unat n)"
  then obtain i where i: "x = a + of_nat i" "i < unat n" by (auto simp: span_def)
  have "s + of_nat i \<in> touched pg s (unat n)" using i(2) span_touched [of s "unat n" pg] by (auto simp: span_def)
  then have "b4 (s + of_nat i) = copy_bytes s a (unat n) b2 (s + of_nat i)" using M b4 by blast
  also have "\<dots> = b2 x" using copy_bytes_inside [OF unat_le_64 disjoint i(2)] i(1) by simp
  also have "\<dots> = b x" using b2 M(1) span_touched [of a "unat n" pg] \<open>x \<in> span a (unat n)\<close> by blast
  finally show "copy_bytes a s (unat n) b4 x = b x"
    using copy_bytes_inside [OF unat_le_64 _ i(2), of a s b4] disjoint i(1) by (simp add: inf_commute)
qed

lemma executable_copy_cases:
  assumes "make_anonymous_executable_copy path sys a n prot p = (r, p')"
  obtains (empty) "r = - 1" "p' = p\<lparr>pr_errno := EINVAL\<rparr>"
  | (refused) r1 where "raw_mprotect path sys a n (PROT_READ OR (prot AND PROT_WRITE)) p = (r1, p')" "r1 \<noteq> 0" "r = - 1"
  | (no_scratch) p1 where "raw_mprotect path sys a n (PROT_READ OR (prot AND PROT_WRITE)) p = (0, p1)"
      "raw_mmap path sys 0 n (PROT_READ OR PROT_WRITE) (MAP_PRIVATE OR MAP_ANONYMOUS) (- 1) 0 p1 = (MAP_FAILED, p')" "r = - 1"
  | (mapped) p1 s p2 q p4 where "raw_mprotect path sys a n (PROT_READ OR (prot AND PROT_WRITE)) p = (0, p1)"
      "raw_mmap path sys 0 n (PROT_READ OR PROT_WRITE) (MAP_PRIVATE OR MAP_ANONYMOUS) (- 1) 0 p1 = (s, p2)" "s \<noteq> MAP_FAILED"
      "raw_mmap path sys a n (PROT_READ OR PROT_WRITE) (MAP_PRIVATE OR MAP_ANONYMOUS OR MAP_FIXED) (- 1) 0
        (p2\<lparr>pr_bytes := copy_bytes s a (unat n) (pr_bytes p2)\<rparr>) = (q, p4)"
      "q = MAP_FAILED \<and> r = - 1 \<and> p' = release_scratch path sys s n p4 \<or>
       q \<noteq> MAP_FAILED \<and> (\<exists>r6 p6. raw_mprotect path sys a n prot (p4\<lparr>pr_bytes := copy_bytes a s (unat n) (pr_bytes p4)\<rparr>) = (r6, p6) \<and>
         (r = 0 \<longleftrightarrow> r6 = 0) \<and> p' = release_scratch path sys s n p6)"
proof -
  obtain r1 p1 where c1: "raw_mprotect path sys a n (PROT_READ OR (prot AND PROT_WRITE)) p = (r1, p1)" by (rule prod.exhaust)
  obtain s p2 where c2: "raw_mmap path sys 0 n (PROT_READ OR PROT_WRITE) (MAP_PRIVATE OR MAP_ANONYMOUS) (- 1) 0 p1 = (s, p2)"
    by (rule prod.exhaust)
  obtain q p4 where c4: "raw_mmap path sys a n (PROT_READ OR PROT_WRITE) (MAP_PRIVATE OR MAP_ANONYMOUS OR MAP_FIXED) (- 1) 0
      (p2\<lparr>pr_bytes := copy_bytes s a (unat n) (pr_bytes p2)\<rparr>) = (q, p4)" by (rule prod.exhaust)
  obtain r6 p6 where c6: "raw_mprotect path sys a n prot (p4\<lparr>pr_bytes := copy_bytes a s (unat n) (pr_bytes p4)\<rparr>) = (r6, p6)"
    by (rule prod.exhaust)
  consider "n = 0" | "n \<noteq> 0" "r1 \<noteq> 0" | "n \<noteq> 0" "r1 = 0" "s = MAP_FAILED" | "n \<noteq> 0" "r1 = 0" "s \<noteq> MAP_FAILED" by blast
  then show thesis
  proof cases
    case 1
    then show ?thesis using assms by (intro empty) (simp_all add: make_anonymous_executable_copy_def)
  next
    case 2
    then show ?thesis using assms c1 by (intro refused [of r1]) (simp_all add: make_anonymous_executable_copy_def Let_def)
  next
    case 3
    then show ?thesis using assms c1 c2 by (intro no_scratch [of p1]) (simp_all add: make_anonymous_executable_copy_def Let_def)
  next
    case 4
    with assms c1 c2 c4 c6 show ?thesis
      by (intro mapped [of p1 s p2 q p4]) (auto simp: make_anonymous_executable_copy_def Let_def simp del: MAP_FAILED_def split: if_splits)
  qed
qed

lemma replaced_bytes:
  assumes laws: "kernel_laws pg sys mapped"
    and c1: "raw_mprotect path sys a n (PROT_READ OR (prot AND PROT_WRITE)) p = (0, p1)"
    and c2: "raw_mmap path sys 0 n (PROT_READ OR PROT_WRITE) (MAP_PRIVATE OR MAP_ANONYMOUS) (- 1) 0 p1 = (s, p2)" "s \<noteq> MAP_FAILED"
    and c4: "raw_mmap path sys a n (PROT_READ OR PROT_WRITE) (MAP_PRIVATE OR MAP_ANONYMOUS OR MAP_FIXED) (- 1) 0
      (p2\<lparr>pr_bytes := copy_bytes s a (unat n) (pr_bytes p2)\<rparr>) = (q, p4)"
  shows "x \<in> mapped (pr_kernel p) \<Longrightarrow> x \<notin> touched pg s (unat n)"
    and "x \<in> mapped (pr_kernel p) \<Longrightarrow> x \<notin> touched pg a (unat n) \<Longrightarrow> pr_bytes p4 x = pr_bytes p x"
    and "x \<in> mapped (pr_kernel p) \<Longrightarrow> x \<notin> touched pg a (unat n) \<Longrightarrow> copy_bytes a s (unat n) (pr_bytes p4) x = pr_bytes p x"
    and "x \<in> span a (unat n) \<Longrightarrow> copy_bytes a s (unat n) (pr_bytes p4) x = pr_bytes p x"
proof -
  note m1 = raw_mprotect_step [OF laws c1] and m2 = raw_mmap_step [OF laws c2(1)] and m4 = raw_mmap_step [OF laws c4]
  have disjoint: "touched pg s (unat n) \<inter> mapped (pr_kernel p) = {}" using m2(3) m1(2) c2(2) by simp
  then show "x \<in> mapped (pr_kernel p) \<Longrightarrow> x \<notin> touched pg s (unat n)" by blast
  have M: "touched pg a (unat n) \<subseteq> mapped (pr_kernel p)" using m1(3) by blast
  have b2: "pr_bytes p2 y = pr_bytes p y" if "y \<in> mapped (pr_kernel p)" for y using m1(1,2) m2(2) that by simp
  have b4: "pr_bytes p4 y = copy_bytes s a (unat n) (pr_bytes p2) y" if "y \<notin> touched pg a (unat n)" for y
    using m4(4) that by simp
  show "x \<in> mapped (pr_kernel p) \<Longrightarrow> x \<notin> touched pg a (unat n) \<Longrightarrow> pr_bytes p4 x = pr_bytes p x"
    "x \<in> mapped (pr_kernel p) \<Longrightarrow> x \<notin> touched pg a (unat n) \<Longrightarrow> copy_bytes a s (unat n) (pr_bytes p4) x = pr_bytes p x"
    "x \<in> span a (unat n) \<Longrightarrow> copy_bytes a s (unat n) (pr_bytes p4) x = pr_bytes p x"
    using copied_back [OF M disjoint b2 b4] by simp_all
qed

lemma executable_copy_bytes:
  assumes laws: "kernel_laws pg sys mapped" and made: "make_anonymous_executable_copy path sys a n prot p = (r, p')"
    and x: "x \<in> mapped (pr_kernel p)" "x \<notin> touched pg a (unat n) \<or> r = 0 \<and> x \<in> span a (unat n)"
  shows "pr_bytes p' x = pr_bytes p x"
  using made
proof (cases rule: executable_copy_cases)
  case (refused r1)
  then show ?thesis using raw_mprotect_step(1) [OF laws] by metis
next
  case (no_scratch p1)
  then show ?thesis using raw_mprotect_step(1,2) [OF laws] raw_mmap_step(2) [OF laws no_scratch(2)] x(1) by simp
next
  case (mapped p1 s p2 q p4)
  note b = replaced_bytes [OF laws mapped(1-4)] and rel = release_scratch_step(1) [OF laws]
  show ?thesis using mapped(5)
  proof (elim disjE conjE exE)
    assume "r = - 1" "p' = release_scratch path sys s n p4"
    then show ?thesis using b(1,2) rel x by auto
  next
    fix r6 p6
    assume "raw_mprotect path sys a n prot (p4\<lparr>pr_bytes := copy_bytes a s (unat n) (pr_bytes p4)\<rparr>) = (r6, p6)"
      "p' = release_scratch path sys s n p6"
    then show ?thesis using b(1,3,4) rel x raw_mprotect_step(1) [OF laws] by fastforce
  qed
qed simp

lemma executable_copy_calls:
  assumes laws: "kernel_laws pg sys mapped" and made: "make_anonymous_executable_copy path sys a n prot p = (r, p')"
  shows "\<exists>calls. pr_calls p' = pr_calls p @ calls \<and> calls_ok a n prot r calls"
  using made
proof (cases rule: executable_copy_cases)
  case (refused r1)
  then show ?thesis using raw_mprotect_step(3) [OF laws] by (fastforce simp: calls_ok_def)
next
  case (no_scratch p1)
  then show ?thesis
    using raw_mprotect_step(3) [OF laws no_scratch(1)] raw_mmap_step(1) [OF laws no_scratch(2)] by (auto simp: calls_ok_def)
next
  case (mapped p1 s p2 q p4)
  obtain e1 e4 where before: "pr_calls p4 = pr_calls p @
      [(Sys_mprotect a n (PROT_READ OR (prot AND PROT_WRITE)), e1), (scratch_call n, s), (replace_call a n, e4)]"
    using raw_mprotect_step(3) [OF laws mapped(1)] raw_mmap_step(1) [OF laws mapped(2)] raw_mmap_step(1) [OF laws mapped(4)] mapped(3)
    by (auto simp: append_assoc)
  show ?thesis using mapped(5)
  proof (elim disjE conjE exE)
    assume "r = - 1" "p' = release_scratch path sys s n p4"
    then show ?thesis using before release_scratch_step(2) [OF laws, of path s n p4] by (auto simp: calls_ok_def)
  next
    fix r6 p6
    assume c6: "raw_mprotect path sys a n prot (p4\<lparr>pr_bytes := copy_bytes a s (unat n) (pr_bytes p4)\<rparr>) = (r6, p6)"
      and r: "r = 0 \<longleftrightarrow> r6 = 0" and p': "p' = release_scratch path sys s n p6"
    obtain e6 e7 where after: "pr_calls p' = pr_calls p4 @ (Sys_mprotect a n prot, e6) # [(Sys_munmap s n, e7)]"
      "r = 0 \<longrightarrow> \<not> kernel_result_is_error e6"
      using raw_mprotect_step(3) [OF laws c6] release_scratch_step(2) [OF laws, of path s n p6] r p' by auto
    let ?before = "[(Sys_mprotect a n (PROT_READ OR (prot AND PROT_WRITE)), e1), (scratch_call n, s), (replace_call a n, e4)]"
    have "calls_ok a n prot r (?before @ (Sys_mprotect a n prot, e6) # [(Sys_munmap s n, e7)])"
      unfolding calls_ok_def using after(2) by (intro conjI impI exI [of _ ?before]) auto
    then show ?thesis using before after(1) by auto
  qed
qed (auto simp: calls_ok_def)

text \<open>
  C33. The interposed \<^verbatim>\<open>mprotect\<close> keeps memory: no mapped byte outside of the pages of the range ever changes, and when the call succeeds the range
  holds the same bytes as before, although it may have been replaced by an anonymous mapping. Scratch memory is always unmapped again, and
  success means that the kernel accepted the protection asked for, after which nothing but that unmapping happens.
\<close>

theorem mprotect_keeps_memory:
  assumes "kernel_laws pg sys mapped" and "mprotect path sys a n prot p = (r, p')"
  shows "(\<forall>x \<in> mapped (pr_kernel p). x \<notin> touched pg a (unat n) \<or> r = 0 \<and> x \<in> span a (unat n) \<longrightarrow> pr_bytes p' x = pr_bytes p x) \<and>
    (\<exists>calls. pr_calls p' = pr_calls p @ calls \<and> calls_ok a n prot r calls)"
proof -
  obtain r0 p0 where c: "raw_mprotect path sys a n prot p = (r0, p0)" by (rule prod.exhaust)
  note m = raw_mprotect_step [OF assms(1) c]
  show ?thesis
  proof (cases "r0 = - 1 \<and> pr_errno p0 = EACCES \<and> prot AND PROT_EXEC \<noteq> 0")
    case True
    then have made: "make_anonymous_executable_copy path sys a n prot p0 = (r, p')" using assms(2) c by (simp add: mprotect_def)
    obtain calls where calls: "pr_calls p' = pr_calls p0 @ calls" "calls_ok a n prot r calls"
      using executable_copy_calls [OF assms(1) made] by blast
    obtain e where e: "pr_calls p0 = pr_calls p @ [(Sys_mprotect a n prot, e)]" using m(3) by blast
    have "pr_calls p' = pr_calls p @ (Sys_mprotect a n prot, e) # calls" using calls(1) e by simp
    moreover have "calls_ok a n prot r ((Sys_mprotect a n prot, e) # calls)" using calls(2) by (rule calls_ok_Cons)
    moreover have "pr_bytes p' x = pr_bytes p x" if "x \<in> mapped (pr_kernel p)" "x \<notin> touched pg a (unat n) \<or> r = 0 \<and> x \<in> span a (unat n)" for x
      using executable_copy_bytes [OF assms(1) made _ that(2)] that(1) m(1,2) by simp
    ultimately show ?thesis by (intro conjI ballI impI exI [of _ "(Sys_mprotect a n prot, e) # calls"])
  next
    case False
    then have eq: "r = r0" "p' = p0" using assms(2) c by (auto simp: mprotect_def)
    obtain e where "pr_calls p' = pr_calls p @ [(Sys_mprotect a n prot, e)]" "r = 0 \<longrightarrow> \<not> kernel_result_is_error e" using m(3) eq by blast
    moreover from this have "calls_ok a n prot r [(Sys_mprotect a n prot, e)]" by (auto simp: calls_ok_def intro!: exI [of _ "[]"])
    ultimately show ?thesis using m(1) eq by auto
  qed
qed


section \<open>A kernel that refuses\<close>

text \<open>
  One page is mapped at \<open>0x1000\<close> and cannot be made executable until it is anonymous. The state is 0 at first, 1 when the scratch page at \<open>0x8000\<close> is mapped,
  2 once the page was replaced.
\<close>

definition demo_mapped :: "nat \<Rightarrow> u64 set" where
  "demo_mapped k = {x. drop_bit 12 x = 1 \<or> k > 0 \<and> drop_bit 12 x = 8}"

definition demo_kernel_call :: "nat kernel" where
  "demo_kernel_call k b call =
     (case call of
        Sys_mprotect a n prot \<Rightarrow>
          (if a \<noteq> 0x1000 \<or> unat n > 0x1000 then - 12 else if prot AND PROT_EXEC \<noteq> 0 \<and> k < 2 then - 13 else 0, k, b)
      | Sys_mmap a n prot flags fd off \<Rightarrow>
          if unat n > 0x1000 then (- 12, k, b)
          else if flags AND MAP_FIXED = 0 then if k = 0 then (0x8000, 1, b) else (- 12, k, b)
          else if a \<noteq> 0x1000 then (- 12, k, b)
          else (0x1000, 2, \<lambda>x. if n \<noteq> 0 \<and> drop_bit 12 x = 1 then 0 else b x)
      | Sys_munmap a n \<Rightarrow> (0, k, b))"

lemma drop_bit_page:
  assumes "y \<in> span (push_bit 12 pgno) n" "n \<le> 0x1000" "pgno < 0x100"
  shows "drop_bit 12 y = pgno"
proof -
  obtain i where i: "y = push_bit 12 pgno + of_nat i" "i < n" using assms(1) by (auto simp: span_def)
  have "unat pgno < 0x100" using assms(3) by (simp add: word_less_nat_alt)
  then have "unat y = unat pgno * 4096 + i"
    using i assms(2) by (simp add: unat_word_ariths unsigned_of_nat push_bit_eq_mult take_bit_nat_eq_self)
  then have "unat (drop_bit 12 y) = unat pgno" using i(2) assms(2) by (simp add: drop_bit_eq_div unat_div)
  then show ?thesis by (simp add: word_unat_eq_iff)
qed

lemma demo_touched:
  assumes "n \<le> 0x1000"
  shows "touched 12 0x1000 n \<subseteq> {x. drop_bit 12 x = 1}" and "touched 12 0x8000 n \<subseteq> {x. drop_bit 12 x = 8}"
    and "n \<noteq> 0 \<Longrightarrow> touched 12 0x1000 n = {x. drop_bit 12 x = 1}"
proof -
  have p1: "y \<in> span 0x1000 n \<Longrightarrow> drop_bit 12 y = 1" and p8: "y \<in> span 0x8000 n \<Longrightarrow> drop_bit 12 y = 8" for y
    using drop_bit_page [of y 1 n] drop_bit_page [of y 8 n] assms by simp_all
  show "touched 12 0x1000 n \<subseteq> {x. drop_bit 12 x = 1}" "touched 12 0x8000 n \<subseteq> {x. drop_bit 12 x = 8}"
    using p1 p8 by (auto simp: touched_def)
  assume "n \<noteq> 0"
  then have "0x1000 \<in> span 0x1000 n" by (auto simp: span_def image_iff intro: bexI [of _ 0])
  with p1 show "touched 12 0x1000 n = {x. drop_bit 12 x = 1}" by (auto simp: touched_def)
qed

lemma demo_kernel_laws: "kernel_laws 12 demo_kernel_call demo_mapped"
  unfolding kernel_laws_def
proof (intro conjI)
  have t1: "x \<in> touched 12 0x1000 (unat n) \<Longrightarrow> \<not> 0x1000 < unat n \<Longrightarrow> drop_bit 12 x = 1"
    and t8: "x \<in> touched 12 0x8000 (unat n) \<Longrightarrow> \<not> 0x1000 < unat n \<Longrightarrow> drop_bit 12 x = 8" for x and n :: u64
    using demo_touched(1,2) [of "unat n"] by auto
  have in1: "x \<in> touched 12 0x1000 (unat n)" if "drop_bit 12 x = 1" "\<not> 0x1000 < unat n" "n \<noteq> 0" for x and n :: u64
    using that demo_touched(3) [of "unat n"] by (auto simp: unat_eq_0)
  show "mprotect_law 12 demo_kernel_call demo_mapped"
    by (auto simp: mprotect_law_def demo_kernel_call_def demo_mapped_def kernel_result_is_error_def dest: t1 split: if_splits)
  show "munmap_law 12 demo_kernel_call" by (auto simp: munmap_law_def demo_kernel_call_def)
  show "mmap_law 12 demo_kernel_call demo_mapped"
    by (auto simp: mmap_law_def demo_kernel_call_def demo_mapped_def kernel_result_is_error_def dest: t8 in1 split: if_splits)
qed

definition demo_process :: "nat process" where
  "demo_process = \<lparr>pr_bytes = (\<lambda>x. ucast x), pr_kernel = 0, pr_errno = 0, pr_calls = []\<rparr>"

lemma span_1: "span a (Suc 0) = {a}"
  by (auto simp: span_def)

lemma demo_mprotect: "fst (mprotect Direct demo_kernel_call 0x1000 1 5 demo_process) = 0"
  by (simp add: shim_defs demo_kernel_call_def demo_process_def kernel_result_is_error_def)

theorem mprotect_keeps_memory_witness:
  "\<exists>p'. mprotect Direct demo_kernel_call 0x1000 1 5 demo_process = (0, p') \<and> pr_bytes p' 0x1000 = 0 \<and>
     (\<exists>calls. pr_calls p' = calls \<and> calls_ok 0x1000 1 5 0 calls)"
proof -
  obtain p' where m: "mprotect Direct demo_kernel_call 0x1000 1 5 demo_process = (0, p')"
    using demo_mprotect by (metis prod.collapse)
  have "0x1000 \<in> demo_mapped (pr_kernel demo_process)" "0x1000 \<in> span 0x1000 (unat 1)" "pr_bytes demo_process 0x1000 = 0" "pr_calls demo_process = []"
    by (simp_all add: demo_mapped_def demo_process_def span_1)
  then show ?thesis using mprotect_keeps_memory [OF demo_kernel_laws m] m by (metis append_Nil)
qed

section \<open>Two defects\<close>

text \<open>
  The kernel replaces whole pages but only the bytes of the range are copied: when the length is not a multiple of the page size, the call succeeds and the rest of
  the last page is lost. Here one byte is to be made executable and its neighbour is gone.
\<close>

theorem rest_of_page_is_lost:
  "\<exists>p'. mprotect Direct demo_kernel_call 0x1000 1 5 demo_process = (0, p') \<and> 0x1001 \<in> demo_mapped (pr_kernel demo_process) \<and>
     pr_bytes demo_process 0x1001 = 1 \<and> pr_bytes p' 0x1001 = 0"
proof -
  have "pr_bytes (snd (mprotect Direct demo_kernel_call 0x1000 1 5 demo_process)) 0x1001 = 0"
    by (simp add: shim_defs demo_kernel_call_def demo_process_def kernel_result_is_error_def)
  moreover have "0x1001 \<in> demo_mapped (pr_kernel demo_process)" "pr_bytes demo_process 0x1001 = 1"
    by (simp_all add: demo_mapped_def demo_process_def)
  ultimately show ?thesis using demo_mprotect by (metis prod.collapse)
qed

text \<open>
  In the build that enters the kernel through the C library the result of a failing call is \<open>-1\<close>, which is then read as a kernel result: the error number becomes
  EPERM, whatever it was, and the range is never replaced.
\<close>

theorem libc_build_never_replaces:
  assumes "sys (pr_kernel p) (pr_bytes p) (Sys_mprotect a n prot) = (res, k, b)" and "kernel_result_is_error res"
  shows "\<exists>p'. mprotect Libc sys a n prot p = (- 1, p') \<and> pr_errno p' = EPERM \<and> pr_calls p' = pr_calls p @ [(Sys_mprotect a n prot, res)]"
  using assms by (simp add: mprotect_def raw_mprotect_def raw_syscall6_def Let_def kernel_result_is_error_def)

end
