(* ===== verification/Tgc_Shims.thy ===== *)
theory Tgc_Shims
  imports Tgc_Text
begin

text \<open>
  The interposers around one call of the C library each, from \<^verbatim>\<open>src/reference-termux-glibc-compat/src\<close>: file locks
  (\<^verbatim>\<open>flock_shim.c\<close>), the robust futex list (\<^verbatim>\<open>robust_shim.c\<close>, its C parts) and the yield of a busy receive thread
  (\<^verbatim>\<open>raknet_recv_shim.c\<close>).
\<close>

section \<open>File locks\<close>

definition LOCK_SH :: u32 where [simp]: "LOCK_SH = 1"
definition LOCK_EX :: u32 where [simp]: "LOCK_EX = 2"
definition LOCK_NB :: u32 where [simp]: "LOCK_NB = 4"
definition LOCK_UN :: u32 where [simp]: "LOCK_UN = 8"

datatype lock_type = F_RDLCK | F_WRLCK | F_UNLCK
datatype lock_command = F_SETLK | F_SETLKW

text \<open>\<open>sl_real\<close>: the real function was found; \<open>sl_fallback\<close>: the fallback is configured.\<close>

record flock_shim =
  sl_real :: bool
  sl_fallback :: bool

definition initialize_flock_shim :: "string option \<Rightarrow> bool \<Rightarrow> flock_shim" where
  "initialize_flock_shim variable found = \<lparr>sl_real = found, sl_fallback = (variable = Some ''1'')\<rparr>"

text \<open>
  What a call ends in: failure with an error number, the answer of the real function, or a record lock on the whole file, which \<^verbatim>\<open>fcntl\<close> answers.
\<close>

datatype lock_action = Lock_Fail s32 | Lock_Answer s32 | Lock_Fcntl s32 lock_command lock_type

definition fcntl_flock :: "s32 \<Rightarrow> u32 \<Rightarrow> lock_action" where
  "fcntl_flock descriptor operation =
     (let lock_operation = operation AND NOT LOCK_NB;
          command = (if operation AND LOCK_NB \<noteq> 0 then F_SETLK else F_SETLKW)
      in if operation AND NOT (LOCK_SH OR LOCK_EX OR LOCK_UN OR LOCK_NB) \<noteq> 0 then Lock_Fail EINVAL
         else if lock_operation = LOCK_SH then Lock_Fcntl descriptor command F_RDLCK
         else if lock_operation = LOCK_EX then Lock_Fcntl descriptor command F_WRLCK
         else if lock_operation = LOCK_UN then Lock_Fcntl descriptor command F_UNLCK
         else Lock_Fail EINVAL)"

text \<open>\<open>answer\<close> is what the real function answers: its error number or its result, which is not negative.\<close>

definition flock :: "flock_shim \<Rightarrow> s32 + s32 \<Rightarrow> s32 \<Rightarrow> u32 \<Rightarrow> lock_action" where
  "flock shim answer descriptor operation =
     (case (if sl_real shim then answer else Inl ENOSYS) of
        Inr result \<Rightarrow> Lock_Answer result
      | Inl errno \<Rightarrow>
          if errno = ENOSYS \<and> sl_fallback shim then fcntl_flock descriptor operation else Lock_Fail errno)"

section \<open>The robust list\<close>

text \<open>
  The list head a thread is given, as it lies in memory from \<open>address\<close> on: the predecessor of \<^verbatim>\<open>pthread\<close>, then the head with its link, the
  offset and the pending operation.
\<close>

record robust_list =
  rl_previous :: u64
  rl_next :: u64
  rl_futex_offset :: s64
  rl_list_op_pending :: u64

record robust_thread =
  rb_address :: u64
  rb_synthetic_list :: robust_list
  rb_synthetic_list_initialized :: bool
  rb_errno :: s32

definition head_of :: "robust_thread \<Rightarrow> u64" where
  "head_of thread = rb_address thread + 8"

definition current_synthetic_head :: "robust_thread \<Rightarrow> u64 \<times> robust_thread" where
  "current_synthetic_head thread =
     (head_of thread,
      if rb_synthetic_list_initialized thread then thread
      else thread\<lparr>rb_synthetic_list := \<lparr>rl_previous = head_of thread, rl_next = head_of thread, rl_futex_offset = - 32,
                                        rl_list_op_pending = 0\<rparr>,
                  rb_synthetic_list_initialized := True\<rparr>)"

text \<open>\<open>head\<close> and \<open>len\<close> are the addresses the results go to, 0 for NULL; the stores made are returned.\<close>

definition tgcompat_emulate_get_robust_list ::
  "robust_thread \<Rightarrow> s64 \<Rightarrow> u64 \<Rightarrow> u64 \<Rightarrow> s64 \<times> (u64 \<times> u64) list \<times> robust_thread" where
  "tgcompat_emulate_get_robust_list thread process head len =
     (if process \<noteq> 0 then (1, [], thread)
      else if head = 0 \<or> len = 0 then (- 1, [], thread\<lparr>rb_errno := EFAULT\<rparr>)
      else
        let (address, thread') = current_synthetic_head thread
        in (0, [(head, address), (len, 24)], thread'\<lparr>rb_errno := rb_errno thread\<rparr>))"

definition tgcompat_syscall_enosys :: "robust_thread \<Rightarrow> s64 \<times> robust_thread" where
  "tgcompat_syscall_enosys thread = (- 1, thread\<lparr>rb_errno := ENOSYS\<rparr>)"

definition PROTON_ARM64_USERFAULTFD_SYSCALL :: s64 where [simp]: "PROTON_ARM64_USERFAULTFD_SYSCALL = 374"

text \<open>The numbers of the machine, and what the constructor of the shim found.\<close>

record robust_shim =
  rs_get_robust_list :: s64
  rs_userfaultfd :: "s64 option"
  rs_real_syscall :: bool
  rs_robust_list_enabled :: bool
  rs_userfaultfd_enosys_enabled :: bool

definition initialize_robust_shim :: "string option \<Rightarrow> string option \<Rightarrow> bool \<Rightarrow> robust_shim \<Rightarrow> robust_shim" where
  "initialize_robust_shim robust userfaultfd found shim =
     shim\<lparr>rs_robust_list_enabled := (robust = Some ''1''), rs_userfaultfd_enosys_enabled := (userfaultfd = Some ''1''),
          rs_real_syscall := found\<rparr>"

datatype syscall_action =
    Syscall_Result s64 "(u64 \<times> u64) list" robust_thread
  | Syscall_Forward s64 "s64 list" robust_thread

definition forward_syscall :: "robust_shim \<Rightarrow> robust_thread \<Rightarrow> s64 \<Rightarrow> s64 list \<Rightarrow> syscall_action" where
  "forward_syscall shim thread number arguments =
     (if \<not> rs_real_syscall shim then Syscall_Result (- 1) [] (thread\<lparr>rb_errno := ENOSYS\<rparr>)
      else Syscall_Forward number arguments thread)"

text \<open>The six variadic arguments are a list.\<close>

definition syscall :: "robust_shim \<Rightarrow> robust_thread \<Rightarrow> s64 \<Rightarrow> s64 list \<Rightarrow> syscall_action" where
  "syscall shim thread number arguments =
     (if rs_userfaultfd_enosys_enabled shim \<and> (number = PROTON_ARM64_USERFAULTFD_SYSCALL \<or> Some number = rs_userfaultfd shim)
      then Syscall_Result (- 1) [] (thread\<lparr>rb_errno := ENOSYS\<rparr>)
      else if rs_robust_list_enabled shim \<and> number = rs_get_robust_list shim then
        let (result, stores, thread') =
              tgcompat_emulate_get_robust_list thread (arguments ! 0) (arguments ! 1) (arguments ! 2)
        in if result \<noteq> 1 then Syscall_Result result stores thread' else forward_syscall shim thread' number arguments
      else forward_syscall shim thread number arguments)"

section \<open>The yield of the receive thread\<close>

definition TGCOMPAT_MAX_SLEEP_US :: u64 where [simp]: "TGCOMPAT_MAX_SLEEP_US = 10000"
definition TGCOMPAT_NAME_RECHECK_MASK :: u32 where [simp]: "TGCOMPAT_NAME_RECHECK_MASK = 1023"
definition TGCOMPAT_RAKNET_THREAD_NAME :: string where "TGCOMPAT_RAKNET_THREAD_NAME = ''Raknet-RecvFrom''"

definition parse_sleep_us :: "string option \<Rightarrow> u64" where
  "parse_sleep_us variable =
     (case variable of
        None \<Rightarrow> 0
      | Some s \<Rightarrow>
          if s = [] \<or> s = ''0'' then 0
          else
            let (parsed, rest, out_of_range) = strtoul s
            in if out_of_range \<or> rest = s \<or> rest \<noteq> [] \<or> parsed = 0 \<or> parsed > TGCOMPAT_MAX_SLEEP_US then 0 else parsed)"

record raknet_shim =
  rk_real_sched_yield :: bool
  rk_configured_sleep_us :: u64
  rk_diagnostics_enabled :: bool
  rk_shim_initialized :: bool
  rk_backoff_count :: u64

definition initialize_raknet_recv_shim :: "string option \<Rightarrow> string option \<Rightarrow> bool \<Rightarrow> raknet_shim \<Rightarrow> raknet_shim" where
  "initialize_raknet_recv_shim sleep diagnostics found shim =
     shim\<lparr>rk_real_sched_yield := found, rk_configured_sleep_us := parse_sleep_us sleep,
          rk_diagnostics_enabled := (diagnostics = Some ''1''), rk_shim_initialized := True\<rparr>"

record raknet_thread =
  rt_name_probe_counter :: u32
  rt_thread_match_state :: u8
  rt_errno :: s32

text \<open>\<open>name\<close> is the name of the thread, \<open>None\<close> when \<^verbatim>\<open>pthread_getname_np\<close> fails.\<close>

definition current_thread_is_raknet_recv :: "string option \<Rightarrow> raknet_thread \<Rightarrow> bool \<times> raknet_thread" where
  "current_thread_is_raknet_recv name thread =
     (if rt_thread_match_state thread = 1 then (True, thread)
      else
        let thread = thread\<lparr>rt_name_probe_counter := rt_name_probe_counter thread + 1\<rparr> in
        if rt_thread_match_state thread = 2 \<and> rt_name_probe_counter thread AND TGCOMPAT_NAME_RECHECK_MASK \<noteq> 0 then (False, thread)
        else if name = Some TGCOMPAT_RAKNET_THREAD_NAME then (True, thread\<lparr>rt_thread_match_state := 1\<rparr>)
        else (False, thread\<lparr>rt_thread_match_state := 2\<rparr>))"

text \<open>
  What \<^verbatim>\<open>nanosleep\<close> answers: it slept, it was interrupted with this much remaining, or it failed. The loop yields the result, the last error number
  and the times it asked for; \<open>None\<close> while it still sleeps.
\<close>

datatype sleep_event = Slept | Interrupted "nat \<times> nat" | Sleep_Error s32

fun sleep_loop :: "nat \<times> nat \<Rightarrow> sleep_event list \<Rightarrow> s32 \<Rightarrow> (s32 \<times> s32 \<times> (nat \<times> nat) list) option" where
  "sleep_loop remaining [] errno = None"
| "sleep_loop remaining (Slept # es) errno = Some (0, errno, [remaining])"
| "sleep_loop remaining (Interrupted rest # es) errno =
     map_option (\<lambda>(r, e, asked). (r, e, remaining # asked)) (sleep_loop rest es EINTR)"
| "sleep_loop remaining (Sleep_Error e # es) errno =
     (if e = EINTR then map_option (\<lambda>(r, e, asked). (r, e, remaining # asked)) (sleep_loop remaining es EINTR)
      else Some (- 1, e, [remaining]))"

definition sleep_for_configured_backoff ::
  "raknet_shim \<Rightarrow> sleep_event list \<Rightarrow> s32 \<Rightarrow> (s32 \<times> s32 \<times> (nat \<times> nat) list) option" where
  "sleep_for_configured_backoff shim es errno =
     sleep_loop (unat (rk_configured_sleep_us shim) div 1000000, unat (rk_configured_sleep_us shim) mod 1000000 * 1000) es errno"

text \<open>A yield is passed to the real function, or to the kernel when there is none, or replaced by a sleep of the times given.\<close>

datatype yield_action = Real_Yield | Kernel_Yield | Backed_Off "(nat \<times> nat) list"

definition call_real_sched_yield :: "raknet_shim \<Rightarrow> yield_action" where
  "call_real_sched_yield shim = (if rk_real_sched_yield shim then Real_Yield else Kernel_Yield)"

definition sched_yield ::
  "string option \<Rightarrow> sleep_event list \<Rightarrow> raknet_shim \<Rightarrow> raknet_thread \<Rightarrow> (yield_action \<times> raknet_shim \<times> raknet_thread) option" where
  "sched_yield name es shim thread =
     (if \<not> rk_shim_initialized shim \<or> rk_configured_sleep_us shim = 0 then Some (call_real_sched_yield shim, shim, thread)
      else
        let saved_errno = rt_errno thread; (match, thread) = current_thread_is_raknet_recv name thread in
        if \<not> match then Some (call_real_sched_yield shim, shim, thread)
        else
          case sleep_for_configured_backoff shim es (rt_errno thread) of
            None \<Rightarrow> None
          | Some (result, errno, asked) \<Rightarrow>
              if result \<noteq> 0 then Some (call_real_sched_yield shim, shim, thread\<lparr>rt_errno := errno\<rparr>)
              else Some (Backed_Off asked,
                         if rk_diagnostics_enabled shim then shim\<lparr>rk_backoff_count := rk_backoff_count shim + 1\<rparr> else shim,
                         thread\<lparr>rt_errno := saved_errno\<rparr>))"

definition tgcompat_raknet_recv_backoff_count :: "raknet_shim \<Rightarrow> u64" where
  "tgcompat_raknet_recv_backoff_count shim = rk_backoff_count shim"

definition tgcompat_raknet_recv_sleep_us :: "raknet_shim \<Rightarrow> u64" where
  "tgcompat_raknet_recv_sleep_us shim = rk_configured_sleep_us shim"


section \<open>Properties\<close>

text \<open>An operation without other bits is one of sixteen numbers.\<close>

lemma lock_bits:
  assumes "operation AND NOT 15 = (0 :: u32)"
  shows "operation \<in> {0, 1, 2, 3, 4, 5, 6, 7, 8, 9, 10, 11, 12, 13, 14, 15}"
proof -
  have "operation = (operation AND m) OR (operation AND NOT m)" for m
    by (rule bit_word_eqI) (auto simp: bit_and_iff bit_or_iff bit_not_iff)
  then have "operation = (operation AND 15) OR (operation AND NOT 15)" .
  also have "\<dots> = operation AND mask 4" unfolding assms by (simp add: mask_eq_exp_minus_1)
  finally have "unat operation = unat (take_bit 4 operation)" by (simp only: take_bit_eq_mask)
  also have "\<dots> < 16" by (simp add: take_bit_eq_mod unat_mod)
  finally obtain k where k: "operation = of_nat k" "k < 16" by (metis of_nat_unat ucast_id)
  then have "k \<in> set [0..<16]" by simp
  then show ?thesis using k(1) by (auto simp: upt_rec)
qed

lemma fcntl_flock_exact:
  "fcntl_flock descriptor operation =
     (if operation \<in> {1, 2, 8} then Lock_Fcntl descriptor F_SETLKW (if operation = 1 then F_RDLCK else if operation = 2 then F_WRLCK else F_UNLCK)
      else if operation \<in> {5, 6, 12} then Lock_Fcntl descriptor F_SETLK (if operation = 5 then F_RDLCK else if operation = 6 then F_WRLCK else F_UNLCK)
      else Lock_Fail EINVAL)"
proof (cases "operation AND NOT 15 = 0")
  case True
  from lock_bits [OF this] show ?thesis by (auto simp: fcntl_flock_def)
next
  case False
  then show ?thesis by (auto simp: fcntl_flock_def)
qed

text \<open>
  The fallback of the file lock means what the lock operation says: a lock is on the whole file, shared or exclusive or released as asked, and waits unless told not to;
  everything else is refused with EINVAL. Without configuration the real function alone decides.
\<close>

theorem flock_fallback_exact:
  "(sl_real shim \<and> (answer \<noteq> Inl ENOSYS \<or> \<not> sl_fallback shim) \<longrightarrow>
     flock shim answer descriptor operation = (case answer of Inl errno \<Rightarrow> Lock_Fail errno | Inr result \<Rightarrow> Lock_Answer result)) \<and>
   (sl_fallback shim \<and> (\<not> sl_real shim \<or> answer = Inl ENOSYS) \<longrightarrow>
     flock shim answer descriptor operation =
       (if operation \<in> {1, 2, 8} then Lock_Fcntl descriptor F_SETLKW (if operation = 1 then F_RDLCK else if operation = 2 then F_WRLCK else F_UNLCK)
        else if operation \<in> {5, 6, 12} then Lock_Fcntl descriptor F_SETLK (if operation = 5 then F_RDLCK else if operation = 6 then F_WRLCK else F_UNLCK)
        else Lock_Fail EINVAL))"
  by (auto simp: flock_def fcntl_flock_exact split: sum.splits)

text \<open>
  The emulated list is the empty circular list \<^verbatim>\<open>pthread\<close> expects right behind its predecessor field; asking again changes nothing, so that what the thread
  entered in between is kept. Only questions about the calling thread itself are answered.
\<close>

theorem robust_list_emulated:
  assumes "rs_robust_list_enabled shim" and "rs_get_robust_list shim \<noteq> 374" "rs_userfaultfd shim \<noteq> Some (rs_get_robust_list shim)"
    and "head \<noteq> 0" "len \<noteq> 0" and "\<not> rb_synthetic_list_initialized thread"
  shows "\<exists>thread'. syscall shim thread (rs_get_robust_list shim) [0, head, len, a, b, c] =
      Syscall_Result 0 [(head, rb_address thread + 8), (len, 24)] thread' \<and>
    rb_errno thread' = rb_errno thread \<and>
    rb_synthetic_list thread' = \<lparr>rl_previous = rb_address thread + 8, rl_next = rb_address thread + 8, rl_futex_offset = - 32, rl_list_op_pending = 0\<rparr> \<and>
    (\<forall>lst. syscall shim (thread'\<lparr>rb_synthetic_list := lst\<rparr>) (rs_get_robust_list shim) [0, head, len, a, b, c] =
      Syscall_Result 0 [(head, rb_address thread + 8), (len, 24)] (thread'\<lparr>rb_synthetic_list := lst\<rparr>))"
  using assms by (simp add: syscall_def tgcompat_emulate_get_robust_list_def current_synthetic_head_def head_of_def)

lemma strtoul_bound: "parse_sleep_us s \<le> TGCOMPAT_MAX_SLEEP_US"
  by (auto simp: parse_sleep_us_def Let_def split: option.split prod.split)

text \<open>Probing the name of a thread over and over.\<close>

abbreviation probed :: "string option \<Rightarrow> raknet_thread \<Rightarrow> raknet_thread" where
  "probed name \<equiv> \<lambda>thread. snd (current_thread_is_raknet_recv name thread)"

lemma unrecognised_probe:
  assumes "rt_thread_match_state (probed (Some TGCOMPAT_RAKNET_THREAD_NAME) t) \<noteq> 1"
  shows "rt_thread_match_state t \<noteq> 1"
    and "rt_name_probe_counter (probed (Some TGCOMPAT_RAKNET_THREAD_NAME) t) = rt_name_probe_counter t + 1"
    and "(rt_name_probe_counter t + 1) AND 1023 \<noteq> 0"
  using assms by (auto simp: current_thread_is_raknet_recv_def Let_def split: if_splits)

lemma unrecognised_probes:
  assumes "rt_thread_match_state ((probed (Some TGCOMPAT_RAKNET_THREAD_NAME) ^^ n) t) \<noteq> 1"
  shows "rt_name_probe_counter ((probed (Some TGCOMPAT_RAKNET_THREAD_NAME) ^^ n) t) = rt_name_probe_counter t + of_nat n \<and>
    (\<forall>i. 1 \<le> i \<and> i \<le> n \<longrightarrow> (rt_name_probe_counter t + of_nat i) AND 1023 \<noteq> 0)"
  using assms
proof (induction n)
  case (Suc n)
  note u = unrecognised_probe [of "(probed (Some TGCOMPAT_RAKNET_THREAD_NAME) ^^ n) t"]
  have "rt_thread_match_state (probed (Some TGCOMPAT_RAKNET_THREAD_NAME) ((probed (Some TGCOMPAT_RAKNET_THREAD_NAME) ^^ n) t)) \<noteq> 1"
    using Suc.prems by simp
  note u = u [OF this]
  have IH: "rt_name_probe_counter ((probed (Some TGCOMPAT_RAKNET_THREAD_NAME) ^^ n) t) = rt_name_probe_counter t + of_nat n"
    "\<forall>i. 1 \<le> i \<and> i \<le> n \<longrightarrow> (rt_name_probe_counter t + of_nat i) AND 1023 \<noteq> 0" using Suc.IH u(1) by blast+
  have last: "(rt_name_probe_counter t + of_nat (Suc n)) AND 1023 \<noteq> 0" using u(3) IH(1) by (simp add: ac_simps)
  have "(rt_name_probe_counter t + of_nat i) AND 1023 \<noteq> 0" if "1 \<le> i" "i \<le> Suc n" for i
    using IH(2) last that by (cases "i = Suc n") (auto simp: le_Suc_eq)
  then show ?case using u(2) IH(1) by (simp add: ac_simps)
qed simp

lemma counter_wraps: "\<exists>i. 1 \<le> i \<and> i \<le> 1024 \<and> (c + of_nat i) AND 1023 = (0 :: u32)"
proof -
  define m where "m = unat c mod 1024"
  let ?i = "1024 - m"
  have m: "m < 1024" "unat c = 1024 * (unat c div 1024) + m" unfolding m_def by simp_all
  then have "unat c + ?i = 1024 * (unat c div 1024 + 1)" by simp
  then have "take_bit 10 (unat c + ?i) = 0" by (simp add: take_bit_eq_mod)
  moreover have "c + of_nat ?i = of_nat (unat c + ?i)" by (simp add: of_nat_add)
  ultimately have "take_bit 10 (c + of_nat ?i) = of_nat 0" by (simp only: take_bit_of_nat)
  then have "take_bit 10 (c + of_nat ?i) = 0" by (simp only: semiring_1_class.of_nat_0)
  moreover have "(1023 :: u32) = mask 10" by (simp add: mask_eq_exp_minus_1)
  ultimately have "(c + of_nat ?i) AND 1023 = 0" by (simp only: take_bit_eq_mask)
  then show ?thesis by (intro exI [of _ ?i]) (use m(1) in simp)
qed

text \<open>
  The receive thread is found and slowed down. However often a thread has been looked at under another name, once it carries the name of the
  receive thread it is recognised within 1024 yields and then for good, and no thread of another name is taken for it. A yield replaced by a
  sleep asks for the configured time, at most ten milliseconds, and leaves \<^verbatim>\<open>errno\<close> as it was.
\<close>

theorem raknet_backoff:
  "rt_thread_match_state ((probed (Some TGCOMPAT_RAKNET_THREAD_NAME) ^^ 1024) t) = 1 \<and>
   (rt_thread_match_state t = 1 \<longrightarrow> current_thread_is_raknet_recv name t = (True, t)) \<and>
   (rt_thread_match_state t \<noteq> 1 \<and> name \<noteq> Some TGCOMPAT_RAKNET_THREAD_NAME \<longrightarrow>
     \<not> fst (current_thread_is_raknet_recv name t) \<and> rt_thread_match_state (probed name t) \<noteq> 1) \<and>
   (sched_yield name es (initialize_raknet_recv_shim sleep diagnostics found shim) t = Some (Backed_Off asked, shim', t') \<longrightarrow>
     rt_errno t' = rt_errno t \<and> rt_thread_match_state t' = 1 \<and> 0 < unat (parse_sleep_us sleep) \<and> unat (parse_sleep_us sleep) \<le> 10000 \<and>
     hd asked = (0, 1000 * unat (parse_sleep_us sleep)))"
proof -
  have "rt_thread_match_state ((probed (Some TGCOMPAT_RAKNET_THREAD_NAME) ^^ 1024) t) = 1"
    using unrecognised_probes [of 1024 t] counter_wraps [of "rt_name_probe_counter t"] by blast
  moreover have bound: "unat (parse_sleep_us sleep) \<le> 10000" using strtoul_bound [of sleep] by (simp add: word_le_nat_alt)
  moreover have "hd asked = remaining" if "sleep_loop remaining es e = Some (r, e', asked)" for remaining e r e'
    using that by (induction remaining es e arbitrary: r e' asked rule: sleep_loop.induct) (auto split: if_splits)
  ultimately show ?thesis
    by (auto simp: current_thread_is_raknet_recv_def sched_yield_def sleep_for_configured_backoff_def initialize_raknet_recv_shim_def
        call_real_sched_yield_def Let_def unat_gt_0 split: if_splits option.splits)
qed


definition demo_raknet_thread :: raknet_thread where
  "demo_raknet_thread = \<lparr>rt_name_probe_counter = 0xfffffffe, rt_thread_match_state = 2, rt_errno = 11\<rparr>"

text \<open>A thread looked at under another name until the counter is about to wrap; two probes later it is due again.\<close>

theorem raknet_backoff_witness:
  "rt_thread_match_state ((probed (Some TGCOMPAT_RAKNET_THREAD_NAME) ^^ 1024) demo_raknet_thread) = 1 \<and>
   (\<exists>shim t' t''. probed (Some TGCOMPAT_RAKNET_THREAD_NAME) demo_raknet_thread = t' \<and> rt_thread_match_state t' \<noteq> 1 \<and>
     sched_yield (Some TGCOMPAT_RAKNET_THREAD_NAME) [Interrupted (0, 7), Slept] (initialize_raknet_recv_shim (Some ''250'') None True shim) t' =
       Some (Backed_Off [(0, 250000), (0, 7)], initialize_raknet_recv_shim (Some ''250'') None True shim, t'') \<and> rt_errno t'' = 11)"
proof -
  define shim where "shim = \<lparr>rk_real_sched_yield = True, rk_configured_sleep_us = 0, rk_diagnostics_enabled = False,
    rk_shim_initialized = False, rk_backoff_count = 0\<rparr>"
  have parsed: "parse_sleep_us (Some ''250'') = 250"
    by (simp add: parse_sleep_us_def strtoul_def number_parts_def is_space_def is_digit_def decimal_def)
  let ?t = "probed (Some TGCOMPAT_RAKNET_THREAD_NAME) demo_raknet_thread"
  have t: "rt_thread_match_state ?t \<noteq> 1" "rt_errno ?t = 11"
    by (simp_all add: current_thread_is_raknet_recv_def demo_raknet_thread_def)
  have y: "\<exists>t''. sched_yield (Some TGCOMPAT_RAKNET_THREAD_NAME) [Interrupted (0, 7), Slept] (initialize_raknet_recv_shim (Some ''250'') None True shim) ?t =
      Some (Backed_Off [(0, 250000), (0, 7)], initialize_raknet_recv_shim (Some ''250'') None True shim, t'')"
    by (simp add: sched_yield_def initialize_raknet_recv_shim_def parsed current_thread_is_raknet_recv_def demo_raknet_thread_def
        sleep_for_configured_backoff_def)
  then obtain t'' where y: "sched_yield (Some TGCOMPAT_RAKNET_THREAD_NAME) [Interrupted (0, 7), Slept]
      (initialize_raknet_recv_shim (Some ''250'') None True shim) ?t =
      Some (Backed_Off [(0, 250000), (0, 7)], initialize_raknet_recv_shim (Some ''250'') None True shim, t'')" by blast
  have "rt_errno t'' = 11" using raknet_backoff [THEN conjunct2, THEN conjunct2, THEN conjunct2, THEN mp, OF y] t(2) by simp
  then show ?thesis using raknet_backoff [of demo_raknet_thread] t(1) y by blast
qed

end
