(* ===== verification/Tgc_Steam_Sysv.thy ===== *)
theory Tgc_Steam_Sysv
  imports Tgc_Sem_Ops
begin

text \<open>
  The semaphores of \<^verbatim>\<open>src/steam-sysv-shim.c\<close>, kept inside one process: a fixed table of sets under a mutex. An operation of \<^verbatim>\<open>semop\<close> that has to wait sleeps on
  a condition variable and looks at the table again when it wakes up. The values C computes in \<^verbatim>\<open>int\<close> are integers. Next to its result a function returns
  the new error number, if it sets one, the new table, and whether it wakes the sleepers.
\<close>

section \<open>The table\<close>

definition SHIM_SEM_SETS :: nat where [simp]: "SHIM_SEM_SETS = 32"
definition SHIM_SEMS_PER_SET :: nat where [simp]: "SHIM_SEMS_PER_SET = 32"
definition SHIM_SEM_ID_BASE :: int where [simp]: "SHIM_SEM_ID_BASE = 0x534d00"

definition EFBIG :: s32 where [simp]: "EFBIG = 27"
definition ENOTSUP :: s32 where [simp]: "ENOTSUP = 95"

text \<open>The commands of \<^verbatim>\<open>semctl\<close>.\<close>

definition IPC_RMID :: s32 where [simp]: "IPC_RMID = 0"
definition GETPID :: s32 where [simp]: "GETPID = 11"
definition GETVAL :: s32 where [simp]: "GETVAL = 12"
definition GETNCNT :: s32 where [simp]: "GETNCNT = 14"
definition GETZCNT :: s32 where [simp]: "GETZCNT = 15"
definition SETVAL :: s32 where [simp]: "SETVAL = 16"
definition SETALL :: s32 where [simp]: "SETALL = 17"

record shim_sem_set =
  sh_used :: bool
  sh_key :: s32
  sh_count :: s32
  sh_value :: "u16 list"

definition cleared_sem_set :: shim_sem_set where
  "cleared_sem_set = \<lparr>sh_used = False, sh_key = 0, sh_count = 0, sh_value = replicate SHIM_SEMS_PER_SET 0\<rparr>"

definition initial_sets :: "shim_sem_set list" where
  "initial_sets = replicate SHIM_SEM_SETS cleared_sem_set"

definition from_id :: "shim_sem_set list \<Rightarrow> s32 \<Rightarrow> nat option" where
  "from_id sets semid =
     (let slot = sint semid - SHIM_SEM_ID_BASE in
      if slot < 0 \<or> slot \<ge> int SHIM_SEM_SETS \<or> \<not> sh_used (sets ! nat slot) then None else Some (nat slot))"

text \<open>The result, the error number if it is set, the table, and whether sleepers are woken.\<close>

type_synonym sysv_result = "s32 \<times> s32 option \<times> shim_sem_set list \<times> bool"

abbreviation sysv_error :: "s32 \<Rightarrow> shim_sem_set list \<Rightarrow> sysv_result" where
  "sysv_error errno sets \<equiv> (- 1, Some errno, sets, False)"

section \<open>semget\<close>

text \<open>The loop over the table: the slot of the key, if there is one, and the first free slot seen before.\<close>

fun scan_sets :: "shim_sem_set list \<Rightarrow> nat \<Rightarrow> s32 \<Rightarrow> nat option \<Rightarrow> nat option \<times> nat option" where
  "scan_sets [] i key free_slot = (None, free_slot)"
| "scan_sets (s # rest) i key free_slot =
     (if sh_used s \<and> sh_key s = key \<and> key \<noteq> TGC_IPC_PRIVATE then (Some i, free_slot)
      else scan_sets rest (Suc i) key (if \<not> sh_used s \<and> free_slot = None then Some i else free_slot))"

definition id_of_slot :: "nat \<Rightarrow> s32" where
  "id_of_slot i = word_of_int (SHIM_SEM_ID_BASE + int i)"

definition semget :: "shim_sem_set list \<Rightarrow> s32 \<Rightarrow> s32 \<Rightarrow> s32 \<Rightarrow> sysv_result" where
  "semget sets key nsems flags =
     (case scan_sets sets 0 key None of
        (Some i, _) \<Rightarrow>
          if flags AND TGC_IPC_CREAT \<noteq> 0 \<and> flags AND TGC_IPC_EXCL \<noteq> 0 then sysv_error EEXIST sets
          else (id_of_slot i, None, sets, False)
      | (None, free_slot) \<Rightarrow>
          if flags AND TGC_IPC_CREAT = 0 \<and> key \<noteq> TGC_IPC_PRIVATE then sysv_error ENOENT sets
          else
            case free_slot of
              None \<Rightarrow> sysv_error ENOSPC sets
            | Some i \<Rightarrow>
                if sint nsems \<le> 0 \<or> sint nsems > int SHIM_SEMS_PER_SET then sysv_error EINVAL sets
                else (id_of_slot i, None,
                      sets[i := \<lparr>sh_used = True, sh_key = key, sh_count = nsems, sh_value = replicate SHIM_SEMS_PER_SET 0\<rparr>], False))"

section \<open>semctl\<close>

text \<open>\<open>arg\<close> is the variadic argument, \<open>pid\<close> what \<^verbatim>\<open>getpid\<close> answers.\<close>

definition semctl :: "s32 \<Rightarrow> shim_sem_set list \<Rightarrow> s32 \<Rightarrow> s32 \<Rightarrow> s32 \<Rightarrow> u64 \<Rightarrow> sysv_result" where
  "semctl pid sets semid semnum cmd arg =
     (case from_id sets semid of
        None \<Rightarrow> sysv_error EINVAL sets
      | Some i \<Rightarrow>
          let s = sets ! i; n = nat (sint semnum) in
          if cmd = IPC_RMID then (0, None, sets[i := cleared_sem_set], True)
          else if sint semnum < 0 \<or> sint semnum \<ge> sint (sh_count s) then sysv_error EINVAL sets
          else if cmd = GETVAL then (ucast (sh_value s ! n), None, sets, False)
          else if cmd = SETVAL then
            if unat arg > 32767 then sysv_error ERANGE sets
            else (0, None, sets[i := s\<lparr>sh_value := (sh_value s)[n := ucast arg]\<rparr>], True)
          else if cmd = GETPID then (pid, None, sets, False)
          else if cmd = GETNCNT \<or> cmd = GETZCNT then (0, None, sets, False)
          else sysv_error ENOTSUP sets)"

section \<open>semop\<close>

text \<open>The test of all operations against the values as they are.\<close>

datatype op_check = Ops_Ready | Ops_Bad | Ops_Again | Ops_Blocked

definition op_blocks :: "u16 list \<Rightarrow> tgc_sem_op \<Rightarrow> bool" where
  "op_blocks vals operation \<longleftrightarrow>
     (let v = uint (vals ! unat (sem_num operation)); d = sint (sem_op operation) in d < 0 \<and> v < - d \<or> d = 0 \<and> v \<noteq> 0)"

fun check_ops :: "s32 \<Rightarrow> u16 list \<Rightarrow> tgc_sem_op list \<Rightarrow> op_check" where
  "check_ops cnt vals [] = Ops_Ready"
| "check_ops cnt vals (operation # rest) =
     (if uint (sem_num operation) \<ge> sint cnt then Ops_Bad
      else if op_blocks vals operation then
        if sem_flg operation AND TGC_IPC_NOWAIT \<noteq> 0 then Ops_Again else Ops_Blocked
      else check_ops cnt vals rest)"

fun apply_ops :: "u16 list \<Rightarrow> tgc_sem_op list \<Rightarrow> u16 list" where
  "apply_ops vals [] = vals"
| "apply_ops vals (operation # rest) =
     (let n = unat (sem_num operation) in
      apply_ops (vals[n := word_of_int (uint (vals ! n) + sint (sem_op operation))]) rest)"

text \<open>One round of the loop: it returns, or sleeps until the table has changed.\<close>

datatype sysv_round = Sysv_Return sysv_result | Sysv_Wait

definition semop_round :: "shim_sem_set list \<Rightarrow> s32 \<Rightarrow> tgc_sem_op list \<Rightarrow> sysv_round" where
  "semop_round sets semid ops =
     (case from_id sets semid of
        None \<Rightarrow> Sysv_Return (sysv_error EINVAL sets)
      | Some i \<Rightarrow>
          let s = sets ! i in
          case check_ops (sh_count s) (sh_value s) ops of
            Ops_Bad \<Rightarrow> Sysv_Return (sysv_error EFBIG sets)
          | Ops_Again \<Rightarrow> Sysv_Return (sysv_error EAGAIN sets)
          | Ops_Blocked \<Rightarrow> Sysv_Wait
          | Ops_Ready \<Rightarrow> Sysv_Return (0, None, sets[i := s\<lparr>sh_value := apply_ops (sh_value s) ops\<rparr>], True))"

text \<open>\<open>tables\<close> are the tables the call finds, at first and after each wake-up; \<open>None\<close> while it sleeps.\<close>

fun semop :: "shim_sem_set list list \<Rightarrow> s32 \<Rightarrow> tgc_sem_op list \<Rightarrow> sysv_result option" where
  "semop [] semid ops = None"
| "semop (sets # tables) semid ops =
     (case semop_round sets semid ops of
        Sysv_Return r \<Rightarrow> Some r
      | Sysv_Wait \<Rightarrow> semop tables semid ops)"

section \<open>The invariant of the table\<close>

definition sem_set_ok :: "shim_sem_set \<Rightarrow> bool" where
  "sem_set_ok s \<longleftrightarrow> length (sh_value s) = 32 \<and> (sh_used s \<longrightarrow> 1 \<le> sint (sh_count s) \<and> sint (sh_count s) \<le> 32)"

text \<open>A key names at most one set.\<close>

definition keys_unique :: "shim_sem_set list \<Rightarrow> bool" where
  "keys_unique sets \<longleftrightarrow>
     (\<forall>i j. i < length sets \<and> j < length sets \<and> sh_used (sets ! i) \<and> sh_used (sets ! j) \<and> sh_key (sets ! i) = sh_key (sets ! j) \<and>
        sh_key (sets ! i) \<noteq> TGC_IPC_PRIVATE \<longrightarrow> i = j)"

definition sysv_wf :: "shim_sem_set list \<Rightarrow> bool" where
  "sysv_wf sets \<longleftrightarrow> length sets = SHIM_SEM_SETS \<and> (\<forall>s \<in> set sets. sem_set_ok s) \<and> keys_unique sets"

lemma keys_uniqueD:
  "keys_unique sets \<Longrightarrow> i < length sets \<Longrightarrow> j < length sets \<Longrightarrow> sh_used (sets ! i) \<Longrightarrow> sh_used (sets ! j) \<Longrightarrow>
   sh_key (sets ! i) = sh_key (sets ! j) \<Longrightarrow> i \<noteq> j \<Longrightarrow> sh_key (sets ! i) = 0"
  unfolding keys_unique_def TGC_IPC_PRIVATE_def by blast

abbreviation has_key :: "s32 \<Rightarrow> shim_sem_set \<Rightarrow> bool" where
  "has_key key s \<equiv> sh_used s \<and> sh_key s = key \<and> key \<noteq> TGC_IPC_PRIVATE"

lemma scan_sets_found: "fst (scan_sets sets k key free) = map_option ((+) k) (first_index (has_key key) sets)"
  by (induction sets k key free rule: scan_sets.induct) (simp_all add: option.map_comp o_def)

lemma scan_sets_free:
  "first_index (has_key key) sets = None \<Longrightarrow>
   snd (scan_sets sets k key free) =
     (case free of Some f \<Rightarrow> Some f | None \<Rightarrow> map_option ((+) k) (first_index (\<lambda>s. \<not> sh_used s) sets))"
proof (induction sets k key free rule: scan_sets.induct)
  case (2 s rest i key free_slot)
  have "(+) (Suc i) = (\<lambda>x. Suc (i + x))" by (rule ext) simp
  then show ?case using 2 by (auto simp: option.map_comp o_def split: option.splits if_splits)
qed (simp split: option.split)

lemma from_id_slot: "from_id sets semid = Some i \<Longrightarrow> sint semid = SHIM_SEM_ID_BASE + int i"
  unfolding from_id_def Let_def by (auto split: if_splits)

lemma from_id_Some:
  assumes "sysv_wf sets" "from_id sets semid = Some i"
  shows "i < length sets" "sh_used (sets ! i)" "1 \<le> sint (sh_count (sets ! i))" "sint (sh_count (sets ! i)) \<le> 32"
    "length (sh_value (sets ! i)) = 32"
proof -
  show i: "i < length sets" and u: "sh_used (sets ! i)"
    using assms by (auto simp: from_id_def Let_def sysv_wf_def split: if_splits)
  have "sets ! i \<in> set sets" using i by simp
  then show "1 \<le> sint (sh_count (sets ! i))" "sint (sh_count (sets ! i)) \<le> 32" "length (sh_value (sets ! i)) = 32"
    using assms(1) u unfolding sysv_wf_def sem_set_ok_def by blast+
qed

text \<open>Storing a set keeps the invariant if its key is not taken by another one.\<close>

lemma sysv_wf_update:
  assumes "sysv_wf sets" "length (sh_value s) = 32" "sh_used s \<Longrightarrow> 1 \<le> sint (sh_count s) \<and> sint (sh_count s) \<le> 32"
    and "\<And>j. j < length sets \<Longrightarrow> j \<noteq> i \<Longrightarrow> sh_used s \<Longrightarrow> sh_used (sets ! j) \<Longrightarrow> sh_key (sets ! j) = sh_key s \<Longrightarrow> sh_key s = 0"
  shows "sysv_wf (sets[i := s])"
proof -
  have keys: "keys_unique sets" and ok: "\<forall>t \<in> set sets. sem_set_ok t" and len: "length sets = 32" using assms(1) by (simp_all add: sysv_wf_def)
  have "keys_unique (sets[i := s])"
    unfolding keys_unique_def TGC_IPC_PRIVATE_def
  proof (intro allI impI)
    fix a b
    assume h: "a < length (sets[i := s]) \<and> b < length (sets[i := s]) \<and> sh_used (sets[i := s] ! a) \<and> sh_used (sets[i := s] ! b) \<and>
      sh_key (sets[i := s] ! a) = sh_key (sets[i := s] ! b) \<and> sh_key (sets[i := s] ! a) \<noteq> 0"
    consider "a = b" | "a = i" "b \<noteq> i" | "a \<noteq> i" "b = i" | "a \<noteq> i" "b \<noteq> i" "a \<noteq> b" by blast
    then show "a = b"
    proof cases
      case 2
      then show ?thesis using h assms(4) [of b] by auto
    next
      case 3
      then show ?thesis using h assms(4) [of a] by auto
    next
      case 4
      then show ?thesis using h keys_uniqueD [OF keys, of a b] by simp
    qed
  qed
  moreover have "\<forall>t \<in> set (sets[i := s]). sem_set_ok t"
    using ok assms(2,3) set_update_subset_insert [of sets i s] by (auto simp: sem_set_ok_def)
  ultimately show ?thesis using len by (simp add: sysv_wf_def)
qed

lemma length_apply_ops [simp]: "length (apply_ops vals ops) = length vals"
  by (induction vals ops rule: apply_ops.induct) (simp_all add: Let_def)


lemma semget_wf:
  assumes "sysv_wf sets" "semget sets key nsems flags = (r, e, sets', wake)"
  shows "sysv_wf sets'"
proof (cases "first_index (has_key key) sets")
  case None
  have "sysv_wf (sets[i := \<lparr>sh_used = True, sh_key = key, sh_count = nsems, sh_value = replicate 32 0\<rparr>])"
    if "0 < sint nsems" "sint nsems \<le> 32" for i
    using assms(1) None that by (intro sysv_wf_update) (auto simp: first_index_None_iff)
  then show ?thesis
    using assms scan_sets_found [of sets 0 key None] None
    by (auto simp: semget_def split: prod.splits option.splits if_splits)
next
  case (Some i)
  then show ?thesis
    using assms scan_sets_found [of sets 0 key None]
    by (auto simp: semget_def split: prod.splits option.splits if_splits)
qed

lemma same_identity_wf:
  assumes "sysv_wf sets" "from_id sets semid = Some i" "length vals = 32"
  shows "sysv_wf (sets[i := (sets ! i)\<lparr>sh_value := vals\<rparr>])"
proof (rule sysv_wf_update [OF assms(1)])
  fix j
  assume "j < length sets" "j \<noteq> i" "sh_used (sets ! j)" "sh_key (sets ! j) = sh_key ((sets ! i)\<lparr>sh_value := vals\<rparr>)"
  then show "sh_key ((sets ! i)\<lparr>sh_value := vals\<rparr>) = 0"
    using keys_uniqueD [of sets i j] assms(1) from_id_Some(1,2) [OF assms(1,2)] by (simp add: sysv_wf_def)
qed (use assms from_id_Some [OF assms(1,2)] in simp_all)

lemma semctl_wf:
  assumes "sysv_wf sets" "semctl pid sets semid semnum cmd arg = (r, e, sets', wake)"
  shows "sysv_wf sets'"
proof -
  have "sysv_wf (sets[i := cleared_sem_set])" for i
    using assms(1) by (rule sysv_wf_update) (simp_all add: cleared_sem_set_def)
  then show ?thesis
    using assms same_identity_wf [OF assms(1)] from_id_Some(5) [OF assms(1)]
    by (auto simp: semctl_def Let_def split: option.splits if_splits)
qed

lemma semop_round_wf:
  assumes "sysv_wf sets" "semop_round sets semid ops = Sysv_Return (r, e, sets', wake)"
  shows "sysv_wf sets'"
  using assms same_identity_wf [OF assms(1)] from_id_Some(5) [OF assms(1)]
  by (auto simp: semop_round_def Let_def split: option.splits op_check.splits)

section \<open>The operations of a call\<close>

lemma uint_of_int_u16: "0 \<le> k \<Longrightarrow> k < 65536 \<Longrightarrow> uint (word_of_int k :: u16) = k"
  by (simp add: uint_word_of_int mod_pos_pos_trivial)

lemma op_blocks_update:
  "n \<noteq> unat (sem_num operation) \<Longrightarrow> op_blocks (vals[n := v]) operation = op_blocks vals operation"
  by (simp add: op_blocks_def)

lemma check_ops_update:
  "n \<notin> (\<lambda>operation. unat (sem_num operation)) ` set ops \<Longrightarrow> check_ops cnt (vals[n := v]) ops = check_ops cnt vals ops"
  by (induction ops) (auto simp: op_blocks_update)

text \<open>
  What a round does to the values of a set, next to the integer semantics of \<^verbatim>\<open>semop\<close>, for operations on different semaphores: the one blocks exactly where the other
  does, and otherwise the values agree.
\<close>

lemma round_matches_spec:
  assumes "distinct (map (\<lambda>operation. unat (sem_num operation)) ops)"
    and "\<forall>operation \<in> set ops. uint (sem_num operation) < sint cnt" and "sint cnt \<le> int (length vals)"
    and "spec_ops (map uint vals) ops \<noteq> Spec_Range"
  shows "case spec_ops (map uint vals) ops of
      Spec_Done vs \<Rightarrow> check_ops cnt vals ops = Ops_Ready \<and> map uint (apply_ops vals ops) = vs
    | Spec_Blocked operation \<Rightarrow> check_ops cnt vals ops = (if sem_flg operation AND TGC_IPC_NOWAIT \<noteq> 0 then Ops_Again else Ops_Blocked)
    | Spec_Range \<Rightarrow> False"
  using assms
proof (induction ops arbitrary: vals)
  case (Cons op ops)
  let ?n = "unat (sem_num op)"
  let ?v = "uint (vals ! ?n)" and ?d = "sint (sem_op op)"
  define w where "w = vals[?n := word_of_int (?v + ?d)]"
  have "int ?n < sint cnt" using Cons.prems(2) by simp
  then have n: "?n < length vals" using Cons.prems(3) by linarith
  have zero: "sem_op op = 0 \<longleftrightarrow> ?d = 0" by (simp only: sint_s16_zero_iff)
  have blocks: "op_blocks vals op \<longleftrightarrow> sem_op op = 0 \<and> ?v + ?d \<noteq> 0 \<or> ?v + ?d < 0"
    unfolding op_blocks_def Let_def zero using uint_bound16(1) [of "vals ! ?n"] by linarith
  have spec: "spec_ops (map uint vals) (op # ops) =
      (if op_blocks vals op then Spec_Blocked op else if 32767 < ?v + ?d then Spec_Range else spec_ops ((map uint vals)[?n := ?v + ?d]) ops)"
    using n by (simp add: Let_def blocks)
  show ?case
  proof (cases "op_blocks vals op")
    case True
    then show ?thesis using Cons.prems(2) by (simp add: spec del: spec_ops.simps)
  next
    case False
    then have range: "?v + ?d \<le> 32767" "0 \<le> ?v + ?d" using Cons.prems(4) blocks by (auto simp: spec simp del: spec_ops.simps split: if_splits)
    have "uint (word_of_int (?v + ?d) :: u16) = ?v + ?d" using range by (intro uint_of_int_u16) simp_all
    then have w: "map uint w = (map uint vals)[?n := ?v + ?d]" by (simp only: w_def map_update)
    have "spec_ops (map uint vals) (op # ops) = spec_ops ((map uint vals)[?n := ?v + ?d]) ops"
      using range False by (simp add: spec del: spec_ops.simps)
    then have rest: "spec_ops (map uint vals) (op # ops) = spec_ops (map uint w) ops" by (simp only: w)
    have "check_ops cnt w ops = check_ops cnt vals ops" unfolding w_def using Cons.prems(1) by (intro check_ops_update) simp
    then have chk: "check_ops cnt vals (op # ops) = check_ops cnt w ops" using False Cons.prems(2) by simp
    have app: "apply_ops vals (op # ops) = apply_ops w ops" by (simp only: apply_ops.simps Let_def w_def)
    have "length w = length vals" by (simp add: w_def)
    then show ?thesis unfolding rest chk app using Cons.prems(1-3) Cons.prems(4) [unfolded rest] by (intro Cons.IH) simp_all
  qed
qed simp


section \<open>Properties\<close>

inductive sysv_step :: "shim_sem_set list \<Rightarrow> shim_sem_set list \<Rightarrow> bool" where
  step_semget: "semget sets key nsems flags = (r, e, sets', wake) \<Longrightarrow> sysv_step sets sets'"
| step_semctl: "semctl pid sets semid semnum cmd arg = (r, e, sets', wake) \<Longrightarrow> sysv_step sets sets'"
| step_semop: "semop_round sets semid ops = Sysv_Return (r, e, sets', wake) \<Longrightarrow> sysv_step sets sets'"

lemma initial_sets_wf: "sysv_wf initial_sets"
  by (auto simp: sysv_wf_def initial_sets_def keys_unique_def sem_set_ok_def cleared_sem_set_def)

interpretation sysv_system: transition_system initial_sets sysv_step sysv_wf
  by unfold_locales (auto simp: initial_sets_wf elim!: sysv_step.cases intro: semget_wf semctl_wf semop_round_wf)

text \<open>
  The values of a live set, the semaphores in use only.
\<close>

definition sysv_values :: "shim_sem_set list \<Rightarrow> s32 \<Rightarrow> int list option" where
  "sysv_values sets semid =
     map_option (\<lambda>i. map uint (take (nat (sint (sh_count (sets ! i)))) (sh_value (sets ! i)))) (from_id sets semid)"

lemma spec_ops_take:
  assumes "\<forall>operation \<in> set ops. unat (sem_num operation) < k" "k \<le> length vs"
  shows "spec_ops (take k vs) ops =
    (case spec_ops vs ops of Spec_Done vs' \<Rightarrow> Spec_Done (take k vs') | Spec_Range \<Rightarrow> Spec_Range | Spec_Blocked operation \<Rightarrow> Spec_Blocked operation)"
  using assms
proof (induction ops arbitrary: vs)
  case (Cons op ops)
  let ?v = "vs ! unat (sem_num op) + sint (sem_op op)"
  have "spec_ops ((take k vs)[unat (sem_num op) := ?v]) ops = (case spec_ops (vs[unat (sem_num op) := ?v]) ops of
      Spec_Done vs' \<Rightarrow> Spec_Done (take k vs') | Spec_Range \<Rightarrow> Spec_Range | Spec_Blocked operation \<Rightarrow> Spec_Blocked operation)"
    using Cons.IH [of "vs[unat (sem_num op) := ?v]"] Cons.prems by (simp add: take_update_swap)
  then show ?case using Cons.prems by (simp add: Let_def)
qed simp

text \<open>An identifier is the slot it names, so storing into a slot concerns one identifier only.\<close>

lemma sysv_values_update:
  assumes "sysv_wf sets" "from_id sets semid = Some i"
  shows "sysv_values (sets[i := (sets ! i)\<lparr>sh_value := w\<rparr>]) x =
    (if x = semid then Some (map uint (take (nat (sint (sh_count (sets ! i)))) w)) else sysv_values sets x)"
proof -
  let ?sets = "sets[i := (sets ! i)\<lparr>sh_value := w\<rparr>]"
  have i: "i < length sets" using from_id_Some(1) [OF assms] .
  have same: "from_id ?sets y = from_id sets y" for y
    using i by (simp add: from_id_def Let_def nth_list_update)
  have inj: "y = semid" if "from_id sets y = Some i" for y
  proof -
    have "sint y = sint semid" using from_id_slot [OF that] from_id_slot [OF assms(2)] by simp
    then show ?thesis by (rule signed_word_eqI)
  qed
  show ?thesis
  proof (cases "x = semid")
    case True
    then show ?thesis using i same [of semid] assms(2) by (simp add: sysv_values_def)
  next
    case False
    then have "from_id sets x \<noteq> Some i" using inj by blast
    then show ?thesis using False same [of x] by (cases "from_id sets x") (simp_all add: sysv_values_def)
  qed
qed

text \<open>
  C24. In every reachable table of the in-process semaphores, a call of \<^verbatim>\<open>semop\<close> whose operations are on different semaphores and keep every value in range does what System V
  semantics ask for: it waits, or fails with EAGAIN, exactly where the operations performed in order would block, and otherwise changes the values of that set to what
  performing them in order gives, changes no other set, and wakes the sleepers.
\<close>

theorem sysv_semop_matches_spec:
  assumes "sysv_step\<^sup>*\<^sup>* initial_sets sets" and "sysv_values sets semid = Some vs"
    and "distinct (map (\<lambda>operation. unat (sem_num operation)) ops)" and "\<forall>operation \<in> set ops. unat (sem_num operation) < length vs"
    and "spec_ops vs ops \<noteq> Spec_Range"
  shows "case spec_ops vs ops of
      Spec_Done vs' \<Rightarrow> \<exists>sets'. semop_round sets semid ops = Sysv_Return (0, None, sets', True) \<and> sysv_values sets' semid = Some vs' \<and>
        (\<forall>other. other \<noteq> semid \<longrightarrow> sysv_values sets' other = sysv_values sets other)
    | Spec_Blocked operation \<Rightarrow> semop_round sets semid ops =
        (if sem_flg operation AND TGC_IPC_NOWAIT \<noteq> 0 then Sysv_Return (- 1, Some EAGAIN, sets, False) else Sysv_Wait)
    | Spec_Range \<Rightarrow> False"
proof -
  have wf: "sysv_wf sets" using assms(1) by (rule sysv_system.reachable_inv)
  obtain i where i: "from_id sets semid = Some i" and vs: "vs = map uint (take (nat (sint (sh_count (sets ! i)))) (sh_value (sets ! i)))"
    using assms(2) by (auto simp: sysv_values_def)
  let ?s = "sets ! i"
  let ?k = "nat (sint (sh_count ?s))"
  note f = from_id_Some [OF wf i]
  have len: "length vs = ?k" using f vs by simp
  have split: "spec_ops vs ops = (case spec_ops (map uint (sh_value ?s)) ops of
      Spec_Done vs' \<Rightarrow> Spec_Done (take ?k vs') | Spec_Range \<Rightarrow> Spec_Range | Spec_Blocked operation \<Rightarrow> Spec_Blocked operation)"
    unfolding vs take_map [symmetric] using f assms(4) len by (intro spec_ops_take) simp_all
  have nums: "\<forall>operation \<in> set ops. uint (sem_num operation) < sint (sh_count ?s)"
  proof
    fix operation assume "operation \<in> set ops"
    then have "unat (sem_num operation) < ?k" using assms(4) len by simp
    then have "int (unat (sem_num operation)) < sint (sh_count ?s)" by linarith
    then show "uint (sem_num operation) < sint (sh_count ?s)" by simp
  qed
  have "spec_ops (map uint (sh_value ?s)) ops \<noteq> Spec_Range" using assms(5) split by auto
  note r = round_matches_spec [OF assms(3) nums _ this]
  have fits: "sint (sh_count ?s) \<le> int (length (sh_value ?s))" using f by simp
  show ?thesis
  proof (cases "spec_ops (map uint (sh_value ?s)) ops")
    case (Spec_Done ws)
    then have "check_ops (sh_count ?s) (sh_value ?s) ops = Ops_Ready" "map uint (apply_ops (sh_value ?s) ops) = ws"
      using r [OF fits] by simp_all
    moreover from this(2) have "take ?k ws = map uint (take ?k (apply_ops (sh_value ?s) ops))" by (auto simp: take_map)
    ultimately show ?thesis
      using Spec_Done split i sysv_values_update [OF wf i, of "apply_ops (sh_value ?s) ops"]
      by (simp add: semop_round_def Let_def)
  next
    case Spec_Range
    then show ?thesis using assms(5) split by simp
  next
    case (Spec_Blocked op)
    then show ?thesis using r [OF fits] split i by (simp add: semop_round_def Let_def)
  qed
qed


text \<open>A table in which one set of two semaphores was created under key 77 and its first value set to 1.\<close>

definition demo_sysv_set :: shim_sem_set where
  "demo_sysv_set = \<lparr>sh_used = True, sh_key = 77, sh_count = 2, sh_value = 1 # replicate 31 0\<rparr>"

definition demo_sysv :: "shim_sem_set list" where
  "demo_sysv = demo_sysv_set # replicate 31 cleared_sem_set"

lemma demo_sysv_reachable: "sysv_step\<^sup>*\<^sup>* initial_sets demo_sysv"
proof -
  let ?s = "\<lparr>sh_used = True, sh_key = 77, sh_count = 2, sh_value = replicate 32 0\<rparr> # replicate 31 cleared_sem_set"
  have r: "replicate 32 x = x # replicate 31 x" for x by (simp add: numeral_eq_Suc)
  have i: "initial_sets = cleared_sem_set # replicate 31 cleared_sem_set" by (simp add: initial_sets_def r)
  have "fst (scan_sets (cleared_sem_set # replicate 31 cleared_sem_set) 0 77 None) = None"
    unfolding scan_sets_found by (simp add: cleared_sem_set_def first_index_None_iff)
  moreover have "snd (scan_sets (cleared_sem_set # replicate 31 cleared_sem_set) 0 77 None) = Some 0"
    by (subst scan_sets_free) (simp_all add: cleared_sem_set_def first_index_None_iff)
  ultimately have "scan_sets initial_sets 0 77 None = (None, Some 0)" by (simp add: i prod_eq_iff)
  then have "semget initial_sets 77 2 0x380 = (id_of_slot 0, None, ?s, False)"
    by (simp add: semget_def i)
  then have 1: "sysv_step initial_sets ?s" by (rule step_semget)
  have "semctl 5 ?s 0x534d00 0 SETVAL 1 = (0, None, demo_sysv, True)"
    by (simp add: semctl_def from_id_def demo_sysv_def demo_sysv_set_def r)
  then have 2: "sysv_step ?s demo_sysv" by (rule step_semctl)
  from 1 2 show ?thesis by (meson converse_rtranclp_into_rtranclp rtranclp.rtrancl_refl)
qed

lemma demo_sysv_values: "sysv_values demo_sysv 0x534d00 = Some [1, 0]"
  by (simp add: sysv_values_def from_id_def demo_sysv_def demo_sysv_set_def take_Cons')

abbreviation sem_change :: "u16 \<Rightarrow> s16 \<Rightarrow> u16 \<Rightarrow> tgc_sem_op" where
  "sem_change n d flg \<equiv> \<lparr>sem_num = n, sem_op = d, sem_flg = flg\<rparr>"

theorem sysv_semop_matches_spec_witness:
  "(\<exists>sets'. semop_round demo_sysv 0x534d00 [sem_change 0 (- 1) 0, sem_change 1 5 0] = Sysv_Return (0, None, sets', True) \<and>
      sysv_values sets' 0x534d00 = Some [0, 5]) \<and>
   semop_round demo_sysv 0x534d00 [sem_change 0 3 0, sem_change 1 (- 1) 2048] = Sysv_Return (- 1, Some EAGAIN, demo_sysv, False)"
  using sysv_semop_matches_spec [OF demo_sysv_reachable demo_sysv_values, of "[sem_change 0 (- 1) 0, sem_change 1 5 0]"]
    sysv_semop_matches_spec [OF demo_sysv_reachable demo_sysv_values, of "[sem_change 0 3 0, sem_change 1 (- 1) 2048]"]
  by (simp add: Let_def) blast

text \<open>
  With two operations on the same semaphore the test and the change disagree: each operation is tested against the value before the call, so lowering a value of 1 twice is let
  through and leaves 65535, where System V semantics make the call wait. Nothing keeps a value from growing past 32767 either.
\<close>

theorem sysv_semop_underflows:
  "spec_ops [1, 0] [sem_change 0 (- 1) 0, sem_change 0 (- 1) 0] = Spec_Blocked (sem_change 0 (- 1) 0) \<and>
   (\<exists>sets'. semop_round demo_sysv 0x534d00 [sem_change 0 (- 1) 0, sem_change 0 (- 1) 0] = Sysv_Return (0, None, sets', True) \<and>
     sysv_values sets' 0x534d00 = Some [65535, 0])"
proof -
  have "semop_round demo_sysv 0x534d00 [sem_change 0 (- 1) 0, sem_change 0 (- 1) 0] =
      Sysv_Return (0, None, demo_sysv_set\<lparr>sh_value := 65535 # replicate 31 0\<rparr> # replicate 31 cleared_sem_set, True)"
    by (simp add: semop_round_def from_id_def demo_sysv_def demo_sysv_set_def op_blocks_def)
  moreover have "sysv_values (demo_sysv_set\<lparr>sh_value := 65535 # replicate 31 0\<rparr> # replicate 31 cleared_sem_set) 0x534d00 = Some [65535, 0]"
    by (simp add: sysv_values_def from_id_def demo_sysv_set_def take_Cons')
  ultimately show ?thesis by (simp add: Let_def)
qed

text \<open>
  A slot is given out again under the same identifier: a caller that sleeps on a set which is removed, and whose slot the next \<^verbatim>\<open>semget\<close> takes, goes on with the
  operations on the new set when it wakes up.
\<close>

theorem sysv_identifier_reused:
  assumes "sysv_wf sets" "from_id sets semid = Some i" "first_index (\<lambda>s. \<not> sh_used s) sets = None"
    and "semctl pid sets semid 0 IPC_RMID 0 = (0, None, removed, True)" and "key = TGC_IPC_PRIVATE"
    and "0 < sint nsems" "sint nsems \<le> 32"
  shows "\<exists>sets'. semget removed key nsems flags = (semid, None, sets', False)"
proof -
  have i: "i < length sets" "sint semid = SHIM_SEM_ID_BASE + int i" by (rule from_id_Some(1) [OF assms(1,2)], rule from_id_slot [OF assms(2)])
  have removed: "removed = sets[i := cleared_sem_set]" using assms(4) unfolding semctl_def assms(2) option.case Let_def if_P [OF refl] prod.inject by (elim conjE) (rule sym)
  have free: "first_index (\<lambda>s. \<not> sh_used s) removed = Some i"
    unfolding first_index_Some_iff removed using i(1) assms(3)
    by (auto simp: cleared_sem_set_def first_index_None_iff nth_list_update)
  have none: "first_index (has_key key) removed = None" using assms(5) by (simp add: first_index_None_iff)
  have "scan_sets removed 0 key None = (None, Some i)"
    using scan_sets_found [of removed 0 key None] scan_sets_free [OF none, of 0 None] none free by (simp add: prod_eq_iff)
  moreover have "id_of_slot i = semid"
    unfolding id_of_slot_def i(2) [symmetric] by simp
  ultimately show ?thesis using assms(5-7) by (simp add: semget_def)
qed

end
