(* ===== verification/Tgc_Steam_Shims.thy ===== *)
theory Tgc_Steam_Shims
  imports Tgc_Path_Shims Tgc_Text
begin

text \<open>
  The other shims of the Steam client under \<^verbatim>\<open>src/\<close>: certificate bundles (\<^verbatim>\<open>steam-cert-*.c\<close>, \<^verbatim>\<open>steam-open-shim.c\<close>), the link of the running program
  (\<^verbatim>\<open>steam-proc-self-shim.c\<close>), helper commands (\<^verbatim>\<open>steam-helper-shim.c\<close>), modules (\<^verbatim>\<open>steam-module-shim.c\<close>, \<^verbatim>\<open>steam-dlmopen-shim-v2.c\<close>) and Unix sockets
  (\<^verbatim>\<open>steam-unix-socket-shim.c\<close>, \<^verbatim>\<open>steam-x11-main-shim.c\<close>). The real functions are taken to be found, as the sources do. A pointer to a string that may be NULL
  is an \<open>option\<close>; environment variables are arguments.
\<close>

text \<open>A failure with the error number it sets, if any, or a call of the real function of that name with its strings and its other arguments as words.\<close>

datatype next_action = Next_Fail "s32 option" | Next_Call string "string option list" "u64 list"

section \<open>Certificate bundles\<close>

text \<open>The places of the bundle; \<open>bundle\<close> is the variable \<^verbatim>\<open>SSL_CERT_FILE\<close>. The function appears in three files.\<close>

definition is_bundle_path :: "string \<Rightarrow> bool" where
  "is_bundle_path p \<longleftrightarrow>
     p = ''/etc/ssl/certs/ca-certificates.crt'' \<or> p = ''/etc/pki/tls/cert.pem'' \<or> p = ''/etc/ssl/ca-bundle.pem''"

definition cert_path :: "string option \<Rightarrow> string option \<Rightarrow> string option" where
  "cert_path bundle path =
     (case path of
        None \<Rightarrow> None
      | Some p \<Rightarrow>
          if \<not> is_bundle_path p then path
          else if bundle \<noteq> None \<and> bundle \<noteq> Some [] then bundle else path)"

definition open_cert_path :: "string option \<Rightarrow> string option \<Rightarrow> string option" where
  "open_cert_path = cert_path"

definition stat_cert_path :: "string option \<Rightarrow> string option \<Rightarrow> string option" where
  "stat_cert_path = cert_path"

definition cert_access :: "string option \<Rightarrow> string option \<Rightarrow> u32 \<Rightarrow> next_action" where
  "cert_access bundle path mode = Next_Call ''access'' [cert_path bundle path] [ucast mode]"

definition cert_fopen :: "string option \<Rightarrow> string option \<Rightarrow> string option \<Rightarrow> next_action" where
  "cert_fopen bundle path mode = Next_Call ''fopen'' [cert_path bundle path, mode] []"

definition cert_fopen64 :: "string option \<Rightarrow> string option \<Rightarrow> string option \<Rightarrow> next_action" where
  "cert_fopen64 bundle path mode =
     (let path = (case path of
                    None \<Rightarrow> None
                  | Some p \<Rightarrow> if is_bundle_path p \<and> bundle \<noteq> None \<and> bundle \<noteq> Some [] then bundle else path)
      in Next_Call ''fopen64'' [path, mode] [])"

text \<open>The variadic \<open>mode\<close> is read when the flags seem to ask for it.\<close>

definition cert_open :: "open_flags \<Rightarrow> string option \<Rightarrow> string option \<Rightarrow> u32 \<Rightarrow> u32 \<Rightarrow> next_action" where
  "cert_open fl bundle path flags mode =
     Next_Call ''open'' [open_cert_path bundle path] (ucast flags # (if takes_mode fl flags then [ucast mode] else []))"

definition cert_open64 :: "open_flags \<Rightarrow> string option \<Rightarrow> string option \<Rightarrow> u32 \<Rightarrow> u32 \<Rightarrow> next_action" where
  "cert_open64 fl bundle path flags mode =
     Next_Call ''open64'' [open_cert_path bundle path] (ucast flags # (if takes_mode fl flags then [ucast mode] else []))"

definition cert_lxstat :: "string option \<Rightarrow> u32 \<Rightarrow> string option \<Rightarrow> u64 \<Rightarrow> next_action" where
  "cert_lxstat bundle ver path buf = Next_Call ''__lxstat'' [stat_cert_path bundle path] [ucast ver, buf]"

definition cert_xstat :: "string option \<Rightarrow> u32 \<Rightarrow> string option \<Rightarrow> u64 \<Rightarrow> next_action" where
  "cert_xstat bundle ver path buf = Next_Call ''__xstat'' [stat_cert_path bundle path] [ucast ver, buf]"

definition cert_lxstat64 :: "string option \<Rightarrow> u32 \<Rightarrow> string option \<Rightarrow> u64 \<Rightarrow> next_action" where
  "cert_lxstat64 bundle ver path buf = Next_Call ''__lxstat64'' [stat_cert_path bundle path] [ucast ver, buf]"

definition cert_xstat64 :: "string option \<Rightarrow> u32 \<Rightarrow> string option \<Rightarrow> u64 \<Rightarrow> next_action" where
  "cert_xstat64 bundle ver path buf = Next_Call ''__xstat64'' [stat_cert_path bundle path] [ucast ver, buf]"

definition cert_realpath :: "string option \<Rightarrow> string option \<Rightarrow> u64 \<Rightarrow> next_action" where
  "cert_realpath bundle path resolved = Next_Call ''realpath'' [stat_cert_path bundle path] [resolved]"

section \<open>Opening files\<close>

text \<open>\<^verbatim>\<open>steam-open-shim.c\<close> does both: bundles and \<^verbatim>\<open>/tmp\<close>; \<open>Inl\<close> is a NULL result with its error number.\<close>

definition mapped_path :: "string option \<Rightarrow> string option \<Rightarrow> string option \<Rightarrow> nat \<Rightarrow> s32 + string option" where
  "mapped_path bundle base path buf_size =
     (case path of
        None \<Rightarrow> Inr None
      | Some p \<Rightarrow>
          if is_bundle_path p then Inr (if bundle \<noteq> None \<and> bundle \<noteq> Some [] then bundle else Some p)
          else if take 4 p \<noteq> ''/tmp'' \<or> drop 4 p \<noteq> [] \<and> hd (drop 4 p) \<noteq> CHR ''/'' then Inr (Some p)
          else
            case base of
              None \<Rightarrow> Inr (Some p)
            | Some b \<Rightarrow>
                if b = [] then Inr (Some p)
                else if length b + length (drop 4 p) + 1 > buf_size then Inl ENAMETOOLONG
                else Inr (Some (b @ drop 4 p)))"

definition next_open :: "string \<Rightarrow> open_flags \<Rightarrow> s32 + string option \<Rightarrow> u32 \<Rightarrow> u32 \<Rightarrow> next_action" where
  "next_open name fl mapped flags mode =
     (case mapped of
        Inl errno \<Rightarrow> Next_Fail (Some errno)
      | Inr None \<Rightarrow> Next_Fail None
      | Inr (Some p) \<Rightarrow> Next_Call name [Some p] (ucast flags # (if takes_mode fl flags then [ucast mode] else [])))"

definition both_open :: "open_flags \<Rightarrow> string option \<Rightarrow> string option \<Rightarrow> string option \<Rightarrow> u32 \<Rightarrow> u32 \<Rightarrow> next_action" where
  "both_open fl bundle base path flags mode = next_open ''open'' fl (mapped_path bundle base path 4096) flags mode"

definition both_open64 :: "open_flags \<Rightarrow> string option \<Rightarrow> string option \<Rightarrow> string option \<Rightarrow> u32 \<Rightarrow> u32 \<Rightarrow> next_action" where
  "both_open64 fl bundle base path flags mode = next_open ''open64'' fl (mapped_path bundle base path 4096) flags mode"

section \<open>The link of the running program\<close>

text \<open>\<open>target\<close> is the variable \<^verbatim>\<open>TGCOMPAT_PROC_SELF_EXE\<close>.\<close>

definition virtual_target :: "string option \<Rightarrow> string option \<Rightarrow> string option" where
  "virtual_target target path =
     (if path \<noteq> Some ''/proc/self/exe'' then None
      else case target of None \<Rightarrow> None | Some t \<Rightarrow> if take 1 t = ''/'' then Some t else None)"

text \<open>What reading a link ends in: the bytes put into the buffer, whose number is the result, a failure, or a call of the real function.\<close>

datatype link_action = Link_Bytes string | Link_Fail s32 | Link_Next string "s32 option" "string option" nat

definition copy_target :: "string \<Rightarrow> nat \<Rightarrow> link_action" where
  "copy_target target buf_size = (if buf_size = 0 then Link_Fail EINVAL else Link_Bytes (take (min (length target) buf_size) target))"

definition self_readlink :: "string option \<Rightarrow> string option \<Rightarrow> nat \<Rightarrow> link_action" where
  "self_readlink target path buf_size =
     (case virtual_target target path of
        Some t \<Rightarrow> copy_target t buf_size
      | None \<Rightarrow> Link_Next ''readlink'' None path buf_size)"

definition self_readlinkat :: "string option \<Rightarrow> s32 \<Rightarrow> string option \<Rightarrow> nat \<Rightarrow> link_action" where
  "self_readlinkat target fd path buf_size =
     (case virtual_target target path of
        Some t \<Rightarrow> copy_target t buf_size
      | None \<Rightarrow> Link_Next ''readlinkat'' (Some fd) path buf_size)"

section \<open>Helper commands\<close>

text \<open>\<^verbatim>\<open>strstr\<close>: what precedes the first occurrence and what follows it.\<close>

fun split_first :: "string \<Rightarrow> string \<Rightarrow> (string \<times> string) option" where
  "split_first [] needle = (if needle = [] then Some ([], []) else None)"
| "split_first (c # cs) needle =
     (if take (length needle) (c # cs) = needle then Some ([], drop (length needle) (c # cs))
      else map_option (\<lambda>(before, after). (c # before, after)) (split_first cs needle))"

text \<open>\<open>mem\<close> says whether the allocation succeeds; \<open>None\<close> is NULL.\<close>

definition replace_once :: "bool \<Rightarrow> string option \<Rightarrow> string \<Rightarrow> string \<Rightarrow> string option" where
  "replace_once mem input needle replacement =
     (case input of
        None \<Rightarrow> None
      | Some s \<Rightarrow>
          if \<not> mem then None
          else case split_first s needle of
                 None \<Rightarrow> Some s
               | Some (before, after) \<Rightarrow> Some (before @ replacement @ after))"

text \<open>\<open>mem1\<close>, \<open>mem2\<close>, \<open>mem3\<close>: the three allocations; \<open>lsof\<close> is the variable \<^verbatim>\<open>STEAM_ARM64_LSOF\<close>.\<close>

definition map_command :: "bool \<Rightarrow> bool \<Rightarrow> bool \<Rightarrow> string option \<Rightarrow> string option \<Rightarrow> string option" where
  "map_command mem1 mem2 mem3 lsof command =
     (case replace_once mem1 command ''/steamsysinfo'' ''/steamsysinfo-patched'' of
        None \<Rightarrow> None
      | Some first \<Rightarrow>
          case replace_once mem2 (Some first) ''/steamwebhelper.sh'' ''/steamwebhelper-patched.sh'' of
            None \<Rightarrow> None
          | Some second \<Rightarrow>
              case lsof of
                None \<Rightarrow> Some second
              | Some helper \<Rightarrow>
                  if take 1 helper \<noteq> ''/'' then Some second else replace_once mem3 (Some second) ''/bin/lsof'' helper)"

definition mapped_or :: "string option \<Rightarrow> string option \<Rightarrow> string option" where
  "mapped_or mapped command = (case mapped of None \<Rightarrow> command | Some m \<Rightarrow> Some m)"

definition helper_system :: "bool \<Rightarrow> bool \<Rightarrow> bool \<Rightarrow> string option \<Rightarrow> string option \<Rightarrow> next_action" where
  "helper_system mem1 mem2 mem3 lsof command =
     (if command = None then Next_Call ''system'' [None] []
      else Next_Call ''system'' [mapped_or (map_command mem1 mem2 mem3 lsof command) command] [])"

definition helper_popen :: "bool \<Rightarrow> bool \<Rightarrow> bool \<Rightarrow> string option \<Rightarrow> string option \<Rightarrow> string option \<Rightarrow> next_action" where
  "helper_popen mem1 mem2 mem3 lsof command type =
     Next_Call ''popen'' [mapped_or (map_command mem1 mem2 mem3 lsof command) command, type] []"

definition helper_popen64 :: "bool \<Rightarrow> bool \<Rightarrow> bool \<Rightarrow> string option \<Rightarrow> string option \<Rightarrow> string option \<Rightarrow> next_action" where
  "helper_popen64 mem1 mem2 mem3 lsof command type =
     Next_Call ''popen64'' [mapped_or (map_command mem1 mem2 mem3 lsof command) command, type] []"

section \<open>Modules\<close>

text \<open>The part of a file name after its last slash.\<close>

definition base_name :: "string \<Rightarrow> string" where
  "base_name filename = rev (takeWhile (\<lambda>c. c \<noteq> CHR ''/'') (rev filename))"

text \<open>\<open>env\<close> is the environment.\<close>

definition replaced_module :: "(string \<Rightarrow> string option) \<Rightarrow> (string \<times> string) list \<Rightarrow> string option \<Rightarrow> string option" where
  "replaced_module env table filename =
     (case Option.bind filename (\<lambda>f. Option.bind (map_of table (base_name f)) env) of
        None \<Rightarrow> filename
      | Some replacement \<Rightarrow> if replacement = [] then filename else Some replacement)"

definition module_dlopen :: "(string \<Rightarrow> string option) \<Rightarrow> string option \<Rightarrow> u32 \<Rightarrow> next_action" where
  "module_dlopen env filename flags =
     Next_Call ''dlopen''
       [replaced_module env [(''steamclient.so'', ''STEAMCLIENT_PATCHED''), (''chromehtml.so'', ''CHROMEHTML_PATCHED'')] filename] [ucast flags]"

definition module_dlmopen :: "(string \<Rightarrow> string option) \<Rightarrow> s64 \<Rightarrow> string option \<Rightarrow> u32 \<Rightarrow> next_action" where
  "module_dlmopen env nsid filename flags =
     Next_Call ''dlmopen''
       [replaced_module env [(''steamui.so'', ''STEAMUI_PATCHED''), (''steamclient.so'', ''STEAMCLIENT_PATCHED''), (''chromehtml.so'', ''CHROMEHTML_PATCHED'')]
         filename] [nsid, ucast flags]"

section \<open>Unix sockets\<close>

definition AF_UNIX :: u16 where [simp]: "AF_UNIX = 1"
definition ECONNREFUSED :: s32 where [simp]: "ECONNREFUSED = 111"
definition SUN_PATH_OFFSET :: nat where [simp]: "SUN_PATH_OFFSET = 2"
definition SUN_PATH_BYTES :: nat where [simp]: "SUN_PATH_BYTES = 108"

text \<open>An address in memory; \<open>ad_path\<close> are the bytes from \<^verbatim>\<open>sun_path\<close> on, also those behind the address.\<close>

record unix_address =
  ad_family :: u16
  ad_path :: string

text \<open>\<open>cmdline\<close>: what the first read of \<^verbatim>\<open>/proc/self/cmdline\<close> delivers, \<open>None\<close> when it cannot be opened or read.\<close>

definition is_update_ui_child :: "string option \<Rightarrow> bool" where
  "is_update_ui_child cmdline = (case cmdline of None \<Rightarrow> False | Some buffer \<Rightarrow> occurs_in ''-child-update-ui'' (take 4096 buffer))"

definition x11_prefix :: string where "x11_prefix = ''/tmp/.X11-unix/''"

datatype rewritten = Unchanged | Mapped string nat | Refused s32

text \<open>The abstract names of the X server, in the place programs expect or the configured one.\<close>

definition abstract_x11 :: "string option \<Rightarrow> string \<Rightarrow> nat \<Rightarrow> bool" where
  "abstract_x11 tmp_root name name_length \<longleftrightarrow>
     name_length \<ge> length x11_prefix \<and> take (length x11_prefix) name = x11_prefix \<or>
     (case tmp_root of
        None \<Rightarrow> False
      | Some root \<Rightarrow>
          length root > 0 \<and> name_length \<ge> length root + length ''/.X11-unix/'' \<and> take (length root) name = root \<and>
          take (length ''/.X11-unix/'') (drop (length root) name) = ''/.X11-unix/'')"

definition rewrite_address :: "string option \<Rightarrow> string option \<Rightarrow> unix_address option \<Rightarrow> nat \<Rightarrow> rewritten" where
  "rewrite_address cmdline tmp_root address len =
     (case address of
        None \<Rightarrow> Unchanged
      | Some a \<Rightarrow>
          if ad_family a \<noteq> AF_UNIX \<or> len \<le> SUN_PATH_OFFSET then Unchanged
          else if take 1 (ad_path a) = [CHR 0x00] then
            if is_update_ui_child cmdline \<and> abstract_x11 tmp_root (drop 1 (ad_path a)) (len - SUN_PATH_OFFSET - 1) then Refused ECONNREFUSED
            else Unchanged
          else
            let path = c_str (ad_path a) in
            if path \<noteq> ''/tmp'' \<and> take 5 path \<noteq> ''/tmp/'' then Unchanged
            else if take (length x11_prefix) path = x11_prefix \<and> is_update_ui_child cmdline then Refused ECONNREFUSED
            else
              case tmp_root of
                None \<Rightarrow> Unchanged
              | Some root \<Rightarrow>
                  if take 1 root \<noteq> ''/'' then Unchanged
                  else if length root + length (drop 4 path) \<ge> SUN_PATH_BYTES then Refused ENAMETOOLONG
                  else Mapped (root @ drop 4 path) (SUN_PATH_OFFSET + length root + length (drop 4 path) + 1))"

text \<open>The call made: the address as given, or a new one holding a path.\<close>

datatype socket_action = Socket_Fail s32 | Socket_Given string s32 "unix_address option" nat | Socket_Path string s32 string nat

definition socket_call :: "string \<Rightarrow> string option \<Rightarrow> string option \<Rightarrow> s32 \<Rightarrow> unix_address option \<Rightarrow> nat \<Rightarrow> socket_action" where
  "socket_call name cmdline tmp_root fd address len =
     (case rewrite_address cmdline tmp_root address len of
        Refused errno \<Rightarrow> Socket_Fail errno
      | Mapped path mapped_length \<Rightarrow> Socket_Path name fd path mapped_length
      | Unchanged \<Rightarrow> Socket_Given name fd address len)"

definition unix_connect :: "string option \<Rightarrow> string option \<Rightarrow> s32 \<Rightarrow> unix_address option \<Rightarrow> nat \<Rightarrow> socket_action" where
  "unix_connect = socket_call ''connect''"

definition unix_bind :: "string option \<Rightarrow> string option \<Rightarrow> s32 \<Rightarrow> unix_address option \<Rightarrow> nat \<Rightarrow> socket_action" where
  "unix_bind = socket_call ''bind''"

text \<open>The earlier shim, which only knows the sockets of the X server.\<close>

definition x11_connect :: "string option \<Rightarrow> string option \<Rightarrow> s32 \<Rightarrow> unix_address option \<Rightarrow> nat \<Rightarrow> socket_action" where
  "x11_connect cmdline tmp_root fd address len =
     (case address of
        None \<Rightarrow> Socket_Given ''connect'' fd address len
      | Some a \<Rightarrow>
          if ad_family a \<noteq> AF_UNIX \<or> len \<le> SUN_PATH_OFFSET then Socket_Given ''connect'' fd address len
          else
            let path = c_str (ad_path a) in
            if take 1 (ad_path a) = [CHR 0x00] \<or> take (length x11_prefix) path \<noteq> x11_prefix then Socket_Given ''connect'' fd address len
            else if is_update_ui_child cmdline then Socket_Fail ECONNREFUSED
            else
              case tmp_root of
                None \<Rightarrow> Socket_Given ''connect'' fd address len
              | Some root \<Rightarrow>
                  if take 1 root \<noteq> ''/'' then Socket_Given ''connect'' fd address len
                  else if length root + length (drop 4 path) \<ge> SUN_PATH_BYTES then Socket_Fail ENAMETOOLONG
                  else Socket_Path ''connect'' fd (root @ drop 4 path) (SUN_PATH_OFFSET + length root + length (drop 4 path) + 1))"


section \<open>Properties\<close>

text \<open>
  Opening a file through \<^verbatim>\<open>steam-open-shim.c\<close> is opening a bundle through the certificate shim, and any other file through the path shim.
\<close>

theorem open_shim_is_both:
  "mapped_path bundle base path n =
     (if \<exists>p. path = Some p \<and> is_bundle_path p then Inr (cert_path bundle path) else redirect_path base path n)"
  by (simp add: mapped_path_def cert_path_def redirect_path_def split: option.split)

text \<open>Reading the link of the program gives a prefix of the configured path, as long as the buffer allows, and no terminator.\<close>

theorem self_link_prefix:
  assumes "self_readlink target (Some ''/proc/self/exe'') n = Link_Bytes bytes"
  shows "\<exists>t rest. target = Some t \<and> t = bytes @ rest \<and> length bytes \<le> n \<and> (rest \<noteq> [] \<longrightarrow> length bytes = n)"
proof -
  obtain t where t: "target = Some t" "bytes = take (min (length t) n) t"
    using assms by (auto simp: self_readlink_def virtual_target_def copy_target_def split: option.splits if_splits)
  then have "t = bytes @ drop n t" by (simp add: min_def)
  with t show ?thesis by (intro exI [of _ t] exI [of _ "drop n t"]) auto
qed

lemma split_first_here: "take (length needle) s = needle \<Longrightarrow> split_first s needle = Some ([], drop (length needle) s)"
  by (cases s) auto

lemma split_first_Some:
  "split_first s needle = Some (before, after) \<longleftrightarrow>
     s = before @ needle @ after \<and> (\<forall>k < length before. take (length needle) (drop k s) \<noteq> needle)"
proof (induction s needle arbitrary: before rule: split_first.induct)
  case (2 c cs needle)
  show ?case
  proof (cases "take (length needle) (c # cs) = needle")
    case True
    then have split: "c # cs = needle @ drop (length needle) (c # cs)" by (metis append_take_drop_id)
    show ?thesis
    proof
      assume "split_first (c # cs) needle = Some (before, after)"
      then show "c # cs = before @ needle @ after \<and> (\<forall>k < length before. take (length needle) (drop k (c # cs)) \<noteq> needle)"
        using True split by auto
    next
      assume h: "c # cs = before @ needle @ after \<and> (\<forall>k < length before. take (length needle) (drop k (c # cs)) \<noteq> needle)"
      then have "before = []" using True by (cases before) auto
      then show "split_first (c # cs) needle = Some (before, after)" using h split_first_here [OF True] by simp
    qed
  next
    case False
    have shift: "(\<forall>k < length (c # b). take (length needle) (drop k (c # cs)) \<noteq> needle) \<longleftrightarrow>
        (\<forall>k < length b. take (length needle) (drop k cs) \<noteq> needle)" for b
      using False by (auto simp: less_Suc_eq_0_disj)
    show ?thesis
    proof (cases before)
      case Nil
      then show ?thesis using False by (auto simp: append_eq_conv_conj)
    next
      case (Cons d b)
      then show ?thesis using False 2 [of b] shift [of b] by auto
    qed
  qed
qed auto

text \<open>A helper command is changed at the first occurrence of the helper and nowhere else.\<close>

theorem first_occurrence_replaced:
  "replace_once True (Some s) needle replacement =
     (if \<exists>before after. s = before @ needle @ after
      then Some (case split_first s needle of Some (before, after) \<Rightarrow> before @ replacement @ after | None \<Rightarrow> s) else Some s)"
proof -
  have "split_first s needle \<noteq> None" if "s = before @ needle @ after" for before after
    using that
  proof (induction before arbitrary: s)
    case Nil
    then show ?case using split_first_here [of needle s] by simp
  next
    case (Cons c before)
    then show ?case using Cons.IH [OF refl] by auto
  qed
  then show ?thesis using split_first_Some [of s needle] by (auto simp: replace_once_def split: option.split)
qed

text \<open>
  Which addresses are meant: a path at or below \<^verbatim>\<open>/tmp\<close>, with what follows \<^verbatim>\<open>/tmp\<close>; and the sockets of the X server, by their path or by the abstract name, in
  \<^verbatim>\<open>/tmp\<close> or in the configured directory, that lies within the address.
\<close>

definition unix_socket :: "unix_address option \<Rightarrow> nat \<Rightarrow> unix_address \<Rightarrow> bool" where
  "unix_socket address len a \<longleftrightarrow> address = Some a \<and> ad_family a = AF_UNIX \<and> SUN_PATH_OFFSET < len"

definition names_tmp :: "unix_address \<Rightarrow> string \<Rightarrow> bool" where
  "names_tmp a rest \<longleftrightarrow> c_str (ad_path a) = ''/tmp'' @ rest \<and> (rest = [] \<or> hd rest = CHR ''/'')"

definition x_server_socket :: "string option \<Rightarrow> unix_address \<Rightarrow> nat \<Rightarrow> bool" where
  "x_server_socket tmp_root a len \<longleftrightarrow>
     (\<exists>display. names_tmp a (''/.X11-unix/'' @ display)) \<or>
     (\<exists>name dir display. ad_path a = CHR 0x00 # name \<and> (dir = ''/tmp'' \<or> tmp_root = Some dir \<and> dir \<noteq> []) \<and>
       take (len - SUN_PATH_OFFSET - 1) name = dir @ ''/.X11-unix/'' @ display)"

lemma take_prefix_iff: "take (length p) q = p \<longleftrightarrow> (\<exists>s. q = p @ s)"
  by (metis append_eq_conv_conj append_take_drop_id)

lemma prefix_within: "k \<le> n \<and> take k name = p \<and> length p = k \<longleftrightarrow> length p = k \<and> (\<exists>s. take n name = p @ s)"
proof
  assume h: "k \<le> n \<and> take k name = p \<and> length p = k"
  then have "take n name = p @ take (n - k) (drop k name)" by (metis le_add_diff_inverse take_add)
  then show "length p = k \<and> (\<exists>s. take n name = p @ s)" using h by blast
next
  assume "length p = k \<and> (\<exists>s. take n name = p @ s)"
  then obtain s where h: "length p = k" "take n name = p @ s" by blast
  have "length (take n name) = k + length s" using h by simp
  then have "k \<le> n" by (simp add: min_def split: if_splits)
  moreover from this have "take k name = take k (take n name)" by (simp add: min_def)
  ultimately show "k \<le> n \<and> take k name = p \<and> length p = k" using h by simp
qed

lemma take_two: "take (length p) q = p \<and> take (length r) (drop (length p) q) = r \<longleftrightarrow> take (length (p @ r)) q = p @ r"
proof
  assume "take (length (p @ r)) q = p @ r"
  then obtain s where "q = (p @ r) @ s" using take_prefix_iff by blast
  then show "take (length p) q = p \<and> take (length r) (drop (length p) q) = r" by simp
qed (simp add: take_add)

lemma abstract_x11_iff:
  "abstract_x11 tmp_root name n \<longleftrightarrow>
     (\<exists>dir display. (dir = ''/tmp'' \<or> tmp_root = Some dir \<and> dir \<noteq> []) \<and> take n name = dir @ ''/.X11-unix/'' @ display)"
proof -
  have tmp: "n \<ge> length x11_prefix \<and> take (length x11_prefix) name = x11_prefix \<longleftrightarrow> (\<exists>display. take n name = ''/tmp'' @ ''/.X11-unix/'' @ display)"
    using prefix_within [of "length x11_prefix" n name x11_prefix] by (simp add: x11_prefix_def)
  have own: "n \<ge> length root + length ''/.X11-unix/'' \<and> take (length root) name = root \<and> take (length ''/.X11-unix/'') (drop (length root) name) = ''/.X11-unix/'' \<longleftrightarrow>
      (\<exists>display. take n name = root @ ''/.X11-unix/'' @ display)" for root
  proof -
    have "take (length root) name = root \<and> take (length ''/.X11-unix/'') (drop (length root) name) = ''/.X11-unix/'' \<longleftrightarrow>
        take (length (root @ ''/.X11-unix/'')) name = root @ ''/.X11-unix/''" by (rule take_two)
    then show ?thesis using prefix_within [of "length (root @ ''/.X11-unix/'')" n name "root @ ''/.X11-unix/''"] by simp
  qed
  show ?thesis unfolding abstract_x11_def tmp using own by (cases tmp_root) auto
qed

lemma names_tmp_iff: "c_str (ad_path a) = ''/tmp'' \<or> take 5 (c_str (ad_path a)) = ''/tmp/'' \<longleftrightarrow> (\<exists>rest. names_tmp a rest)"
proof -
  have "take 5 q = ''/tmp/'' \<longleftrightarrow> (\<exists>r. q = ''/tmp'' @ CHR ''/'' # r)" for q :: string
  proof -
    have five: "length ''/tmp/'' = 5" by simp
    show ?thesis using take_prefix_iff [of "''/tmp/''" q, unfolded five] by simp
  qed
  then show ?thesis unfolding names_tmp_def by (metis append_Nil2 list.exhaust list.sel(1))
qed

lemma names_tmp_facts:
  assumes "names_tmp a rest"
  shows "take 1 (ad_path a) \<noteq> [CHR 0x00]" "drop 4 (c_str (ad_path a)) = rest" "names_tmp a rest' \<longleftrightarrow> rest' = rest"
    "take (length x11_prefix) (c_str (ad_path a)) = x11_prefix \<longleftrightarrow> (\<exists>display. names_tmp a (''/.X11-unix/'' @ display))"
proof -
  have "c_str (ad_path a) \<noteq> []" using assms by (simp add: names_tmp_def)
  then show "take 1 (ad_path a) \<noteq> [CHR 0x00]" by (cases "ad_path a") (auto simp: c_str_def split: if_splits)
  show "drop 4 (c_str (ad_path a)) = rest" "names_tmp a rest' \<longleftrightarrow> rest' = rest" using assms by (auto simp: names_tmp_def)
  show "take (length x11_prefix) (c_str (ad_path a)) = x11_prefix \<longleftrightarrow> (\<exists>display. names_tmp a (''/.X11-unix/'' @ display))"
    unfolding take_prefix_iff by (auto simp: names_tmp_def x11_prefix_def)
qed

text \<open>The result of the rewriting in the two kinds of addresses.\<close>

lemma rewrite_path_address:
  assumes "unix_socket address len a" "names_tmp a rest"
  shows "rewrite_address cmdline tmp_root address len =
    (if is_update_ui_child cmdline \<and> x_server_socket tmp_root a len then Refused ECONNREFUSED
     else case tmp_root of
       None \<Rightarrow> Unchanged
     | Some root \<Rightarrow> if take 1 root \<noteq> ''/'' then Unchanged else if length (root @ rest) \<ge> SUN_PATH_BYTES then Refused ENAMETOOLONG
         else Mapped (root @ rest) (SUN_PATH_OFFSET + length (root @ rest) + 1))"
proof -
  note n = names_tmp_facts [OF assms(2)]
  have x: "x_server_socket tmp_root a len \<longleftrightarrow> take (length x11_prefix) (c_str (ad_path a)) = x11_prefix" using n(1,4) by (auto simp: x_server_socket_def)
  have tmp: "\<not> (c_str (ad_path a) \<noteq> ''/tmp'' \<and> take 5 (c_str (ad_path a)) \<noteq> ''/tmp/'')" using names_tmp_iff [of a] assms(2) by blast
  have a: "address = Some a" "\<not> (ad_family a \<noteq> AF_UNIX \<or> len \<le> SUN_PATH_OFFSET)" using assms(1) by (auto simp: unix_socket_def)
  show ?thesis unfolding rewrite_address_def a(1) option.case Let_def if_not_P [OF a(2)] if_not_P [OF n(1)] if_not_P [OF tmp] x n(2)
    by (auto split: option.split)
qed

lemma rewrite_other_address:
  assumes "\<nexists>rest. names_tmp a rest" "unix_socket address len a"
  shows "rewrite_address cmdline tmp_root address len = (if is_update_ui_child cmdline \<and> x_server_socket tmp_root a len then Refused ECONNREFUSED else Unchanged)"
proof (cases "take 1 (ad_path a) = [CHR 0x00]")
  case True
  then obtain name where name: "ad_path a = CHR 0x00 # name" by (cases "ad_path a") auto
  then have "x_server_socket tmp_root a len \<longleftrightarrow> abstract_x11 tmp_root name (len - SUN_PATH_OFFSET - 1)"
    using assms(1) unfolding x_server_socket_def abstract_x11_iff by auto
  then show ?thesis using assms(2) name by (simp add: rewrite_address_def unix_socket_def)
next
  case False
  then have "\<not> x_server_socket tmp_root a len" using assms(1) by (auto simp: x_server_socket_def)
  then show ?thesis using assms False names_tmp_iff [of a] by (auto simp: rewrite_address_def unix_socket_def)
qed

text \<open>
  C34. What \<^verbatim>\<open>connect\<close> and \<^verbatim>\<open>bind\<close> do with an address, exactly. An address with a path at or below \<^verbatim>\<open>/tmp\<close> is replaced by the configured directory with the rest of the path
  precisely when that directory is an absolute path and the new path fits the address structure with its terminator; the length passed on is the exact length of that address. The call
  fails with \<^verbatim>\<open>ENAMETOOLONG\<close> precisely when it would not fit, and with \<^verbatim>\<open>ECONNREFUSED\<close> precisely for a socket of the X server, by its path or its abstract name, in the process of the
  update window. In every other case the address is passed on as it was given.
\<close>

theorem unix_address_rewriting:
  "(socket_call name cmdline tmp_root fd address len = Socket_Path name fd p n \<longleftrightarrow>
      (\<exists>a root rest. unix_socket address len a \<and> names_tmp a rest \<and> \<not> (is_update_ui_child cmdline \<and> x_server_socket tmp_root a len) \<and>
        tmp_root = Some root \<and> take 1 root = ''/'' \<and> p = root @ rest \<and> length p < SUN_PATH_BYTES \<and> n = SUN_PATH_OFFSET + length p + 1)) \<and>
   (socket_call name cmdline tmp_root fd address len = Socket_Fail e \<longleftrightarrow>
      e = ECONNREFUSED \<and> (\<exists>a. unix_socket address len a \<and> is_update_ui_child cmdline \<and> x_server_socket tmp_root a len) \<or>
      e = ENAMETOOLONG \<and> (\<exists>a root rest. unix_socket address len a \<and> names_tmp a rest \<and> \<not> (is_update_ui_child cmdline \<and> x_server_socket tmp_root a len) \<and>
        tmp_root = Some root \<and> take 1 root = ''/'' \<and> length (root @ rest) \<ge> SUN_PATH_BYTES)) \<and>
   ((\<forall>p n. socket_call name cmdline tmp_root fd address len \<noteq> Socket_Path name fd p n) \<and> (\<forall>e. socket_call name cmdline tmp_root fd address len \<noteq> Socket_Fail e) \<longrightarrow>
      socket_call name cmdline tmp_root fd address len = Socket_Given name fd address len)"
proof (cases "\<exists>a. unix_socket address len a")
  case False
  then have "socket_call name cmdline tmp_root fd address len = Socket_Given name fd address len"
    by (auto simp: socket_call_def rewrite_address_def unix_socket_def split: option.split)
  with False show ?thesis by simp
next
  case True
  then obtain a where a: "unix_socket address len a" by blast
  have only: "unix_socket address len b \<longleftrightarrow> b = a" for b using a by (auto simp: unix_socket_def)
  show ?thesis
  proof (cases "\<exists>rest. names_tmp a rest")
    case True
    then obtain rest where rest: "names_tmp a rest" by blast
    have own: "names_tmp a r \<longleftrightarrow> r = rest" for r using names_tmp_facts(3) [OF rest] .
    show ?thesis unfolding only socket_call_def rewrite_path_address [OF a rest]
      by (auto simp: own not_le split: option.split)
  next
    case False
    then have none: "\<not> names_tmp a rest" for rest by blast
    show ?thesis unfolding only socket_call_def rewrite_other_address [OF False a] using none by simp
  qed
qed

definition demo_address :: unix_address where
  "demo_address = \<lparr>ad_family = AF_UNIX, ad_path = ''/tmp/.X11-unix/X0'' @ replicate 90 CHR 0x00\<rparr>"

text \<open>The X server's socket is found in the configured directory, and refused in the update window.\<close>

theorem unix_address_rewriting_witness:
  "unix_connect None (Some ''/data/tmp'') 3 (Some demo_address) 110 = Socket_Path ''connect'' 3 ''/data/tmp/.X11-unix/X0'' 25 \<and>
   unix_connect (Some ''steam -child-update-ui'') (Some ''/data/tmp'') 3 (Some demo_address) 110 = Socket_Fail ECONNREFUSED"
proof -
  have a: "unix_socket (Some demo_address) 110 demo_address" by (simp add: unix_socket_def demo_address_def)
  have rest: "names_tmp demo_address (''/.X11-unix/'' @ ''X0'')" by (simp add: names_tmp_def demo_address_def c_str_def)
  have "\<not> is_update_ui_child None" by (simp add: is_update_ui_child_def)
  then have mapped: "unix_connect None (Some ''/data/tmp'') 3 (Some demo_address) 110 = Socket_Path ''connect'' 3 ''/data/tmp/.X11-unix/X0'' 25"
    unfolding unix_connect_def unix_address_rewriting [THEN conjunct1] using a rest
    by (intro exI [of _ demo_address] exI [of _ "''/data/tmp''"] exI [of _ "''/.X11-unix/X0''"]) simp
  have "is_update_ui_child (Some ''steam -child-update-ui'')" by (simp add: is_update_ui_child_def)
  moreover have "x_server_socket (Some ''/data/tmp'') demo_address 110" using rest unfolding x_server_socket_def by blast
  ultimately have "unix_connect (Some ''steam -child-update-ui'') (Some ''/data/tmp'') 3 (Some demo_address) 110 = Socket_Fail ECONNREFUSED"
    using unix_address_rewriting [of "''connect''" "Some ''steam -child-update-ui''" "Some ''/data/tmp''" 3 "Some demo_address" 110 _ _ ECONNREFUSED] a
    unfolding unix_connect_def by blast
  with mapped show ?thesis by simp
qed

text \<open>The socket shim does for the X server's path sockets exactly what the earlier shim did, and the earlier one leaves every other address alone.\<close>

theorem x11_shim_subsumed:
  "(if \<exists>a. address = Some a \<and> ad_family a = AF_UNIX \<and> 2 < len \<and> take 15 (c_str (ad_path a)) = ''/tmp/.X11-unix/''
    then x11_connect cmdline tmp_root fd address len = unix_connect cmdline tmp_root fd address len
    else x11_connect cmdline tmp_root fd address len = Socket_Given ''connect'' fd address len)"
proof -
  show ?thesis
  proof (cases "\<exists>a. address = Some a \<and> ad_family a = AF_UNIX \<and> 2 < len \<and> take 15 (c_str (ad_path a)) = ''/tmp/.X11-unix/''")
    case True
    then obtain a where a: "address = Some a" "ad_family a = AF_UNIX" "2 < len" "take 15 (c_str (ad_path a)) = ''/tmp/.X11-unix/''" by blast
    define q where "q = c_str (ad_path a)"
    have "q = ''/tmp/.X11-unix/'' @ drop 15 q" using a(4) unfolding q_def by (metis append_take_drop_id)
    then have "take 5 q = take 5 (''/tmp/.X11-unix/'' @ drop 15 q)" by simp
    then have five: "take 5 q = ''/tmp/''" by simp
    have "q \<noteq> []" using a(4) by (auto simp: q_def)
    then have first: "take 1 (ad_path a) \<noteq> [CHR 0x00]" by (cases "ad_path a") (auto simp: q_def c_str_def split: if_splits)
    have "length x11_prefix = 15" by (simp add: x11_prefix_def)
    then have prefix: "take (length x11_prefix) q = x11_prefix" using a(4) [folded q_def] by (simp only: x11_prefix_def)
    have "x11_connect cmdline tmp_root fd address len = unix_connect cmdline tmp_root fd address len"
      using a(1-3) prefix first five
      by (simp add: x11_connect_def unix_connect_def socket_call_def rewrite_address_def Let_def q_def [symmetric] split: option.split)
    then show ?thesis using True by simp
  next
    case False
    have "length x11_prefix = 15" by (simp add: x11_prefix_def)
    with False show ?thesis by (auto simp: x11_connect_def Let_def x11_prefix_def [symmetric] split: option.split)
  qed
qed

text \<open>
  An address need not be terminated, its length says where it ends; the shim reads on to the next zero byte. What lies behind an address can get into the path that is
  bound or connected to.
\<close>

theorem address_is_overread:
  "rewrite_address None (Some ''/d'') (Some \<lparr>ad_family = AF_UNIX, ad_path = ''/tmp/s'' @ ''ecret'' @ [CHR 0x00]\<rparr>) 8 = Mapped ''/d/secret'' 12 \<and>
   rewrite_address None (Some ''/d'') (Some \<lparr>ad_family = AF_UNIX, ad_path = ''/tmp/s'' @ [CHR 0x00]\<rparr>) 8 = Mapped ''/d/s'' 7"
  by (simp add: rewrite_address_def c_str_def is_update_ui_child_def)

end
