(* ===== verification/Tgc_Bridge_Protocol.thy ===== *)
theory Tgc_Bridge_Protocol
  imports Tgc_Prelude
begin

text \<open>
  The messages of the Steam bridge, \<^verbatim>\<open>src/steam-bridge/protocol.h\<close>. Both ends send and receive C structs as they lie in memory, so the layout of a struct is
  part of the protocol: \<open>sizeof\<close>, \<open>pack_struct\<close> and \<open>unpack_struct\<close> follow the rules of the C compilers for a list of members. The alignment of a 64-bit integer inside a struct
  is 8 on most machines and 4 on 32-bit x86, and is an argument. The machines of the bridge are little endian. Members called \<^verbatim>\<open>reserved\<close> are always zero and only appear in
  the layouts, not in the records.
\<close>

section \<open>Constants\<close>

definition LSTEAM_BRIDGE_MAGIC :: u32 where [simp]: "LSTEAM_BRIDGE_MAGIC = 0x4c535042"
definition LSTEAM_BRIDGE_VERSION :: u16 where [simp]: "LSTEAM_BRIDGE_VERSION = 5"
definition LSTEAM_BRIDGE_DEFAULT_SOCKET :: string where
  "LSTEAM_BRIDGE_DEFAULT_SOCKET = ''/data/data/com.termux/files/usr/tmp/lsteambridge.sock''"

definition LSTEAM_BRIDGE_PING :: u16 where [simp]: "LSTEAM_BRIDGE_PING = 1"
definition LSTEAM_BRIDGE_STATUS :: u16 where [simp]: "LSTEAM_BRIDGE_STATUS = 2"
definition LSTEAM_BRIDGE_STOP :: u16 where [simp]: "LSTEAM_BRIDGE_STOP = 3"
definition LSTEAM_BRIDGE_GET_AUTH_TICKET :: u16 where [simp]: "LSTEAM_BRIDGE_GET_AUTH_TICKET = 4"
definition LSTEAM_BRIDGE_INIT_GAME_CONNECTION :: u16 where [simp]: "LSTEAM_BRIDGE_INIT_GAME_CONNECTION = 5"
definition LSTEAM_BRIDGE_GAME_SERVER_CALL :: u16 where [simp]: "LSTEAM_BRIDGE_GAME_SERVER_CALL = 6"
definition LSTEAM_BRIDGE_GET_CALLBACK :: u16 where [simp]: "LSTEAM_BRIDGE_GET_CALLBACK = 7"
definition LSTEAM_BRIDGE_FREE_CALLBACK :: u16 where [simp]: "LSTEAM_BRIDGE_FREE_CALLBACK = 8"
definition LSTEAM_BRIDGE_GET_API_CALL_RESULT :: u16 where [simp]: "LSTEAM_BRIDGE_GET_API_CALL_RESULT = 9"
definition LSTEAM_BRIDGE_MATCHMAKING_REQUEST :: u16 where [simp]: "LSTEAM_BRIDGE_MATCHMAKING_REQUEST = 10"
definition LSTEAM_BRIDGE_MATCHMAKING_CALL :: u16 where [simp]: "LSTEAM_BRIDGE_MATCHMAKING_CALL = 11"
definition LSTEAM_BRIDGE_USER_CALL :: u16 where [simp]: "LSTEAM_BRIDGE_USER_CALL = 12"
definition LSTEAM_BRIDGE_FRIENDS_CALL :: u16 where [simp]: "LSTEAM_BRIDGE_FRIENDS_CALL = 13"
definition LSTEAM_BRIDGE_UTILS_CALL :: u16 where [simp]: "LSTEAM_BRIDGE_UTILS_CALL = 14"
definition LSTEAM_BRIDGE_REMOTE_STORAGE_CALL :: u16 where [simp]: "LSTEAM_BRIDGE_REMOTE_STORAGE_CALL = 15"
definition LSTEAM_BRIDGE_LOBBY_CALL :: u16 where [simp]: "LSTEAM_BRIDGE_LOBBY_CALL = 16"
definition LSTEAM_BRIDGE_NETWORKING_CALL :: u16 where [simp]: "LSTEAM_BRIDGE_NETWORKING_CALL = 17"
definition LSTEAM_BRIDGE_GAME_SERVER_STATS_CALL :: u16 where [simp]: "LSTEAM_BRIDGE_GAME_SERVER_STATS_CALL = 18"
definition LSTEAM_BRIDGE_USER_STATS_CALL :: u16 where [simp]: "LSTEAM_BRIDGE_USER_STATS_CALL = 19"
definition LSTEAM_BRIDGE_UGC_CALL :: u16 where [simp]: "LSTEAM_BRIDGE_UGC_CALL = 20"
definition LSTEAM_BRIDGE_APPS_CALL :: u16 where [simp]: "LSTEAM_BRIDGE_APPS_CALL = 21"
definition LSTEAM_BRIDGE_HTTP_CALL :: u16 where [simp]: "LSTEAM_BRIDGE_HTTP_CALL = 22"
definition LSTEAM_BRIDGE_INVENTORY_CALL :: u16 where [simp]: "LSTEAM_BRIDGE_INVENTORY_CALL = 23"
definition LSTEAM_BRIDGE_GAME_SEARCH_CALL :: u16 where [simp]: "LSTEAM_BRIDGE_GAME_SEARCH_CALL = 24"
definition LSTEAM_BRIDGE_APP_LIST_CALL :: u16 where [simp]: "LSTEAM_BRIDGE_APP_LIST_CALL = 25"
definition LSTEAM_BRIDGE_VIDEO_CALL :: u16 where [simp]: "LSTEAM_BRIDGE_VIDEO_CALL = 26"
definition LSTEAM_BRIDGE_PARENTAL_CALL :: u16 where [simp]: "LSTEAM_BRIDGE_PARENTAL_CALL = 27"
definition LSTEAM_BRIDGE_NETWORK_MESSAGES_CALL :: u16 where [simp]: "LSTEAM_BRIDGE_NETWORK_MESSAGES_CALL = 28"
definition LSTEAM_BRIDGE_NETWORK_SOCKETS_CALL :: u16 where [simp]: "LSTEAM_BRIDGE_NETWORK_SOCKETS_CALL = 29"
definition LSTEAM_BRIDGE_NETWORK_UTILS_CALL :: u16 where [simp]: "LSTEAM_BRIDGE_NETWORK_UTILS_CALL = 30"
definition LSTEAM_BRIDGE_CLIENT_CALL :: u16 where [simp]: "LSTEAM_BRIDGE_CLIENT_CALL = 31"
definition LSTEAM_BRIDGE_VOICE_CALL :: u16 where [simp]: "LSTEAM_BRIDGE_VOICE_CALL = 32"
definition LSTEAM_BRIDGE_HTML_CALL :: u16 where [simp]: "LSTEAM_BRIDGE_HTML_CALL = 33"
definition LSTEAM_BRIDGE_APP_TICKET_CALL :: u16 where [simp]: "LSTEAM_BRIDGE_APP_TICKET_CALL = 34"

definition LSTEAM_BRIDGE_MAX_TICKET :: nat where [simp]: "LSTEAM_BRIDGE_MAX_TICKET = 2048"
definition LSTEAM_BRIDGE_MAX_CALLBACK :: nat where [simp]: "LSTEAM_BRIDGE_MAX_CALLBACK = 8192"
definition LSTEAM_BRIDGE_MAX_MM_FILTERS :: nat where [simp]: "LSTEAM_BRIDGE_MAX_MM_FILTERS = 16"
definition LSTEAM_BRIDGE_MM_TEXT :: nat where [simp]: "LSTEAM_BRIDGE_MM_TEXT = 256"
definition LSTEAM_BRIDGE_MM_ITEM_SIZE :: nat where [simp]: "LSTEAM_BRIDGE_MM_ITEM_SIZE = 372"
definition LSTEAM_BRIDGE_MM_DATA_SIZE :: nat where [simp]: "LSTEAM_BRIDGE_MM_DATA_SIZE = 1024"
definition LSTEAM_BRIDGE_MAX_TEXT :: nat where [simp]: "LSTEAM_BRIDGE_MAX_TEXT = 512"
definition LSTEAM_BRIDGE_MAX_VOICE :: nat where [simp]: "LSTEAM_BRIDGE_MAX_VOICE = 65536"

section \<open>Layout of C structs\<close>

text \<open>A scalar of so many bytes, an array, or a struct whose size and alignment are known.\<close>

datatype c_type = Scalar nat | Array c_type nat | Struct nat nat

type_synonym c_members = "(string \<times> c_type) list"

fun type_size :: "c_type \<Rightarrow> nat" where
  "type_size (Scalar n) = n"
| "type_size (Array t n) = n * type_size t"
| "type_size (Struct n a) = n"

text \<open>\<open>wide\<close> is the alignment of 64-bit scalars, \<open>pack\<close> the bound a \<^verbatim>\<open>#pragma pack\<close> sets.\<close>

fun type_align :: "nat \<Rightarrow> nat \<Rightarrow> c_type \<Rightarrow> nat" where
  "type_align wide pack (Scalar n) = min pack (if n = 8 then wide else n)"
| "type_align wide pack (Array t n) = type_align wide pack t"
| "type_align wide pack (Struct n a) = min pack a"

definition align_up :: "nat \<Rightarrow> nat \<Rightarrow> nat" where
  "align_up p a = (p + a - 1) div a * a"

text \<open>The offset and the size of every member, from offset \<open>p\<close> on, and where the last one ends.\<close>

fun place :: "nat \<Rightarrow> nat \<Rightarrow> nat \<Rightarrow> c_members \<Rightarrow> (nat \<times> nat) list" where
  "place wide pack p [] = []"
| "place wide pack p ((name, t) # ms) =
     (let q = align_up p (type_align wide pack t) in (q, type_size t) # place wide pack (q + type_size t) ms)"

fun members_end :: "nat \<Rightarrow> nat \<Rightarrow> nat \<Rightarrow> c_members \<Rightarrow> nat" where
  "members_end wide pack p [] = p"
| "members_end wide pack p ((name, t) # ms) = members_end wide pack (align_up p (type_align wide pack t) + type_size t) ms"

fun struct_align :: "nat \<Rightarrow> nat \<Rightarrow> c_members \<Rightarrow> nat" where
  "struct_align wide pack [] = 1"
| "struct_align wide pack ((name, t) # ms) = max (type_align wide pack t) (struct_align wide pack ms)"

definition sizeof :: "nat \<Rightarrow> nat \<Rightarrow> c_members \<Rightarrow> nat" where
  "sizeof wide pack ms = align_up (members_end wide pack 0 ms) (struct_align wide pack ms)"

text \<open>The bytes of a struct whose members have the bytes \<open>cs\<close>, with zeroes between and behind them.\<close>

fun pack_members :: "nat \<Rightarrow> nat \<Rightarrow> nat \<Rightarrow> c_members \<Rightarrow> u8 list list \<Rightarrow> u8 list" where
  "pack_members wide pack p [] cs = []"
| "pack_members wide pack p (m # ms) [] = []"
| "pack_members wide pack p ((name, t) # ms) (c # cs) =
     (let q = align_up p (type_align wide pack t) in replicate (q - p) 0 @ c @ pack_members wide pack (q + type_size t) ms cs)"

definition pack_struct :: "nat \<Rightarrow> nat \<Rightarrow> c_members \<Rightarrow> u8 list list \<Rightarrow> u8 list" where
  "pack_struct wide pack ms cs =
     (let bytes = pack_members wide pack 0 ms cs in bytes @ replicate (sizeof wide pack ms - length bytes) 0)"

definition unpack_struct :: "nat \<Rightarrow> nat \<Rightarrow> c_members \<Rightarrow> u8 list \<Rightarrow> u8 list list" where
  "unpack_struct wide pack ms bytes = map (\<lambda>(q, n). take n (drop q bytes)) (place wide pack 0 ms)"

definition chunks_fit :: "c_members \<Rightarrow> u8 list list \<Rightarrow> bool" where
  "chunks_fit ms cs \<longleftrightarrow> map length cs = map (\<lambda>(name, t). type_size t) ms"

lemma chunks_fit_simps [simp]:
  "chunks_fit [] cs \<longleftrightarrow> cs = []"
  "chunks_fit (m # ms) [] \<longleftrightarrow> False"
  "chunks_fit ((name, t) # ms) (c # cs) \<longleftrightarrow> length c = type_size t \<and> chunks_fit ms cs"
  by (auto simp: chunks_fit_def)

lemma align_up_ge: "0 < a \<Longrightarrow> p \<le> align_up p a"
proof -
  assume a: "0 < a"
  have "p + a - 1 = (p + a - 1) div a * a + (p + a - 1) mod a" by simp
  moreover have "(p + a - 1) mod a < a" using a by simp
  ultimately show "p \<le> align_up p a" unfolding align_up_def by linarith
qed

lemma align_up_ge_or_zero: "p \<le> align_up p a \<or> align_up p a = 0"
  by (cases "a = 0") (simp_all add: align_up_ge, simp add: align_up_def)

text \<open>Every scalar has a size and every alignment is positive.\<close>

fun type_ok :: "c_type \<Rightarrow> bool" where
  "type_ok (Scalar n) \<longleftrightarrow> 0 < n"
| "type_ok (Array t n) \<longleftrightarrow> type_ok t"
| "type_ok (Struct n a) \<longleftrightarrow> 0 < a"

definition members_ok :: "c_members \<Rightarrow> bool" where
  "members_ok ms \<longleftrightarrow> (\<forall>(name, t) \<in> set ms. type_ok t)"

lemma members_ok_simps [simp]: "members_ok []" "members_ok ((name, t) # ms) \<longleftrightarrow> type_ok t \<and> members_ok ms"
  by (auto simp: members_ok_def)

lemma type_align_pos: "0 < wide \<Longrightarrow> 0 < pack \<Longrightarrow> type_ok t \<Longrightarrow> 0 < type_align wide pack t"
  by (induction t) auto

lemma struct_align_pos: "0 < struct_align wide pack ms"
  by (induction wide pack ms rule: struct_align.induct) auto

lemma length_pack_members:
  assumes "0 < wide" "0 < pack" "members_ok ms" "chunks_fit ms cs"
  shows "p + length (pack_members wide pack p ms cs) = members_end wide pack p ms"
  using assms
proof (induction wide pack p ms cs rule: pack_members.induct)
  case (3 wide pack p name t ms c cs)
  let ?q = "align_up p (type_align wide pack t)"
  have "p \<le> ?q" using 3 by (intro align_up_ge type_align_pos) auto
  then show ?case using 3 by (auto simp: Let_def)
qed auto

lemma unpack_pack_members:
  assumes "0 < wide" "0 < pack" "members_ok ms" "chunks_fit ms cs" "length before = p"
  shows "map (\<lambda>(q, n). take n (drop q (before @ pack_members wide pack p ms cs @ after))) (place wide pack p ms) = cs"
  using assms
proof (induction wide pack p ms cs arbitrary: before rule: pack_members.induct)
  case (3 wide pack p name t ms c cs)
  define q where "q = align_up p (type_align wide pack t)"
  have "p \<le> q" unfolding q_def using 3 by (intro align_up_ge type_align_pos) auto
  let ?before = "before @ replicate (q - p) 0 @ c"
  have len: "length ?before = q + type_size t" using 3 \<open>p \<le> q\<close> by simp
  have bytes: "before @ pack_members wide pack p ((name, t) # ms) (c # cs) @ after =
      ?before @ pack_members wide pack (q + type_size t) ms cs @ after"
    by (simp add: q_def Let_def)
  have "map (\<lambda>(k, n). take n (drop k (?before @ pack_members wide pack (q + type_size t) ms cs @ after)))
      (place wide pack (q + type_size t) ms) = cs"
    by (rule "3.IH" [OF q_def]) (use 3 len in auto)
  moreover have "take (type_size t) (drop q (?before @ pack_members wide pack (q + type_size t) ms cs @ after)) = c"
    using 3 \<open>p \<le> q\<close> by simp
  ultimately show ?case unfolding bytes by (simp add: q_def [symmetric] Let_def)
qed auto

lemma unpack_pack_struct:
  assumes "0 < wide" "0 < pack" "members_ok ms" "chunks_fit ms cs"
  shows "unpack_struct wide pack ms (pack_struct wide pack ms cs) = cs"
  unfolding unpack_struct_def pack_struct_def Let_def
  using unpack_pack_members [OF assms, of "[]" 0 "replicate (sizeof wide pack ms - length (pack_members wide pack 0 ms cs)) 0"]
  by (simp only: append_Nil list.size)

lemma length_pack_struct:
  assumes "0 < wide" "0 < pack" "members_ok ms" "chunks_fit ms cs"
  shows "length (pack_struct wide pack ms cs) = sizeof wide pack ms"
proof -
  have "length (pack_members wide pack 0 ms cs) = members_end wide pack 0 ms" using length_pack_members [OF assms, of 0] by simp
  also have "\<dots> \<le> sizeof wide pack ms" unfolding sizeof_def by (intro align_up_ge struct_align_pos)
  finally show ?thesis by (simp add: pack_struct_def Let_def)
qed

section \<open>Scalars in memory\<close>

fun le_bytes :: "nat \<Rightarrow> 'a::len word \<Rightarrow> u8 list" where
  "le_bytes 0 w = []"
| "le_bytes (Suc n) w = ucast w # le_bytes n (drop_bit 8 w)"

fun le_word :: "u8 list \<Rightarrow> 'a::len word" where
  "le_word [] = 0"
| "le_word (b # bs) = ucast b OR push_bit 8 (le_word bs)"

lemma length_le_bytes [simp]: "length (le_bytes n w) = n"
  by (induction n w rule: le_bytes.induct) simp_all

lemma le_word_bytes: "le_word (le_bytes n w) = take_bit (8 * n) w"
proof (induction n w rule: le_bytes.induct)
  case (2 n w)
  have "(ucast (ucast w :: u8) :: 'a word) OR push_bit 8 (take_bit (8 * n) (drop_bit 8 w)) = take_bit (8 * Suc n) w"
    by (rule bit_word_eqI) (auto simp: bit_simps not_le dest: bit_imp_le_length)
  then show ?case using 2 by simp
qed simp

lemma le_word_bytes_full [simp]: "LENGTH('a::len) \<le> 8 * n \<Longrightarrow> le_word (le_bytes n w) = (w :: 'a word)"
  by (simp add: le_word_bytes take_bit_word_eq_self)

section \<open>The messages\<close>

text \<open>What every response begins with.\<close>

record bridge_reply =
  rp_magic :: u32
  rp_version :: u16
  rp_opcode :: u16
  rp_sequence :: u32
  rp_status :: s32

definition reply_members :: c_members where
  "reply_members = [(''magic'', Scalar 4), (''version'', Scalar 2), (''opcode'', Scalar 2), (''sequence'', Scalar 4), (''status'', Scalar 4)]"

definition reply_chunks :: "'a bridge_reply_scheme \<Rightarrow> u8 list list" where
  "reply_chunks r = [le_bytes 4 (rp_magic r), le_bytes 2 (rp_version r), le_bytes 2 (rp_opcode r), le_bytes 4 (rp_sequence r), le_bytes 4 (rp_status r)]"

text \<open>One filter of a server query; on the wire its two strings.\<close>

record lsteam_bridge_mm_filter =
  mf_key :: "u8 list"
  mf_value :: "u8 list"

definition mm_filter_members :: c_members where
  "mm_filter_members = [(''key'', Array (Scalar 1) LSTEAM_BRIDGE_MM_TEXT), (''value'', Array (Scalar 1) LSTEAM_BRIDGE_MM_TEXT)]"

definition encode_mm_filter :: "lsteam_bridge_mm_filter \<Rightarrow> u8 list" where
  "encode_mm_filter f = pack_struct 8 16 mm_filter_members [mf_key f, mf_value f]"

definition decode_mm_filters :: "u8 list \<Rightarrow> lsteam_bridge_mm_filter list" where
  "decode_mm_filters bytes =
     map (\<lambda>i. let c = unpack_struct 8 16 mm_filter_members (take 512 (drop (512 * i) bytes)) in \<lparr>mf_key = c ! 0, mf_value = c ! 1\<rparr>) [0..<16]"

record lsteam_bridge_request =
  rq_magic :: u32
  rq_version :: u16
  rq_opcode :: u16
  rq_sequence :: u32

definition request_members :: c_members where
  "request_members = [(''magic'', Scalar 4), (''version'', Scalar 2), (''opcode'', Scalar 2), (''sequence'', Scalar 4)]"

definition encode_request :: "lsteam_bridge_request \<Rightarrow> u8 list" where
  "encode_request r = pack_struct 8 16 request_members (
     [le_bytes 4 (rq_magic r), le_bytes 2 (rq_version r), le_bytes 2 (rq_opcode r), le_bytes 4 (rq_sequence r)])"

definition decode_request :: "u8 list \<Rightarrow> lsteam_bridge_request" where
  "decode_request bytes = (let c = unpack_struct 8 16 request_members bytes in
     \<lparr>rq_magic = le_word (c ! 0), rq_version = le_word (c ! 1), rq_opcode = le_word (c ! 2), rq_sequence = le_word (c ! 3)\<rparr>)"

record lsteam_bridge_game_connection_request =
  gc_max_blob :: s32
  gc_server_ip :: u32
  gc_server_steam_id :: u64
  gc_server_port :: u16
  gc_secure :: u8

definition game_connection_request_members :: c_members where
  "game_connection_request_members = [(''max_blob'', Scalar 4), (''server_ip'', Scalar 4), (''server_steam_id'', Scalar 8), (''server_port'', Scalar 2),
      (''secure'', Scalar 1), (''reserved'', Array (Scalar 1) 5)]"

definition encode_game_connection_request :: "lsteam_bridge_game_connection_request \<Rightarrow> u8 list" where
  "encode_game_connection_request r = pack_struct 8 16 game_connection_request_members (
     [le_bytes 4 (gc_max_blob r), le_bytes 4 (gc_server_ip r), le_bytes 8 (gc_server_steam_id r), le_bytes 2 (gc_server_port r), le_bytes 1 (gc_secure r),
      replicate 5 0])"

definition decode_game_connection_request :: "u8 list \<Rightarrow> lsteam_bridge_game_connection_request" where
  "decode_game_connection_request bytes = (let c = unpack_struct 8 16 game_connection_request_members bytes in
     \<lparr>gc_max_blob = le_word (c ! 0), gc_server_ip = le_word (c ! 1), gc_server_steam_id = le_word (c ! 2), gc_server_port = le_word (c ! 3),
      gc_secure = le_word (c ! 4)\<rparr>)"

record lsteam_bridge_response = bridge_reply +
  rs_server_pid :: u32
  rs_server_uid :: u32
  rs_steam_pipe :: s32
  rs_steam_user :: s32
  rs_steam_id :: u64
  rs_logged_on :: u8

definition response_members :: c_members where
  "response_members = reply_members @
     [(''server_pid'', Scalar 4), (''server_uid'', Scalar 4), (''steam_pipe'', Scalar 4), (''steam_user'', Scalar 4), (''steam_id'', Scalar 8), (''logged_on'',
      Scalar 1), (''reserved'', Array (Scalar 1) 7)]"

definition encode_response :: "lsteam_bridge_response \<Rightarrow> u8 list" where
  "encode_response r = pack_struct 8 16 response_members (reply_chunks r @
     [le_bytes 4 (rs_server_pid r), le_bytes 4 (rs_server_uid r), le_bytes 4 (rs_steam_pipe r), le_bytes 4 (rs_steam_user r), le_bytes 8 (rs_steam_id r),
      le_bytes 1 (rs_logged_on r), replicate 7 0])"

definition decode_response :: "u8 list \<Rightarrow> lsteam_bridge_response" where
  "decode_response bytes = (let c = unpack_struct 8 16 response_members bytes in
     \<lparr>rp_magic = le_word (c ! 0), rp_version = le_word (c ! 1), rp_opcode = le_word (c ! 2), rp_sequence = le_word (c ! 3), rp_status = le_word (c ! 4),
      rs_server_pid = le_word (c ! 5), rs_server_uid = le_word (c ! 6), rs_steam_pipe = le_word (c ! 7), rs_steam_user = le_word (c ! 8),
      rs_steam_id = le_word (c ! 9), rs_logged_on = le_word (c ! 10)\<rparr>)"

record lsteam_bridge_app_ticket_request =
  aq_app_id :: u32
  aq_capacity :: u32

definition app_ticket_request_members :: c_members where
  "app_ticket_request_members = [(''app_id'', Scalar 4), (''capacity'', Scalar 4)]"

definition encode_app_ticket_request :: "lsteam_bridge_app_ticket_request \<Rightarrow> u8 list" where
  "encode_app_ticket_request r = pack_struct 8 16 app_ticket_request_members (
     [le_bytes 4 (aq_app_id r), le_bytes 4 (aq_capacity r)])"

definition decode_app_ticket_request :: "u8 list \<Rightarrow> lsteam_bridge_app_ticket_request" where
  "decode_app_ticket_request bytes = (let c = unpack_struct 8 16 app_ticket_request_members bytes in
     \<lparr>aq_app_id = le_word (c ! 0), aq_capacity = le_word (c ! 1)\<rparr>)"

record lsteam_bridge_app_ticket_response = bridge_reply +
  at_returned_size :: u32
  at_app_id_offset :: u32
  at_steam_id_offset :: u32
  at_signature_offset :: u32
  at_signature_size :: u32
  at_ticket :: "u8 list"

definition app_ticket_response_members :: c_members where
  "app_ticket_response_members = reply_members @
     [(''returned_size'', Scalar 4), (''app_id_offset'', Scalar 4), (''steam_id_offset'', Scalar 4), (''signature_offset'', Scalar 4), (''signature_size'',
      Scalar 4), (''ticket'', Array (Scalar 1) LSTEAM_BRIDGE_MAX_TICKET)]"

definition encode_app_ticket_response :: "lsteam_bridge_app_ticket_response \<Rightarrow> u8 list" where
  "encode_app_ticket_response r = pack_struct 8 16 app_ticket_response_members (reply_chunks r @
     [le_bytes 4 (at_returned_size r), le_bytes 4 (at_app_id_offset r), le_bytes 4 (at_steam_id_offset r), le_bytes 4 (at_signature_offset r),
      le_bytes 4 (at_signature_size r), at_ticket r])"

definition decode_app_ticket_response :: "u8 list \<Rightarrow> lsteam_bridge_app_ticket_response" where
  "decode_app_ticket_response bytes = (let c = unpack_struct 8 16 app_ticket_response_members bytes in
     \<lparr>rp_magic = le_word (c ! 0), rp_version = le_word (c ! 1), rp_opcode = le_word (c ! 2), rp_sequence = le_word (c ! 3), rp_status = le_word (c ! 4),
      at_returned_size = le_word (c ! 5), at_app_id_offset = le_word (c ! 6), at_steam_id_offset = le_word (c ! 7), at_signature_offset = le_word (c ! 8),
      at_signature_size = le_word (c ! 9), at_ticket = c ! 10\<rparr>)"

record lsteam_bridge_ticket_response = bridge_reply +
  tk_ticket_handle :: u32
  tk_ticket_size :: u32
  tk_ticket :: "u8 list"

definition ticket_response_members :: c_members where
  "ticket_response_members = reply_members @
     [(''ticket_handle'', Scalar 4), (''ticket_size'', Scalar 4), (''ticket'', Array (Scalar 1) LSTEAM_BRIDGE_MAX_TICKET)]"

definition encode_ticket_response :: "lsteam_bridge_ticket_response \<Rightarrow> u8 list" where
  "encode_ticket_response r = pack_struct 8 16 ticket_response_members (reply_chunks r @
     [le_bytes 4 (tk_ticket_handle r), le_bytes 4 (tk_ticket_size r), tk_ticket r])"

definition decode_ticket_response :: "u8 list \<Rightarrow> lsteam_bridge_ticket_response" where
  "decode_ticket_response bytes = (let c = unpack_struct 8 16 ticket_response_members bytes in
     \<lparr>rp_magic = le_word (c ! 0), rp_version = le_word (c ! 1), rp_opcode = le_word (c ! 2), rp_sequence = le_word (c ! 3), rp_status = le_word (c ! 4),
      tk_ticket_handle = le_word (c ! 5), tk_ticket_size = le_word (c ! 6), tk_ticket = c ! 7\<rparr>)"

record lsteam_bridge_blob_response = bridge_reply +
  bl_blob_size :: u32
  bl_blob :: "u8 list"

definition blob_response_members :: c_members where
  "blob_response_members = reply_members @
     [(''blob_size'', Scalar 4), (''blob'', Array (Scalar 1) LSTEAM_BRIDGE_MAX_TICKET)]"

definition encode_blob_response :: "lsteam_bridge_blob_response \<Rightarrow> u8 list" where
  "encode_blob_response r = pack_struct 8 16 blob_response_members (reply_chunks r @
     [le_bytes 4 (bl_blob_size r), bl_blob r])"

definition decode_blob_response :: "u8 list \<Rightarrow> lsteam_bridge_blob_response" where
  "decode_blob_response bytes = (let c = unpack_struct 8 16 blob_response_members bytes in
     \<lparr>rp_magic = le_word (c ! 0), rp_version = le_word (c ! 1), rp_opcode = le_word (c ! 2), rp_sequence = le_word (c ! 3), rp_status = le_word (c ! 4),
      bl_blob_size = le_word (c ! 5), bl_blob = c ! 6\<rparr>)"

record lsteam_bridge_callback_response = bridge_reply +
  cb_steam_user :: s32
  cb_callback_id :: s32
  cb_steam_call :: s32
  cb_data_size :: u32
  cb_data :: "u8 list"

definition callback_response_members :: c_members where
  "callback_response_members = reply_members @
     [(''steam_user'', Scalar 4), (''callback_id'', Scalar 4), (''steam_call'', Scalar 4), (''data_size'', Scalar 4), (''data'',
      Array (Scalar 1) LSTEAM_BRIDGE_MAX_CALLBACK)]"

definition encode_callback_response :: "lsteam_bridge_callback_response \<Rightarrow> u8 list" where
  "encode_callback_response r = pack_struct 8 16 callback_response_members (reply_chunks r @
     [le_bytes 4 (cb_steam_user r), le_bytes 4 (cb_callback_id r), le_bytes 4 (cb_steam_call r), le_bytes 4 (cb_data_size r), cb_data r])"

definition decode_callback_response :: "u8 list \<Rightarrow> lsteam_bridge_callback_response" where
  "decode_callback_response bytes = (let c = unpack_struct 8 16 callback_response_members bytes in
     \<lparr>rp_magic = le_word (c ! 0), rp_version = le_word (c ! 1), rp_opcode = le_word (c ! 2), rp_sequence = le_word (c ! 3), rp_status = le_word (c ! 4),
      cb_steam_user = le_word (c ! 5), cb_callback_id = le_word (c ! 6), cb_steam_call = le_word (c ! 7), cb_data_size = le_word (c ! 8), cb_data = c ! 9\<rparr>)"

record lsteam_bridge_api_call_request =
  ac_call :: u64
  ac_callback_size :: s32
  ac_callback_id :: s32

definition api_call_request_members :: c_members where
  "api_call_request_members = [(''call'', Scalar 8), (''callback_size'', Scalar 4), (''callback_id'', Scalar 4)]"

definition encode_api_call_request :: "lsteam_bridge_api_call_request \<Rightarrow> u8 list" where
  "encode_api_call_request r = pack_struct 8 16 api_call_request_members (
     [le_bytes 8 (ac_call r), le_bytes 4 (ac_callback_size r), le_bytes 4 (ac_callback_id r)])"

definition decode_api_call_request :: "u8 list \<Rightarrow> lsteam_bridge_api_call_request" where
  "decode_api_call_request bytes = (let c = unpack_struct 8 16 api_call_request_members bytes in
     \<lparr>ac_call = le_word (c ! 0), ac_callback_size = le_word (c ! 1), ac_callback_id = le_word (c ! 2)\<rparr>)"

record lsteam_bridge_api_call_response = bridge_reply +
  ar_failed :: u8
  ar_data_size :: u32
  ar_data :: "u8 list"

definition api_call_response_members :: c_members where
  "api_call_response_members = reply_members @
     [(''failed'', Scalar 1), (''reserved'', Array (Scalar 1) 3), (''data_size'', Scalar 4), (''data'', Array (Scalar 1) LSTEAM_BRIDGE_MAX_CALLBACK)]"

definition encode_api_call_response :: "lsteam_bridge_api_call_response \<Rightarrow> u8 list" where
  "encode_api_call_response r = pack_struct 8 16 api_call_response_members (reply_chunks r @
     [le_bytes 1 (ar_failed r), replicate 3 0, le_bytes 4 (ar_data_size r), ar_data r])"

definition decode_api_call_response :: "u8 list \<Rightarrow> lsteam_bridge_api_call_response" where
  "decode_api_call_response bytes = (let c = unpack_struct 8 16 api_call_response_members bytes in
     \<lparr>rp_magic = le_word (c ! 0), rp_version = le_word (c ! 1), rp_opcode = le_word (c ! 2), rp_sequence = le_word (c ! 3), rp_status = le_word (c ! 4),
      ar_failed = le_word (c ! 5), ar_data_size = le_word (c ! 7), ar_data = c ! 8\<rparr>)"

record lsteam_bridge_mm_request =
  mq_method :: u32
  mq_app_id :: u32
  mq_query_id :: u32
  mq_argument :: s32
  mq_filter_count :: u32
  mq_filters :: "lsteam_bridge_mm_filter list"

definition mm_request_members :: c_members where
  "mm_request_members = [(''method'', Scalar 4), (''app_id'', Scalar 4), (''query_id'', Scalar 4), (''argument'', Scalar 4), (''filter_count'', Scalar 4),
      (''filters'', Array (Struct (sizeof 8 16 mm_filter_members) (struct_align 8 16 mm_filter_members)) LSTEAM_BRIDGE_MAX_MM_FILTERS)]"

definition encode_mm_request :: "lsteam_bridge_mm_request \<Rightarrow> u8 list" where
  "encode_mm_request r = pack_struct 8 16 mm_request_members (
     [le_bytes 4 (mq_method r), le_bytes 4 (mq_app_id r), le_bytes 4 (mq_query_id r), le_bytes 4 (mq_argument r), le_bytes 4 (mq_filter_count r),
      concat (map encode_mm_filter (mq_filters r))])"

definition decode_mm_request :: "u8 list \<Rightarrow> lsteam_bridge_mm_request" where
  "decode_mm_request bytes = (let c = unpack_struct 8 16 mm_request_members bytes in
     \<lparr>mq_method = le_word (c ! 0), mq_app_id = le_word (c ! 1), mq_query_id = le_word (c ! 2), mq_argument = le_word (c ! 3),
      mq_filter_count = le_word (c ! 4), mq_filters = decode_mm_filters (c ! 5)\<rparr>)"

record lsteam_bridge_mm_response = bridge_reply +
  mr_query_id :: u32
  mr_server_count :: s32
  mr_refreshing :: u32
  mr_event_kind :: u32
  mr_event_index :: s32
  mr_event_response :: u32
  mr_data_size :: u32
  mr_data :: "u8 list"

definition mm_response_members :: c_members where
  "mm_response_members = reply_members @
     [(''query_id'', Scalar 4), (''server_count'', Scalar 4), (''refreshing'', Scalar 4), (''event_kind'', Scalar 4), (''event_index'', Scalar 4),
      (''event_response'', Scalar 4), (''data_size'', Scalar 4), (''data'', Array (Scalar 1) LSTEAM_BRIDGE_MM_DATA_SIZE)]"

definition encode_mm_response :: "lsteam_bridge_mm_response \<Rightarrow> u8 list" where
  "encode_mm_response r = pack_struct 8 16 mm_response_members (reply_chunks r @
     [le_bytes 4 (mr_query_id r), le_bytes 4 (mr_server_count r), le_bytes 4 (mr_refreshing r), le_bytes 4 (mr_event_kind r), le_bytes 4 (mr_event_index r),
      le_bytes 4 (mr_event_response r), le_bytes 4 (mr_data_size r), mr_data r])"

definition decode_mm_response :: "u8 list \<Rightarrow> lsteam_bridge_mm_response" where
  "decode_mm_response bytes = (let c = unpack_struct 8 16 mm_response_members bytes in
     \<lparr>rp_magic = le_word (c ! 0), rp_version = le_word (c ! 1), rp_opcode = le_word (c ! 2), rp_sequence = le_word (c ! 3), rp_status = le_word (c ! 4),
      mr_query_id = le_word (c ! 5), mr_server_count = le_word (c ! 6), mr_refreshing = le_word (c ! 7), mr_event_kind = le_word (c ! 8),
      mr_event_index = le_word (c ! 9), mr_event_response = le_word (c ! 10), mr_data_size = le_word (c ! 11), mr_data = c ! 12\<rparr>)"

record lsteam_bridge_game_server_request =
  gq_method :: u32
  gq_arg0 :: u32
  gq_arg1 :: u32
  gq_arg2 :: u32
  gq_arg3 :: u32
  gq_steam_id :: u64
  gq_data_size :: u32
  gq_text :: "u8 list"
  gq_value :: "u8 list"
  gq_data :: "u8 list"

definition game_server_request_members :: c_members where
  "game_server_request_members = [(''method'', Scalar 4), (''arg0'', Scalar 4), (''arg1'', Scalar 4), (''arg2'', Scalar 4), (''arg3'', Scalar 4),
      (''steam_id'', Scalar 8), (''data_size'', Scalar 4), (''text'', Array (Scalar 1) LSTEAM_BRIDGE_MAX_TEXT), (''value'',
      Array (Scalar 1) LSTEAM_BRIDGE_MAX_TEXT), (''data'', Array (Scalar 1) LSTEAM_BRIDGE_MAX_TICKET)]"

definition encode_game_server_request :: "lsteam_bridge_game_server_request \<Rightarrow> u8 list" where
  "encode_game_server_request r = pack_struct 8 16 game_server_request_members (
     [le_bytes 4 (gq_method r), le_bytes 4 (gq_arg0 r), le_bytes 4 (gq_arg1 r), le_bytes 4 (gq_arg2 r), le_bytes 4 (gq_arg3 r), le_bytes 8 (gq_steam_id r),
      le_bytes 4 (gq_data_size r), gq_text r, gq_value r, gq_data r])"

definition decode_game_server_request :: "u8 list \<Rightarrow> lsteam_bridge_game_server_request" where
  "decode_game_server_request bytes = (let c = unpack_struct 8 16 game_server_request_members bytes in
     \<lparr>gq_method = le_word (c ! 0), gq_arg0 = le_word (c ! 1), gq_arg1 = le_word (c ! 2), gq_arg2 = le_word (c ! 3), gq_arg3 = le_word (c ! 4),
      gq_steam_id = le_word (c ! 5), gq_data_size = le_word (c ! 6), gq_text = c ! 7, gq_value = c ! 8, gq_data = c ! 9\<rparr>)"

record lsteam_bridge_game_server_response = bridge_reply +
  gr_result :: u64
  gr_steam_id :: u64
  gr_arg0 :: u32
  gr_arg1 :: u32
  gr_data_size :: u32
  gr_data :: "u8 list"

definition game_server_response_members :: c_members where
  "game_server_response_members = reply_members @
     [(''result'', Scalar 8), (''steam_id'', Scalar 8), (''arg0'', Scalar 4), (''arg1'', Scalar 4), (''data_size'', Scalar 4), (''data'',
      Array (Scalar 1) LSTEAM_BRIDGE_MAX_TICKET)]"

definition encode_game_server_response :: "lsteam_bridge_game_server_response \<Rightarrow> u8 list" where
  "encode_game_server_response r = pack_struct 8 16 game_server_response_members (reply_chunks r @
     [le_bytes 8 (gr_result r), le_bytes 8 (gr_steam_id r), le_bytes 4 (gr_arg0 r), le_bytes 4 (gr_arg1 r), le_bytes 4 (gr_data_size r), gr_data r])"

definition decode_game_server_response :: "u8 list \<Rightarrow> lsteam_bridge_game_server_response" where
  "decode_game_server_response bytes = (let c = unpack_struct 8 16 game_server_response_members bytes in
     \<lparr>rp_magic = le_word (c ! 0), rp_version = le_word (c ! 1), rp_opcode = le_word (c ! 2), rp_sequence = le_word (c ! 3), rp_status = le_word (c ! 4),
      gr_result = le_word (c ! 5), gr_steam_id = le_word (c ! 6), gr_arg0 = le_word (c ! 7), gr_arg1 = le_word (c ! 8), gr_data_size = le_word (c ! 9),
      gr_data = c ! 10\<rparr>)"

record lsteam_bridge_voice_request =
  vq_method :: u32
  vq_flags :: u32
  vq_arg0 :: u32
  vq_arg1 :: u32
  vq_arg2 :: u32
  vq_data_size :: u32
  vq_data :: "u8 list"

definition voice_request_members :: c_members where
  "voice_request_members = [(''method'', Scalar 4), (''flags'', Scalar 4), (''arg0'', Scalar 4), (''arg1'', Scalar 4), (''arg2'', Scalar 4), (''data_size'',
      Scalar 4), (''data'', Array (Scalar 1) LSTEAM_BRIDGE_MAX_VOICE)]"

definition encode_voice_request :: "lsteam_bridge_voice_request \<Rightarrow> u8 list" where
  "encode_voice_request r = pack_struct 8 16 voice_request_members (
     [le_bytes 4 (vq_method r), le_bytes 4 (vq_flags r), le_bytes 4 (vq_arg0 r), le_bytes 4 (vq_arg1 r), le_bytes 4 (vq_arg2 r), le_bytes 4 (vq_data_size r),
      vq_data r])"

definition decode_voice_request :: "u8 list \<Rightarrow> lsteam_bridge_voice_request" where
  "decode_voice_request bytes = (let c = unpack_struct 8 16 voice_request_members bytes in
     \<lparr>vq_method = le_word (c ! 0), vq_flags = le_word (c ! 1), vq_arg0 = le_word (c ! 2), vq_arg1 = le_word (c ! 3), vq_arg2 = le_word (c ! 4),
      vq_data_size = le_word (c ! 5), vq_data = c ! 6\<rparr>)"

record lsteam_bridge_voice_response = bridge_reply +
  vr_result :: u32
  vr_compressed_size :: u32
  vr_uncompressed_size :: u32
  vr_data_size :: u32
  vr_data :: "u8 list"

definition voice_response_members :: c_members where
  "voice_response_members = reply_members @
     [(''result'', Scalar 4), (''compressed_size'', Scalar 4), (''uncompressed_size'', Scalar 4), (''data_size'', Scalar 4), (''data'',
      Array (Scalar 1) LSTEAM_BRIDGE_MAX_VOICE)]"

definition encode_voice_response :: "lsteam_bridge_voice_response \<Rightarrow> u8 list" where
  "encode_voice_response r = pack_struct 8 16 voice_response_members (reply_chunks r @
     [le_bytes 4 (vr_result r), le_bytes 4 (vr_compressed_size r), le_bytes 4 (vr_uncompressed_size r), le_bytes 4 (vr_data_size r), vr_data r])"

definition decode_voice_response :: "u8 list \<Rightarrow> lsteam_bridge_voice_response" where
  "decode_voice_response bytes = (let c = unpack_struct 8 16 voice_response_members bytes in
     \<lparr>rp_magic = le_word (c ! 0), rp_version = le_word (c ! 1), rp_opcode = le_word (c ! 2), rp_sequence = le_word (c ! 3), rp_status = le_word (c ! 4),
      vr_result = le_word (c ! 5), vr_compressed_size = le_word (c ! 6), vr_uncompressed_size = le_word (c ! 7), vr_data_size = le_word (c ! 8),
      vr_data = c ! 9\<rparr>)"

text \<open>Structs that travel inside the data of a response, packed to four bytes.\<close>

definition ugc_details_members :: c_members where
  "ugc_details_members =
     [(''published_file_id'', Scalar 8), (''result'', Scalar 4), (''file_type'', Scalar 4), (''creator_app_id'', Scalar 4), (''consumer_app_id'', Scalar 4),
      (''title'', Array (Scalar 1) 129), (''description'', Array (Scalar 1) 8000), (''owner_steam_id'', Scalar 8), (''time_created'', Scalar 4),
      (''time_updated'', Scalar 4), (''time_added_to_user_list'', Scalar 4), (''visibility'', Scalar 4), (''banned'', Scalar 1), (''accepted_for_use'',
      Scalar 1), (''tags_truncated'', Scalar 1), (''tags'', Array (Scalar 1) 1025), (''file_handle'', Scalar 8), (''preview_file_handle'', Scalar 8),
      (''file_name'', Array (Scalar 1) 260), (''file_size'', Scalar 4), (''preview_file_size'', Scalar 4), (''url'', Array (Scalar 1) 256), (''votes_up'',
      Scalar 4), (''votes_down'', Scalar 4), (''score'', Scalar 4), (''child_count'', Scalar 4)]"

definition inventory_item_members :: c_members where
  "inventory_item_members =
     [(''item_id'', Scalar 8), (''definition'', Scalar 4), (''quantity'', Scalar 2), (''flags'', Scalar 2)]"

definition inventory_price_members :: c_members where
  "inventory_price_members =
     [(''definition'', Scalar 4), (''current_price'', Scalar 8), (''base_price'', Scalar 8)]"

definition network_message_header_members :: c_members where
  "network_message_header_members =
     [(''identity'', Array (Scalar 1) 136), (''connection'', Scalar 4), (''connection_user_data'', Scalar 8), (''time_received'', Scalar 8),
      (''message_number'', Scalar 8), (''channel'', Scalar 4), (''flags'', Scalar 4), (''user_data'', Scalar 8), (''lane'', Scalar 2), (''reserved'', Scalar 2)]"

lemmas members_defs = reply_members_def mm_filter_members_def request_members_def game_connection_request_members_def response_members_def app_ticket_request_members_def app_ticket_response_members_def ticket_response_members_def blob_response_members_def callback_response_members_def api_call_request_members_def api_call_response_members_def mm_request_members_def mm_response_members_def game_server_request_members_def game_server_response_members_def voice_request_members_def voice_response_members_def ugc_details_members_def inventory_item_members_def inventory_price_members_def network_message_header_members_def


section \<open>Sending and receiving a message\<close>

text \<open>
  A packet received into a struct of \<open>n\<close> bytes, \<open>None\<close> when receiving fails or the result is not \<open>n\<close>: a shorter packet is not accepted, of a longer one the rest is lost.
\<close>

definition recv_struct :: "nat \<Rightarrow> u8 list option \<Rightarrow> u8 list option" where
  "recv_struct n packet = (case packet of None \<Rightarrow> None | Some bytes \<Rightarrow> if length bytes < n then None else Some (take n bytes))"

text \<open>What a pair of encoder and decoder promises for the messages that are \<open>ok\<close>, whose arrays have the declared sizes.\<close>

locale bridge_message =
  fixes ms :: c_members and enc :: "'m \<Rightarrow> u8 list" and dec :: "u8 list \<Rightarrow> 'm" and ok :: "'m \<Rightarrow> bool"
  assumes enc_length: "ok m \<Longrightarrow> length (enc m) = sizeof 8 16 ms"
    and dec_enc: "ok m \<Longrightarrow> dec (enc m) = m"
begin

lemma received: "ok m \<Longrightarrow> recv_struct (sizeof 8 16 ms) (Some (enc m)) = Some (enc m)"
  by (simp add: recv_struct_def enc_length)

lemma received_decoded: "ok m \<Longrightarrow> map_option dec (recv_struct (sizeof 8 16 ms) (Some (enc m))) = Some m"
  by (simp add: received dec_enc)

lemma enc_inject: "ok m \<Longrightarrow> ok m' \<Longrightarrow> enc m = enc m' \<Longrightarrow> m = m'"
  using dec_enc by metis

end

lemmas codec_simps = Let_def length_pack_struct unpack_pack_struct reply_members_def reply_chunks_def

interpretation request_msg: bridge_message request_members encode_request decode_request "\<lambda>_. True"
  by unfold_locales (simp_all add: encode_request_def decode_request_def request_members_def codec_simps)

interpretation game_connection_request_msg: bridge_message game_connection_request_members encode_game_connection_request decode_game_connection_request "\<lambda>_. True"
  by unfold_locales (simp_all add: encode_game_connection_request_def decode_game_connection_request_def game_connection_request_members_def codec_simps)

interpretation response_msg: bridge_message response_members encode_response decode_response "\<lambda>_. True"
  by unfold_locales (simp_all add: encode_response_def decode_response_def response_members_def codec_simps)

interpretation app_ticket_request_msg: bridge_message app_ticket_request_members encode_app_ticket_request decode_app_ticket_request "\<lambda>_. True"
  by unfold_locales (simp_all add: encode_app_ticket_request_def decode_app_ticket_request_def app_ticket_request_members_def codec_simps)

definition app_ticket_response_ok :: "lsteam_bridge_app_ticket_response \<Rightarrow> bool" where
  "app_ticket_response_ok m \<longleftrightarrow> length (at_ticket m) = LSTEAM_BRIDGE_MAX_TICKET"

interpretation app_ticket_response_msg: bridge_message app_ticket_response_members encode_app_ticket_response decode_app_ticket_response app_ticket_response_ok
  by unfold_locales (simp_all add: encode_app_ticket_response_def decode_app_ticket_response_def app_ticket_response_members_def app_ticket_response_ok_def codec_simps)

definition ticket_response_ok :: "lsteam_bridge_ticket_response \<Rightarrow> bool" where
  "ticket_response_ok m \<longleftrightarrow> length (tk_ticket m) = LSTEAM_BRIDGE_MAX_TICKET"

interpretation ticket_response_msg: bridge_message ticket_response_members encode_ticket_response decode_ticket_response ticket_response_ok
  by unfold_locales (simp_all add: encode_ticket_response_def decode_ticket_response_def ticket_response_members_def ticket_response_ok_def codec_simps)

definition blob_response_ok :: "lsteam_bridge_blob_response \<Rightarrow> bool" where
  "blob_response_ok m \<longleftrightarrow> length (bl_blob m) = LSTEAM_BRIDGE_MAX_TICKET"

interpretation blob_response_msg: bridge_message blob_response_members encode_blob_response decode_blob_response blob_response_ok
  by unfold_locales (simp_all add: encode_blob_response_def decode_blob_response_def blob_response_members_def blob_response_ok_def codec_simps)

definition callback_response_ok :: "lsteam_bridge_callback_response \<Rightarrow> bool" where
  "callback_response_ok m \<longleftrightarrow> length (cb_data m) = LSTEAM_BRIDGE_MAX_CALLBACK"

interpretation callback_response_msg: bridge_message callback_response_members encode_callback_response decode_callback_response callback_response_ok
  by unfold_locales (simp_all add: encode_callback_response_def decode_callback_response_def callback_response_members_def callback_response_ok_def codec_simps)

interpretation api_call_request_msg: bridge_message api_call_request_members encode_api_call_request decode_api_call_request "\<lambda>_. True"
  by unfold_locales (simp_all add: encode_api_call_request_def decode_api_call_request_def api_call_request_members_def codec_simps)

definition api_call_response_ok :: "lsteam_bridge_api_call_response \<Rightarrow> bool" where
  "api_call_response_ok m \<longleftrightarrow> length (ar_data m) = LSTEAM_BRIDGE_MAX_CALLBACK"

interpretation api_call_response_msg: bridge_message api_call_response_members encode_api_call_response decode_api_call_response api_call_response_ok
  by unfold_locales (simp_all add: encode_api_call_response_def decode_api_call_response_def api_call_response_members_def api_call_response_ok_def codec_simps)

definition mm_response_ok :: "lsteam_bridge_mm_response \<Rightarrow> bool" where
  "mm_response_ok m \<longleftrightarrow> length (mr_data m) = LSTEAM_BRIDGE_MM_DATA_SIZE"

interpretation mm_response_msg: bridge_message mm_response_members encode_mm_response decode_mm_response mm_response_ok
  by unfold_locales (simp_all add: encode_mm_response_def decode_mm_response_def mm_response_members_def mm_response_ok_def codec_simps)

definition game_server_request_ok :: "lsteam_bridge_game_server_request \<Rightarrow> bool" where
  "game_server_request_ok m \<longleftrightarrow> length (gq_text m) = LSTEAM_BRIDGE_MAX_TEXT \<and> length (gq_value m) = LSTEAM_BRIDGE_MAX_TEXT \<and> length (gq_data m) = LSTEAM_BRIDGE_MAX_TICKET"

interpretation game_server_request_msg: bridge_message game_server_request_members encode_game_server_request decode_game_server_request game_server_request_ok
  by unfold_locales (simp_all add: encode_game_server_request_def decode_game_server_request_def game_server_request_members_def game_server_request_ok_def codec_simps)

definition game_server_response_ok :: "lsteam_bridge_game_server_response \<Rightarrow> bool" where
  "game_server_response_ok m \<longleftrightarrow> length (gr_data m) = LSTEAM_BRIDGE_MAX_TICKET"

interpretation game_server_response_msg: bridge_message game_server_response_members encode_game_server_response decode_game_server_response game_server_response_ok
  by unfold_locales (simp_all add: encode_game_server_response_def decode_game_server_response_def game_server_response_members_def game_server_response_ok_def codec_simps)

definition voice_request_ok :: "lsteam_bridge_voice_request \<Rightarrow> bool" where
  "voice_request_ok m \<longleftrightarrow> length (vq_data m) = LSTEAM_BRIDGE_MAX_VOICE"

interpretation voice_request_msg: bridge_message voice_request_members encode_voice_request decode_voice_request voice_request_ok
  by unfold_locales (simp_all add: encode_voice_request_def decode_voice_request_def voice_request_members_def voice_request_ok_def codec_simps)

definition voice_response_ok :: "lsteam_bridge_voice_response \<Rightarrow> bool" where
  "voice_response_ok m \<longleftrightarrow> length (vr_data m) = LSTEAM_BRIDGE_MAX_VOICE"

interpretation voice_response_msg: bridge_message voice_response_members encode_voice_response decode_voice_response voice_response_ok
  by unfold_locales (simp_all add: encode_voice_response_def decode_voice_response_def voice_response_members_def voice_response_ok_def codec_simps)

section \<open>The binary interface\<close>

text \<open>The structs whose sizes \<^verbatim>\<open>protocol.h\<close> asserts, in the order of the assertions: those laid out by the rules of the machine, and the packed ones.\<close>

definition asserted_structs :: "(c_members \<times> nat) list" where
  "asserted_structs =
     [(request_members, 12), (game_connection_request_members, 24), (response_members, 48), (app_ticket_request_members, 8),
      (app_ticket_response_members, 2084), (ticket_response_members, 2072), (blob_response_members, 2068), (callback_response_members, 8224),
      (api_call_request_members, 16), (api_call_response_members, 8216), (voice_request_members, 65560), (voice_response_members, 65568)]"

definition asserted_packed_structs :: "(c_members \<times> nat) list" where
  "asserted_packed_structs =
     [(ugc_details_members, 9764), (inventory_item_members, 16), (inventory_price_members, 20), (network_message_header_members, 184)]"

lemmas layout_simps = align_up_def Let_def sizeof_def members_defs

lemma asserted_sizes:
  "map (\<lambda>(ms, n). sizeof 8 16 ms) asserted_structs = map snd asserted_structs"
  "map (\<lambda>(ms, n). sizeof 4 16 ms) asserted_structs = map snd asserted_structs"
  "map (\<lambda>(ms, n). sizeof 8 4 ms) asserted_packed_structs = map snd asserted_packed_structs"
  "map (\<lambda>(ms, n). sizeof 4 4 ms) asserted_packed_structs = map snd asserted_packed_structs"
  by (simp_all add: asserted_structs_def asserted_packed_structs_def layout_simps)

lemma asserted_places:
  "map (\<lambda>(ms, n). place 4 16 0 ms) asserted_structs = map (\<lambda>(ms, n). place 8 16 0 ms) asserted_structs"
  "map (\<lambda>(ms, n). place 4 4 0 ms) asserted_packed_structs = map (\<lambda>(ms, n). place 8 4 0 ms) asserted_packed_structs"
  by (simp_all add: asserted_structs_def asserted_packed_structs_def layout_simps)

lemma nth_chunk_of_concat:
  assumes "\<forall>c \<in> set cs. length c = n" "i < length cs"
  shows "take n (drop (n * i) (concat cs)) = cs ! i"
  using assms
proof (induction cs arbitrary: i)
  case (Cons c cs)
  show ?case
  proof (cases i)
    case (Suc k)
    then show ?thesis using Cons by simp
  qed (use Cons in simp)
qed simp

lemma length_concat_const: "\<forall>c \<in> set cs. length c = n \<Longrightarrow> length (concat cs) = length cs * n"
  by (induction cs) auto

definition mm_filter_ok :: "lsteam_bridge_mm_filter \<Rightarrow> bool" where
  "mm_filter_ok f \<longleftrightarrow> length (mf_key f) = LSTEAM_BRIDGE_MM_TEXT \<and> length (mf_value f) = LSTEAM_BRIDGE_MM_TEXT"

definition mm_request_ok :: "lsteam_bridge_mm_request \<Rightarrow> bool" where
  "mm_request_ok m \<longleftrightarrow> length (mq_filters m) = LSTEAM_BRIDGE_MAX_MM_FILTERS \<and> (\<forall>f \<in> set (mq_filters m). mm_filter_ok f)"

lemma mm_filter_codec:
  assumes "mm_filter_ok f"
  shows "length (encode_mm_filter f) = 512" and "unpack_struct 8 16 mm_filter_members (encode_mm_filter f) = [mf_key f, mf_value f]"
  using assms length_pack_struct [of 8 16 mm_filter_members "[mf_key f, mf_value f]"] unpack_pack_struct [of 8 16 mm_filter_members "[mf_key f, mf_value f]"]
  by (simp_all add: encode_mm_filter_def mm_filter_members_def mm_filter_ok_def sizeof_def align_up_def)

lemma decode_encode_filters:
  assumes "length fs = 16" "\<forall>f \<in> set fs. mm_filter_ok f"
  shows "decode_mm_filters (concat (map encode_mm_filter fs)) = fs"
proof (rule nth_equalityI)
  show "length (decode_mm_filters (concat (map encode_mm_filter fs))) = length fs" using assms(1) by (simp add: decode_mm_filters_def)
next
  fix i assume "i < length (decode_mm_filters (concat (map encode_mm_filter fs)))"
  then have i: "i < 16" by (simp add: decode_mm_filters_def)
  have "take 512 (drop (512 * i) (concat (map encode_mm_filter fs))) = map encode_mm_filter fs ! i"
    using assms i by (intro nth_chunk_of_concat) (auto simp: mm_filter_codec)
  moreover have "mm_filter_ok (fs ! i)" using assms i by simp
  ultimately show "decode_mm_filters (concat (map encode_mm_filter fs)) ! i = fs ! i"
    using i assms(1) by (simp add: decode_mm_filters_def mm_filter_codec(2))
qed

interpretation mm_request_msg: bridge_message mm_request_members encode_mm_request decode_mm_request mm_request_ok
proof
  fix m assume ok: "mm_request_ok m"
  have size: "length (concat (map encode_mm_filter (mq_filters m))) = 8192"
    using ok length_concat_const [of "map encode_mm_filter (mq_filters m)" 512] by (auto simp: mm_request_ok_def mm_filter_codec)
  have filter: "sizeof 8 16 mm_filter_members = 512" by (simp add: sizeof_def align_up_def mm_filter_members_def)
  note codec = encode_mm_request_def decode_mm_request_def mm_request_members_def codec_simps filter size struct_align_pos
  show "length (encode_mm_request m) = sizeof 8 16 mm_request_members" by (simp add: codec)
  show "decode_mm_request (encode_mm_request m) = m" using ok by (simp add: codec mm_request_ok_def decode_encode_filters)
qed

lemma unasserted_sizes:
  "sizeof 8 16 mm_request_members = sizeof 4 16 mm_request_members" "sizeof 8 16 mm_response_members = sizeof 4 16 mm_response_members"
  "(sizeof 8 16 game_server_request_members, sizeof 4 16 game_server_request_members) = (3112, 3104)"
  "(sizeof 8 16 game_server_response_members, sizeof 4 16 game_server_response_members) = (2096, 2092)"
  by (simp_all add: layout_simps)

text \<open>
  The struct layouts the C compilers compute have the sizes \<^verbatim>\<open>protocol.h\<close> asserts, whether a 64-bit integer is aligned to four or to eight bytes, and every
  member then has the same offset, so the two ends agree about these messages on all machines of the bridge. The two structs most calls use are not asserted and do depend on it.
\<close>

theorem bridge_abi:
  "map (\<lambda>(ms, n). sizeof 8 16 ms) asserted_structs = map snd asserted_structs \<and>
   map (\<lambda>(ms, n). sizeof 4 16 ms) asserted_structs = map snd asserted_structs \<and>
   map (\<lambda>(ms, n). sizeof 8 4 ms) asserted_packed_structs = map snd asserted_packed_structs \<and>
   map (\<lambda>(ms, n). sizeof 4 4 ms) asserted_packed_structs = map snd asserted_packed_structs \<and>
   map (\<lambda>(ms, n). place 4 16 0 ms) asserted_structs = map (\<lambda>(ms, n). place 8 16 0 ms) asserted_structs \<and>
   map (\<lambda>(ms, n). place 4 4 0 ms) asserted_packed_structs = map (\<lambda>(ms, n). place 8 4 0 ms) asserted_packed_structs \<and>
   sizeof 8 16 mm_request_members = sizeof 4 16 mm_request_members \<and> sizeof 8 16 mm_response_members = sizeof 4 16 mm_response_members \<and>
   (sizeof 8 16 game_server_request_members, sizeof 4 16 game_server_request_members) = (3112, 3104) \<and>
   (sizeof 8 16 game_server_response_members, sizeof 4 16 game_server_response_members) = (2096, 2092)"
  by (intro conjI asserted_sizes asserted_places unasserted_sizes)

end
