(* ===== verification/Tgc_Bridge_Server.thy ===== *)
theory Tgc_Bridge_Server
  imports Tgc_Bridge_Protocol
begin

text \<open>
  The server of the Steam bridge, \<^verbatim>\<open>src/steam-bridge/server.cpp\<close>. It loads Steam's library, keeps one session with it, and answers one request per connection. The library
  is not in the repository: what it answers during a request is an argument, left arbitrary. The methods of the single Steam interfaces (\<^verbatim>\<open>*_native.inc\<close>)
  are an argument as well, a record of handlers with a state of their own; \<open>handlers_ok\<close> says what every one of them does with a response. Serving a request gives
  what it does, in order (the calls that hand a callback over, the bytes sent, the connection closed), whether it went on to the next turn of the loop by itself, and the new state.
\<close>

section \<open>State\<close>

abbreviation ENODEV :: s32 where "ENODEV \<equiv> 19"
abbreviation EIO :: s32 where "EIO \<equiv> 5"

text \<open>The game server session of \<^verbatim>\<open>gameserver_native.inc\<close>.\<close>

record bridge_game_server_state =
  gs_pipe :: s32
  gs_user :: s32
  gs_iface :: bool
  gs_owns_handles :: bool

text \<open>
  The handlers of the interfaces, by opcode where there are several; \<open>'h\<close> is the state they keep. The one of the game server's statistics opens the session of the
  game server when it is not there yet, so the state of that session goes through \<open>hd_interface\<close> as well.
\<close>

record 'h bridge_handlers =
  hd_interface :: "u16 \<Rightarrow> 'h \<Rightarrow> bridge_game_server_state \<Rightarrow> lsteam_bridge_game_server_request \<Rightarrow> lsteam_bridge_game_server_response \<Rightarrow>
    lsteam_bridge_game_server_response \<times> bridge_game_server_state \<times> 'h"
  hd_game_server :: "'h \<Rightarrow> bridge_game_server_state \<Rightarrow> lsteam_bridge_game_server_request \<Rightarrow> lsteam_bridge_game_server_response \<Rightarrow>
    lsteam_bridge_game_server_response \<times> bridge_game_server_state \<times> 'h"
  hd_voice :: "'h \<Rightarrow> lsteam_bridge_voice_request \<Rightarrow> lsteam_bridge_voice_response \<Rightarrow> lsteam_bridge_voice_response \<times> 'h"
  hd_mm_request :: "'h \<Rightarrow> lsteam_bridge_request \<Rightarrow> lsteam_bridge_mm_request \<Rightarrow> lsteam_bridge_mm_response \<Rightarrow> lsteam_bridge_mm_response \<times> 'h"
  hd_html_initialized :: "'h \<Rightarrow> bool"
  hd_mm_call :: "'h \<Rightarrow> lsteam_bridge_request \<Rightarrow> lsteam_bridge_mm_request \<Rightarrow> lsteam_bridge_mm_response \<Rightarrow> lsteam_bridge_mm_response \<times> 'h"

text \<open>What \<^verbatim>\<open>main\<close> keeps in its local variables; an interface pointer is whether it is there.\<close>

record 'h bridge_server =
  sv_pipe :: s32
  sv_user :: s32
  sv_steam_id :: u64
  sv_client :: bool
  sv_user_iface :: bool
  sv_app_ticket_iface :: bool
  sv_html :: bool
  sv_game_server :: bridge_game_server_state
  sv_callback_pipe :: s32
  sv_handlers :: 'h
  sv_running :: bool

text \<open>A callback as the library hands it out; \<open>nc_data\<close> are the bytes its pointer refers to.\<close>

record native_callback_msg =
  nc_steam_user :: s32
  nc_callback_id :: s32
  nc_data :: "u8 list option"
  nc_data_size :: s32

text \<open>
  What the library and the system answer while one request is served: the ticket, its handle and size; whether the interface of tickets is found by either way, and
  the ticket with its size and offsets; the connection blob; the successive results of \<^verbatim>\<open>Steam_BGetCallback\<close>, with the call each belongs to, and of \<^verbatim>\<open>Steam_GetAPICallResult\<close>.
\<close>

record steam_answers =
  an_auth_ticket :: "u32 \<times> u8 list \<times> u32"
  an_ticket_generic :: bool
  an_ticket_created :: bool
  an_app_ticket :: "u32 \<times> u8 list \<times> u32 \<times> u32 \<times> u32 \<times> u32"
  an_game_connection :: "u32 \<times> u8 list"
  an_callbacks :: "(native_callback_msg \<times> s32) option list"
  an_api_results :: "(bool \<times> u8 list \<times> bool) list"
  an_logged_on :: bool
  an_pid :: u32
  an_uid :: u32

text \<open>The calls that take a callback from a pipe and give it back.\<close>

datatype steam_event = Callback_Taken s32 | Callback_Freed s32

text \<open>What the loop does that can be seen from outside: a frame of the library, a connection accepted, bytes sent over it, the connection closed, a call with a callback.\<close>

datatype bridge_event = Frame | Accepted | Sent "u8 list" | Closed | Steam steam_event

type_synonym 'h served_request = "bridge_event list \<times> bool \<times> 'h bridge_server"

section \<open>Responses\<close>

text \<open>Writing into an array: bytes beyond its end are not written.\<close>

definition store_bytes :: "u8 list \<Rightarrow> u8 list \<Rightarrow> u8 list" where
  "store_bytes array bytes = take (length array) (bytes @ drop (length bytes) array)"

lemma length_store_bytes [simp]: "length (store_bytes array bytes) = length array"
  by (simp add: store_bytes_def)

lemma take_store_bytes: "length bytes \<le> length array \<Longrightarrow> take (length bytes) (store_bytes array bytes) = bytes"
  by (simp add: store_bytes_def)

definition zeroes :: "nat \<Rightarrow> u8 list" where
  "zeroes n = replicate n 0"

lemma length_zeroes [simp]: "length (zeroes n) = n"
  by (simp add: zeroes_def)

text \<open>The four assignments every response starts with.\<close>

definition stamp :: "lsteam_bridge_request \<Rightarrow> 'a bridge_reply_scheme \<Rightarrow> 'a bridge_reply_scheme" where
  "stamp request r =
     r\<lparr>rp_magic := LSTEAM_BRIDGE_MAGIC, rp_version := LSTEAM_BRIDGE_VERSION, rp_opcode := rq_opcode request, rp_sequence := rq_sequence request\<rparr>"

definition blank_response :: lsteam_bridge_response where
  "blank_response = \<lparr>rp_magic = 0, rp_version = 0, rp_opcode = 0, rp_sequence = 0, rp_status = 0, rs_server_pid = 0, rs_server_uid = 0, rs_steam_pipe = 0,
     rs_steam_user = 0, rs_steam_id = 0, rs_logged_on = 0\<rparr>"

definition blank_ticket_response :: lsteam_bridge_ticket_response where
  "blank_ticket_response = \<lparr>rp_magic = 0, rp_version = 0, rp_opcode = 0, rp_sequence = 0, rp_status = 0, tk_ticket_handle = 0, tk_ticket_size = 0,
     tk_ticket = zeroes LSTEAM_BRIDGE_MAX_TICKET\<rparr>"

definition blank_app_ticket_response :: lsteam_bridge_app_ticket_response where
  "blank_app_ticket_response = \<lparr>rp_magic = 0, rp_version = 0, rp_opcode = 0, rp_sequence = 0, rp_status = 0, at_returned_size = 0, at_app_id_offset = 0,
     at_steam_id_offset = 0, at_signature_offset = 0, at_signature_size = 0, at_ticket = zeroes LSTEAM_BRIDGE_MAX_TICKET\<rparr>"

definition blank_blob_response :: lsteam_bridge_blob_response where
  "blank_blob_response = \<lparr>rp_magic = 0, rp_version = 0, rp_opcode = 0, rp_sequence = 0, rp_status = 0, bl_blob_size = 0, bl_blob = zeroes LSTEAM_BRIDGE_MAX_TICKET\<rparr>"

definition blank_callback_response :: lsteam_bridge_callback_response where
  "blank_callback_response = \<lparr>rp_magic = 0, rp_version = 0, rp_opcode = 0, rp_sequence = 0, rp_status = 0, cb_steam_user = 0, cb_callback_id = 0, cb_steam_call = 0,
     cb_data_size = 0, cb_data = zeroes LSTEAM_BRIDGE_MAX_CALLBACK\<rparr>"

definition blank_api_call_response :: lsteam_bridge_api_call_response where
  "blank_api_call_response = \<lparr>rp_magic = 0, rp_version = 0, rp_opcode = 0, rp_sequence = 0, rp_status = 0, ar_failed = 0, ar_data_size = 0,
     ar_data = zeroes LSTEAM_BRIDGE_MAX_CALLBACK\<rparr>"

definition blank_mm_response :: lsteam_bridge_mm_response where
  "blank_mm_response = \<lparr>rp_magic = 0, rp_version = 0, rp_opcode = 0, rp_sequence = 0, rp_status = 0, mr_query_id = 0, mr_server_count = 0, mr_refreshing = 0,
     mr_event_kind = 0, mr_event_index = 0, mr_event_response = 0, mr_data_size = 0, mr_data = zeroes LSTEAM_BRIDGE_MM_DATA_SIZE\<rparr>"

definition blank_game_server_response :: lsteam_bridge_game_server_response where
  "blank_game_server_response = \<lparr>rp_magic = 0, rp_version = 0, rp_opcode = 0, rp_sequence = 0, rp_status = 0, gr_result = 0, gr_steam_id = 0, gr_arg0 = 0, gr_arg1 = 0,
     gr_data_size = 0, gr_data = zeroes LSTEAM_BRIDGE_MAX_TICKET\<rparr>"

definition blank_voice_response :: lsteam_bridge_voice_response where
  "blank_voice_response = \<lparr>rp_magic = 0, rp_version = 0, rp_opcode = 0, rp_sequence = 0, rp_status = 0, vr_result = 0, vr_compressed_size = 0,
     vr_uncompressed_size = 0, vr_data_size = 0, vr_data = zeroes LSTEAM_BRIDGE_MAX_VOICE\<rparr>"

section \<open>Tickets\<close>

definition get_auth_ticket :: "bool \<Rightarrow> steam_answers \<Rightarrow> lsteam_bridge_request \<Rightarrow> lsteam_bridge_ticket_response" where
  "get_auth_ticket user_iface an request =
     (let r = stamp request blank_ticket_response;
          r = (if user_iface
               then case an_auth_ticket an of (ticket_handle, bytes, ticket_size) \<Rightarrow>
                      r\<lparr>tk_ticket_handle := ticket_handle, tk_ticket_size := ticket_size, tk_ticket := store_bytes (tk_ticket r) bytes\<rparr>
               else r)
      in r\<lparr>rp_status := if tk_ticket_handle r \<noteq> 0 \<and> tk_ticket_size r \<noteq> 0 then 0 else - EIO\<rparr>)"

definition app_ticket_range_valid :: "u32 \<Rightarrow> u32 \<Rightarrow> u32 \<Rightarrow> bool" where
  "app_ticket_range_valid offset len whole \<longleftrightarrow> offset \<le> whole \<and> len \<le> whole - offset"

text \<open>The check of the ticket the library wrote, and the status it gives.\<close>

definition app_ticket_status :: "u32 \<Rightarrow> u64 \<Rightarrow> u32 \<Rightarrow> lsteam_bridge_app_ticket_response \<Rightarrow> s32" where
  "app_ticket_status app_id steam_id native_capacity r =
     (if at_returned_size r = 0 then - EIO
      else if at_returned_size r > native_capacity \<or> at_returned_size r > of_nat LSTEAM_BRIDGE_MAX_TICKET then - EOVERFLOW
      else if \<not> app_ticket_range_valid (at_app_id_offset r) 4 (at_returned_size r) \<or>
              \<not> app_ticket_range_valid (at_steam_id_offset r) 8 (at_returned_size r) \<or>
              at_signature_size r = 0 \<or>
              \<not> app_ticket_range_valid (at_signature_offset r) (at_signature_size r) (at_returned_size r) then - EPROTO
      else
        let ticket_app_id = le_word (take 4 (drop (unat (at_app_id_offset r)) (at_ticket r)));
            ticket_steam_id = le_word (take 8 (drop (unat (at_steam_id_offset r)) (at_ticket r)))
        in if ticket_app_id = app_id \<and> (steam_id = 0 \<or> ticket_steam_id = steam_id) then 0 else - EPROTO)"

definition clear_app_ticket :: "lsteam_bridge_app_ticket_response \<Rightarrow> lsteam_bridge_app_ticket_response" where
  "clear_app_ticket r =
     r\<lparr>at_returned_size := 0, at_app_id_offset := 0, at_steam_id_offset := 0, at_signature_offset := 0, at_signature_size := 0,
       at_ticket := zeroes (length (at_ticket r))\<rparr>"

definition finish_app_ticket :: "lsteam_bridge_app_ticket_response \<Rightarrow> lsteam_bridge_app_ticket_response" where
  "finish_app_ticket r = (if rp_status r \<noteq> 0 then clear_app_ticket r else r)"

text \<open>What the library writes into the response, into at most \<open>native_capacity\<close> bytes of the ticket.\<close>

definition fill_app_ticket :: "steam_answers \<Rightarrow> u32 \<Rightarrow> lsteam_bridge_app_ticket_response \<Rightarrow> lsteam_bridge_app_ticket_response" where
  "fill_app_ticket an native_capacity r =
     (case an_app_ticket an of (returned_size, bytes, app_id_offset, steam_id_offset, signature_offset, signature_size) \<Rightarrow>
        r\<lparr>at_returned_size := returned_size, at_app_id_offset := app_id_offset, at_steam_id_offset := steam_id_offset,
          at_signature_offset := signature_offset, at_signature_size := signature_size,
          at_ticket := store_bytes (at_ticket r) (take (unat native_capacity) bytes)\<rparr>)"

text \<open>\<open>packet\<close> is the second message of the connection. The interface is looked up again when it was not there at the start.\<close>

definition get_app_ticket ::
  "steam_answers \<Rightarrow> u8 list option \<Rightarrow> lsteam_bridge_request \<Rightarrow> 'h bridge_server \<Rightarrow> lsteam_bridge_app_ticket_response \<times> 'h bridge_server" where
  "get_app_ticket an packet request server =
     (let r = stamp request blank_app_ticket_response in
      case map_option decode_app_ticket_request (recv_struct (sizeof 8 16 app_ticket_request_members) packet) of
        None \<Rightarrow> (finish_app_ticket (r\<lparr>rp_status := - EINVAL\<rparr>), server)
      | Some q \<Rightarrow>
          if aq_app_id q = 0 \<or> aq_capacity q = 0 then (finish_app_ticket (r\<lparr>rp_status := - EINVAL\<rparr>), server)
          else
            let found = sv_app_ticket_iface server \<or> sv_client server \<and> an_ticket_generic an \<or> an_ticket_created an;
                server = server\<lparr>sv_app_ticket_iface := found\<rparr>
            in if \<not> found then (finish_app_ticket (r\<lparr>rp_status := - ENODEV\<rparr>), server)
               else
                 let native_capacity = min (aq_capacity q) (of_nat LSTEAM_BRIDGE_MAX_TICKET);
                     r = fill_app_ticket an native_capacity r
                 in (finish_app_ticket (r\<lparr>rp_status := app_ticket_status (aq_app_id q) (sv_steam_id server) native_capacity r\<rparr>), server))"

definition init_game_connection :: "steam_answers \<Rightarrow> u8 list option \<Rightarrow> lsteam_bridge_request \<Rightarrow> bool \<Rightarrow> lsteam_bridge_blob_response" where
  "init_game_connection an packet request user_iface =
     (let r = stamp request blank_blob_response in
      case map_option decode_game_connection_request (recv_struct (sizeof 8 16 game_connection_request_members) packet) of
        None \<Rightarrow> r\<lparr>rp_status := - EINVAL\<rparr>
      | Some q \<Rightarrow>
          if \<not> user_iface \<or> sint (gc_max_blob q) \<le> 0 then r\<lparr>rp_status := - EINVAL\<rparr>
          else
            case an_game_connection an of (blob_size, bytes) \<Rightarrow>
              let capacity = min (unat (gc_max_blob q)) LSTEAM_BRIDGE_MAX_TICKET in
              r\<lparr>bl_blob_size := blob_size, bl_blob := store_bytes (bl_blob r) (take capacity bytes),
                rp_status := if blob_size \<noteq> 0 then 0 else - EIO\<rparr>)"

section \<open>Calls of interfaces\<close>

definition serve_game_server ::
  "'h bridge_handlers \<Rightarrow> u8 list option \<Rightarrow> lsteam_bridge_request \<Rightarrow> 'h bridge_server \<Rightarrow> lsteam_bridge_game_server_response \<times> 'h bridge_server" where
  "serve_game_server hs packet request server =
     (let r = blank_game_server_response\<lparr>rp_sequence := rq_sequence request\<rparr> in
      case map_option decode_game_server_request (recv_struct (sizeof 8 16 game_server_request_members) packet) of
        None \<Rightarrow> ((stamp request r)\<lparr>rp_status := - EINVAL\<rparr>, server)
      | Some q \<Rightarrow>
          if \<not> sv_client server then ((stamp request r)\<lparr>rp_status := - EINVAL\<rparr>, server)
          else case hd_game_server hs (sv_handlers server) (sv_game_server server) q r of (r, game_server, h) \<Rightarrow>
                 (r, server\<lparr>sv_game_server := game_server, sv_handlers := h\<rparr>))"

definition serve_voice ::
  "'h bridge_handlers \<Rightarrow> u8 list option \<Rightarrow> lsteam_bridge_request \<Rightarrow> 'h bridge_server \<Rightarrow> lsteam_bridge_voice_response \<times> 'h bridge_server" where
  "serve_voice hs packet request server =
     (let r = blank_voice_response\<lparr>rp_sequence := rq_sequence request\<rparr> in
      case map_option decode_voice_request (recv_struct (sizeof 8 16 voice_request_members) packet) of
        None \<Rightarrow> ((stamp request r)\<lparr>rp_status := - EINVAL\<rparr>, server)
      | Some q \<Rightarrow> case hd_voice hs (sv_handlers server) q r of (r, h) \<Rightarrow> (r, server\<lparr>sv_handlers := h\<rparr>))"

definition interface_opcodes :: "u16 list" where
  "interface_opcodes =
     [LSTEAM_BRIDGE_CLIENT_CALL, LSTEAM_BRIDGE_USER_CALL, LSTEAM_BRIDGE_FRIENDS_CALL, LSTEAM_BRIDGE_UTILS_CALL, LSTEAM_BRIDGE_REMOTE_STORAGE_CALL,
      LSTEAM_BRIDGE_NETWORKING_CALL, LSTEAM_BRIDGE_GAME_SERVER_STATS_CALL, LSTEAM_BRIDGE_USER_STATS_CALL, LSTEAM_BRIDGE_UGC_CALL, LSTEAM_BRIDGE_APPS_CALL,
      LSTEAM_BRIDGE_HTTP_CALL, LSTEAM_BRIDGE_INVENTORY_CALL, LSTEAM_BRIDGE_GAME_SEARCH_CALL, LSTEAM_BRIDGE_APP_LIST_CALL, LSTEAM_BRIDGE_VIDEO_CALL,
      LSTEAM_BRIDGE_PARENTAL_CALL, LSTEAM_BRIDGE_NETWORK_MESSAGES_CALL, LSTEAM_BRIDGE_NETWORK_SOCKETS_CALL, LSTEAM_BRIDGE_NETWORK_UTILS_CALL,
      LSTEAM_BRIDGE_HTML_CALL, LSTEAM_BRIDGE_LOBBY_CALL]"

definition serve_interface ::
  "'h bridge_handlers \<Rightarrow> u8 list option \<Rightarrow> lsteam_bridge_request \<Rightarrow> 'h bridge_server \<Rightarrow> lsteam_bridge_game_server_response \<times> 'h bridge_server" where
  "serve_interface hs packet request server =
     (let r = blank_game_server_response\<lparr>rp_sequence := rq_sequence request\<rparr> in
      case map_option decode_game_server_request (recv_struct (sizeof 8 16 game_server_request_members) packet) of
        None \<Rightarrow> ((stamp request r)\<lparr>rp_status := - EINVAL\<rparr>, server)
      | Some q \<Rightarrow> case hd_interface hs (rq_opcode request) (sv_handlers server) (sv_game_server server) q r of (r, game_server, h) \<Rightarrow>
                    (r, server\<lparr>sv_game_server := game_server, sv_handlers := h\<rparr>))"

definition serve_matchmaking ::
  "'h bridge_handlers \<Rightarrow> u8 list option \<Rightarrow> lsteam_bridge_request \<Rightarrow> 'h bridge_server \<Rightarrow> lsteam_bridge_mm_response \<times> 'h bridge_server" where
  "serve_matchmaking hs packet request server =
     (case map_option decode_mm_request (recv_struct (sizeof 8 16 mm_request_members) packet) of
        None \<Rightarrow> ((stamp request blank_mm_response)\<lparr>rp_status := - EINVAL\<rparr>, server)
      | Some q \<Rightarrow>
          if \<not> sv_client server then ((stamp request blank_mm_response)\<lparr>rp_status := - EINVAL\<rparr>, server)
          else case (if rq_opcode request = LSTEAM_BRIDGE_MATCHMAKING_REQUEST then hd_mm_request hs (sv_handlers server) request q blank_mm_response
                     else hd_mm_call hs (sv_handlers server) request q blank_mm_response) of (r, h) \<Rightarrow>
                 (r, server\<lparr>sv_handlers := h\<rparr>))"

section \<open>Callbacks\<close>

text \<open>
  The callbacks of the HTML interface hold pointers of this process and are dropped. The second pipe is asked when the first has nothing. \<open>answers\<close> are the results
  still to come; when none is left there is no callback. The loop returns the callback it stops at, the last call, the calls made and the pipe to free.
\<close>

definition is_html_callback :: "native_callback_msg \<Rightarrow> bool" where
  "is_html_callback c \<longleftrightarrow> \<not> (sint (nc_callback_id c) < 4502 \<or> sint (nc_callback_id c) > 4527)"

definition next_answer :: "'a option list \<Rightarrow> 'a option \<times> 'a option list" where
  "next_answer answers = (case answers of [] \<Rightarrow> (None, []) | a # rest \<Rightarrow> (a, rest))"

definition poll_callback ::
  "s32 \<Rightarrow> s32 \<Rightarrow> (native_callback_msg \<times> s32) option list \<Rightarrow> s32 \<Rightarrow>
   (native_callback_msg \<times> s32) option \<times> (native_callback_msg \<times> s32) option list \<times> steam_event list \<times> s32" where
  "poll_callback pipe server_pipe answers callback_pipe =
     (case next_answer answers of
        (Some c, rest) \<Rightarrow> (Some c, rest, [Callback_Taken pipe], pipe)
      | (None, rest) \<Rightarrow>
          if server_pipe \<noteq> 0 \<and> server_pipe \<noteq> pipe then
            case next_answer rest of
              (Some c, rest) \<Rightarrow> (Some c, rest, [Callback_Taken server_pipe], server_pipe)
            | (None, rest) \<Rightarrow> (None, rest, [], callback_pipe)
          else (None, rest, [], callback_pipe))"

fun callback_loop ::
  "nat \<Rightarrow> s32 \<Rightarrow> s32 \<Rightarrow> (native_callback_msg \<times> s32) option list \<Rightarrow> s32 \<Rightarrow> (native_callback_msg \<times> s32) option \<times> steam_event list \<times> s32" where
  "callback_loop 0 pipe server_pipe answers callback_pipe = (None, [], callback_pipe)"
| "callback_loop (Suc attempts) pipe server_pipe answers callback_pipe =
     (case poll_callback pipe server_pipe answers callback_pipe of
        (None, rest, events, callback_pipe) \<Rightarrow> (None, events, callback_pipe)
      | (Some (c, call), rest, events, callback_pipe) \<Rightarrow>
          if \<not> is_html_callback c then (Some (c, call), events, callback_pipe)
          else
            case callback_loop attempts pipe server_pipe rest 0 of
              (found, later, callback_pipe') \<Rightarrow> (found, events @ Callback_Freed callback_pipe # later, callback_pipe'))"

definition get_callback ::
  "steam_answers \<Rightarrow> lsteam_bridge_request \<Rightarrow> 'h bridge_server \<Rightarrow> lsteam_bridge_callback_response \<times> steam_event list \<times> 'h bridge_server" where
  "get_callback an request server =
     (let r = stamp request blank_callback_response in
      case callback_loop 32 (sv_pipe server) (gs_pipe (sv_game_server server)) (an_callbacks an) (sv_callback_pipe server) of
        (None, events, callback_pipe) \<Rightarrow> (r\<lparr>rp_status := - EAGAIN\<rparr>, events, server\<lparr>sv_callback_pipe := callback_pipe\<rparr>)
      | (Some (c, steam_call), events, callback_pipe) \<Rightarrow>
          if sint (nc_data_size c) < 0 \<or> unat (nc_data_size c) > LSTEAM_BRIDGE_MAX_CALLBACK \<or> nc_data_size c \<noteq> 0 \<and> nc_data c = None then
            (r\<lparr>rp_status := - EOVERFLOW\<rparr>, events @ [Callback_Freed callback_pipe], server\<lparr>sv_callback_pipe := 0\<rparr>)
          else
            (r\<lparr>cb_steam_user := nc_steam_user c, cb_callback_id := nc_callback_id c, cb_steam_call := steam_call, cb_data_size := nc_data_size c,
               cb_data := (case nc_data c of None \<Rightarrow> cb_data r | Some bytes \<Rightarrow> store_bytes (cb_data r) (take (unat (nc_data_size c)) bytes))\<rparr>,
             events, server\<lparr>sv_callback_pipe := callback_pipe\<rparr>))"

definition free_callback ::
  "lsteam_bridge_request \<Rightarrow> 'h bridge_server \<Rightarrow> lsteam_bridge_response \<times> steam_event list \<times> 'h bridge_server" where
  "free_callback request server =
     (let r = stamp request blank_response in
      if sv_callback_pipe server = 0 then (r\<lparr>rp_status := - ENOENT\<rparr>, [], server)
      else (r\<lparr>rp_status := 0\<rparr>, [Callback_Freed (sv_callback_pipe server)], server\<lparr>sv_callback_pipe := 0\<rparr>))"

text \<open>The result of an asynchronous call; the game server's pipe is asked when the first has none.\<close>

definition get_api_call_result ::
  "steam_answers \<Rightarrow> u8 list option \<Rightarrow> lsteam_bridge_request \<Rightarrow> 'h bridge_server \<Rightarrow> lsteam_bridge_api_call_response" where
  "get_api_call_result an packet request server =
     (let r = stamp request blank_api_call_response in
      case map_option decode_api_call_request (recv_struct (sizeof 8 16 api_call_request_members) packet) of
        None \<Rightarrow> r\<lparr>rp_status := - EINVAL\<rparr>
      | Some q \<Rightarrow>
          if sint (ac_callback_size q) < 0 \<or> unat (ac_callback_size q) > LSTEAM_BRIDGE_MAX_CALLBACK then r\<lparr>rp_status := - EINVAL\<rparr>
          else
            let answer = (\<lambda>k. if k < length (an_api_results an) then an_api_results an ! k else (False, [], False));
                second = gs_pipe (sv_game_server server) \<noteq> 0 \<and> gs_pipe (sv_game_server server) \<noteq> sv_pipe server;
                put = (\<lambda>array bytes. store_bytes array (take (unat (ac_callback_size q)) bytes))
            in case answer 0 of (ok, bytes, failed) \<Rightarrow>
                 let d = put (ar_data r) bytes in
                 case (if \<not> ok \<and> second then case answer 1 of (ok, bytes, failed) \<Rightarrow> (ok, put d bytes, failed) else (ok, d, failed)) of (ok, d, failed) \<Rightarrow>
                   r\<lparr>ar_data := d, ar_failed := if failed then 1 else 0, ar_data_size := if ok then ac_callback_size q else 0,
                     rp_status := if ok then 0 else - EIO\<rparr>)"

section \<open>One connection\<close>

definition serve_status :: "steam_answers \<Rightarrow> lsteam_bridge_request \<Rightarrow> 'h bridge_server \<Rightarrow> lsteam_bridge_response \<times> 'h bridge_server" where
  "serve_status an request server =
     ((stamp request blank_response)
        \<lparr>rp_status := if rq_opcode request = LSTEAM_BRIDGE_PING \<or> rq_opcode request = LSTEAM_BRIDGE_STATUS \<or> rq_opcode request = LSTEAM_BRIDGE_STOP
                      then 0 else - ENOSYS,
         rs_server_pid := an_pid an, rs_server_uid := an_uid an, rs_steam_pipe := sv_pipe server, rs_steam_user := sv_user server,
         rs_steam_id := sv_steam_id server, rs_logged_on := if an_logged_on an then 1 else 0\<rparr>,
      if rq_opcode request = LSTEAM_BRIDGE_STOP then server\<lparr>sv_running := False\<rparr> else server)"

text \<open>
  Every branch sends its response, closes the connection and goes on to the next turn by itself, except the last: it sends the response and leaves the closing to the
  end of the loop's body. The flag says whether the branch has gone on by itself.
\<close>

definition serve_request ::
  "'h bridge_handlers \<Rightarrow> steam_answers \<Rightarrow> u8 list option \<Rightarrow> lsteam_bridge_request \<Rightarrow> 'h bridge_server \<Rightarrow> 'h served_request" where
  "serve_request hs an packet request server =
     (let opcode = rq_opcode request in
      if opcode = LSTEAM_BRIDGE_GET_AUTH_TICKET then
        ([Sent (encode_ticket_response (get_auth_ticket (sv_user_iface server) an request)), Closed], True, server)
      else if opcode = LSTEAM_BRIDGE_APP_TICKET_CALL then
        (case get_app_ticket an packet request server of (r, server) \<Rightarrow> ([Sent (encode_app_ticket_response r), Closed], True, server))
      else if opcode = LSTEAM_BRIDGE_INIT_GAME_CONNECTION then
        ([Sent (encode_blob_response (init_game_connection an packet request (sv_user_iface server))), Closed], True, server)
      else if opcode = LSTEAM_BRIDGE_GAME_SERVER_CALL then
        (case serve_game_server hs packet request server of (r, server) \<Rightarrow> ([Sent (encode_game_server_response r), Closed], True, server))
      else if opcode = LSTEAM_BRIDGE_VOICE_CALL then
        (case serve_voice hs packet request server of (r, server) \<Rightarrow> ([Sent (encode_voice_response r), Closed], True, server))
      else if opcode \<in> set interface_opcodes then
        (case serve_interface hs packet request server of (r, server) \<Rightarrow> ([Sent (encode_game_server_response r), Closed], True, server))
      else if opcode = LSTEAM_BRIDGE_MATCHMAKING_REQUEST \<or> opcode = LSTEAM_BRIDGE_MATCHMAKING_CALL then
        (case serve_matchmaking hs packet request server of (r, server) \<Rightarrow> ([Sent (encode_mm_response r), Closed], True, server))
      else if opcode = LSTEAM_BRIDGE_GET_CALLBACK then
        (case get_callback an request server of (r, calls, server) \<Rightarrow> (map Steam calls @ [Sent (encode_callback_response r), Closed], True, server))
      else if opcode = LSTEAM_BRIDGE_FREE_CALLBACK then
        (case free_callback request server of (r, calls, server) \<Rightarrow> (map Steam calls @ [Sent (encode_response r), Closed], True, server))
      else if opcode = LSTEAM_BRIDGE_GET_API_CALL_RESULT then
        ([Sent (encode_api_call_response (get_api_call_result an packet request server)), Closed], True, server)
      else (case serve_status an request server of (r, server) \<Rightarrow> ([Sent (encode_response r)], False, server)))"

text \<open>
  A connection: the user its peer runs as, \<open>None\<close> when that cannot be found out, and the two messages receiving yields.
\<close>

record bridge_connection =
  cn_uid :: "u32 option"
  cn_first :: "u8 list option"
  cn_second :: "u8 list option"

text \<open>
  A refused connection falls through to the close at the end of the loop's body, and so does a request that no branch of its own has answered.
\<close>

definition serve_connection ::
  "'h bridge_handlers \<Rightarrow> steam_answers \<Rightarrow> bridge_connection \<Rightarrow> 'h bridge_server \<Rightarrow> bridge_event list \<times> 'h bridge_server" where
  "serve_connection hs an cn server =
     (let trusted = (cn_uid cn = Some (an_uid an));
          received = (if trusted then map_option decode_request (recv_struct (sizeof 8 16 request_members) (cn_first cn)) else None)
      in case received of
           None \<Rightarrow> ([Accepted, Closed], server)
         | Some request \<Rightarrow>
             if rq_magic request = LSTEAM_BRIDGE_MAGIC \<and> rq_version request = LSTEAM_BRIDGE_VERSION then
               case serve_request hs an (cn_second cn) request server of (events, continued, server) \<Rightarrow>
                 (Accepted # events @ (if continued then [] else [Closed]), server)
             else ([Accepted, Closed], server))"

section \<open>The loop\<close>

text \<open>
  What one turn of the loop meets: a stop signal, which is either seen by the loop's condition (it came while the turn before was at work) or interrupts the wait, an interrupted or failed or idle wait, an interrupted or failed accept, or a connection together with what the library answers.
  \<open>None\<close> means that the server still runs when the script ends.
\<close>

datatype bridge_turn = Stop_Seen | Stop_Signal | Poll_Interrupted | Poll_Failed | Poll_Idle | Accept_Interrupted | Accept_Failed | Connection bridge_connection steam_answers

fun bridge_loop :: "'h bridge_handlers \<Rightarrow> bridge_turn list \<Rightarrow> 'h bridge_server \<Rightarrow> (bridge_event list \<times> 'h bridge_server) option" where
  "bridge_loop hs [] server = (if sv_running server then None else Some ([], server))"
| "bridge_loop hs (turn # turns) server =
     (if \<not> sv_running server then Some ([], server)
      else
        let frame = (if sv_client server then [Frame] else []) in
        case turn of
          Stop_Seen \<Rightarrow> Some ([], server\<lparr>sv_running := False\<rparr>)
        | Stop_Signal \<Rightarrow> map_option (\<lambda>(later, server). (frame @ later, server)) (bridge_loop hs turns (server\<lparr>sv_running := False\<rparr>))
        | Poll_Failed \<Rightarrow> Some (frame, server)
        | Accept_Failed \<Rightarrow> Some (frame, server)
        | Connection cn an \<Rightarrow>
            (case serve_connection hs an cn server of (events, server) \<Rightarrow>
               map_option (\<lambda>(later, server). (frame @ events @ later, server)) (bridge_loop hs turns server))
        | _ \<Rightarrow> map_option (\<lambda>(later, server). (frame @ later, server)) (bridge_loop hs turns server))"

section \<open>Start and end\<close>

text \<open>What \<^verbatim>\<open>lstat\<close> finds at the path of the socket: nothing, with the error number, or an object, whether it is a socket, and its owner.\<close>

datatype path_state = Lstat_Failed s32 | Path_Is bool u32

text \<open>The result, and whether the path is removed.\<close>

definition safe_remove_socket :: "path_state \<Rightarrow> u32 \<Rightarrow> bool \<Rightarrow> bool \<times> bool" where
  "safe_remove_socket st uid unlink_ok =
     (case st of
        Lstat_Failed errno \<Rightarrow> (errno = ENOENT, False)
      | Path_Is is_socket owner \<Rightarrow> if \<not> is_socket \<or> owner \<noteq> uid then (False, False) else (unlink_ok, unlink_ok))"

text \<open>What the program is started with and what the system and the library answer before the loop; \<open>ev_after\<close> is what is found at the path at the end.\<close>

record bridge_start =
  ev_workdir :: "string option"
  ev_chdir :: bool
  ev_argument :: "string option"
  ev_socket :: "string option"
  ev_dlopen :: bool
  ev_symbols :: bool
  ev_pipe :: s32
  ev_user :: s32
  ev_client :: bool
  ev_user_iface :: bool
  ev_html :: bool
  ev_steam_id :: u64
  ev_ticket_generic :: bool
  ev_ticket_created :: bool
  ev_listener :: bool
  ev_uid :: u32
  ev_before :: path_state
  ev_before_unlink :: bool
  ev_bind :: bool
  ev_chmod :: bool
  ev_listen :: bool
  ev_after :: path_state
  ev_after_unlink :: bool

datatype main_event =
    Library_Opened string | Library_Closed | Pipe_Created s32 | User_Connected s32 s32 | Listener_Opened | Path_Removed string | Umask u32 | Bind string
  | Chmod string u32 | Listen nat | Ready | Serving bridge_event | Listener_Closed | Matchmaking_Cleaned | Html_Shut_Down | User_Released s32 s32 | Pipe_Released s32

definition removal :: "string \<Rightarrow> bool \<times> bool \<Rightarrow> main_event list" where
  "removal path outcome = (if snd outcome then [Path_Removed path] else [])"

definition socket_path :: "bridge_start \<Rightarrow> string" where
  "socket_path ev = (case ev_socket ev of None \<Rightarrow> LSTEAM_BRIDGE_DEFAULT_SOCKET | Some p \<Rightarrow> if p = [] then LSTEAM_BRIDGE_DEFAULT_SOCKET else p)"

definition initial_server :: "bridge_start \<Rightarrow> 'h \<Rightarrow> 'h bridge_server" where
  "initial_server ev h =
     \<lparr>sv_pipe = ev_pipe ev, sv_user = ev_user ev, sv_steam_id = (if ev_client ev \<and> ev_user_iface ev then ev_steam_id ev else 0), sv_client = ev_client ev,
      sv_user_iface = (ev_client ev \<and> ev_user_iface ev), sv_app_ticket_iface = (ev_client ev \<and> ev_ticket_generic ev \<or> ev_ticket_created ev),
      sv_html = (ev_client ev \<and> ev_html ev), sv_game_server = \<lparr>gs_pipe = 0, gs_user = 0, gs_iface = False, gs_owns_handles = False\<rparr>,
      sv_callback_pipe = 0, sv_handlers = h, sv_running = True\<rparr>"

text \<open>Binding under a restricting mask; the result is whether the socket listens.\<close>

definition bind_socket :: "bridge_start \<Rightarrow> string \<Rightarrow> u32 \<Rightarrow> main_event list \<times> bool" where
  "bind_socket ev path old_umask =
     (let events = [Umask 63, Bind path, Umask old_umask] in
      if \<not> ev_bind ev then (events, False)
      else if \<not> ev_chmod ev then (events, False)
      else if \<not> ev_listen ev then (events @ [Chmod path 384], False)
      else (events @ [Chmod path 384, Listen 8], True))"

text \<open>The end of \<^verbatim>\<open>main\<close>, after the loop.\<close>

definition shut_down :: "'h bridge_handlers \<Rightarrow> bridge_start \<Rightarrow> string \<Rightarrow> 'h bridge_server \<Rightarrow> main_event list" where
  "shut_down hs ev path server =
     [Listener_Closed] @ removal path (safe_remove_socket (ev_after ev) (ev_uid ev) (ev_after_unlink ev)) @ [Matchmaking_Cleaned] @
     (if sv_html server \<and> hd_html_initialized hs (sv_handlers server) then [Html_Shut_Down] else []) @
     (let g = sv_game_server server in
      if gs_owns_handles g \<and> gs_user g \<noteq> 0 \<and> gs_pipe g \<noteq> 0 then [User_Released (gs_pipe g) (gs_user g), Pipe_Released (gs_pipe g)] else []) @
     [User_Released (sv_pipe server) (sv_user server), Pipe_Released (sv_pipe server), Library_Closed]"

definition bridge_main :: "'h bridge_handlers \<Rightarrow> 'h \<Rightarrow> bridge_start \<Rightarrow> u32 \<Rightarrow> bridge_turn list \<Rightarrow> (int \<times> main_event list) option" where
  "bridge_main hs h ev old_umask turns =
     (if ev_workdir ev \<noteq> None \<and> ev_workdir ev \<noteq> Some [] \<and> \<not> ev_chdir ev then Some (2, [])
      else
        let library = (case ev_argument ev of Some l \<Rightarrow> l | None \<Rightarrow> ''./steamrtarm64/steamclient-patched.so'');
            path = socket_path ev
        in
        if length path \<ge> 108 then Some (2, [])
        else if \<not> ev_dlopen ev then Some (2, [])
        else if \<not> ev_symbols ev then Some (2, [Library_Opened library])
        else
          let opened = [Library_Opened library] @ (if ev_pipe ev \<noteq> 0 then [Pipe_Created (ev_pipe ev)] else []) @
                       (if ev_pipe ev \<noteq> 0 \<and> ev_user ev \<noteq> 0 then [User_Connected (ev_pipe ev) (ev_user ev)] else [])
          in
          if ev_pipe ev = 0 \<or> ev_user ev = 0 then Some (1, opened @ [Library_Closed])
          else if \<not> ev_listener ev then Some (2, opened)
          else
            let removed = safe_remove_socket (ev_before ev) (ev_uid ev) (ev_before_unlink ev);
                opened = opened @ [Listener_Opened] @ removal path removed
            in
            if \<not> fst removed then Some (2, opened)
            else
              case bind_socket ev path old_umask of
                (bound, False) \<Rightarrow> Some (2, opened @ bound @ removal path (safe_remove_socket (ev_after ev) (ev_uid ev) (ev_after_unlink ev)))
              | (bound, True) \<Rightarrow>
                  map_option (\<lambda>(events, server). (0, opened @ bound @ [Ready] @ map Serving events @ shut_down hs ev path server))
                    (bridge_loop hs turns (initial_server ev h)))"

end
