(* ===== verification/Tgc_Bridge_Props.thy ===== *)
theory Tgc_Bridge_Props
  imports Tgc_Bridge_Server
begin

text \<open>
  Properties of the bridge's server: tickets are checked before they leave, callbacks are given back no more often than they were taken, every connection is closed and only
  the server's own user is answered, and a response repeats the header of its request.
\<close>

section \<open>Tickets\<close>

lemma range_valid_unat:
  "app_ticket_range_valid offset len whole \<longleftrightarrow> unat offset + unat len \<le> unat whole"
proof (cases "offset \<le> whole")
  case True
  then have "unat (whole - offset) = unat whole - unat offset" "unat offset \<le> unat whole" by (auto simp: unat_sub word_le_nat_alt)
  then show ?thesis using True by (auto simp: app_ticket_range_valid_def word_le_nat_alt)
next
  case False
  then show ?thesis by (auto simp: app_ticket_range_valid_def word_le_nat_alt)
qed

text \<open>What the checks of a ticket amount to.\<close>

definition ticket_checked :: "u32 \<Rightarrow> u64 \<Rightarrow> u32 \<Rightarrow> lsteam_bridge_app_ticket_response \<Rightarrow> bool" where
  "ticket_checked app_id steam_id capacity r \<longleftrightarrow>
     0 < unat (at_returned_size r) \<and> unat (at_returned_size r) \<le> unat capacity \<and> unat (at_returned_size r) \<le> LSTEAM_BRIDGE_MAX_TICKET \<and>
     unat (at_app_id_offset r) + 4 \<le> unat (at_returned_size r) \<and> unat (at_steam_id_offset r) + 8 \<le> unat (at_returned_size r) \<and>
     0 < unat (at_signature_size r) \<and> unat (at_signature_offset r) + unat (at_signature_size r) \<le> unat (at_returned_size r) \<and>
     le_word (take 4 (drop (unat (at_app_id_offset r)) (at_ticket r))) = app_id \<and>
     (steam_id = 0 \<or> le_word (take 8 (drop (unat (at_steam_id_offset r)) (at_ticket r))) = steam_id)"

lemma app_ticket_status_0:
  "app_ticket_status app_id steam_id (min capacity (of_nat LSTEAM_BRIDGE_MAX_TICKET)) r = 0 \<longleftrightarrow> ticket_checked app_id steam_id capacity r"
proof -
  have "at_returned_size r \<noteq> 0 \<longleftrightarrow> 0 < unat (at_returned_size r)" "at_signature_size r \<noteq> 0 \<longleftrightarrow> 0 < unat (at_signature_size r)"
    by (simp_all add: unat_gt_0)
  moreover have "\<not> at_returned_size r > min capacity (of_nat LSTEAM_BRIDGE_MAX_TICKET) \<and> \<not> at_returned_size r > of_nat LSTEAM_BRIDGE_MAX_TICKET \<longleftrightarrow>
      unat (at_returned_size r) \<le> unat capacity \<and> unat (at_returned_size r) \<le> LSTEAM_BRIDGE_MAX_TICKET"
    by (auto simp: not_less min_def word_le_nat_alt)
  ultimately show ?thesis
    unfolding app_ticket_status_def ticket_checked_def Let_def range_valid_unat by (simp split del: if_split split: if_split) blast
qed

text \<open>
  C17. A ticket leaves the server only when it was checked. On success the request decodes, the ticket fits the response, the application's number, the account's number and
  the signature lie inside the ticket, and the numbers read there are those of the request and of the session. On any failure neither bytes of a ticket nor offsets leave.
\<close>

theorem app_ticket_checked:
  assumes "get_app_ticket an packet request server = (r, server')"
  shows "if rp_status r = 0
    then \<exists>q. map_option decode_app_ticket_request (recv_struct (sizeof 8 16 app_ticket_request_members) packet) = Some q \<and> aq_app_id q \<noteq> 0 \<and>
      ticket_checked (aq_app_id q) (sv_steam_id server) (aq_capacity q) r
    else r = (stamp request blank_app_ticket_response)\<lparr>rp_status := rp_status r\<rparr>"
proof -
  define blank where "blank = stamp request blank_app_ticket_response"
  have blank: "finish_app_ticket (blank\<lparr>rp_status := e\<rparr>) = blank\<lparr>rp_status := e\<rparr>" for e
    by (simp add: finish_app_ticket_def blank_def stamp_def blank_app_ticket_response_def clear_app_ticket_def)
  have clear: "finish_app_ticket ((fill_app_ticket an c blank)\<lparr>rp_status := e\<rparr>) = blank\<lparr>rp_status := e\<rparr>" if "e \<noteq> 0" for c e
    using that
    by (simp add: finish_app_ticket_def fill_app_ticket_def blank_def stamp_def blank_app_ticket_response_def clear_app_ticket_def split: prod.split)
  have checked: "ticket_checked i s c (r\<lparr>rp_status := e\<rparr>) \<longleftrightarrow> ticket_checked i s c r" for i s c r e by (simp add: ticket_checked_def)
  show ?thesis
  proof (cases "map_option decode_app_ticket_request (recv_struct (sizeof 8 16 app_ticket_request_members) packet)")
    case None
    then show ?thesis using assms unfolding get_app_ticket_def blank_def [symmetric] None by (auto simp: blank)
  next
    case (Some q)
    let ?found = "sv_app_ticket_iface server \<or> sv_client server \<and> an_ticket_generic an \<or> an_ticket_created an"
    let ?cap = "min (aq_capacity q) (of_nat LSTEAM_BRIDGE_MAX_TICKET)"
    let ?r = "fill_app_ticket an ?cap blank"
    define st where "st = app_ticket_status (aq_app_id q) (sv_steam_id server) ?cap ?r"
    consider (bad) "aq_app_id q = 0 \<or> aq_capacity q = 0" | (missing) "\<not> (aq_app_id q = 0 \<or> aq_capacity q = 0)" "\<not> ?found"
      | (asked) "\<not> (aq_app_id q = 0 \<or> aq_capacity q = 0)" ?found by blast
    then show ?thesis
    proof cases
      case bad
      then show ?thesis using assms unfolding get_app_ticket_def blank_def [symmetric] Some by (auto simp: blank)
    next
      case missing
      then show ?thesis using assms unfolding get_app_ticket_def blank_def [symmetric] Some by (auto simp: blank Let_def)
    next
      case asked
      then have r: "r = finish_app_ticket (?r\<lparr>rp_status := st\<rparr>)"
        using assms unfolding get_app_ticket_def blank_def [symmetric] Some st_def by (auto simp: Let_def)
      show ?thesis
      proof (cases "st = 0")
        case True
        then have "ticket_checked (aq_app_id q) (sv_steam_id server) (aq_capacity q) ?r" unfolding st_def app_ticket_status_0 .
        moreover have "r = ?r\<lparr>rp_status := 0\<rparr>" using r True by (simp add: finish_app_ticket_def)
        ultimately show ?thesis using Some asked by (auto simp: checked)
      next
        case False
        then show ?thesis using r clear [OF False] by (simp add: blank_def)
      qed
    qed
  qed
qed

text \<open>A ticket of sixteen bytes: the application's number, the account's number and a signature of four bytes.\<close>

definition demo_ticket :: "u8 list" where
  "demo_ticket = le_bytes 4 (480 :: u32) @ le_bytes 8 (76561198000000001 :: u64) @ [1, 2, 3, 4]"

definition demo_answers :: steam_answers where
  "demo_answers = \<lparr>an_auth_ticket = (0, [], 0), an_ticket_generic = False, an_ticket_created = True, an_app_ticket = (16, demo_ticket, 0, 4, 12, 4),
     an_game_connection = (0, []), an_callbacks = [], an_api_results = [], an_logged_on = True, an_pid = 7, an_uid = 10001\<rparr>"

definition demo_server :: "unit bridge_server" where
  "demo_server = \<lparr>sv_pipe = 1, sv_user = 1, sv_steam_id = 76561198000000001, sv_client = True, sv_user_iface = True, sv_app_ticket_iface = False, sv_html = False,
     sv_game_server = \<lparr>gs_pipe = 0, gs_user = 0, gs_iface = False, gs_owns_handles = False\<rparr>, sv_callback_pipe = 0, sv_handlers = (), sv_running = True\<rparr>"

abbreviation bridge_request :: "u16 \<Rightarrow> lsteam_bridge_request" where
  "bridge_request opcode \<equiv> \<lparr>rq_magic = LSTEAM_BRIDGE_MAGIC, rq_version = LSTEAM_BRIDGE_VERSION, rq_opcode = opcode, rq_sequence = 1\<rparr>"

text \<open>Handlers that know no method.\<close>

definition demo_handlers :: "unit bridge_handlers" where
  "demo_handlers =
     \<lparr>hd_interface = \<lambda>opcode h g q r. (r\<lparr>rp_magic := LSTEAM_BRIDGE_MAGIC, rp_version := LSTEAM_BRIDGE_VERSION, rp_opcode := opcode, rp_status := - ENOSYS\<rparr>, g, h),
      hd_game_server = \<lambda>h g q r. (r\<lparr>rp_magic := LSTEAM_BRIDGE_MAGIC, rp_version := LSTEAM_BRIDGE_VERSION, rp_opcode := LSTEAM_BRIDGE_GAME_SERVER_CALL,
        rp_status := - ENOSYS\<rparr>, g, h),
      hd_voice = \<lambda>h q r. (r\<lparr>rp_magic := LSTEAM_BRIDGE_MAGIC, rp_version := LSTEAM_BRIDGE_VERSION, rp_opcode := LSTEAM_BRIDGE_VOICE_CALL, rp_status := - ENOSYS\<rparr>, h),
      hd_mm_request = \<lambda>h request q r. ((stamp request r)\<lparr>rp_status := - ENOSYS\<rparr>, h), hd_html_initialized = \<lambda>h. False,
      hd_mm_call = \<lambda>h request q r. ((stamp request r)\<lparr>rp_status := - ENOSYS\<rparr>, h)\<rparr>"

text \<open>A callback of the HTML interface, and one that is delivered.\<close>

definition html_callback :: native_callback_msg where
  "html_callback = \<lparr>nc_steam_user = 1, nc_callback_id = 4502, nc_data = None, nc_data_size = 8\<rparr>"

definition plain_callback :: native_callback_msg where
  "plain_callback = \<lparr>nc_steam_user = 1, nc_callback_id = 304, nc_data = Some [1, 2], nc_data_size = 2\<rparr>"

lemma demo_ticket_status:
  "rp_status (fst (get_app_ticket demo_answers (Some (encode_app_ticket_request \<lparr>aq_app_id = 480, aq_capacity = 2048\<rparr>))
     (bridge_request LSTEAM_BRIDGE_APP_TICKET_CALL) demo_server)) = 0"
proof -
  let ?blank = "stamp (bridge_request LSTEAM_BRIDGE_APP_TICKET_CALL) blank_app_ticket_response"
  have len: "length demo_ticket = 16" by (simp add: demo_ticket_def)
  have ticket: "at_ticket (fill_app_ticket demo_answers 2048 ?blank) = demo_ticket @ replicate 2032 0"
    by (simp add: fill_app_ticket_def demo_answers_def stamp_def blank_app_ticket_response_def store_bytes_def zeroes_def len)
  have "(le_word (take 4 (drop 0 (demo_ticket @ replicate 2032 0))) :: u32) = 480"
    "(le_word (take 8 (drop 4 (demo_ticket @ replicate 2032 0))) :: u64) = 76561198000000001"
    by (simp_all add: demo_ticket_def)
  then have "ticket_checked 480 76561198000000001 2048 (fill_app_ticket demo_answers 2048 ?blank)"
    unfolding ticket_checked_def ticket
    by (simp add: fill_app_ticket_def demo_answers_def)
  then have "app_ticket_status 480 76561198000000001 (min 2048 (of_nat LSTEAM_BRIDGE_MAX_TICKET)) (fill_app_ticket demo_answers 2048 ?blank) = 0"
    by (subst app_ticket_status_0)
  then show ?thesis
    unfolding get_app_ticket_def app_ticket_request_msg.received_decoded [OF TrueI] option.case
    by (simp add: demo_server_def finish_app_ticket_def demo_answers_def)
qed

theorem app_ticket_checked_witness:
  "\<exists>r server' (q :: lsteam_bridge_app_ticket_request). get_app_ticket demo_answers (Some (encode_app_ticket_request \<lparr>aq_app_id = 480, aq_capacity = 2048\<rparr>))
     (bridge_request LSTEAM_BRIDGE_APP_TICKET_CALL) demo_server = (r, server') \<and> rp_status r = 0 \<and>
     ticket_checked (aq_app_id q) (sv_steam_id demo_server) (aq_capacity q) r"
proof -
  obtain r server' where g: "get_app_ticket demo_answers (Some (encode_app_ticket_request \<lparr>aq_app_id = 480, aq_capacity = 2048\<rparr>))
      (bridge_request LSTEAM_BRIDGE_APP_TICKET_CALL) demo_server = (r, server')" by (metis surj_pair)
  then have st: "rp_status r = 0" using demo_ticket_status by simp
  obtain q :: lsteam_bridge_app_ticket_request where "ticket_checked (aq_app_id q) (sv_steam_id demo_server) (aq_capacity q) r" using app_ticket_checked [OF g] unfolding if_P [OF st] by blast
  with g st show ?thesis by blast
qed

section \<open>Callbacks\<close>

text \<open>How many callbacks of each pipe are held after a list of calls; \<open>None\<close> when one is given back that was not held.\<close>

fun held :: "(s32 \<Rightarrow> nat) \<Rightarrow> steam_event list \<Rightarrow> (s32 \<Rightarrow> nat) option" where
  "held m [] = Some m"
| "held m (Callback_Taken p # es) = held (m(p := Suc (m p))) es"
| "held m (Callback_Freed p # es) = (if m p = 0 then None else held (m(p := m p - 1)) es)"

lemma held_append: "held m (es @ fs) = Option.bind (held m es) (\<lambda>m. held m fs)"
  by (induction m es rule: held.induct) (auto simp: fun_upd_def)

text \<open>The callback of the remembered pipe is held.\<close>

definition pipe_held :: "s32 \<Rightarrow> (s32 \<Rightarrow> nat) \<Rightarrow> bool" where
  "pipe_held p m \<longleftrightarrow> p = 0 \<or> 0 < m p"

lemma poll_callback_cases:
  assumes "poll_callback pipe server_pipe answers cp = (found, rest, events, cp')"
  obtains (None) "found = None" "events = []" "cp' = cp"
    | (Some) c q where "found = Some c" "events = [Callback_Taken q]" "cp' = q" "q = pipe \<or> q = server_pipe \<and> server_pipe \<noteq> 0"
  using assms by (auto simp: poll_callback_def next_answer_def split: option.splits prod.splits if_splits list.splits)

lemma callback_loop_held:
  assumes "callback_loop n pipe server_pipe answers cp = (found, events, cp')" "pipe \<noteq> 0" "pipe_held cp m"
  shows "\<exists>m'. held m events = Some m' \<and> pipe_held cp' m' \<and> (found \<noteq> None \<longrightarrow> cp' \<noteq> 0) \<and>
    (\<forall>c call. found = Some (c, call) \<longrightarrow> \<not> is_html_callback c)"
  using assms
proof (induction n pipe server_pipe answers cp arbitrary: found events cp' m rule: callback_loop.induct)
  case (1 pipe server_pipe answers cp)
  then show ?case by auto
next
  case (2 n pipe server_pipe answers cp)
  obtain f rest es cp1 where poll: "poll_callback pipe server_pipe answers cp = (f, rest, es, cp1)" by (metis prod_cases4)
  show ?case
  proof (rule poll_callback_cases [OF poll])
    assume "f = None" "es = []" "cp1 = cp"
    then show ?thesis using "2.prems" poll by auto
  next
    fix c q assume c: "f = Some c" "es = [Callback_Taken q]" "cp1 = q" "q = pipe \<or> q = server_pipe \<and> server_pipe \<noteq> 0"
    obtain msg call where msg: "c = (msg, call)" by (cases c)
    show ?thesis
    proof (cases "is_html_callback msg")
      case False
      then show ?thesis using "2.prems" poll c msg by (auto simp: pipe_held_def)
    next
      case True
      obtain found' later cp2 where loop: "callback_loop n pipe server_pipe rest 0 = (found', later, cp2)" by (metis prod_cases3)
      have ev: "found = found'" "events = Callback_Taken q # Callback_Freed q # later" "cp' = cp2"
        using "2.prems"(1) poll c msg True loop by auto
      have "\<exists>m'. held m later = Some m' \<and> pipe_held cp2 m' \<and> (found' \<noteq> None \<longrightarrow> cp2 \<noteq> 0) \<and> (\<forall>c call. found' = Some (c, call) \<longrightarrow> \<not> is_html_callback c)"
        using "2.IH" [OF poll [symmetric] c(1) msg [symmetric] refl refl _ loop] "2.prems"(2) True c by (auto simp: pipe_held_def)
      then show ?thesis using ev by simp
    qed
  qed
qed

lemma get_callback_held:
  assumes "get_callback an request server = (r, events, server')" "sv_pipe server \<noteq> 0" "pipe_held (sv_callback_pipe server) m"
  shows "\<exists>m'. held m events = Some m' \<and> pipe_held (sv_callback_pipe server') m'"
proof -
  obtain found es cp where loop: "callback_loop 32 (sv_pipe server) (gs_pipe (sv_game_server server)) (an_callbacks an) (sv_callback_pipe server) = (found, es, cp)"
    by (metis prod_cases3)
  obtain m' where m': "held m es = Some m'" "pipe_held cp m'" "found \<noteq> None \<longrightarrow> cp \<noteq> 0" using callback_loop_held [OF loop assms(2,3)] by blast
  show ?thesis
  proof (cases found)
    case None
    then show ?thesis using assms(1) m' loop by (auto simp: get_callback_def)
  next
    case (Some c)
    then have "0 < m' cp" using m' by (auto simp: pipe_held_def)
    then show ?thesis using assms(1) m' loop Some
      by (auto simp: get_callback_def held_append pipe_held_def Let_def split: prod.splits if_splits)
  qed
qed

lemma free_callback_held:
  assumes "free_callback request server = (r, events, server')" "pipe_held (sv_callback_pipe server) m"
  shows "\<exists>m'. held m events = Some m' \<and> pipe_held (sv_callback_pipe server') m'"
  using assms by (auto simp: free_callback_def pipe_held_def Let_def split: if_splits)

lemmas serve_defs = serve_request_def serve_game_server_def serve_voice_def serve_interface_def serve_matchmaking_def serve_status_def get_app_ticket_def

text \<open>The calls with callbacks in a log, the messages sent, and what a client receives that waits for one message until the connection is closed.\<close>

fun steam_events :: "bridge_event list \<Rightarrow> steam_event list" where
  "steam_events [] = []"
| "steam_events (Steam e # es) = e # steam_events es"
| "steam_events (_ # es) = steam_events es"

lemma steam_events_append [simp]: "steam_events (es @ fs) = steam_events es @ steam_events fs"
  by (induction es rule: steam_events.induct) auto

lemma steam_events_Steam [simp]: "steam_events (map Steam es) = es"
  by (induction es) auto

fun sent_replies :: "bridge_event list \<Rightarrow> u8 list list" where
  "sent_replies [] = []"
| "sent_replies (Sent bytes # es) = bytes # sent_replies es"
| "sent_replies (_ # es) = sent_replies es"

lemma sent_replies_append [simp]: "sent_replies (es @ fs) = sent_replies es @ sent_replies fs"
  by (induction es rule: sent_replies.induct) auto

lemma sent_replies_Steam [simp]: "sent_replies (map Steam es) = []"
  by (induction es) auto

definition received_reply :: "bridge_event list \<Rightarrow> u8 list option" where
  "received_reply events = (case sent_replies events of [] \<Rightarrow> None | bytes # _ \<Rightarrow> Some bytes)"

lemma serve_request_pipe:
  assumes "serve_request hs an packet request server = (events, continued, server')"
  shows "sv_pipe server' = sv_pipe server"
  using assms
  by (simp add: serve_defs get_callback_def free_callback_def Let_def split: if_splits option.splits prod.splits) auto

lemma serve_request_held:
  assumes "serve_request hs an packet request server = (events, continued, server')" "sv_pipe server \<noteq> 0" "pipe_held (sv_callback_pipe server) m"
  shows "\<exists>m'. held m (steam_events events) = Some m' \<and> pipe_held (sv_callback_pipe server') m'"
proof -
  consider (get) "rq_opcode request = LSTEAM_BRIDGE_GET_CALLBACK" | (free) "rq_opcode request = LSTEAM_BRIDGE_FREE_CALLBACK"
    | (other) "rq_opcode request \<noteq> LSTEAM_BRIDGE_GET_CALLBACK" "rq_opcode request \<noteq> LSTEAM_BRIDGE_FREE_CALLBACK" by blast
  then show ?thesis
  proof cases
    case get
    then show ?thesis using assms get_callback_held by (auto simp: serve_request_def interface_opcodes_def split: prod.splits)
  next
    case free
    then show ?thesis using assms free_callback_held by (auto simp: serve_request_def interface_opcodes_def split: prod.splits)
  next
    case other
    then have "steam_events events = []" "sv_callback_pipe server' = sv_callback_pipe server"
      using assms(1) by (simp_all add: serve_defs Let_def split: if_splits option.splits prod.splits) auto
    then show ?thesis using assms(3) by simp
  qed
qed

lemma serve_connection_held:
  assumes "serve_connection hs an cn server = (events, server')" "sv_pipe server \<noteq> 0" "pipe_held (sv_callback_pipe server) m"
  shows "\<exists>m'. held m (steam_events events) = Some m' \<and> pipe_held (sv_callback_pipe server') m' \<and> sv_pipe server' = sv_pipe server"
proof (cases "events = [Accepted, Closed] \<and> server' = server")
  case True
  then show ?thesis using assms by simp
next
  case False
  then obtain request es continued where s: "serve_request hs an (cn_second cn) request server = (es, continued, server')"
      "events = Accepted # es @ (if continued then [] else [Closed])"
    using assms(1) by (auto simp: serve_connection_def Let_def split: option.splits if_splits prod.splits)
  then show ?thesis using serve_request_held [OF s(1) assms(2,3)] serve_request_pipe [OF s(1)] by auto
qed

text \<open>
  C18. While the server runs, whatever requests arrive and whatever the library answers, it never gives a callback back that it does not hold: on every pipe,
  at every moment, no more callbacks were freed than taken. The pipe it remembers for the next free always has a callback to free.
\<close>

theorem callbacks_balanced:
  assumes "bridge_loop hs turns server = Some (events, server')" "sv_pipe server \<noteq> 0" "pipe_held (sv_callback_pipe server) m"
  shows "\<exists>m'. held m (steam_events events) = Some m' \<and> pipe_held (sv_callback_pipe server') m'"
  using assms
proof (induction turns arbitrary: server events m)
  case Nil
  then show ?case by (auto split: if_splits)
next
  case (Cons turn turns)
  show ?case
  proof (cases "sv_running server")
    case False
    then show ?thesis using Cons.prems by auto
  next
    case running: True
    show ?thesis
    proof (cases turn)
      case Stop_Signal
      then obtain later where later: "bridge_loop hs turns (server\<lparr>sv_running := False\<rparr>) = Some (later, server')" and ev: "steam_events events = steam_events later"
        using Cons.prems(1) running by (auto simp: Let_def)
      then show ?thesis using Cons.IH [OF later] Cons.prems(2,3) by simp
    next
      case (Connection cn an)
      obtain es server1 where c: "serve_connection hs an cn server = (es, server1)" by (metis surj_pair)
      then obtain later where later: "bridge_loop hs turns server1 = Some (later, server')" and ev: "steam_events events = steam_events es @ steam_events later"
        using Cons.prems(1) running Connection by (auto simp: Let_def)
      obtain m1 where m1: "held m (steam_events es) = Some m1" "pipe_held (sv_callback_pipe server1) m1" "sv_pipe server1 = sv_pipe server"
        using serve_connection_held [OF c Cons.prems(2,3)] by blast
      then show ?thesis using Cons.IH [OF later _ m1(2)] Cons.prems(2) ev by (simp add: held_append)
    qed (use Cons running in \<open>auto simp: Let_def\<close>)
  qed
qed

lemma demo_callback_loop:
  "callback_loop (Suc (Suc n)) 1 0 [Some (html_callback, 0), Some (plain_callback, 9)] cp =
     (Some (plain_callback, 9), [Callback_Taken 1, Callback_Freed 1, Callback_Taken 1], 1)"
  by (simp add: poll_callback_def next_answer_def is_html_callback_def html_callback_def plain_callback_def)

lemma demo_get_callback:
  assumes "an_callbacks an = [Some (html_callback, 0), Some (plain_callback, 9)]"
  shows "\<exists>r. get_callback an request demo_server = (r, [Callback_Taken 1, Callback_Freed 1, Callback_Taken 1], demo_server\<lparr>sv_callback_pipe := 1\<rparr>) \<and>
    rp_status r = 0 \<and> cb_callback_id r = 304"
proof -
  have "callback_loop 32 (sv_pipe demo_server) (gs_pipe (sv_game_server demo_server)) (an_callbacks an) (sv_callback_pipe demo_server) =
      (Some (plain_callback, 9), [Callback_Taken 1, Callback_Freed 1, Callback_Taken 1], 1)"
    using demo_callback_loop [of 30 0] assms by (simp add: demo_server_def)
  then show ?thesis unfolding get_callback_def by (simp add: plain_callback_def stamp_def blank_callback_response_def)
qed

definition demo_connection :: "u16 \<Rightarrow> bridge_connection" where
  "demo_connection opcode = \<lparr>cn_uid = Some 10001, cn_first = Some (encode_request (bridge_request opcode)), cn_second = None\<rparr>"

lemma serve_demo_connection:
  "an_uid an = 10001 \<Longrightarrow> serve_connection hs an (demo_connection opcode) server =
     (case serve_request hs an None (bridge_request opcode) server of (events, continued, server) \<Rightarrow> (Accepted # events @ (if continued then [] else [Closed]), server))"
  unfolding serve_connection_def demo_connection_def bridge_connection.simps request_msg.received_decoded [OF TrueI] by simp

theorem callbacks_balanced_witness:
  "\<exists>events server' m'. bridge_loop demo_handlers
       [Connection (demo_connection LSTEAM_BRIDGE_GET_CALLBACK) (demo_answers\<lparr>an_callbacks := [Some (html_callback, 0), Some (plain_callback, 9)]\<rparr>), Poll_Failed]
       demo_server = Some (events, server') \<and>
     steam_events events = [Callback_Taken 1, Callback_Freed 1, Callback_Taken 1] \<and> sv_callback_pipe server' = 1 \<and>
     held (\<lambda>_. 0) (steam_events events) = Some m' \<and> pipe_held (sv_callback_pipe server') m'"
proof -
  let ?an = "demo_answers\<lparr>an_callbacks := [Some (html_callback, 0), Some (plain_callback, 9)]\<rparr>"
  obtain r where "get_callback ?an (bridge_request LSTEAM_BRIDGE_GET_CALLBACK) demo_server =
      (r, [Callback_Taken 1, Callback_Freed 1, Callback_Taken 1], demo_server\<lparr>sv_callback_pipe := 1\<rparr>)"
    using demo_get_callback [of ?an "bridge_request LSTEAM_BRIDGE_GET_CALLBACK"] by auto
  then have s: "serve_connection demo_handlers ?an (demo_connection LSTEAM_BRIDGE_GET_CALLBACK) demo_server =
      (Accepted # map Steam [Callback_Taken 1, Callback_Freed 1, Callback_Taken 1] @ [Sent (encode_callback_response r), Closed], demo_server\<lparr>sv_callback_pipe := 1\<rparr>)"
    by (simp add: serve_demo_connection demo_answers_def serve_request_def interface_opcodes_def)
  have run: "sv_running demo_server" "sv_client demo_server" "sv_pipe demo_server \<noteq> 0" "pipe_held (sv_callback_pipe demo_server) (\<lambda>_. 0)"
    by (simp_all add: demo_server_def pipe_held_def)
  then obtain events where loop: "bridge_loop demo_handlers [Connection (demo_connection LSTEAM_BRIDGE_GET_CALLBACK) ?an, Poll_Failed] demo_server =
      Some (events, demo_server\<lparr>sv_callback_pipe := 1\<rparr>)" and ev: "steam_events events = [Callback_Taken 1, Callback_Freed 1, Callback_Taken 1]"
    using s by (auto simp: Let_def)
  from callbacks_balanced [OF loop run(3,4)] loop ev show ?thesis by (metis bridge_server.select_convs(9) bridge_server.update_convs(9) bridge_server.surjective)
qed

text \<open>From a state without a remembered pipe the loop leaves exactly the callback it delivers.\<close>

lemma callback_loop_exact:
  assumes "callback_loop n pipe server_pipe answers 0 = (found, events, cp')" "pipe \<noteq> 0"
  shows "held m events = Some (if cp' = 0 then m else m(cp' := Suc (m cp'))) \<and> (found = None \<longleftrightarrow> cp' = 0)"
  using assms
proof (induction n arbitrary: answers found events m)
  case 0
  then show ?case by auto
next
  case (Suc n)
  obtain f rest es cp1 where poll: "poll_callback pipe server_pipe answers 0 = (f, rest, es, cp1)" by (metis prod_cases4)
  show ?case
  proof (rule poll_callback_cases [OF poll])
    assume "f = None" "es = []" "cp1 = 0"
    then show ?thesis using Suc.prems poll by auto
  next
    fix c q assume c: "f = Some c" "es = [Callback_Taken q]" "cp1 = q" "q = pipe \<or> q = server_pipe \<and> server_pipe \<noteq> 0"
    obtain msg call where msg: "c = (msg, call)" by (cases c)
    obtain found' later cp2 where loop: "callback_loop n pipe server_pipe rest 0 = (found', later, cp2)" by (metis prod_cases3)
    show ?thesis
    proof (cases "is_html_callback msg")
      case False
      then show ?thesis using Suc.prems poll c msg by (auto simp: fun_upd_def)
    next
      case True
      then have ev: "found = found'" "events = Callback_Taken q # Callback_Freed q # later" "cp' = cp2" using Suc.prems(1) poll c msg loop by auto
      show ?thesis using Suc.IH [of rest found' later m] loop Suc.prems(2) ev by simp
    qed
  qed
qed

text \<open>
  Taking a callback and then freeing it leaves nothing behind: starting with no callback outstanding, the two requests give back every callback they took, those of the HTML
  interface included. A callback that is delivered is never one of the HTML interface, which hold pointers of the server, and its data fits the response.
\<close>

theorem callback_delivery:
  assumes "get_callback an request server = (r, events, server1)" "free_callback request' server1 = (r', events', server2)"
    and "sv_pipe server \<noteq> 0" "sv_callback_pipe server = 0"
  shows "held m (events @ events') = Some m \<and> sv_callback_pipe server2 = 0 \<and>
    (rp_status r = 0 \<longrightarrow> (sint (cb_callback_id r) < 4502 \<or> 4527 < sint (cb_callback_id r)) \<and> unat (cb_data_size r) \<le> LSTEAM_BRIDGE_MAX_CALLBACK \<and> rp_status r' = 0) \<and>
    (rp_status r \<noteq> 0 \<longrightarrow> r = (stamp request blank_callback_response)\<lparr>rp_status := rp_status r\<rparr> \<and> rp_status r' = - ENOENT)"
proof -
  obtain found es cp where loop: "callback_loop 32 (sv_pipe server) (gs_pipe (sv_game_server server)) (an_callbacks an) 0 = (found, es, cp)"
    by (metis prod_cases3)
  note ex = callback_loop_exact [OF loop assms(3), of m]
  have html: "\<not> is_html_callback c" if "found = Some (c, call)" for c call
    using callback_loop_held [OF loop assms(3), of m] that by (auto simp: pipe_held_def)
  show ?thesis
  proof (cases found)
    case None
    then show ?thesis using assms ex loop by (auto simp: get_callback_def free_callback_def Let_def stamp_def)
  next
    case (Some c)
    obtain msg call where msg: "c = (msg, call)" by (cases c)
    have cp: "cp \<noteq> 0" "held m es = Some (m(cp := Suc (m cp)))" using ex Some by auto
    show ?thesis
    proof (cases "sint (nc_data_size msg) < 0 \<or> unat (nc_data_size msg) > LSTEAM_BRIDGE_MAX_CALLBACK \<or> nc_data_size msg \<noteq> 0 \<and> nc_data msg = None")
      case True
      then have "r = (stamp request blank_callback_response)\<lparr>rp_status := - EOVERFLOW\<rparr>" "events = es @ [Callback_Freed cp]" "sv_callback_pipe server1 = 0"
        using assms(1,4) loop Some msg unfolding get_callback_def by (auto simp: Let_def)
      then show ?thesis using assms(2) cp by (auto simp: free_callback_def Let_def held_append stamp_def)
    next
      case False
      then have "cb_callback_id r = nc_callback_id msg" "cb_data_size r = nc_data_size msg" "rp_status r = 0" "events = es" "sv_callback_pipe server1 = cp"
        using assms(1,4) loop Some msg unfolding get_callback_def by (auto simp: Let_def stamp_def blank_callback_response_def)
      then show ?thesis using assms(2) cp False html [of msg call] Some msg
        by (auto simp: free_callback_def Let_def held_append is_html_callback_def)
    qed
  qed
qed

theorem callback_delivery_witness:
  "\<exists>r events server1 r' events' server2.
     get_callback (demo_answers\<lparr>an_callbacks := [Some (html_callback, 0), Some (plain_callback, 9)]\<rparr>) (bridge_request LSTEAM_BRIDGE_GET_CALLBACK) demo_server =
       (r, events, server1) \<and>
     free_callback (bridge_request LSTEAM_BRIDGE_FREE_CALLBACK) server1 = (r', events', server2) \<and>
     rp_status r = 0 \<and> cb_callback_id r = 304 \<and> rp_status r' = 0 \<and> held (\<lambda>_. 0) (events @ events') = Some (\<lambda>_. 0) \<and> sv_callback_pipe server2 = 0"
proof -
  obtain r events server1 where g: "get_callback (demo_answers\<lparr>an_callbacks := [Some (html_callback, 0), Some (plain_callback, 9)]\<rparr>)
      (bridge_request LSTEAM_BRIDGE_GET_CALLBACK) demo_server = (r, events, server1)" "rp_status r = 0" "cb_callback_id r = 304"
    using demo_get_callback [of "demo_answers\<lparr>an_callbacks := [Some (html_callback, 0), Some (plain_callback, 9)]\<rparr>" "bridge_request LSTEAM_BRIDGE_GET_CALLBACK"] by auto
  obtain r' events' server2 where f: "free_callback (bridge_request LSTEAM_BRIDGE_FREE_CALLBACK) server1 = (r', events', server2)" by (metis prod_cases3)
  have "sv_pipe demo_server \<noteq> 0" "sv_callback_pipe demo_server = 0" by (simp_all add: demo_server_def)
  from callback_delivery [OF g(1) f this, of "\<lambda>_. 0"] g f show ?thesis by blast
qed

text \<open>
  Without the free in between a callback is lost: after two deliveries, from the user's pipe and from the game server's, both free requests that follow give back only the
  second callback, and the second of them fails.
\<close>

theorem second_delivery_loses_callback:
  assumes "sv_pipe server = 1" "gs_pipe (sv_game_server server) = 2" "sv_callback_pipe server = 0"
    and "an_callbacks an = [Some (plain_callback, 0)]" "an_callbacks an' = [None, Some (plain_callback, 0)]"
    and "get_callback an request server = (r1, events1, server1)" "get_callback an' request server1 = (r2, events2, server2)"
    and "free_callback request server2 = (r3, events3, server3)" "free_callback request server3 = (r4, events4, server4)"
  shows "rp_status r1 = 0 \<and> rp_status r2 = 0 \<and> rp_status r3 = 0 \<and> rp_status r4 = - ENOENT \<and>
    held (\<lambda>_. 0) (events1 @ events2 @ events3 @ events4) = Some ((\<lambda>_. 0)(1 := 1))"
proof -
  have loop: "callback_loop (Suc n) 1 2 [Some (plain_callback, 0)] cp = (Some (plain_callback, 0), [Callback_Taken 1], 1)"
    "callback_loop (Suc n) 1 2 [None, Some (plain_callback, 0)] cp = (Some (plain_callback, 0), [Callback_Taken 2], 2)" for n cp
    by (simp_all add: poll_callback_def next_answer_def is_html_callback_def plain_callback_def)
  have g1: "rp_status r1 = 0" "events1 = [Callback_Taken 1]" "server1 = server\<lparr>sv_callback_pipe := 1\<rparr>"
    using assms(6) loop(1) [of 31] assms(1-4) by (auto simp: get_callback_def plain_callback_def Let_def stamp_def blank_callback_response_def)
  have g2: "rp_status r2 = 0" "events2 = [Callback_Taken 2]" "server2 = server1\<lparr>sv_callback_pipe := 2\<rparr>"
    using assms(7) loop(2) [of 31] assms(1-5) g1(3) by (auto simp: get_callback_def plain_callback_def Let_def stamp_def blank_callback_response_def)
  show ?thesis using assms(8,9) g1 g2 by (auto simp: free_callback_def Let_def fun_eq_iff)
qed

text \<open>
  The size the library reports for a session ticket is passed on unchecked, unlike that of an application's ticket: it can exceed the ticket that is sent.
\<close>

theorem auth_ticket_size_unchecked:
  assumes "an_auth_ticket an = (1, bytes, 4096)"
  shows "rp_status (get_auth_ticket True an request) = 0 \<and> tk_ticket_size (get_auth_ticket True an request) = 4096 \<and>
    length (tk_ticket (get_auth_ticket True an request)) = 2048"
  using assms by (simp add: get_auth_ticket_def stamp_def blank_ticket_response_def)

section \<open>Headers of responses\<close>

definition stamped :: "u16 \<Rightarrow> u32 \<Rightarrow> 'a bridge_reply_scheme \<Rightarrow> bool" where
  "stamped opcode sequence r \<longleftrightarrow>
     rp_magic r = LSTEAM_BRIDGE_MAGIC \<and> rp_version r = LSTEAM_BRIDGE_VERSION \<and> rp_opcode r = opcode \<and> rp_sequence r = sequence"

text \<open>What every handler of an interface does: it writes magic number, version and opcode, leaves the sequence number, and keeps the size of the data.\<close>

definition handlers_ok :: "'h bridge_handlers \<Rightarrow> bool" where
  "handlers_ok hs \<longleftrightarrow>
     (\<forall>opcode \<in> set interface_opcodes. \<forall>h g q r. game_server_response_ok r \<longrightarrow>
        stamped opcode (rp_sequence r) (fst (hd_interface hs opcode h g q r)) \<and> game_server_response_ok (fst (hd_interface hs opcode h g q r))) \<and>
     (\<forall>h g q r. game_server_response_ok r \<longrightarrow>
        stamped LSTEAM_BRIDGE_GAME_SERVER_CALL (rp_sequence r) (fst (hd_game_server hs h g q r)) \<and> game_server_response_ok (fst (hd_game_server hs h g q r))) \<and>
     (\<forall>h q r. voice_response_ok r \<longrightarrow> stamped LSTEAM_BRIDGE_VOICE_CALL (rp_sequence r) (fst (hd_voice hs h q r)) \<and> voice_response_ok (fst (hd_voice hs h q r))) \<and>
     (\<forall>h request q r. mm_response_ok r \<longrightarrow>
        stamped (rq_opcode request) (rq_sequence request) (fst (hd_mm_request hs h request q r)) \<and> mm_response_ok (fst (hd_mm_request hs h request q r)) \<and>
        stamped (rq_opcode request) (rq_sequence request) (fst (hd_mm_call hs h request q r)) \<and> mm_response_ok (fst (hd_mm_call hs h request q r)))"

text \<open>The size of the response to a request.\<close>

definition reply_size :: "u16 \<Rightarrow> nat" where
  "reply_size opcode =
     (if opcode = LSTEAM_BRIDGE_GET_AUTH_TICKET then sizeof 8 16 ticket_response_members
      else if opcode = LSTEAM_BRIDGE_APP_TICKET_CALL then sizeof 8 16 app_ticket_response_members
      else if opcode = LSTEAM_BRIDGE_INIT_GAME_CONNECTION then sizeof 8 16 blob_response_members
      else if opcode = LSTEAM_BRIDGE_VOICE_CALL then sizeof 8 16 voice_response_members
      else if opcode = LSTEAM_BRIDGE_GAME_SERVER_CALL \<or> opcode \<in> set interface_opcodes then sizeof 8 16 game_server_response_members
      else if opcode = LSTEAM_BRIDGE_MATCHMAKING_REQUEST \<or> opcode = LSTEAM_BRIDGE_MATCHMAKING_CALL then sizeof 8 16 mm_response_members
      else if opcode = LSTEAM_BRIDGE_GET_CALLBACK then sizeof 8 16 callback_response_members
      else if opcode = LSTEAM_BRIDGE_GET_API_CALL_RESULT then sizeof 8 16 api_call_response_members
      else sizeof 8 16 response_members)"

lemma header_of_reply:
  assumes "stamped opcode sequence r"
  shows "take 12 (pack_struct 8 16 (reply_members @ ms) (reply_chunks r @ cs)) = encode_request
    \<lparr>rq_magic = LSTEAM_BRIDGE_MAGIC, rq_version = LSTEAM_BRIDGE_VERSION, rq_opcode = opcode, rq_sequence = sequence\<rparr>"
  using assms
  by (simp add: pack_struct_def reply_members_def reply_chunks_def align_up_def stamped_def encode_request_def request_members_def sizeof_def)

lemma header_of_request:
  "rq_magic request = LSTEAM_BRIDGE_MAGIC \<Longrightarrow> rq_version request = LSTEAM_BRIDGE_VERSION \<Longrightarrow>
   stamped (rq_opcode request) (rq_sequence request) r \<Longrightarrow> take 12 (pack_struct 8 16 (reply_members @ ms) (reply_chunks r @ cs)) = encode_request request"
  using header_of_reply [of "rq_opcode request" "rq_sequence request" r ms cs] by (cases request) simp

lemmas encode_reply_defs = encode_response_def response_members_def encode_ticket_response_def ticket_response_members_def encode_app_ticket_response_def
  app_ticket_response_members_def encode_blob_response_def blob_response_members_def encode_callback_response_def callback_response_members_def
  encode_api_call_response_def api_call_response_members_def encode_mm_response_def mm_response_members_def encode_game_server_response_def
  game_server_response_members_def encode_voice_response_def voice_response_members_def

lemmas blank_defs = blank_response_def blank_ticket_response_def blank_app_ticket_response_def blank_blob_response_def blank_callback_response_def
  blank_api_call_response_def blank_mm_response_def blank_game_server_response_def blank_voice_response_def

lemma stamp_stamped [simp]: "stamped (rq_opcode request) (rq_sequence request) (stamp request r)"
  by (simp add: stamped_def stamp_def)

lemma stamped_update [simp]: "stamped opcode sequence (r\<lparr>rp_status := e\<rparr>) = stamped opcode sequence r"
  by (simp add: stamped_def)

lemma auth_ticket_reply:
  "stamped (rq_opcode request) (rq_sequence request) (get_auth_ticket iface an request) \<and> ticket_response_ok (get_auth_ticket iface an request)"
  by (simp add: get_auth_ticket_def stamped_def stamp_def blank_defs ticket_response_ok_def Let_def split: prod.split)

lemma app_ticket_steps [simp]:
  "stamped opcode sequence (finish_app_ticket r) = stamped opcode sequence r" "app_ticket_response_ok (finish_app_ticket r) = app_ticket_response_ok r"
  "stamped opcode sequence (fill_app_ticket an c r) = stamped opcode sequence r" "app_ticket_response_ok (fill_app_ticket an c r) = app_ticket_response_ok r"
  "app_ticket_response_ok (r\<lparr>rp_status := e\<rparr>) = app_ticket_response_ok r"
  by (simp_all add: stamped_def finish_app_ticket_def clear_app_ticket_def fill_app_ticket_def app_ticket_response_ok_def split: prod.split)

lemma app_ticket_reply:
  assumes "get_app_ticket an packet request server = (r, server')"
  shows "stamped (rq_opcode request) (rq_sequence request) r \<and> app_ticket_response_ok r"
proof -
  have "app_ticket_response_ok (stamp request blank_app_ticket_response)" by (simp add: app_ticket_response_ok_def stamp_def blank_defs)
  then show ?thesis using assms by (auto simp: get_app_ticket_def Let_def split: option.splits if_splits)
qed

lemma game_connection_reply:
  "stamped (rq_opcode request) (rq_sequence request) (init_game_connection an packet request iface) \<and> blob_response_ok (init_game_connection an packet request iface)"
  by (simp add: init_game_connection_def stamped_def stamp_def blank_defs blob_response_ok_def Let_def split: prod.split option.split)

lemma get_callback_reply:
  assumes "get_callback an request server = (r, events, server')"
  shows "stamped (rq_opcode request) (rq_sequence request) r \<and> callback_response_ok r"
  using assms by (auto simp: get_callback_def Let_def stamped_def stamp_def blank_defs callback_response_ok_def split: prod.splits option.splits if_splits)

lemma api_call_reply:
  "stamped (rq_opcode request) (rq_sequence request) (get_api_call_result an packet request server) \<and>
   api_call_response_ok (get_api_call_result an packet request server)"
  unfolding get_api_call_result_def Let_def
  by (auto simp: stamped_def stamp_def blank_defs api_call_response_ok_def split: prod.split option.split)

lemma blank_ok:
  "game_server_response_ok (blank_game_server_response\<lparr>rp_sequence := n\<rparr>)" "voice_response_ok (blank_voice_response\<lparr>rp_sequence := n\<rparr>)" "mm_response_ok blank_mm_response"
  "rp_sequence (blank_game_server_response\<lparr>rp_sequence := n\<rparr>) = n" "rp_sequence (blank_voice_response\<lparr>rp_sequence := n\<rparr>) = n"
  by (simp_all add: blank_defs game_server_response_ok_def voice_response_ok_def mm_response_ok_def)

lemma stamp_ok:
  "game_server_response_ok ((stamp request r)\<lparr>rp_status := e\<rparr>) = game_server_response_ok r"
  "voice_response_ok ((stamp request v)\<lparr>rp_status := e\<rparr>) = voice_response_ok v"
  "mm_response_ok ((stamp request w)\<lparr>rp_status := e\<rparr>) = mm_response_ok w"
  by (simp_all add: stamp_def game_server_response_ok_def voice_response_ok_def mm_response_ok_def)

lemma game_server_reply:
  assumes "handlers_ok hs" "serve_game_server hs packet request server = (r, server')" "rq_opcode request = LSTEAM_BRIDGE_GAME_SERVER_CALL"
  shows "stamped (rq_opcode request) (rq_sequence request) r \<and> game_server_response_ok r"
proof -
  have h: "stamped (rq_opcode request) (rp_sequence r) (fst (hd_game_server hs h g q r)) \<and> game_server_response_ok (fst (hd_game_server hs h g q r))"
    if "game_server_response_ok r" for h g q r using assms(1) that unfolding handlers_ok_def assms(3) by blast
  show ?thesis
  proof (cases "map_option decode_game_server_request (recv_struct (sizeof 8 16 game_server_request_members) packet)")
    case None
    then show ?thesis using assms(2) unfolding serve_game_server_def None by (auto simp: stamp_ok blank_ok Let_def)
  next
    case (Some q)
    then show ?thesis using assms(2) h [OF blank_ok(1), of "rq_sequence request" "sv_handlers server" "sv_game_server server" q]
      unfolding serve_game_server_def Some by (auto simp: stamp_ok blank_ok Let_def split: if_splits prod.splits)
  qed
qed

lemma voice_reply:
  assumes "handlers_ok hs" "serve_voice hs packet request server = (r, server')" "rq_opcode request = LSTEAM_BRIDGE_VOICE_CALL"
  shows "stamped (rq_opcode request) (rq_sequence request) r \<and> voice_response_ok r"
proof -
  have h: "stamped (rq_opcode request) (rp_sequence r) (fst (hd_voice hs h q r)) \<and> voice_response_ok (fst (hd_voice hs h q r))"
    if "voice_response_ok r" for h q r using assms(1) that unfolding handlers_ok_def assms(3) by blast
  show ?thesis
  proof (cases "map_option decode_voice_request (recv_struct (sizeof 8 16 voice_request_members) packet)")
    case None
    then show ?thesis using assms(2) unfolding serve_voice_def None by (auto simp: stamp_ok blank_ok Let_def)
  next
    case (Some q)
    then show ?thesis using assms(2) h [OF blank_ok(2), of "rq_sequence request" "sv_handlers server" q]
      unfolding serve_voice_def Some by (auto simp: stamp_ok blank_ok Let_def split: if_splits prod.splits)
  qed
qed

lemma interface_reply:
  assumes "handlers_ok hs" "serve_interface hs packet request server = (r, server')" "rq_opcode request \<in> set interface_opcodes"
  shows "stamped (rq_opcode request) (rq_sequence request) r \<and> game_server_response_ok r"
proof -
  have h: "stamped (rq_opcode request) (rp_sequence r) (fst (hd_interface hs (rq_opcode request) h g q r)) \<and>
      game_server_response_ok (fst (hd_interface hs (rq_opcode request) h g q r))"
    if "game_server_response_ok r" for h g q r using assms(1,3) that unfolding handlers_ok_def by blast
  show ?thesis
  proof (cases "map_option decode_game_server_request (recv_struct (sizeof 8 16 game_server_request_members) packet)")
    case None
    then show ?thesis using assms(2) unfolding serve_interface_def None by (auto simp: stamp_ok blank_ok Let_def)
  next
    case (Some q)
    then show ?thesis using assms(2) h [OF blank_ok(1), of "rq_sequence request" "sv_handlers server" "sv_game_server server" q]
      unfolding serve_interface_def Some by (auto simp: stamp_ok blank_ok Let_def split: if_splits prod.splits)
  qed
qed

lemma matchmaking_reply:
  assumes "handlers_ok hs" "serve_matchmaking hs packet request server = (r, server')"
  shows "stamped (rq_opcode request) (rq_sequence request) r \<and> mm_response_ok r"
proof -
  have h: "stamped (rq_opcode request) (rq_sequence request) (fst (hd_mm_request hs h request q r)) \<and> mm_response_ok (fst (hd_mm_request hs h request q r))"
    "stamped (rq_opcode request) (rq_sequence request) (fst (hd_mm_call hs h request q r)) \<and> mm_response_ok (fst (hd_mm_call hs h request q r))"
    if "mm_response_ok r" for h q r using assms(1) that unfolding handlers_ok_def by blast+
  show ?thesis
  proof (cases "map_option decode_mm_request (recv_struct (sizeof 8 16 mm_request_members) packet)")
    case None
    then show ?thesis using assms(2) unfolding serve_matchmaking_def None by (auto simp: stamp_ok blank_ok Let_def)
  next
    case (Some q)
    then show ?thesis using assms(2) h [OF blank_ok(3), of "sv_handlers server" q]
      unfolding serve_matchmaking_def Some by (auto simp: stamp_ok blank_ok Let_def split: if_splits prod.splits)
  qed
qed

text \<open>Which function makes the response to a request, and what its branch does with the connection.\<close>

lemma serve_request_cases:
  assumes "serve_request hs an packet request server = (events, continued, server')"
  obtains (auth) "rq_opcode request = LSTEAM_BRIDGE_GET_AUTH_TICKET" "events = [Sent (encode_ticket_response (get_auth_ticket (sv_user_iface server) an request)), Closed]" "continued"
  | (app) r where "rq_opcode request = LSTEAM_BRIDGE_APP_TICKET_CALL" "get_app_ticket an packet request server = (r, server')" "events = [Sent (encode_app_ticket_response r), Closed]" "continued"
  | (connection) "rq_opcode request = LSTEAM_BRIDGE_INIT_GAME_CONNECTION" "events = [Sent (encode_blob_response (init_game_connection an packet request (sv_user_iface server))), Closed]" "continued"
  | (game_server) r where "rq_opcode request = LSTEAM_BRIDGE_GAME_SERVER_CALL" "serve_game_server hs packet request server = (r, server')" "events = [Sent (encode_game_server_response r), Closed]" "continued"
  | (voice) r where "rq_opcode request = LSTEAM_BRIDGE_VOICE_CALL" "serve_voice hs packet request server = (r, server')" "events = [Sent (encode_voice_response r), Closed]" "continued"
  | (interface) r where "rq_opcode request \<in> set interface_opcodes" "serve_interface hs packet request server = (r, server')" "events = [Sent (encode_game_server_response r), Closed]" "continued"
  | (matchmaking) r where "rq_opcode request = LSTEAM_BRIDGE_MATCHMAKING_REQUEST \<or> rq_opcode request = LSTEAM_BRIDGE_MATCHMAKING_CALL"
      "serve_matchmaking hs packet request server = (r, server')" "events = [Sent (encode_mm_response r), Closed]" "continued"
  | (get) r calls where "rq_opcode request = LSTEAM_BRIDGE_GET_CALLBACK" "get_callback an request server = (r, calls, server')"
      "events = map Steam calls @ [Sent (encode_callback_response r), Closed]" "continued"
  | (free) r calls where "rq_opcode request = LSTEAM_BRIDGE_FREE_CALLBACK" "free_callback request server = (r, calls, server')"
      "events = map Steam calls @ [Sent (encode_response r), Closed]" "continued"
  | (api) "rq_opcode request = LSTEAM_BRIDGE_GET_API_CALL_RESULT" "events = [Sent (encode_api_call_response (get_api_call_result an packet request server)), Closed]" "continued"
  | (status) r where "serve_status an request server = (r, server')" "events = [Sent (encode_response r)]" "\<not> continued"
      "rq_opcode request \<notin> set (interface_opcodes @ [4, 34, 5, 6, 32, 10, 11, 7, 8, 9])"
proof -
  let ?op = "rq_opcode request"
  consider "?op = LSTEAM_BRIDGE_GET_AUTH_TICKET" | "?op = LSTEAM_BRIDGE_APP_TICKET_CALL"
    | "?op = LSTEAM_BRIDGE_INIT_GAME_CONNECTION" | "?op = LSTEAM_BRIDGE_GAME_SERVER_CALL"
    | "?op = LSTEAM_BRIDGE_VOICE_CALL" | "?op \<in> set interface_opcodes" "?op \<notin> {4, 34, 5, 6, 32}"
    | "?op = LSTEAM_BRIDGE_MATCHMAKING_REQUEST \<or> ?op = LSTEAM_BRIDGE_MATCHMAKING_CALL"
    | "?op = LSTEAM_BRIDGE_GET_CALLBACK" | "?op = LSTEAM_BRIDGE_FREE_CALLBACK" | "?op = LSTEAM_BRIDGE_GET_API_CALL_RESULT"
    | "?op \<notin> set (interface_opcodes @ [4, 34, 5, 6, 32, 10, 11, 7, 8, 9])"
    by auto
  then show thesis
  proof cases
    case 1
    then show ?thesis using assms auth by (auto simp: serve_request_def Let_def split: prod.splits)
  next
    case 2
    then show ?thesis using assms app by (auto simp: serve_request_def Let_def split: prod.splits)
  next
    case 3
    then show ?thesis using assms connection by (auto simp: serve_request_def Let_def split: prod.splits)
  next
    case 4
    then show ?thesis using assms game_server by (auto simp: serve_request_def Let_def split: prod.splits)
  next
    case 5
    then show ?thesis using assms voice by (auto simp: serve_request_def Let_def split: prod.splits)
  next
    case 6
    then show ?thesis using assms interface by (auto simp: serve_request_def Let_def split: prod.splits)
  next
    case 7
    then show ?thesis using assms matchmaking by (auto simp: serve_request_def Let_def interface_opcodes_def split: prod.splits)
  next
    case 8
    then show ?thesis using assms get by (auto simp: serve_request_def Let_def interface_opcodes_def split: prod.splits)
  next
    case 9
    then show ?thesis using assms free by (auto simp: serve_request_def Let_def interface_opcodes_def split: prod.splits)
  next
    case 10
    then show ?thesis using assms api by (auto simp: serve_request_def Let_def interface_opcodes_def split: prod.splits)
  next
    case 11
    then show ?thesis using assms status by (auto simp: serve_request_def Let_def split: prod.splits)
  qed
qed

lemma serve_request_one_reply:
  assumes "serve_request hs an packet request server = (events, continued, server')"
  shows "\<exists>bytes. sent_replies events = [bytes]"
  using assms by (cases rule: serve_request_cases) auto

lemma stamped_status:
  "free_callback request server = (r, calls, server') \<Longrightarrow> stamped (rq_opcode request) (rq_sequence request) r"
  "serve_status an request server = (r, server') \<Longrightarrow> stamped (rq_opcode request) (rq_sequence request) r"
  by (auto simp: free_callback_def serve_status_def stamped_def stamp_def Let_def split: if_splits)

lemma encoded_header:
  assumes "rq_magic request = LSTEAM_BRIDGE_MAGIC" "rq_version request = LSTEAM_BRIDGE_VERSION"
  shows "stamped (rq_opcode request) (rq_sequence request) r1 \<Longrightarrow> take 12 (encode_response r1) = encode_request request"
    "stamped (rq_opcode request) (rq_sequence request) r2 \<Longrightarrow> take 12 (encode_ticket_response r2) = encode_request request"
    "stamped (rq_opcode request) (rq_sequence request) r3 \<Longrightarrow> take 12 (encode_app_ticket_response r3) = encode_request request"
    "stamped (rq_opcode request) (rq_sequence request) r4 \<Longrightarrow> take 12 (encode_blob_response r4) = encode_request request"
    "stamped (rq_opcode request) (rq_sequence request) r5 \<Longrightarrow> take 12 (encode_callback_response r5) = encode_request request"
    "stamped (rq_opcode request) (rq_sequence request) r6 \<Longrightarrow> take 12 (encode_api_call_response r6) = encode_request request"
    "stamped (rq_opcode request) (rq_sequence request) r7 \<Longrightarrow> take 12 (encode_mm_response r7) = encode_request request"
    "stamped (rq_opcode request) (rq_sequence request) r8 \<Longrightarrow> take 12 (encode_game_server_response r8) = encode_request request"
    "stamped (rq_opcode request) (rq_sequence request) r9 \<Longrightarrow> take 12 (encode_voice_response r9) = encode_request request"
  unfolding encode_reply_defs by (rule header_of_request [OF assms]; assumption)+

text \<open>
  C26. Every request is answered by exactly one response. It repeats the twelve bytes of the header of its request, with its sequence number, and has exactly the size of the
  struct its opcode calls for, so a client that receives into that struct accepts it, whatever the library answers and whatever second message the client sends.
\<close>

theorem reply_repeats_header:
  assumes "handlers_ok hs" "serve_request hs an packet request server = (events, continued, server')"
    and "rq_magic request = LSTEAM_BRIDGE_MAGIC" "rq_version request = LSTEAM_BRIDGE_VERSION"
  shows "\<exists>bytes. sent_replies events = [bytes] \<and> take 12 bytes = encode_request request \<and> length bytes = reply_size (rq_opcode request)"
  using assms(2)
proof (cases rule: serve_request_cases)
  case auth
  then show ?thesis using auth_ticket_reply [of request "sv_user_iface server" an] ticket_response_msg.enc_length encoded_header [OF assms(3,4)]
    by (simp add: reply_size_def)
next
  case (app r)
  then show ?thesis using app_ticket_reply [OF app(2)] app_ticket_response_msg.enc_length encoded_header [OF assms(3,4)]
    by (simp add: reply_size_def)
next
  case connection
  then show ?thesis using game_connection_reply [of request an packet "sv_user_iface server"] blob_response_msg.enc_length encoded_header [OF assms(3,4)]
    by (simp add: reply_size_def)
next
  case (game_server r)
  then show ?thesis using game_server_reply [OF assms(1) game_server(2,1)] game_server_response_msg.enc_length encoded_header [OF assms(3,4)]
    by (simp add: reply_size_def)
next
  case (voice r)
  then show ?thesis using voice_reply [OF assms(1) voice(2,1)] voice_response_msg.enc_length encoded_header [OF assms(3,4)]
    by (simp add: reply_size_def)
next
  case (interface r)
  then have "reply_size (rq_opcode request) = sizeof 8 16 game_server_response_members" by (auto simp: reply_size_def interface_opcodes_def)
  then show ?thesis using interface_reply [OF assms(1) interface(2,1)] game_server_response_msg.enc_length encoded_header [OF assms(3,4)] interface(3)
    by simp
next
  case (matchmaking r)
  then have "reply_size (rq_opcode request) = sizeof 8 16 mm_response_members" by (auto simp: reply_size_def interface_opcodes_def)
  then show ?thesis using matchmaking_reply [OF assms(1) matchmaking(2)] mm_response_msg.enc_length encoded_header [OF assms(3,4)] matchmaking(3)
    by simp
next
  case (get r calls)
  then show ?thesis using get_callback_reply [OF get(2)] callback_response_msg.enc_length encoded_header [OF assms(3,4)]
    by (simp add: reply_size_def interface_opcodes_def)
next
  case api
  then show ?thesis using api_call_reply [of request an packet server] api_call_response_msg.enc_length encoded_header [OF assms(3,4)]
    by (simp add: reply_size_def interface_opcodes_def)
next
  case (free r calls)
  then show ?thesis using stamped_status(1) [OF free(2)] response_msg.enc_length encoded_header [OF assms(3,4)]
    by (simp add: reply_size_def interface_opcodes_def)
next
  case (status r)
  then have "reply_size (rq_opcode request) = sizeof 8 16 response_members" by (auto simp: reply_size_def)
  then show ?thesis using stamped_status(2) [OF status(1)] status(2) response_msg.enc_length encoded_header [OF assms(3,4)]
    by simp
qed

lemma demo_handlers_ok: "handlers_ok demo_handlers"
  by (simp add: handlers_ok_def demo_handlers_def stamped_def stamp_def game_server_response_ok_def voice_response_ok_def mm_response_ok_def)

theorem reply_repeats_header_witness:
  "\<exists>events bytes. serve_request demo_handlers demo_answers None (bridge_request LSTEAM_BRIDGE_PING) demo_server = (events, False, demo_server) \<and>
     sent_replies events = [bytes] \<and> take 12 bytes = encode_request (bridge_request LSTEAM_BRIDGE_PING) \<and> length bytes = 48"
proof -
  obtain events where b: "serve_request demo_handlers demo_answers None (bridge_request LSTEAM_BRIDGE_PING) demo_server = (events, False, demo_server)"
    by (simp add: serve_request_def serve_status_def interface_opcodes_def)
  have "reply_size LSTEAM_BRIDGE_PING = 48" by (simp add: reply_size_def interface_opcodes_def layout_simps)
  with reply_repeats_header [OF demo_handlers_ok b] b show ?thesis by simp
qed

section \<open>Connections\<close>

text \<open>Reading a log from left to right: no connection, one that is not answered, one that is. Every connection is closed once, and answered at most once before.\<close>

datatype connection_state = No_Connection | Waiting | Answered

fun well_served :: "connection_state \<Rightarrow> bridge_event list \<Rightarrow> bool" where
  "well_served st [] \<longleftrightarrow> st = No_Connection"
| "well_served st (Frame # es) \<longleftrightarrow> st = No_Connection \<and> well_served No_Connection es"
| "well_served st (Accepted # es) \<longleftrightarrow> st = No_Connection \<and> well_served Waiting es"
| "well_served st (Steam e # es) \<longleftrightarrow> st = Waiting \<and> well_served Waiting es"
| "well_served st (Sent bytes # es) \<longleftrightarrow> st = Waiting \<and> well_served Answered es"
| "well_served st (Closed # es) \<longleftrightarrow> st \<noteq> No_Connection \<and> well_served No_Connection es"

lemma well_served_Steam: "well_served Waiting (map Steam es @ fs) = well_served Waiting fs"
  by (induction es) auto

text \<open>The request of a connection the server answers.\<close>

definition accepted_request :: "steam_answers \<Rightarrow> bridge_connection \<Rightarrow> lsteam_bridge_request option" where
  "accepted_request an cn =
     (if cn_uid cn = Some (an_uid an)
      then Option.bind (map_option decode_request (recv_struct (sizeof 8 16 request_members) (cn_first cn)))
             (\<lambda>request. if rq_magic request = LSTEAM_BRIDGE_MAGIC \<and> rq_version request = LSTEAM_BRIDGE_VERSION then Some request else None)
      else None)"

lemma serve_connection_request:
  "serve_connection hs an cn server =
     (case accepted_request an cn of
        None \<Rightarrow> ([Accepted, Closed], server)
      | Some request \<Rightarrow> case serve_request hs an (cn_second cn) request server of (events, continued, server) \<Rightarrow>
          (Accepted # events @ (if continued then [] else [Closed]), server))"
proof (cases "cn_uid cn = Some (an_uid an)")
  case True
  then show ?thesis
    by (cases "recv_struct (sizeof 8 16 request_members) (cn_first cn)") (simp_all add: serve_connection_def accepted_request_def Let_def)
qed (simp add: serve_connection_def accepted_request_def)

text \<open>Whatever its branch does, an accepted connection is answered once and closed once, after the response.\<close>

lemma serve_connection_shape:
  assumes "serve_connection hs an cn server = (es, server')"
  obtains (refused) "accepted_request an cn = None" "es = [Accepted, Closed]" "server' = server"
  | (answered) request calls bytes where "accepted_request an cn = Some request" "es = Accepted # map Steam calls @ [Sent bytes, Closed]"
proof (cases "accepted_request an cn")
  case None
  then show thesis using assms refused by (simp add: serve_connection_request)
next
  case (Some request)
  obtain events continued server1 where served: "serve_request hs an (cn_second cn) request server = (events, continued, server1)" by (metis surj_pair)
  then have es: "es = Accepted # events @ (if continued then [] else [Closed])" using assms Some by (simp add: serve_connection_request)
  have "\<exists>calls bytes. events @ (if continued then [] else [Closed]) = map Steam calls @ [Sent bytes, Closed]"
    using served by (cases rule: serve_request_cases) (auto intro: exI [of _ "[]"])
  then show thesis using answered [OF Some] es by auto
qed

text \<open>For every connection of a log, in order: whether it is answered before it is closed.\<close>

fun replied :: "bridge_event list \<Rightarrow> bool" where
  "replied (Sent bytes # es) \<longleftrightarrow> True"
| "replied (Steam e # es) \<longleftrightarrow> replied es"
| "replied es \<longleftrightarrow> False"

fun connection_answers :: "bridge_event list \<Rightarrow> bool list" where
  "connection_answers [] = []"
| "connection_answers (Accepted # es) = replied es # connection_answers es"
| "connection_answers (e # es) = connection_answers es"

lemma replied_Steam: "replied (map Steam calls @ es) = replied es" "connection_answers (map Steam calls @ es) = connection_answers es"
  by (induction calls) auto

lemma serve_connection_log:
  assumes "serve_connection hs an cn server = (es, server')"
  shows "well_served No_Connection (es @ fs) = well_served No_Connection fs"
    and "connection_answers (es @ fs) = (accepted_request an cn \<noteq> None) # connection_answers fs"
  using assms by (auto elim!: serve_connection_shape simp: well_served_Steam replied_Steam)

definition connections_of :: "bridge_turn list \<Rightarrow> (bridge_connection \<times> steam_answers) list" where
  "connections_of turns = concat (map (\<lambda>turn. case turn of Connection cn an \<Rightarrow> [(cn, an)] | _ \<Rightarrow> []) turns)"

lemma connections_of_simps [simp]:
  "connections_of [] = []" "connections_of (Connection cn an # turns) = (cn, an) # connections_of turns"
  by (simp_all add: connections_of_def)

lemma connections_of_other: "\<forall>cn an. turn \<noteq> Connection cn an \<Longrightarrow> connections_of (turn # turns) = connections_of turns"
  by (cases turn) (simp_all add: connections_of_def)

text \<open>One turn of the loop that does not serve a connection: the loop ends, or goes on with the same session.\<close>

lemma bridge_loop_turn:
  assumes "bridge_loop hs (turn # turns) server = Some (events, server')" and "sv_running server" "\<forall>cn an. turn \<noteq> Connection cn an"
  obtains (ends) "events = [] \<or> events = [Frame]" "\<And>turns. bridge_loop hs (turn # turns) server = Some (events, server')"
  | (goes_on) frame later server1 where "frame = [] \<or> frame = [Frame]" "events = frame @ later" "bridge_loop hs turns server1 = Some (later, server')"
      "\<And>turns. bridge_loop hs (turn # turns) server = map_option (\<lambda>(later, server). (frame @ later, server)) (bridge_loop hs turns server1)"
proof -
  let ?frame = "if sv_client server then [Frame] else []" and ?stopped = "server\<lparr>sv_running := False\<rparr>"
  have frame: "?frame = [] \<or> ?frame = [Frame]" by simp
  consider "turn = Stop_Seen" | "turn = Poll_Failed \<or> turn = Accept_Failed" | "turn = Stop_Signal" | "turn = Poll_Interrupted \<or> turn = Poll_Idle \<or> turn = Accept_Interrupted"
    using assms(3) by (cases turn) simp_all
  then show thesis
  proof cases
    case 1
    then have run: "bridge_loop hs (turn # ts) server = Some ([], ?stopped)" for ts using assms(2) by simp
    then show thesis using assms(1) ends by simp
  next
    case 2
    then have run: "bridge_loop hs (turn # ts) server = Some (?frame, server)" for ts using assms(2) by (auto simp: Let_def)
    from run [of turns] assms(1) have "events = ?frame" "server' = server" by (simp_all del: bridge_loop.simps)
    then show thesis using ends frame run by (simp del: bridge_loop.simps)
  next
    case 3
    then have run: "bridge_loop hs (turn # ts) server = map_option (\<lambda>(later, server). (?frame @ later, server)) (bridge_loop hs ts ?stopped)" for ts
      using assms(2) by (simp add: Let_def)
    with assms(1) obtain later where "bridge_loop hs turns ?stopped = Some (later, server')" "events = ?frame @ later" by auto
    then show thesis using goes_on [OF frame] run by blast
  next
    case 4
    then have run: "bridge_loop hs (turn # ts) server = map_option (\<lambda>(later, server). (?frame @ later, server)) (bridge_loop hs ts server)" for ts
      using assms(2) by (auto simp: Let_def)
    with assms(1) obtain later where "bridge_loop hs turns server = Some (later, server')" "events = ?frame @ later" by auto
    then show thesis using goes_on [OF frame] run by blast
  qed
qed

lemma frames_quiet:
  assumes "frame = [] \<or> frame = [Frame]"
  shows "well_served No_Connection (frame @ es) = well_served No_Connection es" "connection_answers (frame @ es) = connection_answers es"
    "sent_replies (frame @ es) = sent_replies es" "steam_events (frame @ es) = steam_events es"
  using assms by auto

text \<open>The turns without the connections that are refused.\<close>

definition trusted_turn :: "bridge_turn \<Rightarrow> bool" where
  "trusted_turn turn = (case turn of Connection cn an \<Rightarrow> accepted_request an cn \<noteq> None | _ \<Rightarrow> True)"

lemma trusted_other: "\<forall>cn an. turn \<noteq> Connection cn an \<Longrightarrow> trusted_turn turn"
  by (cases turn) (simp_all add: trusted_turn_def)

lemma trusted_connection: "trusted_turn (Connection cn an) \<longleftrightarrow> accepted_request an cn \<noteq> None"
  by (simp add: trusted_turn_def)

lemma connections_closed:
  assumes "bridge_loop hs turns server = Some (events, server')"
  shows "well_served No_Connection events \<and>
    (\<exists>served rest. connections_of turns = served @ rest \<and> connection_answers events = map (\<lambda>(cn, an). accepted_request an cn \<noteq> None) served)"
  using assms
proof (induction turns arbitrary: server events)
  case Nil
  then show ?case by (auto split: if_splits)
next
  case (Cons turn turns)
  show ?case
  proof (cases "\<exists>cn an. turn = Connection cn an \<and> sv_running server")
    case True
    then obtain cn an where turn: "turn = Connection cn an" "sv_running server" by blast
    obtain es server1 where c: "serve_connection hs an cn server = (es, server1)" by (metis surj_pair)
    then obtain later where later: "bridge_loop hs turns server1 = Some (later, server')" and ev: "events = (if sv_client server then [Frame] else []) @ es @ later"
      using Cons.prems turn by (auto simp: Let_def)
    obtain served rest where "connections_of turns = served @ rest" "connection_answers later = map (\<lambda>(cn, an). accepted_request an cn \<noteq> None) served"
      using Cons.IH [OF later] by blast
    then have "connections_of (turn # turns) = ((cn, an) # served) @ rest" "connection_answers events = map (\<lambda>(cn, an). accepted_request an cn \<noteq> None) ((cn, an) # served)"
      using ev serve_connection_log(2) [OF c] by (simp_all add: turn(1))
    moreover have "well_served No_Connection events" using Cons.IH [OF later] ev serve_connection_log(1) [OF c] by simp
    ultimately show ?thesis by blast
  next
    case other: False
    show ?thesis
    proof (cases "sv_running server")
      case True
      then have turn: "\<forall>cn an. turn \<noteq> Connection cn an" using other by blast
      from Cons.prems True turn show ?thesis
      proof (cases rule: bridge_loop_turn)
        case ends
        then show ?thesis by (auto intro: exI [of _ "[]"])
      next
        case (goes_on frame later server1)
        then show ?thesis using Cons.IH [OF goes_on(3)] frames_quiet [OF goes_on(1)] connections_of_other [OF turn] by simp
      qed
    qed (use Cons.prems in \<open>auto intro: exI [of _ "[]"]\<close>)
  qed
qed

lemma refused_connections_change_nothing:
  assumes "bridge_loop hs turns server = Some (events, server')"
  shows "\<exists>events'. bridge_loop hs (filter trusted_turn turns) server = Some (events', server') \<and> sent_replies events' = sent_replies events \<and>
    steam_events events' = steam_events events"
  using assms
proof (induction turns arbitrary: server events)
  case (Cons turn turns)
  show ?case
  proof (cases "\<exists>cn an. turn = Connection cn an \<and> sv_running server")
    case True
    then obtain cn an where turn: "turn = Connection cn an" "sv_running server" by blast
    obtain es server1 where c: "serve_connection hs an cn server = (es, server1)" by (metis surj_pair)
    then obtain later where later: "bridge_loop hs turns server1 = Some (later, server')" and ev: "events = (if sv_client server then [Frame] else []) @ es @ later"
      using Cons.prems turn by (auto simp: Let_def)
    obtain events' where IH: "bridge_loop hs (filter trusted_turn turns) server1 = Some (events', server')" "sent_replies events' = sent_replies later"
        "steam_events events' = steam_events later" using Cons.IH [OF later] by blast
    from c show ?thesis
    proof (cases rule: serve_connection_shape)
      case refused
      then show ?thesis using IH ev by (simp add: turn(1) trusted_connection)
    next
      case (answered request calls bytes)
      then show ?thesis using IH ev turn(2) c by (simp add: turn(1) trusted_connection Let_def)
    qed
  next
    case other: False
    show ?thesis
    proof (cases "sv_running server")
      case True
      then have turn: "\<forall>cn an. turn \<noteq> Connection cn an" using other by blast
      from Cons.prems True turn show ?thesis
      proof (cases rule: bridge_loop_turn)
        case ends
        then show ?thesis using trusted_other [OF turn] by simp
      next
        case (goes_on frame later server1)
        then show ?thesis using Cons.IH [OF goes_on(3)] frames_quiet [OF goes_on(1)] trusted_other [OF turn] by auto
      qed
    next
      case False
      then show ?thesis using Cons.prems by (cases "filter trusted_turn (turn # turns)") auto
    qed
  qed
qed auto

text \<open>
  C25. Over any run, the server closes every connection it accepts, exactly once, after at most one response and before it takes the next; every branch of the
  dispatch has its own send and close. Of the connections it takes up, in their order, exactly those are answered whose peer runs as the server's own user and sends a whole header
  with the right magic number and version. The others change nothing: the run without them ends in the same state, with the same responses and the same calls with callbacks.
\<close>

theorem connections_served:
  assumes "bridge_loop hs turns server = Some (events, server')"
  shows "well_served No_Connection events \<and>
    (\<exists>served rest. connections_of turns = served @ rest \<and> connection_answers events = map (\<lambda>(cn, an). accepted_request an cn \<noteq> None) served) \<and>
    (\<exists>events'. bridge_loop hs (filter trusted_turn turns) server = Some (events', server') \<and> sent_replies events' = sent_replies events \<and>
      steam_events events' = steam_events events)"
  using connections_closed [OF assms] refused_connections_change_nothing [OF assms] by blast

text \<open>A request to stop from an accepted peer ends the loop, whatever would come after it.\<close>

theorem stop_request_ends_loop:
  assumes "sv_running server" and "accepted_request an cn = Some request" and "rq_opcode request = LSTEAM_BRIDGE_STOP"
  shows "\<exists>events. bridge_loop hs (Connection cn an # turns) server = Some (events, server\<lparr>sv_running := False\<rparr>)"
proof -
  obtain bytes where "serve_request hs an (cn_second cn) request server = ([Sent bytes], False, server\<lparr>sv_running := False\<rparr>)"
    using assms(3) by (auto simp: serve_request_def serve_status_def interface_opcodes_def)
  then have "serve_connection hs an cn server = ([Accepted, Sent bytes, Closed], server\<lparr>sv_running := False\<rparr>)"
    using assms(2) by (simp add: serve_connection_request)
  moreover have "bridge_loop hs turns (server\<lparr>sv_running := False\<rparr>) = Some ([], server\<lparr>sv_running := False\<rparr>)" by (cases turns) simp_all
  ultimately show ?thesis using assms(1) by (simp add: Let_def)
qed

lemma demo_request_accepted: "an_uid an = 10001 \<Longrightarrow> accepted_request an (demo_connection opcode) = Some (bridge_request opcode)"
  unfolding accepted_request_def demo_connection_def bridge_connection.simps request_msg.received_decoded [OF TrueI] by simp

text \<open>A stranger's connection, then a request to stop from the server's own user; the last turn is not reached.\<close>

definition stranger :: bridge_connection where
  "stranger = (demo_connection LSTEAM_BRIDGE_STOP)\<lparr>cn_uid := Some 10002\<rparr>"

theorem connections_served_witness:
  "\<exists>events. bridge_loop demo_handlers
       [Connection stranger demo_answers, Connection (demo_connection LSTEAM_BRIDGE_STOP) demo_answers, Poll_Idle] demo_server = Some (events, demo_server\<lparr>sv_running := False\<rparr>) \<and>
     well_served No_Connection events \<and> connection_answers events = [False, True] \<and>
     (\<exists>events'. bridge_loop demo_handlers [Connection (demo_connection LSTEAM_BRIDGE_STOP) demo_answers, Poll_Idle] demo_server =
        Some (events', demo_server\<lparr>sv_running := False\<rparr>) \<and> sent_replies events' = sent_replies events)"
proof -
  let ?turns = "[Connection stranger demo_answers, Connection (demo_connection LSTEAM_BRIDGE_STOP) demo_answers, Poll_Idle]"
  have uid: "an_uid demo_answers = 10001" and run: "sv_running demo_server" by (simp_all add: demo_answers_def demo_server_def)
  have refused: "accepted_request demo_answers stranger = None" by (simp add: accepted_request_def stranger_def uid)
  note stop = demo_request_accepted [OF uid, of LSTEAM_BRIDGE_STOP]
  obtain later where later: "bridge_loop demo_handlers [Connection (demo_connection LSTEAM_BRIDGE_STOP) demo_answers, Poll_Idle] demo_server =
      Some (later, demo_server\<lparr>sv_running := False\<rparr>)"
    using stop_request_ends_loop [OF run stop] by fastforce
  have "serve_connection demo_handlers demo_answers stranger demo_server = ([Accepted, Closed], demo_server)" by (simp add: serve_connection_request refused)
  then obtain events where loop: "bridge_loop demo_handlers ?turns demo_server = Some (events, demo_server\<lparr>sv_running := False\<rparr>)"
    and ev: "connection_answers events = False # connection_answers later"
    using later run unfolding bridge_loop.simps(2) [of _ "Connection stranger demo_answers"] by (auto simp del: bridge_loop.simps)
  note run_facts = connections_served [OF loop]
  have trusted: "trusted_turn (Connection (demo_connection LSTEAM_BRIDGE_STOP) demo_answers)" unfolding trusted_connection stop by simp
  have kept: "filter trusted_turn ?turns = [Connection (demo_connection LSTEAM_BRIDGE_STOP) demo_answers, Poll_Idle]"
    using trusted trusted_other [of Poll_Idle] by (simp add: trusted_connection refused)
  have "connection_answers later = [True]"
  proof -
    obtain es server1 where c: "serve_connection demo_handlers demo_answers (demo_connection LSTEAM_BRIDGE_STOP) demo_server = (es, server1)" by (metis surj_pair)
    then have "server1 = demo_server\<lparr>sv_running := False\<rparr>"
      unfolding serve_connection_request stop by (auto simp: serve_request_def serve_status_def interface_opcodes_def)
    then have "later = [Frame] @ es @ []" using later run c by (simp add: Let_def demo_server_def)
    then show ?thesis using serve_connection_log(2) [OF c, of "[]"] unfolding stop by simp
  qed
  then show ?thesis using run_facts loop ev unfolding kept by auto
qed

section \<open>The whole program\<close>

lemma removal_safe: "Path_Removed q \<in> set (removal path (safe_remove_socket st uid ok)) \<longleftrightarrow> q = path \<and> st = Path_Is True uid \<and> ok"
  by (auto simp: removal_def safe_remove_socket_def split: path_state.split)

lemma serve_connection_session:
  "serve_connection hs an cn server = (es, server') \<Longrightarrow> sv_pipe server' = sv_pipe server \<and> sv_user server' = sv_user server"
  by (simp add: serve_connection_request serve_defs get_callback_def free_callback_def Let_def split: if_splits option.splits prod.splits) auto

lemma bridge_loop_session:
  "bridge_loop hs turns server = Some (events, server') \<Longrightarrow> sv_pipe server' = sv_pipe server \<and> sv_user server' = sv_user server"
proof (induction turns arbitrary: server events)
  case (Cons turn turns)
  show ?case
  proof (cases "sv_running server")
    case running: True
    show ?thesis
    proof (cases turn)
      case (Connection cn an)
      obtain es server1 where c: "serve_connection hs an cn server = (es, server1)" by (metis surj_pair)
      then obtain later where "bridge_loop hs turns server1 = Some (later, server')" using Cons.prems running Connection by (auto simp: Let_def)
      then show ?thesis using Cons.IH serve_connection_session [OF c] by metis
    qed (use Cons running in \<open>auto simp: Let_def split: if_splits\<close>)
  qed (use Cons in auto)
qed (simp split: if_splits)

text \<open>How the program ends: before it touches the path; refusing to replace what is there; without listening; or regularly.\<close>

definition before_path :: "main_event list \<Rightarrow> bool" where
  "before_path log \<longleftrightarrow> (\<forall>e \<in> set log. case e of Path_Removed _ \<Rightarrow> False | Bind _ \<Rightarrow> False | Listen _ \<Rightarrow> False | _ \<Rightarrow> True)"

lemma bridge_main_cases:
  assumes "bridge_main hs h ev old_umask turns = Some (code, log)"
  obtains (early) "code \<noteq> 0" "before_path log"
  | (refused) opened where "code = 2" "before_path opened" "log = opened @ removal (socket_path ev) (safe_remove_socket (ev_before ev) (ev_uid ev) (ev_before_unlink ev))"
  | (unbound) opened bound where "code = 2" "before_path opened" "fst (safe_remove_socket (ev_before ev) (ev_uid ev) (ev_before_unlink ev))" "length (socket_path ev) < 108"
      "bind_socket ev (socket_path ev) old_umask = (bound, False)"
      "log = opened @ removal (socket_path ev) (safe_remove_socket (ev_before ev) (ev_uid ev) (ev_before_unlink ev)) @ bound @
         removal (socket_path ev) (safe_remove_socket (ev_after ev) (ev_uid ev) (ev_after_unlink ev))"
  | (ended) opened bound events server where "code = 0" "before_path opened" "fst (safe_remove_socket (ev_before ev) (ev_uid ev) (ev_before_unlink ev))"
      "length (socket_path ev) < 108" "bind_socket ev (socket_path ev) old_umask = (bound, True)"
      "bridge_loop hs turns (initial_server ev h) = Some (events, server)"
      "log = opened @ removal (socket_path ev) (safe_remove_socket (ev_before ev) (ev_uid ev) (ev_before_unlink ev)) @ bound @ [Ready] @ map Serving events @
         shut_down hs ev (socket_path ev) server"
proof -
  let ?lib = "case ev_argument ev of Some l \<Rightarrow> l | None \<Rightarrow> ''./steamrtarm64/steamclient-patched.so''"
  let ?opened = "[Library_Opened ?lib] @ (if ev_pipe ev \<noteq> 0 then [Pipe_Created (ev_pipe ev)] else []) @
    (if ev_pipe ev \<noteq> 0 \<and> ev_user ev \<noteq> 0 then [User_Connected (ev_pipe ev) (ev_user ev)] else [])"
  have opened: "before_path ?opened" "before_path (?opened @ [Library_Closed])" "before_path (?opened @ [Listener_Opened])" "before_path [Library_Opened ?lib]" "before_path []"
    by (auto simp: before_path_def)
  show thesis
  proof (cases "ev_workdir ev \<noteq> None \<and> ev_workdir ev \<noteq> Some [] \<and> \<not> ev_chdir ev \<or> length (socket_path ev) \<ge> 108 \<or> \<not> ev_dlopen ev \<or> \<not> ev_symbols ev \<or>
      ev_pipe ev = 0 \<or> ev_user ev = 0 \<or> \<not> ev_listener ev")
    case True
    then show thesis using assms opened early unfolding bridge_main_def Let_def by (auto split: if_splits)
  next
    case False
    let ?removed = "safe_remove_socket (ev_before ev) (ev_uid ev) (ev_before_unlink ev)"
    have main: "bridge_main hs h ev old_umask turns =
        (if \<not> fst ?removed then Some (2, (?opened @ [Listener_Opened]) @ removal (socket_path ev) ?removed)
         else case bind_socket ev (socket_path ev) old_umask of
             (bound, False) \<Rightarrow> Some (2, (?opened @ [Listener_Opened]) @ removal (socket_path ev) ?removed @ bound @
               removal (socket_path ev) (safe_remove_socket (ev_after ev) (ev_uid ev) (ev_after_unlink ev)))
           | (bound, True) \<Rightarrow> map_option (\<lambda>(events, server). (0, (?opened @ [Listener_Opened]) @ removal (socket_path ev) ?removed @ bound @ [Ready] @
               map Serving events @ shut_down hs ev (socket_path ev) server)) (bridge_loop hs turns (initial_server ev h)))"
    proof -
      have go: "\<not> (ev_workdir ev \<noteq> None \<and> ev_workdir ev \<noteq> Some [] \<and> \<not> ev_chdir ev)" using False by blast
      show ?thesis using False unfolding bridge_main_def Let_def if_not_P [OF go] by simp
    qed
    show thesis
    proof (cases "fst ?removed")
      case no: False
      then show thesis using assms refused [OF _ opened(3)] unfolding main by simp
    next
      case yes: True
      obtain bound listens where bind: "bind_socket ev (socket_path ev) old_umask = (bound, listens)" by (metis surj_pair)
      have len: "length (socket_path ev) < 108" using False by simp
      show thesis
      proof (cases listens)
        case no: False
        then show thesis using assms unbound [OF _ opened(3) yes len] yes bind unfolding main by simp
      next
        case True
        then show thesis using assms ended [OF _ opened(3) yes len] yes bind unfolding main by auto
      qed
    qed
  qed
qed

lemma removal_only: "set (removal path outcome) \<subseteq> {Path_Removed path}"
  by (auto simp: removal_def)

text \<open>
  The server removes a path only when it is a socket of its own user at the configured place, before it binds or when it ends. It binds only when nothing was there or such a
  socket was removed, always under a mask that keeps others out, and makes the socket private before it listens. When it ends regularly, its user, its pipe and
  the library are released, in this order, at the end.
\<close>

theorem bridge_main_safe:
  assumes "bridge_main hs h ev old_umask turns = Some (code, log)"
  shows "(Path_Removed q \<in> set log \<longrightarrow> q = socket_path ev \<and> (ev_before ev = Path_Is True (ev_uid ev) \<or> ev_after ev = Path_Is True (ev_uid ev))) \<and>
    (Bind q \<in> set log \<longrightarrow> q = socket_path ev \<and> length q < 108 \<and>
      (ev_before ev = Lstat_Failed ENOENT \<or> ev_before ev = Path_Is True (ev_uid ev) \<and> ev_before_unlink ev) \<and>
      (\<exists>before after. log = before @ [Umask 63, Bind q, Umask old_umask] @ after)) \<and>
    (Listen n \<in> set log \<longrightarrow> (\<exists>before after. log = before @ [Chmod (socket_path ev) 384, Listen n] @ after)) \<and>
    (code = 0 \<longrightarrow> (\<exists>before. log = before @ [User_Released (ev_pipe ev) (ev_user ev), Pipe_Released (ev_pipe ev), Library_Closed]))"
proof -
  let ?path = "socket_path ev"
  let ?r1 = "removal ?path (safe_remove_socket (ev_before ev) (ev_uid ev) (ev_before_unlink ev))"
  let ?r2 = "removal ?path (safe_remove_socket (ev_after ev) (ev_uid ev) (ev_after_unlink ev))"
  have quiet: "Path_Removed q \<notin> set l" "Bind q \<notin> set l" "Listen n \<notin> set l" if "before_path l" for l q n
    using that by (auto simp: before_path_def)
  have removed: "Bind q \<notin> set ?r1" "Listen n \<notin> set ?r1" "Bind q \<notin> set ?r2" "Listen n \<notin> set ?r2" for q n
    using removal_only by fastforce+
  have bound: "\<exists>rest. b = [Umask 63, Bind ?path, Umask old_umask] @ rest \<and> Path_Removed q \<notin> set b \<and>
      (set rest \<subseteq> {Chmod ?path 384} \<and> \<not> l \<or> rest = [Chmod ?path 384, Listen 8] \<and> l)"
    if "bind_socket ev ?path old_umask = (b, l)" for b l q
    using that by (auto simp: bind_socket_def Let_def split: if_splits)
  have free: "ev_before ev = Lstat_Failed ENOENT \<or> ev_before ev = Path_Is True (ev_uid ev) \<and> ev_before_unlink ev"
    if "fst (safe_remove_socket (ev_before ev) (ev_uid ev) (ev_before_unlink ev))"
    using that by (auto simp: safe_remove_socket_def split: path_state.splits if_splits)
  from assms show ?thesis
  proof (cases rule: bridge_main_cases)
    case early
    then show ?thesis using quiet by blast
  next
    case (refused opened)
    then show ?thesis using quiet [OF refused(2)] removed removal_safe by auto
  next
    case (unbound opened b)
    obtain rest where rest: "b = [Umask 63, Bind ?path, Umask old_umask] @ rest" "Path_Removed q \<notin> set b" "set rest \<subseteq> {Chmod ?path 384}"
      using bound [OF unbound(5)] by blast
    have "log = (opened @ ?r1) @ [Umask 63, Bind ?path, Umask old_umask] @ rest @ ?r2" using unbound(6) rest(1) by simp
    then have window: "\<exists>before after. log = before @ [Umask 63, Bind ?path, Umask old_umask] @ after" by blast
    have "Listen n \<notin> set log" "Bind q \<in> set log \<Longrightarrow> q = ?path"
      using unbound(6) rest quiet [OF unbound(2)] removed by auto
    moreover have "Path_Removed q \<in> set log \<longrightarrow> q = ?path \<and> (ev_before ev = Path_Is True (ev_uid ev) \<or> ev_after ev = Path_Is True (ev_uid ev))"
      using unbound(6) rest(2) quiet [OF unbound(2)] removal_safe by auto
    ultimately show ?thesis using free [OF unbound(3)] unbound(1,4) window by auto
  next
    case (ended opened b events server)
    have b: "b = [Umask 63, Bind ?path, Umask old_umask, Chmod ?path 384, Listen 8]" using bound [OF ended(5)] by auto
    have session: "sv_pipe server = ev_pipe ev" "sv_user server = ev_user ev" using bridge_loop_session [OF ended(6)] by (simp_all add: initial_server_def)
    obtain front where front: "shut_down hs ev ?path server = front @ [User_Released (ev_pipe ev) (ev_user ev), Pipe_Released (ev_pipe ev), Library_Closed]"
        "Bind q \<notin> set front" "Listen n \<notin> set front" "Path_Removed q \<in> set front \<longrightarrow> q = ?path \<and> ev_after ev = Path_Is True (ev_uid ev)"
      unfolding shut_down_def session using removed(3) [of q] removed(4) [of n] removal_safe [of q ?path "ev_after ev"]
      by (fastforce simp: Let_def)
    note log = ended(7) [unfolded b front(1)]
    have "log = (opened @ ?r1) @ [Umask 63, Bind ?path, Umask old_umask] @ [Chmod ?path 384, Listen 8] @ [Ready] @ map Serving events @
        front @ [User_Released (ev_pipe ev) (ev_user ev), Pipe_Released (ev_pipe ev), Library_Closed]" using log by simp
    then have window: "\<exists>before after. log = before @ [Umask 63, Bind ?path, Umask old_umask] @ after" by blast
    have "log = (opened @ ?r1 @ [Umask 63, Bind ?path, Umask old_umask]) @ [Chmod ?path 384, Listen 8] @ ([Ready] @ map Serving events @
        front @ [User_Released (ev_pipe ev) (ev_user ev), Pipe_Released (ev_pipe ev), Library_Closed])" using log by simp
    then have restricted: "\<exists>before after. log = before @ [Chmod ?path 384, Listen 8] @ after" by blast
    have "log = (opened @ ?r1 @ [Umask 63, Bind ?path, Umask old_umask, Chmod ?path 384, Listen 8, Ready] @ map Serving events @ front) @
        [User_Released (ev_pipe ev) (ev_user ev), Pipe_Released (ev_pipe ev), Library_Closed]" using log by simp
    then have last: "\<exists>before. log = before @ [User_Released (ev_pipe ev) (ev_user ev), Pipe_Released (ev_pipe ev), Library_Closed]" by blast
    have "Bind q \<in> set log \<Longrightarrow> q = ?path" "Listen n \<in> set log \<Longrightarrow> n = 8"
      using log front quiet [OF ended(2)] removed by auto
    moreover have "Path_Removed q \<in> set log \<longrightarrow> q = ?path \<and> (ev_before ev = Path_Is True (ev_uid ev) \<or> ev_after ev = Path_Is True (ev_uid ev))"
      using log front(4) quiet [OF ended(2)] removal_safe by auto
    ultimately show ?thesis using free [OF ended(3)] ended(4) window restricted last by auto
  qed
qed

definition demo_start :: bridge_start where
  "demo_start = \<lparr>ev_workdir = None, ev_chdir = True, ev_argument = None, ev_socket = Some ''/tmp/b'', ev_dlopen = True, ev_symbols = True, ev_pipe = 1, ev_user = 1,
     ev_client = True, ev_user_iface = True, ev_html = False, ev_steam_id = 5, ev_ticket_generic = True, ev_ticket_created = True, ev_listener = True, ev_uid = 10001,
     ev_before = Path_Is True 10001, ev_before_unlink = True, ev_bind = True, ev_chmod = True, ev_listen = True, ev_after = Path_Is True 10001, ev_after_unlink = True\<rparr>"

theorem bridge_main_safe_witness:
  "\<exists>log. bridge_main demo_handlers () demo_start 18 [Poll_Idle, Stop_Signal] = Some (0, log) \<and> Path_Removed ''/tmp/b'' \<in> set log \<and> Bind ''/tmp/b'' \<in> set log \<and>
     Listen 8 \<in> set log \<and> (\<exists>before. log = before @ [User_Released 1 1, Pipe_Released 1, Library_Closed])"
proof -
  obtain log where log: "bridge_main demo_handlers () demo_start 18 [Poll_Idle, Stop_Signal] = Some (0, log)" "Path_Removed ''/tmp/b'' \<in> set log"
      "Bind ''/tmp/b'' \<in> set log" "Listen 8 \<in> set log"
    by (simp add: bridge_main_def demo_start_def socket_path_def safe_remove_socket_def bind_socket_def removal_def initial_server_def shut_down_def Let_def)
  from bridge_main_safe [OF log(1), of "''/tmp/b''" 8] have "\<exists>before. log = before @ [User_Released (ev_pipe demo_start) (ev_user demo_start), Pipe_Released (ev_pipe demo_start), Library_Closed]"
    by blast
  then show ?thesis using log by (simp add: demo_start_def)
qed

end
