(* ===== verification/Tgc_Bridge_Client.thy ===== *)
theory Tgc_Bridge_Client
  imports Tgc_Bridge_Props Tgc_Text
begin

text \<open>
  The command line client of the bridge, \<^verbatim>\<open>src/steam-bridge/client.c\<close>: it turns a command into one request, with a second message where the opcode has one, receives
  one response and turns it into an exit status and a line of output. The line is kept as the values that are printed.
\<close>

section \<open>Commands\<close>

record client_command =
  cc_opcode :: u16
  cc_game_server_method :: u32
  cc_mm_method :: u32
  cc_mm_query :: u32
  cc_mm_argument :: s32
  cc_method :: u32
  cc_id :: u64
  cc_arg0 :: u32
  cc_arg1 :: u32
  cc_arg2 :: u32
  cc_arg3 :: u32
  cc_data :: "u8 list"
  cc_data_size :: u32
  cc_text :: "string option"

definition default_command :: client_command where
  "default_command =
     \<lparr>cc_opcode = LSTEAM_BRIDGE_STATUS, cc_game_server_method = 8, cc_mm_method = 0, cc_mm_query = 0, cc_mm_argument = 0, cc_method = 0, cc_id = 0,
      cc_arg0 = 0, cc_arg1 = 0, cc_arg2 = 0, cc_arg3 = 0, cc_data = replicate 12 0, cc_data_size = 0, cc_text = None\<rparr>"

text \<open>A command: its name, how many arguments \<^verbatim>\<open>argc\<close> has to exceed, and what it sets. \<open>a\<close> are the arguments, \<open>a ! 0\<close> the name of the program.\<close>

type_synonym command_entry = "string \<times> nat \<times> (string list \<Rightarrow> client_command \<Rightarrow> client_command)"

abbreviation number32 :: "string list \<Rightarrow> nat \<Rightarrow> u32" where
  "number32 a i \<equiv> ucast (fst (strtoul (a ! i)))"

abbreviation number64 :: "string list \<Rightarrow> nat \<Rightarrow> u64" where
  "number64 a i \<equiv> fst (strtoul (a ! i))"

definition session_commands :: "command_entry list" where
  "session_commands =
     [(''ping'', 1, \<lambda>a c. c\<lparr>cc_opcode := LSTEAM_BRIDGE_PING\<rparr>),
      (''stop'', 1, \<lambda>a c. c\<lparr>cc_opcode := LSTEAM_BRIDGE_STOP\<rparr>),
      (''ticket'', 1, \<lambda>a c. c\<lparr>cc_opcode := LSTEAM_BRIDGE_GET_AUTH_TICKET\<rparr>),
      (''gameserver-status'', 1, \<lambda>a c. c\<lparr>cc_opcode := LSTEAM_BRIDGE_GAME_SERVER_CALL\<rparr>),
      (''gameserver-ticket'', 1, \<lambda>a c. c\<lparr>cc_opcode := LSTEAM_BRIDGE_GAME_SERVER_CALL, cc_game_server_method := 28\<rparr>),
      (''gameserver-reputation'', 1, \<lambda>a c. c\<lparr>cc_opcode := LSTEAM_BRIDGE_GAME_SERVER_CALL, cc_game_server_method := 35\<rparr>),
      (''gameserver-ip'', 1, \<lambda>a c. c\<lparr>cc_opcode := LSTEAM_BRIDGE_GAME_SERVER_CALL, cc_game_server_method := 36\<rparr>),
      (''callback'', 1, \<lambda>a c. c\<lparr>cc_opcode := LSTEAM_BRIDGE_GET_CALLBACK\<rparr>),
      (''callback-free'', 1, \<lambda>a c. c\<lparr>cc_opcode := LSTEAM_BRIDGE_FREE_CALLBACK\<rparr>),
      (''api-result'', 1, \<lambda>a c. c\<lparr>cc_opcode := LSTEAM_BRIDGE_GET_API_CALL_RESULT\<rparr>)]"

definition matchmaking_commands :: "command_entry list" where
  "matchmaking_commands =
     [(''mm-request'', 1, \<lambda>a c. c\<lparr>cc_opcode := LSTEAM_BRIDGE_MATCHMAKING_REQUEST\<rparr>),
      (''mm-ping'', 3, \<lambda>a c. c\<lparr>cc_opcode := LSTEAM_BRIDGE_MATCHMAKING_REQUEST, cc_mm_method := 13, cc_mm_query := number32 a 3\<rparr>),
      (''mm-players'', 3, \<lambda>a c. c\<lparr>cc_opcode := LSTEAM_BRIDGE_MATCHMAKING_REQUEST, cc_mm_method := 14, cc_mm_query := number32 a 3\<rparr>),
      (''mm-rules'', 3, \<lambda>a c. c\<lparr>cc_opcode := LSTEAM_BRIDGE_MATCHMAKING_REQUEST, cc_mm_method := 15, cc_mm_query := number32 a 3\<rparr>),
      (''mm-pump'', 2, \<lambda>a c. c\<lparr>cc_opcode := LSTEAM_BRIDGE_MATCHMAKING_CALL, cc_mm_method := 17, cc_mm_query := number32 a 2\<rparr>),
      (''mm-cancel-server'', 2, \<lambda>a c. c\<lparr>cc_opcode := LSTEAM_BRIDGE_MATCHMAKING_CALL, cc_mm_method := 16, cc_mm_query := number32 a 2\<rparr>),
      (''mm-count'', 2, \<lambda>a c. c\<lparr>cc_opcode := LSTEAM_BRIDGE_MATCHMAKING_CALL, cc_mm_method := 11, cc_mm_query := number32 a 2\<rparr>),
      (''mm-details'', 3, \<lambda>a c. c\<lparr>cc_opcode := LSTEAM_BRIDGE_MATCHMAKING_CALL, cc_mm_method := 7, cc_mm_query := number32 a 2,
         cc_mm_argument := ucast (strtol10 (a ! 3))\<rparr>),
      (''mm-release'', 2, \<lambda>a c. c\<lparr>cc_opcode := LSTEAM_BRIDGE_MATCHMAKING_CALL, cc_mm_method := 6, cc_mm_query := number32 a 2\<rparr>)]"

definition account_commands :: "command_entry list" where
  "account_commands =
     [(''friends-persona'', 1, \<lambda>a c. c\<lparr>cc_opcode := LSTEAM_BRIDGE_FRIENDS_CALL\<rparr>),
      (''friends-count'', 1, \<lambda>a c. c\<lparr>cc_opcode := LSTEAM_BRIDGE_FRIENDS_CALL, cc_method := 2, cc_arg0 := 0xffff\<rparr>),
      (''friends-name'', 2, \<lambda>a c. c\<lparr>cc_opcode := LSTEAM_BRIDGE_FRIENDS_CALL, cc_method := 6, cc_id := number64 a 2\<rparr>),
      (''friends-has'', 2, \<lambda>a c. c\<lparr>cc_opcode := LSTEAM_BRIDGE_FRIENDS_CALL, cc_method := 7, cc_id := number64 a 2, cc_arg0 := 0xffff\<rparr>),
      (''friends-avatar'', 2, \<lambda>a c. c\<lparr>cc_opcode := LSTEAM_BRIDGE_FRIENDS_CALL, cc_method := 14, cc_id := number64 a 2\<rparr>),
      (''user-license'', 3, \<lambda>a c. c\<lparr>cc_opcode := LSTEAM_BRIDGE_USER_CALL, cc_method := 3, cc_id := number64 a 2, cc_arg0 := number32 a 3\<rparr>),
      (''lobby-favorites'', 1, \<lambda>a c. c\<lparr>cc_opcode := LSTEAM_BRIDGE_LOBBY_CALL\<rparr>),
      (''lobby-request'', 1, \<lambda>a c. c\<lparr>cc_opcode := LSTEAM_BRIDGE_LOBBY_CALL, cc_method := 4\<rparr>),
      (''utils-country'', 1, \<lambda>a c. c\<lparr>cc_opcode := LSTEAM_BRIDGE_UTILS_CALL, cc_method := 4\<rparr>),
      (''utils-time'', 1, \<lambda>a c. c\<lparr>cc_opcode := LSTEAM_BRIDGE_UTILS_CALL, cc_method := 3\<rparr>),
      (''utils-image'', 2, \<lambda>a c. c\<lparr>cc_opcode := LSTEAM_BRIDGE_UTILS_CALL, cc_method := 0, cc_arg0 := number32 a 2\<rparr>),
      (''remote-quota'', 1, \<lambda>a c. c\<lparr>cc_opcode := LSTEAM_BRIDGE_REMOTE_STORAGE_CALL, cc_method := 20\<rparr>),
      (''remote-cloud'', 1, \<lambda>a c. c\<lparr>cc_opcode := LSTEAM_BRIDGE_REMOTE_STORAGE_CALL, cc_method := 22\<rparr>),
      (''remote-size'', 2, \<lambda>a c. c\<lparr>cc_opcode := LSTEAM_BRIDGE_REMOTE_STORAGE_CALL, cc_method := 15, cc_text := Some (a ! 2)\<rparr>),
      (''network-available'', 1, \<lambda>a c. c\<lparr>cc_opcode := LSTEAM_BRIDGE_NETWORKING_CALL, cc_method := 1,
         cc_arg0 := if length a > 2 then number32 a 2 else 0\<rparr>)]"

definition statistics_commands :: "command_entry list" where
  "statistics_commands =
     [(''gameserver-stats-request'', 2, \<lambda>a c. c\<lparr>cc_opcode := LSTEAM_BRIDGE_GAME_SERVER_STATS_CALL, cc_method := 0, cc_id := number64 a 2\<rparr>),
      (''userstats-request'', 1, \<lambda>a c. c\<lparr>cc_opcode := LSTEAM_BRIDGE_USER_STATS_CALL, cc_method := 0\<rparr>),
      (''userstats-count'', 1, \<lambda>a c. c\<lparr>cc_opcode := LSTEAM_BRIDGE_USER_STATS_CALL, cc_method := 14\<rparr>),
      (''userstats-name'', 2, \<lambda>a c. c\<lparr>cc_opcode := LSTEAM_BRIDGE_USER_STATS_CALL, cc_method := 15, cc_arg0 := number32 a 2\<rparr>),
      (''ugc-count'', 2, \<lambda>a c. c\<lparr>cc_opcode := LSTEAM_BRIDGE_UGC_CALL, cc_method := 4, cc_arg3 := number32 a 2\<rparr>),
      (''ugc-query'', 2, \<lambda>a c. c\<lparr>cc_opcode := LSTEAM_BRIDGE_UGC_CALL, cc_method := 0, cc_arg0 := 209060904, cc_arg1 := 6, cc_arg2 := - 1, cc_arg3 := number32 a 2,
         cc_data_size := 12, cc_data := le_bytes 4 (224260 :: u32) @ le_bytes 4 (224260 :: u32) @ le_bytes 4 (1 :: u32)\<rparr>),
      (''ugc-send'', 3, \<lambda>a c. c\<lparr>cc_opcode := LSTEAM_BRIDGE_UGC_CALL, cc_method := 1, cc_arg3 := number32 a 2, cc_id := number64 a 3\<rparr>),
      (''ugc-release'', 3, \<lambda>a c. c\<lparr>cc_opcode := LSTEAM_BRIDGE_UGC_CALL, cc_method := 6, cc_arg3 := number32 a 2, cc_id := number64 a 3\<rparr>),
      (''ugc-state'', 3, \<lambda>a c. c\<lparr>cc_opcode := LSTEAM_BRIDGE_UGC_CALL, cc_method := 8, cc_arg3 := number32 a 2, cc_id := number64 a 3\<rparr>)]"

definition application_commands :: "command_entry list" where
  "application_commands =
     [(''apps-language'', 1, \<lambda>a c. c\<lparr>cc_opcode := LSTEAM_BRIDGE_APPS_CALL, cc_method := 4\<rparr>),
      (''apps-build'', 1, \<lambda>a c. c\<lparr>cc_opcode := LSTEAM_BRIDGE_APPS_CALL, cc_method := 19\<rparr>),
      (''apps-subscribed'', 2, \<lambda>a c. c\<lparr>cc_opcode := LSTEAM_BRIDGE_APPS_CALL, cc_method := 6, cc_arg0 := number32 a 2\<rparr>),
      (''apps-install-dir'', 2, \<lambda>a c. c\<lparr>cc_opcode := LSTEAM_BRIDGE_APPS_CALL, cc_method := 14, cc_arg0 := number32 a 2\<rparr>),
      (''http-create'', 3, \<lambda>a c. c\<lparr>cc_opcode := LSTEAM_BRIDGE_HTTP_CALL, cc_method := 0, cc_arg0 := number32 a 2, cc_text := Some (a ! 3)\<rparr>),
      (''http-send'', 2, \<lambda>a c. c\<lparr>cc_opcode := LSTEAM_BRIDGE_HTTP_CALL, cc_method := 5, cc_arg0 := number32 a 2\<rparr>),
      (''http-body-size'', 2, \<lambda>a c. c\<lparr>cc_opcode := LSTEAM_BRIDGE_HTTP_CALL, cc_method := 11, cc_arg0 := number32 a 2\<rparr>),
      (''http-body-chunk'', 3, \<lambda>a c. c\<lparr>cc_opcode := LSTEAM_BRIDGE_HTTP_CALL, cc_method := 12, cc_arg0 := number32 a 2, cc_arg1 := number32 a 3\<rparr>)]"

definition other_commands :: "command_entry list" where
  "other_commands =
     [(''inventory-all'', 1, \<lambda>a c. c\<lparr>cc_opcode := LSTEAM_BRIDGE_INVENTORY_CALL, cc_method := 6\<rparr>),
      (''inventory-status'', 2, \<lambda>a c. c\<lparr>cc_opcode := LSTEAM_BRIDGE_INVENTORY_CALL, cc_method := 0, cc_arg0 := number32 a 2\<rparr>),
      (''inventory-item-count'', 2, \<lambda>a c. c\<lparr>cc_opcode := LSTEAM_BRIDGE_INVENTORY_CALL, cc_method := 1, cc_arg0 := number32 a 2\<rparr>),
      (''inventory-load-definitions'', 1, \<lambda>a c. c\<lparr>cc_opcode := LSTEAM_BRIDGE_INVENTORY_CALL, cc_method := 20\<rparr>),
      (''inventory-definition-count'', 1, \<lambda>a c. c\<lparr>cc_opcode := LSTEAM_BRIDGE_INVENTORY_CALL, cc_method := 21\<rparr>),
      (''inventory-price-count'', 1, \<lambda>a c. c\<lparr>cc_opcode := LSTEAM_BRIDGE_INVENTORY_CALL, cc_method := 27\<rparr>),
      (''game-search-cancel'', 1, \<lambda>a c. c\<lparr>cc_opcode := LSTEAM_BRIDGE_GAME_SEARCH_CALL, cc_method := 11\<rparr>),
      (''app-list-count'', 1, \<lambda>a c. c\<lparr>cc_opcode := LSTEAM_BRIDGE_APP_LIST_CALL, cc_method := 0\<rparr>),
      (''app-list-build'', 2, \<lambda>a c. c\<lparr>cc_opcode := LSTEAM_BRIDGE_APP_LIST_CALL, cc_method := 4, cc_arg0 := number32 a 2\<rparr>),
      (''video-broadcasting'', 1, \<lambda>a c. c\<lparr>cc_opcode := LSTEAM_BRIDGE_VIDEO_CALL, cc_method := 1\<rparr>),
      (''parental-status'', 1, \<lambda>a c. c\<lparr>cc_opcode := LSTEAM_BRIDGE_PARENTAL_CALL, cc_method := 0\<rparr>),
      (''parental-app-blocked'', 2, \<lambda>a c. c\<lparr>cc_opcode := LSTEAM_BRIDGE_PARENTAL_CALL, cc_method := 2, cc_arg0 := number32 a 2\<rparr>),
      (''network-messages-receive'', 1, \<lambda>a c. c\<lparr>cc_opcode := LSTEAM_BRIDGE_NETWORK_MESSAGES_CALL, cc_method := 1\<rparr>),
      (''client-bind-any'', 1, \<lambda>a c. c\<lparr>cc_opcode := LSTEAM_BRIDGE_CLIENT_CALL, cc_method := 0, cc_data_size := 4\<rparr>),
      (''html-init'', 1, \<lambda>a c. c\<lparr>cc_opcode := LSTEAM_BRIDGE_HTML_CALL, cc_method := 0\<rparr>),
      (''html-create'', 1, \<lambda>a c. c\<lparr>cc_opcode := LSTEAM_BRIDGE_HTML_CALL, cc_method := 2, cc_text := Some ''lsteambridge-smoke''\<rparr>)]"

definition client_commands :: "command_entry list" where
  "client_commands = session_commands @ matchmaking_commands @ account_commands @ statistics_commands @ application_commands @ other_commands"

text \<open>The first entry that fits; without a name the status is asked for, with an unknown one the usage is shown.\<close>

definition parse_command :: "string list \<Rightarrow> client_command option" where
  "parse_command a =
     (case find (\<lambda>(name, least, f). length a > least \<and> a ! 1 = name) client_commands of
        Some (name, least, f) \<Rightarrow> Some (f a default_command)
      | None \<Rightarrow> if length a > 1 \<and> a ! 1 \<noteq> ''status'' then None else Some default_command)"

section \<open>Messages sent\<close>

definition client_request :: "client_command \<Rightarrow> lsteam_bridge_request" where
  "client_request c = \<lparr>rq_magic = LSTEAM_BRIDGE_MAGIC, rq_version = LSTEAM_BRIDGE_VERSION, rq_opcode = cc_opcode c, rq_sequence = 1\<rparr>"

definition client_mm_request :: "string list \<Rightarrow> client_command \<Rightarrow> lsteam_bridge_mm_request" where
  "client_mm_request a c =
     \<lparr>mq_method = cc_mm_method c, mq_app_id = (if length a > 2 \<and> cc_opcode c = LSTEAM_BRIDGE_MATCHMAKING_REQUEST then number32 a 2 else 224260),
      mq_query_id = cc_mm_query c, mq_argument = cc_mm_argument c, mq_filter_count = 0,
      mq_filters = replicate LSTEAM_BRIDGE_MAX_MM_FILTERS \<lparr>mf_key = zeroes LSTEAM_BRIDGE_MM_TEXT, mf_value = zeroes LSTEAM_BRIDGE_MM_TEXT\<rparr>\<rparr>"

definition blank_game_server_request :: lsteam_bridge_game_server_request where
  "blank_game_server_request =
     \<lparr>gq_method = 0, gq_arg0 = 0, gq_arg1 = 0, gq_arg2 = 0, gq_arg3 = 0, gq_steam_id = 0, gq_data_size = 0, gq_text = zeroes LSTEAM_BRIDGE_MAX_TEXT,
      gq_value = zeroes LSTEAM_BRIDGE_MAX_TEXT, gq_data = zeroes LSTEAM_BRIDGE_MAX_TICKET\<rparr>"

definition client_interface_request :: "client_command \<Rightarrow> lsteam_bridge_game_server_request" where
  "client_interface_request c =
     (let q = blank_game_server_request\<lparr>gq_method := cc_method c, gq_steam_id := cc_id c, gq_arg0 := cc_arg0 c, gq_arg1 := cc_arg1 c, gq_arg2 := cc_arg2 c,
                gq_arg3 := cc_arg3 c, gq_data_size := cc_data_size c\<rparr>;
          q = (if cc_data_size c \<noteq> 0 then q\<lparr>gq_data := store_bytes (gq_data q) (take (unat (cc_data_size c)) (cc_data c))\<rparr> else q)
      in case cc_text c of
           None \<Rightarrow> q
         | Some s \<Rightarrow> q\<lparr>gq_text := store_bytes (gq_text q) (map of_char (take (LSTEAM_BRIDGE_MAX_TEXT - 1) s) @ [0])\<rparr>)"

definition client_interface_opcodes :: "u16 list" where
  "client_interface_opcodes =
     [LSTEAM_BRIDGE_CLIENT_CALL, LSTEAM_BRIDGE_USER_CALL, LSTEAM_BRIDGE_FRIENDS_CALL, LSTEAM_BRIDGE_UTILS_CALL, LSTEAM_BRIDGE_REMOTE_STORAGE_CALL,
      LSTEAM_BRIDGE_NETWORKING_CALL, LSTEAM_BRIDGE_GAME_SERVER_STATS_CALL, LSTEAM_BRIDGE_USER_STATS_CALL, LSTEAM_BRIDGE_UGC_CALL, LSTEAM_BRIDGE_APPS_CALL,
      LSTEAM_BRIDGE_HTTP_CALL, LSTEAM_BRIDGE_INVENTORY_CALL, LSTEAM_BRIDGE_GAME_SEARCH_CALL, LSTEAM_BRIDGE_APP_LIST_CALL, LSTEAM_BRIDGE_VIDEO_CALL,
      LSTEAM_BRIDGE_PARENTAL_CALL, LSTEAM_BRIDGE_NETWORK_MESSAGES_CALL, LSTEAM_BRIDGE_NETWORK_UTILS_CALL, LSTEAM_BRIDGE_HTML_CALL, LSTEAM_BRIDGE_LOBBY_CALL]"

text \<open>The second message, for the opcodes that have one.\<close>

definition client_second :: "string list \<Rightarrow> client_command \<Rightarrow> u8 list option" where
  "client_second a c =
     (if cc_opcode c = LSTEAM_BRIDGE_MATCHMAKING_REQUEST \<or> cc_opcode c = LSTEAM_BRIDGE_MATCHMAKING_CALL then Some (encode_mm_request (client_mm_request a c))
      else if cc_opcode c = LSTEAM_BRIDGE_GAME_SERVER_CALL then
        Some (encode_game_server_request (blank_game_server_request\<lparr>gq_method := cc_game_server_method c\<rparr>))
      else if cc_opcode c \<in> set client_interface_opcodes then Some (encode_game_server_request (client_interface_request c))
      else if cc_opcode c = LSTEAM_BRIDGE_GET_API_CALL_RESULT then Some (encode_api_call_request \<lparr>ac_call = 1, ac_callback_size = 16, ac_callback_id = 703\<rparr>)
      else None)"

section \<open>The response\<close>

text \<open>What is printed beyond the numbers of a matchmaking response; a time is kept as the bits of its floating point number.\<close>

datatype mm_detail = No_Detail | Server_Item u32 u16 u16 "u8 list" "u8 list" "u8 list" | Player "u8 list" s32 u32 | Rule "u8 list" "u8 list"

definition text_at :: "u8 list \<Rightarrow> nat \<Rightarrow> nat \<Rightarrow> u8 list" where
  "text_at bytes p n = takeWhile (\<lambda>b. b \<noteq> 0) (take n (drop p bytes))"

definition mm_details :: "lsteam_bridge_mm_response \<Rightarrow> mm_detail" where
  "mm_details r =
     (if mr_data_size r = of_nat LSTEAM_BRIDGE_MM_ITEM_SIZE then
        Server_Item (le_word (take 4 (drop 4 (mr_data r)))) (le_word (take 2 (mr_data r))) (le_word (take 2 (drop 2 (mr_data r))))
          (text_at (mr_data r) 14 32) (text_at (mr_data r) 46 32) (text_at (mr_data r) 172 64)
      else if mr_event_kind r = 6 then Player (text_at (mr_data r) 0 128) (mr_event_index r) (mr_event_response r)
      else if mr_event_kind r = 9 then Rule (text_at (mr_data r) 0 256) (text_at (mr_data r) (LSTEAM_BRIDGE_MM_DATA_SIZE div 2) 256)
      else No_Detail)"

datatype client_line =
    Usage | Call_Failed string | Invalid string
  | Ticket_Line lsteam_bridge_ticket_response
  | Matchmaking_Line u32 lsteam_bridge_mm_response mm_detail
  | Game_Server_Line u32 lsteam_bridge_game_server_response
  | Interface_Line u32 lsteam_bridge_game_server_response "u8 list"
  | Callback_Line lsteam_bridge_callback_response
  | Api_Line lsteam_bridge_api_call_response u8
  | Status_Line lsteam_bridge_response

definition header_matches :: "client_command \<Rightarrow> 'a bridge_reply_scheme \<Rightarrow> bool" where
  "header_matches c r \<longleftrightarrow> rp_magic r = LSTEAM_BRIDGE_MAGIC \<and> rp_version r = LSTEAM_BRIDGE_VERSION \<and> rp_sequence r = rq_sequence (client_request c)"

abbreviation exit_code :: "bool \<Rightarrow> int" where
  "exit_code failed \<equiv> (if failed then 1 else 0)"

text \<open>The exit status and the output for the packet received, \<open>None\<close> when receiving or the second sending failed.\<close>

definition client_ticket :: "client_command \<Rightarrow> u8 list option \<Rightarrow> int \<times> client_line" where
  "client_ticket c packet =
     (case map_option decode_ticket_response (recv_struct (sizeof 8 16 ticket_response_members) packet) of
        None \<Rightarrow> (1, Call_Failed ''ticket'')
      | Some r \<Rightarrow>
          if \<not> header_matches c r \<or> unat (tk_ticket_size r) > LSTEAM_BRIDGE_MAX_TICKET then (1, Invalid ''ticket'')
          else (exit_code (rp_status r \<noteq> 0 \<or> tk_ticket_handle r = 0 \<or> tk_ticket_size r = 0), Ticket_Line r))"

definition client_matchmaking :: "client_command \<Rightarrow> u8 list option \<Rightarrow> int \<times> client_line" where
  "client_matchmaking c packet =
     (case map_option decode_mm_response (recv_struct (sizeof 8 16 mm_response_members) packet) of
        None \<Rightarrow> (1, Call_Failed ''matchmaking'')
      | Some r \<Rightarrow>
          if \<not> header_matches c r then (1, Invalid ''matchmaking'')
          else (exit_code (rp_status r \<noteq> 0), Matchmaking_Line (cc_mm_method c) r (mm_details r)))"

definition client_game_server :: "client_command \<Rightarrow> u8 list option \<Rightarrow> int \<times> client_line" where
  "client_game_server c packet =
     (case map_option decode_game_server_response (recv_struct (sizeof 8 16 game_server_response_members) packet) of
        None \<Rightarrow> (1, Call_Failed ''gameserver'')
      | Some r \<Rightarrow>
          if \<not> header_matches c r then (1, Invalid ''gameserver'')
          else (exit_code (rp_status r \<noteq> 0), Game_Server_Line (cc_game_server_method c) r))"

definition client_interface :: "client_command \<Rightarrow> u8 list option \<Rightarrow> int \<times> client_line" where
  "client_interface c packet =
     (case map_option decode_game_server_response (recv_struct (sizeof 8 16 game_server_response_members) packet) of
        None \<Rightarrow> (1, Call_Failed ''interface'')
      | Some r \<Rightarrow>
          if \<not> header_matches c r \<or> rp_opcode r \<noteq> cc_opcode c \<or> unat (gr_data_size r) > LSTEAM_BRIDGE_MAX_TICKET then (1, Invalid ''interface'')
          else (exit_code (rp_status r \<noteq> 0), Interface_Line (cc_method c) r (text_at (gr_data r) 0 (unat (gr_data_size r)))))"

definition client_callback :: "client_command \<Rightarrow> u8 list option \<Rightarrow> int \<times> client_line" where
  "client_callback c packet =
     (case map_option decode_callback_response (recv_struct (sizeof 8 16 callback_response_members) packet) of
        None \<Rightarrow> (1, Call_Failed ''callback'')
      | Some r \<Rightarrow>
          if \<not> header_matches c r then (1, Invalid ''callback'')
          else (if rp_status r = - EAGAIN then 0 else exit_code (rp_status r \<noteq> 0), Callback_Line r))"

definition client_api_result :: "client_command \<Rightarrow> u8 list option \<Rightarrow> int \<times> client_line" where
  "client_api_result c packet =
     (case map_option decode_api_call_response (recv_struct (sizeof 8 16 api_call_response_members) packet) of
        None \<Rightarrow> (1, Call_Failed ''API result'')
      | Some r \<Rightarrow>
          if \<not> header_matches c r \<or> unat (ar_data_size r) > LSTEAM_BRIDGE_MAX_CALLBACK then (1, Invalid ''API result'')
          else (exit_code (rp_status r \<noteq> 0), Api_Line r (if ar_data_size r \<noteq> 0 then ar_data r ! 0 else 0)))"

definition client_status :: "client_command \<Rightarrow> u8 list option \<Rightarrow> int \<times> client_line" where
  "client_status c packet =
     (case map_option decode_response (recv_struct (sizeof 8 16 response_members) packet) of
        None \<Rightarrow> (1, Call_Failed ''exchange'')
      | Some r \<Rightarrow>
          if \<not> header_matches c r then (1, Invalid [])
          else (exit_code (rp_status r \<noteq> 0), Status_Line r))"

definition client_reply :: "client_command \<Rightarrow> u8 list option \<Rightarrow> int \<times> client_line" where
  "client_reply c packet =
     (if cc_opcode c = LSTEAM_BRIDGE_GET_AUTH_TICKET then client_ticket c packet
      else if cc_opcode c = LSTEAM_BRIDGE_MATCHMAKING_REQUEST \<or> cc_opcode c = LSTEAM_BRIDGE_MATCHMAKING_CALL then client_matchmaking c packet
      else if cc_opcode c = LSTEAM_BRIDGE_GAME_SERVER_CALL then client_game_server c packet
      else if cc_opcode c \<in> set client_interface_opcodes then client_interface c packet
      else if cc_opcode c = LSTEAM_BRIDGE_GET_CALLBACK then client_callback c packet
      else if cc_opcode c = LSTEAM_BRIDGE_GET_API_CALL_RESULT then client_api_result c packet
      else client_status c packet)"

text \<open>
  The whole client: \<open>sock\<close>, \<open>con\<close> and \<open>sent\<close> say whether the socket, the connection and the first sending succeed; \<open>peer\<close> is what receiving yields after the two messages.
  The result has the messages sent.
\<close>

definition client_main ::
  "string option \<Rightarrow> string list \<Rightarrow> bool \<Rightarrow> bool \<Rightarrow> bool \<Rightarrow> (u8 list \<Rightarrow> u8 list option \<Rightarrow> u8 list option) \<Rightarrow> int \<times> client_line \<times> u8 list list" where
  "client_main env_socket a sock con sent peer =
     (let path = (case env_socket of None \<Rightarrow> LSTEAM_BRIDGE_DEFAULT_SOCKET | Some p \<Rightarrow> if p = [] then LSTEAM_BRIDGE_DEFAULT_SOCKET else p) in
      case parse_command a of
        None \<Rightarrow> (2, Usage, [])
      | Some c \<Rightarrow>
          if length path \<ge> 108 then (2, Call_Failed [], [])
          else if \<not> sock then (2, Call_Failed ''socket'', [])
          else if \<not> con then (1, Call_Failed ''connect'', [])
          else if \<not> sent then (1, Call_Failed ''exchange'', [])
          else
            let first = encode_request (client_request c); second = client_second a c in
            case client_reply c (peer first second) of (code, line) \<Rightarrow>
              (code, line, first # (case second of None \<Rightarrow> [] | Some bytes \<Rightarrow> [bytes])))"

section \<open>The client and the server\<close>

text \<open>The opcodes the client can send.\<close>

definition client_opcodes :: "u16 list" where
  "client_opcodes =
     [LSTEAM_BRIDGE_PING, LSTEAM_BRIDGE_STATUS, LSTEAM_BRIDGE_STOP, LSTEAM_BRIDGE_GET_AUTH_TICKET, LSTEAM_BRIDGE_GAME_SERVER_CALL, LSTEAM_BRIDGE_GET_CALLBACK,
      LSTEAM_BRIDGE_FREE_CALLBACK, LSTEAM_BRIDGE_GET_API_CALL_RESULT, LSTEAM_BRIDGE_MATCHMAKING_REQUEST, LSTEAM_BRIDGE_MATCHMAKING_CALL] @ client_interface_opcodes"

lemma command_opcodes:
  "list_all (\<lambda>(name, least, f). \<forall>a. cc_opcode (f a default_command) \<in> set client_opcodes) session_commands"
  "list_all (\<lambda>(name, least, f). \<forall>a. cc_opcode (f a default_command) \<in> set client_opcodes) matchmaking_commands"
  "list_all (\<lambda>(name, least, f). \<forall>a. cc_opcode (f a default_command) \<in> set client_opcodes) account_commands"
  "list_all (\<lambda>(name, least, f). \<forall>a. cc_opcode (f a default_command) \<in> set client_opcodes) statistics_commands"
  "list_all (\<lambda>(name, least, f). \<forall>a. cc_opcode (f a default_command) \<in> set client_opcodes) application_commands"
  "list_all (\<lambda>(name, least, f). \<forall>a. cc_opcode (f a default_command) \<in> set client_opcodes) other_commands"
  by (simp_all add: session_commands_def matchmaking_commands_def account_commands_def statistics_commands_def application_commands_def other_commands_def
      client_opcodes_def client_interface_opcodes_def)

lemma parse_command_opcode:
  assumes "parse_command a = Some c"
  shows "cc_opcode c \<in> set client_opcodes"
proof (cases "find (\<lambda>(name, least, f). length a > least \<and> a ! 1 = name) client_commands")
  case None
  then show ?thesis using assms by (auto simp: parse_command_def default_command_def client_opcodes_def split: if_splits)
next
  case (Some entry)
  obtain name least f where e: "entry = (name, least, f)" by (cases entry)
  have "entry \<in> set client_commands" using Some by (metis find_Some_iff nth_mem)
  moreover have "list_all (\<lambda>(name, least, f). \<forall>a. cc_opcode (f a default_command) \<in> set client_opcodes) client_commands"
    by (simp add: client_commands_def command_opcodes)
  ultimately have "cc_opcode (f a default_command) \<in> set client_opcodes" using e by (auto simp: list_all_iff)
  then show ?thesis using assms Some e by (simp add: parse_command_def)
qed

text \<open>The status of a response, where every response has it.\<close>

definition reply_status :: "u8 list \<Rightarrow> s32" where
  "reply_status bytes = le_word (take 4 (drop 12 bytes))"

lemma status_of_reply: "reply_status (pack_struct 8 16 (reply_members @ ms) (reply_chunks r @ cs)) = rp_status r"
  by (simp add: reply_status_def pack_struct_def reply_members_def reply_chunks_def align_up_def sizeof_def)

lemma encoded_status:
  "reply_status (encode_response r1) = rp_status r1" "reply_status (encode_ticket_response r2) = rp_status r2"
  "reply_status (encode_callback_response r3) = rp_status r3" "reply_status (encode_api_call_response r4) = rp_status r4"
  "reply_status (encode_mm_response r5) = rp_status r5" "reply_status (encode_game_server_response r6) = rp_status r6"
  unfolding encode_reply_defs by (rule status_of_reply)+

lemma header_matches_stamped: "stamped opcode (rq_sequence (client_request c)) r \<Longrightarrow> header_matches c r"
  by (simp add: stamped_def header_matches_def)

lemma auth_ticket_status:
  "rp_status (get_auth_ticket iface an request) = 0 \<longleftrightarrow>
     tk_ticket_handle (get_auth_ticket iface an request) \<noteq> 0 \<and> tk_ticket_size (get_auth_ticket iface an request) \<noteq> 0"
  by (simp add: get_auth_ticket_def Let_def)

lemma api_result_size: "unat (ar_data_size (get_api_call_result an packet request server)) \<le> LSTEAM_BRIDGE_MAX_CALLBACK"
  by (auto simp: get_api_call_result_def Let_def stamp_def blank_api_call_response_def split: option.split prod.split)

lemma interface_opcodes_client: "set client_interface_opcodes \<subseteq> set interface_opcodes"
  by (simp add: client_interface_opcodes_def interface_opcodes_def)

text \<open>
  C16. The client understands the server. Whatever command is given and whatever the library answers, the server sends one response to the client's messages, which is
  received whole and passes the client's checks, unless a size it reports exceeds the array it goes with; and the client's exit status is zero exactly when the status in the
  response is, a missing callback counting as success. A \<^verbatim>\<open>status\<close> command shows the values of the running server.
\<close>

theorem client_server_exchange:
  assumes "parse_command a = Some c" and "handlers_ok hs"
    and "serve_request hs an (client_second a c) (client_request c) server = (events, continued, server')"
    and "client_reply c (received_reply events) = (code, line)"
  shows "\<exists>bytes. sent_replies events = [bytes] \<and> (\<forall>w. line \<noteq> Call_Failed w) \<and> line \<noteq> Usage \<and>
    ((\<exists>w. line = Invalid w) \<longrightarrow>
      cc_opcode c = LSTEAM_BRIDGE_GET_AUTH_TICKET \<and> unat (snd (snd (an_auth_ticket an))) > LSTEAM_BRIDGE_MAX_TICKET \<or>
      cc_opcode c \<in> set client_interface_opcodes \<and> (\<exists>r. bytes = encode_game_server_response r \<and> unat (gr_data_size r) > LSTEAM_BRIDGE_MAX_TICKET)) \<and>
    ((\<forall>w. line \<noteq> Invalid w) \<longrightarrow>
      (code = 0 \<longleftrightarrow> reply_status bytes = 0 \<or> cc_opcode c = LSTEAM_BRIDGE_GET_CALLBACK \<and> reply_status bytes = - EAGAIN)) \<and>
    (cc_opcode c = LSTEAM_BRIDGE_STATUS \<longrightarrow> line = Status_Line (fst (serve_status an (client_request c) server)) \<and> code = 0)"
  (is "\<exists>bytes. _ \<and> ?answered bytes")
proof -
  have opcode: "rq_opcode (client_request c) = cc_opcode c" by (simp add: client_request_def)
  have known: "cc_opcode c \<in> set client_opcodes" by (rule parse_command_opcode [OF assms(1)])
  obtain bytes where sent: "sent_replies events = [bytes]" using serve_request_one_reply [OF assms(3)] by blast
  then have reply4: "client_reply c (Some bytes) = (code, line)" using assms(4) by (simp add: received_reply_def)
  have "?answered bytes"
    using assms(3)
  proof (cases rule: serve_request_cases)
    case auth
    have bytes: "bytes = encode_ticket_response (get_auth_ticket (sv_user_iface server) an (client_request c))" using sent auth(2) by simp
    define r where "r = get_auth_ticket (sv_user_iface server) an (client_request c)"
    have ok: "stamped (cc_opcode c) (rq_sequence (client_request c)) r" "ticket_response_ok r"
      using auth_ticket_reply [of "client_request c"] by (simp_all add: r_def opcode)
    have reply: "client_reply c (Some bytes) = (if unat (tk_ticket_size r) > LSTEAM_BRIDGE_MAX_TICKET then (1, Invalid ''ticket'')
        else (exit_code (rp_status r \<noteq> 0 \<or> tk_ticket_handle r = 0 \<or> tk_ticket_size r = 0), Ticket_Line r))"
      unfolding bytes r_def [symmetric] client_reply_def client_ticket_def ticket_response_msg.received_decoded [OF ok(2)]
      using auth(1) header_matches_stamped [OF ok(1)] by (simp add: opcode)
    have "unat (tk_ticket_size r) > LSTEAM_BRIDGE_MAX_TICKET \<longrightarrow> unat (snd (snd (an_auth_ticket an))) > LSTEAM_BRIDGE_MAX_TICKET"
      by (simp add: r_def get_auth_ticket_def Let_def stamp_def blank_ticket_response_def split: prod.split)
    then show ?thesis using reply4 auth(1) bytes reply encoded_status(2) [of r] auth_ticket_status [of "sv_user_iface server" an "client_request c"]
      unfolding r_def by (auto simp: opcode split: if_splits)
  next
    case (app r)
    then show ?thesis using known by (simp add: opcode client_opcodes_def client_interface_opcodes_def)
  next
    case connection
    then show ?thesis using known by (simp add: opcode client_opcodes_def client_interface_opcodes_def)
  next
    case (voice r)
    then show ?thesis using known by (simp add: opcode client_opcodes_def client_interface_opcodes_def)
  next
    case (game_server r)
    have bytes: "bytes = encode_game_server_response r" using sent game_server(3) by simp
    have ok: "stamped (cc_opcode c) (rq_sequence (client_request c)) r" "game_server_response_ok r"
      using game_server_reply [OF assms(2) game_server(2,1)] by (simp_all add: opcode)
    have "client_reply c (Some bytes) = (exit_code (rp_status r \<noteq> 0), Game_Server_Line (cc_game_server_method c) r)"
      unfolding bytes client_reply_def client_game_server_def game_server_response_msg.received_decoded [OF ok(2)]
      using game_server(1) header_matches_stamped [OF ok(1)] by (simp add: opcode)
    then show ?thesis using reply4 game_server(1) bytes encoded_status(6) [of r] by (auto simp: opcode split: if_splits)
  next
    case (interface r)
    have bytes: "bytes = encode_game_server_response r" using sent interface(3) by simp
    have client: "cc_opcode c \<in> set client_interface_opcodes"
      using interface(1) known by (auto simp: opcode client_opcodes_def client_interface_opcodes_def interface_opcodes_def)
    have ok: "stamped (cc_opcode c) (rq_sequence (client_request c)) r" "game_server_response_ok r"
      using interface_reply [OF assms(2) interface(2,1)] by (simp_all add: opcode)
    have other: "cc_opcode c \<notin> set [4, 6, 7, 9, 10, 11, 2]" using client by (auto simp: client_interface_opcodes_def)
    have "client_reply c (Some bytes) = (if unat (gr_data_size r) > LSTEAM_BRIDGE_MAX_TICKET then (1, Invalid ''interface'')
        else (exit_code (rp_status r \<noteq> 0), Interface_Line (cc_method c) r (text_at (gr_data r) 0 (unat (gr_data_size r)))))"
      unfolding bytes client_reply_def client_interface_def game_server_response_msg.received_decoded [OF ok(2)]
      using client other header_matches_stamped [OF ok(1)] ok(1) by (simp add: stamped_def)
    then show ?thesis using reply4 bytes client other encoded_status(6) [of r] by (auto split: if_splits)
  next
    case (matchmaking r)
    have bytes: "bytes = encode_mm_response r" using sent matchmaking(3) by simp
    have ok: "stamped (cc_opcode c) (rq_sequence (client_request c)) r" "mm_response_ok r"
      using matchmaking_reply [OF assms(2) matchmaking(2)] by (simp_all add: opcode)
    have "client_reply c (Some bytes) = (exit_code (rp_status r \<noteq> 0), Matchmaking_Line (cc_mm_method c) r (mm_details r))"
      unfolding bytes client_reply_def client_matchmaking_def mm_response_msg.received_decoded [OF ok(2)]
      using matchmaking(1) header_matches_stamped [OF ok(1)] by (auto simp: opcode)
    then show ?thesis using reply4 matchmaking(1) bytes encoded_status(5) [of r] by (auto simp: opcode split: if_splits)
  next
    case (get r calls)
    have bytes: "bytes = encode_callback_response r" using sent get(3) by simp
    have ok: "stamped (cc_opcode c) (rq_sequence (client_request c)) r" "callback_response_ok r"
      using get_callback_reply [OF get(2)] by (simp_all add: opcode)
    have "client_reply c (Some bytes) = (if rp_status r = - EAGAIN then 0 else exit_code (rp_status r \<noteq> 0), Callback_Line r)"
      unfolding bytes client_reply_def client_callback_def callback_response_msg.received_decoded [OF ok(2)]
      using get(1) header_matches_stamped [OF ok(1)] by (simp add: opcode client_interface_opcodes_def)
    then show ?thesis using reply4 get(1) bytes encoded_status(3) [of r] by (auto simp: opcode client_interface_opcodes_def split: if_splits)
  next
    case api
    have bytes: "bytes = encode_api_call_response (get_api_call_result an (client_second a c) (client_request c) server)" using sent api(2) by simp
    define r where "r = get_api_call_result an (client_second a c) (client_request c) server"
    have ok: "stamped (cc_opcode c) (rq_sequence (client_request c)) r" "api_call_response_ok r" "unat (ar_data_size r) \<le> LSTEAM_BRIDGE_MAX_CALLBACK"
      using api_call_reply [of "client_request c" an "client_second a c" server] api_result_size [of an "client_second a c" "client_request c" server]
      by (simp_all add: r_def opcode)
    have "client_reply c (Some bytes) = (exit_code (rp_status r \<noteq> 0), Api_Line r (if ar_data_size r \<noteq> 0 then ar_data r ! 0 else 0))"
      unfolding bytes r_def [symmetric] client_reply_def client_api_result_def api_call_response_msg.received_decoded [OF ok(2)]
      using api(1) header_matches_stamped [OF ok(1)] ok(3) by (simp add: opcode client_interface_opcodes_def)
    then show ?thesis using reply4 api(1) bytes encoded_status(4) [of r] by (auto simp: opcode r_def client_interface_opcodes_def split: if_splits)
  next
    case (free r calls)
    have bytes: "bytes = encode_response r" using sent free(3) by simp
    have "client_reply c (Some bytes) = (exit_code (rp_status r \<noteq> 0), Status_Line r)"
      unfolding bytes client_reply_def client_status_def response_msg.received_decoded [OF TrueI]
      using free(1) header_matches_stamped [OF stamped_status(1) [OF free(2), unfolded opcode]] by (simp add: opcode client_interface_opcodes_def)
    then show ?thesis using reply4 free(1) bytes encoded_status(1) [of r] by (auto simp: opcode client_interface_opcodes_def split: if_splits)
  next
    case (status r)
    have bytes: "bytes = encode_response r" using sent status(2) by simp
    have none: "cc_opcode c \<notin> set interface_opcodes" "cc_opcode c \<notin> set [4, 34, 5, 6, 32, 10, 11, 7, 9]" using status(4) by (auto simp: opcode)
    then have other: "cc_opcode c \<notin> set client_interface_opcodes" using interface_opcodes_client by blast
    have "client_reply c (Some bytes) = (exit_code (rp_status r \<noteq> 0), Status_Line r)"
      unfolding bytes client_reply_def client_status_def response_msg.received_decoded [OF TrueI]
      using none other header_matches_stamped [OF stamped_status(2) [OF status(1), unfolded opcode]] by simp
    then have reply: "line = Status_Line r" "code = exit_code (rp_status r \<noteq> 0)" using reply4 by simp_all
    have r: "r = fst (serve_status an (client_request c) server)" by (simp add: status(1))
    have zero: "rp_status r = 0" if "cc_opcode c = LSTEAM_BRIDGE_STATUS" unfolding r using that by (simp add: serve_status_def opcode)
    have code: "code = 0 \<longleftrightarrow> reply_status bytes = 0" unfolding bytes encoded_status reply(2) by simp
    have "cc_opcode c \<noteq> LSTEAM_BRIDGE_GET_CALLBACK" "cc_opcode c \<noteq> LSTEAM_BRIDGE_GET_AUTH_TICKET" using none(2) by simp_all
    moreover have "cc_opcode c = LSTEAM_BRIDGE_STATUS \<longrightarrow> line = Status_Line (fst (serve_status an (client_request c) server)) \<and> code = 0"
      unfolding reply r [symmetric] using zero by simp
    ultimately show ?thesis using code reply(1) by blast
  qed
  then show ?thesis by (intro exI [of _ bytes] conjI [OF sent])
qed

theorem client_server_exchange_witness:
  "\<exists>events r. serve_request demo_handlers demo_answers (client_second [''client'', ''status''] default_command) (client_request default_command) demo_server =
       (events, False, demo_server) \<and>
     parse_command [''client'', ''status''] = Some default_command \<and> client_reply default_command (received_reply events) = (0, Status_Line r) \<and>
     rs_server_pid r = 7 \<and> rs_steam_id r = 76561198000000001"
proof -
  have parse: "parse_command [''client'', ''status''] = Some default_command"
    by (simp add: parse_command_def client_commands_def session_commands_def matchmaking_commands_def account_commands_def statistics_commands_def
        application_commands_def other_commands_def)
  let ?packet = "client_second [''client'', ''status''] default_command"
  obtain events where serve: "serve_request demo_handlers demo_answers ?packet (client_request default_command) demo_server = (events, False, demo_server)"
    by (simp add: serve_request_def serve_status_def interface_opcodes_def client_request_def default_command_def)
  obtain code line where reply: "client_reply default_command (received_reply events) = (code, line)" by (metis surj_pair)
  have "cc_opcode default_command = LSTEAM_BRIDGE_STATUS" by (simp add: default_command_def)
  with client_server_exchange [OF parse demo_handlers_ok serve reply]
  have "line = Status_Line (fst (serve_status demo_answers (client_request default_command) demo_server))" "code = 0" by blast+
  then show ?thesis using serve parse reply by (simp add: serve_status_def demo_answers_def demo_server_def)
qed

end
