(* ===== verification/Tgc_Bridge_Handlers.thy ===== *)
theory Tgc_Bridge_Handlers
  imports Tgc_Bridge_Props
begin

text \<open>
  Handlers of the bridge's interfaces: voice (\<^verbatim>\<open>voice_native.inc\<close>), HTML surface (\<^verbatim>\<open>html_native.inc\<close>), client (\<^verbatim>\<open>client_native.inc\<close>), parental settings
  (\<^verbatim>\<open>parental_native.inc\<close>) and game server (\<^verbatim>\<open>gameserver_native.inc\<close>). An interface pointer is whether it is there; what the library answers is an argument. Constants of the
  library's headers that matter for the behaviour are arguments too.
\<close>

abbreviation E2BIG :: s32 where "E2BIG \<equiv> 7"

text \<open>The contract of a handler for one opcode, over the responses whose arrays have their sizes.\<close>

locale bridge_handler =
  fixes opcode :: u16 and ok :: "'r bridge_reply_scheme \<Rightarrow> bool"
    and handle :: "'a \<Rightarrow> 'r bridge_reply_scheme \<Rightarrow> 'r bridge_reply_scheme"
  assumes stamps: "stamped opcode (rp_sequence r) (handle x r)"
    and keeps: "ok r \<Longrightarrow> ok (handle x r)"
begin

lemma handled: "ok r \<Longrightarrow> stamped opcode (rp_sequence r) (handle x r) \<and> ok (handle x r)"
  by (simp add: stamps keeps)

lemma repeats_header:
  assumes "ok r" "rp_sequence r = rq_sequence request" "rq_opcode request = opcode"
  shows "stamped (rq_opcode request) (rq_sequence request) (handle x r)"
  using assms stamps by metis

end

definition stamp_handled :: "u16 \<Rightarrow> 'r bridge_reply_scheme \<Rightarrow> 'r bridge_reply_scheme" where
  "stamp_handled opcode r = r\<lparr>rp_magic := LSTEAM_BRIDGE_MAGIC, rp_version := LSTEAM_BRIDGE_VERSION, rp_opcode := opcode, rp_status := 0\<rparr>"

section \<open>Voice\<close>

text \<open>The result codes of the library, and its answers to the calls of this interface.\<close>

record voice_results =
  vc_ok :: u32
  vc_not_initialized :: u32
  vc_too_small :: u32

record voice_answers =
  va_available :: "u32 \<times> u32 \<times> u32"
  va_voice :: "u32 \<times> u8 list \<times> u32 \<times> u8 list \<times> u32"
  va_decompressed :: "u32 \<times> u8 list \<times> u32"
  va_rate :: u32

definition store_at :: "u8 list \<Rightarrow> nat \<Rightarrow> u8 list \<Rightarrow> u8 list" where
  "store_at array p bytes = take (length array) (take p array @ bytes @ drop (p + length bytes) array)"

lemma length_store_at [simp]: "length (store_at array p bytes) = length array"
  by (simp add: store_at_def)

text \<open>
  Reading captured audio: the compressed bytes are written at the start of the array, the others behind the room left for them, and moved together afterwards. Of each part at
  most as many bytes are written as there is room for.
\<close>

definition voice_fits :: "lsteam_bridge_voice_request \<Rightarrow> bool" where
  "voice_fits q \<longleftrightarrow> \<not> (unat (vq_arg0 q) > LSTEAM_BRIDGE_MAX_VOICE \<or> vq_arg1 q > of_nat LSTEAM_BRIDGE_MAX_VOICE - vq_arg0 q)"

definition get_voice :: "voice_results \<Rightarrow> voice_answers \<Rightarrow> lsteam_bridge_voice_request \<Rightarrow> lsteam_bridge_voice_response \<Rightarrow> lsteam_bridge_voice_response" where
  "get_voice vc an q r =
     (if \<not> voice_fits q then r\<lparr>vr_result := vc_too_small vc, rp_status := - E2BIG\<rparr>
      else
        case va_voice an of (result, compressed_bytes, compressed_size, uncompressed_bytes, uncompressed_size) \<Rightarrow>
          let want_compressed = vq_flags q AND 1 \<noteq> 0;
              want_uncompressed = vq_flags q AND 2 \<noteq> 0;
              compressed = (if want_compressed then compressed_size else 0);
              uncompressed = (if want_uncompressed then uncompressed_size else 0);
              d = vr_data r;
              d = (if want_compressed then store_at d 0 (take (unat (vq_arg0 q)) compressed_bytes) else d);
              d = (if want_uncompressed then store_at d (unat (vq_arg0 q)) (take (unat (vq_arg1 q)) uncompressed_bytes) else d);
              r = r\<lparr>vr_result := result, vr_compressed_size := compressed, vr_uncompressed_size := uncompressed, vr_data := d\<rparr>
          in if compressed > vq_arg0 q \<or> uncompressed > vq_arg1 q \<or> compressed > of_nat LSTEAM_BRIDGE_MAX_VOICE - uncompressed then
               (if result \<noteq> vc_too_small vc then r\<lparr>rp_status := - EOVERFLOW\<rparr> else r)
             else
               let d = (if uncompressed \<noteq> 0 \<and> compressed \<noteq> vq_arg0 q
                        then store_at d (unat compressed) (take (unat uncompressed) (drop (unat (vq_arg0 q)) d)) else d)
               in r\<lparr>vr_data := d, vr_data_size := compressed + uncompressed\<rparr>)"

definition decompress_voice :: "voice_results \<Rightarrow> voice_answers \<Rightarrow> lsteam_bridge_voice_request \<Rightarrow> lsteam_bridge_voice_response \<Rightarrow> lsteam_bridge_voice_response" where
  "decompress_voice vc an q r =
     (if unat (vq_arg0 q) > LSTEAM_BRIDGE_MAX_VOICE then r\<lparr>vr_result := vc_too_small vc, rp_status := - E2BIG\<rparr>
      else
        case va_decompressed an of (result, bytes, written) \<Rightarrow>
          let r = r\<lparr>vr_result := result, vr_uncompressed_size := written, vr_data := store_at (vr_data r) 0 (take (unat (vq_arg0 q)) bytes)\<rparr>
          in if written > vq_arg0 q \<or> unat written > LSTEAM_BRIDGE_MAX_VOICE then
               (if result \<noteq> vc_too_small vc then r\<lparr>rp_status := - EOVERFLOW\<rparr> else r)
             else r\<lparr>vr_data_size := written\<rparr>)"

text \<open>The calls made, with what is asked for and the room offered.\<close>

datatype voice_call =
    Start_Recording | Stop_Recording | Available_Voice bool bool u32 | Captured_Voice bool u32 bool u32 u32 | Decompress "u8 list option" u32 u32 u32 | Optimal_Rate

definition handle_voice_call ::
  "voice_results \<Rightarrow> bool \<Rightarrow> voice_answers \<Rightarrow> lsteam_bridge_voice_request \<Rightarrow> lsteam_bridge_voice_response \<Rightarrow> lsteam_bridge_voice_response \<times> voice_call list" where
  "handle_voice_call vc steam_user an q r =
     (let r = (stamp_handled LSTEAM_BRIDGE_VOICE_CALL r)\<lparr>vr_result := vc_not_initialized vc\<rparr>;
          want_compressed = vq_flags q AND 1 \<noteq> 0;
          want_uncompressed = vq_flags q AND 2 \<noteq> 0
      in
      if \<not> steam_user then (r\<lparr>rp_status := - ENODEV\<rparr>, [])
      else if unat (vq_data_size q) > LSTEAM_BRIDGE_MAX_VOICE then (r\<lparr>rp_status := - EINVAL\<rparr>, [])
      else if vq_method q = 0 then (r\<lparr>vr_result := vc_ok vc\<rparr>, [Start_Recording])
      else if vq_method q = 1 then (r\<lparr>vr_result := vc_ok vc\<rparr>, [Stop_Recording])
      else if vq_method q = 2 then
        (case va_available an of (result, compressed, uncompressed) \<Rightarrow>
           (r\<lparr>vr_result := result, vr_compressed_size := if want_compressed then compressed else 0,
              vr_uncompressed_size := if want_uncompressed then uncompressed else 0\<rparr>,
            [Available_Voice want_compressed want_uncompressed (vq_arg0 q)]))
      else if vq_method q = 3 then
        (get_voice vc an q r,
         if voice_fits q then [Captured_Voice want_compressed (vq_arg0 q) want_uncompressed (vq_arg1 q) (vq_arg2 q)] else [])
      else if vq_method q = 4 then
        (decompress_voice vc an q r,
         if unat (vq_arg0 q) \<le> LSTEAM_BRIDGE_MAX_VOICE
         then [Decompress (if vq_data_size q \<noteq> 0 then Some (take (unat (vq_data_size q)) (vq_data q)) else None) (vq_data_size q) (vq_arg0 q) (vq_arg1 q)] else [])
      else if vq_method q = 5 then (r\<lparr>vr_result := va_rate an\<rparr>, [Optimal_Rate])
      else (r\<lparr>rp_status := - ENOSYS\<rparr>, []))"

interpretation voice: bridge_handler LSTEAM_BRIDGE_VOICE_CALL voice_response_ok "\<lambda>(vc, steam_user, an, q) r. fst (handle_voice_call vc steam_user an q r)"
  by unfold_locales (auto simp: handle_voice_call_def get_voice_def decompress_voice_def stamp_handled_def stamped_def voice_response_ok_def Let_def
      split: prod.split)

lemma take_store_at:
  assumes "p + length bytes \<le> length array"
  shows "take (p + length bytes) (store_at array p bytes) = take p array @ bytes"
  using assms by (simp add: store_at_def)

lemma take_store_at_before: "p \<le> length array \<Longrightarrow> k \<le> p \<Longrightarrow> take k (store_at array p bytes) = take k array"
  by (simp add: store_at_def min_def)

lemma take_store_at_here:
  assumes "p \<le> length array" "n \<le> length bytes" "p + n \<le> length array"
  shows "take n (drop p (store_at array p bytes)) = take n bytes"
  using assms by (simp add: store_at_def drop_take)

text \<open>Two parts written and moved together.\<close>

lemma voice_parts_joined:
  assumes "length d = N" "A + B \<le> N" "c \<le> A" "u \<le> B" "c \<le> length cb" "u \<le> length ub"
    and "d1 = (if wc then store_at d 0 (take A cb) else d)" "wc \<or> c = 0"
    and "d2 = (if wu then store_at d1 A (take B ub) else d1)" "wu \<or> u = 0"
  shows "take (c + u) (if u \<noteq> 0 \<and> c \<noteq> A then store_at d2 c (take u (drop A d2)) else d2) = take c cb @ take u ub"
proof -
  have len: "length d1 = N" "length d2 = N" using assms(1,7,9) by auto
  have "take c d1 = take c cb"
    using assms take_store_at_here [of 0 d c "take A cb"] by (cases wc) (auto simp: min_def)
  then have c: "take c d2 = take c cb"
    using assms(2,3,9) len take_store_at_before [of A d1 c "take B ub"] by auto
  have u: "take u (drop A d2) = take u ub"
    using assms len take_store_at_here [of A d1 u "take B ub"] by (cases wu) (auto simp: min_def)
  show ?thesis
  proof (cases "u \<noteq> 0 \<and> c \<noteq> A")
    case True
    have "length (take u (drop A d2)) = u" using u assms(6) by simp
    then have "take (c + u) (store_at d2 c (take u (drop A d2))) = take c d2 @ take u (drop A d2)"
      using take_store_at [of c "take u (drop A d2)" d2] assms(2-4) len by simp
    then show ?thesis using True c u by simp
  next
    case False
    then have "take (c + u) d2 = take c d2 @ take u (drop A d2)" by (cases "u = 0") (auto simp: take_add)
    then show ?thesis unfolding if_not_P [OF False] using c u by simp
  qed
qed

text \<open>What a response with captured audio promises.\<close>

definition voice_joined :: "voice_answers \<Rightarrow> lsteam_bridge_voice_request \<Rightarrow> lsteam_bridge_voice_response \<Rightarrow> bool" where
  "voice_joined an q r \<longleftrightarrow>
     (case va_voice an of (result, compressed_bytes, compressed_size, uncompressed_bytes, uncompressed_size) \<Rightarrow>
        rp_status r = 0 \<and> unat (vr_data_size r) = unat (vr_compressed_size r) + unat (vr_uncompressed_size r) \<and>
        unat (vr_compressed_size r) \<le> unat (vq_arg0 q) \<and> unat (vr_uncompressed_size r) \<le> unat (vq_arg1 q) \<and>
        (unat compressed_size \<le> length compressed_bytes \<and> unat uncompressed_size \<le> length uncompressed_bytes \<longrightarrow>
          take (unat (vr_data_size r)) (vr_data r) =
            take (unat (vr_compressed_size r)) compressed_bytes @ take (unat (vr_uncompressed_size r)) uncompressed_bytes))"

lemma get_voice_bounded:
  assumes "voice_response_ok r0" "vr_data_size r0 = 0" "rp_status r0 = 0" and r: "r = get_voice vc an q r0"
  shows "unat (vr_data_size r) \<le> LSTEAM_BRIDGE_MAX_VOICE \<and> (vr_data_size r \<noteq> 0 \<longrightarrow> voice_joined an q r)"
proof -
  obtain result cb cs ub us where an: "va_voice an = (result, cb, cs, ub, us)" by (metis prod_cases5)
  let ?A = "unat (vq_arg0 q)"
  let ?B = "unat (vq_arg1 q)"
  define wc where "wc = (vq_flags q AND 1 \<noteq> 0)"
  define wu where "wu = (vq_flags q AND 2 \<noteq> 0)"
  define c where "c = (if wc then cs else 0)"
  define u where "u = (if wu then us else 0)"
  define d1 where "d1 = (if wc then store_at (vr_data r0) 0 (take ?A cb) else vr_data r0)"
  define d2 where "d2 = (if wu then store_at d1 ?A (take ?B ub) else d1)"
  let ?small = "?A > LSTEAM_BRIDGE_MAX_VOICE \<or> vq_arg1 q > of_nat LSTEAM_BRIDGE_MAX_VOICE - vq_arg0 q"
  let ?over = "c > vq_arg0 q \<or> u > vq_arg1 q \<or> c > of_nat LSTEAM_BRIDGE_MAX_VOICE - u"
  let ?r = "r0\<lparr>vr_result := result, vr_compressed_size := c, vr_uncompressed_size := u, vr_data := d2\<rparr>"
  have get: "r = (if ?small then r0\<lparr>vr_result := vc_too_small vc, rp_status := - E2BIG\<rparr>
      else if ?over then (if result \<noteq> vc_too_small vc then ?r\<lparr>rp_status := - EOVERFLOW\<rparr> else ?r)
      else ?r\<lparr>vr_data := if u \<noteq> 0 \<and> c \<noteq> vq_arg0 q then store_at d2 (unat c) (take (unat u) (drop ?A d2)) else d2, vr_data_size := c + u\<rparr>)"
    unfolding r get_voice_def voice_fits_def an Let_def prod.case wc_def [symmetric] wu_def [symmetric] c_def [symmetric] u_def [symmetric] d1_def [symmetric] d2_def [symmetric] by simp
  show ?thesis
  proof (cases "?small \<or> ?over")
    case True
    then have "vr_data_size r = 0" using get assms(2) by auto
    then show ?thesis by simp
  next
    case False
    have A: "?A \<le> 65536" and B: "vq_arg1 q \<le> 65536 - vq_arg0 q" using False by (auto simp: not_less)
    have "unat (65536 - vq_arg0 q) = 65536 - ?A" using A by (simp add: unat_sub word_le_nat_alt)
    then have AB: "?A + ?B \<le> 65536" using A B by (simp add: word_le_nat_alt)
    have cu: "unat c \<le> ?A" "unat u \<le> ?B" using False by (simp_all add: not_less word_le_nat_alt)
    then have sum: "unat (c + u) = unat c + unat u" using AB by (intro unat_add_lem [THEN iffD1]) simp
    have eq: "r = ?r\<lparr>vr_data := if unat u \<noteq> 0 \<and> unat c \<noteq> ?A then store_at d2 (unat c) (take (unat u) (drop ?A d2)) else d2, vr_data_size := c + u\<rparr>"
    proof -
      have "unat c \<noteq> ?A \<longleftrightarrow> c \<noteq> vq_arg0 q" "unat u \<noteq> 0 \<longleftrightarrow> u \<noteq> 0" by (auto simp: unat_eq_0 intro: unsigned_word_eqI)
      then show ?thesis using get False by simp
    qed
    have d: "vr_data r = (if unat u \<noteq> 0 \<and> unat c \<noteq> ?A then store_at d2 (unat c) (take (unat u) (drop ?A d2)) else d2)" unfolding eq by simp
    have "take (unat c + unat u) (vr_data r) = take (unat c) cb @ take (unat u) ub" if "unat cs \<le> length cb" "unat us \<le> length ub"
      unfolding d
      by (rule voice_parts_joined [OF _ AB cu _ _ d1_def _ d2_def]) (use assms(1) that in \<open>auto simp: voice_response_ok_def c_def u_def\<close>)
    then show ?thesis using AB cu sum assms(3) eq an by (auto simp: voice_joined_def)
  qed
qed

lemma decompress_voice_bounded: "vr_data_size r = 0 \<Longrightarrow> unat (vr_data_size (decompress_voice vc an q r)) \<le> LSTEAM_BRIDGE_MAX_VOICE"
  by (cases "va_decompressed an") (simp add: decompress_voice_def Let_def)

text \<open>
  C35. Voice data never leaves the response. The size reported to the client is at most that of the array, whatever the library reports, and for captured audio it is the sum of
  the two parts. When the library wrote the bytes it reports, the client finds the compressed part followed by the uncompressed part, without a gap.
\<close>

theorem voice_response_bounded:
  assumes "voice_response_ok r0" "vr_data_size r0 = 0" and "(r, calls) = handle_voice_call vc steam_user an q r0"
  shows "unat (vr_data_size r) \<le> LSTEAM_BRIDGE_MAX_VOICE \<and> (vq_method q = 3 \<and> vr_data_size r \<noteq> 0 \<longrightarrow> voice_joined an q r)"
proof -
  let ?r = "(stamp_handled LSTEAM_BRIDGE_VOICE_CALL r0)\<lparr>vr_result := vc_not_initialized vc\<rparr>"
  have blank: "voice_response_ok ?r" "vr_data_size ?r = 0" "rp_status ?r = 0" using assms(1,2) by (simp_all add: stamp_handled_def voice_response_ok_def)
  show ?thesis
  proof (cases "steam_user \<and> unat (vq_data_size q) \<le> LSTEAM_BRIDGE_MAX_VOICE \<and> vq_method q = 3")
    case True
    then have "r = get_voice vc an q ?r" using assms(3) by (simp add: handle_voice_call_def)
    then show ?thesis using get_voice_bounded [OF blank] by blast
  next
    case False
    then have "vq_method q = 4 \<and> r = decompress_voice vc an q ?r \<or> vr_data_size r = 0"
      using assms(3) blank(2) unfolding handle_voice_call_def Let_def by (auto split: prod.splits if_splits)
    then show ?thesis using decompress_voice_bounded [OF blank(2)] by auto
  qed
qed

definition demo_voice_answers :: voice_answers where
  "demo_voice_answers = \<lparr>va_available = (0, 0, 0), va_voice = (0, [1, 2], 2, [3, 4, 5], 3), va_decompressed = (0, [], 0), va_rate = 11025\<rparr>"

definition demo_voice_request :: lsteam_bridge_voice_request where
  "demo_voice_request = \<lparr>vq_method = 3, vq_flags = 3, vq_arg0 = 4, vq_arg1 = 8, vq_arg2 = 0, vq_data_size = 0, vq_data = []\<rparr>"

abbreviation demo_voice_results :: voice_results where
  "demo_voice_results \<equiv> \<lparr>vc_ok = 0, vc_not_initialized = 1, vc_too_small = 4\<rparr>"

theorem voice_response_bounded_witness:
  "\<exists>r. (r, [Captured_Voice True 4 True 8 0]) = handle_voice_call demo_voice_results True demo_voice_answers demo_voice_request blank_voice_response \<and> vr_data_size r = 5 \<and>
     take 5 (vr_data r) = [1, 2, 3, 4, 5]"
proof -
  let ?h = "handle_voice_call demo_voice_results True demo_voice_answers demo_voice_request blank_voice_response"
  let ?r = "fst ?h"
  have calls: "snd ?h = [Captured_Voice True 4 True 8 0]"
    by (simp add: handle_voice_call_def voice_fits_def demo_voice_answers_def demo_voice_request_def Let_def)
  have split: "(?r, snd ?h) = ?h" by simp
  have blank: "voice_response_ok blank_voice_response" "vr_data_size blank_voice_response = 0" by (simp_all add: blank_voice_response_def voice_response_ok_def)
  have sizes: "vr_data_size ?r = 5" "vr_compressed_size ?r = 2" "vr_uncompressed_size ?r = 3"
    by (simp_all add: handle_voice_call_def get_voice_def voice_fits_def demo_voice_answers_def demo_voice_request_def Let_def)
  then have "voice_joined demo_voice_answers demo_voice_request ?r"
    using voice_response_bounded [OF blank split] by (simp add: demo_voice_request_def)
  then have "take 5 (vr_data ?r) = [1, 2, 3, 4, 5]" using sizes by (simp add: voice_joined_def demo_voice_answers_def)
  then show ?thesis using sizes calls by (intro exI [of _ ?r]) (metis prod.collapse)
qed

section \<open>HTML surface, client and parental settings\<close>

text \<open>The calls made, with the strings as they are passed: both arrays are terminated first.\<close>

datatype html_call = Html_Init | Create_Browser "u8 list" "u8 list" | Remove_Browser u32

definition terminated :: "u8 list \<Rightarrow> u8 list" where
  "terminated text = text[LSTEAM_BRIDGE_MAX_TEXT - 1 := 0]"

text \<open>\<open>init\<close> is what \<^verbatim>\<open>Init\<close> returns and \<open>browser\<close> the call \<^verbatim>\<open>CreateBrowser\<close> gives; \<open>initialized\<close> is the state of the handler.\<close>

definition handle_html_call ::
  "bool \<Rightarrow> bool \<Rightarrow> u64 \<Rightarrow> bool \<Rightarrow> lsteam_bridge_game_server_request \<Rightarrow> lsteam_bridge_game_server_response \<Rightarrow>
   lsteam_bridge_game_server_response \<times> bool \<times> html_call list" where
  "handle_html_call html init browser initialized q r =
     (let r = stamp_handled LSTEAM_BRIDGE_HTML_CALL r;
          now = initialized \<or> init;
          calls = (if initialized then [] else [Html_Init])
      in
      if \<not> html then (r\<lparr>rp_status := - ENODEV\<rparr>, initialized, [])
      else if gq_method q = 0 then (r\<lparr>gr_result := if now then 1 else 0\<rparr>, now, calls)
      else if gq_method q = 1 then (r\<lparr>gr_result := 1\<rparr>, initialized, [])
      else if gq_method q = 2 then
        (if \<not> now then (r\<lparr>rp_status := - EIO\<rparr>, now, calls)
         else (r\<lparr>gr_result := browser, rp_status := if browser = 0 then - EIO else 0\<rparr>, now,
               calls @ [Create_Browser (terminated (gq_text q)) (terminated (gq_value q))]))
      else if gq_method q = 3 then (r\<lparr>gr_result := 1\<rparr>, initialized, [Remove_Browser (gq_arg0 q)])
      else (r\<lparr>rp_status := - ENOSYS\<rparr>, initialized, []))"

text \<open>Binding to a local address: an IPv4 number, or the library's own struct of \<open>address_size\<close> bytes. The result has the bytes and the port passed on.\<close>

definition handle_client_call ::
  "bool \<Rightarrow> u32 \<Rightarrow> lsteam_bridge_game_server_request \<Rightarrow> lsteam_bridge_game_server_response \<Rightarrow> lsteam_bridge_game_server_response \<times> (u8 list \<times> u16) option" where
  "handle_client_call client address_size q r =
     (let r = stamp_handled LSTEAM_BRIDGE_CLIENT_CALL r in
      if \<not> client then (r\<lparr>rp_status := - ENODEV\<rparr>, None)
      else if gq_method q = 0 then
        (if gq_data_size q = 4 then (r\<lparr>gr_result := 1\<rparr>, Some (take 4 (gq_data q), ucast (gq_arg0 q)))
         else if gq_data_size q = address_size then (r\<lparr>gr_result := 1\<rparr>, Some (take (unat address_size) (gq_data q), ucast (gq_arg0 q)))
         else (r\<lparr>rp_status := - EINVAL\<rparr>, None))
      else (r\<lparr>rp_status := - ENOSYS\<rparr>, None))"

text \<open>\<open>answer method argument\<close> is what the library answers.\<close>

definition handle_parental_call ::
  "bool \<Rightarrow> (u32 \<Rightarrow> u32 \<Rightarrow> bool) \<Rightarrow> lsteam_bridge_game_server_request \<Rightarrow> lsteam_bridge_game_server_response \<Rightarrow> lsteam_bridge_game_server_response" where
  "handle_parental_call parental answer q r =
     (let r = stamp_handled LSTEAM_BRIDGE_PARENTAL_CALL r in
      if \<not> parental then r\<lparr>rp_status := - ENODEV\<rparr>
      else if gq_method q = 0 \<or> gq_method q = 1 then r\<lparr>gr_result := if answer (gq_method q) 0 then 1 else 0\<rparr>
      else if gq_method q = 2 \<or> gq_method q = 3 \<or> gq_method q = 4 \<or> gq_method q = 5 then r\<lparr>gr_result := if answer (gq_method q) (gq_arg0 q) then 1 else 0\<rparr>
      else r\<lparr>rp_status := - ENOSYS\<rparr>)"

interpretation html: bridge_handler LSTEAM_BRIDGE_HTML_CALL game_server_response_ok "\<lambda>(html, init, browser, initialized, q) r. fst (handle_html_call html init browser initialized q r)"
  by unfold_locales (auto simp: handle_html_call_def stamp_handled_def stamped_def game_server_response_ok_def Let_def)

interpretation client: bridge_handler LSTEAM_BRIDGE_CLIENT_CALL game_server_response_ok "\<lambda>(client, address_size, q) r. fst (handle_client_call client address_size q r)"
  by unfold_locales (auto simp: handle_client_call_def stamp_handled_def stamped_def game_server_response_ok_def Let_def)

interpretation parental: bridge_handler LSTEAM_BRIDGE_PARENTAL_CALL game_server_response_ok "\<lambda>(parental, answer, q) r. handle_parental_call parental answer q r"
  by unfold_locales (auto simp: handle_parental_call_def stamp_handled_def stamped_def game_server_response_ok_def Let_def)

text \<open>The native surface is set up at most once: after it has answered yes, no request sets it up again.\<close>

lemma html_init_once: "handle_html_call html init browser True q r = (r', initialized', calls) \<Longrightarrow> initialized' \<and> Html_Init \<notin> set calls"
  by (auto simp: handle_html_call_def Let_def split: if_splits)

section \<open>Game server\<close>

text \<open>The answers of the library: the pipe and the user of a new game server session, whether its interface is found, and what a method returns or writes.\<close>

record game_server_answers =
  ga_pipe :: s32
  ga_user :: s32
  ga_iface :: bool
  ga_value :: u64
  ga_steam_id :: u64
  ga_bytes :: "u8 list"
  ga_ticket_size :: u32
  ga_packet_size :: s32
  ga_ip :: u32
  ga_port :: u16

definition ensure_game_server :: "game_server_answers \<Rightarrow> bridge_game_server_state \<Rightarrow> bool \<times> bridge_game_server_state" where
  "ensure_game_server an st =
     (if gs_iface st then (True, st)
      else
        let st = (if gs_user st = 0 \<or> gs_pipe st = 0
                  then st\<lparr>gs_user := ga_user an, gs_pipe := ga_pipe an, gs_owns_handles := ga_user an \<noteq> 0 \<and> ga_pipe an \<noteq> 0\<rparr> else st)
        in if gs_user st = 0 \<or> gs_pipe st = 0 then (False, st)
           else (ga_iface an, st\<lparr>gs_iface := ga_iface an\<rparr>))"

text \<open>A call of a method of the interface by its slot, with its arguments.\<close>

datatype slot_argument = Word_Arg u64 | Bytes_Arg "u8 list"

datatype slot_call = Slot_Call u32 "slot_argument list"

abbreviation as_bool :: "u64 \<Rightarrow> u64" where
  "as_bool v \<equiv> (if v \<noteq> 0 then 1 else 0)"

abbreviation as_u32 :: "u64 \<Rightarrow> u64" where
  "as_u32 v \<equiv> ucast (ucast v :: u32)"

abbreviation word16 :: "u32 \<Rightarrow> slot_argument" where
  "word16 v \<equiv> Word_Arg (ucast (ucast v :: u16))"

text \<open>The methods, after the checks. \<open>address_size\<close> is the size of the library's address struct.\<close>

definition game_server_method ::
  "nat \<Rightarrow> game_server_answers \<Rightarrow> lsteam_bridge_game_server_request \<Rightarrow> lsteam_bridge_game_server_response \<Rightarrow> lsteam_bridge_game_server_response \<times> slot_call list" where
  "game_server_method address_size an q r =
     (let m = gq_method q;
          text = Bytes_Arg (terminated (gq_text q));
          input = Bytes_Arg (take (unat (gq_data_size q)) (gq_data q));
          id = Word_Arg (gq_steam_id q);
          arg = (\<lambda>v. Word_Arg (ucast (v :: u32)));
          written = store_bytes (gr_data r) (take LSTEAM_BRIDGE_MAX_TICKET (ga_bytes an))
      in
      if m = 0 then (r\<lparr>gr_result := as_bool (ga_value an)\<rparr>,
        [Slot_Call 0 [arg (gq_arg0 q), word16 (gq_arg1 q), word16 (gq_arg2 q), arg (gq_arg3 q), arg (ucast (gq_steam_id q)), text]])
      else if m \<in> {1, 2, 3, 5, 14, 15, 18, 21, 22, 23} then (r, [Slot_Call m [text]])
      else if m \<in> {4, 16, 39} then (r, [Slot_Call m [Word_Arg (if gq_arg0 q \<noteq> 0 then 1 else 0)]])
      else if m \<in> {6, 7, 19, 34, 41} then (r, [Slot_Call m []])
      else if m \<in> {8, 9, 11} then (r\<lparr>gr_result := as_bool (ga_value an)\<rparr>, [Slot_Call m []])
      else if m \<in> {10, 25} then (r\<lparr>gr_steam_id := ga_steam_id an, gr_result := ga_steam_id an\<rparr>, [Slot_Call m []])
      else if m \<in> {12, 13, 40, 31} then (r, [Slot_Call m [arg (gq_arg0 q)]])
      else if m = 17 then (r, [Slot_Call 17 [word16 (gq_arg0 q)]])
      else if m = 20 then (r, [Slot_Call 20 [text, Bytes_Arg (terminated (gq_value q))]])
      else if m = 24 then (r\<lparr>gr_result := as_bool (ga_value an), gr_steam_id := ga_steam_id an\<rparr>, [Slot_Call 24 [arg (gq_arg0 q), input, arg (gq_data_size q)]])
      else if m \<in> {26, 30} then (r, [Slot_Call m [id]])
      else if m = 27 then (r\<lparr>gr_result := as_bool (ga_value an)\<rparr>, [Slot_Call 27 [id, text, arg (gq_arg0 q)]])
      else if m = 28 then
        (let r = r\<lparr>gr_result := as_u32 (ga_value an), gr_data := written\<rparr> in
         if unat (ga_ticket_size an) > LSTEAM_BRIDGE_MAX_TICKET then r\<lparr>rp_status := - EOVERFLOW\<rparr> else r\<lparr>gr_data_size := ga_ticket_size an\<rparr>, [Slot_Call 28 []])
      else if m = 29 then (r\<lparr>gr_result := as_u32 (ga_value an)\<rparr>, [Slot_Call 29 [input, arg (gq_data_size q), id]])
      else if m = 32 then (r\<lparr>gr_result := as_u32 (ga_value an)\<rparr>, [Slot_Call 32 [id, arg (gq_arg0 q)]])
      else if m = 33 then
        (if gq_data_size q \<noteq> 8 then (r\<lparr>rp_status := - EINVAL\<rparr>, [])
         else (r\<lparr>gr_result := as_bool (ga_value an)\<rparr>, [Slot_Call 33 [id, Word_Arg (le_word (take 8 (gq_data q)))]]))
      else if m = 35 then (r\<lparr>gr_result := ga_value an\<rparr>, [Slot_Call 35 []])
      else if m = 36 then
        (r\<lparr>gr_data := store_bytes (gr_data r) (take address_size (ga_bytes an)), gr_data_size := of_nat address_size, gr_arg0 := ga_ip an\<rparr>, [Slot_Call 36 []])
      else if m = 37 then (r\<lparr>gr_result := as_bool (ga_value an)\<rparr>, [Slot_Call 37 [input, arg (gq_data_size q), arg (gq_arg0 q), word16 (gq_arg1 q)]])
      else if m = 38 then
        (let r = r\<lparr>gr_data := written\<rparr> in
         if sint (ga_packet_size an) < 0 \<or> sint (ga_packet_size an) > int LSTEAM_BRIDGE_MAX_TICKET then r\<lparr>rp_status := - EIO\<rparr>
         else r\<lparr>gr_data_size := ga_packet_size an, gr_arg0 := ga_ip an, gr_arg1 := ucast (ga_port an), gr_result := ucast (ga_packet_size an)\<rparr>, [Slot_Call 38 []])
      else if m \<in> {42, 43} then (r\<lparr>gr_result := ga_value an\<rparr>, [Slot_Call m [id]])
      else (r\<lparr>rp_status := - ENOSYS\<rparr>, []))"

definition handle_game_server_call ::
  "nat \<Rightarrow> game_server_answers \<Rightarrow> bridge_game_server_state \<Rightarrow> lsteam_bridge_game_server_request \<Rightarrow> lsteam_bridge_game_server_response \<Rightarrow>
   lsteam_bridge_game_server_response \<times> bridge_game_server_state \<times> slot_call list" where
  "handle_game_server_call address_size an st q r =
     (let r = r\<lparr>rp_magic := LSTEAM_BRIDGE_MAGIC, rp_version := LSTEAM_BRIDGE_VERSION, rp_opcode := LSTEAM_BRIDGE_GAME_SERVER_CALL\<rparr> in
      if unat (gq_data_size q) > LSTEAM_BRIDGE_MAX_TICKET then (r\<lparr>rp_status := - EINVAL\<rparr>, st, [])
      else
        case ensure_game_server an st of
          (False, st) \<Rightarrow> (r\<lparr>rp_status := - ENODEV\<rparr>, st, [])
        | (True, st) \<Rightarrow> case game_server_method address_size an q (r\<lparr>rp_status := 0\<rparr>) of (r, calls) \<Rightarrow> (r, st, calls))"

lemma sint_small: "0 \<le> sint (x :: s32) \<Longrightarrow> sint x \<le> 2048 \<Longrightarrow> unat x \<le> 2048"
proof -
  assume "0 \<le> sint x" "sint x \<le> 2048"
  then have "uint x \<le> 2048" using uint_bound32 [of x] by (simp add: sint_s32_eq split: if_splits)
  then have "int (unat x) \<le> 2048" by simp
  then show "unat x \<le> 2048" by linarith
qed

lemma game_server_method_header:
  "stamped opcode sequence (fst (game_server_method address_size an q r)) = stamped opcode sequence r"
  "game_server_response_ok (fst (game_server_method address_size an q r)) = game_server_response_ok r"
  unfolding game_server_method_def Let_def by (simp_all add: stamped_def game_server_response_ok_def)

lemma game_server_method_size:
  assumes "unat (gr_data_size r) \<le> LSTEAM_BRIDGE_MAX_TICKET" "address_size \<le> LSTEAM_BRIDGE_MAX_TICKET"
  shows "unat (gr_data_size (fst (game_server_method address_size an q r))) \<le> LSTEAM_BRIDGE_MAX_TICKET"
proof -
  have "unat (of_nat address_size :: u32) = address_size" using assms(2) by (simp add: unsigned_of_nat take_bit_nat_eq_self)
  moreover have "unat (ga_packet_size an) \<le> 2048" if "\<not> (sint (ga_packet_size an) < 0 \<or> sint (ga_packet_size an) > 2048)"
    using sint_small [of "ga_packet_size an"] that by simp
  ultimately show ?thesis using assms unfolding game_server_method_def Let_def by simp
qed

lemma game_server_method_one_call: "length (snd (game_server_method address_size an q r)) \<le> 1"
  unfolding game_server_method_def Let_def by simp

lemma handle_game_server_cases:
  assumes "handle_game_server_call address_size an st q r0 = (r, st', calls)"
  obtains (rejected) e where "e = - EINVAL \<and> st' = st \<and> unat (gq_data_size q) > LSTEAM_BRIDGE_MAX_TICKET \<or> e = - ENODEV \<and> unat (gq_data_size q) \<le> LSTEAM_BRIDGE_MAX_TICKET \<and> ensure_game_server an st = (False, st')"
      "r = r0\<lparr>rp_magic := LSTEAM_BRIDGE_MAGIC, rp_version := LSTEAM_BRIDGE_VERSION, rp_opcode := LSTEAM_BRIDGE_GAME_SERVER_CALL, rp_status := e\<rparr>" "calls = []"
  | (called) "unat (gq_data_size q) \<le> LSTEAM_BRIDGE_MAX_TICKET" "ensure_game_server an st = (True, st')"
      "game_server_method address_size an q
         (r0\<lparr>rp_magic := LSTEAM_BRIDGE_MAGIC, rp_version := LSTEAM_BRIDGE_VERSION, rp_opcode := LSTEAM_BRIDGE_GAME_SERVER_CALL, rp_status := 0\<rparr>) = (r, calls)"
  using assms by (auto simp: handle_game_server_call_def Let_def split: prod.splits bool.splits if_splits)

interpretation game_server: bridge_handler LSTEAM_BRIDGE_GAME_SERVER_CALL game_server_response_ok
  "\<lambda>(address_size, an, st, q) r. fst (handle_game_server_call address_size an st q r)"
proof
  fix x :: "nat \<times> game_server_answers \<times> bridge_game_server_state \<times> lsteam_bridge_game_server_request" and r0 :: lsteam_bridge_game_server_response
  obtain address_size an st q where x: "x = (address_size, an, st, q)" by (cases x)
  obtain r st' calls where h: "handle_game_server_call address_size an st q r0 = (r, st', calls)" by (metis prod_cases3)
  from h have "stamped LSTEAM_BRIDGE_GAME_SERVER_CALL (rp_sequence r0) r \<and> game_server_response_ok r = game_server_response_ok r0"
  proof (cases rule: handle_game_server_cases)
    case (called)
    then show ?thesis
      using game_server_method_header(1) [of LSTEAM_BRIDGE_GAME_SERVER_CALL "rp_sequence r0" address_size an q
          "r0\<lparr>rp_magic := LSTEAM_BRIDGE_MAGIC, rp_version := LSTEAM_BRIDGE_VERSION, rp_opcode := LSTEAM_BRIDGE_GAME_SERVER_CALL, rp_status := 0\<rparr>"]
        game_server_method_header(2) [of address_size an q
          "r0\<lparr>rp_magic := LSTEAM_BRIDGE_MAGIC, rp_version := LSTEAM_BRIDGE_VERSION, rp_opcode := LSTEAM_BRIDGE_GAME_SERVER_CALL, rp_status := 0\<rparr>"]
      by (simp add: stamped_def game_server_response_ok_def)
  qed (auto simp: stamped_def game_server_response_ok_def)
  then show "stamped LSTEAM_BRIDGE_GAME_SERVER_CALL (rp_sequence r0) ((\<lambda>(address_size, an, st, q) r. fst (handle_game_server_call address_size an st q r)) x r0)"
    "game_server_response_ok r0 \<Longrightarrow> game_server_response_ok ((\<lambda>(address_size, an, st, q) r. fst (handle_game_server_call address_size an st q r)) x r0)"
    by (simp_all add: x h)
qed

text \<open>
  A call of the game server reports at most as many bytes as its response has room for, whatever the library reports, calls the interface at most once, and never with a request that
  claims more data than it carries; a session that has been set up is kept.
\<close>

theorem game_server_call_bounded:
  assumes "handle_game_server_call address_size an st q r0 = (r, st', calls)" "gr_data_size r0 = 0" "address_size \<le> LSTEAM_BRIDGE_MAX_TICKET"
  shows "unat (gr_data_size r) \<le> LSTEAM_BRIDGE_MAX_TICKET \<and> length calls \<le> 1 \<and> (gs_iface st \<longrightarrow> st' = st) \<and>
    (unat (gq_data_size q) > LSTEAM_BRIDGE_MAX_TICKET \<longrightarrow> calls = [] \<and> st' = st)"
  using assms(1)
proof (cases rule: handle_game_server_cases)
  case (rejected e)
  then show ?thesis using assms(2) by (auto simp: ensure_game_server_def)
next
  case called
  let ?r = "r0\<lparr>rp_magic := LSTEAM_BRIDGE_MAGIC, rp_version := LSTEAM_BRIDGE_VERSION, rp_opcode := LSTEAM_BRIDGE_GAME_SERVER_CALL, rp_status := 0\<rparr>"
  have "unat (gr_data_size r) \<le> LSTEAM_BRIDGE_MAX_TICKET" "length calls \<le> 1"
    using game_server_method_size [of ?r address_size an q] game_server_method_one_call [of address_size an q ?r] assms(2,3) unfolding called(3) by simp_all
  then show ?thesis using called(1,2) by (auto simp: ensure_game_server_def)
qed

section \<open>Putting the handlers together\<close>

text \<open>The modelled handlers, with the state of the HTML surface, and \<open>rest\<close> for the other interfaces.\<close>

definition modelled_handlers ::
  "voice_results \<Rightarrow> bool \<Rightarrow> voice_answers \<Rightarrow> bool \<Rightarrow> nat \<Rightarrow> bool \<Rightarrow> bool \<Rightarrow> u64 \<Rightarrow> bool \<Rightarrow> (u32 \<Rightarrow> u32 \<Rightarrow> bool) \<Rightarrow> game_server_answers \<Rightarrow> 'h bridge_handlers \<Rightarrow>
   (bool \<times> 'h) bridge_handlers" where
  "modelled_handlers vc user va client address_size html init browser parental answer ga rest =
     \<lparr>hd_interface = \<lambda>opcode (initialized, h) g q r.
        if opcode = LSTEAM_BRIDGE_CLIENT_CALL then (fst (handle_client_call client (of_nat address_size) q r), g, initialized, h)
        else if opcode = LSTEAM_BRIDGE_PARENTAL_CALL then (handle_parental_call parental answer q r, g, initialized, h)
        else if opcode = LSTEAM_BRIDGE_HTML_CALL then
          (case handle_html_call html init browser initialized q r of (r, initialized, calls) \<Rightarrow> (r, g, initialized, h))
        else (case hd_interface rest opcode h g q r of (r, g, h) \<Rightarrow> (r, g, initialized, h)),
      hd_game_server = \<lambda>(initialized, h) g q r. case handle_game_server_call address_size ga g q r of (r, g, calls) \<Rightarrow> (r, g, initialized, h),
      hd_voice = \<lambda>(initialized, h) q r. (fst (handle_voice_call vc user va q r), initialized, h),
      hd_mm_request = \<lambda>(initialized, h) request q r. (case hd_mm_request rest h request q r of (r, h) \<Rightarrow> (r, initialized, h)),
      hd_html_initialized = \<lambda>(initialized, h). initialized,
      hd_mm_call = \<lambda>(initialized, h) request q r. (case hd_mm_call rest h request q r of (r, h) \<Rightarrow> (r, initialized, h))\<rparr>"

theorem modelled_handlers_ok:
  assumes "handlers_ok rest"
  shows "handlers_ok (modelled_handlers vc user va client address_size html init browser parental answer ga rest)"
proof -
  note handled = voice.handled [of _ "(vc, user, va, q)" for q, simplified] html.handled [of _ "(html, init, browser, i, q)" for i q, simplified]
    client.handled [of _ "(client, of_nat address_size, q)" for q, simplified] parental.handled [of _ "(parental, answer, q)" for q, simplified]
    game_server.handled [of _ "(address_size, ga, g, q)" for g q, simplified]
  show ?thesis
    using assms unfolding handlers_ok_def modelled_handlers_def
    by (auto simp: handled case_prod_unfold)
qed

end
