(* ===== verification/Tgc_Bridge_Transfers.thy ===== *)
theory Tgc_Bridge_Transfers
  imports Tgc_Bridge_Handlers
begin

text \<open>
  The interfaces of the bridge that carry more data than a message holds: images (\<^verbatim>\<open>utils_native.inc\<close>), files (\<^verbatim>\<open>remote_storage_native.inc\<close>) and packets
  (\<^verbatim>\<open>networking_native.inc\<close>). A read is answered in pieces out of a copy the handler keeps; a write is gathered piece by piece and passed on when it is whole. What the
  library answers is an argument; a number is given as the 64 bits it has in the response. The functions return the calls they make, by the method of the request.
\<close>

abbreviation response_room :: nat where "response_room \<equiv> LSTEAM_BRIDGE_MAX_TICKET"

definition c_text :: "u8 list \<Rightarrow> u8 list" where
  "c_text bytes = takeWhile (\<lambda>b. b \<noteq> 0) bytes"

text \<open>\<^verbatim>\<open>utils_copy_string\<close> and \<^verbatim>\<open>remote_copy_string\<close>.\<close>

definition copy_string :: "lsteam_bridge_game_server_response \<Rightarrow> u8 list option \<Rightarrow> lsteam_bridge_game_server_response" where
  "copy_string r value =
     (let text = (case value of None \<Rightarrow> [] | Some v \<Rightarrow> c_text v); n = length text + 1 in
      if n > response_room then r\<lparr>rp_status := - EOVERFLOW\<rparr>
      else r\<lparr>gr_data := store_bytes (gr_data r) (text @ [0]), gr_data_size := of_nat n\<rparr>)"

text \<open>A piece of what is kept, from an offset on: as much as the response holds.\<close>

definition copy_piece :: "u8 list \<Rightarrow> nat \<Rightarrow> lsteam_bridge_game_server_response \<Rightarrow> lsteam_bridge_game_server_response" where
  "copy_piece bytes offset r =
     (let piece = take response_room (drop offset bytes) in r\<lparr>gr_data := store_bytes (gr_data r) piece, gr_data_size := of_nat (length piece)\<rparr>)"

definition resized :: "nat \<Rightarrow> u8 list \<Rightarrow> u8 list" where
  "resized n bytes = take n bytes @ zeroes (n - length bytes)"

section \<open>Utilities\<close>

record bridge_utils_state =
  us_image :: s32
  us_image_size :: u32
  us_image_data :: "u8 list"

record utils_answers =
  ua_number :: u64
  ua_size :: "u32 \<times> u32"
  ua_rgba :: "bool \<times> u8 list"
  ua_text :: "u8 list option"
  ua_filtered :: "s32 \<times> u8 list"

abbreviation word_arg :: "u32 \<Rightarrow> slot_argument" where "word_arg v \<equiv> Word_Arg (ucast v)"

definition get_image_rgba ::
  "utils_answers \<Rightarrow> bridge_utils_state \<Rightarrow> lsteam_bridge_game_server_request \<Rightarrow> lsteam_bridge_game_server_response \<Rightarrow>
   lsteam_bridge_game_server_response \<times> bridge_utils_state \<times> slot_call list" where
  "get_image_rgba an st q r =
     (let image_bytes = gq_arg1 q; offset = gq_arg2 q in
      if image_bytes = 0 \<or> image_bytes > 4 * 1024 * 1024 \<or> offset > image_bytes then (r\<lparr>rp_status := - EINVAL\<rparr>, st, [])
      else
        let fetch = (us_image st \<noteq> gq_arg0 q \<or> us_image_size st \<noteq> image_bytes \<or> offset = 0 \<or> us_image_data st = []);
            calls = (if fetch then [Slot_Call 1 [word_arg (gq_arg0 q), word_arg image_bytes]] else []);
            st = (if fetch
                  then st\<lparr>us_image := gq_arg0 q, us_image_size := image_bytes,
                    us_image_data := (case ua_rgba an of (ok, bytes) \<Rightarrow>
                      if ok then store_bytes (resized (unat image_bytes) (us_image_data st)) bytes else [])\<rparr>
                  else st)
        in
        if fetch \<and> \<not> fst (ua_rgba an) then (r\<lparr>gr_result := 0\<rparr>, st, calls)
        else if length (us_image_data st) \<noteq> unat image_bytes then (r\<lparr>gr_result := 0\<rparr>, st, calls)
        else ((copy_piece (us_image_data st) (unat offset) r)\<lparr>gr_arg0 := image_bytes, gr_result := 1\<rparr>, st, calls))"

definition handle_utils_call ::
  "bool \<Rightarrow> utils_answers \<Rightarrow> bridge_utils_state \<Rightarrow> lsteam_bridge_game_server_request \<Rightarrow> lsteam_bridge_game_server_response \<Rightarrow>
   lsteam_bridge_game_server_response \<times> bridge_utils_state \<times> slot_call list" where
  "handle_utils_call utils an st q r =
     (let r = stamp_handled LSTEAM_BRIDGE_UTILS_CALL r; m = gq_method q; number = r\<lparr>gr_result := ua_number an\<rparr> in
      if \<not> utils then (r\<lparr>rp_status := - ENODEV\<rparr>, st, [])
      else if m = 0 then (number\<lparr>gr_arg0 := fst (ua_size an), gr_arg1 := snd (ua_size an)\<rparr>, st, [Slot_Call 0 [word_arg (gq_arg0 q)]])
      else if m = 1 then get_image_rgba an st q r
      else if m \<in> {2, 3, 5, 6, 7, 9} then (number, st, [Slot_Call m []])
      else if m = 4 \<or> m = 8 then (copy_string r (ua_text an), st, [Slot_Call m []])
      else if m = 10 then (number, st, [Slot_Call 10 [word_arg (gq_arg0 q)]])
      else if m = 11 then
        (case ua_filtered an of (len, bytes) \<Rightarrow>
           let r = r\<lparr>gr_data := store_bytes (gr_data r) bytes\<rparr> in
           (if sint len < 0 \<or> sint len \<ge> int response_room then r\<lparr>rp_status := - EOVERFLOW\<rparr> else r\<lparr>gr_result := scast len, gr_data_size := len + 1\<rparr>,
            st, [Slot_Call 11 [word_arg (gq_arg0 q), Word_Arg (gq_steam_id q), Bytes_Arg (terminated (gq_text q))]]))
      else if m = 12 then (r, st, [Slot_Call 12 [word_arg (gq_arg0 q)]])
      else (r\<lparr>rp_status := - ENOSYS\<rparr>, st, []))"

section \<open>Files\<close>

record bridge_remote_storage_state =
  rf_write_name :: "u8 list"
  rf_write_total :: u32
  rf_write_data :: "u8 list"
  rf_read_name :: "u8 list"
  rf_read_capacity :: u32
  rf_read_size :: s32
  rf_read_data :: "u8 list"

record remote_storage_answers =
  ra_number :: u64
  ra_written :: bool
  ra_read :: "s32 \<times> u8 list"
  ra_name :: "u8 list option \<times> s32"
  ra_quota :: "u64 \<times> u64"

definition maximum_file :: u32 where "maximum_file = 64 * 1024 * 1024"

definition write_file ::
  "remote_storage_answers \<Rightarrow> bridge_remote_storage_state \<Rightarrow> lsteam_bridge_game_server_request \<Rightarrow> lsteam_bridge_game_server_response \<Rightarrow>
   lsteam_bridge_game_server_response \<times> bridge_remote_storage_state \<times> slot_call list" where
  "write_file an st q r =
     (let file_size = gq_arg0 q; offset = gq_arg1 q; name = c_text (terminated (gq_text q)) in
      if file_size > maximum_file \<or> offset > file_size \<or> gq_data_size q > file_size - offset then (r\<lparr>rp_status := - EINVAL\<rparr>, st, [])
      else
        let st = (if offset = 0 then st\<lparr>rf_write_name := name, rf_write_total := file_size, rf_write_data := zeroes (unat file_size)\<rparr> else st) in
        if rf_write_name st \<noteq> name \<or> rf_write_total st \<noteq> file_size \<or> length (rf_write_data st) \<noteq> unat file_size then (r\<lparr>rp_status := - EINVAL\<rparr>, st, [])
        else
          let st = st\<lparr>rf_write_data := store_at (rf_write_data st) (unat offset) (take (unat (gq_data_size q)) (gq_data q))\<rparr> in
          if offset + gq_data_size q = file_size then
            (r\<lparr>gr_result := if ra_written an then 1 else 0\<rparr>, st\<lparr>rf_write_data := [], rf_write_name := [], rf_write_total := 0\<rparr>,
             [Slot_Call 0 [Bytes_Arg name, Bytes_Arg (rf_write_data st), word_arg file_size]])
          else (r\<lparr>gr_result := 1\<rparr>, st, []))"

definition read_file ::
  "remote_storage_answers \<Rightarrow> bridge_remote_storage_state \<Rightarrow> lsteam_bridge_game_server_request \<Rightarrow> lsteam_bridge_game_server_response \<Rightarrow>
   lsteam_bridge_game_server_response \<times> bridge_remote_storage_state \<times> slot_call list" where
  "read_file an st q r =
     (let capacity = gq_arg0 q; offset = gq_arg1 q; name = c_text (terminated (gq_text q)) in
      if capacity > maximum_file \<or> offset > capacity then (r\<lparr>rp_status := - EINVAL\<rparr>, st, [])
      else
        let fetch = (offset = 0 \<or> rf_read_name st \<noteq> name \<or> rf_read_capacity st \<noteq> capacity);
            calls = (if fetch then [Slot_Call 1 [Bytes_Arg name, word_arg capacity]] else []);
            st = (if fetch
                  then st\<lparr>rf_read_name := name, rf_read_capacity := capacity, rf_read_data := store_bytes (zeroes (unat capacity)) (snd (ra_read an)),
                          rf_read_size := fst (ra_read an)\<rparr>
                  else st)
        in
        if sint (rf_read_size st) < 0 \<or> rf_read_size st > capacity \<or> offset > rf_read_size st then (r\<lparr>rp_status := - EIO\<rparr>, st, calls)
        else
          ((copy_piece (take (unat (rf_read_size st)) (rf_read_data st)) (unat offset) r)\<lparr>gr_arg0 := rf_read_size st, gr_result := scast (rf_read_size st)\<rparr>, st, calls))"

definition handle_remote_storage_call ::
  "bool \<Rightarrow> remote_storage_answers \<Rightarrow> bridge_remote_storage_state \<Rightarrow> lsteam_bridge_game_server_request \<Rightarrow> lsteam_bridge_game_server_response \<Rightarrow>
   lsteam_bridge_game_server_response \<times> bridge_remote_storage_state \<times> slot_call list" where
  "handle_remote_storage_call storage an st q r =
     (let r = stamp_handled LSTEAM_BRIDGE_REMOTE_STORAGE_CALL r; m = gq_method q; number = r\<lparr>gr_result := ra_number an\<rparr>;
          text = Bytes_Arg (terminated (gq_text q))
      in
      if \<not> storage then (r\<lparr>rp_status := - ENODEV\<rparr>, st, [])
      else if unat (gq_data_size q) > LSTEAM_BRIDGE_MAX_TICKET then (r\<lparr>rp_status := - EINVAL\<rparr>, st, [])
      else if m = 0 then write_file an st q r
      else if m = 1 then read_file an st q r
      else if m \<in> {5, 6, 7, 9, 13, 14, 15, 16, 17} then (number, st, [Slot_Call m [text]])
      else if m = 8 then (number, st, [Slot_Call 8 [text, word_arg (gq_arg0 q)]])
      else if m = 10 then (number, st, [Slot_Call 10 [Word_Arg (gq_steam_id q), Bytes_Arg (take (unat (gq_data_size q)) (gq_data q)), word_arg (gq_data_size q)]])
      else if m = 11 \<or> m = 12 then (number, st, [Slot_Call m [Word_Arg (gq_steam_id q)]])
      else if m = 18 \<or> m = 21 \<or> m = 22 then (number, st, [Slot_Call m []])
      else if m = 19 then (copy_string (r\<lparr>gr_arg0 := snd (ra_name an)\<rparr>) (fst (ra_name an)), st, [Slot_Call 19 [word_arg (gq_arg0 q)]])
      else if m = 20 then
        (number\<lparr>gr_data := store_bytes (gr_data r) (le_bytes 8 (fst (ra_quota an)) @ le_bytes 8 (snd (ra_quota an))), gr_data_size := 16\<rparr>, st, [Slot_Call 20 []])
      else if m = 23 then (r, st, [Slot_Call 23 [Word_Arg (if gq_arg0 q \<noteq> 0 then 1 else 0)]])
      else (r\<lparr>rp_status := - ENOSYS\<rparr>, st, []))"

section \<open>Packets\<close>

record bridge_networking_state =
  nw_send_remote :: u64
  nw_send_total :: u32
  nw_send_channel :: s32
  nw_send_data :: "u8 list"
  nw_read_capacity :: u32
  nw_read_size :: u32
  nw_read_channel :: s32
  nw_read_remote :: u64
  nw_read_ok :: bool
  nw_read_data :: "u8 list"

record networking_answers =
  na_number :: u64
  na_sent :: bool
  na_available :: u32
  na_read :: "bool \<times> u8 list \<times> u32 \<times> u64"
  na_session :: "u8 list"

definition maximum_packet :: u32 where "maximum_packet = 16 * 1024 * 1024"

definition send_packet ::
  "networking_answers \<Rightarrow> bridge_networking_state \<Rightarrow> lsteam_bridge_game_server_request \<Rightarrow> lsteam_bridge_game_server_response \<Rightarrow>
   lsteam_bridge_game_server_response \<times> bridge_networking_state \<times> slot_call list" where
  "send_packet an st q r =
     (let packet_size = gq_arg2 q; offset = gq_arg3 q in
      if packet_size > maximum_packet \<or> offset > packet_size \<or> gq_data_size q > packet_size - offset then (r\<lparr>rp_status := - EINVAL\<rparr>, st, [])
      else
        let st = (if offset = 0
                  then st\<lparr>nw_send_remote := gq_steam_id q, nw_send_total := packet_size, nw_send_channel := gq_arg1 q, nw_send_data := zeroes (unat packet_size)\<rparr>
                  else st)
        in
        if nw_send_remote st \<noteq> gq_steam_id q \<or> nw_send_total st \<noteq> packet_size \<or> nw_send_channel st \<noteq> gq_arg1 q \<or> length (nw_send_data st) \<noteq> unat packet_size
        then (r\<lparr>rp_status := - EINVAL\<rparr>, st, [])
        else
          let st = st\<lparr>nw_send_data := store_at (nw_send_data st) (unat offset) (take (unat (gq_data_size q)) (gq_data q))\<rparr> in
          if offset + gq_data_size q = packet_size then
            (r\<lparr>gr_result := if na_sent an then 1 else 0\<rparr>, st\<lparr>nw_send_data := [], nw_send_total := 0\<rparr>,
             [Slot_Call 0 [Word_Arg (gq_steam_id q), Bytes_Arg (nw_send_data st), word_arg packet_size, word_arg (gq_arg0 q), word_arg (gq_arg1 q)]])
          else (r\<lparr>gr_result := 1\<rparr>, st, []))"

definition read_packet ::
  "networking_answers \<Rightarrow> bridge_networking_state \<Rightarrow> lsteam_bridge_game_server_request \<Rightarrow> lsteam_bridge_game_server_response \<Rightarrow>
   lsteam_bridge_game_server_response \<times> bridge_networking_state \<times> slot_call list" where
  "read_packet an st q r =
     (let capacity = gq_arg0 q; offset = gq_arg2 q; channel = gq_arg1 q in
      if capacity > maximum_packet \<or> offset > capacity then (r\<lparr>rp_status := - EINVAL\<rparr>, st, [])
      else
        let fetch = (offset = 0 \<or> nw_read_capacity st \<noteq> capacity \<or> nw_read_channel st \<noteq> channel);
            calls = (if fetch then [Slot_Call 2 [word_arg capacity, word_arg channel]] else []);
            st = (if fetch
                  then case na_read an of (ok, bytes, len, sender) \<Rightarrow>
                    st\<lparr>nw_read_capacity := capacity, nw_read_channel := channel, nw_read_size := len, nw_read_remote := sender, nw_read_ok := ok,
                       nw_read_data := store_bytes (zeroes (unat capacity)) bytes\<rparr>
                  else st);
            r = r\<lparr>gr_result := if nw_read_ok st then 1 else 0, gr_arg0 := nw_read_size st, gr_steam_id := nw_read_remote st\<rparr>
        in
        if \<not> nw_read_ok st then (r, st, calls)
        else if nw_read_size st > capacity \<or> offset > nw_read_size st then (r\<lparr>rp_status := - EIO\<rparr>, st, calls)
        else (copy_piece (take (unat (nw_read_size st)) (nw_read_data st)) (unat offset) r, st, calls))"

definition handle_networking_call ::
  "bool \<Rightarrow> networking_answers \<Rightarrow> bridge_networking_state \<Rightarrow> lsteam_bridge_game_server_request \<Rightarrow> lsteam_bridge_game_server_response \<Rightarrow>
   lsteam_bridge_game_server_response \<times> bridge_networking_state \<times> slot_call list" where
  "handle_networking_call networking an st q r =
     (let r = stamp_handled LSTEAM_BRIDGE_NETWORKING_CALL r; m = gq_method q; number = r\<lparr>gr_result := na_number an\<rparr>; remote = Word_Arg (gq_steam_id q) in
      if \<not> networking then (r\<lparr>rp_status := - ENODEV\<rparr>, st, [])
      else if unat (gq_data_size q) > LSTEAM_BRIDGE_MAX_TICKET then (r\<lparr>rp_status := - EINVAL\<rparr>, st, [])
      else if m = 0 then send_packet an st q r
      else if m = 1 then (number\<lparr>gr_arg0 := na_available an\<rparr>, st, [Slot_Call 1 [word_arg (gq_arg0 q)]])
      else if m = 2 then read_packet an st q r
      else if m = 3 \<or> m = 4 then (number, st, [Slot_Call m [remote]])
      else if m = 5 then (number, st, [Slot_Call 5 [remote, word_arg (gq_arg0 q)]])
      else if m = 6 then
        (if na_number an \<noteq> 0
         then number\<lparr>gr_data := store_bytes (gr_data r) (na_session an), gr_data_size := of_nat (length (na_session an))\<rparr> else number, st, [Slot_Call 6 [remote]])
      else if m = 7 then (number, st, [Slot_Call 7 [Word_Arg (if gq_arg0 q \<noteq> 0 then 1 else 0)]])
      else (r\<lparr>rp_status := - ENOSYS\<rparr>, st, []))"

end
