(* ===== verification/Tgc_Bridge_Transfer_Props.thy ===== *)
theory Tgc_Bridge_Transfer_Props
  imports Tgc_Bridge_Transfers "HOL-Library.Sublist"
begin

text \<open>
  What the interfaces with more data than a message promise: what is written in pieces reaches the library once and whole, and what is read in pieces is the answer of one call.
  Both are contracts, proved once over the steps of a handler and interpreted on the handlers of \<^verbatim>\<open>Tgc_Bridge_Transfers\<close>.
\<close>

section \<open>Runs\<close>

text \<open>Requests handled one after another, with what each gives and the state at the end.\<close>

fun handle_all :: "('s \<Rightarrow> 'x \<Rightarrow> 'o \<times> 's) \<Rightarrow> 's \<Rightarrow> 'x list \<Rightarrow> 'o list \<times> 's" where
  "handle_all handle s [] = ([], s)"
| "handle_all handle s (x # xs) = (case handle s x of (out, s) \<Rightarrow> case handle_all handle s xs of (outs, s) \<Rightarrow> (out # outs, s))"

abbreviation outs_of :: "('s \<Rightarrow> 'x \<Rightarrow> 'o \<times> 's) \<Rightarrow> 's \<Rightarrow> 'x list \<Rightarrow> 'o list" where
  "outs_of handle s xs \<equiv> fst (handle_all handle s xs)"

lemma outs_of_Cons: "outs_of handle s (x # xs) = fst (handle s x) # outs_of handle (snd (handle s x)) xs"
  by (simp add: case_prod_unfold)

lemma map_filter_append: "List.map_filter f (xs @ ys) = List.map_filter f xs @ List.map_filter f ys"
  by (simp add: List.map_filter_def)

lemmas map_filter_eqs = List.map_filter_simps map_filter_append

section \<open>Writing in pieces\<close>

text \<open>
  Requests that carry \<open>bytes\<close> from \<open>offset\<close> on, in pieces that are not empty; requests that write nothing may come between them, another write may not. \<open>piece\<close> gives what a request asks to be written: under which
  key, how many bytes there are in all, at which offset, and the bytes.
\<close>

fun carries :: "('x \<Rightarrow> ('k \<times> u32 \<times> u32 \<times> u8 list) option) \<Rightarrow> 'k \<Rightarrow> u32 \<Rightarrow> nat \<Rightarrow> 'x list \<Rightarrow> u8 list \<Rightarrow> bool" where
  "carries piece k n offset [] bytes \<longleftrightarrow> bytes = []"
| "carries piece k n offset (x # xs) bytes \<longleftrightarrow>
     (case piece x of
        None \<Rightarrow> carries piece k n offset xs bytes
      | Some (k', n', offset', b) \<Rightarrow> k' = k \<and> n' = n \<and> unat offset' = offset \<and> b \<noteq> [] \<and> take (length b) bytes = b \<and>
          carries piece k n (offset + length b) xs (drop (length b) bytes))"

text \<open>Data put together from the pieces of one key and one size, the first of them at offset 0.\<close>

inductive built :: "('x \<Rightarrow> ('k \<times> u32 \<times> u32 \<times> u8 list) option) \<Rightarrow> 'k \<Rightarrow> u32 \<Rightarrow> 'x list \<Rightarrow> u8 list \<Rightarrow> bool" for piece k n where
  built_start: "piece x = Some (k, n, 0, b) \<Longrightarrow> built piece k n [x] (store_at (zeroes (unat n)) 0 b)"
| built_more: "built piece k n ys d \<Longrightarrow> piece x = Some (k, n, w, b) \<Longrightarrow> built piece k n (ys @ [x]) (store_at d (unat w) b)"


text \<open>
  The contract: a piece at offset 0 starts over, one that follows what is held is added to it, and the last one hands it on; a later piece of anything but what is held is
  refused. \<open>sent\<close> picks the calls that hand data on.
\<close>

locale gathering =
  fixes handle :: "'s \<Rightarrow> 'x \<Rightarrow> ('r \<times> 'c list) \<times> 's"
    and piece :: "'x \<Rightarrow> ('k \<times> u32 \<times> u32 \<times> u8 list) option"
    and valid :: "'x \<Rightarrow> bool"
    and held :: "'s \<Rightarrow> 'k \<times> u32 \<times> u8 list"
    and sent :: "'c \<Rightarrow> ('k \<times> u8 list) option"
    and accepted :: "'r \<Rightarrow> bool"
    and limit :: u32
  assumes other: "piece x = None \<Longrightarrow> held (snd (handle s x)) = held s \<and> List.map_filter sent (snd (fst (handle s x))) = []"
    and gathers: "valid x \<Longrightarrow> piece x = Some (k, n, offset, b) \<Longrightarrow> n \<le> limit \<Longrightarrow> unat offset + length b \<le> unat n \<Longrightarrow>
      offset = 0 \<and> d = zeroes (unat n) \<or> offset \<noteq> 0 \<and> held s = (k, n, d) \<and> length d = unat n \<Longrightarrow>
      accepted (fst (fst (handle s x))) \<and>
      List.map_filter sent (snd (fst (handle s x))) = (if unat offset + length b = unat n then [(k, store_at d (unat offset) b)] else []) \<and>
      (unat offset + length b \<noteq> unat n \<longrightarrow> held (snd (handle s x)) = (k, n, store_at d (unat offset) b))"
    and takes: "valid x \<Longrightarrow> piece x = Some (k, n, offset, b) \<Longrightarrow>
      held (snd (handle s x)) = held s \<and> List.map_filter sent (snd (fst (handle s x))) = [] \<or>
      (\<exists>d. (offset = 0 \<and> d = zeroes (unat n) \<or> n \<noteq> 0 \<and> held s = (k, n, d)) \<and>
        (List.map_filter sent (snd (fst (handle s x))) = [] \<and> held (snd (handle s x)) = (k, n, store_at d (unat offset) b) \<or>
         List.map_filter sent (snd (fst (handle s x))) = [(k, store_at d (unat offset) b)] \<and> fst (snd (held (snd (handle s x)))) = 0))"
    and stray: "piece x = Some (k, n, offset, b) \<Longrightarrow> offset \<noteq> 0 \<Longrightarrow> (fst (held s), fst (snd (held s))) \<noteq> (k, n) \<Longrightarrow>
      \<not> accepted (fst (fst (handle s x))) \<and> snd (fst (handle s x)) = [] \<and> snd (handle s x) = s"
begin

abbreviation sends :: "'s \<Rightarrow> 'x list \<Rightarrow> ('k \<times> u8 list) list" where
  "sends s xs \<equiv> List.map_filter sent (concat (map snd (outs_of handle s xs)))"

lemma sends_Cons: "sends s (x # xs) = List.map_filter sent (snd (fst (handle s x))) @ sends (snd (handle s x)) xs"
  by (simp only: outs_of_Cons list.map concat.simps map_filter_append)

abbreviation all_accepted :: "'s \<Rightarrow> 'x list \<Rightarrow> bool" where
  "all_accepted s xs \<equiv> list_all2 (\<lambda>x out. piece x = None \<or> accepted (fst out)) xs (outs_of handle s xs)"

lemma all_accepted_Cons: "all_accepted s (x # xs) \<longleftrightarrow> (piece x = None \<or> accepted (fst (fst (handle s x)))) \<and> all_accepted (snd (handle s x)) xs"
  by (simp only: outs_of_Cons list_all2_Cons)

lemma nothing_left: "carries piece k n offset xs [] \<Longrightarrow> sends s xs = [] \<and> all_accepted s xs"
proof (induction xs arbitrary: s)
  case Nil
  show ?case by (simp add: map_filter_eqs)
next
  case (Cons x xs)
  then have "piece x = None" "carries piece k n offset xs []" by (auto split: option.splits)
  then show ?case using Cons.IH other unfolding sends_Cons all_accepted_Cons by simp
qed

lemma gathers_rest:
  assumes "carries piece k n offset xs (drop offset bytes)" "\<forall>x \<in> set xs. valid x" "offset < length bytes" "length bytes = unat n" "n \<le> limit"
    and "offset = 0 \<or> held s = (k, n, d) \<and> length d = unat n \<and> take offset d = take offset bytes"
  shows "sends s xs = [(k, bytes)] \<and> all_accepted s xs"
  using assms
proof (induction xs arbitrary: offset s d)
  case Nil
  then show ?case by simp
next
  case (Cons x xs)
  show ?case
  proof (cases "piece x")
    case None
    then have "held (snd (handle s x)) = held s" "List.map_filter sent (snd (fst (handle s x))) = []" using other by blast+
    moreover have "carries piece k n offset xs (drop offset bytes)" using Cons.prems(1) None by simp
    ultimately show ?thesis using Cons.IH [of offset "snd (handle s x)" d] Cons.prems None unfolding sends_Cons all_accepted_Cons by simp
  next
    case (Some p)
    then obtain w b where x: "piece x = Some (k, n, w, b)" "unat w = offset" "b \<noteq> []" "take (length b) (drop offset bytes) = b"
        "carries piece k n (offset + length b) xs (drop (length b) (drop offset bytes))"
      using Cons.prems(1) by (auto split: prod.splits)
    let ?d = "if w = 0 then zeroes (unat n) else d"
    let ?d' = "store_at ?d offset b"
    have "length b \<le> length (drop offset bytes)" using arg_cong [OF x(4), of length] by simp
    then have fits: "offset + length b \<le> length bytes" using Cons.prems(3) by simp
    have zero: "w = 0 \<longleftrightarrow> offset = 0" using x(2) by (auto simp: unat_eq_0)
    have d: "length ?d = unat n" "take offset ?d = take offset bytes" using Cons.prems(6) zero by auto
    have so_far: "take (offset + length b) ?d' = take (offset + length b) bytes"
      using take_store_at [of offset b ?d] fits d Cons.prems(4) x(4) by (simp add: take_add)
    have step: "accepted (fst (fst (handle s x)))" "List.map_filter sent (snd (fst (handle s x))) = (if offset + length b = unat n then [(k, ?d')] else [])"
      "offset + length b \<noteq> unat n \<Longrightarrow> held (snd (handle s x)) = (k, n, ?d')"
      using gathers [of x k n w b ?d s] Cons.prems(2,4,5,6) x(1,2) fits zero by auto
    have rest: "carries piece k n (offset + length b) xs (drop (offset + length b) bytes)" using x(5) by (simp add: add.commute)
    show ?thesis
    proof (cases "offset + length b = unat n")
      case True
      then have "?d' = bytes" using so_far d(1) Cons.prems(4) by simp
      moreover have "sends (snd (handle s x)) xs = [] \<and> all_accepted (snd (handle s x)) xs" using nothing_left rest True Cons.prems(4) by simp
      ultimately show ?thesis using step(1,2) True unfolding sends_Cons all_accepted_Cons by simp
    next
      case False
      then have "sends (snd (handle s x)) xs = [(k, bytes)] \<and> all_accepted (snd (handle s x)) xs"
        using Cons.IH [OF rest, of "snd (handle s x)" ?d'] Cons.prems(2,4,5) step(3) so_far d(1) fits by simp
      then show ?thesis using step(1,2) False unfolding sends_Cons all_accepted_Cons by simp
    qed
  qed
qed

lemma sent_whole:
  assumes "carries piece k n 0 xs bytes" "\<forall>x \<in> set xs. valid x" "bytes \<noteq> []" "length bytes = unat n" "n \<le> limit"
  shows "sends s xs = [(k, bytes)] \<and> all_accepted s xs"
proof -
  have "0 < length bytes" using assms(3) by blast
  then show ?thesis using gathers_rest [of k n 0 xs bytes s] assms by simp
qed

text \<open>What is held, when anything is, was put together from pieces that have come.\<close>

definition gathered :: "'x list \<Rightarrow> 's \<Rightarrow> bool" where
  "gathered seen s \<longleftrightarrow> fst (snd (held s)) = 0 \<or> (\<exists>ys. subseq ys seen \<and> built piece (fst (held s)) (fst (snd (held s))) ys (snd (snd (held s))))"

lemma gathered_step:
  assumes "gathered seen s" "valid x"
  shows "gathered (seen @ [x]) (snd (handle s x))"
    and "(k, bytes) \<in> set (List.map_filter sent (snd (fst (handle s x)))) \<Longrightarrow> \<exists>n ys. subseq ys (seen @ [x]) \<and> built piece k n ys bytes"
proof -
  have kept: "gathered (seen @ [x]) s'" if "held s' = held s" for s'
    using assms(1) that unfolding gathered_def by (auto intro: subseq_rev_drop_many)
  have "gathered (seen @ [x]) (snd (handle s x)) \<and>
      (\<forall>k bytes. (k, bytes) \<in> set (List.map_filter sent (snd (fst (handle s x)))) \<longrightarrow> (\<exists>n ys. subseq ys (seen @ [x]) \<and> built piece k n ys bytes))"
  proof (cases "piece x")
    case None
    then show ?thesis using other [OF None, of s] kept by simp
  next
    case (Some p)
    then obtain k n w b where p: "piece x = Some (k, n, w, b)" by (metis prod_cases4)
    consider (refused) "held (snd (handle s x)) = held s" "List.map_filter sent (snd (fst (handle s x))) = []"
      | (taken) d where "w = 0 \<and> d = zeroes (unat n) \<or> n \<noteq> 0 \<and> held s = (k, n, d)"
          "List.map_filter sent (snd (fst (handle s x))) = [] \<and> held (snd (handle s x)) = (k, n, store_at d (unat w) b) \<or>
           List.map_filter sent (snd (fst (handle s x))) = [(k, store_at d (unat w) b)] \<and> fst (snd (held (snd (handle s x)))) = 0"
      using takes [OF assms(2) p, of s] by blast
    then show ?thesis
    proof cases
      case refused
      then show ?thesis using kept by simp
    next
      case (taken d)
      have "\<exists>ys. subseq ys (seen @ [x]) \<and> built piece k n ys (store_at d (unat w) b)"
      proof (cases "w = 0 \<and> d = zeroes (unat n)")
        case True
        then show ?thesis using built_start [of piece x] p by (intro exI [of _ "[x]"]) (simp add: subseq_singleton_left)
      next
        case False
        then obtain ys where "subseq ys seen" "built piece k n ys d" using assms(1) taken(1) by (auto simp: gathered_def)
        then show ?thesis using built_more [of piece k n ys d x] p by (intro exI [of _ "ys @ [x]"]) simp
      qed
      then show ?thesis using taken(2) unfolding gathered_def by fastforce
    qed
  qed
  then show "gathered (seen @ [x]) (snd (handle s x))"
    and "(k, bytes) \<in> set (List.map_filter sent (snd (fst (handle s x)))) \<Longrightarrow> \<exists>n ys. subseq ys (seen @ [x]) \<and> built piece k n ys bytes"
    by blast+
qed

lemma not_mixed_from:
  assumes "gathered seen s" "\<forall>x \<in> set xs. valid x" "(k, bytes) \<in> set (sends s xs)"
  shows "\<exists>n ys. subseq ys (seen @ xs) \<and> built piece k n ys bytes"
  using assms
proof (induction xs arbitrary: seen s)
  case Nil
  then show ?case by (simp add: map_filter_eqs)
next
  case (Cons x xs)
  from Cons.prems(3) consider "(k, bytes) \<in> set (List.map_filter sent (snd (fst (handle s x))))" | "(k, bytes) \<in> set (sends (snd (handle s x)) xs)"
    unfolding sends_Cons by auto
  then show ?case
  proof cases
    case 1
    moreover have "valid x" using Cons.prems(2) by simp
    ultimately obtain n ys where "subseq ys (seen @ [x])" "built piece k n ys bytes" using gathered_step(2) [OF Cons.prems(1)] by blast
    moreover have "seen @ x # xs = (seen @ [x]) @ xs" by simp
    ultimately show ?thesis using subseq_rev_drop_many by metis
  next
    case 2
    then show ?thesis using Cons.IH [of "seen @ [x]" "snd (handle s x)"] gathered_step(1) [OF Cons.prems(1)] Cons.prems(2) by simp
  qed
qed

lemma not_mixed: "fst (snd (held s)) = 0 \<Longrightarrow> \<forall>x \<in> set xs. valid x \<Longrightarrow> (k, bytes) \<in> set (sends s xs) \<Longrightarrow> \<exists>n ys. subseq ys xs \<and> built piece k n ys bytes"
  using not_mixed_from [of "[]" s xs k bytes] by (simp add: gathered_def)

end

section \<open>Reading in pieces\<close>

text \<open>
  Requests that read all of \<open>bytes\<close> under the key \<open>k\<close> from \<open>offset\<close> on, a message full at a time, among any other requests, reads under other keys included. \<open>asks\<close>
  gives the key and the offset of a request to read, and \<open>answer\<close> what the library would read for it. That counts for the first piece, and for a piece before which something
  else was read: then \<open>fresh\<close> is false, and the library has to answer \<open>bytes\<close> again.
\<close>

fun reads :: "('x \<Rightarrow> ('k \<times> u32) option) \<Rightarrow> ('x \<Rightarrow> u8 list option) \<Rightarrow> 'k \<Rightarrow> u8 list \<Rightarrow> bool \<Rightarrow> nat \<Rightarrow> 'x list \<Rightarrow> bool" where
  "reads asks answer k bytes fresh offset [] \<longleftrightarrow> length bytes \<le> offset"
| "reads asks answer k bytes fresh offset (x # xs) \<longleftrightarrow>
     (case asks x of
        None \<Rightarrow> reads asks answer k bytes fresh offset xs
      | Some (k', offset') \<Rightarrow>
          if k' \<noteq> k then reads asks answer k bytes False offset xs
          else unat offset' = offset \<and> offset \<le> length bytes \<and> (offset = 0 \<or> \<not> fresh \<longrightarrow> answer x = Some bytes) \<and>
            reads asks answer k bytes True (offset + response_room) xs)"

definition reads_key :: "('x \<Rightarrow> ('k \<times> u32) option) \<Rightarrow> 'k \<Rightarrow> 'x \<Rightarrow> bool" where
  "reads_key asks k x \<longleftrightarrow> (case asks x of None \<Rightarrow> False | Some (k', offset) \<Rightarrow> k' = k)"

definition reads_other :: "('x \<Rightarrow> ('k \<times> u32) option) \<Rightarrow> 'k \<Rightarrow> 'x \<Rightarrow> bool" where
  "reads_other asks k x \<longleftrightarrow> (case asks x of None \<Rightarrow> False | Some (k', offset) \<Rightarrow> k' \<noteq> k)"

lemma reads_key_simps:
  "asks x = None \<Longrightarrow> reads_key asks k x \<longleftrightarrow> False" "asks x = None \<Longrightarrow> reads_other asks k x \<longleftrightarrow> False"
  "asks x = Some (k', w) \<Longrightarrow> reads_key asks k x \<longleftrightarrow> k' = k" "asks x = Some (k', w) \<Longrightarrow> reads_other asks k x \<longleftrightarrow> k' \<noteq> k"
  by (simp_all add: reads_key_def reads_other_def)

text \<open>
  The contract: a request at offset 0, or under another key than the one of what is held, asks the library and keeps what it reads; the others are answered out of it.
  \<open>fetches\<close> picks the calls that read.
\<close>

locale piecewise_reading =
  fixes handle :: "'s \<Rightarrow> 'x \<Rightarrow> ('r \<times> 'c list) \<times> 's"
    and asks :: "'x \<Rightarrow> ('k \<times> u32) option"
    and answer :: "'x \<Rightarrow> u8 list option"
    and key :: "'s \<Rightarrow> 'k option"
    and held :: "'s \<Rightarrow> ('k \<times> u8 list) option"
    and got :: "'r \<Rightarrow> u8 list"
    and fetches :: "'c \<Rightarrow> bool"
  assumes other: "asks x = None \<Longrightarrow> held (snd (handle s x)) = held s \<and> key (snd (handle s x)) = key s \<and> filter fetches (snd (fst (handle s x))) = []"
    and fetched: "asks x = Some (k, offset) \<Longrightarrow> answer x = Some d \<Longrightarrow> offset = 0 \<or> key s \<noteq> Some k \<Longrightarrow> unat offset \<le> length d \<Longrightarrow>
      held (snd (handle s x)) = Some (k, d) \<and> got (fst (fst (handle s x))) = take response_room (drop (unat offset) d) \<and>
      length (filter fetches (snd (fst (handle s x)))) = 1"
    and later: "asks x = Some (k, offset) \<Longrightarrow> offset \<noteq> 0 \<Longrightarrow> held s = Some (k, d) \<Longrightarrow> unat offset \<le> length d \<Longrightarrow>
      held (snd (handle s x)) = Some (k, d) \<and> got (fst (fst (handle s x))) = take response_room (drop (unat offset) d) \<and> filter fetches (snd (fst (handle s x))) = []"
    and foreign_read: "asks x = Some (k', offset) \<Longrightarrow> k' \<noteq> k \<Longrightarrow>
      key (snd (handle s x)) \<noteq> Some k \<or> held (snd (handle s x)) = held s \<and> key (snd (handle s x)) = key s"
begin

abbreviation received :: "'k \<Rightarrow> 's \<Rightarrow> 'x list \<Rightarrow> u8 list" where
  "received k s xs \<equiv> concat (map2 (\<lambda>x out. if reads_key asks k x then got (fst out) else []) xs (outs_of handle s xs))"

abbreviation asked_for :: "'k \<Rightarrow> 's \<Rightarrow> 'x list \<Rightarrow> 'c list" where
  "asked_for k s xs \<equiv> concat (map2 (\<lambda>x out. if reads_key asks k x then filter fetches (snd out) else []) xs (outs_of handle s xs))"

lemma run_Cons:
  "received k s (x # xs) = (if reads_key asks k x then got (fst (fst (handle s x))) else []) @ received k (snd (handle s x)) xs"
  "asked_for k s (x # xs) = (if reads_key asks k x then filter fetches (snd (fst (handle s x))) else []) @ asked_for k (snd (handle s x)) xs"
  by (simp_all only: outs_of_Cons zip_Cons_Cons list.map prod.case concat.simps)

text \<open>What is known of the state before a piece that is not the first: it is what was read, or something else has been read.\<close>

lemma reads_rest:
  assumes "reads asks answer k bytes fresh offset xs" "offset \<noteq> 0" "held s = Some (k, bytes) \<or> \<not> fresh \<and> key s \<noteq> Some k"
  shows "received k s xs = drop offset bytes \<and>
    length (asked_for k s xs) \<le> (if held s = Some (k, bytes) then 0 else 1) + length (filter (reads_other asks k) xs)"
  using assms
proof (induction xs arbitrary: offset s fresh)
  case (Cons x xs)
  let ?s = "snd (handle s x)"
  consider (none) "asks x = None" | (foreign) k' w where "asks x = Some (k', w)" "k' \<noteq> k" | (own) w where "asks x = Some (k, w)"
    by (metis not_None_eq surj_pair)
  then show ?case
  proof cases
    case none
    then show ?thesis using Cons.IH [of fresh offset ?s] Cons.prems other [OF none, of s] unfolding run_Cons by (simp add: reads_key_simps)
  next
    case foreign
    have "held ?s = Some (k, bytes) \<or> key ?s \<noteq> Some k" using foreign_read [OF foreign, of s] Cons.prems(3) by metis
    then show ?thesis using Cons.IH [of False offset ?s] Cons.prems(1,2) foreign unfolding run_Cons by (auto simp: reads_key_simps split: if_splits)
  next
    case (own w)
    then have x: "unat w = offset" "offset \<le> length bytes" "\<not> fresh \<longrightarrow> answer x = Some bytes" "reads asks answer k bytes True (offset + response_room) xs"
      using Cons.prems(1) by auto
    have step: "held ?s = Some (k, bytes) \<and> got (fst (fst (handle s x))) = take response_room (drop offset bytes) \<and>
        length (filter fetches (snd (fst (handle s x)))) = (if held s = Some (k, bytes) then 0 else 1)"
    proof (cases "held s = Some (k, bytes)")
      case True
      have "w \<noteq> 0" using x(1) Cons.prems(2) by auto
      then show ?thesis using later [OF own _ True] x(1,2) True by simp
    next
      case False
      then show ?thesis using fetched [OF own, of bytes s] Cons.prems(3) x by simp
    qed
    have "take response_room (drop offset bytes) @ drop (offset + response_room) bytes = drop offset bytes"
      by (metis add.commute append_take_drop_id drop_drop)
    then show ?thesis using Cons.IH [OF x(4), of ?s] Cons.prems(2) step own unfolding run_Cons by (simp add: reads_key_simps)
  qed
qed simp

lemma read_whole:
  assumes "reads asks answer k bytes fresh 0 xs" "bytes \<noteq> []"
  shows "received k s xs = bytes \<and> 1 \<le> length (asked_for k s xs) \<and> length (asked_for k s xs) \<le> 1 + length (filter (reads_other asks k) xs)"
  using assms
proof (induction xs arbitrary: s fresh)
  case (Cons x xs)
  let ?s = "snd (handle s x)"
  consider (none) "asks x = None" | (foreign) k' w where "asks x = Some (k', w)" "k' \<noteq> k" | (own) w where "asks x = Some (k, w)"
    by (metis not_None_eq surj_pair)
  then show ?case
  proof cases
    case none
    then show ?thesis using Cons.IH [of fresh ?s] Cons.prems unfolding run_Cons by (simp add: reads_key_simps)
  next
    case foreign
    then show ?thesis using Cons.IH [of False ?s] Cons.prems unfolding run_Cons by (simp add: reads_key_simps)
  next
    case (own w)
    then have x: "w = 0" "answer x = Some bytes" "reads asks answer k bytes True response_room xs"
      using Cons.prems(1) by (auto simp: unat_eq_0)
    have "held ?s = Some (k, bytes) \<and> got (fst (fst (handle s x))) = take response_room bytes \<and> length (filter fetches (snd (fst (handle s x)))) = 1"
      using fetched [OF own x(2), of s] x(1) by simp
    then show ?thesis using reads_rest [OF x(3), of ?s] own unfolding run_Cons by (simp add: reads_key_simps)
  qed
qed simp

end

section \<open>The handlers\<close>

text \<open>
  A handler as the server runs it: on a blank response with the sequence number of the request. An input is that number, the answers the library has for the request, and the
  request.
\<close>

abbreviation blank_for :: "u32 \<Rightarrow> lsteam_bridge_game_server_response" where
  "blank_for sequence \<equiv> blank_game_server_response\<lparr>rp_sequence := sequence\<rparr>"

definition serve_utils ::
  "bridge_utils_state \<Rightarrow> u32 \<times> utils_answers \<times> lsteam_bridge_game_server_request \<Rightarrow> (lsteam_bridge_game_server_response \<times> slot_call list) \<times> bridge_utils_state" where
  "serve_utils st x = (case x of (sequence, an, q) \<Rightarrow> case handle_utils_call True an st q (blank_for sequence) of (r, st, calls) \<Rightarrow> ((r, calls), st))"

definition serve_remote_storage ::
  "bridge_remote_storage_state \<Rightarrow> u32 \<times> remote_storage_answers \<times> lsteam_bridge_game_server_request \<Rightarrow>
   (lsteam_bridge_game_server_response \<times> slot_call list) \<times> bridge_remote_storage_state" where
  "serve_remote_storage st x = (case x of (sequence, an, q) \<Rightarrow> case handle_remote_storage_call True an st q (blank_for sequence) of (r, st, calls) \<Rightarrow> ((r, calls), st))"

definition serve_networking ::
  "bridge_networking_state \<Rightarrow> u32 \<times> networking_answers \<times> lsteam_bridge_game_server_request \<Rightarrow>
   (lsteam_bridge_game_server_response \<times> slot_call list) \<times> bridge_networking_state" where
  "serve_networking st x = (case x of (sequence, an, q) \<Rightarrow> case handle_networking_call True an st q (blank_for sequence) of (r, st, calls) \<Rightarrow> ((r, calls), st))"

lemmas serve_defs = serve_utils_def serve_remote_storage_def serve_networking_def
lemmas transfer_calls = handle_utils_call_def handle_remote_storage_call_def handle_networking_call_def

text \<open>A request as it arrives, with a size that is allowed.\<close>

definition sized_request :: "lsteam_bridge_game_server_request \<Rightarrow> bool" where
  "sized_request q \<longleftrightarrow> game_server_request_ok q \<and> unat (gq_data_size q) \<le> LSTEAM_BRIDGE_MAX_TICKET"

definition carried :: "lsteam_bridge_game_server_request \<Rightarrow> u8 list" where
  "carried q = take (unat (gq_data_size q)) (gq_data q)"

lemma length_carried: "sized_request q \<Longrightarrow> length (carried q) = unat (gq_data_size q)"
  by (simp add: sized_request_def carried_def game_server_request_ok_def)

definition response_bytes :: "lsteam_bridge_game_server_response \<Rightarrow> u8 list" where
  "response_bytes r = (if rp_status r = 0 then take (unat (gr_data_size r)) (gr_data r) else [])"

lemma length_piece: "unat (of_nat (length (take response_room bytes)) :: u32) = length (take response_room bytes)"
  by (simp add: unsigned_of_nat take_bit_nat_eq_self)

lemma response_bytes_copy_piece:
  assumes "game_server_response_ok r" "rp_status r = 0"
  shows "response_bytes (copy_piece bytes offset r) = take response_room (drop offset bytes)"
  using assms take_store_bytes [of "take response_room (drop offset bytes)" "gr_data r"] length_piece [of "drop offset bytes"]
  by (simp add: response_bytes_def copy_piece_def Let_def game_server_response_ok_def)

lemma response_bytes_other [simp]: "response_bytes (r\<lparr>gr_result := v\<rparr>) = response_bytes r" "response_bytes (r\<lparr>gr_arg0 := a\<rparr>) = response_bytes r"
  by (simp_all add: response_bytes_def)

lemma response_bytes_header:
  "response_bytes (copy_piece bytes offset (r\<lparr>gr_result := v, gr_arg0 := a, gr_steam_id := i\<rparr>)) = response_bytes (copy_piece bytes offset r)"
  by (simp add: response_bytes_def copy_piece_def Let_def)

lemma blank_for_ok: "game_server_response_ok (stamp_handled opcode (blank_for sequence))" "rp_status (stamp_handled opcode (blank_for sequence)) = 0"
  by (simp_all add: stamp_handled_def game_server_response_ok_def blank_game_server_response_def)

text \<open>What is left of a word is enough for the bytes behind an offset.\<close>

lemma room_left:
  fixes n w c :: u32
  assumes "unat w + unat c \<le> unat n"
  shows "w \<le> n" "c \<le> n - w" "w + c = n \<longleftrightarrow> unat w + unat c = unat n"
proof -
  show w: "w \<le> n" using assms by (simp add: word_le_nat_alt)
  then show "c \<le> n - w" using assms by (simp add: word_le_nat_alt unat_sub)
  have "unat (w + c) = unat w + unat c" using assms unsigned_less [of n, where ?'a = nat] by (intro unat_add_lem [THEN iffD1]) linarith
  then show "w + c = n \<longleftrightarrow> unat w + unat c = unat n" using unsigned_word_eqI [of "w + c" n] by metis
qed

lemma word_back: "ucast (ucast (x :: u32) :: u64) = x"
  by (rule bit_word_eqI) (simp add: bit_ucast_iff)

section \<open>Writing a file, sending a packet\<close>

text \<open>What a request asks to be written, and the calls that write.\<close>

definition file_piece :: "u32 \<times> remote_storage_answers \<times> lsteam_bridge_game_server_request \<Rightarrow> (u8 list \<times> u32 \<times> u32 \<times> u8 list) option" where
  "file_piece x = (case x of (sequence, an, q) \<Rightarrow>
     if gq_method q = 0 then Some (c_text (terminated (gq_text q)), gq_arg0 q, gq_arg1 q, carried q) else None)"

definition packet_piece :: "u32 \<times> networking_answers \<times> lsteam_bridge_game_server_request \<Rightarrow> ((u64 \<times> u32) \<times> u32 \<times> u32 \<times> u8 list) option" where
  "packet_piece x = (case x of (sequence, an, q) \<Rightarrow> if gq_method q = 0 then Some ((gq_steam_id q, gq_arg1 q), gq_arg2 q, gq_arg3 q, carried q) else None)"

definition valid_request :: "u32 \<times> 'a \<times> lsteam_bridge_game_server_request \<Rightarrow> bool" where
  "valid_request x \<longleftrightarrow> sized_request (snd (snd x))"

definition written_file :: "slot_call \<Rightarrow> (u8 list \<times> u8 list) option" where
  "written_file call = (case call of Slot_Call m [Bytes_Arg name, Bytes_Arg bytes, n] \<Rightarrow> if m = 0 then Some (name, bytes) else None | _ \<Rightarrow> None)"

definition sent_packet :: "slot_call \<Rightarrow> ((u64 \<times> u32) \<times> u8 list) option" where
  "sent_packet call = (case call of
     Slot_Call m [Word_Arg remote, Bytes_Arg bytes, n, kind, Word_Arg channel] \<Rightarrow> if m = 0 then Some ((remote, ucast channel), bytes) else None | _ \<Rightarrow> None)"

definition file_held :: "bridge_remote_storage_state \<Rightarrow> u8 list \<times> u32 \<times> u8 list" where
  "file_held st = (rf_write_name st, rf_write_total st, rf_write_data st)"

definition packet_held :: "bridge_networking_state \<Rightarrow> (u64 \<times> u32) \<times> u32 \<times> u8 list" where
  "packet_held st = ((nw_send_remote st, nw_send_channel st), nw_send_total st, nw_send_data st)"

definition accepted_response :: "lsteam_bridge_game_server_response \<Rightarrow> bool" where
  "accepted_response r \<longleftrightarrow> rp_status r = 0"

lemma file_other:
  assumes "gq_method q \<noteq> 0" "handle_remote_storage_call True an st q r0 = (r, st', calls)"
  shows "file_held st' = file_held st" "List.map_filter written_file calls = []"
proof -
  note defs = handle_remote_storage_call_def read_file_def Let_def
  show "file_held st' = file_held st" using assms unfolding defs by (auto simp: file_held_def split: if_splits)
  show "List.map_filter written_file calls = []"
    using assms unfolding defs by (auto simp: written_file_def map_filter_eqs split: if_splits)
qed

lemma packet_other:
  assumes "gq_method q \<noteq> 0" "handle_networking_call True an st q r0 = (r, st', calls)"
  shows "packet_held st' = packet_held st" "List.map_filter sent_packet calls = []"
proof -
  note defs = handle_networking_call_def read_packet_def Let_def
  show "packet_held st' = packet_held st" using assms unfolding defs by (auto simp: packet_held_def split: if_splits prod.splits)
  show "List.map_filter sent_packet calls = []"
    using assms unfolding defs by (auto simp: sent_packet_def map_filter_eqs split: if_splits)
qed

text \<open>What becomes of a piece: it is refused, or put at its place in what is held, and the last one is handed on.\<close>

lemma write_file_takes:
  assumes "write_file an s q r0 = (r, s', calls)" "name = c_text (terminated (gq_text q))" "n = gq_arg0 q" "offset = gq_arg1 q"
  shows "file_held s' = file_held s \<and> calls = [] \<or>
    (\<exists>d. (offset = 0 \<and> d = zeroes (unat n) \<or> n \<noteq> 0 \<and> file_held s = (name, n, d)) \<and>
      (calls = [] \<and> file_held s' = (name, n, store_at d (unat offset) (carried q)) \<or>
       List.map_filter written_file calls = [(name, store_at d (unat offset) (carried q))] \<and> fst (snd (file_held s')) = 0))"
proof (cases "n > maximum_file \<or> offset > n \<or> gq_data_size q > n - offset")
  case True
  then show ?thesis using assms(1) unfolding write_file_def assms(3,4) by simp
next
  case False
  then have "offset \<noteq> 0 \<Longrightarrow> n \<noteq> 0" by (metis word_gt_0)
  then show ?thesis using assms(1) False unfolding write_file_def Let_def assms(2) assms(3,4) [symmetric]
    by (cases "offset = 0") (auto simp: file_held_def written_file_def map_filter_eqs carried_def split: if_splits)
qed

lemma send_packet_takes:
  assumes "send_packet an s q r0 = (r, s', calls)" "k = (gq_steam_id q, gq_arg1 q)" "n = gq_arg2 q" "offset = gq_arg3 q"
  shows "packet_held s' = packet_held s \<and> calls = [] \<or>
    (\<exists>d. (offset = 0 \<and> d = zeroes (unat n) \<or> n \<noteq> 0 \<and> packet_held s = (k, n, d)) \<and>
      (calls = [] \<and> packet_held s' = (k, n, store_at d (unat offset) (carried q)) \<or>
       List.map_filter sent_packet calls = [(k, store_at d (unat offset) (carried q))] \<and> fst (snd (packet_held s')) = 0))"
proof (cases "n > maximum_packet \<or> offset > n \<or> gq_data_size q > n - offset")
  case True
  then show ?thesis using assms(1) unfolding send_packet_def assms(3,4) by simp
next
  case False
  then have "offset \<noteq> 0 \<Longrightarrow> n \<noteq> 0" by (metis word_gt_0)
  then show ?thesis using assms(1) False unfolding send_packet_def Let_def assms(2) assms(3,4) [symmetric]
    by (cases "offset = 0") (auto simp: packet_held_def sent_packet_def map_filter_eqs carried_def word_back split: if_splits)
qed

lemma stray_pieces_refused:
  "gq_arg1 q \<noteq> 0 \<Longrightarrow> (rf_write_name s, rf_write_total s) \<noteq> (c_text (terminated (gq_text q)), gq_arg0 q) \<Longrightarrow> write_file an s q r = (r\<lparr>rp_status := - EINVAL\<rparr>, s, [])"
  "gq_arg3 q \<noteq> 0 \<Longrightarrow> ((nw_send_remote st, nw_send_channel st), nw_send_total st) \<noteq> ((gq_steam_id q, gq_arg1 q), gq_arg2 q) \<Longrightarrow>
     send_packet na st q r = (r\<lparr>rp_status := - EINVAL\<rparr>, st, [])"
  by (auto simp: write_file_def send_packet_def Let_def)

interpretation files_written: gathering serve_remote_storage file_piece valid_request file_held written_file accepted_response maximum_file
proof
  fix s :: bridge_remote_storage_state and x :: "u32 \<times> remote_storage_answers \<times> lsteam_bridge_game_server_request"
  obtain sequence an q where x: "x = (sequence, an, q)" by (cases x)
  obtain r s' calls where h: "handle_remote_storage_call True an s q (blank_for sequence) = (r, s', calls)" by (metis prod_cases3)
  have out: "serve_remote_storage s (sequence, an, q) = ((r, calls), s')" by (simp add: serve_defs h)
  show "file_piece x = None \<Longrightarrow> file_held (snd (serve_remote_storage s x)) = file_held s \<and> List.map_filter written_file (snd (fst (serve_remote_storage s x))) = []"
    using file_other [OF _ h] by (auto simp: out x file_piece_def split: if_splits)
  fix k :: "u8 list" and n offset :: u32 and b d :: "u8 list"
  have asked: "gq_method q = 0" "c_text (terminated (gq_text q)) = k" "gq_arg0 q = n" "gq_arg1 q = offset" "carried q = b" if "file_piece x = Some (k, n, offset, b)"
    using that by (auto simp: x file_piece_def split: if_splits)
  let ?r = "stamp_handled LSTEAM_BRIDGE_REMOTE_STORAGE_CALL (blank_for sequence)"
  show "file_held (snd (serve_remote_storage s x)) = file_held s \<and> List.map_filter written_file (snd (fst (serve_remote_storage s x))) = [] \<or>
      (\<exists>d. (offset = 0 \<and> d = zeroes (unat n) \<or> n \<noteq> 0 \<and> file_held s = (k, n, d)) \<and>
        (List.map_filter written_file (snd (fst (serve_remote_storage s x))) = [] \<and> file_held (snd (serve_remote_storage s x)) = (k, n, store_at d (unat offset) b) \<or>
         List.map_filter written_file (snd (fst (serve_remote_storage s x))) = [(k, store_at d (unat offset) b)] \<and> fst (snd (file_held (snd (serve_remote_storage s x)))) = 0))"
    if "valid_request x" "file_piece x = Some (k, n, offset, b)"
  proof -
    have "write_file an s q ?r = (r, s', calls)" using h asked [OF that(2)] that(1) by (simp add: handle_remote_storage_call_def Let_def x valid_request_def sized_request_def)
    from write_file_takes [OF this, of k n offset] asked [OF that(2)] show ?thesis by (auto simp: x out map_filter_eqs)
  qed
  show "\<not> accepted_response (fst (fst (serve_remote_storage s x))) \<and> snd (fst (serve_remote_storage s x)) = [] \<and> snd (serve_remote_storage s x) = s"
    if "file_piece x = Some (k, n, offset, b)" "offset \<noteq> 0" "(fst (file_held s), fst (snd (file_held s))) \<noteq> (k, n)"
  proof -
    note q = asked [OF that(1)]
    have "write_file an s q ?r = (?r\<lparr>rp_status := - EINVAL\<rparr>, s, [])" using stray_pieces_refused(1) that(2,3) q by (simp add: file_held_def)
    then show ?thesis using h q(1) by (auto simp: x out accepted_response_def handle_remote_storage_call_def Let_def split: if_splits)
  qed
  assume p: "valid_request x" "file_piece x = Some (k, n, offset, b)" "n \<le> maximum_file" "unat offset + length b \<le> unat n"
    and d: "offset = 0 \<and> d = zeroes (unat n) \<or> offset \<noteq> 0 \<and> file_held s = (k, n, d) \<and> length d = unat n"
  have q: "gq_method q = 0" "c_text (terminated (gq_text q)) = k" "gq_arg0 q = n" "gq_arg1 q = offset" "carried q = b" "length b = unat (gq_data_size q)"
      "\<not> unat (gq_data_size q) > LSTEAM_BRIDGE_MAX_TICKET"
    using p(1,2) length_carried by (auto simp: x file_piece_def valid_request_def sized_request_def split: if_splits)
  have fits: "unat offset + unat (gq_data_size q) \<le> unat n" using p(4) q(6) by simp
  have "write_file an s q (stamp_handled LSTEAM_BRIDGE_REMOTE_STORAGE_CALL (blank_for sequence)) = (r, s', calls)"
    using h q by (simp add: handle_remote_storage_call_def Let_def)
  then have "rp_status r = 0 \<and> List.map_filter written_file calls = (if unat offset + length b = unat n then [(k, store_at d (unat offset) b)] else []) \<and>
      (unat offset + length b \<noteq> unat n \<longrightarrow> file_held s' = (k, n, store_at d (unat offset) b))"
    using d p(3) room_left [OF fits] q(2-6)
    by (auto simp: write_file_def Let_def not_less carried_def file_held_def written_file_def map_filter_eqs blank_for_ok split: if_splits)
  then show "accepted_response (fst (fst (serve_remote_storage s x))) \<and>
      List.map_filter written_file (snd (fst (serve_remote_storage s x))) = (if unat offset + length b = unat n then [(k, store_at d (unat offset) b)] else []) \<and>
      (unat offset + length b \<noteq> unat n \<longrightarrow> file_held (snd (serve_remote_storage s x)) = (k, n, store_at d (unat offset) b))"
    by (simp add: x out accepted_response_def)
qed

interpretation packets_sent: gathering serve_networking packet_piece valid_request packet_held sent_packet accepted_response maximum_packet
proof
  fix s :: bridge_networking_state and x :: "u32 \<times> networking_answers \<times> lsteam_bridge_game_server_request"
  obtain sequence an q where x: "x = (sequence, an, q)" by (cases x)
  obtain r s' calls where h: "handle_networking_call True an s q (blank_for sequence) = (r, s', calls)" by (metis prod_cases3)
  have out: "serve_networking s (sequence, an, q) = ((r, calls), s')" by (simp add: serve_defs h)
  show "packet_piece x = None \<Longrightarrow> packet_held (snd (serve_networking s x)) = packet_held s \<and> List.map_filter sent_packet (snd (fst (serve_networking s x))) = []"
    using packet_other [OF _ h] by (auto simp: out x packet_piece_def split: if_splits)
  fix k :: "u64 \<times> u32" and n offset :: u32 and b d :: "u8 list"
  have asked: "gq_method q = 0" "k = (gq_steam_id q, gq_arg1 q)" "gq_arg2 q = n" "gq_arg3 q = offset" "carried q = b" if "packet_piece x = Some (k, n, offset, b)"
    using that by (auto simp: x packet_piece_def split: if_splits)
  let ?r = "stamp_handled LSTEAM_BRIDGE_NETWORKING_CALL (blank_for sequence)"
  show "packet_held (snd (serve_networking s x)) = packet_held s \<and> List.map_filter sent_packet (snd (fst (serve_networking s x))) = [] \<or>
      (\<exists>d. (offset = 0 \<and> d = zeroes (unat n) \<or> n \<noteq> 0 \<and> packet_held s = (k, n, d)) \<and>
        (List.map_filter sent_packet (snd (fst (serve_networking s x))) = [] \<and> packet_held (snd (serve_networking s x)) = (k, n, store_at d (unat offset) b) \<or>
         List.map_filter sent_packet (snd (fst (serve_networking s x))) = [(k, store_at d (unat offset) b)] \<and> fst (snd (packet_held (snd (serve_networking s x)))) = 0))"
    if "valid_request x" "packet_piece x = Some (k, n, offset, b)"
  proof -
    have "send_packet an s q ?r = (r, s', calls)" using h asked [OF that(2)] that(1) by (simp add: handle_networking_call_def Let_def x valid_request_def sized_request_def)
    from send_packet_takes [OF this, of k n offset] asked [OF that(2)] show ?thesis by (auto simp: x out map_filter_eqs)
  qed
  show "\<not> accepted_response (fst (fst (serve_networking s x))) \<and> snd (fst (serve_networking s x)) = [] \<and> snd (serve_networking s x) = s"
    if "packet_piece x = Some (k, n, offset, b)" "offset \<noteq> 0" "(fst (packet_held s), fst (snd (packet_held s))) \<noteq> (k, n)"
  proof -
    note q = asked [OF that(1)]
    have "send_packet an s q ?r = (?r\<lparr>rp_status := - EINVAL\<rparr>, s, [])" using stray_pieces_refused(2) that(2,3) q by (simp add: packet_held_def)
    then show ?thesis using h q(1) by (auto simp: x out accepted_response_def handle_networking_call_def Let_def split: if_splits)
  qed
  assume p: "valid_request x" "packet_piece x = Some (k, n, offset, b)" "n \<le> maximum_packet" "unat offset + length b \<le> unat n"
    and d: "offset = 0 \<and> d = zeroes (unat n) \<or> offset \<noteq> 0 \<and> packet_held s = (k, n, d) \<and> length d = unat n"
  have q: "gq_method q = 0" "k = (gq_steam_id q, gq_arg1 q)" "gq_arg2 q = n" "gq_arg3 q = offset" "carried q = b" "length b = unat (gq_data_size q)"
      "\<not> unat (gq_data_size q) > LSTEAM_BRIDGE_MAX_TICKET"
    using p(1,2) length_carried by (auto simp: x packet_piece_def valid_request_def sized_request_def split: if_splits)
  have fits: "unat offset + unat (gq_data_size q) \<le> unat n" using p(4) q(6) by simp
  have "send_packet an s q (stamp_handled LSTEAM_BRIDGE_NETWORKING_CALL (blank_for sequence)) = (r, s', calls)"
    using h q by (simp add: handle_networking_call_def Let_def)
  then have "rp_status r = 0 \<and> List.map_filter sent_packet calls = (if unat offset + length b = unat n then [(k, store_at d (unat offset) b)] else []) \<and>
      (unat offset + length b \<noteq> unat n \<longrightarrow> packet_held s' = (k, n, store_at d (unat offset) b))"
    using d p(3) room_left [OF fits] q(2-6)
    by (auto simp: send_packet_def Let_def not_less carried_def packet_held_def sent_packet_def map_filter_eqs blank_for_ok word_back split: if_splits)
  then show "accepted_response (fst (fst (serve_networking s x))) \<and>
      List.map_filter sent_packet (snd (fst (serve_networking s x))) = (if unat offset + length b = unat n then [(k, store_at d (unat offset) b)] else []) \<and>
      (unat offset + length b \<noteq> unat n \<longrightarrow> packet_held (snd (serve_networking s x)) = (k, n, store_at d (unat offset) b))"
    by (simp add: x out accepted_response_def)
qed

section \<open>Reading an image, a file, a packet\<close>

text \<open>
  Which data a request asks for, and what the library answers: that it has written as many bytes as it says. An image is asked for with its size, so all of that must be
  written.
\<close>

definition image_asks :: "u32 \<times> utils_answers \<times> lsteam_bridge_game_server_request \<Rightarrow> ((u32 \<times> u32) \<times> u32) option" where
  "image_asks x = (case x of (sequence, an, q) \<Rightarrow>
     if gq_method q = 1 \<and> gq_arg1 q \<noteq> 0 \<and> gq_arg1 q \<le> 4 * 1024 * 1024 then Some ((gq_arg0 q, gq_arg1 q), gq_arg2 q) else None)"

definition image_answer :: "u32 \<times> utils_answers \<times> lsteam_bridge_game_server_request \<Rightarrow> u8 list option" where
  "image_answer x = (case x of (sequence, an, q) \<Rightarrow> case ua_rgba an of (ok, bytes) \<Rightarrow> if ok \<and> length bytes = unat (gq_arg1 q) then Some bytes else None)"

definition image_held :: "bridge_utils_state \<Rightarrow> ((u32 \<times> u32) \<times> u8 list) option" where
  "image_held st =
     (if us_image_data st \<noteq> [] \<and> length (us_image_data st) = unat (us_image_size st) then Some ((us_image st, us_image_size st), us_image_data st) else None)"

definition image_key :: "bridge_utils_state \<Rightarrow> (u32 \<times> u32) option" where
  "image_key st = (if us_image_data st = [] then None else Some (us_image st, us_image_size st))"

definition file_asks :: "u32 \<times> remote_storage_answers \<times> lsteam_bridge_game_server_request \<Rightarrow> ((u8 list \<times> u32) \<times> u32) option" where
  "file_asks x = (case x of (sequence, an, q) \<Rightarrow>
     if gq_method q = 1 \<and> unat (gq_data_size q) \<le> LSTEAM_BRIDGE_MAX_TICKET \<and> gq_arg0 q \<le> maximum_file
     then Some ((c_text (terminated (gq_text q)), gq_arg0 q), gq_arg1 q) else None)"

definition file_answer :: "u32 \<times> remote_storage_answers \<times> lsteam_bridge_game_server_request \<Rightarrow> u8 list option" where
  "file_answer x = (case x of (sequence, an, q) \<Rightarrow> case ra_read an of (n, bytes) \<Rightarrow>
     if 0 \<le> sint n \<and> n \<le> gq_arg0 q \<and> length bytes = unat n then Some bytes else None)"

definition file_kept :: "bridge_remote_storage_state \<Rightarrow> ((u8 list \<times> u32) \<times> u8 list) option" where
  "file_kept st =
     (if 0 \<le> sint (rf_read_size st) \<and> rf_read_size st \<le> rf_read_capacity st
      then Some ((rf_read_name st, rf_read_capacity st), take (unat (rf_read_size st)) (rf_read_data st)) else None)"

definition file_key :: "bridge_remote_storage_state \<Rightarrow> (u8 list \<times> u32) option" where
  "file_key st = Some (rf_read_name st, rf_read_capacity st)"

definition packet_asks :: "u32 \<times> networking_answers \<times> lsteam_bridge_game_server_request \<Rightarrow> ((u32 \<times> u32) \<times> u32) option" where
  "packet_asks x = (case x of (sequence, an, q) \<Rightarrow>
     if gq_method q = 2 \<and> unat (gq_data_size q) \<le> LSTEAM_BRIDGE_MAX_TICKET \<and> gq_arg0 q \<le> maximum_packet then Some ((gq_arg1 q, gq_arg0 q), gq_arg2 q) else None)"

definition packet_answer :: "u32 \<times> networking_answers \<times> lsteam_bridge_game_server_request \<Rightarrow> u8 list option" where
  "packet_answer x = (case x of (sequence, an, q) \<Rightarrow> case na_read an of (ok, bytes, n, sender) \<Rightarrow>
     if ok \<and> n \<le> gq_arg0 q \<and> length bytes = unat n then Some bytes else None)"

definition packet_kept :: "bridge_networking_state \<Rightarrow> ((u32 \<times> u32) \<times> u8 list) option" where
  "packet_kept st =
     (if nw_read_ok st \<and> nw_read_size st \<le> nw_read_capacity st
      then Some ((nw_read_channel st, nw_read_capacity st), take (unat (nw_read_size st)) (nw_read_data st)) else None)"

definition packet_key :: "bridge_networking_state \<Rightarrow> (u32 \<times> u32) option" where
  "packet_key st = Some (nw_read_channel st, nw_read_capacity st)"

fun calls_slot :: "u32 \<Rightarrow> slot_call \<Rightarrow> bool" where
  "calls_slot n (Slot_Call m args) \<longleftrightarrow> m = n"

lemma take_store_prefix: "length bytes = n \<Longrightarrow> n \<le> length array \<Longrightarrow> take n (store_bytes array bytes) = bytes"
  using take_store_bytes by blast

lemma store_whole: "length bytes = length array \<Longrightarrow> store_bytes array bytes = bytes"
  by (simp add: store_bytes_def)

lemma length_resized [simp]: "length (resized n bytes) = n"
  by (simp add: resized_def)

interpretation image_read: piecewise_reading serve_utils image_asks image_answer image_key image_held response_bytes "calls_slot 1"
proof
  fix s :: bridge_utils_state and x :: "u32 \<times> utils_answers \<times> lsteam_bridge_game_server_request"
  obtain sequence an q where x: "x = (sequence, an, q)" by (cases x)
  let ?r = "stamp_handled LSTEAM_BRIDGE_UTILS_CALL (blank_for sequence)"
  obtain r s' calls where h: "handle_utils_call True an s q (blank_for sequence) = (r, s', calls)" by (metis prod_cases3)
  have out: "serve_utils s (sequence, an, q) = ((r, calls), s')" by (simp add: serve_defs h)
  have rejected: "gq_arg1 q = 0 \<or> \<not> gq_arg1 q \<le> 4 * 1024 * 1024 \<Longrightarrow> gq_method q = 1 \<Longrightarrow> s' = s \<and> calls = []"
    using h unfolding handle_utils_call_def get_image_rgba_def by (auto simp: not_le Let_def)
  have "gq_method q \<noteq> 1 \<Longrightarrow> s' = s \<and> filter (calls_slot 1) calls = []" using h unfolding handle_utils_call_def Let_def by (auto split: if_splits prod.splits)
  then show "image_asks x = None \<Longrightarrow> image_held (snd (serve_utils s x)) = image_held s \<and> image_key (snd (serve_utils s x)) = image_key s \<and> filter (calls_slot 1) (snd (fst (serve_utils s x))) = []"
    using rejected by (cases "gq_method q = 1") (auto simp: x out image_asks_def split: if_splits)
  have read: "get_image_rgba an s q ?r = (r, s', calls)" if "gq_method q = 1" using h that by (simp add: handle_utils_call_def Let_def)
  fix k :: "u32 \<times> u32" and d :: "u8 list" and offset :: u32
  show "image_held (snd (serve_utils s x)) = Some (k, d) \<and> response_bytes (fst (fst (serve_utils s x))) = take response_room (drop (unat offset) d) \<and>
      length (filter (calls_slot 1) (snd (fst (serve_utils s x)))) = 1"
    if "image_asks x = Some (k, offset)" "image_answer x = Some d" "offset = 0 \<or> image_key s \<noteq> Some k" "unat offset \<le> length d"
  proof -
    have q: "gq_method q = 1" "gq_arg1 q \<noteq> 0" "gq_arg1 q \<le> 4 * 1024 * 1024" "k = (gq_arg0 q, gq_arg1 q)" "gq_arg2 q = offset" "ua_rgba an = (True, d)" "length d = unat (gq_arg1 q)"
      using that by (auto simp: x image_asks_def image_answer_def split: if_splits prod.splits)
    have d: "d \<noteq> []" "offset \<le> gq_arg1 q" using q(2,7) that(4) by (auto simp: unat_eq_0 word_le_nat_alt)
    have "us_image s \<noteq> gq_arg0 q \<or> us_image_size s \<noteq> gq_arg1 q \<or> offset = 0 \<or> us_image_data s = []" using that(3) q(4) by (auto simp: image_key_def split: if_splits)
    then show ?thesis using read [OF q(1)] q(2-7) d response_bytes_copy_piece [OF blank_for_ok, of d "unat offset"]
      by (auto simp: get_image_rgba_def Let_def x out store_whole not_less image_held_def split: if_splits)
  qed
  show "image_key (snd (serve_utils s x)) \<noteq> Some k \<or> image_held (snd (serve_utils s x)) = image_held s \<and> image_key (snd (serve_utils s x)) = image_key s"
    if "image_asks x = Some (k', offset)" "k' \<noteq> k" for k'
  proof -
    have q: "gq_method q = 1" "k' = (gq_arg0 q, gq_arg1 q)" using that(1) by (auto simp: x image_asks_def split: if_splits)
    then show ?thesis using read [OF q(1)] that(2) by (auto simp: get_image_rgba_def Let_def x out image_key_def split: if_splits prod.splits)
  qed
  show "image_held (snd (serve_utils s x)) = Some (k, d) \<and> response_bytes (fst (fst (serve_utils s x))) = take response_room (drop (unat offset) d) \<and>
      filter (calls_slot 1) (snd (fst (serve_utils s x))) = []" if "image_asks x = Some (k, offset)" "offset \<noteq> 0" "image_held s = Some (k, d)" "unat offset \<le> length d"
  proof -
    have q: "gq_method q = 1" "gq_arg1 q \<noteq> 0" "gq_arg1 q \<le> 4 * 1024 * 1024" "k = (gq_arg0 q, gq_arg1 q)" "gq_arg2 q = offset"
      and st: "us_image_data s = d" "d \<noteq> []" "length d = unat (us_image_size s)" "us_image s = gq_arg0 q" "us_image_size s = gq_arg1 q"
      using that by (auto simp: x image_asks_def image_held_def split: if_splits)
    have "offset \<le> gq_arg1 q" using that(4) st by (simp add: word_le_nat_alt)
    then show ?thesis using read [OF q(1)] q(2-5) st that(2,3) response_bytes_copy_piece [OF blank_for_ok, of d "unat offset"]
      by (auto simp: get_image_rgba_def Let_def x out not_less split: if_splits)
  qed
qed

interpretation file_read: piecewise_reading serve_remote_storage file_asks file_answer file_key file_kept response_bytes "calls_slot 1"
proof
  fix s :: bridge_remote_storage_state and x :: "u32 \<times> remote_storage_answers \<times> lsteam_bridge_game_server_request"
  obtain sequence an q where x: "x = (sequence, an, q)" by (cases x)
  let ?r = "stamp_handled LSTEAM_BRIDGE_REMOTE_STORAGE_CALL (blank_for sequence)" and ?name = "c_text (terminated (gq_text q))"
  obtain r s' calls where h: "handle_remote_storage_call True an s q (blank_for sequence) = (r, s', calls)" by (metis prod_cases3)
  have out: "serve_remote_storage s (sequence, an, q) = ((r, calls), s')" by (simp add: serve_defs h)
  have rejected: "\<not> unat (gq_data_size q) \<le> LSTEAM_BRIDGE_MAX_TICKET \<or> \<not> gq_arg0 q \<le> maximum_file \<Longrightarrow> gq_method q = 1 \<Longrightarrow> s' = s \<and> calls = []"
    using h unfolding handle_remote_storage_call_def read_file_def by (auto simp: not_le Let_def split: if_splits)
  have "gq_method q \<noteq> 1 \<Longrightarrow> file_kept s' = file_kept s \<and> file_key s' = file_key s \<and> filter (calls_slot 1) calls = []"
    using h unfolding handle_remote_storage_call_def write_file_def Let_def by (auto simp: file_kept_def file_key_def split: if_splits)
  then show "file_asks x = None \<Longrightarrow> file_kept (snd (serve_remote_storage s x)) = file_kept s \<and> file_key (snd (serve_remote_storage s x)) = file_key s \<and> filter (calls_slot 1) (snd (fst (serve_remote_storage s x))) = []"
    using rejected by (cases "gq_method q = 1") (auto simp: x out file_asks_def split: if_splits)
  have read: "read_file an s q ?r = (r, s', calls)" if "gq_method q = 1" "\<not> unat (gq_data_size q) > LSTEAM_BRIDGE_MAX_TICKET"
    using h that by (simp add: handle_remote_storage_call_def Let_def)
  fix k :: "u8 list \<times> u32" and d :: "u8 list" and offset :: u32
  show "file_kept (snd (serve_remote_storage s x)) = Some (k, d) \<and> response_bytes (fst (fst (serve_remote_storage s x))) = take response_room (drop (unat offset) d) \<and>
      length (filter (calls_slot 1) (snd (fst (serve_remote_storage s x)))) = 1"
    if "file_asks x = Some (k, offset)" "file_answer x = Some d" "offset = 0 \<or> file_key s \<noteq> Some k" "unat offset \<le> length d"
  proof -
    note asked = that
    obtain n where q: "gq_method q = 1" "\<not> unat (gq_data_size q) > LSTEAM_BRIDGE_MAX_TICKET" "gq_arg0 q \<le> maximum_file" "k = (?name, gq_arg0 q)" "gq_arg1 q = offset"
        "ra_read an = (n, d)" "0 \<le> sint n" "n \<le> gq_arg0 q" "length d = unat n"
      using asked by (auto simp: x file_asks_def file_answer_def split: if_splits prod.splits)
    have "take (unat n) (store_bytes (zeroes (unat (gq_arg0 q))) d) = d" using take_store_prefix q(8,9) by (simp add: word_le_nat_alt)
    moreover have "offset \<le> n" "offset \<le> gq_arg0 q" using asked(4) q(8,9) by (simp_all add: word_le_nat_alt)
    moreover have "offset = 0 \<or> rf_read_name s \<noteq> ?name \<or> rf_read_capacity s \<noteq> gq_arg0 q" using asked(3) q(4) by (auto simp: file_key_def)
    ultimately show ?thesis using read [OF q(1,2)] q(3-8) response_bytes_copy_piece [OF blank_for_ok, of d "unat offset"]
      by (auto simp: read_file_def Let_def x out not_less file_kept_def split: if_splits)
  qed
  show "file_key (snd (serve_remote_storage s x)) \<noteq> Some k \<or> file_kept (snd (serve_remote_storage s x)) = file_kept s \<and> file_key (snd (serve_remote_storage s x)) = file_key s"
    if "file_asks x = Some (k', offset)" "k' \<noteq> k" for k'
  proof -
    have q: "gq_method q = 1" "\<not> unat (gq_data_size q) > LSTEAM_BRIDGE_MAX_TICKET" "k' = (?name, gq_arg0 q)" using that(1) by (auto simp: x file_asks_def split: if_splits)
    then show ?thesis using read [OF q(1,2)] that(2) by (auto simp: read_file_def Let_def x out file_key_def split: if_splits)
  qed
  show "file_kept (snd (serve_remote_storage s x)) = Some (k, d) \<and> response_bytes (fst (fst (serve_remote_storage s x))) = take response_room (drop (unat offset) d) \<and>
      filter (calls_slot 1) (snd (fst (serve_remote_storage s x))) = []" if "file_asks x = Some (k, offset)" "offset \<noteq> 0" "file_kept s = Some (k, d)" "unat offset \<le> length d"
  proof -
    have q: "gq_method q = 1" "\<not> unat (gq_data_size q) > LSTEAM_BRIDGE_MAX_TICKET" "gq_arg0 q \<le> maximum_file" "k = (?name, gq_arg0 q)" "gq_arg1 q = offset"
      and st: "0 \<le> sint (rf_read_size s)" "rf_read_size s \<le> gq_arg0 q" "rf_read_name s = ?name" "rf_read_capacity s = gq_arg0 q" "take (unat (rf_read_size s)) (rf_read_data s) = d"
      using that by (auto simp: x file_asks_def file_kept_def split: if_splits)
    have "length d \<le> unat (rf_read_size s)" using st(5) by auto
    then have "offset \<le> rf_read_size s" "offset \<le> gq_arg0 q" using that(4) st(2) by (simp_all add: word_le_nat_alt)
    then show ?thesis using read [OF q(1,2)] q(3-5) st that(2,3) response_bytes_copy_piece [OF blank_for_ok, of d "unat offset"]
      by (auto simp: read_file_def Let_def x out not_less split: if_splits)
  qed
qed

interpretation packet_read: piecewise_reading serve_networking packet_asks packet_answer packet_key packet_kept response_bytes "calls_slot 2"
proof
  fix s :: bridge_networking_state and x :: "u32 \<times> networking_answers \<times> lsteam_bridge_game_server_request"
  obtain sequence an q where x: "x = (sequence, an, q)" by (cases x)
  let ?r = "stamp_handled LSTEAM_BRIDGE_NETWORKING_CALL (blank_for sequence)"
  obtain r s' calls where h: "handle_networking_call True an s q (blank_for sequence) = (r, s', calls)" by (metis prod_cases3)
  have out: "serve_networking s (sequence, an, q) = ((r, calls), s')" by (simp add: serve_defs h)
  have rejected: "\<not> unat (gq_data_size q) \<le> LSTEAM_BRIDGE_MAX_TICKET \<or> \<not> gq_arg0 q \<le> maximum_packet \<Longrightarrow> gq_method q = 2 \<Longrightarrow> s' = s \<and> calls = []"
    using h unfolding handle_networking_call_def read_packet_def by (auto simp: not_le Let_def split: if_splits)
  have "gq_method q \<noteq> 2 \<Longrightarrow> packet_kept s' = packet_kept s \<and> packet_key s' = packet_key s \<and> filter (calls_slot 2) calls = []"
    using h unfolding handle_networking_call_def send_packet_def Let_def by (auto simp: packet_kept_def packet_key_def split: if_splits)
  then show "packet_asks x = None \<Longrightarrow> packet_kept (snd (serve_networking s x)) = packet_kept s \<and> packet_key (snd (serve_networking s x)) = packet_key s \<and> filter (calls_slot 2) (snd (fst (serve_networking s x))) = []"
    using rejected by (cases "gq_method q = 2") (auto simp: x out packet_asks_def split: if_splits)
  have read: "read_packet an s q ?r = (r, s', calls)" if "gq_method q = 2" "\<not> unat (gq_data_size q) > LSTEAM_BRIDGE_MAX_TICKET"
    using h that by (simp add: handle_networking_call_def Let_def)
  fix k :: "u32 \<times> u32" and d :: "u8 list" and offset :: u32
  show "packet_kept (snd (serve_networking s x)) = Some (k, d) \<and> response_bytes (fst (fst (serve_networking s x))) = take response_room (drop (unat offset) d) \<and>
      length (filter (calls_slot 2) (snd (fst (serve_networking s x)))) = 1"
    if "packet_asks x = Some (k, offset)" "packet_answer x = Some d" "offset = 0 \<or> packet_key s \<noteq> Some k" "unat offset \<le> length d"
  proof -
    note asked = that
    obtain n sender where q: "gq_method q = 2" "\<not> unat (gq_data_size q) > LSTEAM_BRIDGE_MAX_TICKET" "gq_arg0 q \<le> maximum_packet" "k = (gq_arg1 q, gq_arg0 q)" "gq_arg2 q = offset"
        "na_read an = (True, d, n, sender)" "n \<le> gq_arg0 q" "length d = unat n"
      using asked by (auto simp: x packet_asks_def packet_answer_def split: if_splits prod.splits)
    have "take (unat n) (store_bytes (zeroes (unat (gq_arg0 q))) d) = d" using take_store_prefix q(7,8) by (simp add: word_le_nat_alt)
    moreover have "offset \<le> n" "offset \<le> gq_arg0 q" using asked(4) q(7,8) by (simp_all add: word_le_nat_alt)
    moreover have "offset = 0 \<or> nw_read_capacity s \<noteq> gq_arg0 q \<or> nw_read_channel s \<noteq> gq_arg1 q" using asked(3) q(4) by (auto simp: packet_key_def)
    ultimately show ?thesis using read [OF q(1,2)] q(3-7) by (auto simp: response_bytes_header response_bytes_copy_piece blank_for_ok read_packet_def Let_def x out not_less packet_kept_def split: if_splits)
  qed
  show "packet_key (snd (serve_networking s x)) \<noteq> Some k \<or> packet_kept (snd (serve_networking s x)) = packet_kept s \<and> packet_key (snd (serve_networking s x)) = packet_key s"
    if "packet_asks x = Some (k', offset)" "k' \<noteq> k" for k'
  proof -
    have q: "gq_method q = 2" "\<not> unat (gq_data_size q) > LSTEAM_BRIDGE_MAX_TICKET" "k' = (gq_arg1 q, gq_arg0 q)" using that(1) by (auto simp: x packet_asks_def split: if_splits)
    then show ?thesis using read [OF q(1,2)] that(2) by (auto simp: read_packet_def Let_def x out packet_key_def split: if_splits prod.splits)
  qed
  show "packet_kept (snd (serve_networking s x)) = Some (k, d) \<and> response_bytes (fst (fst (serve_networking s x))) = take response_room (drop (unat offset) d) \<and>
      filter (calls_slot 2) (snd (fst (serve_networking s x))) = []" if "packet_asks x = Some (k, offset)" "offset \<noteq> 0" "packet_kept s = Some (k, d)" "unat offset \<le> length d"
  proof -
    have q: "gq_method q = 2" "\<not> unat (gq_data_size q) > LSTEAM_BRIDGE_MAX_TICKET" "gq_arg0 q \<le> maximum_packet" "k = (gq_arg1 q, gq_arg0 q)" "gq_arg2 q = offset"
      and st: "nw_read_ok s" "nw_read_size s \<le> gq_arg0 q" "nw_read_channel s = gq_arg1 q" "nw_read_capacity s = gq_arg0 q" "take (unat (nw_read_size s)) (nw_read_data s) = d"
      using that by (auto simp: x packet_asks_def packet_kept_def split: if_splits)
    have "length d \<le> unat (nw_read_size s)" using st(5) by auto
    then have "offset \<le> nw_read_size s" "offset \<le> gq_arg0 q" using that(4) st(2) by (simp_all add: word_le_nat_alt)
    then show ?thesis using read [OF q(1,2)] q(3-5) st that(2,3)
      by (auto simp: response_bytes_header response_bytes_copy_piece blank_for_ok read_packet_def Let_def x out not_less split: if_splits)
  qed
qed

section \<open>Theorems\<close>

text \<open>
  C39. A file that is written in pieces reaches the library whole, in one call, under its name. The file has at least one byte and at most 64 MiB; its pieces are not empty and come
  in order, each directly behind the one before; no other write request comes between them, while requests of every other method, reads among them, may. Then, whatever was left of an earlier write,
  there is exactly one call of \<^verbatim>\<open>FileWrite\<close>, with the name and all the bytes, and every piece is accepted.
\<close>

theorem file_written_whole:
  assumes "carries file_piece name n 0 xs bytes" "\<forall>x \<in> set xs. valid_request x" "bytes \<noteq> []" "length bytes = unat n" "n \<le> maximum_file"
  shows "List.map_filter written_file (concat (map snd (outs_of serve_remote_storage st xs))) = [(name, bytes)] \<and>
    list_all2 (\<lambda>x out. file_piece x = None \<or> rp_status (fst out) = 0) xs (outs_of serve_remote_storage st xs)"
  using files_written.sent_whole [OF assms] by (simp add: accepted_response_def)

definition demo_file_request :: "u32 \<Rightarrow> u32 \<Rightarrow> u32 \<Rightarrow> u8 list \<Rightarrow> lsteam_bridge_game_server_request" where
  "demo_file_request m n offset bytes =
     \<lparr>gq_method = m, gq_arg0 = n, gq_arg1 = offset, gq_arg2 = 0, gq_arg3 = 0, gq_steam_id = 0, gq_data_size = of_nat (length bytes),
      gq_text = 97 # zeroes (LSTEAM_BRIDGE_MAX_TEXT - 1), gq_value = zeroes LSTEAM_BRIDGE_MAX_TEXT, gq_data = store_bytes (zeroes LSTEAM_BRIDGE_MAX_TICKET) bytes\<rparr>"

abbreviation demo_storage :: "s32 \<Rightarrow> u8 list \<Rightarrow> remote_storage_answers" where
  "demo_storage n bytes \<equiv> \<lparr>ra_number = 1, ra_written = True, ra_read = (n, bytes), ra_name = (None, 0), ra_quota = (0, 0)\<rparr>"

abbreviation blank_storage :: bridge_remote_storage_state where
  "blank_storage \<equiv> \<lparr>rf_write_name = [], rf_write_total = 0, rf_write_data = [], rf_read_name = [], rf_read_capacity = 0, rf_read_size = 0, rf_read_data = []\<rparr>"

lemma demo_name: "c_text (terminated (97 # zeroes (LSTEAM_BRIDGE_MAX_TEXT - 1))) = [97]"
proof -
  have "(97 # zeroes 511)[511 := 0] = 97 # (zeroes 511)[510 := 0]" by simp
  moreover have "hd ((zeroes 511)[510 := 0]) = 0" by (simp add: hd_conv_nth zeroes_def nth_list_update)
  ultimately show ?thesis by (simp add: c_text_def terminated_def takeWhile_eq_Nil_iff)
qed

lemma demo_carried: "length bytes \<le> 2048 \<Longrightarrow> carried (demo_file_request m n offset bytes) = bytes"
  using take_store_bytes [of bytes "zeroes 2048"] by (simp add: carried_def demo_file_request_def unsigned_of_nat take_bit_nat_eq_self)

lemma demo_sized: "length bytes \<le> 2048 \<Longrightarrow> sized_request (demo_file_request m n offset bytes)"
  by (simp add: sized_request_def game_server_request_ok_def demo_file_request_def unsigned_of_nat take_bit_nat_eq_self)

definition demo_writes :: "(u32 \<times> remote_storage_answers \<times> lsteam_bridge_game_server_request) list" where
  "demo_writes = [(1, demo_storage 0 [], demo_file_request 0 3 0 [1, 2]), (2, demo_storage 0 [], demo_file_request 13 0 0 []), (3, demo_storage 0 [], demo_file_request 0 3 2 [3])]"

theorem file_written_whole_witness:
  "List.map_filter written_file (concat (map snd (outs_of serve_remote_storage blank_storage demo_writes))) = [([97], [1, 2, 3])]"
proof -
  have "carries file_piece [97] 3 0 demo_writes [1, 2, 3]"
    using demo_name demo_carried [of "[1, 2]" 0 3 0] demo_carried [of "[3]" 0 3 2] by (simp add: demo_writes_def file_piece_def demo_file_request_def)
  moreover have "\<forall>x \<in> set demo_writes. valid_request x" by (simp add: demo_writes_def valid_request_def demo_sized)
  ultimately show ?thesis using file_written_whole [of "[97]" 3 demo_writes "[1, 2, 3]" blank_storage] by (simp add: maximum_file_def)
qed




text \<open>The same for a packet, which goes to one user on one channel.\<close>

theorem packet_sent_whole:
  assumes "carries packet_piece (remote, channel) n 0 xs bytes" "\<forall>x \<in> set xs. valid_request x" "bytes \<noteq> []" "length bytes = unat n" "n \<le> maximum_packet"
  shows "List.map_filter sent_packet (concat (map snd (outs_of serve_networking st xs))) = [((remote, channel), bytes)] \<and>
    list_all2 (\<lambda>x out. packet_piece x = None \<or> rp_status (fst out) = 0) xs (outs_of serve_networking st xs)"
  using packets_sent.sent_whole [OF assms] by (simp add: accepted_response_def)

text \<open>
  C40. A file that is read in pieces arrives whole. Let a client ask for a file that is not empty, under one name and with one capacity, a message full at a time and in order, among
  any other requests of the interface: writes, and also reads of other files or with another capacity. Provided that the library answers the same bytes whenever it has to be asked, the bytes
  of the responses to these requests, one after another, are the whole file. The library is asked for it at least once, and again at most once for every other
  read that comes between: exactly once when there is none.
\<close>

theorem file_read_whole:
  assumes "reads file_asks file_answer (name, capacity) bytes fresh 0 xs" "bytes \<noteq> []"
    and "outs = outs_of serve_remote_storage st xs"
    and "calls = concat (map2 (\<lambda>x out. if reads_key file_asks (name, capacity) x then filter (calls_slot 1) (snd out) else []) xs outs)"
  shows "concat (map2 (\<lambda>x out. if reads_key file_asks (name, capacity) x then response_bytes (fst out) else []) xs outs) = bytes \<and>
    1 \<le> length calls \<and> length calls \<le> 1 + length (filter (reads_other file_asks (name, capacity)) xs)"
  unfolding assms(3,4) by (rule file_read.read_whole [OF assms(1,2)])

text \<open>A file of two pieces, with a read of the same name at another capacity between them: the library is asked again.\<close>

definition demo_reads :: "(u32 \<times> remote_storage_answers \<times> lsteam_bridge_game_server_request) list" where
  "demo_reads = [(1, demo_storage 2049 (replicate 2049 7), demo_file_request 1 4096 0 []), (2, demo_storage 1 [7], demo_file_request 1 1 0 []),
     (3, demo_storage 2049 (replicate 2049 7), demo_file_request 1 4096 2048 [])]"

theorem file_read_whole_witness:
  "concat (map2 (\<lambda>x out. if reads_key file_asks ([97], 4096) x then response_bytes (fst out) else []) demo_reads (outs_of serve_remote_storage blank_storage demo_reads)) =
     replicate 2049 7"
proof -
  have "reads file_asks file_answer ([97], 4096) (replicate 2049 7) True 0 demo_reads"
    using demo_name by (simp add: demo_reads_def file_asks_def file_answer_def demo_file_request_def maximum_file_def)
  then show ?thesis using file_read_whole [OF _ _ refl refl, of "[97]" 4096 "replicate 2049 7" True demo_reads blank_storage] by simp
qed

text \<open>The same for an image and for a packet that has come in.\<close>

theorem image_read_whole:
  assumes "reads image_asks image_answer (picture, n) bytes fresh 0 xs" "bytes \<noteq> []"
  shows "concat (map2 (\<lambda>x out. if reads_key image_asks (picture, n) x then response_bytes (fst out) else []) xs (outs_of serve_utils st xs)) = bytes"
  using image_read.read_whole [OF assms] by blast

theorem packet_read_whole:
  assumes "reads packet_asks packet_answer (channel, capacity) bytes fresh 0 xs" "bytes \<noteq> []"
  shows "concat (map2 (\<lambda>x out. if reads_key packet_asks (channel, capacity) x then response_bytes (fst out) else []) xs (outs_of serve_networking st xs)) = bytes"
  using packet_read.read_whole [OF assms] by blast

section \<open>Bounds and the server\<close>

text \<open>What a handler does to the header and to the size of the array.\<close>

definition well_handled :: "u16 \<Rightarrow> lsteam_bridge_game_server_response \<Rightarrow> lsteam_bridge_game_server_response \<Rightarrow> bool" where
  "well_handled opcode r0 r \<longleftrightarrow> stamped opcode (rp_sequence r0) r \<and> game_server_response_ok r = game_server_response_ok r0"

lemma well_handled_update [simp]:
  "well_handled opcode r0 (stamp_handled opcode r0)" "well_handled opcode r0 (r\<lparr>gr_result := v\<rparr>) = well_handled opcode r0 r"
  "well_handled opcode r0 (r\<lparr>gr_arg0 := a\<rparr>) = well_handled opcode r0 r" "well_handled opcode r0 (r\<lparr>gr_arg1 := a\<rparr>) = well_handled opcode r0 r"
  "well_handled opcode r0 (r\<lparr>rp_status := e\<rparr>) = well_handled opcode r0 r" "well_handled opcode r0 (r\<lparr>gr_steam_id := i\<rparr>) = well_handled opcode r0 r"
  "well_handled opcode r0 (r\<lparr>gr_data_size := k\<rparr>) = well_handled opcode r0 r"
  "length b = length (gr_data r) \<Longrightarrow> well_handled opcode r0 (r\<lparr>gr_data := b\<rparr>) = well_handled opcode r0 r"
  "well_handled opcode r0 (copy_piece bytes offset r) = well_handled opcode r0 r" "well_handled opcode r0 (copy_string r value) = well_handled opcode r0 r"
  by (simp_all add: well_handled_def stamped_def stamp_handled_def game_server_response_ok_def copy_piece_def copy_string_def Let_def)

lemma transfers_handled [simp]:
  "well_handled opcode r0 (fst (get_image_rgba ua us q r)) = well_handled opcode r0 r"
  "well_handled opcode r0 (fst (write_file ra fs q r)) = well_handled opcode r0 r" "well_handled opcode r0 (fst (read_file ra fs q r)) = well_handled opcode r0 r"
  "well_handled opcode r0 (fst (send_packet na ns q r)) = well_handled opcode r0 r" "well_handled opcode r0 (fst (read_packet na ns q r)) = well_handled opcode r0 r"
  by (simp_all add: get_image_rgba_def write_file_def read_file_def send_packet_def read_packet_def Let_def)

lemma utils_handled: "well_handled LSTEAM_BRIDGE_UTILS_CALL r (fst (handle_utils_call utils an st q r))"
  unfolding handle_utils_call_def Let_def by (simp split: prod.split)

lemma remote_storage_handled: "well_handled LSTEAM_BRIDGE_REMOTE_STORAGE_CALL r (fst (handle_remote_storage_call storage an st q r))"
  unfolding handle_remote_storage_call_def Let_def by simp

lemma networking_handled: "well_handled LSTEAM_BRIDGE_NETWORKING_CALL r (fst (handle_networking_call networking an st q r))"
  unfolding handle_networking_call_def Let_def by simp

interpretation utils_iface: bridge_handler LSTEAM_BRIDGE_UTILS_CALL game_server_response_ok "\<lambda>(utils, an, st, q) r. fst (handle_utils_call utils an st q r)"
  using utils_handled by unfold_locales (auto simp: well_handled_def)

interpretation storage_iface: bridge_handler LSTEAM_BRIDGE_REMOTE_STORAGE_CALL game_server_response_ok
  "\<lambda>(storage, an, st, q) r. fst (handle_remote_storage_call storage an st q r)"
  using remote_storage_handled by unfold_locales (auto simp: well_handled_def)

interpretation networking_iface: bridge_handler LSTEAM_BRIDGE_NETWORKING_CALL game_server_response_ok
  "\<lambda>(networking, an, st, q) r. fst (handle_networking_call networking an st q r)"
  using networking_handled by unfold_locales (auto simp: well_handled_def)

lemma small_size: "n \<le> 2048 \<Longrightarrow> unat (of_nat n :: u32) \<le> 2048"
  by (simp add: unsigned_of_nat take_bit_nat_eq_self)

lemma copies_bounded [simp]:
  "unat (gr_data_size (copy_piece bytes offset r)) \<le> 2048" "unat (gr_data_size r) \<le> 2048 \<Longrightarrow> unat (gr_data_size (copy_string r value)) \<le> 2048"
proof -
  show "unat (gr_data_size (copy_piece bytes offset r)) \<le> 2048" using length_piece [of "drop offset bytes"] by (simp add: copy_piece_def Let_def)
  let ?text = "case value of None \<Rightarrow> [] | Some v \<Rightarrow> c_text v"
  show "unat (gr_data_size r) \<le> 2048 \<Longrightarrow> unat (gr_data_size (copy_string r value)) \<le> 2048"
    using small_size [of "length ?text + 1"] by (simp add: copy_string_def Let_def not_less)
qed

lemma transfers_bounded [simp]:
  assumes "unat (gr_data_size r) \<le> 2048"
  shows "unat (gr_data_size (fst (get_image_rgba ua us q r))) \<le> 2048"
    "unat (gr_data_size (fst (write_file ra fs q r))) \<le> 2048" "unat (gr_data_size (fst (read_file ra fs q r))) \<le> 2048"
    "unat (gr_data_size (fst (send_packet na ns q r))) \<le> 2048" "unat (gr_data_size (fst (read_packet na ns q r))) \<le> 2048"
  using assms by (simp_all add: get_image_rgba_def write_file_def read_file_def send_packet_def read_packet_def Let_def)

text \<open>No response claims more bytes than it has; for a session the library's struct is no larger, as the source asserts.\<close>

lemma filtered_size: "0 \<le> sint (x :: s32) \<Longrightarrow> sint x < 2048 \<Longrightarrow> unat (x + 1) \<le> 2048"
proof -
  assume a: "0 \<le> sint x" "sint x < 2048"
  then have "unat x \<le> 2048" using sint_small by simp
  then have "unat (x + 1) = unat x + 1" by (simp add: unat_word_ariths)
  moreover have "int (unat x) < 2048" using a uint_bound32 [of x] by (simp add: sint_s32_eq split: if_splits)
  ultimately show "unat (x + 1) \<le> 2048" by linarith
qed

theorem transfer_responses_bounded:
  assumes "unat (gr_data_size r) \<le> 2048" "length (na_session na) \<le> 2048"
  shows "unat (gr_data_size (fst (handle_utils_call iface ua us q r))) \<le> 2048"
    "unat (gr_data_size (fst (handle_remote_storage_call iface ra rs q r))) \<le> 2048"
    "unat (gr_data_size (fst (handle_networking_call iface na ns q r))) \<le> 2048"
proof -
  have r: "unat (gr_data_size (stamp_handled opcode r)) \<le> 2048" for opcode using assms(1) by (simp add: stamp_handled_def)
  show "unat (gr_data_size (fst (handle_utils_call iface ua us q r))) \<le> 2048"
    using r unfolding handle_utils_call_def Let_def by (simp add: filtered_size not_less not_le split: prod.split)
  show "unat (gr_data_size (fst (handle_remote_storage_call iface ra rs q r))) \<le> 2048"
    using r unfolding handle_remote_storage_call_def Let_def by simp
  show "unat (gr_data_size (fst (handle_networking_call iface na ns q r))) \<le> 2048"
    using r small_size [OF assms(2)] unfolding handle_networking_call_def Let_def by simp
qed

text \<open>The handlers with these three as modelled; their states come first.\<close>

definition transfer_handlers ::
  "bool \<Rightarrow> utils_answers \<Rightarrow> bool \<Rightarrow> remote_storage_answers \<Rightarrow> bool \<Rightarrow> networking_answers \<Rightarrow> 'h bridge_handlers \<Rightarrow>
   ((bridge_utils_state \<times> bridge_remote_storage_state \<times> bridge_networking_state) \<times> 'h) bridge_handlers" where
  "transfer_handlers utils ua storage ra networking na rest =
     \<lparr>hd_interface = \<lambda>opcode ((us, fs, ns), h) g q r.
        if opcode = LSTEAM_BRIDGE_UTILS_CALL then (case handle_utils_call utils ua us q r of (r, us, calls) \<Rightarrow> (r, g, (us, fs, ns), h))
        else if opcode = LSTEAM_BRIDGE_REMOTE_STORAGE_CALL then (case handle_remote_storage_call storage ra fs q r of (r, fs, calls) \<Rightarrow> (r, g, (us, fs, ns), h))
        else if opcode = LSTEAM_BRIDGE_NETWORKING_CALL then (case handle_networking_call networking na ns q r of (r, ns, calls) \<Rightarrow> (r, g, (us, fs, ns), h))
        else (case hd_interface rest opcode h g q r of (r, g, h) \<Rightarrow> (r, g, (us, fs, ns), h)),
      hd_game_server = \<lambda>(own, h) g q r. (case hd_game_server rest h g q r of (r, g, h) \<Rightarrow> (r, g, own, h)),
      hd_voice = \<lambda>(own, h) q r. (case hd_voice rest h q r of (r, h) \<Rightarrow> (r, own, h)),
      hd_mm_request = \<lambda>(own, h) request q r. (case hd_mm_request rest h request q r of (r, h) \<Rightarrow> (r, own, h)),
      hd_html_initialized = \<lambda>(own, h). hd_html_initialized rest h,
      hd_mm_call = \<lambda>(own, h) request q r. (case hd_mm_call rest h request q r of (r, h) \<Rightarrow> (r, own, h))\<rparr>"

theorem transfer_handlers_ok:
  assumes "handlers_ok rest"
  shows "handlers_ok (transfer_handlers utils ua storage ra networking na rest)"
proof -
  note handled = utils_iface.handled [of _ "(utils, ua, us, q)" for us q, simplified] storage_iface.handled [of _ "(storage, ra, fs, q)" for fs q, simplified]
    networking_iface.handled [of _ "(networking, na, ns, q)" for ns q, simplified]
  show ?thesis using assms unfolding handlers_ok_def transfer_handlers_def by (auto simp: handled case_prod_unfold)
qed

end
