(* ===== verification/Tgc_Bridge_Matchmaking.thy ===== *)
theory Tgc_Bridge_Matchmaking
  imports Tgc_Bridge_Handlers "HOL-Library.Multiset"
begin

text \<open>
  The matchmaking handler of the bridge, \<^verbatim>\<open>src/steam-bridge/matchmaking_native.inc\<close>: two tables of running queries, lists of servers and questions to one server,
  each with a bounded queue of the events its callbacks leave for the client. A pointer to a query is its slot, a handle of the library is a word. What the library
  answers during one call is the record \<open>mm_answers\<close>; callbacks that come between the calls are steps of their own. The functions return the calls they make.
\<close>

section \<open>Queries and their queues\<close>

definition LSTEAM_BRIDGE_MM_VISIBLE_SERVER_LIMIT :: s32 where [simp]: "LSTEAM_BRIDGE_MM_VISIBLE_SERVER_LIMIT = 64"

abbreviation ENOTSUP :: s32 where "ENOTSUP \<equiv> 95"

record bridge_mm_event =
  le_kind :: u32
  le_index :: s32
  le_response :: u32

record bridge_mm_query =
  lq_id :: u32
  lq_handle :: u64
  lq_events :: "bridge_mm_event list"

definition list_push :: "bridge_mm_event \<Rightarrow> bridge_mm_query \<Rightarrow> bridge_mm_query" where
  "list_push e q = (if length (lq_events q) < 8192 then q\<lparr>lq_events := lq_events q @ [e]\<rparr> else q)"

definition list_pop :: "bridge_mm_query \<Rightarrow> bridge_mm_event option \<times> bridge_mm_query" where
  "list_pop q = (case lq_events q of [] \<Rightarrow> (None, q) | e # es \<Rightarrow> (Some e, q\<lparr>lq_events := es\<rparr>))"

text \<open>The callbacks of a list of servers.\<close>

datatype list_callback = Server_Responded s32 | Server_Failed_To_Respond s32 | Refresh_Complete u32

definition visible_server :: "s32 \<Rightarrow> bool" where
  "visible_server server \<longleftrightarrow> 0 \<le> sint server \<and> sint server < sint LSTEAM_BRIDGE_MM_VISIBLE_SERVER_LIMIT"

fun deliver_list :: "list_callback \<Rightarrow> bridge_mm_query \<Rightarrow> bridge_mm_query" where
  "deliver_list (Server_Responded server) q =
     (if visible_server server then list_push \<lparr>le_kind = 1, le_index = server, le_response = 0\<rparr> q else q)"
| "deliver_list (Server_Failed_To_Respond server) q =
     (if visible_server server then list_push \<lparr>le_kind = 2, le_index = server, le_response = 0\<rparr> q else q)"
| "deliver_list (Refresh_Complete response) q = list_push \<lparr>le_kind = 3, le_index = - 1, le_response = response\<rparr> q"

record bridge_mm_direct_event =
  de_kind :: u32
  de_argument :: s32
  de_value :: u32
  de_data_size :: u32
  de_data :: "u8 list"

definition blank_direct_event :: bridge_mm_direct_event where
  "blank_direct_event = \<lparr>de_kind = 0, de_argument = 0, de_value = 0, de_data_size = 0, de_data = zeroes LSTEAM_BRIDGE_MM_DATA_SIZE\<rparr>"

text \<open>The queue of a question is a ring whose two counters run on and wrap around.\<close>

record bridge_mm_direct_query =
  dq_id :: u32
  dq_type :: u32
  dq_handle :: s32
  dq_event_read :: u32
  dq_event_write :: u32
  dq_events :: "bridge_mm_direct_event list"

definition direct_event :: "u32 \<Rightarrow> s32 \<Rightarrow> u32 \<Rightarrow> u8 list option \<Rightarrow> nat \<Rightarrow> bridge_mm_direct_event" where
  "direct_event kind argument value bytes data_size =
     (let n = (if data_size > LSTEAM_BRIDGE_MM_DATA_SIZE then LSTEAM_BRIDGE_MM_DATA_SIZE else data_size) in
      blank_direct_event\<lparr>de_kind := kind, de_argument := argument, de_value := value, de_data_size := of_nat n,
        de_data := (case bytes of None \<Rightarrow> de_data blank_direct_event | Some b \<Rightarrow> store_bytes (de_data blank_direct_event) (take n b))\<rparr>)"

definition direct_push :: "bridge_mm_direct_event \<Rightarrow> bridge_mm_direct_query \<Rightarrow> bridge_mm_direct_query" where
  "direct_push e q =
     (if dq_event_write q - dq_event_read q < 128
      then q\<lparr>dq_events := (dq_events q)[unat (dq_event_write q mod 128) := e], dq_event_write := dq_event_write q + 1\<rparr>
      else q)"

definition direct_pop :: "bridge_mm_direct_query \<Rightarrow> bridge_mm_direct_event option \<times> bridge_mm_direct_query" where
  "direct_pop q =
     (if dq_event_read q \<noteq> dq_event_write q
      then (Some (dq_events q ! unat (dq_event_read q mod 128)), q\<lparr>dq_event_read := dq_event_read q + 1\<rparr>)
      else (None, q))"

text \<open>The callbacks of a question; a text may be missing. A time is kept as the bits of its floating point number.\<close>

datatype direct_callback =
    Ping_Responded "u8 list" | Ping_Failed | Add_Player "u8 list option" s32 u32 | Players_Failed | Players_Complete
  | Rules_Responded "u8 list option" "u8 list option" | Rules_Failed | Rules_Complete

text \<open>\<^verbatim>\<open>snprintf\<close> of a text into a cleared array of \<open>n\<close> bytes.\<close>

definition print_text :: "nat \<Rightarrow> u8 list option \<Rightarrow> u8 list" where
  "print_text n text =
     store_bytes (zeroes n) (take (n - 1) (takeWhile (\<lambda>b. b \<noteq> 0) (case text of None \<Rightarrow> [] | Some t \<Rightarrow> t)))"

fun deliver_direct :: "direct_callback \<Rightarrow> bridge_mm_direct_query \<Rightarrow> bridge_mm_direct_query" where
  "deliver_direct (Ping_Responded server) q = direct_push (direct_event 4 0 0 (Some server) (length server)) q"
| "deliver_direct Ping_Failed q = direct_push (direct_event 5 0 0 None 0) q"
| "deliver_direct (Add_Player name score bits) q =
     (let text = print_text LSTEAM_BRIDGE_MM_DATA_SIZE name in
      direct_push (direct_event 6 score bits (Some text) (length (takeWhile (\<lambda>b. b \<noteq> 0) text) + 1)) q)"
| "deliver_direct Players_Failed q = direct_push (direct_event 7 0 0 None 0) q"
| "deliver_direct Players_Complete q = direct_push (direct_event 8 0 0 None 0) q"
| "deliver_direct (Rules_Responded rule value) q =
     (let half = LSTEAM_BRIDGE_MM_DATA_SIZE div 2; text = print_text half rule @ print_text half value in
      direct_push (direct_event 9 0 0 (Some text) (length text)) q)"
| "deliver_direct Rules_Failed q = direct_push (direct_event 10 0 0 None 0) q"
| "deliver_direct Rules_Complete q = direct_push (direct_event 11 0 0 None 0) q"

section \<open>The state and its tables\<close>

record bridge_mm_state =
  mm_iface :: bool
  mm_next_id :: u32
  mm_queries :: "bridge_mm_query option list"
  mm_direct_queries :: "bridge_mm_direct_query option list"

definition initial_mm_state :: bridge_mm_state where
  "initial_mm_state = \<lparr>mm_iface = False, mm_next_id = 1, mm_queries = replicate 16 None, mm_direct_queries = replicate 16 None\<rparr>"

text \<open>
  What is taken from the library's headers: the size of the arrays of a filter and the handle of a question that could not be asked; and what it answers while
  one request is handled.
\<close>

record mm_library =
  lb_filter_size :: nat
  lb_invalid :: s32

record mm_answers =
  ma_iface :: bool
  ma_allocated :: bool
  ma_list_handle :: u64
  ma_list_callbacks :: "list_callback list"
  ma_direct_handle :: s32
  ma_direct_callbacks :: "direct_callback list"
  ma_server_count :: s32
  ma_refreshing :: bool
  ma_item :: "u8 list option"

datatype mm_call =
    List_Requested u32 u32 "(u8 list \<times> u8 list) list" u64 | List_Released u64 | Query_Cancelled u64 | Query_Refreshed u64 | Server_Refreshed u64 s32
  | Direct_Requested u32 u32 u16 s32 | Direct_Cancelled s32

definition find_mm_query :: "bridge_mm_state \<Rightarrow> u32 \<Rightarrow> nat option" where
  "find_mm_query state qid = first_index (\<lambda>entry. case entry of None \<Rightarrow> False | Some query \<Rightarrow> lq_id query = qid) (mm_queries state)"

definition find_mm_direct_query :: "bridge_mm_state \<Rightarrow> u32 \<Rightarrow> nat option" where
  "find_mm_direct_query state qid = first_index (\<lambda>entry. case entry of None \<Rightarrow> False | Some query \<Rightarrow> dq_id query = qid) (mm_direct_queries state)"

definition free_mm_slot :: "bridge_mm_state \<Rightarrow> nat option" where
  "free_mm_slot state = first_index (\<lambda>entry. entry = None) (mm_queries state)"

definition free_mm_direct_slot :: "bridge_mm_state \<Rightarrow> nat option" where
  "free_mm_direct_slot state = first_index (\<lambda>entry. entry = None) (mm_direct_queries state)"

definition put_query :: "nat \<Rightarrow> bridge_mm_query option \<Rightarrow> bridge_mm_state \<Rightarrow> bridge_mm_state" where
  "put_query i entry state = state\<lparr>mm_queries := (mm_queries state)[i := entry]\<rparr>"

definition put_direct :: "nat \<Rightarrow> bridge_mm_direct_query option \<Rightarrow> bridge_mm_state \<Rightarrow> bridge_mm_state" where
  "put_direct i entry state = state\<lparr>mm_direct_queries := (mm_direct_queries state)[i := entry]\<rparr>"

text \<open>A new number; zero is passed over.\<close>

definition take_mm_id :: "bridge_mm_state \<Rightarrow> u32 \<times> bridge_mm_state" where
  "take_mm_id state =
     (let qid = mm_next_id state; state = state\<lparr>mm_next_id := qid + 1\<rparr> in
      if qid = 0 then (mm_next_id state, state\<lparr>mm_next_id := mm_next_id state + 1\<rparr>) else (qid, state))"

section \<open>Requests\<close>

text \<open>\<open>i\<close> is the slot of the query.\<close>

definition retire_mm_direct_query :: "mm_library \<Rightarrow> bridge_mm_state \<Rightarrow> nat \<Rightarrow> bool \<Rightarrow> bridge_mm_state \<times> mm_call list" where
  "retire_mm_direct_query lb state i cancel =
     (case mm_direct_queries state ! i of
        None \<Rightarrow> (state, [])
      | Some query \<Rightarrow>
          (put_direct i None state,
           if cancel \<and> mm_iface state \<and> dq_handle query \<noteq> lb_invalid lb then [Direct_Cancelled (dq_handle query)] else []))"

definition last_event :: "bridge_mm_direct_event \<Rightarrow> bool" where
  "last_event e \<longleftrightarrow> de_kind e = 4 \<or> de_kind e = 5 \<or> de_kind e = 7 \<or> de_kind e = 8 \<or> de_kind e = 10 \<or> de_kind e = 11"

definition fill_mm_direct_response ::
  "mm_library \<Rightarrow> bridge_mm_state \<Rightarrow> nat \<Rightarrow> lsteam_bridge_mm_response \<Rightarrow> lsteam_bridge_mm_response \<times> bridge_mm_state \<times> mm_call list" where
  "fill_mm_direct_response lb state i r =
     (case mm_direct_queries state ! i of
        None \<Rightarrow> (r, state, [])
      | Some query \<Rightarrow>
          let r = r\<lparr>mr_query_id := dq_id query\<rparr> in
          case direct_pop query of
            (None, query) \<Rightarrow> (r, state, [])
          | (Some e, query) \<Rightarrow>
              let r = r\<lparr>mr_event_kind := de_kind e, mr_event_index := de_argument e, mr_event_response := de_value e, mr_data_size := de_data_size e,
                        mr_data := store_bytes (mr_data r) (take (unat (de_data_size e)) (de_data e))\<rparr>;
                  state = put_direct i (Some query) state
              in if last_event e then (r, retire_mm_direct_query lb state i False) else (r, state, []))"

definition handle_mm_direct_request ::
  "mm_library \<Rightarrow> mm_answers \<Rightarrow> bridge_mm_state \<Rightarrow> lsteam_bridge_mm_request \<Rightarrow> lsteam_bridge_mm_response \<Rightarrow>
   lsteam_bridge_mm_response \<times> bridge_mm_state \<times> mm_call list" where
  "handle_mm_direct_request lb an state q r =
     (case free_mm_direct_slot state of
        None \<Rightarrow> (r\<lparr>rp_status := - ENOSPC\<rparr>, state, [])
      | Some slot \<Rightarrow>
          case take_mm_id state of (qid, state) \<Rightarrow>
          if \<not> ma_allocated an then (r\<lparr>rp_status := - ENOMEM\<rparr>, state, [])
          else
            let query = \<lparr>dq_id = qid, dq_type = mq_method q, dq_handle = lb_invalid lb, dq_event_read = 0, dq_event_write = 0,
                         dq_events = replicate 128 blank_direct_event\<rparr>;
                query = (fold deliver_direct (ma_direct_callbacks an) query)\<lparr>dq_handle := ma_direct_handle an\<rparr>;
                state = put_direct slot (Some query) state;
                call = Direct_Requested (mq_method q) (mq_app_id q) (ucast (mq_query_id q)) (ma_direct_handle an)
            in if dq_handle query = lb_invalid lb then
                 (case retire_mm_direct_query lb state slot False of (state, calls) \<Rightarrow> (r\<lparr>rp_status := - EIO\<rparr>, state, call # calls))
               else
                 (case fill_mm_direct_response lb state slot (r\<lparr>mr_query_id := qid\<rparr>) of (r, state, calls) \<Rightarrow> (r, state, call # calls)))"

definition fill_mm_response ::
  "mm_answers \<Rightarrow> bridge_mm_state \<Rightarrow> nat \<Rightarrow> lsteam_bridge_mm_response \<Rightarrow> lsteam_bridge_mm_response \<times> bridge_mm_state" where
  "fill_mm_response an state i r =
     (case mm_queries state ! i of
        None \<Rightarrow> (r, state)
      | Some query \<Rightarrow>
          if lq_handle query = 0 \<or> \<not> mm_iface state then (r, state)
          else
            let r = r\<lparr>mr_query_id := lq_id query,
                      mr_server_count := if sint (ma_server_count an) > sint LSTEAM_BRIDGE_MM_VISIBLE_SERVER_LIMIT
                        then LSTEAM_BRIDGE_MM_VISIBLE_SERVER_LIMIT else ma_server_count an,
                      mr_refreshing := if ma_refreshing an then 1 else 0\<rparr>
            in case list_pop query of
                 (None, query) \<Rightarrow> (r, state)
               | (Some e, query) \<Rightarrow>
                   (r\<lparr>mr_event_kind := le_kind e, mr_event_index := le_index e, mr_event_response := le_response e\<rparr>, put_query i (Some query) state))"

text \<open>A text of a request as the library gets it: cut off at the size of its array, which need not hold a terminator.\<close>

definition filter_text :: "mm_library \<Rightarrow> u8 list \<Rightarrow> u8 list" where
  "filter_text lb text = takeWhile (\<lambda>b. b \<noteq> 0) (take (lb_filter_size lb - 1) text)"

definition native_filters :: "mm_library \<Rightarrow> lsteam_bridge_mm_request \<Rightarrow> (u8 list \<times> u8 list) list" where
  "native_filters lb q = map (\<lambda>f. (filter_text lb (mf_key f), filter_text lb (mf_value f))) (take (unat (mq_filter_count q)) (mq_filters q))"

definition handle_mm_list_request ::
  "mm_library \<Rightarrow> mm_answers \<Rightarrow> bridge_mm_state \<Rightarrow> lsteam_bridge_mm_request \<Rightarrow> lsteam_bridge_mm_response \<Rightarrow>
   lsteam_bridge_mm_response \<times> bridge_mm_state \<times> mm_call list" where
  "handle_mm_list_request lb an state q r =
     (case free_mm_slot state of
        None \<Rightarrow> (r\<lparr>rp_status := - ENOSPC\<rparr>, state, [])
      | Some slot \<Rightarrow>
          case take_mm_id state of (qid, state) \<Rightarrow>
          if \<not> ma_allocated an then (r\<lparr>rp_status := - ENOMEM\<rparr>, state, [])
          else
            let query = \<lparr>lq_id = qid, lq_handle = 0, lq_events = []\<rparr>;
                query = (fold deliver_list (ma_list_callbacks an) query)\<lparr>lq_handle := ma_list_handle an\<rparr>;
                state = put_query slot (Some query) state;
                call = List_Requested (mq_method q) (mq_app_id q) (native_filters lb q) (ma_list_handle an)
            in if lq_handle query = 0 then (r\<lparr>rp_status := - EIO\<rparr>, put_query slot None state, [call])
               else (case fill_mm_response an state slot r of (r, state) \<Rightarrow> (r, state, [call])))"

definition handle_mm_request ::
  "mm_library \<Rightarrow> mm_answers \<Rightarrow> bridge_mm_state \<Rightarrow> lsteam_bridge_request \<Rightarrow> lsteam_bridge_mm_request \<Rightarrow> lsteam_bridge_mm_response \<Rightarrow>
   lsteam_bridge_mm_response \<times> bridge_mm_state \<times> mm_call list" where
  "handle_mm_request lb an state header q r =
     (let r = stamp header r in
      if \<not> (mq_method q \<le> 5 \<or> mq_method q \<ge> 13 \<and> mq_method q \<le> 15) \<or> unat (mq_filter_count q) > LSTEAM_BRIDGE_MAX_MM_FILTERS
      then (r\<lparr>rp_status := - EINVAL\<rparr>, state, [])
      else if mq_method q = 1 then (r\<lparr>rp_status := - ENOTSUP\<rparr>, state, [])
      else
        let state = (if \<not> mm_iface state then state\<lparr>mm_iface := ma_iface an\<rparr> else state) in
        if \<not> mm_iface state then (r\<lparr>rp_status := - ENODEV\<rparr>, state, [])
        else if mq_method q \<ge> 13 then handle_mm_direct_request lb an state q r
        else handle_mm_list_request lb an state q r)"

section \<open>Calls on a query\<close>

text \<open>The callbacks a call on a list of servers provokes are delivered before the response is filled.\<close>

definition provoke :: "mm_answers \<Rightarrow> bridge_mm_state \<Rightarrow> nat \<Rightarrow> bridge_mm_state" where
  "provoke an state i = put_query i (map_option (fold deliver_list (ma_list_callbacks an)) (mm_queries state ! i)) state"

definition handle_mm_list_call ::
  "mm_answers \<Rightarrow> bridge_mm_state \<Rightarrow> nat \<Rightarrow> u64 \<Rightarrow> lsteam_bridge_mm_request \<Rightarrow> lsteam_bridge_mm_response \<Rightarrow>
   lsteam_bridge_mm_response \<times> bridge_mm_state \<times> mm_call list" where
  "handle_mm_list_call an state i handle q r =
     (let fill = (\<lambda>r calls. case fill_mm_response an (provoke an state i) i r of (r, state) \<Rightarrow> (r, state, calls)) in
      if mq_method q = 6 then (r\<lparr>mr_query_id := mq_query_id q\<rparr>, put_query i None state, [List_Released handle])
      else if mq_method q = 7 then
        (case ma_item an of
           None \<Rightarrow> (r\<lparr>rp_status := - ENOENT\<rparr>, provoke an state i, [])
         | Some item \<Rightarrow>
             fill (r\<lparr>mr_data := store_bytes (mr_data r) (take LSTEAM_BRIDGE_MM_ITEM_SIZE item), mr_data_size := of_nat LSTEAM_BRIDGE_MM_ITEM_SIZE\<rparr>) [])
      else if mq_method q = 8 then fill r [Query_Cancelled handle]
      else if mq_method q = 9 then fill r [Query_Refreshed handle]
      else if mq_method q = 10 \<or> mq_method q = 11 then fill r []
      else if mq_method q = 12 then fill r [Server_Refreshed handle (mq_argument q)]
      else (r\<lparr>rp_status := - ENOSYS\<rparr>, state, []))"

definition handle_mm_call ::
  "mm_library \<Rightarrow> mm_answers \<Rightarrow> bridge_mm_state \<Rightarrow> lsteam_bridge_request \<Rightarrow> lsteam_bridge_mm_request \<Rightarrow> lsteam_bridge_mm_response \<Rightarrow>
   lsteam_bridge_mm_response \<times> bridge_mm_state \<times> mm_call list" where
  "handle_mm_call lb an state header q r =
     (let r = stamp header r in
      if mq_method q = 16 then
        (case find_mm_direct_query state (mq_query_id q) of
           None \<Rightarrow> (r\<lparr>rp_status := - ENOENT\<rparr>, state, [])
         | Some i \<Rightarrow>
             if \<not> mm_iface state then (r\<lparr>rp_status := - ENOENT\<rparr>, state, [])
             else (r\<lparr>mr_query_id := mq_query_id q\<rparr>, retire_mm_direct_query lb state i True))
      else if mq_method q = 17 then
        (case find_mm_query state (mq_query_id q) of
           Some i \<Rightarrow> (case fill_mm_response an state i r of (r, state) \<Rightarrow> (r, state, []))
         | None \<Rightarrow>
             (case find_mm_direct_query state (mq_query_id q) of
                Some i \<Rightarrow> fill_mm_direct_response lb state i r
              | None \<Rightarrow> (r\<lparr>rp_status := - ENOENT\<rparr>, state, [])))
      else
        case find_mm_query state (mq_query_id q) of
          None \<Rightarrow> (r\<lparr>rp_status := - ENOENT\<rparr>, state, [])
        | Some i \<Rightarrow>
            (case mm_queries state ! i of
               None \<Rightarrow> (r\<lparr>rp_status := - ENOENT\<rparr>, state, [])
             | Some query \<Rightarrow>
                 if \<not> mm_iface state \<or> lq_handle query = 0 then (r\<lparr>rp_status := - ENOENT\<rparr>, state, [])
                 else handle_mm_list_call an state i (lq_handle query) q r))"

definition cleanup_mm_state :: "mm_library \<Rightarrow> bridge_mm_state \<Rightarrow> bridge_mm_state \<times> mm_call list" where
  "cleanup_mm_state lb state =
     (if \<not> mm_iface state then (state, [])
      else
        (state\<lparr>mm_queries := map (\<lambda>_. None) (mm_queries state), mm_direct_queries := map (\<lambda>_. None) (mm_direct_queries state)\<rparr>,
         concat (map (\<lambda>entry. case entry of None \<Rightarrow> [] | Some query \<Rightarrow> if lq_handle query \<noteq> 0 then [List_Released (lq_handle query)] else [])
           (mm_queries state)) @
         concat (map (\<lambda>entry. case entry of None \<Rightarrow> [] | Some query \<Rightarrow> if dq_handle query \<noteq> lb_invalid lb then [Direct_Cancelled (dq_handle query)] else [])
           (mm_direct_queries state))))"

text \<open>The handler runs: requests, calls, and callbacks to the query of a slot in between.\<close>

inductive mm_step :: "mm_library \<Rightarrow> bridge_mm_state \<times> mm_call list \<Rightarrow> bridge_mm_state \<times> mm_call list \<Rightarrow> bool" for lb where
  request: "handle_mm_request lb an state header q r = (r', state', calls) \<Longrightarrow> mm_step lb (state, log) (state', log @ calls)"
| call: "handle_mm_call lb an state header q r = (r', state', calls) \<Longrightarrow> mm_step lb (state, log) (state', log @ calls)"
| list_event: "i < 16 \<Longrightarrow> mm_queries state ! i = Some query \<Longrightarrow> mm_step lb (state, log) (put_query i (Some (deliver_list cb query)) state, log)"
| direct_event: "i < 16 \<Longrightarrow> mm_direct_queries state ! i = Some query \<Longrightarrow> mm_step lb (state, log) (put_direct i (Some (deliver_direct dcb query)) state, log)"


section \<open>Bounded queues\<close>

text \<open>Taking \<open>n\<close> times.\<close>

fun pop_times :: "('q \<Rightarrow> 'e option \<times> 'q) \<Rightarrow> nat \<Rightarrow> 'q \<Rightarrow> 'e list \<times> 'q" where
  "pop_times pop 0 q = ([], q)"
| "pop_times pop (Suc n) q =
     (case pop q of (None, q) \<Rightarrow> ([], q) | (Some e, q) \<Rightarrow> (case pop_times pop n q of (es, q) \<Rightarrow> (e # es, q)))"

text \<open>What both queues promise: first in, first out, and what comes to a full queue is dropped.\<close>

locale bounded_queue =
  fixes cap :: nat
    and ok :: "'q \<Rightarrow> bool"
    and items :: "'q \<Rightarrow> 'e list"
    and push :: "'e \<Rightarrow> 'q \<Rightarrow> 'q"
    and pop :: "'q \<Rightarrow> 'e option \<times> 'q"
  assumes bounded: "ok q \<Longrightarrow> length (items q) \<le> cap"
    and push_ok: "ok q \<Longrightarrow> ok (push e q)"
    and push_items: "ok q \<Longrightarrow> items (push e q) = (if length (items q) < cap then items q @ [e] else items q)"
    and pop_ok: "ok q \<Longrightarrow> ok (snd (pop q))"
    and pop_items: "ok q \<Longrightarrow> items q = (case fst (pop q) of None \<Rightarrow> [] | Some e \<Rightarrow> e # items (snd (pop q)))"
begin

lemma push_all:
  assumes "ok q"
  shows "ok (fold push es q) \<and> items (fold push es q) = items q @ take (cap - length (items q)) es"
  using assms
proof (induction es arbitrary: q)
  case (Cons e es)
  then show ?case using push_ok push_items bounded [OF Cons.prems] by (auto simp: take_Cons' Suc_diff_Suc split: if_splits)
qed simp

lemma pop_all:
  assumes "ok q" "length (items q) \<le> n"
  shows "fst (pop_times pop n q) = items q"
  using assms
proof (induction n arbitrary: q)
  case (Suc n)
  note p = pop_ok [OF Suc.prems(1)] pop_items [OF Suc.prems(1)]
  obtain x q' where q': "pop q = (x, q')" by (cases "pop q")
  show ?case using p Suc by (cases x) (auto simp: q' case_prod_unfold)
qed simp

lemma first_come_first_served:
  assumes "ok q" "items q = []"
  shows "fst (pop_times pop (length es) (fold push es q)) = take cap es"
  using push_all [OF assms(1), of es] pop_all [of "fold push es q" "length es"] assms(2) by simp

end

interpretation list_queue: bounded_queue 8192 "\<lambda>q. length (lq_events q) \<le> 8192" lq_events list_push list_pop
  by unfold_locales (auto simp: list_push_def list_pop_def split: list.split)

text \<open>The events in a ring, oldest first.\<close>

definition ring_items :: "bridge_mm_direct_query \<Rightarrow> bridge_mm_direct_event list" where
  "ring_items q = map (\<lambda>k. dq_events q ! ((unat (dq_event_read q) + k) mod 128)) [0..<unat (dq_event_write q - dq_event_read q)]"

definition ring_ok :: "bridge_mm_direct_query \<Rightarrow> bool" where
  "ring_ok q \<longleftrightarrow> length (dq_events q) = 128 \<and> unat (dq_event_write q - dq_event_read q) \<le> 128"

text \<open>The counters wrap around at a multiple of the size of the ring, so positions follow on.\<close>

lemma ring_position: "unat ((a + of_nat k) mod 128 :: u32) = (unat a + k) mod 128"
proof -
  have "unat (a + of_nat k) = (unat a + k) mod 2 ^ 32" by (simp add: unat_word_ariths unat_of_nat mod_add_right_eq)
  then have "unat ((a + of_nat k) mod 128 :: u32) = (unat a + k) mod 2 ^ 32 mod 128" by (simp add: unat_mod)
  also have "\<dots> = (unat a + k) mod 128" by (rule mod_mod_cancel) simp
  finally show ?thesis .
qed

lemma ring_position_new:
  assumes "k < n" "n < 128"
  shows "((a :: nat) + k) mod 128 \<noteq> (a + n) mod 128"
proof
  assume "(a + k) mod 128 = (a + n) mod 128"
  then have "(128 :: nat) dvd (a + n) - (a + k)" using assms(1) by (metis add_le_cancel_left less_imp_le mod_eq_dvd_iff_nat)
  then show False using assms by (auto dest: dvd_imp_le)
qed

lemma ring_push:
  assumes "ring_ok q"
  shows "ring_ok (direct_push e q) \<and>
    ring_items (direct_push e q) = (if length (ring_items q) < 128 then ring_items q @ [e] else ring_items q)"
proof (cases "dq_event_write q - dq_event_read q < 128")
  case True
  define n where "n = unat (dq_event_write q - dq_event_read q)"
  have n: "n < 128" using True by (simp add: n_def word_less_nat_alt)
  have "dq_event_write q = dq_event_read q + of_nat n" by (simp add: n_def)
  then have pos: "unat (dq_event_write q mod 128) = (unat (dq_event_read q) + n) mod 128" using ring_position by simp
  have "unat (dq_event_write q - dq_event_read q + 1) = unat (dq_event_write q - dq_event_read q) + unat (1 :: u32)"
    using n by (intro unat_add_lem [THEN iffD1]) (simp add: n_def)
  then have more: "unat (dq_event_write q + 1 - dq_event_read q) = Suc n" by (simp add: n_def algebra_simps)
  have "(dq_events q)[(unat (dq_event_read q) + n) mod 128 := e] ! ((unat (dq_event_read q) + k) mod 128) =
      dq_events q ! ((unat (dq_event_read q) + k) mod 128)" if "k < n" for k
    by (rule nth_list_update_neq) (metis that n ring_position_new)
  moreover have "length (dq_events q) = 128" using assms by (simp add: ring_ok_def)
  ultimately have "ring_items (direct_push e q) = ring_items q @ [e]"
    using True more pos by (auto simp: ring_items_def direct_push_def n_def [symmetric])
  then show ?thesis using True more n assms by (simp add: ring_ok_def ring_items_def direct_push_def n_def)
next
  case False
  then show ?thesis using assms by (simp add: direct_push_def ring_items_def ring_ok_def word_less_nat_alt)
qed

lemma ring_pop:
  assumes "ring_ok q"
  shows "ring_ok (snd (direct_pop q)) \<and>
    ring_items q = (case fst (direct_pop q) of None \<Rightarrow> [] | Some e \<Rightarrow> e # ring_items (snd (direct_pop q)))"
proof (cases "dq_event_read q = dq_event_write q")
  case True
  then show ?thesis using assms by (simp add: direct_pop_def ring_items_def)
next
  case False
  define m where "m = unat (dq_event_write q - (dq_event_read q + 1))"
  have "unat (dq_event_write q - dq_event_read q) \<noteq> 0" using False by (simp add: unat_eq_0)
  then have m: "unat (dq_event_write q - dq_event_read q) = Suc m"
    using unat_minus_one [of "dq_event_write q - dq_event_read q"] False by (auto simp: m_def algebra_simps)
  have step: "(unat (dq_event_read q + 1) + k) mod 128 = (unat (dq_event_read q) + Suc k) mod 128" for k
    using ring_position [of "dq_event_read q + 1" k] ring_position [of "dq_event_read q" "Suc k"] by (simp add: algebra_simps)
  have "ring_items q = dq_events q ! (unat (dq_event_read q) mod 128) # ring_items (snd (direct_pop q))"
    using False unfolding ring_items_def m
    by (simp add: direct_pop_def upt_rec [of 0] map_Suc_upt [symmetric] step m_def del: upt_Suc)
  then show ?thesis using False assms m by (simp add: direct_pop_def ring_ok_def unat_mod m_def)
qed

interpretation ring_queue: bounded_queue 128 ring_ok ring_items direct_push direct_pop
proof unfold_locales
  show "ring_ok q \<Longrightarrow> length (ring_items q) \<le> 128" for q by (simp add: ring_ok_def ring_items_def)
qed (use ring_push ring_pop in blast)+

end
