(* ===== verification/Tgc_Bridge_Mm_Props.thy ===== *)
theory Tgc_Bridge_Mm_Props
  imports Tgc_Bridge_Matchmaking
begin

text \<open>
  What holds of the matchmaking handler in every reachable state: the queries in its tables and their queues are well formed, every list of servers opened with the library
  is released exactly once, no question is cancelled twice, and numbers are unique as long as the counter has not wrapped around.
\<close>

section \<open>The queries in the tables\<close>

definition list_ok :: "bridge_mm_query \<Rightarrow> bool" where
  "list_ok q \<longleftrightarrow> length (lq_events q) \<le> 8192 \<and> list_all (\<lambda>e. le_kind e = 3 \<or> (le_kind e = 1 \<or> le_kind e = 2) \<and> visible_server (le_index e)) (lq_events q)"

definition direct_ok :: "bridge_mm_direct_query \<Rightarrow> bool" where
  "direct_ok q \<longleftrightarrow> ring_ok q \<and> list_all (\<lambda>e. unat (de_data_size e) \<le> LSTEAM_BRIDGE_MM_DATA_SIZE \<and> length (de_data e) = LSTEAM_BRIDGE_MM_DATA_SIZE) (dq_events q)"

definition mm_wf :: "mm_library \<Rightarrow> bridge_mm_state \<Rightarrow> bool" where
  "mm_wf lb st \<longleftrightarrow> length (mm_queries st) = 16 \<and> length (mm_direct_queries st) = 16 \<and>
     list_all (pred_option (\<lambda>q. mm_iface st \<and> lq_handle q \<noteq> 0 \<and> list_ok q)) (mm_queries st) \<and>
     list_all (pred_option (\<lambda>q. mm_iface st \<and> dq_handle q \<noteq> lb_invalid lb \<and> direct_ok q)) (mm_direct_queries st)"

lemma list_all_update: "list_all P xs \<Longrightarrow> P x \<Longrightarrow> list_all P (xs[i := x])"
  by (auto simp: list_all_iff dest!: set_update_subset_insert [THEN subsetD])

lemma list_push_ok:
  "list_ok q \<Longrightarrow> le_kind e = 3 \<or> (le_kind e = 1 \<or> le_kind e = 2) \<and> visible_server (le_index e) \<Longrightarrow> list_ok (list_push e q)"
  by (simp add: list_ok_def list_push_def)

lemma deliver_list_keeps: "lq_id (deliver_list cb q) = lq_id q" "lq_handle (deliver_list cb q) = lq_handle q" "list_ok q \<Longrightarrow> list_ok (deliver_list cb q)"
proof -
  show "lq_id (deliver_list cb q) = lq_id q" "lq_handle (deliver_list cb q) = lq_handle q" by (cases cb; simp add: list_push_def)+
  show "list_ok q \<Longrightarrow> list_ok (deliver_list cb q)" by (cases cb) (auto intro: list_push_ok)
qed

lemma deliver_lists_keep: "lq_id (fold deliver_list cbs q) = lq_id q \<and> lq_handle (fold deliver_list cbs q) = lq_handle q \<and> (list_ok q \<longrightarrow> list_ok (fold deliver_list cbs q))"
  by (induction cbs arbitrary: q) (simp_all add: deliver_list_keeps)

lemma direct_event_ok: "unat (de_data_size (direct_event k a v b n)) \<le> LSTEAM_BRIDGE_MM_DATA_SIZE \<and> length (de_data (direct_event k a v b n)) = LSTEAM_BRIDGE_MM_DATA_SIZE"
proof -
  have "unat (of_nat n :: u32) \<le> 1024" if "n \<le> 1024" using that by (simp add: unat_of_nat)
  then show ?thesis by (simp add: direct_event_def blank_direct_event_def Let_def split: option.split)
qed

lemma direct_push_ok:
  assumes "direct_ok q" "unat (de_data_size e) \<le> LSTEAM_BRIDGE_MM_DATA_SIZE \<and> length (de_data e) = LSTEAM_BRIDGE_MM_DATA_SIZE"
  shows "direct_ok (direct_push e q)"
  using assms ring_push [of q e] by (auto simp: direct_ok_def direct_push_def intro: list_all_update)

lemma deliver_direct_keeps:
  "dq_id (deliver_direct cb q) = dq_id q" "dq_handle (deliver_direct cb q) = dq_handle q" "direct_ok q \<Longrightarrow> direct_ok (deliver_direct cb q)"
proof -
  show "dq_id (deliver_direct cb q) = dq_id q" "dq_handle (deliver_direct cb q) = dq_handle q" by (cases cb; simp add: direct_push_def Let_def)+
  show "direct_ok q \<Longrightarrow> direct_ok (deliver_direct cb q)"
    by (cases cb) (simp_all only: deliver_direct.simps Let_def direct_push_ok [OF _ direct_event_ok])
qed

lemma deliver_directs_keep:
  "dq_id (fold deliver_direct cbs q) = dq_id q \<and> dq_handle (fold deliver_direct cbs q) = dq_handle q \<and> (direct_ok q \<longrightarrow> direct_ok (fold deliver_direct cbs q))"
  by (induction cbs arbitrary: q) (simp_all add: deliver_direct_keeps)

lemma list_pop_keeps:
  assumes "list_pop q = (x, q')"
  shows "lq_id q' = lq_id q" "lq_handle q' = lq_handle q" "list_ok q \<Longrightarrow> list_ok q'"
  using assms by (auto simp: list_pop_def list_ok_def split: list.splits)

lemma direct_pop_keeps:
  assumes "direct_pop q = (x, q')"
  shows "dq_id q' = dq_id q" "dq_handle q' = dq_handle q" "direct_ok q \<Longrightarrow> direct_ok q'"
  using assms ring_pop [of q] by (auto simp: direct_pop_def direct_ok_def split: if_splits)

lemma blank_direct_ok: "direct_ok \<lparr>dq_id = a, dq_type = b, dq_handle = c, dq_event_read = 0, dq_event_write = 0, dq_events = replicate 128 blank_direct_event\<rparr>"
  by (simp add: direct_ok_def ring_ok_def blank_direct_event_def list_all_iff)

section \<open>Handles and numbers\<close>

definition list_part :: "bridge_mm_query option \<Rightarrow> u64 multiset" where
  "list_part entry = (case entry of None \<Rightarrow> {#} | Some q \<Rightarrow> if lq_handle q = 0 then {#} else {#lq_handle q#})"

definition direct_part :: "mm_library \<Rightarrow> bridge_mm_direct_query option \<Rightarrow> s32 multiset" where
  "direct_part lb entry = (case entry of None \<Rightarrow> {#} | Some q \<Rightarrow> if dq_handle q = lb_invalid lb then {#} else {#dq_handle q#})"

definition held_lists :: "bridge_mm_state \<Rightarrow> u64 multiset" where
  "held_lists st = sum_list (map list_part (mm_queries st))"

definition held_directs :: "mm_library \<Rightarrow> bridge_mm_state \<Rightarrow> s32 multiset" where
  "held_directs lb st = sum_list (map (direct_part lb) (mm_direct_queries st))"

definition opened_lists :: "mm_call list \<Rightarrow> u64 multiset" where
  "opened_lists log = sum_list (map (\<lambda>c. case c of List_Requested method app filters handle \<Rightarrow> if handle = 0 then {#} else {#handle#} | _ \<Rightarrow> {#}) log)"

definition released_lists :: "mm_call list \<Rightarrow> u64 multiset" where
  "released_lists log = sum_list (map (\<lambda>c. case c of List_Released handle \<Rightarrow> {#handle#} | _ \<Rightarrow> {#}) log)"

definition opened_directs :: "mm_library \<Rightarrow> mm_call list \<Rightarrow> s32 multiset" where
  "opened_directs lb log =
     sum_list (map (\<lambda>c. case c of Direct_Requested method ip port handle \<Rightarrow> if handle = lb_invalid lb then {#} else {#handle#} | _ \<Rightarrow> {#}) log)"

definition cancelled_directs :: "mm_call list \<Rightarrow> s32 multiset" where
  "cancelled_directs log = sum_list (map (\<lambda>c. case c of Direct_Cancelled handle \<Rightarrow> {#handle#} | _ \<Rightarrow> {#}) log)"

lemmas log_defs = opened_lists_def released_lists_def opened_directs_def cancelled_directs_def

definition mm_numbers :: "bridge_mm_state \<Rightarrow> u32 multiset" where
  "mm_numbers st = sum_list (map (\<lambda>e. case e of None \<Rightarrow> {#} | Some q \<Rightarrow> {#lq_id q#}) (mm_queries st)) +
     sum_list (map (\<lambda>e. case e of None \<Rightarrow> {#} | Some q \<Rightarrow> {#dq_id q#}) (mm_direct_queries st))"

lemma sum_list_put:
  fixes f :: "'a \<Rightarrow> 'b multiset"
  assumes "i < length xs"
  shows "sum_list (map f (xs[i := x])) + f (xs ! i) = sum_list (map f xs) + f x"
  using assms
proof (induction xs arbitrary: i)
  case (Cons y ys)
  show ?case
  proof (cases i)
    case (Suc j)
    then have "sum_list (map f (ys[j := x])) + f (ys ! j) = sum_list (map f ys) + f x" using Cons by simp
    then show ?thesis using Suc by (simp add: union_assoc)
  qed (simp add: ac_simps)
qed simp

text \<open>
  What one operation does: it keeps the tables well formed, the handles opened and held before are those released and held afterwards, a question is cancelled only
  while it is held, and numbers go away or are among the \<open>new\<close> ones.
\<close>

definition mm_move :: "mm_library \<Rightarrow> u32 multiset \<Rightarrow> bridge_mm_state \<Rightarrow> bridge_mm_state \<Rightarrow> mm_call list \<Rightarrow> bool" where
  "mm_move lb new st st' calls \<longleftrightarrow>
     mm_wf lb st' \<and> opened_lists calls + held_lists st = released_lists calls + held_lists st' \<and>
     cancelled_directs calls + held_directs lb st' \<subseteq># opened_directs lb calls + held_directs lb st \<and> mm_numbers st' \<subseteq># new + mm_numbers st"

lemma mm_move_refl: "mm_wf lb st \<Longrightarrow> mm_move lb {#} st st []"
  by (simp add: mm_move_def log_defs)

lemma mm_move_trans:
  assumes "mm_move lb new st st1 calls" "mm_move lb new' st1 st2 calls'"
  shows "mm_move lb (new' + new) st st2 (calls @ calls')"
proof -
  have "mm_numbers st2 \<subseteq># new' + mm_numbers st1" using assms(2) by (simp add: mm_move_def)
  also have "\<dots> \<subseteq># new' + (new + mm_numbers st)" using assms(1) by (simp add: mm_move_def)
  finally have numbers: "mm_numbers st2 \<subseteq># new' + new + mm_numbers st" by (simp add: union_assoc)
  have "cancelled_directs (calls @ calls') + held_directs lb st2 \<subseteq># cancelled_directs calls + (opened_directs lb calls' + held_directs lb st1)"
    using assms(2) by (simp add: mm_move_def log_defs union_assoc)
  also have "\<dots> \<subseteq># opened_directs lb calls' + (opened_directs lb calls + held_directs lb st)"
    using assms(1) by (simp add: mm_move_def add.left_commute [of "cancelled_directs calls"])
  finally have "cancelled_directs (calls @ calls') + held_directs lb st2 \<subseteq># opened_directs lb (calls @ calls') + held_directs lb st"
    by (simp add: log_defs ac_simps)
  moreover have "opened_lists (calls @ calls') + held_lists st = opened_lists calls' + (released_lists calls + held_lists st1)"
    using assms(1) by (simp add: mm_move_def opened_lists_def ac_simps)
  then have "opened_lists (calls @ calls') + held_lists st = released_lists (calls @ calls') + held_lists st2"
    using assms(2) by (simp add: mm_move_def released_lists_def add.left_commute [of "opened_lists calls'"] add.assoc)
  ultimately show ?thesis using assms(2) numbers by (simp add: mm_move_def)
qed

text \<open>Writing a slot of either table.\<close>

lemma put_frame [simp]: "held_directs lb (put_query i e st) = held_directs lb st" "held_lists (put_direct i d st) = held_lists st"
  by (simp_all add: held_lists_def held_directs_def put_query_def put_direct_def)

lemma put_query_sums:
  assumes "i < length (mm_queries st)"
  shows "held_lists (put_query i e st) + list_part (mm_queries st ! i) = held_lists st + list_part e"
    and "mm_numbers (put_query i e st) + (case mm_queries st ! i of None \<Rightarrow> {#} | Some q \<Rightarrow> {#lq_id q#}) =
      mm_numbers st + (case e of None \<Rightarrow> {#} | Some q \<Rightarrow> {#lq_id q#})"
  using sum_list_put [OF assms, of list_part e] sum_list_put [OF assms, of "\<lambda>e. case e of None \<Rightarrow> {#} | Some q \<Rightarrow> {#lq_id q#}" e]
  by (simp_all add: held_lists_def mm_numbers_def put_query_def)

lemma put_direct_sums:
  assumes "i < length (mm_direct_queries st)"
  shows "held_directs lb (put_direct i e st) + direct_part lb (mm_direct_queries st ! i) = held_directs lb st + direct_part lb e"
    and "mm_numbers (put_direct i e st) + (case mm_direct_queries st ! i of None \<Rightarrow> {#} | Some q \<Rightarrow> {#dq_id q#}) =
      mm_numbers st + (case e of None \<Rightarrow> {#} | Some q \<Rightarrow> {#dq_id q#})"
  using sum_list_put [OF assms, of "direct_part lb" e] sum_list_put [OF assms, of "\<lambda>e. case e of None \<Rightarrow> {#} | Some q \<Rightarrow> {#dq_id q#}" e]
  by (simp_all add: held_lists_def held_directs_def mm_numbers_def put_direct_def union_assoc)

lemma put_query_wf: "mm_wf lb st \<Longrightarrow> pred_option (\<lambda>q. mm_iface st \<and> lq_handle q \<noteq> 0 \<and> list_ok q) e \<Longrightarrow> mm_wf lb (put_query i e st)"
  by (auto simp: mm_wf_def put_query_def intro: list_all_update)

lemma put_direct_wf:
  "mm_wf lb st \<Longrightarrow> pred_option (\<lambda>q. mm_iface st \<and> dq_handle q \<noteq> lb_invalid lb \<and> direct_ok q) e \<Longrightarrow> mm_wf lb (put_direct i e st)"
  by (auto simp: mm_wf_def put_direct_def intro: list_all_update)

lemma mm_wf_query:
  assumes "mm_wf lb st" "i < 16" "mm_queries st ! i = Some q"
  shows "mm_iface st" "lq_handle q \<noteq> 0" "list_ok q"
  using assms by (force simp: mm_wf_def list_all_length)+

lemma mm_wf_direct:
  assumes "mm_wf lb st" "i < 16" "mm_direct_queries st ! i = Some q"
  shows "mm_iface st" "dq_handle q \<noteq> lb_invalid lb" "direct_ok q"
  using assms by (force simp: mm_wf_def list_all_length)+

text \<open>A query that keeps its number and handle; a query that goes.\<close>

lemma update_query_move:
  assumes "mm_wf lb st" "i < 16" "mm_queries st ! i = Some q" "lq_id q' = lq_id q" "lq_handle q' = lq_handle q" "list_ok q'"
  shows "mm_move lb {#} st (put_query i (Some q') st) []"
  using put_query_sums [of i st "Some q'"] mm_wf_query [OF assms(1-3)] put_query_wf [OF assms(1), of "Some q'" i] assms
  by (simp add: mm_move_def log_defs mm_wf_def list_part_def)

lemma update_direct_move:
  assumes "mm_wf lb st" "i < 16" "mm_direct_queries st ! i = Some q" "dq_id q' = dq_id q" "dq_handle q' = dq_handle q" "direct_ok q'"
  shows "mm_move lb {#} st (put_direct i (Some q') st) []"
  using put_direct_sums(1) [of i st lb "Some q'"] put_direct_sums(2) [of i st "Some q'"] mm_wf_direct [OF assms(1-3)] put_direct_wf [OF assms(1), of "Some q'" i] assms
  by (simp add: mm_move_def log_defs mm_wf_def direct_part_def)

lemma release_query_move:
  assumes "mm_wf lb st" "i < 16" "mm_queries st ! i = Some q"
  shows "mm_move lb {#} st (put_query i None st) [List_Released (lq_handle q)]"
proof -
  have sums: "held_lists (put_query i None st) + {#lq_handle q#} = held_lists st" "mm_numbers (put_query i None st) + {#lq_id q#} = mm_numbers st"
    using put_query_sums [of i st None] mm_wf_query [OF assms] assms by (simp_all add: mm_wf_def list_part_def)
  have "mm_wf lb (put_query i None st)" using put_query_wf [OF assms(1), of None i] by simp
  moreover have "mm_numbers (put_query i None st) \<subseteq># mm_numbers st" using sums(2) by (metis mset_subset_eq_add_left)
  ultimately show ?thesis using sums by (simp add: mm_move_def log_defs ac_simps)
qed

lemma retire_direct_move:
  assumes "mm_wf lb st" "i < 16" "mm_direct_queries st ! i = Some q" "retire_mm_direct_query lb st i cancel = (st', calls)"
  shows "mm_move lb {#} st st' calls"
proof -
  have st': "st' = put_direct i None st" "calls = (if cancel then [Direct_Cancelled (dq_handle q)] else [])"
    using assms mm_wf_direct [OF assms(1-3)] by (auto simp: retire_mm_direct_query_def)
  have sums: "held_directs lb st' + {#dq_handle q#} = held_directs lb st" "mm_numbers st' + {#dq_id q#} = mm_numbers st" "held_lists st' = held_lists st"
    using put_direct_sums(1) [of i st lb None] put_direct_sums(2) [of i st None] mm_wf_direct [OF assms(1-3)] assms(1-3)
    by (simp_all add: st' mm_wf_def direct_part_def)
  have "mm_wf lb st'" using put_direct_wf [OF assms(1), of None i] by (simp add: st')
  moreover have "mm_numbers st' \<subseteq># mm_numbers st" using sums(2) by (metis mset_subset_eq_add_left)
  moreover have "held_directs lb st' \<subseteq># held_directs lb st" using sums(1) by (metis mset_subset_eq_add_left)
  ultimately show ?thesis using sums by (simp add: mm_move_def log_defs st'(2) ac_simps)
qed

section \<open>The operations\<close>

lemma fill_mm_response_move:
  assumes "mm_wf lb st" "i < 16" "fill_mm_response an st i r = (r', st')"
  shows "mm_move lb {#} st st' [] \<and> mm_next_id st' = mm_next_id st"
proof -
  have "st' = st \<or> (\<exists>q e q'. mm_queries st ! i = Some q \<and> list_pop q = (Some e, q') \<and> st' = put_query i (Some q') st)"
    using assms(3) by (auto simp: fill_mm_response_def Let_def split: option.splits if_splits prod.splits)
  then show ?thesis
  proof (elim disjE exE conjE)
    fix q e q'
    assume q: "mm_queries st ! i = Some q" "list_pop q = (Some e, q')" "st' = put_query i (Some q') st"
    note k = list_pop_keeps [OF q(2)]
    show ?thesis using update_query_move [OF assms(1,2) q(1) k(1,2) k(3)] mm_wf_query(3) [OF assms(1,2) q(1)] q(3) by (simp add: put_query_def)
  qed (use mm_move_refl assms(1) in auto)
qed

lemma fill_mm_direct_response_move:
  assumes "mm_wf lb st" "i < 16" "fill_mm_direct_response lb st i r = (r', st', calls)"
  shows "mm_move lb {#} st st' calls \<and> mm_next_id st' = mm_next_id st"
proof (cases "st' = st \<and> calls = []")
  case True
  then show ?thesis using mm_move_refl assms(1) by simp
next
  case False
  then obtain q e q' where q: "mm_direct_queries st ! i = Some q" "direct_pop q = (Some e, q')"
    and st': "(st', calls) = (if last_event e then retire_mm_direct_query lb (put_direct i (Some q') st) i False else (put_direct i (Some q') st, []))"
    using assms(3) by (fastforce simp: fill_mm_direct_response_def Let_def split: option.splits if_splits prod.splits)
  note k = direct_pop_keeps [OF q(2)]
  define st1 where "st1 = put_direct i (Some q') st"
  have move: "mm_move lb {#} st st1 []"
    using update_direct_move [OF assms(1,2) q(1) k(1,2)] k(3) mm_wf_direct(3) [OF assms(1,2) q(1)] by (simp add: st1_def)
  have slot: "mm_wf lb st1" "mm_direct_queries st1 ! i = Some q'"
    using move assms(1,2) by (simp_all add: mm_move_def st1_def put_direct_def mm_wf_def)
  have same: "mm_next_id st' = mm_next_id st"
    using st' by (auto simp: retire_mm_direct_query_def put_direct_def split: if_splits option.splits)
  show ?thesis
  proof (cases "last_event e")
    case True
    then have "retire_mm_direct_query lb st1 i False = (st', calls)" using st' by (simp add: st1_def)
    from mm_move_trans [OF move retire_direct_move [OF slot(1) assms(2) slot(2) this]] show ?thesis using same by simp
  next
    case False
    then show ?thesis using move st' same by (simp add: st1_def)
  qed
qed

lemma provoke_move:
  assumes "mm_wf lb st" "i < 16" "mm_queries st ! i = Some q"
  shows "mm_move lb {#} st (provoke an st i) [] \<and> mm_next_id (provoke an st i) = mm_next_id st"
  using update_query_move [OF assms, of "fold deliver_list (ma_list_callbacks an) q"] deliver_lists_keep [of "ma_list_callbacks an" q] mm_wf_query(3) [OF assms] assms(3)
  by (simp add: provoke_def) (simp add: put_query_def)

lemma calls_without_handles:
  assumes "mm_move lb new st st' []" "list_all (\<lambda>c. case c of Query_Cancelled _ \<Rightarrow> True | Query_Refreshed _ \<Rightarrow> True | Server_Refreshed _ _ \<Rightarrow> True | _ \<Rightarrow> False) calls"
  shows "mm_move lb new st st' calls"
proof -
  have "opened_lists calls = {#}" "released_lists calls = {#}" "opened_directs lb calls = {#}" "cancelled_directs calls = {#}"
    using assms(2) by (induction calls) (auto simp: log_defs split: mm_call.splits)
  then show ?thesis using assms(1) by (simp add: mm_move_def log_defs)
qed

lemma handle_mm_list_call_move:
  assumes "mm_wf lb st" "i < 16" "mm_queries st ! i = Some query" "handle_mm_list_call an st i (lq_handle query) q r = (r', st', calls)"
  shows "mm_move lb {#} st st' calls \<and> mm_next_id st' = mm_next_id st"
proof -
  note provoked = provoke_move [OF assms(1-3), of an]
  have wf: "mm_wf lb (provoke an st i)" using provoked by (simp add: mm_move_def)
  have fill: "mm_move lb {#} st st2 cs \<and> mm_next_id st2 = mm_next_id st"
    if "fill_mm_response an (provoke an st i) i r1 = (r2, st2)" "cs \<in> {[], [Query_Cancelled h], [Query_Refreshed h], [Server_Refreshed h n]}" for r1 r2 st2 cs h n
  proof -
    have "mm_move lb {#} st st2 []" "mm_next_id st2 = mm_next_id st"
      using fill_mm_response_move [OF wf assms(2) that(1)] mm_move_trans [of lb "{#}" st "provoke an st i" "[]" "{#}" st2 "[]"] provoked by auto
    then show ?thesis using calls_without_handles [of lb "{#}" st st2 cs] that(2) by auto
  qed
  show ?thesis
  proof (cases "mq_method q = 6")
    case True
    then show ?thesis using release_query_move [OF assms(1-3)] assms(4) by (auto simp: handle_mm_list_call_def Let_def put_query_def)
  next
    case False
    then have "(\<exists>r1. fill_mm_response an (provoke an st i) i r1 = (r', st') \<and>
          calls \<in> {[], [Query_Cancelled (lq_handle query)], [Query_Refreshed (lq_handle query)], [Server_Refreshed (lq_handle query) (mq_argument q)]}) \<or>
        calls = [] \<and> (st' = st \<or> st' = provoke an st i)"
      using assms(4) unfolding handle_mm_list_call_def Let_def by (auto split: if_splits option.splits prod.splits)
    then show ?thesis using fill provoked mm_move_refl [OF assms(1)] by blast
  qed
qed

lemma found_query: "find_mm_query st n = Some i \<Longrightarrow> mm_wf lb st \<Longrightarrow> i < 16 \<and> (\<exists>q. mm_queries st ! i = Some q \<and> lq_id q = n)"
  by (auto simp: find_mm_query_def first_index_Some_iff mm_wf_def split: option.splits)

lemma found_direct: "find_mm_direct_query st n = Some i \<Longrightarrow> mm_wf lb st \<Longrightarrow> i < 16 \<and> (\<exists>q. mm_direct_queries st ! i = Some q \<and> dq_id q = n)"
  by (auto simp: find_mm_direct_query_def first_index_Some_iff mm_wf_def split: option.splits)

lemma retire_next: "retire_mm_direct_query lb st i c = (st', calls) \<Longrightarrow> mm_next_id st' = mm_next_id st"
  by (auto simp: retire_mm_direct_query_def put_direct_def split: option.splits)

lemma handle_mm_call_move:
  assumes "mm_wf lb st" "handle_mm_call lb an st header q r = (r', st', calls)"
  shows "mm_move lb {#} st st' calls \<and> mm_next_id st' = mm_next_id st"
proof (cases "st' = st \<and> calls = []")
  case True
  then show ?thesis using mm_move_refl assms(1) by simp
next
  case False
  then consider
      (cancel) i where "find_mm_direct_query st (mq_query_id q) = Some i" "retire_mm_direct_query lb st i True = (st', calls)"
    | (list) i r1 where "find_mm_query st (mq_query_id q) = Some i" "fill_mm_response an st i r1 = (r', st')" "calls = []"
    | (direct) i r1 where "find_mm_direct_query st (mq_query_id q) = Some i" "fill_mm_direct_response lb st i r1 = (r', st', calls)"
    | (call) i query r1 where "find_mm_query st (mq_query_id q) = Some i" "mm_queries st ! i = Some query"
        "handle_mm_list_call an st i (lq_handle query) q r1 = (r', st', calls)"
    using assms(2) unfolding handle_mm_call_def Let_def by (auto split: if_splits option.splits prod.splits)
  then show ?thesis
  proof cases
    case cancel
    then show ?thesis using found_direct [OF cancel(1) assms(1)] retire_direct_move [OF assms(1)] retire_next [OF cancel(2)] by blast
  next
    case list
    then show ?thesis using found_query [OF list(1) assms(1)] fill_mm_response_move [OF assms(1)] by blast
  next
    case direct
    then show ?thesis using found_direct [OF direct(1) assms(1)] fill_mm_direct_response_move [OF assms(1)] by blast
  next
    case call
    then show ?thesis using found_query [OF call(1) assms(1)] handle_mm_list_call_move [OF assms(1)] by blast
  qed
qed

lemma take_mm_id_move:
  assumes "take_mm_id st = (n, st1)"
  shows "n \<noteq> 0" "mm_queries st1 = mm_queries st" "mm_direct_queries st1 = mm_direct_queries st" "mm_iface st1 = mm_iface st"
    and "mm_next_id st \<noteq> 0 \<Longrightarrow> n = mm_next_id st \<and> mm_next_id st1 = mm_next_id st + 1" and "mm_wf lb st \<Longrightarrow> mm_move lb {#} st st1 []"
  using assms by (auto simp: take_mm_id_def Let_def mm_move_def mm_wf_def log_defs held_lists_def held_directs_def mm_numbers_def split: if_splits)

lemma open_query_move:
  assumes "mm_wf lb st" "i < 16" "mm_queries st ! i = None" "lq_handle q \<noteq> 0" "list_ok q" "mm_iface st"
  shows "mm_move lb {#lq_id q#} st (put_query i (Some q) st) [List_Requested m app fs (lq_handle q)]"
  using put_query_sums [of i st "Some q"] put_query_wf [OF assms(1), of "Some q" i] assms by (simp add: mm_move_def log_defs mm_wf_def list_part_def)

lemma open_direct_move:
  assumes "mm_wf lb st" "i < 16" "mm_direct_queries st ! i = None" "dq_handle q \<noteq> lb_invalid lb" "direct_ok q" "mm_iface st"
  shows "mm_move lb {#dq_id q#} st (put_direct i (Some q) st) [Direct_Requested m ip port (dq_handle q)]"
  using put_direct_sums(1) [of i st lb "Some q"] put_direct_sums(2) [of i st "Some q"] put_direct_wf [OF assms(1), of "Some q" i] assms
  by (simp add: mm_move_def log_defs mm_wf_def direct_part_def)

text \<open>A request either opens nothing new under a number, or takes the next number.\<close>

definition mm_request_move :: "mm_library \<Rightarrow> bridge_mm_state \<Rightarrow> bridge_mm_state \<Rightarrow> mm_call list \<Rightarrow> bool" where
  "mm_request_move lb st st' calls \<longleftrightarrow>
     mm_next_id st' = mm_next_id st \<and> mm_move lb {#} st st' calls \<or>
     mm_next_id st' = mm_next_id (snd (take_mm_id st)) \<and> mm_move lb {#fst (take_mm_id st)#} st st' calls"

lemma mm_move_weaken: "mm_move lb {#} st st' calls \<Longrightarrow> mm_move lb {#n#} st st' calls"
  by (auto simp: mm_move_def intro: subset_mset.order_trans)

lemma handle_mm_list_request_move:
  assumes "mm_wf lb st" "mm_iface st" "handle_mm_list_request lb an st q r = (r', st', calls)"
  shows "mm_request_move lb st st' calls"
proof (cases "free_mm_slot st")
  case None
  then show ?thesis using assms mm_move_refl by (auto simp: handle_mm_list_request_def mm_request_move_def)
next
  case (Some i)
  obtain n st1 where id: "take_mm_id st = (n, st1)" by (cases "take_mm_id st")
  note id1 = take_mm_id_move [OF id]
  have wf1: "mm_wf lb st1" and move1: "mm_move lb {#} st st1 []" using id1(6) assms(1) by (auto simp: mm_move_def)
  have slot: "i < 16" "mm_queries st1 ! i = None" using Some assms(1) id1(2) by (auto simp: free_mm_slot_def first_index_Some_iff mm_wf_def)
  define query where "query = (fold deliver_list (ma_list_callbacks an) \<lparr>lq_id = n, lq_handle = 0, lq_events = []\<rparr>)\<lparr>lq_handle := ma_list_handle an\<rparr>"
  let ?call = "List_Requested (mq_method q) (mq_app_id q) (native_filters lb q) (ma_list_handle an)"
  have query: "lq_id query = n" "lq_handle query = ma_list_handle an" "list_ok query"
    using deliver_lists_keep [of "ma_list_callbacks an" "\<lparr>lq_id = n, lq_handle = 0, lq_events = []\<rparr>"] by (simp_all add: query_def list_ok_def)
  consider (memory) "\<not> ma_allocated an" | (refused) "ma_allocated an" "ma_list_handle an = 0" | (opened) "ma_allocated an" "ma_list_handle an \<noteq> 0" by blast
  then show ?thesis
  proof cases
    case memory
    then show ?thesis using assms(3) Some id move1 mm_move_weaken [OF move1] by (auto simp: handle_mm_list_request_def mm_request_move_def)
  next
    case refused
    have "(mm_queries st1)[i := None] = mm_queries st1" by (metis list_update_id slot(2))
    then have "put_query i None (put_query i (Some query) st1) = st1" by (simp add: put_query_def)
    then have "st' = st1" "calls = [?call]" using assms(3) Some id refused by (auto simp: handle_mm_list_request_def Let_def query_def)
    moreover have "mm_move lb {#} st st1 [?call]" using move1 refused by (simp add: mm_move_def log_defs)
    ultimately show ?thesis using id mm_move_weaken by (auto simp: mm_request_move_def)
  next
    case opened
    then obtain r1 where fill: "fill_mm_response an (put_query i (Some query) st1) i r1 = (r', st')" "calls = [?call]"
      using assms(3) Some id by (auto simp: handle_mm_list_request_def Let_def query_def split: prod.splits)
    have opens: "mm_move lb {#n#} st1 (put_query i (Some query) st1) [?call]"
      using open_query_move [OF wf1 slot _ query(3)] query opened assms(2) id1(4) by simp
    have wf2: "mm_wf lb (put_query i (Some query) st1)" using opens by (simp add: mm_move_def)
    note f = fill_mm_response_move [OF wf2 slot(1) fill(1)]
    have "mm_move lb {#n#} st st' [?call]"
      using mm_move_trans [OF mm_move_trans [OF move1 opens] conjunct1 [OF f]] by simp
    then show ?thesis using f id fill(2) by (simp add: mm_request_move_def put_query_def)
  qed
qed

lemma handle_mm_direct_request_move:
  assumes "mm_wf lb st" "mm_iface st" "handle_mm_direct_request lb an st q r = (r', st', calls)"
  shows "mm_request_move lb st st' calls"
proof (cases "free_mm_direct_slot st")
  case None
  then show ?thesis using assms mm_move_refl by (auto simp: handle_mm_direct_request_def mm_request_move_def)
next
  case (Some i)
  obtain n st1 where id: "take_mm_id st = (n, st1)" by (cases "take_mm_id st")
  note id1 = take_mm_id_move [OF id]
  have wf1: "mm_wf lb st1" and move1: "mm_move lb {#} st st1 []" using id1(6) assms(1) by (auto simp: mm_move_def)
  have slot: "i < 16" "mm_direct_queries st1 ! i = None" using Some assms(1) id1(3) by (auto simp: free_mm_direct_slot_def first_index_Some_iff mm_wf_def)
  define blank where "blank = \<lparr>dq_id = n, dq_type = mq_method q, dq_handle = lb_invalid lb, dq_event_read = 0, dq_event_write = 0,
    dq_events = replicate 128 blank_direct_event\<rparr>"
  define query where "query = (fold deliver_direct (ma_direct_callbacks an) blank)\<lparr>dq_handle := ma_direct_handle an\<rparr>"
  let ?call = "Direct_Requested (mq_method q) (mq_app_id q) (ucast (mq_query_id q)) (ma_direct_handle an)"
  have ok: "direct_ok (q\<lparr>dq_handle := h\<rparr>) = direct_ok q" for q h by (simp add: direct_ok_def ring_ok_def)
  have query: "dq_id query = n" "dq_handle query = ma_direct_handle an" "direct_ok query"
    using deliver_directs_keep [of "ma_direct_callbacks an" blank] blank_direct_ok by (simp_all add: query_def ok blank_def)
  have run: "handle_mm_direct_request lb an st q r =
      (if \<not> ma_allocated an then (r\<lparr>rp_status := - ENOMEM\<rparr>, st1, [])
       else if ma_direct_handle an = lb_invalid lb then
         (case retire_mm_direct_query lb (put_direct i (Some query) st1) i False of (st, cs) \<Rightarrow> (r\<lparr>rp_status := - EIO\<rparr>, st, ?call # cs))
       else (case fill_mm_direct_response lb (put_direct i (Some query) st1) i (r\<lparr>mr_query_id := n\<rparr>) of (r, st, cs) \<Rightarrow> (r, st, ?call # cs)))"
    unfolding handle_mm_direct_request_def Some id by (simp add: Let_def query_def blank_def)
  consider (memory) "\<not> ma_allocated an" | (refused) "ma_allocated an" "ma_direct_handle an = lb_invalid lb"
    | (opened) "ma_allocated an" "ma_direct_handle an \<noteq> lb_invalid lb" by blast
  then show ?thesis
  proof cases
    case memory
    then show ?thesis using assms(3) id mm_move_weaken [OF move1] by (auto simp: run mm_request_move_def)
  next
    case refused
    have "(mm_direct_queries st1)[i := None] = mm_direct_queries st1" by (metis list_update_id slot(2))
    then have "put_direct i None (put_direct i (Some query) st1) = st1" by (simp add: put_direct_def)
    moreover have "i < length (mm_direct_queries st1)" using slot wf1 by (simp add: mm_wf_def)
    ultimately have "retire_mm_direct_query lb (put_direct i (Some query) st1) i False = (st1, [])"
      by (simp add: retire_mm_direct_query_def put_direct_def)
    then have "st' = st1" "calls = [?call]" using assms(3) refused by (auto simp: run)
    moreover have "mm_move lb {#} st st1 [?call]" using move1 refused by (simp add: mm_move_def log_defs)
    ultimately show ?thesis using id mm_move_weaken by (auto simp: mm_request_move_def)
  next
    case opened
    then obtain r1 cs where fill: "fill_mm_direct_response lb (put_direct i (Some query) st1) i r1 = (r', st', cs)" "calls = ?call # cs"
      using assms(3) by (auto simp: run split: prod.splits)
    have opens: "mm_move lb {#n#} st1 (put_direct i (Some query) st1) [?call]"
      using open_direct_move [OF wf1 slot _ query(3)] query opened assms(2) id1(4) by simp
    have wf2: "mm_wf lb (put_direct i (Some query) st1)" using opens by (simp add: mm_move_def)
    note f = fill_mm_direct_response_move [OF wf2 slot(1) fill(1)]
    have "mm_move lb {#n#} st st' (?call # cs)"
      using mm_move_trans [OF mm_move_trans [OF move1 opens] conjunct1 [OF f]] by simp
    then show ?thesis using f id fill(2) by (simp add: mm_request_move_def put_direct_def)
  qed
qed

lemma handle_mm_request_move:
  assumes "mm_wf lb st" "handle_mm_request lb an st header q r = (r', st', calls)"
  shows "mm_request_move lb st st' calls"
proof -
  define st1 where "st1 = (if \<not> mm_iface st then st\<lparr>mm_iface := ma_iface an\<rparr> else st)"
  have "mm_iface st \<longrightarrow> mm_iface st1" by (simp add: st1_def)
  moreover have tables: "mm_queries st1 = mm_queries st" "mm_direct_queries st1 = mm_direct_queries st" "mm_next_id st1 = mm_next_id st" by (simp_all add: st1_def)
  ultimately have wf1: "mm_wf lb st1" using assms(1) unfolding mm_wf_def list_all_iff by (auto elim!: option.pred_mono_strong)
  have same: "held_lists st1 = held_lists st" "held_directs lb st1 = held_directs lb st" "mm_numbers st1 = mm_numbers st"
    "fst (take_mm_id st1) = fst (take_mm_id st)" "mm_next_id (snd (take_mm_id st1)) = mm_next_id (snd (take_mm_id st))"
    using tables by (simp_all add: held_lists_def held_directs_def mm_numbers_def take_mm_id_def Let_def)
  then have from1: "mm_request_move lb st1 st' calls \<Longrightarrow> mm_request_move lb st st' calls" using tables by (simp add: mm_request_move_def mm_move_def)
  have none: "mm_request_move lb st st []" "mm_request_move lb st1 st1 []" using mm_move_refl assms(1) wf1 by (auto simp: mm_request_move_def)
  consider (same) "calls = []" "st' = st" | (looked) "calls = []" "st' = st1"
    | (direct) r1 where "mm_iface st1" "handle_mm_direct_request lb an st1 q r1 = (r', st', calls)"
    | (list) r1 where "mm_iface st1" "handle_mm_list_request lb an st1 q r1 = (r', st', calls)"
    using assms(2) unfolding handle_mm_request_def Let_def st1_def [symmetric] by (auto split: if_splits)
  then show ?thesis
  proof cases
    case direct
    then show ?thesis using from1 handle_mm_direct_request_move [OF wf1] by blast
  next
    case list
    then show ?thesis using from1 handle_mm_list_request_move [OF wf1] by blast
  qed (use none from1 in auto)
qed

section \<open>The running handler\<close>

definition mm_inv :: "mm_library \<Rightarrow> bridge_mm_state \<times> mm_call list \<Rightarrow> bool" where
  "mm_inv lb s \<longleftrightarrow>
     (case s of (st, log) \<Rightarrow> mm_wf lb st \<and> opened_lists log = released_lists log + held_lists st \<and>
        cancelled_directs log + held_directs lb st \<subseteq># opened_directs lb log)"

lemma mm_move_inv:
  assumes "mm_inv lb (st, log)" "mm_move lb new st st' calls"
  shows "mm_inv lb (st', log @ calls)"
proof -
  have "cancelled_directs (log @ calls) + held_directs lb st' \<subseteq># cancelled_directs log + (opened_directs lb calls + held_directs lb st)"
    using assms(2) by (simp add: mm_move_def log_defs add.assoc)
  also have "\<dots> \<subseteq># opened_directs lb calls + opened_directs lb log"
    using assms(1) by (simp add: mm_inv_def add.left_commute [of "cancelled_directs log"])
  finally have "cancelled_directs (log @ calls) + held_directs lb st' \<subseteq># opened_directs lb (log @ calls)" by (simp add: log_defs ac_simps)
  moreover have "opened_lists (log @ calls) = released_lists log + (opened_lists calls + held_lists st)"
    using assms(1) by (simp add: mm_inv_def opened_lists_def ac_simps)
  then have "opened_lists (log @ calls) = released_lists (log @ calls) + held_lists st'"
    using assms(2) by (simp add: mm_move_def released_lists_def add.assoc)
  ultimately show ?thesis using assms(2) by (simp add: mm_inv_def mm_move_def)
qed

lemma mm_step_move:
  assumes "mm_step lb (st, log) (st', log')" "mm_wf lb st"
  shows "\<exists>calls. log' = log @ calls \<and> mm_request_move lb st st' calls"
  using assms(1)
proof (cases rule: mm_step.cases)
  case (request an header q r r' calls)
  then show ?thesis using handle_mm_request_move [OF assms(2)] by blast
next
  case (call an header q r r' calls)
  then show ?thesis using handle_mm_call_move [OF assms(2)] by (auto simp: mm_request_move_def)
next
  case (list_event i query cb)
  then have q: "i < 16" "mm_queries st ! i = Some query" by auto
  have "mm_move lb {#} st st' []" "mm_next_id st' = mm_next_id st"
    using update_query_move [OF assms(2) q] deliver_list_keeps [where cb = cb and q = query] mm_wf_query(3) [OF assms(2) q] list_event by (auto simp: put_query_def)
  then show ?thesis using list_event by (auto simp: mm_request_move_def)
next
  case (direct_event i query cb)
  then have q: "i < 16" "mm_direct_queries st ! i = Some query" by auto
  have "mm_move lb {#} st st' []" "mm_next_id st' = mm_next_id st"
    using update_direct_move [OF assms(2) q] deliver_direct_keeps [where cb = cb and q = query] mm_wf_direct(3) [OF assms(2) q] direct_event by (auto simp: put_direct_def)
  then show ?thesis using direct_event by (auto simp: mm_request_move_def)
qed

lemma sum_list_nothing [simp]: "sum_list (replicate n ({#} :: 'a multiset)) = {#}"
  by (induction n) simp_all

lemma initial_mm_inv: "mm_inv lb (initial_mm_state, [])"
  by (simp add: mm_inv_def mm_wf_def initial_mm_state_def held_lists_def held_directs_def log_defs list_part_def direct_part_def list_all_iff)

interpretation mm: transition_system "(initial_mm_state, [])" "mm_step lb" "mm_inv lb" for lb
proof unfold_locales
  show "mm_inv lb (initial_mm_state, [])" by (rule initial_mm_inv)
  show "mm_inv lb t" if a: "mm_inv lb s" "mm_step lb s t" for s t
  proof -
    obtain st log st' log' where s: "s = (st, log)" "t = (st', log')" by (metis surj_pair)
    then obtain calls where "log' = log @ calls" "mm_request_move lb st st' calls" using mm_step_move [of lb st log st' log'] a by (auto simp: mm_inv_def)
    then show ?thesis using mm_move_inv a(1) s by (auto simp: mm_request_move_def)
  qed
qed

lemma cleanup_calls:
  "released_lists (concat (map (\<lambda>e. case e of None \<Rightarrow> [] | Some q \<Rightarrow> if lq_handle q \<noteq> 0 then [List_Released (lq_handle q)] else []) qs)) = sum_list (map list_part qs)"
  "opened_lists (concat (map (\<lambda>e. case e of None \<Rightarrow> [] | Some q \<Rightarrow> if lq_handle q \<noteq> 0 then [List_Released (lq_handle q)] else []) qs)) = {#}"
  "opened_directs lb (concat (map (\<lambda>e. case e of None \<Rightarrow> [] | Some q \<Rightarrow> if lq_handle q \<noteq> 0 then [List_Released (lq_handle q)] else []) qs)) = {#}"
  "cancelled_directs (concat (map (\<lambda>e. case e of None \<Rightarrow> [] | Some q \<Rightarrow> if lq_handle q \<noteq> 0 then [List_Released (lq_handle q)] else []) qs)) = {#}"
  by (induction qs) (auto simp: log_defs list_part_def split: option.split)

lemma cleanup_direct_calls:
  "cancelled_directs (concat (map (\<lambda>e. case e of None \<Rightarrow> [] | Some q \<Rightarrow> if dq_handle q \<noteq> lb_invalid lb then [Direct_Cancelled (dq_handle q)] else []) ds)) =
     sum_list (map (direct_part lb) ds)"
  "opened_lists (concat (map (\<lambda>e. case e of None \<Rightarrow> [] | Some q \<Rightarrow> if dq_handle q \<noteq> lb_invalid lb then [Direct_Cancelled (dq_handle q)] else []) ds)) = {#}"
  "opened_directs lb (concat (map (\<lambda>e. case e of None \<Rightarrow> [] | Some q \<Rightarrow> if dq_handle q \<noteq> lb_invalid lb then [Direct_Cancelled (dq_handle q)] else []) ds)) = {#}"
  "released_lists (concat (map (\<lambda>e. case e of None \<Rightarrow> [] | Some q \<Rightarrow> if dq_handle q \<noteq> lb_invalid lb then [Direct_Cancelled (dq_handle q)] else []) ds)) = {#}"
  by (induction ds) (auto simp: log_defs direct_part_def split: option.split)

lemma log_append:
  "opened_lists (log @ log') = opened_lists log + opened_lists log'" "released_lists (log @ log') = released_lists log + released_lists log'"
  "opened_directs lb (log @ log') = opened_directs lb log + opened_directs lb log'" "cancelled_directs (log @ log') = cancelled_directs log + cancelled_directs log'"
  by (simp_all add: log_defs)

lemma cleanup_opens_nothing: "cleanup_mm_state lb st = (st', calls) \<Longrightarrow> opened_lists calls = {#}"
  by (auto simp: cleanup_mm_state_def log_append cleanup_calls cleanup_direct_calls opened_lists_def [of "[]"] split: if_splits)

text \<open>
  C37. The matchmaking handler gives back what it takes. In every state it can reach, through any requests, calls and callbacks, and whatever the library answers, its tables hold only
  queries that are open, with queues inside their bounds whose entries show only visible servers and data of at most the size of a response; the lists of servers
  opened are those released and those in the table; no question is cancelled that is not open. When the server shuts down every list opened has been released, once.
\<close>

theorem mm_handles_released:
  assumes "(mm_step lb)\<^sup>*\<^sup>* (initial_mm_state, []) (st, log)" and "cleanup_mm_state lb st = (st', calls)"
  shows "mm_wf lb st \<and> opened_lists log = released_lists log + held_lists st \<and> opened_lists (log @ calls) = released_lists (log @ calls) \<and>
    cancelled_directs (log @ calls) \<subseteq># opened_directs lb (log @ calls) \<and> set (mm_queries st') = {None} \<and> set (mm_direct_queries st') = {None}"
proof -
  have inv: "mm_wf lb st" "opened_lists log = released_lists log + held_lists st" "cancelled_directs log + held_directs lb st \<subseteq># opened_directs lb log"
    using mm.reachable_inv [OF assms(1)] by (simp_all add: mm_inv_def)
  show ?thesis
  proof (cases "mm_iface st")
    case True
    then have "opened_lists (log @ calls) = released_lists (log @ calls)" "cancelled_directs (log @ calls) \<subseteq># opened_directs lb (log @ calls)"
      using assms(2) inv by (auto simp: cleanup_mm_state_def log_append cleanup_calls cleanup_direct_calls held_lists_def held_directs_def)
    moreover have "mm_queries st \<noteq> []" "mm_direct_queries st \<noteq> []" using inv(1) by (auto simp: mm_wf_def)
    then have "set (mm_queries st') = {None}" "set (mm_direct_queries st') = {None}"
      using True assms(2) by (auto simp: cleanup_mm_state_def neq_Nil_conv)
    ultimately show ?thesis using inv by simp
  next
    case False
    then have none: "\<forall>e \<in> set (mm_queries st). e = None" "\<forall>e \<in> set (mm_direct_queries st). e = None"
      using inv(1) by (auto simp: mm_wf_def list_all_iff) (metis not_Some_eq option.pred_inject(2))+
    then have "map list_part (mm_queries st) = map (\<lambda>_. {#}) (mm_queries st)" by (auto simp: list_part_def)
    then have "held_lists st = {#}" by (simp add: held_lists_def map_replicate_const)
    moreover have "mm_queries st \<noteq> []" "mm_direct_queries st \<noteq> []" using inv(1) by (auto simp: mm_wf_def)
    then have "set (mm_queries st) = {None}" "set (mm_direct_queries st) = {None}" using none by (auto simp: neq_Nil_conv)
    moreover have "cancelled_directs log \<subseteq># opened_directs lb log" using inv(3) by (metis mset_subset_eq_add_left subset_mset.order_trans)
    ultimately show ?thesis using False assms(2) inv by (simp add: cleanup_mm_state_def)
  qed
qed

abbreviation demo_library :: mm_library where
  "demo_library \<equiv> \<lparr>lb_filter_size = 256, lb_invalid = - 1\<rparr>"

definition demo_mm_answers :: mm_answers where
  "demo_mm_answers = \<lparr>ma_iface = True, ma_allocated = True, ma_list_handle = 7, ma_list_callbacks = [Server_Responded 3], ma_direct_handle = 9,
     ma_direct_callbacks = [], ma_server_count = 1, ma_refreshing = True, ma_item = None\<rparr>"

definition demo_mm_request :: "u32 \<Rightarrow> u32 \<Rightarrow> lsteam_bridge_mm_request" where
  "demo_mm_request method query = \<lparr>mq_method = method, mq_app_id = 224260, mq_query_id = query, mq_argument = 0, mq_filter_count = 0, mq_filters = []\<rparr>"

theorem mm_handles_released_witness:
  "\<exists>st log st' calls. (mm_step demo_library)\<^sup>*\<^sup>* (initial_mm_state, []) (st, log) \<and> cleanup_mm_state demo_library st = (st', calls) \<and>
     opened_lists (log @ calls) = {#7#} \<and> released_lists (log @ calls) = {#7#} \<and> set (mm_queries st') = {None}"
proof -
  obtain r st log where run: "handle_mm_request demo_library demo_mm_answers initial_mm_state (bridge_request LSTEAM_BRIDGE_MATCHMAKING_REQUEST) (demo_mm_request 0 0)
      blank_mm_response = (r, st, log)" by (metis prod_cases3)
  have slot: "free_mm_slot (initial_mm_state\<lparr>mm_iface := True\<rparr>) = Some 0" by (simp add: free_mm_slot_def initial_mm_state_def numeral_eq_Suc)
  have log: "log = [List_Requested 0 224260 [] 7]"
    using run slot by (auto simp: handle_mm_request_def handle_mm_list_request_def demo_mm_request_def demo_mm_answers_def Let_def native_filters_def initial_mm_state_def
        split: prod.splits)
  have reach: "(mm_step demo_library)\<^sup>*\<^sup>* (initial_mm_state, []) (st, log)" using mm_step.request [OF run, of "[]"] by auto
  obtain st' calls where clean: "cleanup_mm_state demo_library st = (st', calls)" by (cases "cleanup_mm_state demo_library st")
  note all = mm_handles_released [OF reach clean]
  have "opened_lists calls = {#}" by (rule cleanup_opens_nothing [OF clean])
  then have "opened_lists (log @ calls) = {#7#}" by (simp add: log_append) (simp add: log opened_lists_def)
  then show ?thesis using reach clean all by metis
qed

text \<open>
  Numbers are unique while the counter has not wrapped around, so a number finds its query.
\<close>

lemma mm_numbers_below:
  assumes "(mm_step lb ^^ n) (initial_mm_state, []) (st, log)" "n < 2 ^ 32 - 1"
  shows "mm_inv lb (st, log) \<and> unat (mm_next_id st) \<le> Suc n \<and> mm_next_id st \<noteq> 0 \<and> (\<forall>k. count (mm_numbers st) k \<le> 1) \<and> (\<forall>k \<in># mm_numbers st. k < mm_next_id st)"
  using assms
proof (induction n arbitrary: st log)
  case 0
  then have "st = initial_mm_state" "log = []" by auto
  then show ?case using initial_mm_inv by (simp add: mm_numbers_def) (simp add: initial_mm_state_def)
next
  case (Suc n)
  from Suc.prems(1) obtain st1 log1 where s: "(mm_step lb ^^ n) (initial_mm_state, []) (st1, log1)" "mm_step lb (st1, log1) (st, log)" by auto
  have ih: "mm_inv lb (st1, log1)" "unat (mm_next_id st1) \<le> Suc n" "mm_next_id st1 \<noteq> 0" "\<And>k. count (mm_numbers st1) k \<le> 1"
    "\<And>k. k \<in># mm_numbers st1 \<Longrightarrow> k < mm_next_id st1" using Suc.IH [OF s(1)] Suc.prems(2) by auto
  then obtain calls where m: "log = log1 @ calls" "mm_request_move lb st1 st calls" using mm_step_move [OF s(2)] by (auto simp: mm_inv_def)
  have inv: "mm_inv lb (st, log)" using mm_move_inv [OF ih(1)] m by (auto simp: mm_request_move_def)
  let ?n = "mm_next_id st1"
  have taken: "fst (take_mm_id st1) = ?n" "mm_next_id (snd (take_mm_id st1)) = ?n + 1" using ih(3) by (simp_all add: take_mm_id_def Let_def)
  have "unat ?n + unat (1 :: u32) < 2 ^ 32" using ih(2) Suc.prems(2) by simp
  then have up: "unat (?n + 1) = Suc (unat ?n)" using unat_add_lem [of ?n "1 :: u32"] by simp
  have fresh: "count (mm_numbers st1) ?n = 0" using ih(5) [of ?n] by (auto simp: count_eq_zero_iff)
  from m(2) consider (same) "mm_next_id st = ?n" "mm_numbers st \<subseteq># mm_numbers st1" | (new) "mm_next_id st = ?n + 1" "mm_numbers st \<subseteq># {#?n#} + mm_numbers st1"
    by (auto simp: mm_request_move_def mm_move_def taken)
  then show ?case
  proof cases
    case same
    then show ?thesis using ih inv by (metis (no_types, lifting) le_SucI le_trans mset_subset_eq_count mset_subset_eqD)
  next
    case new
    have "count (mm_numbers st) k \<le> 1" for k
      using mset_subset_eq_count [OF new(2), of k] ih(4) [of k] fresh by (auto split: if_splits)
    moreover have "k < ?n + 1" if "k \<in># mm_numbers st" for k
      using mset_subset_eqD [OF new(2) that] ih(5) [of k] up by (auto simp: word_less_nat_alt)
    moreover have "?n + 1 \<noteq> 0" using up by auto
    ultimately show ?thesis using inv new(1) up ih(2) by simp
  qed
qed

interpretation list_table: slot_table mm_queries "\<lambda>e. e \<noteq> None" "\<lambda>e. lq_id (the e)" find_mm_query free_mm_slot
  by unfold_locales (auto simp: find_mm_query_def free_mm_slot_def intro!: arg_cong [where f = "\<lambda>P. first_index P _"] split: option.split)

interpretation direct_table: slot_table mm_direct_queries "\<lambda>e. e \<noteq> None" "\<lambda>e. dq_id (the e)" find_mm_direct_query free_mm_direct_slot
  by unfold_locales (auto simp: find_mm_direct_query_def free_mm_direct_slot_def intro!: arg_cong [where f = "\<lambda>P. first_index P _"] split: option.split)

lemma sum_list_member: "i < length xs \<Longrightarrow> f (xs ! i) \<subseteq># sum_list (map f xs)" for f :: "'a \<Rightarrow> 'b multiset"
  by (induction xs arbitrary: i) (auto simp: nth_Cons' intro: subset_mset.add_increasing)

lemma sum_list_members:
  fixes f :: "'a \<Rightarrow> 'b multiset"
  assumes "i < length xs" "j < length xs" "i \<noteq> j"
  shows "f (xs ! i) + f (xs ! j) \<subseteq># sum_list (map f xs)"
  using assms
proof (induction xs arbitrary: i j)
  case (Cons x xs)
  then show ?case
    using sum_list_member [of "i - 1" xs f] sum_list_member [of "j - 1" xs f]
    by (cases i; cases j) (auto simp: add.commute intro: subset_mset.add_increasing)
qed simp

lemma slots_unique_count:
  assumes "\<And>k. count (sum_list (map (\<lambda>e. case e of None \<Rightarrow> {#} | Some q \<Rightarrow> {#key q#}) xs)) k \<le> 1"
  shows "slots_unique (\<lambda>e. e \<noteq> None) (\<lambda>e. key (the e)) xs"
proof -
  let ?f = "\<lambda>e. case e of None \<Rightarrow> {#} | Some q \<Rightarrow> {#key q#}"
  have "i = j" if ij: "i < length xs" "j < length xs" "xs ! i = Some p" "xs ! j = Some q" "key p = key q" for i j p q
  proof (rule ccontr)
    assume "i \<noteq> j"
    from mset_subset_eq_count [OF sum_list_members [OF ij(1,2) this, of ?f], of "key p"] ij have "2 \<le> count (sum_list (map ?f xs)) (key p)" by simp
    then show False using assms [of "key p"] by simp
  qed
  then show ?thesis unfolding slots_unique_def by fastforce
qed

text \<open>
  As long as the counter has not wrapped around, the number a client was given finds its query and nothing else.
\<close>

theorem mm_number_finds_query:
  assumes "(mm_step lb ^^ n) (initial_mm_state, []) (st, log)" "n < 2 ^ 32 - 1" "i < 16"
  shows "(mm_queries st ! i = Some q \<longrightarrow> find_mm_query st (lq_id q) = Some i \<and> find_mm_direct_query st (lq_id q) = None) \<and>
    (mm_direct_queries st ! i = Some d \<longrightarrow> find_mm_direct_query st (dq_id d) = Some i \<and> find_mm_query st (dq_id d) = None)"
proof -
  have once: "count (mm_numbers st) k \<le> 1" for k using mm_numbers_below [OF assms(1,2)] by blast
  have wf: "mm_wf lb st" using mm_numbers_below [OF assms(1,2)] by (simp add: mm_inv_def)
  let ?l = "\<lambda>e. case e of None \<Rightarrow> {#} | Some q \<Rightarrow> {#lq_id q#}"
  let ?d = "\<lambda>e. case e of None \<Rightarrow> {#} | Some q \<Rightarrow> {#dq_id q#}"
  have sums: "count (sum_list (map ?l (mm_queries st))) k + count (sum_list (map ?d (mm_direct_queries st))) k \<le> 1" for k
    using once [of k] by (simp add: mm_numbers_def)
  have "count (sum_list (map ?l (mm_queries st))) k \<le> 1" "count (sum_list (map ?d (mm_direct_queries st))) k \<le> 1" for k using sums [of k] by simp_all
  note unique = slots_unique_count [OF this(1)] slots_unique_count [OF this(2)]
  have one: "find_mm_direct_query st (lq_id q) = None" if "i < 16" "mm_queries st ! i = Some q" for i q
  proof (rule ccontr)
    assume "find_mm_direct_query st (lq_id q) \<noteq> None"
    then obtain j p where j: "j < 16" "mm_direct_queries st ! j = Some p" "dq_id p = lq_id q" using found_direct [OF _ wf] by blast
    have "1 \<le> count (sum_list (map ?l (mm_queries st))) (lq_id q)" "1 \<le> count (sum_list (map ?d (mm_direct_queries st))) (lq_id q)"
      using mset_subset_eq_count [OF sum_list_member [of i "mm_queries st" ?l], of "lq_id q"]
        mset_subset_eq_count [OF sum_list_member [of j "mm_direct_queries st" ?d], of "lq_id q"] that j wf by (simp_all add: mm_wf_def)
    then show False using sums [of "lq_id q"] by linarith
  qed
  have other: "find_mm_query st (dq_id d) = None" if "i < 16" "mm_direct_queries st ! i = Some d" for i d
  proof (rule ccontr)
    assume "find_mm_query st (dq_id d) \<noteq> None"
    then obtain j p where "j < 16" "mm_queries st ! j = Some p" "lq_id p = dq_id d" using found_query [OF _ wf] by blast
    then have "find_mm_direct_query st (dq_id d) = None" using one by metis
    moreover have "find_mm_direct_query st (dq_id d) = Some i" using direct_table.lookup_unique [OF unique(2), of i] that wf by (simp add: mm_wf_def)
    ultimately show False by simp
  qed
  show ?thesis
    using list_table.lookup_unique [OF unique(1), of i] direct_table.lookup_unique [OF unique(2), of i] one [OF assms(3)] other [OF assms(3)] assms(3) wf
    by (auto simp: mm_wf_def)
qed

section \<open>Delivery\<close>

text \<open>
  C38. The answers of a server reach the client in the order they came, through a ring whose counters wrap around: events delivered to a question are appended to those
  waiting, as long as there is room for 128, and a pump hands out the oldest with all its data and leaves the others; the last event of a question ends it.
\<close>

theorem direct_events_in_order:
  assumes "mm_wf lb st" "find_mm_query st (mq_query_id m) = None" "find_mm_direct_query st (mq_query_id m) = Some i" "mm_direct_queries st ! i = Some q"
    and "mq_method m = 17" "mm_response_ok r" and "handle_mm_call lb an st header m r = (r', st', calls)"
  shows "(\<forall>es. ring_items (fold direct_push es q) = ring_items q @ take (128 - length (ring_items q)) es) \<and>
    (case ring_items q of
       [] \<Rightarrow> st' = st \<and> r' = (stamp header r)\<lparr>mr_query_id := mq_query_id m\<rparr>
     | e # es \<Rightarrow> mr_query_id r' = mq_query_id m \<and> mr_event_kind r' = de_kind e \<and> mr_event_index r' = de_argument e \<and> mr_event_response r' = de_value e \<and>
         mr_data_size r' = de_data_size e \<and> take (unat (de_data_size e)) (mr_data r') = take (unat (de_data_size e)) (de_data e) \<and>
         (if last_event e then mm_direct_queries st' ! i = None else \<exists>q'. mm_direct_queries st' ! i = Some q' \<and> ring_items q' = es))"
proof -
  have i: "i < 16" "dq_id q = mq_query_id m" using found_direct [OF assms(3,1)] assms(4) by auto
  have ok: "direct_ok q" using mm_wf_direct(3) [OF assms(1) i(1) assms(4)] .
  then have ring: "ring_ok q" and sizes: "unat (de_data_size (dq_events q ! k)) \<le> 1024 \<and> length (de_data (dq_events q ! k)) = 1024" if "k < 128" for k
    using that by (auto simp: direct_ok_def ring_ok_def list_all_length)
  have fill: "fill_mm_direct_response lb st i (stamp header r) = (r', st', calls)" using assms(2,3,5,7) by (simp add: handle_mm_call_def)
  have len: "i < length (mm_direct_queries st)" "length (mr_data (stamp header r)) = 1024" using assms(1,6) i by (simp_all add: mm_wf_def mm_response_ok_def stamp_def)
  have appended: "ring_items (fold direct_push es q) = ring_items q @ take (128 - length (ring_items q)) es" for es
    using ring_queue.push_all [of q es] ok by (simp add: direct_ok_def)
  obtain x q' where pop: "direct_pop q = (x, q')" by (cases "direct_pop q")
  have items: "ring_items q = (case x of None \<Rightarrow> [] | Some e \<Rightarrow> e # ring_items q')" using ring_pop [of q] ok pop by (simp add: direct_ok_def split: option.splits)
  show ?thesis
  proof (cases x)
    case None
    then show ?thesis using appended fill items pop assms(4) i(2) by (simp add: fill_mm_direct_response_def)
  next
    case (Some e)
    then have e: "e = dq_events q ! unat (dq_event_read q mod 128)" using pop by (auto simp: direct_pop_def split: if_splits)
    have "unat (dq_event_read q mod 128) < 128" by (simp add: unat_mod)
    then have size: "unat (de_data_size e) \<le> 1024" "length (de_data e) = 1024" using sizes e by auto
    let ?bytes = "take (unat (de_data_size e)) (de_data e)"
    have data: "take (unat (de_data_size e)) (store_bytes (mr_data (stamp header r)) ?bytes) = ?bytes"
      using take_store_bytes [of ?bytes "mr_data (stamp header r)"] size len(2) by simp
    have run: "r' = (stamp header r)\<lparr>mr_query_id := mq_query_id m, mr_event_kind := de_kind e, mr_event_index := de_argument e, mr_event_response := de_value e,
        mr_data_size := de_data_size e, mr_data := store_bytes (mr_data (stamp header r)) ?bytes\<rparr>"
      "mm_direct_queries st' ! i = (if last_event e then None else Some q')"
      using fill pop Some assms(4) i(2) len(1)
      by (auto simp: fill_mm_direct_response_def Let_def retire_mm_direct_query_def put_direct_def split: if_splits)
    then show ?thesis using appended items Some data by simp
  qed
qed

definition demo_question :: bridge_mm_direct_query where
  "demo_question = direct_push (direct_event 8 0 0 None 0) (direct_push (direct_event 6 3 0 (Some [65, 0]) 2)
     \<lparr>dq_id = 5, dq_type = 14, dq_handle = 9, dq_event_read = - 1, dq_event_write = - 1, dq_events = replicate 128 blank_direct_event\<rparr>)"

theorem direct_events_in_order_witness:
  "\<exists>st r' st' calls. handle_mm_call demo_library demo_mm_answers st (bridge_request LSTEAM_BRIDGE_MATCHMAKING_CALL) (demo_mm_request 17 5) blank_mm_response = (r', st', calls) \<and>
     mm_direct_queries st ! 0 = Some demo_question \<and> mr_event_kind r' = 6 \<and> take 2 (mr_data r') = [65, 0] \<and>
     (\<exists>q'. mm_direct_queries st' ! 0 = Some q' \<and> map de_kind (ring_items q') = [8])"
proof -
  let ?st = "put_direct 0 (Some demo_question) (initial_mm_state\<lparr>mm_iface := True\<rparr>)"
  let ?blank = "\<lparr>dq_id = 5, dq_type = 14, dq_handle = 9, dq_event_read = - 1, dq_event_write = - 1, dq_events = replicate 128 blank_direct_event\<rparr>"
  let ?e = "direct_event 6 3 0 (Some [65, 0]) 2" and ?f = "direct_event 8 0 0 None 0"
  have blank: "direct_ok ?blank" "ring_items ?blank = []" by (simp_all add: direct_ok_def ring_ok_def ring_items_def blank_direct_event_def list_all_iff)
  have q: "direct_ok demo_question" "dq_id demo_question = 5" "dq_handle demo_question = 9"
    using blank direct_push_ok [OF _ direct_event_ok] by (simp_all add: demo_question_def) (simp_all add: direct_push_def)
  have "ring_ok ?blank" using blank(1) by (simp add: direct_ok_def)
  then have items: "ring_items demo_question = [?e, ?f]" using ring_push [of ?blank ?e] ring_push [of "direct_push ?e ?blank" ?f] blank(2) by (simp add: demo_question_def)
  have wf: "mm_wf demo_library ?st"
    using q by (intro put_direct_wf) (simp_all add: mm_wf_def initial_mm_state_def list_all_iff)
  have m: "mq_query_id (demo_mm_request 17 5) = 5" "mq_method (demo_mm_request 17 5) = 17" by (simp_all add: demo_mm_request_def)
  have find: "find_mm_query ?st (mq_query_id (demo_mm_request 17 5)) = None" "find_mm_direct_query ?st (mq_query_id (demo_mm_request 17 5)) = Some 0" "mm_direct_queries ?st ! 0 = Some demo_question"
    using q by (simp_all add: m find_mm_query_def find_mm_direct_query_def initial_mm_state_def put_direct_def first_index_None_iff numeral_eq_Suc)
  obtain r' st' calls where run: "handle_mm_call demo_library demo_mm_answers ?st (bridge_request LSTEAM_BRIDGE_MATCHMAKING_CALL) (demo_mm_request 17 5) blank_mm_response =
      (r', st', calls)" by (metis prod_cases3)
  have r: "mm_response_ok blank_mm_response" by (simp add: mm_response_ok_def blank_mm_response_def)
  have e: "de_kind ?e = 6" "de_data_size ?e = 2" "take 2 (de_data ?e) = [65, 0]" "de_kind ?f = 8" "\<not> last_event ?e"
    by (simp_all add: direct_event_def blank_direct_event_def last_event_def store_bytes_def)
  from direct_events_in_order [OF wf find m(2) r run] items e
  have "mr_event_kind r' = 6" "take 2 (mr_data r') = [65, 0]" "\<exists>q'. mm_direct_queries st' ! 0 = Some q' \<and> map de_kind (ring_items q') = [8]" by auto
  then show ?thesis using run find(3) by (intro exI [of _ ?st] exI [of _ r'] exI [of _ st'] exI [of _ calls]) simp
qed

section \<open>In the server\<close>

text \<open>The handlers with matchmaking as modelled; its state is the first part of theirs.\<close>

definition matchmaking_handlers :: "mm_library \<Rightarrow> mm_answers \<Rightarrow> 'h bridge_handlers \<Rightarrow> (bridge_mm_state \<times> 'h) bridge_handlers" where
  "matchmaking_handlers lb an rest =
     \<lparr>hd_interface = \<lambda>opcode (mm, h) g q r. (case hd_interface rest opcode h g q r of (r, g, h) \<Rightarrow> (r, g, mm, h)),
      hd_game_server = \<lambda>(mm, h) g q r. (case hd_game_server rest h g q r of (r, g, h) \<Rightarrow> (r, g, mm, h)),
      hd_voice = \<lambda>(mm, h) q r. (case hd_voice rest h q r of (r, h) \<Rightarrow> (r, mm, h)),
      hd_mm_request = \<lambda>(mm, h) request q r. (case handle_mm_request lb an mm request q r of (r, mm, calls) \<Rightarrow> (r, mm, h)),
      hd_html_initialized = \<lambda>(mm, h). hd_html_initialized rest h,
      hd_mm_call = \<lambda>(mm, h) request q r. (case handle_mm_call lb an mm request q r of (r, mm, calls) \<Rightarrow> (r, mm, h))\<rparr>"

definition mm_handled :: "lsteam_bridge_request \<Rightarrow> lsteam_bridge_mm_response \<Rightarrow> bool" where
  "mm_handled request r \<longleftrightarrow> stamped (rq_opcode request) (rq_sequence request) r \<and> mm_response_ok r"

lemma fill_handled:
  "mm_handled request r \<Longrightarrow> mm_handled request (fst (fill_mm_response an st i r))" "mm_handled request r \<Longrightarrow> mm_handled request (fst (fill_mm_direct_response lb st i r))"
  by (auto simp: fill_mm_response_def fill_mm_direct_response_def mm_handled_def stamped_def mm_response_ok_def Let_def split: option.split prod.split)

lemma update_handled:
  "mm_handled request r \<Longrightarrow> mm_handled request (r\<lparr>rp_status := e\<rparr>)" "mm_handled request r \<Longrightarrow> mm_handled request (r\<lparr>mr_query_id := n\<rparr>)"
  "mm_handled request r \<Longrightarrow> mm_handled request (r\<lparr>mr_data := store_bytes (mr_data r) b, mr_data_size := k\<rparr>)"
  "mm_response_ok r \<Longrightarrow> mm_handled request (stamp request r)"
  by (simp_all add: mm_handled_def stamped_def mm_response_ok_def stamp_def)

lemma requests_handled:
  assumes "mm_handled request r"
  shows "mm_handled request (fst (handle_mm_direct_request lb an st q r))" "mm_handled request (fst (handle_mm_list_request lb an st q r))"
    "mm_handled request (fst (handle_mm_list_call an st i handle q r))"
  using assms fill_handled update_handled
  by (auto simp: handle_mm_direct_request_def handle_mm_list_request_def handle_mm_list_call_def Let_def case_prod_unfold split: option.split)

lemma mm_request_handled: "mm_response_ok r \<Longrightarrow> mm_handled request (fst (handle_mm_request lb an st request q r))"
  using update_handled requests_handled by (auto simp: handle_mm_request_def Let_def)

lemma mm_call_handled: "mm_response_ok r \<Longrightarrow> mm_handled request (fst (handle_mm_call lb an st request q r))"
  using update_handled requests_handled fill_handled by (auto simp: handle_mm_call_def Let_def case_prod_unfold split: option.split)

theorem matchmaking_handlers_ok:
  assumes "handlers_ok rest"
  shows "handlers_ok (matchmaking_handlers lb an rest)"
  using assms mm_request_handled mm_call_handled unfolding handlers_ok_def matchmaking_handlers_def mm_handled_def
  by (auto simp: case_prod_unfold)

end
