(* ===== verification/Tgc_Bridge_Startup.thy ===== *)
theory Tgc_Bridge_Startup
  imports Tgc_Bridge_Transfer_Props Tgc_Bridge_Mm_Props
begin

text \<open>
  How \<^verbatim>\<open>server.cpp\<close> finds what it needs in the Steam library when it starts: the functions it cannot do without, then the client and its interfaces, some of them in two ways; and
  which interface the handler of an opcode is given. A pointer is whether it is there; \<open>found\<close> says which look-ups succeed.
\<close>

section \<open>Functions of the library\<close>

definition required_symbols :: "string list" where
  "required_symbols =
     [''Steam_CreateSteamPipe'', ''Steam_ConnectToGlobalUser'', ''Steam_CreateLocalUser'', ''Steam_BLoggedOn'', ''Steam_ReleaseUser'', ''Steam_BReleaseSteamPipe'',
      ''CreateInterface'', ''Steam_BGetCallback'', ''Steam_FreeLastCallback'', ''Steam_GetAPICallResult'']"

text \<open>Looked up one after another: at the first that is missing the process ends. The result is the name of that one, and the names that were looked up.\<close>

fun require_symbol :: "(string \<Rightarrow> bool) \<Rightarrow> string list \<Rightarrow> string option \<times> string list" where
  "require_symbol defined [] = (None, [])"
| "require_symbol defined (name # names) =
     (if \<not> defined name then (Some name, [name]) else case require_symbol defined names of (missing, tried) \<Rightarrow> (missing, name # tried))"

lemma require_symbol_missing: "fst (require_symbol defined names) = None \<longleftrightarrow> (\<forall>name \<in> set names. defined name)"
  by (induction names) (auto simp: case_prod_unfold)

section \<open>Interfaces\<close>

datatype steam_interface =
    Steam_Client | Steam_User | Steam_Friends | Steam_Utils | Steam_Remote_Storage | Steam_Networking | Steam_User_Stats | Steam_Apps | Steam_HTTP | Steam_Inventory
  | Steam_Game_Search | Steam_App_List | Steam_Video | Steam_Parental | Steam_Network_Messages | Steam_Network_Sockets | Steam_Network_Utils | Steam_UGC14 | Steam_UGC15
  | Steam_Lobby | Steam_HTML | Steam_App_Ticket

text \<open>The ways to an interface: \<^verbatim>\<open>CreateInterface\<close>, the client's own function for it, the client's \<^verbatim>\<open>GetISteamGenericInterface\<close>.\<close>

datatype lookup = Created steam_interface | Getter steam_interface | Generic steam_interface

text \<open>Ways tried until one succeeds, with the tries made.\<close>

fun first_found :: "(lookup \<Rightarrow> bool) \<Rightarrow> lookup list \<Rightarrow> bool \<times> lookup list" where
  "first_found found [] = (False, [])"
| "first_found found (l # ls) = (if found l then (True, [l]) else case first_found found ls of (ok, tried) \<Rightarrow> (ok, l # tried))"

text \<open>What is asked of the client, in this order.\<close>

definition client_lookups :: "(steam_interface \<times> lookup list) list" where
  "client_lookups =
     map (\<lambda>i. (i, [Getter i]))
       [Steam_User, Steam_Friends, Steam_Utils, Steam_Remote_Storage, Steam_Networking, Steam_User_Stats, Steam_Apps, Steam_HTTP, Steam_Inventory, Steam_Game_Search,
        Steam_App_List, Steam_Video, Steam_Parental] @
     map (\<lambda>i. (i, [Generic i, Created i])) [Steam_Network_Messages, Steam_Network_Sockets, Steam_Network_Utils] @
     map (\<lambda>i. (i, [Getter i])) [Steam_UGC14, Steam_UGC15, Steam_Lobby, Steam_HTML] @
     [(Steam_App_Ticket, [Generic Steam_App_Ticket])]"

text \<open>Rows of such ways: the interfaces that are found, and the tries made.\<close>

definition found_rows :: "(lookup \<Rightarrow> bool) \<Rightarrow> (steam_interface \<times> lookup list) list \<Rightarrow> steam_interface list" where
  "found_rows found rows = map fst (filter (\<lambda>(i, ls). fst (first_found found ls)) rows)"

definition tried_rows :: "(lookup \<Rightarrow> bool) \<Rightarrow> (steam_interface \<times> lookup list) list \<Rightarrow> lookup list" where
  "tried_rows found rows = concat (map (\<lambda>(i, ls). snd (first_found found ls)) rows)"

text \<open>The interfaces that are there in the end, and all the look-ups made: the interface of tickets is also tried without the client.\<close>

definition find_interfaces :: "(lookup \<Rightarrow> bool) \<Rightarrow> steam_interface list \<times> lookup list" where
  "find_interfaces found =
     (let client = found (Created Steam_Client);
          rows = (if client then client_lookups else []);
          there = (if client then [Steam_Client] else []) @ found_rows found rows;
          tried = Created Steam_Client # tried_rows found rows
      in if Steam_App_Ticket \<in> set there then (there, tried)
         else (if found (Created Steam_App_Ticket) then there @ [Steam_App_Ticket] else there, tried @ [Created Steam_App_Ticket]))"

abbreviation interface_there :: "(lookup \<Rightarrow> bool) \<Rightarrow> steam_interface \<Rightarrow> bool" where
  "interface_there found i \<equiv> i \<in> set (fst (find_interfaces found))"

text \<open>The interface the handler of an opcode is given. A client call is given the client.\<close>

definition opcode_interface :: "u16 \<Rightarrow> steam_interface list" where
  "opcode_interface opcode =
     (if opcode = LSTEAM_BRIDGE_CLIENT_CALL then [Steam_Client]
      else if opcode = LSTEAM_BRIDGE_USER_CALL then [Steam_User]
      else if opcode = LSTEAM_BRIDGE_FRIENDS_CALL then [Steam_Friends]
      else if opcode = LSTEAM_BRIDGE_UTILS_CALL then [Steam_Utils]
      else if opcode = LSTEAM_BRIDGE_REMOTE_STORAGE_CALL then [Steam_Remote_Storage]
      else if opcode = LSTEAM_BRIDGE_NETWORKING_CALL then [Steam_Networking]
      else if opcode = LSTEAM_BRIDGE_GAME_SERVER_STATS_CALL then [Steam_Client]
      else if opcode = LSTEAM_BRIDGE_USER_STATS_CALL then [Steam_User_Stats]
      else if opcode = LSTEAM_BRIDGE_UGC_CALL then [Steam_UGC14, Steam_UGC15]
      else if opcode = LSTEAM_BRIDGE_APPS_CALL then [Steam_Apps]
      else if opcode = LSTEAM_BRIDGE_HTTP_CALL then [Steam_HTTP]
      else if opcode = LSTEAM_BRIDGE_INVENTORY_CALL then [Steam_Inventory]
      else if opcode = LSTEAM_BRIDGE_GAME_SEARCH_CALL then [Steam_Game_Search]
      else if opcode = LSTEAM_BRIDGE_APP_LIST_CALL then [Steam_App_List]
      else if opcode = LSTEAM_BRIDGE_VIDEO_CALL then [Steam_Video]
      else if opcode = LSTEAM_BRIDGE_PARENTAL_CALL then [Steam_Parental]
      else if opcode = LSTEAM_BRIDGE_NETWORK_MESSAGES_CALL then [Steam_Network_Messages, Steam_Networking]
      else if opcode = LSTEAM_BRIDGE_NETWORK_SOCKETS_CALL then [Steam_Network_Sockets]
      else if opcode = LSTEAM_BRIDGE_NETWORK_UTILS_CALL then [Steam_Network_Utils]
      else if opcode = LSTEAM_BRIDGE_HTML_CALL then [Steam_HTML]
      else [Steam_Lobby])"

lemma first_found_ok: "fst (first_found found ls) \<longleftrightarrow> (\<exists>l \<in> set ls. found l)"
  by (induction ls) (auto simp: case_prod_unfold)

lemma found_in_rows: "i \<in> set (found_rows found rows) \<longleftrightarrow> (\<exists>row \<in> set rows. fst row = i \<and> (\<exists>l \<in> set (snd row). found l))"
  by (force simp: found_rows_def first_found_ok)

lemma interface_found_iff:
  "interface_there found i \<longleftrightarrow>
     (if i = Steam_Client then found (Created Steam_Client)
      else if i = Steam_App_Ticket then found (Created Steam_Client) \<and> found (Generic i) \<or> found (Created i)
      else found (Created Steam_Client) \<and>
        (if i \<in> {Steam_Network_Messages, Steam_Network_Sockets, Steam_Network_Utils} then found (Generic i) \<or> found (Created i) else found (Getter i)))"
  by (cases i) (simp_all add: find_interfaces_def Let_def found_in_rows client_lookups_def)

lemma tried_cases: "Created i \<in> set (snd (first_found found ls)) \<Longrightarrow> ls = [Generic j, Created j] \<or> ls = [Getter j] \<or> ls = [Generic j] \<Longrightarrow> i = j \<and> \<not> found (Generic j)"
  by (auto split: if_splits)

lemma tried_subset: "set (snd (first_found found ls)) \<subseteq> set ls"
  by (induction ls) (auto simp: case_prod_unfold)

lemma tried_distinct: "distinct ls \<Longrightarrow> distinct (snd (first_found found ls))"
  using tried_subset by (induction ls) (auto simp: case_prod_unfold)

lemma tried_rows_subset: "set (tried_rows found rows) \<subseteq> set (concat (map snd rows))"
proof
  fix l assume "l \<in> set (tried_rows found rows)"
  then obtain row where "row \<in> set rows" "l \<in> set (snd (first_found found (snd row)))" by (auto simp: tried_rows_def)
  then show "l \<in> set (concat (map snd rows))" using tried_subset [of found "snd row"] by auto
qed

lemma tried_rows_distinct: "distinct (concat (map snd rows)) \<Longrightarrow> distinct (tried_rows found rows)"
proof (induction rows)
  case (Cons row rows)
  have "set (snd (first_found found (snd row))) \<inter> set (tried_rows found rows) = {}"
    using Cons.prems tried_subset [of found "snd row"] tried_rows_subset [of found rows] by fastforce
  then show ?case using Cons tried_distinct by (simp add: tried_rows_def case_prod_unfold)
qed (simp add: tried_rows_def)

lemma tries_cases:
  obtains ticket where "snd (find_interfaces found) = Created Steam_Client # tried_rows found (if found (Created Steam_Client) then client_lookups else []) @ ticket"
    "ticket = [] \<or> ticket = [Created Steam_App_Ticket] \<and> \<not> (found (Created Steam_Client) \<and> found (Generic Steam_App_Ticket))"
proof -
  have "Steam_App_Ticket \<in> set (found_rows found client_lookups)" if "found (Generic Steam_App_Ticket)" using that by (simp add: found_in_rows client_lookups_def)
  then have "Steam_App_Ticket \<notin> set (found_rows found (if found (Created Steam_Client) then client_lookups else [])) \<Longrightarrow>
      \<not> (found (Created Steam_Client) \<and> found (Generic Steam_App_Ticket))" by auto
  then show ?thesis
    using that [of "[]"] that [of "[Created Steam_App_Ticket]"]
    by (cases "Steam_App_Ticket \<in> set (found_rows found (if found (Created Steam_Client) then client_lookups else []))") (simp_all add: find_interfaces_def Let_def)
qed

lemma client_rows:
  "row \<in> set client_lookups \<Longrightarrow> snd row = [Generic (fst row), Created (fst row)] \<or> snd row = [Getter (fst row)] \<or> snd row = [Generic (fst row)]"
  by (auto simp: client_lookups_def)

lemma lookups_once: "distinct (snd (find_interfaces found))"
proof -
  let ?all = "concat (map snd client_lookups)" and ?rows = "if found (Created Steam_Client) then client_lookups else []"
  have all: "distinct ?all" "Created Steam_Client \<notin> set ?all" "Created Steam_App_Ticket \<notin> set ?all" by (simp_all add: client_lookups_def)
  have rows: "distinct (tried_rows found ?rows)" "set (tried_rows found ?rows) \<subseteq> set ?all"
    using tried_rows_distinct [of ?rows found] tried_rows_subset [of found ?rows] all(1) by (cases "found (Created Steam_Client)"; simp add: tried_rows_def)+
  obtain ticket where t: "snd (find_interfaces found) = Created Steam_Client # tried_rows found ?rows @ ticket" "ticket = [] \<or> ticket = [Created Steam_App_Ticket]"
    using tries_cases [of found] by metis
  have "Created Steam_Client \<notin> set (tried_rows found ?rows)" "Created Steam_App_Ticket \<notin> set (tried_rows found ?rows)" using rows(2) all(2,3) by blast+
  then show ?thesis using t rows(1) by auto
qed

lemma fallback_only:
  assumes "Created i \<in> set (snd (find_interfaces found))" "i \<noteq> Steam_Client" "found (Created Steam_Client)"
  shows "\<not> found (Generic i)"
proof -
  obtain ticket where t: "snd (find_interfaces found) = Created Steam_Client # tried_rows found client_lookups @ ticket"
      "ticket = [] \<or> ticket = [Created Steam_App_Ticket] \<and> \<not> found (Generic Steam_App_Ticket)"
    using tries_cases [of found] assms(3) by metis
  show ?thesis
  proof (cases "Created i \<in> set (tried_rows found client_lookups)")
    case True
    then obtain row where row: "row \<in> set client_lookups" "Created i \<in> set (snd (first_found found (snd row)))" by (auto simp: tried_rows_def)
    then show ?thesis using tried_cases [OF row(2) client_rows [OF row(1)]] by blast
  next
    case False
    then show ?thesis using t assms by auto
  qed
qed

text \<open>What \<open>bridge_main\<close> is told about the library, taken from the look-ups.\<close>

definition with_lookups :: "(string \<Rightarrow> bool) \<Rightarrow> (lookup \<Rightarrow> bool) \<Rightarrow> bridge_start \<Rightarrow> bridge_start" where
  "with_lookups defined found ev =
     ev\<lparr>ev_symbols := fst (require_symbol defined required_symbols) = None, ev_client := found (Created Steam_Client), ev_user_iface := found (Getter Steam_User),
        ev_html := found (Getter Steam_HTML), ev_ticket_generic := found (Generic Steam_App_Ticket), ev_ticket_created := found (Created Steam_App_Ticket)\<rparr>"

text \<open>
  The server starts with exactly the interfaces the look-ups find: a missing one is looked for in every way the source has for it and in no other, no look-up is made twice, the
  second way is used only when the first fails, and a function that is missing ends the start with status 2 before a session is opened.
\<close>

theorem start_finds_interfaces:
  fixes h :: 'h and defined :: "string \<Rightarrow> bool" and found :: "lookup \<Rightarrow> bool" and ev :: bridge_start
  defines "server \<equiv> initial_server (with_lookups defined found ev) h"
  shows "(sv_client server \<longleftrightarrow> interface_there found Steam_Client) \<and> (sv_user_iface server \<longleftrightarrow> interface_there found Steam_User) \<and>
    (sv_html server \<longleftrightarrow> interface_there found Steam_HTML) \<and> (sv_app_ticket_iface server \<longleftrightarrow> interface_there found Steam_App_Ticket) \<and>
    distinct (snd (find_interfaces found)) \<and>
    (\<forall>i. Created i \<in> set (snd (find_interfaces found)) \<and> i \<noteq> Steam_Client \<longrightarrow> \<not> found (Created Steam_Client) \<or> \<not> found (Generic i)) \<and>
    (\<forall>hs old_umask turns name. name \<in> set required_symbols \<and> \<not> defined name \<longrightarrow>
       (\<exists>events. bridge_main hs h (with_lookups defined found ev) old_umask turns = Some (2, events) \<and> (\<forall>e \<in> set events. \<exists>l. e = Library_Opened l)))"
proof (intro conjI)
  show "distinct (snd (find_interfaces found))" by (rule lookups_once)
  show "\<forall>i. Created i \<in> set (snd (find_interfaces found)) \<and> i \<noteq> Steam_Client \<longrightarrow> \<not> found (Created Steam_Client) \<or> \<not> found (Generic i)"
    using fallback_only by blast
  show "\<forall>hs old_umask turns name. name \<in> set required_symbols \<and> \<not> defined name \<longrightarrow>
      (\<exists>events. bridge_main hs h (with_lookups defined found ev) old_umask turns = Some (2, events) \<and> (\<forall>e \<in> set events. \<exists>l. e = Library_Opened l))"
    using require_symbol_missing [of defined required_symbols] by (auto simp: bridge_main_def with_lookups_def Let_def)
qed (simp_all add: server_def initial_server_def with_lookups_def interface_found_iff)

section \<open>The handlers with the interfaces found\<close>

definition native_handlers ::
  "(lookup \<Rightarrow> bool) \<Rightarrow> voice_results \<Rightarrow> voice_answers \<Rightarrow> nat \<Rightarrow> bool \<Rightarrow> u64 \<Rightarrow> (u32 \<Rightarrow> u32 \<Rightarrow> bool) \<Rightarrow> game_server_answers \<Rightarrow>
   utils_answers \<Rightarrow> remote_storage_answers \<Rightarrow> networking_answers \<Rightarrow> mm_library \<Rightarrow> mm_answers \<Rightarrow> 'h bridge_handlers \<Rightarrow>
   (bool \<times> (bridge_utils_state \<times> bridge_remote_storage_state \<times> bridge_networking_state) \<times> bridge_mm_state \<times> 'h) bridge_handlers" where
  "native_handlers found vc va address_size init browser answer ga ua ra na lb ma rest =
     (let there = interface_there found in
      modelled_handlers vc (there Steam_User) va (there Steam_Client) address_size (there Steam_HTML) init browser (there Steam_Parental) answer ga
        (transfer_handlers (there Steam_Utils) ua (there Steam_Remote_Storage) ra (there Steam_Networking) na (matchmaking_handlers lb ma rest)))"

theorem native_handlers_ok: "handlers_ok rest \<Longrightarrow> handlers_ok (native_handlers found vc va address_size init browser answer ga ua ra na lb ma rest)"
  unfolding native_handlers_def Let_def by (intro modelled_handlers_ok transfer_handlers_ok matchmaking_handlers_ok)

lemma absent_interface:
  "handle_client_call False n q r = ((stamp_handled LSTEAM_BRIDGE_CLIENT_CALL r)\<lparr>rp_status := - ENODEV\<rparr>, None)"
  "handle_utils_call False ua us q r = ((stamp_handled LSTEAM_BRIDGE_UTILS_CALL r)\<lparr>rp_status := - ENODEV\<rparr>, us, [])"
  "handle_remote_storage_call False ra fs q r = ((stamp_handled LSTEAM_BRIDGE_REMOTE_STORAGE_CALL r)\<lparr>rp_status := - ENODEV\<rparr>, fs, [])"
  "handle_networking_call False na ns q r = ((stamp_handled LSTEAM_BRIDGE_NETWORKING_CALL r)\<lparr>rp_status := - ENODEV\<rparr>, ns, [])"
  "handle_parental_call False answer q r = (stamp_handled LSTEAM_BRIDGE_PARENTAL_CALL r)\<lparr>rp_status := - ENODEV\<rparr>"
  "handle_html_call False init browser initialized q r = ((stamp_handled LSTEAM_BRIDGE_HTML_CALL r)\<lparr>rp_status := - ENODEV\<rparr>, initialized, [])"
  by (simp_all add: handle_client_call_def handle_utils_call_def handle_remote_storage_call_def handle_networking_call_def handle_parental_call_def handle_html_call_def)

abbreviation modelled_opcodes :: "u16 set" where
  "modelled_opcodes \<equiv>
     {LSTEAM_BRIDGE_CLIENT_CALL, LSTEAM_BRIDGE_UTILS_CALL, LSTEAM_BRIDGE_REMOTE_STORAGE_CALL, LSTEAM_BRIDGE_NETWORKING_CALL, LSTEAM_BRIDGE_PARENTAL_CALL, LSTEAM_BRIDGE_HTML_CALL}"

text \<open>
  A request for an interface the library does not have is answered with \<^verbatim>\<open>-ENODEV\<close>, or with \<^verbatim>\<open>-EINVAL\<close> when its second packet does not have the size of a request, and
  nothing in the server changes.
\<close>

theorem missing_interface_reported:
  assumes "hs = native_handlers found vc va address_size init browser answer ga ua ra na lb ma rest"
    and "rq_opcode request \<in> modelled_opcodes" "opcode_interface (rq_opcode request) = [i]" "\<not> interface_there found i"
    and "serve_interface hs packet request server = (r, server')"
  shows "rp_status r = (if map_option decode_game_server_request (recv_struct (sizeof 8 16 game_server_request_members) packet) = None then - EINVAL else - ENODEV) \<and>
    server' = server"
proof -
  have handled: "\<exists>r'. hd_interface hs (rq_opcode request) h g q r = (r', g, h) \<and> rp_status r' = - ENODEV" for h g q r
  proof -
    obtain initialized us fs ns mm h' where h: "h = (initialized, (us, fs, ns), mm, h')" by (metis prod.exhaust)
    show ?thesis
      using assms(2-4) unfolding assms(1) h native_handlers_def modelled_handlers_def transfer_handlers_def Let_def
      by (elim insertE emptyE) (simp_all add: opcode_interface_def absent_interface)
  qed
  show ?thesis
  proof (cases "map_option decode_game_server_request (recv_struct (sizeof 8 16 game_server_request_members) packet)")
    case None
    then show ?thesis using assms(5) unfolding serve_interface_def None by auto
  next
    case (Some q)
    then show ?thesis using assms(5) handled [of "sv_handlers server" "sv_game_server server" q "blank_game_server_response\<lparr>rp_sequence := rq_sequence request\<rparr>"]
      unfolding serve_interface_def Some by auto
  qed
qed

theorem missing_interface_reported_witness:
  "\<forall>vc va ga ua ra na ma server. \<exists>r. serve_interface
     (native_handlers (\<lambda>l. l = Created Steam_Client) vc va 24 True 5 (\<lambda>m a. True) ga ua ra na demo_library ma demo_handlers)
     (Some (encode_game_server_request (demo_file_request 2 0 0 []))) (bridge_request LSTEAM_BRIDGE_UTILS_CALL) server = (r, server) \<and> rp_status r = - ENODEV"
proof (intro allI)
  fix vc va ga ua ra na ma and server :: "(bool \<times> (bridge_utils_state \<times> bridge_remote_storage_state \<times> bridge_networking_state) \<times> bridge_mm_state \<times> unit) bridge_server"
  let ?hs = "native_handlers (\<lambda>l. l = Created Steam_Client) vc va 24 True 5 (\<lambda>m a. True) ga ua ra na demo_library ma demo_handlers"
  let ?packet = "Some (encode_game_server_request (demo_file_request 2 0 0 []))" and ?request = "bridge_request LSTEAM_BRIDGE_UTILS_CALL"
  obtain r server' where run: "serve_interface ?hs ?packet ?request server = (r, server')" by fastforce
  have op: "rq_opcode ?request \<in> modelled_opcodes" "opcode_interface (rq_opcode ?request) = [Steam_Utils]" by (simp_all add: opcode_interface_def)
  have missing: "\<not> interface_there (\<lambda>l. l = Created Steam_Client) Steam_Utils" by (simp add: interface_found_iff)
  have "game_server_request_ok (demo_file_request 2 0 0 [])" by (simp add: game_server_request_ok_def demo_file_request_def)
  then have "map_option decode_game_server_request (recv_struct (sizeof 8 16 game_server_request_members) ?packet) \<noteq> None"
    using game_server_request_msg.received by simp
  with missing_interface_reported [OF refl op missing run] have "rp_status r = - ENODEV \<and> server' = server" by simp
  then show "\<exists>r. serve_interface ?hs ?packet ?request server = (r, server) \<and> rp_status r = - ENODEV" using run by blast
qed

end
