(* ===== verification/Tgc_Native_Lsof.thy ===== *)
theory Tgc_Native_Lsof
  imports Tgc_Text
begin

text \<open>
  The program the helper shim puts in the place of \<^verbatim>\<open>lsof\<close>, \<^verbatim>\<open>src/reference-steamclienttermux/diagnostics/native-lsof.c\<close>: asked for a local TCP port it reports
  the network process of the Steam web helper, in the field format of \<^verbatim>\<open>lsof -F\<close>. The files below the root of \<^verbatim>\<open>/proc\<close> are a function from paths to what reading
  them yields, \<open>None\<close> for one that cannot be opened; directories likewise are the names in the order they are read.
\<close>

type_synonym proc_files = "string \<Rightarrow> string option"

definition numeric_name :: "string \<Rightarrow> bool" where
  "numeric_name name \<longleftrightarrow> name \<noteq> [] \<and> list_all is_digit name"

definition build_proc_path :: "string \<Rightarrow> string \<Rightarrow> string \<Rightarrow> string option" where
  "build_proc_path root pid leaf =
     (let output = root @ ''/'' @ pid @ ''/'' @ leaf in if length output < 4096 then Some output else None)"

definition open_proc :: "proc_files \<Rightarrow> string \<Rightarrow> string \<Rightarrow> string \<Rightarrow> string option" where
  "open_proc files root pid leaf = (case build_proc_path root pid leaf of None \<Rightarrow> None | Some path \<Rightarrow> files path)"

definition read_cmdline :: "proc_files \<Rightarrow> string \<Rightarrow> string \<Rightarrow> string option" where
  "read_cmdline files root pid =
     (case open_proc files root pid ''cmdline'' of
        None \<Rightarrow> None
      | Some content \<Rightarrow>
          let bytes = take 16383 content in
          if bytes = [] then None else Some (map (\<lambda>c. if c = CHR 0x00 then CHR '' '' else c) bytes))"

text \<open>\<^verbatim>\<open>fgets\<close> with room for \<open>n\<close> characters, and all the pieces it delivers up to the end.\<close>

fun fgets :: "nat \<Rightarrow> string \<Rightarrow> string \<times> string" where
  "fgets 0 s = ([], s)"
| "fgets (Suc n) [] = ([], [])"
| "fgets (Suc n) (c # cs) = (if c = CHR 0x0A then ([c], cs) else case fgets n cs of (l, rest) \<Rightarrow> (c # l, rest))"

lemma fgets_split: "fgets n s = (l, rest) \<Longrightarrow> l @ rest = s"
  by (induction n s arbitrary: l rule: fgets.induct) (auto split: if_splits prod.splits)

lemma fgets_progress: "fgets n (c # cs) = (l, rest) \<Longrightarrow> 0 < n \<Longrightarrow> length rest < Suc (length cs)"
  using fgets_split [of "n - 1" cs] by (cases n) (fastforce split: if_splits prod.splits)+

function fgets_all :: "string \<Rightarrow> string list" where
  "fgets_all [] = []"
| "fgets_all (c # cs) = (case fgets 255 (c # cs) of (l, rest) \<Rightarrow> l # fgets_all rest)"
  by pat_completeness auto
termination
  by (relation "measure length") (simp_all add: fgets_progress [OF sym])

text \<open>\<^verbatim>\<open>sscanf(line, "PPid:%ld", ...)\<close>: the number, when one is assigned.\<close>

definition scan_ppid :: "string \<Rightarrow> s64 option" where
  "scan_ppid line =
     (let s = c_str line; t = drop 5 s in
      if take 5 s = ''PPid:'' \<and> fst (snd (number_parts t)) \<noteq> [] then Some (strtol10 t) else None)"

fun first_ppid :: "string list \<Rightarrow> s64" where
  "first_ppid [] = 0"
| "first_ppid (line # lines) = (case scan_ppid line of Some parent \<Rightarrow> parent | None \<Rightarrow> first_ppid lines)"

definition read_parent_pid :: "proc_files \<Rightarrow> string \<Rightarrow> string \<Rightarrow> s64" where
  "read_parent_pid files root pid =
     (case open_proc files root pid ''status'' of None \<Rightarrow> 0 | Some content \<Rightarrow> first_ppid (fgets_all content))"

definition port_prefix :: string where
  "port_prefix = ''TCP@127.0.0.1:''"

definition requested_port :: "string list \<Rightarrow> string option" where
  "requested_port argv =
     map_option (drop (length port_prefix))
       (find (\<lambda>s. take (length port_prefix) s = port_prefix \<and> length s > length port_prefix) (drop 1 argv))"

definition reported :: "proc_files \<Rightarrow> string \<Rightarrow> string \<Rightarrow> bool" where
  "reported files root name \<longleftrightarrow>
     numeric_name name \<and>
     (case read_cmdline files root name of
        None \<Rightarrow> False
      | Some command \<Rightarrow> occurs_in ''/steamrtarm64/steamwebhelper'' command \<and> occurs_in ''NetworkService'' command)"

definition lsof_record :: "string \<Rightarrow> s64 \<Rightarrow> u32 \<Rightarrow> string \<Rightarrow> string" where
  "lsof_record pid parent euid port =
     ''p'' @ pid @ [CHR 0x0A] @ ''R'' @ show_int (sint parent) @ [CHR 0x0A] @ ''u'' @ show_int (uint euid) @ [CHR 0x0A] @
     ''n127.0.0.1:'' @ port @ ''->127.0.0.1:27060'' @ [CHR 0x0A]"

fun lsof_loop :: "proc_files \<Rightarrow> string \<Rightarrow> u32 \<Rightarrow> string \<Rightarrow> string list \<Rightarrow> bool \<Rightarrow> string \<Rightarrow> bool \<times> string" where
  "lsof_loop files root euid port [] found out = (found, out)"
| "lsof_loop files root euid port (name # names) found out =
     (if \<not> reported files root name then lsof_loop files root euid port names found out
      else lsof_loop files root euid port names True (out @ lsof_record name (read_parent_pid files root name) euid port))"

text \<open>\<open>env_root\<close>: the variable that moves the root; the result is the exit status and the output.\<close>

definition lsof_main :: "string option \<Rightarrow> string list \<Rightarrow> (string \<Rightarrow> string list option) \<Rightarrow> proc_files \<Rightarrow> u32 \<Rightarrow> int \<times> string" where
  "lsof_main env_root argv directories files euid =
     (case requested_port argv of
        None \<Rightarrow> (1, [])
      | Some port \<Rightarrow>
          let root = (case env_root of None \<Rightarrow> ''/proc'' | Some r \<Rightarrow> if r = [] then ''/proc'' else r) in
          if hd root \<noteq> CHR ''/'' then (1, [])
          else
            case directories root of
              None \<Rightarrow> (1, [])
            | Some names \<Rightarrow> (case lsof_loop files root euid port names False [] of (found, out) \<Rightarrow> (if found then 0 else 1, out)))"

section \<open>Properties\<close>

lemma lsof_loop_eq:
  "lsof_loop files root euid port names found out =
     (found \<or> (\<exists>name \<in> set names. reported files root name),
      out @ concat (map (\<lambda>name. lsof_record name (read_parent_pid files root name) euid port) (filter (reported files root) names)))"
  by (induction names arbitrary: found out) auto

lemma fgets_line:
  assumes "CHR 0x0A \<notin> set line" "length line < n"
  shows "fgets n (line @ CHR 0x0A # rest) = (line @ [CHR 0x0A], rest)"
  using assms
proof (induction line arbitrary: n)
  case Nil
  then show ?case by (cases n) auto
next
  case (Cons c line)
  then show ?case by (cases n) auto
qed

text \<open>Lines that fit the buffer are read one by one.\<close>

lemma fgets_all_line:
  assumes "CHR 0x0A \<notin> set line" "length line < 255"
  shows "fgets_all (line @ CHR 0x0A # rest) = (line @ [CHR 0x0A]) # fgets_all rest"
  using fgets_line [OF assms, of rest] by (cases "line @ CHR 0x0A # rest") auto

definition status_lines :: "string list \<Rightarrow> string" where
  "status_lines lines = concat (map (\<lambda>line. line @ [CHR 0x0A]) lines)"

lemma fgets_all_lines:
  assumes "\<forall>line \<in> set lines. CHR 0x0A \<notin> set line \<and> length line < 255"
  shows "fgets_all (status_lines lines @ rest) = map (\<lambda>line. line @ [CHR 0x0A]) lines @ fgets_all rest"
  using assms by (induction lines) (simp_all add: status_lines_def fgets_all_line)

lemma take_takeWhile_eq: "take k (takeWhile P xs) = p \<Longrightarrow> length p = k \<Longrightarrow> take k xs = p"
  by (metis append_eq_conv_conj append_take_drop_id append.assoc takeWhile_dropWhile_id)

lemma scan_ppid_other:
  assumes "take 5 line \<noteq> ''PPid:''" "CHR 0x0A \<notin> set line"
  shows "scan_ppid (line @ [CHR 0x0A]) = None"
proof -
  have "take 5 (line @ [CHR 0x0A]) \<noteq> ''PPid:''"
  proof (cases "length line < 5")
    case True
    then have "CHR 0x0A \<in> set (take 5 (line @ [CHR 0x0A]))" by simp
    moreover have "CHR 0x0A \<notin> set ''PPid:''" by simp
    ultimately show ?thesis by metis
  next
    case False
    then show ?thesis using assms(1) by simp
  qed
  then have "take 5 (c_str (line @ [CHR 0x0A])) \<noteq> ''PPid:''"
    using take_takeWhile_eq [of 5 _ "line @ [CHR 0x0A]" "''PPid:''"] unfolding c_str_def by auto
  then show ?thesis by (simp add: scan_ppid_def Let_def)
qed

lemma first_ppid_skips:
  assumes "\<forall>line \<in> set lines. take 5 line \<noteq> ''PPid:'' \<and> CHR 0x0A \<notin> set line"
  shows "first_ppid (map (\<lambda>line. line @ [CHR 0x0A]) lines @ rest) = first_ppid rest"
  using assms by (induction lines) (simp_all add: scan_ppid_other)

lemma show_int_chars: "c \<in> set (show_int i) \<Longrightarrow> is_digit c \<or> c = CHR ''-''"
  using show_nat_is_digit by (auto simp: show_int_def split: if_splits)

lemma scan_ppid_number:
  assumes "- (2 ^ 63) \<le> i" "i < 2 ^ 63"
  shows "scan_ppid (''PPid:'' @ [CHR 0x09] @ show_int i @ [CHR 0x0A]) = Some (word_of_int i)"
proof -
  let ?line = "''PPid:'' @ [CHR 0x09] @ show_int i @ [CHR 0x0A]"
  let ?number = "[CHR 0x09] @ show_int i @ [CHR 0x0A]"
  have "c \<noteq> CHR 0x00" if "c \<in> set ?line" for c using that show_int_chars [of c i] by (auto simp: is_digit_def)
  then have "c_str ?line = ?line" unfolding c_str_def by (simp add: takeWhile_eq_all_conv)
  moreover have blank: "\<forall>c \<in> set [CHR 0x09]. is_space c" and rest: "[CHR 0x0A] = [] \<or> \<not> is_digit (hd [CHR 0x0A])"
    by (simp_all add: is_space_def is_digit_def)
  have "fst (snd (number_parts ?number)) \<noteq> []"
    using number_parts_show_nat [OF blank rest, of "''-''" "nat (- i)"] number_parts_show_nat [OF blank rest, of "[]" "nat i"]
    by (auto simp: show_int_def show_nat_not_Nil)
  moreover have "strtol10 ?number = word_of_int i" by (rule strtol10_show_int [OF assms blank rest])
  ultimately show ?thesis by (simp add: scan_ppid_def Let_def)
qed

text \<open>The parent is the number of the first \<^verbatim>\<open>PPid\<close> line, behind any lines the buffer holds.\<close>

theorem parent_is_read:
  assumes "build_proc_path root pid ''status'' = Some path"
    and "files path = Some (status_lines (lines @ [''PPid:'' @ [CHR 0x09] @ show_int i]) @ rest)"
    and "\<forall>line \<in> set lines. take 5 line \<noteq> ''PPid:'' \<and> CHR 0x0A \<notin> set line \<and> length line < 255"
    and "0 \<le> i" "i < 2 ^ 63"
  shows "read_parent_pid files root pid = word_of_int i"
proof -
  let ?ppid = "''PPid:'' @ [CHR 0x09] @ show_int i"
  have "set ?ppid \<subseteq> {CHR ''P'', CHR ''i'', CHR ''d'', CHR '':'', CHR 0x09, CHR ''-''} \<union> {c. is_digit c}" using show_int_chars [of _ i] by auto
  then have "CHR 0x0A \<notin> set ?ppid" by (auto simp: is_digit_def)
  moreover have "nat i < 10 ^ Suc 18" using assms(4,5) by (simp add: nat_less_iff)
  then have "length ?ppid < 255" using show_nat_length [of "nat i" 18] assms(4) by (simp add: show_int_def)
  ultimately have pieces: "fgets_all (status_lines (lines @ [?ppid]) @ rest) =
      map (\<lambda>line. line @ [CHR 0x0A]) lines @ (?ppid @ [CHR 0x0A]) # fgets_all rest"
    using fgets_all_lines [of "lines @ [?ppid]" rest] assms(3) by auto
  have "first_ppid (fgets_all (status_lines (lines @ [?ppid]) @ rest)) = word_of_int i"
    unfolding pieces using first_ppid_skips [of lines] assms(3) scan_ppid_number [of i] assms(4,5) by simp
  then show ?thesis using assms(1,2) by (simp add: read_parent_pid_def open_proc_def)
qed

text \<open>
  The report is exact: one record for each process with a numeric name whose command line names the web helper and the network service, in the order of the directory, with its
  parent, the caller's user and the port asked for; the exit status is zero exactly when there is one.
\<close>

theorem lsof_report_exact:
  assumes "requested_port argv = Some port" and "root = (if env_root = None \<or> env_root = Some [] then ''/proc'' else the env_root)"
    and "hd root = CHR ''/''" "directories root = Some names" and "lsof_main env_root argv directories files euid = (code, out)"
  shows "out = concat (map (\<lambda>name. lsof_record name (read_parent_pid files root name) euid port) (filter (reported files root) names)) \<and>
    (code = 0 \<longleftrightarrow> (\<exists>name \<in> set names. reported files root name))"
proof -
  have root: "(case env_root of None \<Rightarrow> ''/proc'' | Some r \<Rightarrow> if r = [] then ''/proc'' else r) = root"
    using assms(2) by (cases env_root) auto
  show ?thesis using assms(5) unfolding lsof_main_def root Let_def assms(1) using assms(3,4) by (auto simp: lsof_loop_eq split: if_splits)
qed

end
