(* ===== verification/Spec2Isabelle.thy ===== *)
theory Spec2Isabelle
  imports Tgc_Broker_Props Tgc_Client_Data Tgc_Glibc_Props Tgc_Daemon Tgc_Exec_Props Tgc_Path_Shims Tgc_Mprotect
    Tgc_Shims Tgc_Steam_Sysv Tgc_Steam_Shims Tgc_Bridge_Client Tgc_Bridge_Startup Tgc_Native_Lsof
begin

text \<open>
  \<^bold>\<open>Running the Steam client and its glibc programs on Android.\<close>

  The repository runs a glibc world beside Android's own C library. Android's kernel offers no System V
  semaphores, hides parts of \<^verbatim>\<open>/proc\<close> and cannot start a glibc program by its ELF interpreter. The directory
  \<^verbatim>\<open>src/reference-termux-glibc-compat\<close> supplies what is missing; the shims \<^verbatim>\<open>src/steam-*-shim.c\<close> adapt the Steam client itself, and
  \<^verbatim>\<open>src/steam-bridge\<close> lets games that run under Wine use the native Steam client. This development models their C and C++ code.

  \<^bold>\<open>Parts and how they interact.\<close> A glibc program calls \<^verbatim>\<open>semget\<close>, \<^verbatim>\<open>semctl\<close> or \<^verbatim>\<open>semtimedop\<close>. The entry points of
  \<^verbatim>\<open>overlay/tgcompat-glibc.c\<close> give every thread a client and translate results to \<^verbatim>\<open>errno\<close>. The client (\<^verbatim>\<open>client.c\<close>)
  encodes one request (\<^verbatim>\<open>protocol.c\<close>), sends it over a Unix socket (\<^verbatim>\<open>transport.c\<close>) and waits for one response. The
  daemon (\<^verbatim>\<open>tgcompatd.c\<close>) accepts connections and runs one thread per client, which serves requests against the
  one broker (\<^verbatim>\<open>broker_server.c\<close>): under the broker's mutex a request is decoded and dispatched (\<^verbatim>\<open>broker_dispatch.c\<close>)
  to the semaphore store (\<^verbatim>\<open>sem_store.c\<close>). An operation that has to wait joins a queue and is retried when the state
  changes; a monitor thread applies the undo adjustments of processes that have exited. Independently of the broker,
  \<^verbatim>\<open>exec_shim.c\<close> interposes the functions that start programs and \<^verbatim>\<open>android_root_shim.c\<close> those that open files.
  The Steam shims do the same for paths, certificate bundles, helper commands, modules and Unix sockets of the Steam client, and \<^verbatim>\<open>steam-sysv-shim.c\<close> gives it
  semaphores inside one process, without the broker; \<^verbatim>\<open>native-lsof.c\<close> answers a helper command. The bridge's server (\<^verbatim>\<open>server.cpp\<close>) loads the Steam client library and
  serves one request per connection on a private Unix socket, in the messages of \<^verbatim>\<open>protocol.h\<close>; \<^verbatim>\<open>client.c\<close> is its command line client. Requests for an interface go to
  the handler in the \<^verbatim>\<open>*_native.inc\<close> file of the interface.

  \<^bold>\<open>Theories.\<close>
  \<^item> \<^verbatim>\<open>Tgc_Prelude\<close>: C integers as words, errno values, searches in tables, list and word lemmas, the generic transition
    system, and the collection \<open>shim_defs\<close> of the definitions of interposed functions.
  \<^item> \<^verbatim>\<open>Tgc_Text\<close>: C strings, \<^verbatim>\<open>strtoul\<close>, \<^verbatim>\<open>strtol\<close> and \<^verbatim>\<open>%ld\<close>, and that a printed number is read back.
  \<^item> \<^verbatim>\<open>Tgc_Wire\<close> (\<^verbatim>\<open>protocol.c\<close>, \<^verbatim>\<open>protocol.h\<close>): the integer and header codecs over a byte list with an offset. The
    locale of an exact codec is interpreted for every integer width; its lemmas give arrays of integers and the
    header round trip \<^verbatim>\<open>header_codec_exact\<close>.
  \<^item> \<^verbatim>\<open>Tgc_Sem_Store\<close> (\<^verbatim>\<open>sem_store.c\<close>): the tables of sets and of undo entries as lists of records and every operation
    of the store. \<^verbatim>\<open>Tgc_Sem_Store_Inv\<close>: the representation invariant \<open>store_wf\<close> and the identifiers.
    \<^verbatim>\<open>Tgc_Sem_Undo\<close>: the undo table as a function of process, identifier and number. \<^verbatim>\<open>Tgc_Sem_Ops\<close>: \<^verbatim>\<open>semop\<close> against its
    integer specification. \<^verbatim>\<open>Tgc_Sem_Contract\<close>: reachable stores and the contracts the other components use.
    \<^verbatim>\<open>Tgc_Sem_Props\<close>: the properties of the store. \<^verbatim>\<open>Tgc_Sem_Waiters\<close>: the counters of waiters.
  \<^item> \<^verbatim>\<open>Tgc_Dispatch\<close> (\<^verbatim>\<open>broker_dispatch.c\<close>): payload decoding, the call into the store and the response, for every opcode.
  \<^item> \<^verbatim>\<open>Tgc_Waiter_Queue\<close>, \<^verbatim>\<open>Tgc_Process\<close>, \<^verbatim>\<open>Tgc_Broker\<close> (\<^verbatim>\<open>broker_server.c\<close>): the linked queue of waiters over an explicit
    memory of nodes, the watcher table with the pidfd and \<^verbatim>\<open>/proc\<close> checks, and the critical sections of the threads.
    \<^verbatim>\<open>Tgc_Broker_Inv\<close>: the invariant of the broker. \<^verbatim>\<open>Tgc_Broker_System\<close>: the interleaving of all threads as a step
    relation \<open>sys_step\<close>. \<^verbatim>\<open>Tgc_Broker_Props\<close>: what holds in every reachable state, order of service, wake-ups,
    timeouts, creation and destruction.
  \<^item> \<^verbatim>\<open>Tgc_Transport\<close> (\<^verbatim>\<open>transport.c\<close>): listening, connecting, credentials and framing over partial reads and writes.
  \<^item> \<^verbatim>\<open>Tgc_Client\<close> (\<^verbatim>\<open>client.c\<close>), \<^verbatim>\<open>Tgc_Client_Props\<close>, \<^verbatim>\<open>Tgc_Client_Data\<close>: the client, its connection discipline, and
    the composition of client, wire, transport, broker and store: a call is the operation of the store.
  \<^item> \<^verbatim>\<open>Tgc_Glibc\<close> (\<^verbatim>\<open>tgcompat-glibc.c\<close>), \<^verbatim>\<open>Tgc_Glibc_Props\<close>: what each call of the C library stands for (\<open>libc_operation\<close>), and that
    it is that operation of the store, through client and broker and back to \<^verbatim>\<open>errno\<close>.
  \<^item> \<^verbatim>\<open>Tgc_Daemon\<close> (\<^verbatim>\<open>tgcompatd.c\<close>): start-up, accept loop, worker table and shutdown, and that nothing is left behind.
  \<^item> \<^verbatim>\<open>Tgc_Exec\<close>, \<^verbatim>\<open>Tgc_Exec_Props\<close> (\<^verbatim>\<open>exec_shim.c\<close>): the interposed functions, the ELF reader, the environment of the
    new program.
  \<^item> \<^verbatim>\<open>Tgc_Android_Root\<close> (\<^verbatim>\<open>android_root_shim.c\<close>): redirection of paths and the path-only second attempt. \<^verbatim>\<open>Tgc_Path_Shims\<close>: its public
    functions, and \<^verbatim>\<open>src/steam-path-shim.c\<close>, which moves \<^verbatim>\<open>/tmp\<close>.
  \<^item> \<^verbatim>\<open>Tgc_Mprotect\<close> (\<^verbatim>\<open>mprotect_shim.c\<close>): memory as a function of addresses and the kernel as a parameter with documented laws; a
    refused range is replaced by an anonymous copy and keeps its contents.
  \<^item> \<^verbatim>\<open>Tgc_Shims\<close> (\<^verbatim>\<open>flock_shim.c\<close>, \<^verbatim>\<open>robust_shim.c\<close>, \<^verbatim>\<open>raknet_recv_shim.c\<close>): record locks for file locks, the emulated robust list, and
    the recognition and slowing down of a busy thread.
  \<^item> \<^verbatim>\<open>Tgc_Steam_Sysv\<close> (\<^verbatim>\<open>src/steam-sysv-shim.c\<close>): the table of sets, \<^verbatim>\<open>semget\<close>, \<^verbatim>\<open>semctl\<close> and \<^verbatim>\<open>semop\<close>, against the integer specification the broker's
    \<^verbatim>\<open>semop\<close> is proved against.
  \<^item> \<^verbatim>\<open>Tgc_Steam_Shims\<close> (the other \<^verbatim>\<open>src/steam-*-shim.c\<close>): certificate bundles, the link of the running program, helper commands, modules, and the
    rewriting of Unix socket addresses. \<^verbatim>\<open>Tgc_Native_Lsof\<close> (\<^verbatim>\<open>diagnostics/native-lsof.c\<close>): the report of the web helper's network process.
  \<^item> \<^verbatim>\<open>Tgc_Bridge_Protocol\<close> (\<^verbatim>\<open>steam-bridge/protocol.h\<close>): C struct layout computed from the members, every message as a record with its encoding and decoding. The
    locale \<open>bridge_message\<close> (decoding inverts encoding, the length is the size of the struct) is interpreted for each message. \<^verbatim>\<open>Tgc_Bridge_Server\<close>
    (\<^verbatim>\<open>server.cpp\<close>): start, loop, check of the peer, every opcode with its own sending and closing, shutdown; the answers of the Steam library are the record \<open>steam_answers\<close> and the handlers of the interfaces
    the record \<open>bridge_handlers\<close>, both arguments. \<^verbatim>\<open>Tgc_Bridge_Handlers\<close>: the handlers of the voice, HTML surface, client, parental and game server interfaces,
    each an interpretation of the contract \<open>bridge_handler\<close> the server relies on. \<^verbatim>\<open>Tgc_Bridge_Matchmaking\<close>, \<^verbatim>\<open>Tgc_Bridge_Mm_Props\<close>
    (\<^verbatim>\<open>matchmaking_native.inc\<close>): the tables of server lists and questions, with the queues of their events (the locale \<open>bounded_queue\<close>, interpreted on the deque and on
    the ring), as a step relation with the library's callbacks. \<^verbatim>\<open>Tgc_Bridge_Transfers\<close>, \<^verbatim>\<open>Tgc_Bridge_Transfer_Props\<close> (\<^verbatim>\<open>utils_native.inc\<close>, \<^verbatim>\<open>remote_storage_native.inc\<close>,
    \<^verbatim>\<open>networking_native.inc\<close>): data in pieces; the locales \<open>gathering\<close> and \<open>piecewise_reading\<close> are interpreted on files, packets and images. \<^verbatim>\<open>Tgc_Bridge_Startup\<close>: the
    look-up of functions and interfaces in \<^verbatim>\<open>server.cpp\<close>, and all modelled handlers together. \<^verbatim>\<open>Tgc_Bridge_Client\<close> (\<^verbatim>\<open>client.c\<close>): the commands, both messages and the checks of the
    response, composed with the server. \<^verbatim>\<open>Tgc_Bridge_Props\<close>: the properties of the server.

  \<^bold>\<open>State and effects.\<close> A C struct is a record whose fields keep their order, a table is a list of slots and a pointer
  into it an index. Functions take the state and return the new one next to the C result. What a function takes from
  the machine (clocks, allocation, the answers of system calls) is an argument, left arbitrary in the theorems, so a theorem
  holds for every behaviour of the machine. Effects on descriptors and files are logs.

  \<^bold>\<open>Loops.\<close> There is no fuel. Loops over tables are structural recursions. Loops driven by the outside (reading a
  socket, accepting clients) recurse over the script of events the outside delivers; \<open>None\<close> means that the script ended while the
  code still waits. The walks over the linked queue of waiters are partial functions whose value \<open>None\<close> would be a walk that
  never ends; \<^verbatim>\<open>critical_sections_return\<close> shows it does not occur in a reachable state. A thread that waits on the condition
  variable is a state of the step relation.

  \<^bold>\<open>What the theorems show.\<close> \<^verbatim>\<open>semop\<close> has the result code of the integer specification on every branch, changes nothing unless it
  succeeds, and then changes exactly what it says; undo adjustments restore values at exit; the invariant holds in every
  reachable store and broker state; no wake-up is lost, waiters of a set are served in order and the first one that can
  proceed is answered; packets survive any fragmentation; connections, descriptors and threads are accounted for; a program
  call through glibc, client, socket and broker has the effect and result of the store operation; the shims
  change exactly what is configured, and the process start shim nothing when nothing is. Of the bridge: an application's ticket leaves the server only when it was checked; callbacks
  are freed only where one is held; every connection is closed once, only the same user is answered and refused connections change nothing; every response has the
  size and the header the client checks, so that the client accepts it; sizes stay inside the arrays they go with; server lists are released once and answers of servers arrive in order; a file written in
  pieces is handed on whole, in one call of the library, and never mixed with another; a file read in pieces arrives whole, also when other files are read in between; an interface that is not found is reported and nothing changes.

  \<^bold>\<open>Deviations the proofs brought out.\<close> A woken waiter is retried without watching its process again, so an undo
  entry can be left without a watcher (\<^verbatim>\<open>undo_entries_are_watched\<close> states the condition). An interrupted \<^verbatim>\<open>semop\<close> may have taken
  effect (\<^verbatim>\<open>interrupted_semop_may_take_effect\<close>). One error path of the exec shim loses a string (\<^verbatim>\<open>wrap_error_leak\<close>), and
  its search passes over programs that are not wrapped (\<^verbatim>\<open>execvpe_search\<close>). Opening NULL leaves \<^verbatim>\<open>errno\<close> alone
  (\<^verbatim>\<open>null_path_keeps_errno\<close>). The replacement of a range loses the rest of its last page (\<^verbatim>\<open>rest_of_page_is_lost\<close>) and is never
  made in builds that enter the kernel through the C library (\<^verbatim>\<open>libc_build_never_replaces\<close>). The path shim reads a mode that was not
  passed when a directory is opened (\<^verbatim>\<open>directory_open_reads_a_mode\<close>). The semaphores inside the process can wrap below zero
  (\<^verbatim>\<open>sysv_semop_underflows\<close>) and a sleeping call can go on with another set (\<^verbatim>\<open>sysv_identifier_reused\<close>); a socket path is read beyond the
  length of its address (\<^verbatim>\<open>address_is_overread\<close>). The bridge's server loses a callback when it delivers a second one from the other pipe
  (\<^verbatim>\<open>second_delivery_loses_callback\<close>) and passes the size of a session ticket on unchecked (\<^verbatim>\<open>auth_ticket_size_unchecked\<close>); the messages most calls use have a
  layout that depends on the alignment of 64-bit integers and are not asserted (\<^verbatim>\<open>bridge_abi\<close>).

  \<^bold>\<open>Not modelled.\<close> The pointers the shims get from \<^verbatim>\<open>dlsym\<close> are flags that say whether they were found. A socket of the transport is open: its checks for negative
  descriptors and null packets, which no caller reaches, are left out. Of the daemon, the wording of
  messages. Memory release (\<^verbatim>\<open>tgc_sem_store_destroy\<close>) appears only where a theorem accounts for it. The AArch64 entry of the
  robust list shim is assembly. The bridge's handlers for the remaining interfaces (user, friends, lobbies, applications, statistics, HTTP, inventory, workshop, the other
  networking interfaces, video and game search; \<^verbatim>\<open>*_native.inc\<close>) turn the words of a request into one call of the proprietary Steam library, whose headers are not in the
  repository; they are the parameter \<open>bridge_handlers\<close>, with the contract \<open>handlers_ok\<close>, which holds of the modelled handlers (\<^verbatim>\<open>native_handlers_ok\<close>). Probes, benchmarks,
  tests, scripts and patches are not part of the program.
\<close>

end
